(* ===== verification/Prelude.thy ===== *)
theory Prelude
  imports "HOL-Library.Word" "HOL-Library.Multiset"
begin

text \<open>
  Shared vocabulary of the development: the widths of the C integers, the outcome of code that
  can trip an \<^verbatim>\<open>assert\<close> or dereference a bad iterator, the standard containers the sources use
  (\<^verbatim>\<open>std::map\<close> as a key-sorted association list, \<^verbatim>\<open>std::multimap\<close> as a key-sorted list of pairs
  in insertion order), and the lemmas on them that the component theories share.

  The collections \<open>omap_simps\<close> (ordered maps), \<open>mm_simps\<close> (multimaps) and \<open>word_nat\<close> (moving
  64-bit arithmetic to natural numbers where it does not wrap) are what the component proofs
  hand to the simplifier.
\<close>

named_theorems omap_simps
named_theorems mm_simps
named_theorems word_nat

unbundle bit_operations_syntax

section \<open>Machine integers and faults\<close>

type_synonym u8 = "8 word"
type_synonym u16 = "16 word"
type_synonym u32 = "32 word"
type_synonym u64 = "64 word"

text \<open>
  What a C++ execution can do besides returning: a failed \<^verbatim>\<open>assert\<close> (named by the function it is
  in), an iterator or pointer used where it has no referent, an access out of bounds, a division by
  zero, a value read before it was written, an exception that nothing catches; \<open>Waiting\<close> is a wait that has not ended yet.
\<close>

datatype fault =
    Assert_Failed string
  | Bad_Iterator string
  | Null_Deref string
  | Out_Of_Bounds string
  | Use_After_Free string
  | Div_By_Zero string
  | Uninitialised string
  | Waiting string
  | Uncaught_Exception string

type_synonym 'a res = "fault + 'a"

definition bindE :: "'a res \<Rightarrow> ('a \<Rightarrow> 'b res) \<Rightarrow> 'b res" where
  "bindE m k = (case m of Inl e \<Rightarrow> Inl e | Inr a \<Rightarrow> k a)"

definition assertE :: "string \<Rightarrow> bool \<Rightarrow> unit res" where
  "assertE loc c = (if c then Inr () else Inl (Assert_Failed loc))"

lemma bindE_simps [simp]:
  "bindE (Inl e) k = Inl e"
  "bindE (Inr a) k = k a"
  by (simp_all add: bindE_def)

lemma bindE_Inr_iff: "bindE m k = Inr b \<longleftrightarrow> (\<exists>a. m = Inr a \<and> k a = Inr b)"
  by (cases m) auto

lemma assertE_simps [simp]:
  "assertE w True = Inr ()"
  "assertE w False = Inl (Assert_Failed w)"
  by (simp_all add: assertE_def)

lemma assertE_Inr_iff [simp]: "assertE w c = Inr u \<longleftrightarrow> c"
  by (simp add: assertE_def)

section \<open>Sixty-four bit arithmetic as natural numbers\<close>

lemma unat_lt64 [simp]: "unat (a :: u64) < 18446744073709551616"
proof -
  have "unat a < 2 ^ LENGTH(64)" by (rule unsigned_less)
  then show ?thesis by simp
qed

lemma unat_add64 [word_nat]:
  "unat (a :: u64) + unat b < 18446744073709551616 \<Longrightarrow> unat (a + b) = unat a + unat b"
  by (simp add: unat_word_ariths)

lemma unat_sub64 [word_nat]:
  "unat (b :: u64) \<le> unat a \<Longrightarrow> unat (a - b) = unat a - unat b"
  by (rule unat_sub) (simp add: word_le_nat_alt)

lemma unat_mod64 [word_nat]: "unat ((a :: u64) mod b) = unat a mod unat b"
  by (rule unat_mod_distrib)

lemma unat_div64 [word_nat]: "unat ((a :: u64) div b) = unat a div unat b"
  by (rule unat_div_distrib)

lemma unat_mult64 [word_nat]:
  "unat (a :: u64) * unat b < 18446744073709551616 \<Longrightarrow> unat (a * b) = unat a * unat b"
  by (simp add: unat_word_ariths)

lemma unat_take_bit63:
  "unat (a :: u64) < 9223372036854775808 \<Longrightarrow> take_bit 63 a = a"
  by (simp add: word_unat_eq_iff unsigned_take_bit_eq take_bit_nat_eq_self_iff)

lemma unat_lt32 [simp]: "unat (a :: u32) < 4294967296"
proof -
  have "unat a < 2 ^ LENGTH(32)" by (rule unsigned_less)
  then show ?thesis by simp
qed

lemma unat_add32: "unat (a :: u32) + unat b < 4294967296 \<Longrightarrow> unat (a + b) = unat a + unat b"
  by (simp add: unat_word_ariths)

lemma unat_mult32: "unat (a :: u32) * unat b < 4294967296 \<Longrightarrow> unat (a * b) = unat a * unat b"
  by (simp add: unat_word_ariths)

lemma unat_of_nat64 [word_nat]: "n < 18446744073709551616 \<Longrightarrow> unat (of_nat n :: u64) = n"
proof -
  have "unat (of_nat n :: u64) = n mod 2 ^ LENGTH(64)" by (rule unat_of_nat)
  then show "n < 18446744073709551616 \<Longrightarrow> unat (of_nat n :: u64) = n" by simp
qed

lemma unat_of_nat32: "n < 4294967296 \<Longrightarrow> unat (of_nat n :: u32) = n"
proof -
  have "unat (of_nat n :: u32) = n mod 2 ^ LENGTH(32)" by (rule unat_of_nat)
  then show "n < 4294967296 \<Longrightarrow> unat (of_nat n :: u32) = n" by simp
qed

lemma unat_ucast_up [simp]: "unat (ucast (x :: u32) :: u64) = unat x"
proof -
  have "take_bit 64 (unat x) = unat x"
    by (rule take_bit_nat_eq_self) (rule order.strict_trans [OF unat_lt32], simp)
  then show ?thesis by (simp add: unsigned_ucast_eq)
qed

lemma unat_ucast_down: "unat (x :: u64) < 4294967296 \<Longrightarrow> unat (ucast x :: u32) = unat x"
  by (simp add: unsigned_ucast_eq unsigned_take_bit_eq take_bit_nat_eq_self_iff)

lemma ucast_down_up: "unat (x :: u64) < 4294967296 \<Longrightarrow> ucast (ucast x :: u32) = x"
  by (simp only: word_unat_eq_iff unat_ucast_up unat_ucast_down)

lemmas word_order_nat = word_less_nat_alt word_le_nat_alt

section \<open>Bit-fields\<close>

text \<open>
  A C bit-field list on a little-endian target: the first member takes the lowest bits.
  \<open>pack\<close> builds the 32-bit word from widths and values (a value is truncated to its width, as
  the assignment does), \<open>unpack\<close> reads the members back, \<open>set_field\<close> assigns one member of a
  word that is already there.
\<close>

fun pack :: "(nat \<times> u32) list \<Rightarrow> u32" where
  "pack [] = 0"
| "pack ((w, v) # fs) = take_bit w v OR push_bit w (pack fs)"

fun unpack :: "nat list \<Rightarrow> u32 \<Rightarrow> u32 list" where
  "unpack [] x = []"
| "unpack (w # ws) x = take_bit w x # unpack ws (drop_bit w x)"

definition get_field :: "nat \<Rightarrow> nat \<Rightarrow> u32 \<Rightarrow> u32" where
  "get_field off w x = take_bit w (drop_bit off x)"

definition set_field :: "nat \<Rightarrow> nat \<Rightarrow> u32 \<Rightarrow> u32 \<Rightarrow> u32" where
  "set_field off w v x = (x AND NOT (push_bit off (mask w))) OR push_bit off (take_bit w v)"

lemma pack_bits: "bit (pack fs) n \<Longrightarrow> n < sum_list (map fst fs)"
proof (induction fs arbitrary: n)
  case (Cons f fs)
  obtain w v where f: "f = (w, v)" by (cases f)
  show ?case
  proof (cases "n < w")
    case False
    with Cons.prems have "bit (pack fs) (n - w)" by (simp add: f bit_simps)
    from Cons.IH [OF this] False show ?thesis by (simp add: f)
  qed (simp add: f)
qed simp

lemma unpack_pack:
  "sum_list (map fst fs) \<le> 32 \<Longrightarrow> unpack (map fst fs) (pack fs) = map (\<lambda>(w, v). take_bit w v) fs"
proof (induction fs)
  case (Cons f fs)
  obtain w v where f: "f = (w, v)" by (cases f)
  have lo: "take_bit w (pack (f # fs)) = take_bit w v"
    by (rule bit_word_eqI) (auto simp: f bit_simps)
  have hi: "drop_bit w (pack (f # fs)) = pack fs"
  proof (rule bit_word_eqI)
    fix n assume "n < LENGTH(32)"
    have "n + w < 32" if "bit (pack fs) n"
      using pack_bits [OF that] Cons.prems f by simp
    then show "bit (drop_bit w (pack (f # fs))) n = bit (pack fs) n"
      by (auto simp: f bit_simps)
  qed
  show ?case using Cons lo hi by (simp add: f del: pack.simps)
qed simp

lemma get_set_field_same:
  "off + w \<le> 32 \<Longrightarrow> get_field off w (set_field off w v x) = take_bit w v"
  unfolding get_field_def set_field_def by (rule bit_word_eqI) (auto simp: bit_simps)

lemma get_set_field_other:
  "off + w \<le> off' \<or> off' + w' \<le> off \<Longrightarrow>
   get_field off' w' (set_field off w v x) = get_field off' w' x"
  unfolding get_field_def set_field_def
  by (rule bit_word_eqI) (auto simp: bit_simps dest: bit_imp_le_length)

section \<open>Ordered maps\<close>

text \<open>
  \<^verbatim>\<open>std::map\<close>: an association list with strictly increasing keys. \<open>map_of\<close> is \<^verbatim>\<open>find\<close>,
  \<open>omap_put\<close> is assignment through \<^verbatim>\<open>operator[]\<close>, \<open>omap_erase\<close> is \<^verbatim>\<open>erase\<close>;
  \<open>omap_pred\<close> and \<open>omap_succ\<close> are the iterator steps \<^verbatim>\<open>--\<close> and \<^verbatim>\<open>++\<close> from a key, and
  \<open>omap_floor k\<close> is \<^verbatim>\<open>--upper_bound(k)\<close>, \<open>None\<close> where \<^verbatim>\<open>upper_bound\<close> is \<^verbatim>\<open>begin()\<close>.
\<close>

type_synonym ('k, 'v) omap = "('k \<times> 'v) list"

fun omap_put :: "'k::linorder \<Rightarrow> 'v \<Rightarrow> ('k, 'v) omap \<Rightarrow> ('k, 'v) omap" where
  "omap_put k v [] = [(k, v)]"
| "omap_put k v ((a, b) # m) =
     (if k < a then (k, v) # (a, b) # m
      else if k = a then (k, v) # m
      else (a, b) # omap_put k v m)"

definition omap_erase :: "'k \<Rightarrow> ('k, 'v) omap \<Rightarrow> ('k, 'v) omap" where
  "omap_erase k m = filter (\<lambda>p. fst p \<noteq> k) m"

definition last_opt :: "'a list \<Rightarrow> 'a option" where
  "last_opt xs = (if xs = [] then None else Some (last xs))"

definition omap_pred :: "'k::linorder \<Rightarrow> ('k, 'v) omap \<Rightarrow> ('k \<times> 'v) option" where
  "omap_pred k m = last_opt (filter (\<lambda>p. fst p < k) m)"

definition omap_succ :: "'k::linorder \<Rightarrow> ('k, 'v) omap \<Rightarrow> ('k \<times> 'v) option" where
  "omap_succ k m = List.find (\<lambda>p. k < fst p) m"

definition omap_floor :: "'k::linorder \<Rightarrow> ('k, 'v) omap \<Rightarrow> ('k \<times> 'v) option" where
  "omap_floor k m = last_opt (filter (\<lambda>p. fst p \<le> k) m)"

definition omap_ok :: "('k::linorder, 'v) omap \<Rightarrow> bool" where
  "omap_ok m \<longleftrightarrow> sorted_wrt (<) (map fst m)"

lemma last_opt_simps [simp]:
  "last_opt [] = None"
  "last_opt (xs @ [x]) = Some x"
  by (simp_all add: last_opt_def)

lemma find_append: "List.find P (xs @ ys) = (case List.find P xs of None \<Rightarrow> List.find P ys | r \<Rightarrow> r)"
  by (induction xs) auto

lemma find_all_not: "(\<forall>p\<in>set xs. \<not> P p) \<Longrightarrow> List.find P xs = None"
  by (induction xs) auto

lemma omap_put_append [omap_simps]:
  "(\<forall>p\<in>set xs. fst p < k) \<Longrightarrow> omap_put k v (xs @ ys) = xs @ omap_put k v ys"
  by (induction xs) auto

lemma omap_put_front [omap_simps]:
  "(\<forall>p\<in>set ys. k < fst p) \<Longrightarrow> omap_put k v ys = (k, v) # ys"
  by (cases ys) auto

lemma omap_put_same [omap_simps]: "omap_put k v ((k, w) # ys) = (k, v) # ys"
  by simp

lemma omap_erase_mid [omap_simps]:
  "(\<forall>p\<in>set xs. fst p \<noteq> k) \<Longrightarrow> (\<forall>p\<in>set ys. fst p \<noteq> k) \<Longrightarrow>
   omap_erase k (xs @ (k, v) # ys) = xs @ ys"
  by (simp add: omap_erase_def)

lemma filter_below [omap_simps]:
  "(\<forall>p\<in>set xs. fst p < k) \<Longrightarrow> (\<forall>p\<in>set ys. k \<le> fst p) \<Longrightarrow>
   filter (\<lambda>p. fst p < (k :: 'k :: linorder)) (xs @ ys) = xs"
  by (auto simp: filter_empty_conv not_less)

lemma omap_pred_append [omap_simps]:
  "(\<forall>p\<in>set xs. fst p < k) \<Longrightarrow> (\<forall>p\<in>set ys. k \<le> fst p) \<Longrightarrow>
   omap_pred k (xs @ ys) = last_opt xs"
  unfolding omap_pred_def by (subst filter_below) auto

lemma omap_succ_append [omap_simps]:
  "(\<forall>p\<in>set xs. fst p \<le> k) \<Longrightarrow> (\<forall>p\<in>set ys. k < fst p) \<Longrightarrow>
   omap_succ k (xs @ ys) = (case ys of [] \<Rightarrow> None | y # _ \<Rightarrow> Some y)"
  unfolding omap_succ_def
  by (cases ys) (auto simp: find_append find_all_not not_less split: option.splits)

lemma omap_floor_append [omap_simps]:
  "(\<forall>p\<in>set xs. fst p \<le> k) \<Longrightarrow> (\<forall>p\<in>set ys. k < fst p) \<Longrightarrow>
   omap_floor k (xs @ ys) = last_opt xs"
  unfolding omap_floor_def by (auto simp: filter_empty_conv not_le last_opt_def)

lemma omap_ok_append:
  "omap_ok (xs @ ys) \<longleftrightarrow> omap_ok xs \<and> omap_ok ys \<and> (\<forall>p\<in>set xs. \<forall>q\<in>set ys. fst p < fst q)"
  by (auto simp: omap_ok_def sorted_wrt_append)

lemma omap_ok_distinct: "omap_ok m \<Longrightarrow> distinct (map fst m)"
  unfolding omap_ok_def using strict_sorted_iff by blast

lemma set_omap_put: "set (map fst (omap_put k v m)) = insert k (set (map fst m))"
  by (induction k v m rule: omap_put.induct) auto

lemma omap_ok_put [intro]: "omap_ok m \<Longrightarrow> omap_ok (omap_put k v m)"
proof (induction k v m rule: omap_put.induct)
  case (2 k v a b m)
  then show ?case
    using set_omap_put [of k v m] by (auto simp: omap_ok_def)
qed (simp add: omap_ok_def)

lemma omap_ok_erase [intro]: "omap_ok m \<Longrightarrow> omap_ok (omap_erase k m)"
  unfolding omap_ok_def omap_erase_def by (induction m) auto

lemma map_of_omap_put: "omap_ok m \<Longrightarrow> map_of (omap_put k v m) = (map_of m)(k \<mapsto> v)"
  by (induction k v m rule: omap_put.induct) (auto simp: omap_ok_def fun_eq_iff)

lemma map_of_omap_erase: "map_of (omap_erase k m) = (map_of m)(k := None)"
  unfolding omap_erase_def by (induction m) (auto simp: fun_eq_iff)

lemma map_of_mid [omap_simps]:
  assumes "\<forall>p\<in>set xs. fst p < (k :: 'k :: linorder)"
  shows "map_of (xs @ (k, v) # ys) k = Some v"
proof -
  have "map_of xs k = None" using assms by (force simp: map_of_eq_None_iff)
  then show ?thesis by (simp add: map_add_def)
qed

lemma map_of_split:
  assumes "omap_ok m" and "map_of m k = Some v"
  obtains xs ys where "m = xs @ (k, v) # ys"
    and "\<forall>p\<in>set xs. fst p < k" and "\<forall>p\<in>set ys. k < fst p"
proof -
  from assms(2) have "(k, v) \<in> set m" by (rule map_of_SomeD)
  then obtain xs ys where m: "m = xs @ (k, v) # ys" by (meson split_list)
  with assms(1) have "\<forall>p\<in>set xs. fst p < k" "\<forall>p\<in>set ys. k < fst p"
    by (auto simp: omap_ok_def sorted_wrt_append)
  with m that show ?thesis by blast
qed

section \<open>Multimaps\<close>

text \<open>
  \<^verbatim>\<open>std::multimap\<close>: pairs sorted by key, equal keys in insertion order. \<open>mm_insert\<close> places a
  pair after the entries with the same key, \<open>mm_lower_bound\<close> is the first entry whose key is
  at least the argument, and erasing through an iterator removes one occurrence of its pair
  (two entries with equal pairs are not distinguishable).
\<close>

type_synonym ('k, 'v) mmap = "('k \<times> 'v) list"

fun mm_insert :: "'k::linorder \<times> 'v \<Rightarrow> ('k, 'v) mmap \<Rightarrow> ('k, 'v) mmap" where
  "mm_insert e [] = [e]"
| "mm_insert e (x # xs) = (if fst x \<le> fst e then x # mm_insert e xs else e # x # xs)"

definition mm_lower_bound :: "'k::linorder \<Rightarrow> ('k, 'v) mmap \<Rightarrow> ('k \<times> 'v) option" where
  "mm_lower_bound k m = List.find (\<lambda>e. k \<le> fst e) m"

definition mm_erase :: "'k \<times> 'v \<Rightarrow> ('k, 'v) mmap \<Rightarrow> ('k, 'v) mmap" where
  "mm_erase e m = remove1 e m"

definition mm_ok :: "('k::linorder, 'v) mmap \<Rightarrow> bool" where
  "mm_ok m \<longleftrightarrow> sorted (map fst m)"

lemma mset_mm_insert [mm_simps, simp]: "mset (mm_insert e m) = add_mset e (mset m)"
  by (induction e m rule: mm_insert.induct) auto

lemma set_mm_insert [simp]: "set (mm_insert e m) = insert e (set m)"
  by (induction e m rule: mm_insert.induct) auto

lemma mset_mm_erase [mm_simps]: "mset (mm_erase e m) = mset m - {#e#}"
  by (simp add: mm_erase_def)

lemma mm_ok_insert [intro]: "mm_ok m \<Longrightarrow> mm_ok (mm_insert e m)"
proof (induction e m rule: mm_insert.induct)
  case (2 e x xs)
  then show ?case by (fastforce simp: mm_ok_def)
qed (simp add: mm_ok_def)

lemma mm_ok_erase [intro]: "mm_ok m \<Longrightarrow> mm_ok (mm_erase e m)"
proof (induction m)
  case (Cons x xs)
  then show ?case
    using set_remove1_subset [of e xs] by (fastforce simp: mm_ok_def mm_erase_def)
qed (simp add: mm_ok_def mm_erase_def)

lemma mm_lower_bound_SomeD:
  "mm_lower_bound k m = Some e \<Longrightarrow> e \<in> set m \<and> k \<le> fst e"
  unfolding mm_lower_bound_def by (auto simp: find_Some_iff)

lemma mm_lower_bound_NoneD:
  "mm_lower_bound k m = None \<Longrightarrow> e \<in> set m \<Longrightarrow> fst e < k"
  unfolding mm_lower_bound_def by (cases e) (auto simp: find_None_iff not_le)

lemma mm_lower_bound_best:
  assumes "mm_ok m" and "mm_lower_bound k m = Some e" and "e' \<in> set m" and "k \<le> fst e'"
  shows "fst e \<le> fst e'"
  using assms unfolding mm_lower_bound_def mm_ok_def
  by (induction m) (auto split: if_splits)

end
