(* ===== verification/Utils.thy ===== *)
theory Utils
  imports Prelude
begin

text \<open>
  The arithmetic helpers of \<^verbatim>\<open>src/src/util/utils.h\<close>: rounding to an alignment, powers of two and the
  functions that cut a 64-bit pointer into the halves a command packet carries. The rounding
  templates take the alignment as a \<^verbatim>\<open>size_t\<close> (64 bits) and the value in its own type \<^verbatim>\<open>T\<close>,
  so the computation widens and truncates as C++ does. An alignment of zero divides by zero in
  the source; the callers modelled here never pass it.
\<close>

section \<open>Alignment\<close>

definition AlignDown :: "'a::len word \<Rightarrow> u64 \<Rightarrow> 'a word" where
  "AlignDown value alignment = ucast ((ucast value div alignment) * alignment)"

definition AlignUp :: "'a::len word \<Rightarrow> u64 \<Rightarrow> 'a word" where
  "AlignUp value alignment = AlignDown (ucast (ucast value + alignment - 1)) alignment"

definition IsMultipleOf :: "'a::len word \<Rightarrow> u64 \<Rightarrow> bool" where
  "IsMultipleOf value alignment \<longleftrightarrow> AlignUp value alignment = value"

definition IsPowerOfTwo :: "'a::len word \<Rightarrow> bool" where
  "IsPowerOfTwo val \<longleftrightarrow> val AND (val - 1) = 0"

definition GPU_HUGE_PAGE_SIZE :: u64 where
  "GPU_HUGE_PAGE_SIZE = push_bit 20 2"

definition DEFAULT_GPU_PAGE_SIZE :: u64 where
  "DEFAULT_GPU_PAGE_SIZE = push_bit 12 1"

lemma page_size_values [simp]:
  "GPU_HUGE_PAGE_SIZE = 2097152"
  "DEFAULT_GPU_PAGE_SIZE = 4096"
  by (simp_all add: GPU_HUGE_PAGE_SIZE_def DEFAULT_GPU_PAGE_SIZE_def)

section \<open>Next power of two\<close>

definition NextPow2_32 :: "u32 \<Rightarrow> u32" where
  "NextPow2_32 value =
     (if value = 0 then 1
      else let v = value - 1;
               v = v OR drop_bit 1 v;
               v = v OR drop_bit 2 v;
               v = v OR drop_bit 4 v;
               v = v OR drop_bit 8 v;
               v = v OR drop_bit 16 v
           in v + 1)"

definition NextPow2_64 :: "u64 \<Rightarrow> u64" where
  "NextPow2_64 value =
     (if value = 0 then 1
      else let v = value - 1;
               v = v OR drop_bit 1 v;
               v = v OR drop_bit 2 v;
               v = v OR drop_bit 4 v;
               v = v OR drop_bit 8 v;
               v = v OR drop_bit 16 v;
               v = v OR drop_bit 32 v
           in v + 1)"

section \<open>Pointer halves\<close>

definition PtrLow32 :: "u64 \<Rightarrow> u32" where
  "PtrLow32 p = ucast p"

definition PtrHigh32 :: "u64 \<Rightarrow> u32" where
  "PtrHigh32 p = ucast (drop_bit 32 p)"

definition HighPart :: "u64 \<Rightarrow> u32" where
  "HighPart value = ucast (drop_bit 32 (value AND 0xFFFFFFFF00000000))"

definition LowPart :: "u64 \<Rightarrow> u32" where
  "LowPart value = ucast (value AND 0x00000000FFFFFFFF)"

definition Ptr48High8 :: "u64 \<Rightarrow> u8" where
  "Ptr48High8 p = ucast (drop_bit 40 (p AND 0xFF0000000000))"

text \<open>\<^verbatim>\<open>Ptr48Low32\<close> asserts that the pointer is 256-byte aligned and below $2^{48}$.\<close>

definition Ptr48_ok :: "u64 \<Rightarrow> bool" where
  "Ptr48_ok p \<longleftrightarrow> p AND 0xFFFFFFFFFF00 = p"

definition Ptr48Low32 :: "u64 \<Rightarrow> u32 res" where
  "Ptr48Low32 p =
     (if Ptr48_ok p then Inr (ucast (drop_bit 8 (p AND 0xFFFFFFFFFF)))
      else Inl (Assert_Failed ''Ptr48Low32''))"

definition PtrLow16Shift8 :: "u64 \<Rightarrow> u32" where
  "PtrLow16Shift8 p = ucast (drop_bit 8 (p AND 0xFFFF))"

definition PtrHigh64Shift16 :: "u64 \<Rightarrow> u32" where
  "PtrHigh64Shift16 p = ucast (drop_bit 16 (p AND 0xFFFFFFFFFFFF0000))"

definition PtrLow40Shift8 :: "u64 \<Rightarrow> u32" where
  "PtrLow40Shift8 p = ucast (drop_bit 8 (p AND 0xFFFFFFFFFF))"

definition PtrHigh64Shift40 :: "u64 \<Rightarrow> u32" where
  "PtrHigh64Shift40 p = ucast (drop_bit 40 (p AND 0xFFFFFF0000000000))"

section \<open>Rounding facts\<close>

lemma AlignDown_u64 [simp]: "AlignDown (v :: u64) a = v div a * a"
  by (simp add: AlignDown_def)

lemma AlignUp_u64: "AlignUp (v :: u64) a = (v + a - 1) div a * a"
  by (simp add: AlignUp_def)

lemma unat_div_mult_u64: "unat ((v :: u64) div a * a) = unat v div unat a * unat a"
proof -
  have "unat v div unat a * unat a \<le> unat v" by simp
  then have "unat v div unat a * unat a < 18446744073709551616"
    using unat_lt64 [of v] by (rule le_less_trans)
  then have "unat (v div a) * unat a < 18446744073709551616" by (simp add: unat_div64)
  then show ?thesis by (simp add: unat_mult64 unat_div64)
qed

lemma unat_AlignUp_u64:
  assumes "0 < unat a" and "unat v + unat a \<le> 18446744073709551616"
  shows "unat (AlignUp (v :: u64) a) = (unat v + unat a - 1) div unat a * unat a"
proof -
  have "unat (a - 1) = unat a - 1"
    using assms(1) by (simp add: unat_sub64)
  then have "unat (v + (a - 1)) = unat v + unat a - 1"
    using assms unat_add64 [of v "a - 1"] by simp
  then have "unat (v + a - 1) = unat v + unat a - 1"
    by (simp add: add_diff_eq)
  then show ?thesis by (simp add: AlignUp_u64 unat_div_mult_u64)
qed

lemma ceil_mult_bounds:
  assumes "0 < (a :: nat)"
  shows "v \<le> (v + a - 1) div a * a" and "(v + a - 1) div a * a < v + a"
proof -
  let ?q = "(v + a - 1) div a"
  have "v + a - 1 = ?q * a + (v + a - 1) mod a" by simp
  moreover have "(v + a - 1) mod a < a" using assms by simp
  ultimately show "v \<le> ?q * a" and "?q * a < v + a" using assms by linarith+
qed

lemma AlignUp_u64_bounds:
  assumes "0 < unat a" and "unat v + unat a \<le> 18446744073709551616"
  shows "unat v \<le> unat (AlignUp (v :: u64) a)"
    and "unat (AlignUp v a) < unat v + unat a"
    and "unat a dvd unat (AlignUp v a)"
  using ceil_mult_bounds [OF assms(1), of "unat v"] by (simp_all add: unat_AlignUp_u64 [OF assms])

text \<open>
  Rounding up: for every value and non-zero alignment whose sum fits in 64 bits, \<^verbatim>\<open>AlignUp\<close>
  returns the least multiple of the alignment that is not below the value.
\<close>

theorem AlignUp_least_multiple:
  fixes v a :: u64
  assumes "a \<noteq> 0" and "unat v + unat a \<le> 2 ^ 64"
  shows "unat a dvd unat (AlignUp v a) \<and> unat v \<le> unat (AlignUp v a) \<and>
    (\<forall>m. unat a dvd m \<longrightarrow> unat v \<le> m \<longrightarrow> unat (AlignUp v a) \<le> m)"
proof (intro conjI allI impI)
  from assms(1) have a: "0 < unat a" by (simp add: unat_gt_0)
  from assms(2) have s: "unat v + unat a \<le> 18446744073709551616" by simp
  note b = AlignUp_u64_bounds [OF a s]
  show "unat a dvd unat (AlignUp v a)" by (rule b(3))
  show "unat v \<le> unat (AlignUp v a)" by (rule b(1))
  fix m assume m: "unat a dvd m" "unat v \<le> m"
  from m(1) obtain k where k: "m = unat a * k" by (rule dvdE)
  from b(3) obtain j where j: "unat (AlignUp v a) = unat a * j" by (rule dvdE)
  from b(2) m(2) k j have "unat a * j < unat a * (k + 1)" by simp
  then have "j < k + 1" by (rule mult_less_cancel1 [THEN iffD1, THEN conjunct2])
  then show "unat (AlignUp v a) \<le> m" using j k by simp
qed

theorem AlignUp_least_multiple_witness:
  "unat (AlignUp (5000 :: u64) 4096) = 8192 \<and> unat (5000 :: u64) \<le> unat (AlignUp (5000 :: u64) 4096)"
proof -
  have "(4096 :: u64) \<noteq> 0" "unat (5000 :: u64) + unat (4096 :: u64) \<le> 2 ^ 64" by simp_all
  from AlignUp_least_multiple [OF this] show ?thesis by (simp add: AlignUp_u64)
qed

section \<open>Pointer halves\<close>

lemma mask_values:
  "(0x00000000FFFFFFFF :: u64) = mask 32"
  "(0xFFFFFFFF00000000 :: u64) = push_bit 32 (mask 32)"
  "(0xFF0000000000 :: u64) = push_bit 40 (mask 8)"
  "(0xFFFFFFFFFF :: u64) = mask 40"
  "(0xFFFFFFFFFF00 :: u64) = push_bit 8 (mask 40)"
  by (simp_all add: mask_eq_exp_minus_1)

lemma HighPart_eq [simp]: "HighPart v = PtrHigh32 v"
  unfolding HighPart_def PtrHigh32_def mask_values by (rule bit_word_eqI) (auto simp: bit_simps)

lemma LowPart_eq [simp]: "LowPart v = PtrLow32 v"
  unfolding LowPart_def PtrLow32_def mask_values by (rule bit_word_eqI) (auto simp: bit_simps)

lemma Ptr_halves:
  "push_bit 32 (ucast (PtrHigh32 p)) OR ucast (PtrLow32 p) = p"
  unfolding PtrHigh32_def PtrLow32_def by (rule bit_word_eqI) (auto simp: bit_simps)

lemma Ptr48_ok_bits: "Ptr48_ok p \<Longrightarrow> bit p n \<Longrightarrow> 8 \<le> n \<and> n < 48"
  unfolding Ptr48_ok_def mask_values by (drule arg_cong [where f = "\<lambda>w. bit w n"]) (auto simp: bit_simps)

text \<open>
  Splitting an address loses nothing: the two 32-bit halves put a pointer together again,
  and the 48-bit split used for program and scratch addresses (bits 8 to 39 and 40 to 47) does so
  for every pointer its assertion lets through.
\<close>

theorem Ptr_split_roundtrip:
  "push_bit 32 (ucast (HighPart p)) OR ucast (LowPart p) = (p :: u64) \<and>
   (Ptr48_ok p \<longrightarrow>
     (\<exists>lo. Ptr48Low32 p = Inr lo \<and> push_bit 40 (ucast (Ptr48High8 p)) OR push_bit 8 (ucast lo) = p))"
proof (intro conjI impI)
  show "push_bit 32 (ucast (HighPart p)) OR ucast (LowPart p) = p"
    using Ptr_halves [of p] by simp
  assume ok: "Ptr48_ok p"
  have "push_bit 40 (ucast (Ptr48High8 p)) OR
      push_bit 8 (ucast (ucast (drop_bit 8 (p AND 0xFFFFFFFFFF)) :: u32)) = p"
    unfolding Ptr48High8_def mask_values
  proof (rule bit_word_eqI)
    fix n
    show "bit (push_bit 40 (ucast (ucast (drop_bit 40 (p AND push_bit 40 (mask 8))) :: u8)) OR
        push_bit 8 (ucast (ucast (drop_bit 8 (p AND mask 40)) :: u32)) :: u64) n = bit p n"
    proof (cases "8 \<le> n \<and> n < 48")
      case True
      then show ?thesis by (cases "n < 40") (auto simp: bit_simps)
    next
      case False
      with Ptr48_ok_bits [OF ok, of n] show ?thesis by (auto simp: bit_simps)
    qed
  qed
  with ok show "\<exists>lo. Ptr48Low32 p = Inr lo \<and>
      push_bit 40 (ucast (Ptr48High8 p)) OR push_bit 8 (ucast lo) = p"
    by (simp add: Ptr48Low32_def)
qed

theorem Ptr_split_roundtrip_witness:
  "Ptr48_ok 0x123456789A00 \<and>
   (\<exists>lo. Ptr48Low32 0x123456789A00 = Inr lo \<and>
      push_bit 40 (ucast (Ptr48High8 0x123456789A00)) OR push_bit 8 (ucast lo) = (0x123456789A00 :: u64))"
proof -
  have ok: "Ptr48_ok 0x123456789A00" by (simp add: Ptr48_ok_def)
  from Ptr_split_roundtrip [of "0x123456789A00"] ok show ?thesis by blast
qed

end
