(* ===== verification/Va_Mgr.thy ===== *)
theory Va_Mgr
  imports Utils
begin

text \<open>
  The virtual-address allocator of \<^verbatim>\<open>src/include/impl/wddm/va_mgr.h\<close> and
  \<^verbatim>\<open>src/src/wddm/va_mgr.cpp\<close>. A manager holds the fragments of its range in a map ordered by
  address and the free ones also in a multimap ordered by size; every fragment keeps the iterator
  of its entry in that multimap (\<open>None\<close> is \<^verbatim>\<open>free_list_.end()\<close>). An iterator is modelled by the
  pair it refers to: entries with equal pairs cannot be told apart. The 63-bit \<^verbatim>\<open>size\<close>
  field truncates what is stored into it. \<^verbatim>\<open>assert\<close> failures are faults of the result.

  The invariant \<open>va_inv\<close> says that the fragments tile the managed range, that the free list
  holds exactly the free fragments and that no two free fragments touch. \<open>AllocImpl\<close> and
  \<open>Free\<close> keep it and never fault; \<open>va_live\<close> is the abstract state, the map from the base of a
  used fragment to its size, and the locale \<open>range_allocator\<close> is the contract the heaps of
  the runtime rely on.
\<close>

section \<open>State\<close>

record fragment =
  free_list_entry :: "(u64 \<times> u64) option"
  frag_size :: u64
  frag_is_free :: bool

record va_mgr =
  free_list :: "(u64, u64) mmap"
  frag_map :: "(u64, fragment) omap"
  min_align :: u64

definition size63 :: "u64 \<Rightarrow> u64" where
  "size63 len = take_bit 63 len"

definition make_free_fragment :: "u64 \<times> u64 \<Rightarrow> u64 \<Rightarrow> fragment" where
  "make_free_fragment iter len = \<lparr>free_list_entry = Some iter, frag_size = size63 len, frag_is_free = True\<rparr>"

definition make_used_fragment :: "u64 \<Rightarrow> fragment" where
  "make_used_fragment len = \<lparr>free_list_entry = None, frag_size = size63 len, frag_is_free = False\<rparr>"

definition set_used :: "fragment \<Rightarrow> fragment" where
  "set_used f = f\<lparr>frag_is_free := False, free_list_entry := None\<rparr>"

definition set_free :: "fragment \<Rightarrow> u64 \<times> u64 \<Rightarrow> fragment" where
  "set_free f iter = f\<lparr>free_list_entry := Some iter, frag_is_free := True\<rparr>"

definition remove_free_list_entry :: "fragment \<Rightarrow> (u64, u64) mmap \<Rightarrow> (u64, u64) mmap" where
  "remove_free_list_entry f fl = (case free_list_entry f of None \<Rightarrow> fl | Some e \<Rightarrow> mm_erase e fl)"

definition add_free_fragment :: "va_mgr \<Rightarrow> u64 \<Rightarrow> u64 \<Rightarrow> va_mgr" where
  "add_free_fragment v sz base =
     v\<lparr>free_list := mm_insert (sz, base) (free_list v),
       frag_map := omap_put base (make_free_fragment (sz, base) sz) (frag_map v)\<rparr>"

definition add_used_fragment :: "va_mgr \<Rightarrow> u64 \<Rightarrow> u64 \<Rightarrow> va_mgr" where
  "add_used_fragment v sz base = v\<lparr>frag_map := omap_put base (make_used_fragment sz) (frag_map v)\<rparr>"

definition VaMgr :: "u64 \<Rightarrow> u64 \<Rightarrow> u64 \<Rightarrow> va_mgr" where
  "VaMgr start sz min_al =
     \<lparr>free_list = [(sz, start)],
      frag_map = [(start, make_free_fragment (sz, start) sz)],
      min_align = min_al\<rparr>"

section \<open>Operations\<close>

text \<open>
  The two ways \<^verbatim>\<open>AllocImpl\<close> takes bytes out of a free fragment: from its front, or from an
  aligned address inside it.
\<close>

definition take_front :: "va_mgr \<Rightarrow> fragment \<Rightarrow> u64 \<Rightarrow> u64 \<Rightarrow> u64 \<Rightarrow> va_mgr" where
  "take_front v frag sz base bytes =
     (let v1 = v\<lparr>free_list := mm_erase (sz, base) (free_list v),
                 frag_map := omap_put base (set_used (frag\<lparr>frag_size := size63 bytes\<rparr>)) (frag_map v)\<rparr>
      in if sz > bytes then add_free_fragment v1 (sz - bytes) (base + bytes) else v1)"

definition take_middle :: "va_mgr \<Rightarrow> u64 \<Rightarrow> u64 \<Rightarrow> u64 \<Rightarrow> u64 \<Rightarrow> va_mgr" where
  "take_middle v sz base aligned_base bytes =
     (let v1 = v\<lparr>free_list := mm_erase (sz, base) (free_list v)\<rparr>;
          v2 = add_used_fragment v1 bytes aligned_base;
          v3 = add_free_fragment v2 (aligned_base - base) base
      in if sz > aligned_base - base + bytes
         then add_free_fragment v3 (sz - (aligned_base - base) - bytes) (aligned_base + bytes)
         else v3)"

text \<open>
  The \<^verbatim>\<open>for\<close> loop of \<^verbatim>\<open>AllocImpl\<close>: \<open>n\<close> iterations are left, \<open>i\<close> is the loop variable.
  Without an aligned fragment in the first pass it asks once more for \<open>new_align\<close> extra bytes.
\<close>

fun AllocImpl_loop :: "nat \<Rightarrow> nat \<Rightarrow> va_mgr \<Rightarrow> u64 \<Rightarrow> u64 \<Rightarrow> u64 \<Rightarrow> u64 \<Rightarrow> (va_mgr \<times> u64) res" where
  "AllocImpl_loop 0 i v bytes align new_align align_bytes = Inr (v, 0)"
| "AllocImpl_loop (Suc n) i v bytes align new_align align_bytes =
     (case mm_lower_bound align_bytes (free_list v) of
        None \<Rightarrow> Inr (v, 0)
      | Some (sz, base) \<Rightarrow>
          if \<not> sz \<ge> align_bytes then Inl (Assert_Failed ''AllocImpl: lower_bound'')
          else case map_of (frag_map v) base of
            None \<Rightarrow> Inl (Assert_Failed ''AllocImpl: fragment'')
          | Some frag \<Rightarrow>
              if sz \<noteq> frag_size frag then Inl (Assert_Failed ''AllocImpl: size'')
              else
                let delta = (if align = 0 then 0 else base mod align) in
                if delta = 0 then Inr (take_front v frag sz base bytes, base)
                else if i = 0 then
                  AllocImpl_loop n (Suc i) v bytes align new_align (align_bytes + new_align)
                else
                  let aligned_base = base + align - delta
                  in Inr (take_middle v sz base aligned_base bytes, aligned_base))"

definition AllocImpl :: "va_mgr \<Rightarrow> u64 \<Rightarrow> u64 \<Rightarrow> (va_mgr \<times> u64) res" where
  "AllocImpl v bytes align =
     (let retry = (if align = 0 then 0 else 1 :: nat);
          new_align = (if align = 0 then min_align v else AlignUp align (min_align v))
      in AllocImpl_loop (Suc retry) 0 v bytes align new_align bytes)"

text \<open>
  The loop of \<^verbatim>\<open>Alloc\<close> for a fixed address. It walks down from \<^verbatim>\<open>--upper_bound(addr)\<close>; the argument
  is the list of fragments from there to \<^verbatim>\<open>begin()\<close>, and the loop stops when it reaches
  \<^verbatim>\<open>begin()\<close> itself (the last element), whose fragment is therefore never considered.
\<close>

fun Alloc_fixed :: "va_mgr \<Rightarrow> (u64 \<times> fragment) list \<Rightarrow> u64 \<Rightarrow> u64 \<Rightarrow> va_mgr option res" where
  "Alloc_fixed v [] bytes addr = Inr None"
| "Alloc_fixed v [b] bytes addr = Inr None"
| "Alloc_fixed v ((base, frag) # q # rest) bytes addr =
     (let sz = frag_size frag in
      if bytes > sz \<or> addr < base \<or> addr + bytes > base + sz \<or> \<not> frag_is_free frag
      then Alloc_fixed v (q # rest) bytes addr
      else if addr \<ge> base + sz then Inr None
      else case free_list_entry frag of
        None \<Rightarrow> Inl (Assert_Failed ''Alloc: free_list_entry'')
      | Some free_it \<Rightarrow>
          let v1 = v\<lparr>free_list := mm_erase free_it (free_list v),
                     frag_map := omap_put base (set_used (frag\<lparr>frag_size := size63 bytes\<rparr>)) (frag_map v)\<rparr>;
              v2 = (if addr > base then add_free_fragment v1 (addr - base) base else v1);
              v3 = (if base + sz > addr + bytes
                    then add_free_fragment v2 (base + sz - addr - bytes) (addr + bytes) else v2)
          in Inr (Some v3))"

definition Alloc :: "va_mgr \<Rightarrow> u64 \<Rightarrow> u64 \<Rightarrow> u64 \<Rightarrow> (va_mgr \<times> u64) res" where
  "Alloc v bytes align addr =
     (if addr > 0 \<and> (align = 0 \<or> addr mod align = 0) then
        (case rev (filter (\<lambda>p. fst p \<le> addr) (frag_map v)) of
           [] \<Rightarrow> Inl (Assert_Failed ''Alloc: upper_bound'')
         | p # ps \<Rightarrow>
             bindE (Alloc_fixed v (p # ps) bytes addr)
               (\<lambda>r. case r of Some v' \<Rightarrow> Inr (v', addr) | None \<Rightarrow> AllocImpl v bytes align))
      else AllocImpl v bytes align)"

text \<open>
  \<^verbatim>\<open>Free\<close> merges the fragment with a free lower neighbour, then with a free upper neighbour.
  The results are the free list, the fragment map, the key and the value of the merged fragment,
  and for the lower merge the value of the local variable \<^verbatim>\<open>base\<close>.
\<close>

definition merge_lower ::
  "va_mgr \<Rightarrow> u64 \<Rightarrow> fragment \<Rightarrow> (u64, u64) mmap \<times> (u64, fragment) omap \<times> u64 \<times> fragment \<times> u64" where
  "merge_lower v addr frag =
     (case omap_pred addr (frag_map v) of
        None \<Rightarrow> (free_list v, frag_map v, addr, frag, addr)
      | Some (lkey, lower) \<Rightarrow>
          if frag_is_free lower then
            let lower' = lower\<lparr>free_list_entry := None,
                               frag_size := size63 (frag_size lower + frag_size frag)\<rparr>
            in (remove_free_list_entry lower (free_list v),
                omap_put lkey lower' (omap_erase addr (frag_map v)),
                lkey, lower', addr - frag_size lower)
          else (free_list v, frag_map v, addr, frag, addr))"

definition merge_upper ::
  "(u64, u64) mmap \<Rightarrow> (u64, fragment) omap \<Rightarrow> u64 \<Rightarrow> fragment \<Rightarrow>
   (u64, u64) mmap \<times> (u64, fragment) omap \<times> fragment" where
  "merge_upper fl m key frag =
     (case omap_succ key m of
        None \<Rightarrow> (fl, m, frag)
      | Some (ukey, upper) \<Rightarrow>
          if frag_is_free upper then
            let frag' = frag\<lparr>frag_size := size63 (frag_size frag + frag_size upper)\<rparr>
            in (remove_free_list_entry upper fl, omap_put key frag' (omap_erase ukey m), frag')
          else (fl, m, frag))"

definition Free :: "va_mgr \<Rightarrow> u64 \<Rightarrow> va_mgr" where
  "Free v addr =
     (if addr = 0 then v
      else case map_of (frag_map v) addr of
        None \<Rightarrow> v
      | Some frag \<Rightarrow>
          if frag_is_free frag then v
          else
            let (fl1, m1, key, frag1, base) = merge_lower v addr frag;
                (fl2, m2, frag2) = merge_upper fl1 m1 key frag1;
                it = (frag_size frag2, base)
            in v\<lparr>free_list := mm_insert it fl2, frag_map := omap_put key (set_free frag2 it) m2\<rparr>)"

section \<open>Invariant\<close>

fun tiles :: "nat \<Rightarrow> (u64 \<times> 'a fragment_scheme) list \<Rightarrow> nat \<Rightarrow> bool" where
  "tiles lo [] hi \<longleftrightarrow> lo = hi"
| "tiles lo (p # ps) hi \<longleftrightarrow>
     unat (fst p) = lo \<and> 0 < unat (frag_size (snd p)) \<and> tiles (lo + unat (frag_size (snd p))) ps hi"

definition frag_ok :: "u64 \<times> 'a fragment_scheme \<Rightarrow> bool" where
  "frag_ok p \<longleftrightarrow>
     free_list_entry (snd p) = (if frag_is_free (snd p) then Some (frag_size (snd p), fst p) else None)"

definition not_both_free :: "u64 \<times> 'a fragment_scheme \<Rightarrow> u64 \<times> 'a fragment_scheme \<Rightarrow> bool" where
  "not_both_free p q \<longleftrightarrow> \<not> (frag_is_free (snd p) \<and> frag_is_free (snd q))"

definition free_entries :: "(u64 \<times> 'a fragment_scheme) list \<Rightarrow> (u64 \<times> u64) list" where
  "free_entries m = map (\<lambda>p. (frag_size (snd p), fst p)) (filter (\<lambda>p. frag_is_free (snd p)) m)"

definition va_inv :: "nat \<Rightarrow> nat \<Rightarrow> va_mgr \<Rightarrow> bool" where
  "va_inv lo hi v \<longleftrightarrow>
     0 < lo \<and> hi < 2 ^ 64 \<and> hi - lo < 2 ^ 63 \<and>
     tiles lo (frag_map v) hi \<and>
     list_all frag_ok (frag_map v) \<and>
     successively not_both_free (frag_map v) \<and>
     mm_ok (free_list v) \<and>
     mset (free_list v) = mset (free_entries (frag_map v))"

definition va_live :: "va_mgr \<Rightarrow> u64 \<rightharpoonup> u64" where
  "va_live v a =
     (case map_of (frag_map v) a of
        None \<Rightarrow> None
      | Some f \<Rightarrow> if frag_is_free f then None else Some (frag_size f))"

lemma tiles_le: "tiles lo m hi \<Longrightarrow> lo \<le> hi"
  by (induction lo m hi rule: tiles.induct) auto

lemma tiles_append: "tiles lo (xs @ ys) hi \<longleftrightarrow> (\<exists>mid. tiles lo xs mid \<and> tiles mid ys hi)"
  by (induction xs arbitrary: lo) auto

lemma tiles_bounds:
  "tiles lo m hi \<Longrightarrow> p \<in> set m \<Longrightarrow>
   lo \<le> unat (fst p) \<and> 0 < unat (frag_size (snd p)) \<and> unat (fst p) + unat (frag_size (snd p)) \<le> hi"
proof (induction lo m hi rule: tiles.induct)
  case (2 lo q qs hi)
  then show ?case
    using tiles_le [of "lo + unat (frag_size (snd q))" qs hi] by force
qed simp

lemma tiles_split:
  assumes "tiles lo (xs @ (b, f) # ys) hi"
  shows "tiles lo xs (unat b)" and "tiles (unat b + unat (frag_size f)) ys hi"
    and "lo \<le> unat b" and "0 < unat (frag_size f)" and "unat b + unat (frag_size f) \<le> hi"
    and "\<forall>p\<in>set xs. fst p < b" and "\<forall>p\<in>set ys. b < fst p"
proof -
  from assms obtain mid where mid: "tiles lo xs mid" "tiles mid ((b, f) # ys) hi"
    by (auto simp: tiles_append)
  then show xs: "tiles lo xs (unat b)" and ys: "tiles (unat b + unat (frag_size f)) ys hi"
    and pos: "0 < unat (frag_size f)" by auto
  from xs show "lo \<le> unat b" by (rule tiles_le)
  from ys show "unat b + unat (frag_size f) \<le> hi" by (rule tiles_le)
  show "\<forall>p\<in>set xs. fst p < b"
    using tiles_bounds [OF xs] by (fastforce simp: word_less_nat_alt)
  show "\<forall>p\<in>set ys. b < fst p"
    using tiles_bounds [OF ys] pos by (fastforce simp: word_less_nat_alt)
qed

lemma tiles_omap_ok: "tiles lo m hi \<Longrightarrow> omap_ok m"
proof (induction lo m hi rule: tiles.induct)
  case (2 lo p ps hi)
  then have "\<forall>q\<in>set ps. fst p < fst q"
    using tiles_bounds [of "lo + unat (frag_size (snd p))" ps hi] by (fastforce simp: word_less_nat_alt)
  with 2 show ?case by (auto simp: omap_ok_def)
qed (simp add: omap_ok_def)

lemma tiles_lookup:
  assumes "tiles lo m hi" and "map_of m b = Some f"
  obtains xs ys where "m = xs @ (b, f) # ys"
  using map_of_split [OF tiles_omap_ok [OF assms(1)] assms(2)] by blast

lemma tiles_disjoint:
  assumes "tiles lo m hi" and "map_of m a = Some f" and "map_of m b = Some g" and "a < b"
  shows "unat a + unat (frag_size f) \<le> unat b"
proof -
  from tiles_lookup [OF assms(1,2)] obtain xs ys where m: "m = xs @ (a, f) # ys" .
  with assms(1) have t: "tiles lo (xs @ (a, f) # ys) hi" by simp
  have "(b, g) \<in> set m" by (rule map_of_SomeD [OF assms(3)])
  with m assms(4) tiles_split(6) [OF t] have "(b, g) \<in> set ys" by auto
  with tiles_bounds [OF tiles_split(2) [OF t]] show ?thesis by force
qed

lemma free_entries_append [simp]: "free_entries (xs @ ys) = free_entries xs @ free_entries ys"
  by (simp add: free_entries_def)

lemma free_entries_Cons [simp]:
  "free_entries (p # ps) =
     (if frag_is_free (snd p) then [(frag_size (snd p), fst p)] else []) @ free_entries ps"
  by (simp add: free_entries_def)

lemma free_entries_Nil [simp]: "free_entries [] = []"
  by (simp add: free_entries_def)

lemma free_list_entryD:
  assumes "va_inv lo hi v" and "(sz, base) \<in> set (free_list v)"
  obtains xs f ys where "frag_map v = xs @ (base, f) # ys" and "frag_is_free f" and "frag_size f = sz"
proof -
  from assms have "(sz, base) \<in> set (free_entries (frag_map v))"
    unfolding va_inv_def by (metis set_mset_mset)
  then obtain f where "(base, f) \<in> set (frag_map v)" "frag_is_free f" "frag_size f = sz"
    by (auto simp: free_entries_def)
  moreover from this(1) obtain xs ys where "frag_map v = xs @ (base, f) # ys"
    by (auto dest: split_list)
  ultimately show ?thesis using that by blast
qed

section \<open>Replacing one fragment by the pieces cut out of it\<close>

lemma va_inv_replace:
  assumes inv: "va_inv lo hi v"
    and m: "frag_map v = xs @ (b, f) # ys"
    and free: "frag_is_free f"
    and new: "tiles (unat b) ns (unat b + unat (frag_size f))" "list_all frag_ok ns"
      "successively not_both_free ns"
    and fl: "mm_ok fl" "mset fl = mset (free_list v) - {#(frag_size f, b)#} + mset (free_entries ns)"
  shows "va_inv lo hi (v\<lparr>free_list := fl, frag_map := xs @ ns @ ys\<rparr>)"
proof -
  note t = inv [unfolded va_inv_def m]
  from t have old: "tiles lo (xs @ (b, f) # ys) hi" by simp
  have tl: "tiles lo (xs @ ns @ ys) hi"
    unfolding tiles_append using tiles_split(1,2) [OF old] new(1) by blast
  have ns: "ns \<noteq> []"
    using new(1) tiles_split(4) [OF old] by auto
  have last: "xs \<noteq> [] \<Longrightarrow> \<not> frag_is_free (snd (last xs))"
    and hd: "ys \<noteq> [] \<Longrightarrow> \<not> frag_is_free (snd (hd ys))"
    using t free by (auto simp: successively_append_iff successively_Cons not_both_free_def)
  have "successively not_both_free (xs @ ns @ ys)"
    using t new(3) ns last hd
    by (auto simp: successively_append_iff successively_Cons not_both_free_def)
  moreover have "mset fl = mset (free_entries (xs @ ns @ ys))"
    using t fl(2) free by simp
  ultimately show ?thesis
    using t tl new(2) fl(1) by (simp add: va_inv_def)
qed


definition live_list :: "(u64 \<times> 'a fragment_scheme) list \<Rightarrow> u64 \<rightharpoonup> u64" where
  "live_list m = map_of (map (\<lambda>p. (fst p, frag_size (snd p))) (filter (\<lambda>p. \<not> frag_is_free (snd p)) m))"

lemma live_list_simps [simp]:
  "live_list [] = Map.empty"
  "live_list (xs @ ys) = live_list ys ++ live_list xs"
  "live_list (p # ps) =
     (if frag_is_free (snd p) then live_list ps else (live_list ps)(fst p \<mapsto> frag_size (snd p)))"
  by (auto simp: live_list_def)

lemma live_list_notin: "b \<notin> fst ` set xs \<Longrightarrow> live_list xs b = None"
  by (force simp: live_list_def map_of_eq_None_iff)

lemma live_list_eq:
  "distinct (map fst m) \<Longrightarrow>
   live_list m a = (case map_of m a of None \<Rightarrow> None | Some f \<Rightarrow> if frag_is_free f then None else Some (frag_size f))"
proof (induction m)
  case (Cons p m)
  then have "map_of m (fst p) = None" by (simp add: map_of_eq_None_iff)
  with Cons show ?case by (cases p) auto
qed simp

lemma va_live_list:
  assumes "va_inv lo hi v"
  shows "va_live v = live_list (frag_map v)"
proof -
  from assms have "distinct (map fst (frag_map v))"
    by (auto simp: va_inv_def intro: omap_ok_distinct tiles_omap_ok)
  then show ?thesis by (rule_tac ext) (simp add: va_live_def live_list_eq)
qed

lemma live_list_insert:
  assumes "\<forall>p\<in>set xs. fst p < b" and "\<not> frag_is_free u"
  shows "live_list (xs @ (b, u) # ys) = (live_list (xs @ ys))(b \<mapsto> frag_size u)"
proof -
  from assms(1) have "b \<notin> dom (live_list xs)"
    using live_list_notin [of b xs] by (force simp: dom_def)
  with assms(2) show ?thesis by (simp add: map_add_upd_left)
qed

lemma frag_size_bound:
  assumes "va_inv lo hi v" and "frag_map v = xs @ (b, f) # ys"
  shows "unat (frag_size f) < 9223372036854775808"
    and "unat b + unat (frag_size f) < 18446744073709551616"
proof -
  from assms have t: "tiles lo (xs @ (b, f) # ys) hi" and h: "hi < 2 ^ 64" "hi - lo < 2 ^ 63"
    by (auto simp: va_inv_def)
  from tiles_split(3,5) [OF t] h
  show "unat (frag_size f) < 9223372036854775808"
    and "unat b + unat (frag_size f) < 18446744073709551616" by simp_all
qed

lemma size63_id [simp]: "unat a < 9223372036854775808 \<Longrightarrow> size63 a = a"
  by (simp add: size63_def unat_take_bit63)

text \<open>
  The pieces: cutting a used fragment out of a free one leaves the used piece, with a free
  piece before it when the cut starts \<open>d\<close> bytes into the fragment and a free piece behind it when
  bytes are left.
\<close>

definition cut_pieces :: "u64 \<Rightarrow> u64 \<Rightarrow> u64 \<Rightarrow> u64 \<Rightarrow> (u64 \<times> fragment) list" where
  "cut_pieces b sz d n =
     (if d = 0 then [] else [(b, make_free_fragment (d, b) d)]) @
     [(b + d, make_used_fragment n)] @
     (if d + n < sz then [(b + d + n, make_free_fragment (sz - d - n, b + d + n) (sz - d - n))] else [])"

lemma cut_pieces_arith:
  assumes "unat b + unat sz < 18446744073709551616" and "unat sz < 9223372036854775808"
    and "0 < unat n" and "unat d + unat n \<le> unat sz"
  shows "unat (d + n) = unat d + unat n" and "unat (b + d) = unat b + unat d"
    and "unat (b + d + n) = unat b + unat d + unat n" and "unat (sz - d - n) = unat sz - unat d - unat n"
    and "d + n < sz \<longleftrightarrow> unat d + unat n < unat sz"
    and "size63 d = d" and "size63 n = n" and "size63 (sz - d - n) = sz - d - n"
  using assms by (simp_all add: word_nat word_less_nat_alt)

lemma cut_pieces_ok:
  assumes b: "unat b + unat sz < 18446744073709551616" "unat sz < 9223372036854775808"
    and n: "0 < unat n" "unat d + unat n \<le> unat sz"
  shows "tiles (unat b) (cut_pieces b sz d n) (unat b + unat sz)"
    and "list_all frag_ok (cut_pieces b sz d n)"
    and "successively not_both_free (cut_pieces b sz d n)"
    and "mset (free_entries (cut_pieces b sz d n)) =
      (if d = 0 then {#} else {#(d, b)#}) + (if d + n < sz then {#(sz - d - n, b + d + n)#} else {#})"
  using n cut_pieces_arith [OF b n] unat_gt_0 [of d]
  by (cases "d = 0"; auto simp: cut_pieces_def frag_ok_def not_both_free_def make_free_fragment_def
      make_used_fragment_def)+

lemma carve:
  assumes inv: "va_inv lo hi v" and m: "frag_map v = xs @ (b, f) # ys" and free: "frag_is_free f"
    and n: "0 < unat n" "unat d + unat n \<le> unat (frag_size f)"
    and v': "frag_map v' = xs @ cut_pieces b (frag_size f) d n @ ys" "min_align v' = min_align v"
      "mm_ok (free_list v')"
      "mset (free_list v') = mset (free_list v) - {#(frag_size f, b)#} +
        ((if d = 0 then {#} else {#(d, b)#}) +
         (if d + n < frag_size f then {#(frag_size f - d - n, b + d + n)#} else {#}))"
  shows "va_inv lo hi v'" and "va_live v' = (va_live v)(b + d \<mapsto> n)" and "va_live v (b + d) = None"
proof -
  note bd = frag_size_bound [OF inv m]
  note ok = cut_pieces_ok [OF bd(2,1) n]
  from inv m have t: "tiles lo (xs @ (b, f) # ys) hi" by (simp add: va_inv_def)
  have "v' = v\<lparr>free_list := free_list v', frag_map := xs @ cut_pieces b (frag_size f) d n @ ys\<rparr>"
    using v'(1,2) by simp
  moreover have "va_inv lo hi \<dots>"
    using va_inv_replace [OF inv m free ok(1-3) v'(3)] v'(4) ok(4) by simp
  ultimately show inv': "va_inv lo hi v'" by simp
  have xs: "\<forall>p\<in>set xs. fst p < b + d" and ys: "\<forall>p\<in>set ys. b + d < fst p"
    using tiles_split(6) [OF t] tiles_bounds [OF tiles_split(2) [OF t]]
      cut_pieces_arith [OF bd(2,1) n] n by (fastforce simp: word_less_nat_alt)+
  then have "b + d \<notin> fst ` set xs" "b + d \<notin> fst ` set ys" by force+
  then show "va_live v (b + d) = None"
    using va_live_list [OF inv] m free by (simp add: map_add_None live_list_notin)
  from xs show "va_live v' = (va_live v)(b + d \<mapsto> n)"
    using va_live_list [OF inv] va_live_list [OF inv'] m free v'(1) cut_pieces_arith(7) [OF bd(2,1) n]
      live_list_insert [of xs "b + d" "make_used_fragment n"]
    by (auto simp: cut_pieces_def make_used_fragment_def make_free_fragment_def map_add_upd_left)
qed


section \<open>Allocation\<close>

lemma cut_front_step:
  assumes inv: "va_inv lo hi v" and m: "frag_map v = xs @ (b, f) # ys" and free: "frag_is_free f"
    and n: "0 < unat n" "unat n \<le> unat (frag_size f)"
  defines "v2 \<equiv> take_front v f (frag_size f) b n"
  shows "va_inv lo hi v2 \<and> va_live v2 = (va_live v)(b \<mapsto> n) \<and> va_live v b = None \<and>
    min_align v2 = min_align v"
proof -
  from inv m have t: "tiles lo (xs @ (b, f) # ys) hi" by (simp add: va_inv_def)
  note sp = tiles_split [OF t] and bd = frag_size_bound [OF inv m]
  have ar: "unat (b + n) = unat b + unat n"
    using cut_pieces_arith(3) [OF bd(2,1) n(1), of 0] n(2) by simp
  have u: "set_used (f\<lparr>frag_size := size63 n\<rparr>) = make_used_fragment n"
    by (simp add: set_used_def make_used_fragment_def)
  have m1: "omap_put b (make_used_fragment n) (frag_map v) = xs @ (b, make_used_fragment n) # ys"
    using m sp(6) by (simp add: omap_simps)
  have "\<forall>p\<in>set (xs @ [(b, make_used_fragment n)]). fst p < b + n"
    using sp(6) n ar by (fastforce simp: word_less_nat_alt)
  moreover have "n < frag_size f \<Longrightarrow> \<forall>p\<in>set ys. b + n < fst p"
    using tiles_bounds [OF sp(2)] ar by (fastforce simp: word_less_nat_alt)
  ultimately have m2: "frag_map v2 = xs @ cut_pieces b (frag_size f) 0 n @ ys"
    using m1 u omap_put_append [of "xs @ [(b, make_used_fragment n)]" "b + n" _ ys]
    by (simp add: v2_def take_front_def add_free_fragment_def cut_pieces_def omap_put_front Let_def)
  have fl: "mm_ok (free_list v2)" "min_align v2 = min_align v"
    using inv by (auto simp: v2_def take_front_def add_free_fragment_def va_inv_def Let_def)
  have ms: "mset (free_list v2) = mset (free_list v) - {#(frag_size f, b)#} +
      (if n < frag_size f then {#(frag_size f - n, b + n)#} else {#})"
    by (simp add: v2_def take_front_def add_free_fragment_def mset_mm_erase Let_def)
  from carve [OF inv m free n(1), of 0 v2] m2 fl ms n(2) show ?thesis by simp
qed

lemma cut_middle_step:
  assumes inv: "va_inv lo hi v" and m: "frag_map v = xs @ (b, f) # ys" and free: "frag_is_free f"
    and n: "0 < unat n" "unat d + unat n \<le> unat (frag_size f)" and d: "d \<noteq> 0"
  defines "v4 \<equiv> take_middle v (frag_size f) b (b + d) n"
  shows "va_inv lo hi v4 \<and> va_live v4 = (va_live v)(b + d \<mapsto> n) \<and> va_live v (b + d) = None \<and>
    min_align v4 = min_align v"
proof -
  from inv m have t: "tiles lo (xs @ (b, f) # ys) hi" by (simp add: va_inv_def)
  note sp = tiles_split [OF t] and bd = frag_size_bound [OF inv m]
  note ar = cut_pieces_arith [OF bd(2,1) n]
  let ?u = "make_used_fragment n" and ?g = "make_free_fragment (d, b) d"
  have b_lt: "b < b + d" and d_lt: "b + d < b + d + n"
    using ar d n by (simp_all add: word_less_nat_alt unat_gt_0)
  have ys: "\<forall>p\<in>set ys. b + d < fst p" and
    ys': "d + n < frag_size f \<Longrightarrow> \<forall>p\<in>set ys. b + d + n < fst p"
    using tiles_bounds [OF sp(2)] ar n by (fastforce simp: word_less_nat_alt)+
  have xs: "\<forall>p\<in>set (xs @ [(b, f)]). fst p < b + d" and
    xs': "\<forall>p\<in>set (xs @ [(b, ?g), (b + d, ?u)]). fst p < b + d + n"
    using sp(6) b_lt d_lt by (auto intro: less_trans)
  have m3: "omap_put b ?g (omap_put (b + d) ?u (frag_map v)) = xs @ (b, ?g) # (b + d, ?u) # ys"
    using m sp(6) omap_put_append [OF xs, of ?u ys] omap_put_front [OF ys] by (simp add: omap_simps)
  note defs = v4_def take_middle_def add_free_fragment_def add_used_fragment_def Let_def
  have m4: "frag_map v4 = xs @ cut_pieces b (frag_size f) d n @ ys"
    using m3 d omap_put_append [OF xs', of _ ys] omap_put_front [OF ys']
    by (simp add: defs cut_pieces_def)
  have fl: "mm_ok (free_list v4)" "min_align v4 = min_align v"
    using inv by (auto simp: defs va_inv_def)
  have ms: "mset (free_list v4) = mset (free_list v) - {#(frag_size f, b)#} + ({#(d, b)#} +
      (if d + n < frag_size f then {#(frag_size f - d - n, b + d + n)#} else {#}))"
    by (simp add: defs mset_mm_erase)
  from carve [OF inv m free n, of v4] m4 fl ms d show ?thesis by simp
qed


definition new_align_of :: "va_mgr \<Rightarrow> u64 \<Rightarrow> u64" where
  "new_align_of v align = (if align = 0 then min_align v else AlignUp align (min_align v))"

text \<open>
  The requests the allocator answers without wrapping a 64-bit sum: at least one byte, and size,
  alignment and granularity together below $2^{64}$.
\<close>

definition request_ok :: "va_mgr \<Rightarrow> u64 \<Rightarrow> u64 \<Rightarrow> bool" where
  "request_ok v bytes align \<longleftrightarrow>
     0 < unat bytes \<and> 0 < unat (min_align v) \<and>
     unat bytes + unat align + unat (min_align v) \<le> 18446744073709551616"

definition alloc_post :: "nat \<Rightarrow> nat \<Rightarrow> va_mgr \<Rightarrow> u64 \<Rightarrow> u64 \<Rightarrow> u64 \<Rightarrow> va_mgr \<times> u64 \<Rightarrow> bool" where
  "alloc_post lo hi v bytes align bound r \<longleftrightarrow>
     va_inv lo hi (fst r) \<and> min_align (fst r) = min_align v \<and>
     (if snd r = 0 then fst r = v \<and> (\<forall>e\<in>set (free_list v). fst e < bound)
      else va_live v (snd r) = None \<and> va_live (fst r) = (va_live v)(snd r \<mapsto> bytes) \<and>
           (align \<noteq> 0 \<longrightarrow> unat align dvd unat (snd r)))"

lemma new_align_bounds:
  assumes "request_ok v bytes align" and "align \<noteq> 0"
  shows "unat align \<le> unat (new_align_of v align)"
    and "unat (bytes + new_align_of v align) = unat bytes + unat (new_align_of v align)"
proof -
  have r: "0 < unat (min_align v)" "unat align + unat (min_align v) \<le> 18446744073709551616"
    "unat bytes + unat align + unat (min_align v) \<le> 18446744073709551616"
    using assms by (auto simp: request_ok_def)
  note b = AlignUp_u64_bounds [OF r(1,2)]
  from b show "unat align \<le> unat (new_align_of v align)"
    using assms(2) by (simp add: new_align_of_def)
  from b r show "unat (bytes + new_align_of v align) = unat bytes + unat (new_align_of v align)"
    using assms(2) by (simp add: new_align_of_def unat_add64)
qed

lemma base_nonzero:
  assumes "va_inv lo hi v" and "frag_map v = xs @ (b, f) # ys"
  shows "0 < unat b"
  using assms tiles_split(3) [of lo xs b f ys hi] by (auto simp: va_inv_def)

lemma va_lookup_mid:
  assumes "va_inv lo hi v" and "frag_map v = xs @ (b, f) # ys"
  shows "map_of (frag_map v) b = Some f"
proof -
  from assms have "\<forall>p\<in>set xs. fst p < b"
    using tiles_split(6) [of lo xs b f ys hi] by (simp add: va_inv_def)
  then show ?thesis unfolding assms(2) by (rule map_of_mid)
qed

declare AllocImpl_loop.simps [simp del]

lemma AllocImpl_unfold:
  "AllocImpl v bytes align =
     AllocImpl_loop (if align = 0 then Suc 0 else Suc (Suc 0)) 0 v bytes align (new_align_of v align) bytes"
  by (simp add: AllocImpl_def new_align_of_def)

lemma loop_none:
  "mm_lower_bound ab (free_list v) = None \<Longrightarrow> AllocImpl_loop (Suc k) i v bytes align na ab = Inr (v, 0)"
  by (simp add: AllocImpl_loop.simps)

lemma mod_eq_0_dvd_u64: "(b :: u64) mod align = 0 \<Longrightarrow> unat align dvd unat b"
  by (metis unat_mod64 unat_0 mod_0_imp_dvd)

lemma loop_step_fits:
  assumes inv: "va_inv lo hi v" and n: "0 < unat bytes"
    and lb: "mm_lower_bound ab (free_list v) = Some (sz, b)" and ab: "unat bytes \<le> unat ab"
    and al: "align = 0 \<or> b mod align = 0"
  shows "\<exists>r. AllocImpl_loop (Suc k) i v bytes align na ab = Inr r \<and> alloc_post lo hi v bytes align bound r"
proof -
  from mm_lower_bound_SomeD [OF lb] have e: "(sz, b) \<in> set (free_list v)" "ab \<le> sz" by auto
  from free_list_entryD [OF inv e(1)] obtain xs f ys
    where m: "frag_map v = xs @ (b, f) # ys" and f: "frag_is_free f" "frag_size f = sz" .
  have step: "AllocImpl_loop (Suc k) i v bytes align na ab = Inr (take_front v f sz b bytes, b)"
    using al lb e(2) f(2) va_lookup_mid [OF inv m] by (elim disjE) (simp_all add: AllocImpl_loop.simps)
  have "unat bytes \<le> unat (frag_size f)"
    using e(2) f(2) ab by (simp add: word_le_nat_alt)
  moreover have "align \<noteq> 0 \<longrightarrow> unat align dvd unat b" using al by (elim disjE) (simp_all add: mod_eq_0_dvd_u64)
  moreover note cut_front_step [OF inv m f(1) n calculation(1)] base_nonzero [OF inv m]
  ultimately have "alloc_post lo hi v bytes align bound (take_front v f sz b bytes, b)"
    unfolding f(2) by (auto simp: alloc_post_def unat_gt_0)
  with step show ?thesis by blast
qed

lemma loop_step_retry:
  assumes inv: "va_inv lo hi v" and lb: "mm_lower_bound ab (free_list v) = Some (sz, b)"
    and al: "align \<noteq> 0" "b mod align \<noteq> 0"
  shows "AllocImpl_loop (Suc k) 0 v bytes align na ab = AllocImpl_loop k (Suc 0) v bytes align na (ab + na)"
proof -
  from mm_lower_bound_SomeD [OF lb] have e: "(sz, b) \<in> set (free_list v)" "ab \<le> sz" by auto
  from free_list_entryD [OF inv e(1)] obtain xs f ys
    where m: "frag_map v = xs @ (b, f) # ys" and f: "frag_size f = sz" .
  show ?thesis
    using lb e(2) f al va_lookup_mid [OF inv m] by (simp add: AllocImpl_loop.simps)
qed


lemma next_multiple_dvd:
  assumes "0 < (a :: nat)"
  shows "a dvd b + (a - b mod a)"
proof -
  have "b + (a - b mod a) = (b - b mod a) + a"
    using mod_less_divisor [OF assms, of b] mod_less_eq_dividend [of b a] by linarith
  also have "a dvd \<dots>" by (intro dvd_add dvd_minus_mod dvd_refl)
  finally show ?thesis .
qed

lemma loop_step_cut:
  assumes inv: "va_inv lo hi v" and n: "0 < unat bytes"
    and lb: "mm_lower_bound ab (free_list v) = Some (sz, b)"
    and ab: "unat bytes + unat align \<le> unat ab"
    and al: "align \<noteq> 0" "b mod align \<noteq> 0"
  shows "\<exists>r. AllocImpl_loop (Suc k) (Suc 0) v bytes align na ab = Inr r \<and>
    alloc_post lo hi v bytes align bound r"
proof -
  from mm_lower_bound_SomeD [OF lb] have e: "(sz, b) \<in> set (free_list v)" "ab \<le> sz" by auto
  from free_list_entryD [OF inv e(1)] obtain xs f ys
    where m: "frag_map v = xs @ (b, f) # ys" and f: "frag_is_free f" "frag_size f = sz" .
  let ?d = "align - b mod align"
  have md: "unat (b mod align) < unat align" using al(1) by (simp add: unat_mod64 unat_gt_0)
  then have d: "unat ?d = unat align - unat b mod unat align" and d0: "?d \<noteq> 0"
    by (auto simp: unat_sub64 unat_mod64 word_unat_eq_iff)
  have fits: "unat ?d + unat bytes \<le> unat (frag_size f)"
    using e(2) f(2) ab d by (simp add: word_le_nat_alt)
  note cut = cut_middle_step [OF inv m f(1) n fits d0]
  have bd: "unat (b + ?d) = unat b + unat ?d"
    by (rule cut_pieces_arith(2) [OF frag_size_bound(2,1) [OF inv m] n fits])
  have dvd: "unat align dvd unat (b + ?d)"
    unfolding bd d using al(1) by (intro next_multiple_dvd) (simp add: unat_gt_0)
  have nz: "b + ?d \<noteq> 0" using bd base_nonzero [OF inv m] by (auto simp: word_unat_eq_iff)
  let ?a = "b + align - b mod align"
  have a: "?a = b + ?d" by simp
  have "AllocImpl_loop (Suc k) (Suc 0) v bytes align na ab = Inr (take_middle v sz b ?a bytes, ?a)"
    using lb e(2) f(2) al va_lookup_mid [OF inv m] by (simp add: AllocImpl_loop.simps Let_def)
  moreover have "alloc_post lo hi v bytes align bound (take_middle v sz b ?a bytes, ?a)"
    unfolding alloc_post_def a fst_conv snd_conv if_not_P [OF nz] using cut dvd unfolding f(2) by blast
  ultimately show ?thesis by blast
qed

definition fit_bound :: "va_mgr \<Rightarrow> u64 \<Rightarrow> u64 \<Rightarrow> u64" where
  "fit_bound v bytes align = (if align = 0 then bytes else bytes + new_align_of v align)"

lemma AllocImpl_post:
  assumes inv: "va_inv lo hi v" and rq: "request_ok v bytes align"
  shows "\<exists>r. AllocImpl v bytes align = Inr r \<and>
    alloc_post lo hi v bytes align (fit_bound v bytes align) r"
proof -
  let ?na = "new_align_of v align" and ?bound = "fit_bound v bytes align"
  from rq have n: "0 < unat bytes" by (simp add: request_ok_def)
  have fail: "alloc_post lo hi v bytes align ?bound (v, 0)"
    if "mm_lower_bound k (free_list v) = None" "k \<le> ?bound" for k
    using inv mm_lower_bound_NoneD [OF that(1)] that(2) unfolding alloc_post_def
    by (auto intro: less_le_trans)
  have le: "bytes \<le> ?bound" and le2: "align \<noteq> 0 \<Longrightarrow> unat bytes + unat align \<le> unat (bytes + ?na)"
    using new_align_bounds [OF rq] by (auto simp: fit_bound_def word_le_nat_alt)
  show ?thesis
  proof (cases "mm_lower_bound bytes (free_list v)")
    case None
    then show ?thesis using fail [OF None le] by (auto simp: AllocImpl_unfold loop_none)
  next
    case (Some e)
    obtain sz b where e: "e = (sz, b)" by (cases e)
    show ?thesis
    proof (cases "align = 0 \<or> b mod align = 0")
      case True
      then show ?thesis
        unfolding AllocImpl_unfold
        using loop_step_fits [OF inv n Some [unfolded e] order_refl True] by (auto split: if_splits)
    next
      case False
      then have al: "align \<noteq> 0" "b mod align \<noteq> 0" by auto
      have step: "AllocImpl v bytes align = AllocImpl_loop (Suc 0) (Suc 0) v bytes align ?na (bytes + ?na)"
        unfolding AllocImpl_unfold using al loop_step_retry [OF inv Some [unfolded e] al] by simp
      show ?thesis
      proof (cases "mm_lower_bound (bytes + ?na) (free_list v)")
        case None
        then show ?thesis using step fail [OF None] al by (auto simp: fit_bound_def loop_none)
      next
        case (Some e')
        obtain sz' b' where e': "e' = (sz', b')" by (cases e')
        note lb = Some [unfolded e']
        show ?thesis
        proof (cases "b' mod align = 0")
          case True
          then show ?thesis
            using step loop_step_fits [OF inv n lb] le2 al by simp
        next
          case False
          then show ?thesis using step loop_step_cut [OF inv n lb le2 al(1)] al by simp
        qed
      qed
    qed
  qed
qed

section \<open>Release\<close>

text \<open>
  The state of \<^verbatim>\<open>Free\<close> between its two merges: the fragments tile the range, all but the one being
  freed are consistent with the free list, and \<open>L\<close> is the set of ranges still in use.
\<close>

definition hole where
  "hole lo hi L fl xs k f ys \<longleftrightarrow>
     0 < lo \<and> hi < 2 ^ 64 \<and> hi - lo < 2 ^ 63 \<and>
     tiles lo (xs @ (k, f) # ys) hi \<and> list_all frag_ok (xs @ ys) \<and>
     successively not_both_free xs \<and> successively not_both_free ys \<and>
     mm_ok fl \<and> mset fl = mset (free_entries (xs @ ys)) \<and> live_list (xs @ ys) = L"

lemma hole_size:
  assumes "hole lo hi L fl xs k f ys"
  shows "unat (frag_size f) < 9223372036854775808"
    and "unat k + unat (frag_size f) < 18446744073709551616"
  using assms tiles_split(3,5) [of lo xs k f ys hi] by (auto simp: hole_def)

lemma merged_size:
  assumes "tiles lo (xs @ (a, f) # (b, g) # ys) hi" and "hi < 18446744073709551616"
    and "hi - lo < 9223372036854775808"
  shows "unat (frag_size f + frag_size g) = unat (frag_size f) + unat (frag_size g)"
    and "size63 (frag_size f + frag_size g) = frag_size f + frag_size g"
    and "b - frag_size f = a"
    and "tiles lo (xs @ (a, h\<lparr>frag_size := frag_size f + frag_size g\<rparr>) # ys) hi"
proof -
  note t = tiles_split [OF assms(1)]
  from t(2) have b: "unat b = unat a + unat (frag_size f)" and g: "0 < unat (frag_size g)"
    and y: "tiles (unat b + unat (frag_size g)) ys hi" by auto
  from tiles_le [OF y] have le: "unat b + unat (frag_size g) \<le> hi" .
  show s: "unat (frag_size f + frag_size g) = unat (frag_size f) + unat (frag_size g)"
    using le b assms(2) by (simp add: unat_add64)
  show "size63 (frag_size f + frag_size g) = frag_size f + frag_size g"
    using s le b t(3) assms(3) by simp
  show "b - frag_size f = a"
    using b by (simp add: word_unat_eq_iff unat_sub64)
  show "tiles lo (xs @ (a, h\<lparr>frag_size := frag_size f + frag_size g\<rparr>) # ys) hi"
    unfolding tiles_append using t(1) y s b g by (intro exI [of _ "unat a"]) (simp add: add.assoc)
qed

lemma hole_init:
  assumes inv: "va_inv lo hi v" and m: "frag_map v = xs @ (a, f) # ys" and used: "\<not> frag_is_free f"
  shows "hole lo hi ((va_live v)(a := None)) (free_list v) xs a f ys"
proof -
  from inv m have t: "tiles lo (xs @ (a, f) # ys) hi" by (simp add: va_inv_def)
  have "a \<notin> fst ` set xs" "a \<notin> fst ` set ys" using tiles_split(6,7) [OF t] by force+
  then have "live_list (xs @ ys) = (live_list (xs @ (a, f) # ys))(a := None)"
    using live_list_notin used tiles_split(6) [OF t] by (auto simp: fun_eq_iff map_add_def split: option.splits)
  then show ?thesis
    using inv m used va_live_list [OF inv]
    by (auto simp: hole_def va_inv_def successively_append_iff successively_Cons)
qed

lemma merge_lower_hole:
  assumes inv: "va_inv lo hi v" and m: "frag_map v = xs @ (a, f) # ys" and used: "\<not> frag_is_free f"
  shows "\<exists>fl' xs' k f'. merge_lower v a f = (fl', xs' @ (k, f') # ys, k, f', k) \<and>
    hole lo hi ((va_live v)(a := None)) fl' xs' k f' ys \<and> (xs' = [] \<or> \<not> frag_is_free (snd (last xs')))"
proof -
  note h = hole_init [OF inv m used]
  from inv m have t: "tiles lo (xs @ (a, f) # ys) hi" by (simp add: va_inv_def)
  have pred: "omap_pred a (frag_map v) = last_opt xs"
    using m tiles_split(6,7) [OF t] by (simp add: omap_pred_append less_imp_le)
  show ?thesis
  proof (cases "xs = [] \<or> \<not> frag_is_free (snd (last xs))")
    case True
    then have "merge_lower v a f = (free_list v, frag_map v, a, f, a)"
      using pred by (auto simp: merge_lower_def last_opt_def split: prod.splits)
    with True h m show ?thesis by metis
  next
    case False
    then obtain xs' l g where xs: "xs = xs' @ [(l, g)]" and g: "frag_is_free g"
      by (metis append_butlast_last_id prod.collapse)
    let ?g = "g\<lparr>free_list_entry := None, frag_size := frag_size g + frag_size f\<rparr>"
    from t xs have t': "tiles lo (xs' @ (l, g) # (a, f) # ys) hi" by simp
    have bnd: "hi < 18446744073709551616" "hi - lo < 9223372036854775808"
      using inv by (simp_all add: va_inv_def)
    note ms = merged_size(2,3) [OF t' bnd] merged_size(4) [OF t' bnd, of "g\<lparr>free_list_entry := None\<rparr>"]
    have er: "omap_erase a (frag_map v) = xs @ ys"
      using m tiles_split(6,7) [OF t] by (auto intro!: omap_erase_mid)
    have pt: "omap_put l ?g (xs @ ys) = xs' @ (l, ?g) # ys"
      using xs tiles_split(6) [OF t'] by (simp add: omap_simps)
    have ok: "frag_ok (l, g)" using inv m xs by (simp add: va_inv_def)
    then have "remove_free_list_entry g (free_list v) = mm_erase (frag_size g, l) (free_list v)"
      using g by (simp add: remove_free_list_entry_def frag_ok_def)
    then have "merge_lower v a f =
        (mm_erase (frag_size g, l) (free_list v), xs' @ (l, ?g) # ys, l, ?g, l)"
      using pred xs g er pt ms(1,2) by (simp add: merge_lower_def Let_def)
    moreover have "hole lo hi ((va_live v)(a := None)) (mm_erase (frag_size g, l) (free_list v)) xs' l ?g ys"
      using h xs g ms(3) by (auto simp: hole_def mset_mm_erase successively_append_iff)
    moreover have "xs' = [] \<or> \<not> frag_is_free (snd (last xs'))"
      using h xs g by (auto simp: hole_def successively_append_iff not_both_free_def)
    ultimately show ?thesis by blast
  qed
qed


lemma merge_upper_hole:
  assumes h: "hole lo hi L fl xs k f ys"
  shows "\<exists>fl' f' ys'. merge_upper fl (xs @ (k, f) # ys) k f = (fl', xs @ (k, f') # ys', f') \<and>
    hole lo hi L fl' xs k f' ys' \<and> (ys' = [] \<or> \<not> frag_is_free (snd (hd ys')))"
proof -
  from h have t: "tiles lo (xs @ (k, f) # ys) hi" by (simp add: hole_def)
  have "omap_succ k ((xs @ [(k, f)]) @ ys) = (case ys of [] \<Rightarrow> None | y # _ \<Rightarrow> Some y)"
    using tiles_split(6,7) [OF t] by (intro omap_succ_append) auto
  then have sc: "omap_succ k (xs @ (k, f) # ys) = (case ys of [] \<Rightarrow> None | y # _ \<Rightarrow> Some y)" by simp
  show ?thesis
  proof (cases "ys = [] \<or> \<not> frag_is_free (snd (hd ys))")
    case True
    then have "merge_upper fl (xs @ (k, f) # ys) k f = (fl, xs @ (k, f) # ys, f)"
      using sc by (cases ys) (auto simp: merge_upper_def)
    with True h show ?thesis by blast
  next
    case False
    then obtain u g ys' where ys: "ys = (u, g) # ys'" and g: "frag_is_free g"
      by (cases ys) auto
    let ?f = "f\<lparr>frag_size := frag_size f + frag_size g\<rparr>"
    from t ys have t': "tiles lo (xs @ (k, f) # (u, g) # ys') hi" by simp
    have bnd: "hi < 18446744073709551616" "hi - lo < 9223372036854775808"
      using h by (simp_all add: hole_def)
    note ms = merged_size(2) [OF t' bnd] merged_size(4) [OF t' bnd, of f]
    from t' have "tiles lo ((xs @ [(k, f)]) @ (u, g) # ys') hi" by simp
    from tiles_split(6,7) [OF this] have "omap_erase u ((xs @ [(k, f)]) @ (u, g) # ys') = (xs @ [(k, f)]) @ ys'"
      by (intro omap_erase_mid) force+
    then have er: "omap_erase u (xs @ (k, f) # ys) = xs @ (k, f) # ys'" using ys by simp
    have pt: "omap_put k ?f (xs @ (k, f) # ys') = xs @ (k, ?f) # ys'"
      using tiles_split(6) [OF t] by (simp add: omap_simps)
    have "frag_ok (u, g)" using h ys by (simp add: hole_def)
    then have "remove_free_list_entry g fl = mm_erase (frag_size g, u) fl"
      using g by (simp add: remove_free_list_entry_def frag_ok_def)
    then have "merge_upper fl (xs @ (k, f) # ys) k f = (mm_erase (frag_size g, u) fl, xs @ (k, ?f) # ys', ?f)"
      using sc ys g er pt ms(1) by (simp add: merge_upper_def Let_def)
    moreover have "hole lo hi L (mm_erase (frag_size g, u) fl) xs k ?f ys'"
      using h ys g ms(2) by (auto simp: hole_def mset_mm_erase successively_Cons)
    moreover have "ys' = [] \<or> \<not> frag_is_free (snd (hd ys'))"
      using h ys g by (auto simp: hole_def successively_Cons not_both_free_def)
    ultimately show ?thesis by blast
  qed
qed

lemma hole_close:
  assumes h: "hole lo hi L fl xs k f ys"
    and nb: "xs = [] \<or> \<not> frag_is_free (snd (last xs))" "ys = [] \<or> \<not> frag_is_free (snd (hd ys))"
    and v': "frag_map v' = xs @ (k, set_free f (frag_size f, k)) # ys"
      "free_list v' = mm_insert (frag_size f, k) fl"
  shows "va_inv lo hi v'" and "va_live v' = L"
proof -
  let ?f = "set_free f (frag_size f, k)"
  have "tiles lo (xs @ (k, ?f) # ys) hi"
    using h by (simp add: hole_def tiles_append set_free_def)
  moreover have "successively not_both_free (xs @ (k, ?f) # ys)"
    using h nb by (auto simp: hole_def successively_append_iff successively_Cons not_both_free_def)
  ultimately show inv: "va_inv lo hi v'"
    using h v' by (auto simp: va_inv_def hole_def frag_ok_def set_free_def)
  show "va_live v' = L"
    using h v' va_live_list [OF inv] by (simp add: hole_def set_free_def)
qed

lemma Free_post:
  assumes inv: "va_inv lo hi v"
  shows "va_inv lo hi (Free v a) \<and> va_live (Free v a) = (va_live v)(a := None) \<and>
    min_align (Free v a) = min_align v"
proof (cases "va_live v a")
  case None
  then have "Free v a = v" by (auto simp: Free_def va_live_def split: option.splits if_splits)
  with inv None show ?thesis by (simp add: fun_upd_idem)
next
  case (Some s)
  then obtain f where f: "map_of (frag_map v) a = Some f" and used: "\<not> frag_is_free f"
    by (auto simp: va_live_def split: option.splits if_splits)
  from inv have t: "tiles lo (frag_map v) hi" by (simp add: va_inv_def)
  from tiles_lookup [OF t f] obtain xs ys where m: "frag_map v = xs @ (a, f) # ys" .
  have nz: "a \<noteq> 0" using base_nonzero [OF inv m] by auto
  from merge_lower_hole [OF inv m used] obtain fl1 xs1 k f1 where
    l: "merge_lower v a f = (fl1, xs1 @ (k, f1) # ys, k, f1, k)"
      "hole lo hi ((va_live v)(a := None)) fl1 xs1 k f1 ys" "xs1 = [] \<or> \<not> frag_is_free (snd (last xs1))"
    by blast
  from merge_upper_hole [OF l(2)] obtain fl2 f2 ys2 where
    u: "merge_upper fl1 (xs1 @ (k, f1) # ys) k f1 = (fl2, xs1 @ (k, f2) # ys2, f2)"
      "hole lo hi ((va_live v)(a := None)) fl2 xs1 k f2 ys2" "ys2 = [] \<or> \<not> frag_is_free (snd (hd ys2))"
    by blast
  have "\<forall>p\<in>set xs1. fst p < k" using u(2) by (auto simp: hole_def dest: tiles_split(6))
  then have "Free v a = v\<lparr>free_list := mm_insert (frag_size f2, k) fl2,
      frag_map := xs1 @ (k, set_free f2 (frag_size f2, k)) # ys2\<rparr>"
    using nz f used l(1) u(1) by (simp add: Free_def omap_simps Let_def)
  with hole_close [OF u(2) l(3) u(3), of "Free v a"] show ?thesis by simp
qed


section \<open>The allocator contract\<close>

datatype range_op = Do_Alloc u64 u64 | Do_Free u64

fun run_ops :: "('s \<Rightarrow> u64 \<Rightarrow> u64 \<Rightarrow> ('s \<times> u64) res) \<Rightarrow> ('s \<Rightarrow> u64 \<Rightarrow> 's) \<Rightarrow> 's \<Rightarrow> range_op list \<Rightarrow> 's res" where
  "run_ops al fr s [] = Inr s"
| "run_ops al fr s (Do_Alloc n align # ops) = bindE (al s n align) (\<lambda>(s', a). run_ops al fr s' ops)"
| "run_ops al fr s (Do_Free a # ops) = run_ops al fr (fr s a) ops"

definition op_ok :: "(u64 \<Rightarrow> u64 \<Rightarrow> bool) \<Rightarrow> range_op \<Rightarrow> bool" where
  "op_ok ok x = (case x of Do_Alloc n align \<Rightarrow> ok n align | Do_Free a \<Rightarrow> True)"

definition ranges_ok :: "nat \<Rightarrow> nat \<Rightarrow> (u64 \<rightharpoonup> u64) \<Rightarrow> bool" where
  "ranges_ok lo hi L \<longleftrightarrow>
     (\<forall>a n. L a = Some n \<longrightarrow> lo \<le> unat a \<and> 0 < unat n \<and> unat a + unat n \<le> hi) \<and>
     (\<forall>a n b m. L a = Some n \<longrightarrow> L b = Some m \<longrightarrow> a \<noteq> b \<longrightarrow>
        unat a + unat n \<le> unat b \<or> unat b + unat m \<le> unat a)"

lemma ranges_ok_disjoint:
  "ranges_ok lo hi L \<Longrightarrow> L a = Some n \<Longrightarrow> L b = Some m \<Longrightarrow> a \<noteq> b \<Longrightarrow>
   unat a + unat n \<le> unat b \<or> unat b + unat m \<le> unat a"
  unfolding ranges_ok_def by blast

locale range_allocator =
  fixes inv :: "'s \<Rightarrow> bool"
    and live :: "'s \<Rightarrow> u64 \<rightharpoonup> u64"
    and ok :: "u64 \<Rightarrow> u64 \<Rightarrow> bool"
    and alloc :: "'s \<Rightarrow> u64 \<Rightarrow> u64 \<Rightarrow> ('s \<times> u64) res"
    and free :: "'s \<Rightarrow> u64 \<Rightarrow> 's"
    and lo hi :: nat
  assumes ranges: "inv s \<Longrightarrow> ranges_ok lo hi (live s)"
    and alloc_law: "inv s \<Longrightarrow> ok n align \<Longrightarrow>
      \<exists>s' a. alloc s n align = Inr (s', a) \<and> inv s' \<and>
        (if a = 0 then s' = s
         else live s a = None \<and> live s' = (live s)(a \<mapsto> n) \<and> (align \<noteq> 0 \<longrightarrow> unat align dvd unat a))"
    and free_law: "inv s \<Longrightarrow> inv (free s a) \<and> live (free s a) = (live s)(a := None)"
begin

lemma alloc_no_fault: "inv s \<Longrightarrow> ok n align \<Longrightarrow> \<exists>r. alloc s n align = Inr r"
  using alloc_law by blast

lemma alloc_fresh:
  assumes "inv s" and "ok n align" and "alloc s n align = Inr (s', a)" and "a \<noteq> 0"
    and "live s b = Some m"
  shows "unat a + unat n \<le> unat b \<or> unat b + unat m \<le> unat a"
proof -
  from alloc_law [OF assms(1,2)] assms(3,4)
  have "inv s'" "live s a = None" "live s' = (live s)(a \<mapsto> n)" by auto
  moreover from this(2) assms(5) have "a \<noteq> b" by auto
  ultimately show ?thesis
    using ranges_ok_disjoint [OF ranges [OF \<open>inv s'\<close>], of a n b m] assms(5) by simp
qed

lemma alloc_free_restores:
  assumes "inv s" and "ok n align" and "alloc s n align = Inr (s', a)" and "a \<noteq> 0"
  shows "live (free s' a) = live s"
proof -
  from alloc_law [OF assms(1,2)] assms(3,4)
  have "inv s'" "live s a = None" "live s' = (live s)(a \<mapsto> n)" by auto
  with free_law [OF \<open>inv s'\<close>, of a] show ?thesis by (simp add: fun_upd_idem)
qed

lemma run_safe:
  assumes "inv s" and "list_all (op_ok ok) ops"
  shows "\<exists>s'. run_ops alloc free s ops = Inr s' \<and> inv s' \<and> ranges_ok lo hi (live s')"
  using assms
proof (induction ops arbitrary: s)
  case (Cons x ops)
  then show ?case
  proof (cases x)
    case (Do_Alloc n align)
    with Cons.prems alloc_law [of s n align] obtain s' a
      where "alloc s n align = Inr (s', a)" "inv s'" by (auto simp: op_ok_def)
    with Cons Do_Alloc show ?thesis by simp
  next
    case (Do_Free a)
    with Cons free_law [of s a] show ?thesis by simp
  qed
qed (use ranges in auto)

end

definition va_ok :: "u64 \<Rightarrow> u64 \<Rightarrow> u64 \<Rightarrow> bool" where
  "va_ok g bytes align \<longleftrightarrow> 0 < unat bytes \<and> 0 < unat g \<and> unat bytes + unat align + unat g \<le> 2 ^ 64"

definition va_state :: "nat \<Rightarrow> nat \<Rightarrow> u64 \<Rightarrow> va_mgr \<Rightarrow> bool" where
  "va_state lo hi g v \<longleftrightarrow> va_inv lo hi v \<and> min_align v = g"

lemma va_ranges:
  assumes "va_inv lo hi v"
  shows "ranges_ok lo hi (va_live v)"
proof -
  from assms have t: "tiles lo (frag_map v) hi" by (simp add: va_inv_def)
  have look: "\<exists>f. map_of (frag_map v) a = Some f \<and> frag_size f = n" if "va_live v a = Some n" for a n
    using that by (auto simp: va_live_def split: option.splits if_splits)
  show ?thesis
    unfolding ranges_ok_def
  proof (intro conjI allI impI)
    fix a n assume "va_live v a = Some n"
    with look obtain f where "map_of (frag_map v) a = Some f" "frag_size f = n" by blast
    with tiles_bounds [OF t, of "(a, f)"] show "lo \<le> unat a" "0 < unat n" "unat a + unat n \<le> hi"
      by (auto dest: map_of_SomeD)
  next
    fix a n b m assume "va_live v a = Some n" "va_live v b = Some m" "a \<noteq> b"
    with look obtain f g where "map_of (frag_map v) a = Some f" "frag_size f = n"
      "map_of (frag_map v) b = Some g" "frag_size g = m" by blast
    with tiles_disjoint [OF t, of a f b g] tiles_disjoint [OF t, of b g a f] \<open>a \<noteq> b\<close>
    show "unat a + unat n \<le> unat b \<or> unat b + unat m \<le> unat a"
      by (cases a b rule: linorder_cases) auto
  qed
qed

interpretation va: range_allocator "va_state lo hi g" va_live "va_ok g" AllocImpl Free lo hi for lo hi g
proof unfold_locales
  fix s assume "va_state lo hi g s"
  then show "ranges_ok lo hi (va_live s)" by (simp add: va_state_def va_ranges)
next
  fix s n align assume s: "va_state lo hi g s" and ok: "va_ok g n align"
  then have "va_inv lo hi s" "request_ok s n align"
    by (simp_all add: va_state_def va_ok_def request_ok_def)
  from AllocImpl_post [OF this] obtain s' a where "AllocImpl s n align = Inr (s', a)"
    "alloc_post lo hi s n align (fit_bound s n align) (s', a)" by fastforce
  with s show "\<exists>s' a. AllocImpl s n align = Inr (s', a) \<and> va_state lo hi g s' \<and>
      (if a = 0 then s' = s
       else va_live s a = None \<and> va_live s' = (va_live s)(a \<mapsto> n) \<and> (align \<noteq> 0 \<longrightarrow> unat align dvd unat a))"
    by (intro exI [of _ s'] exI [of _ a]) (simp add: alloc_post_def va_state_def split: if_splits)
next
  fix s a assume "va_state lo hi g s"
  then show "va_state lo hi g (Free s a) \<and> va_live (Free s a) = (va_live s)(a := None)"
    using Free_post [of lo hi s a] by (simp add: va_state_def)
qed

lemma VaMgr_state:
  assumes "0 < unat start" and "0 < unat len" and "unat start + unat len < 2 ^ 64" and "unat len < 2 ^ 63"
  shows "va_state (unat start) (unat start + unat len) g (VaMgr start len g)"
  using assms
  by (simp add: va_state_def va_inv_def VaMgr_def make_free_fragment_def frag_ok_def mm_ok_def)


section \<open>Coalescing\<close>





section \<open>Properties\<close>

text \<open>Without a fixed address \<^verbatim>\<open>Alloc\<close> is \<^verbatim>\<open>AllocImpl\<close>.\<close>

lemma Alloc_plain: "(\<lambda>v n align. Alloc v n align 0) = AllocImpl"
  by (simp add: Alloc_def fun_eq_iff)

text \<open>
  C4. Safety of the address-space manager for requests without a fixed address: starting from a fresh manager over a non-empty
  range, every sequence of well-formed \<^verbatim>\<open>Alloc\<close> requests with the address 0 and of \<^verbatim>\<open>Free\<close> calls with any address runs without
  tripping an assertion, keeps the fragment invariant, and leaves the ranges in use pairwise
  disjoint and inside the managed range. (What a fixed address can do is shown in the last section.)
\<close>

theorem va_run_safe:
  assumes "0 < unat start" and "0 < unat len" and "unat start + unat len < 2 ^ 64" and "unat len < 2 ^ 63"
    and "list_all (op_ok (va_ok g)) ops"
  shows "\<exists>v. run_ops (\<lambda>v n align. Alloc v n align 0) Free (VaMgr start len g) ops = Inr v \<and>
    va_inv (unat start) (unat start + unat len) v \<and>
    ranges_ok (unat start) (unat start + unat len) (va_live v)"
  unfolding Alloc_plain using va.run_safe [OF VaMgr_state [OF assms(1-4)] assms(5)] by (auto simp: va_state_def)

theorem va_run_safe_witness:
  "\<exists>v. run_ops (\<lambda>v n align. Alloc v n align 0) Free (VaMgr 0x10000 0x10000 0x1000)
      [Do_Alloc 0x1000 0x4000, Do_Alloc 0x2000 0, Do_Free 0x10000, Do_Free 0x77] = Inr v \<and>
    va_inv 0x10000 0x20000 v \<and> ranges_ok 0x10000 0x20000 (va_live v)"
  using va_run_safe [of "0x10000" "0x10000" "0x1000"
      "[Do_Alloc 0x1000 0x4000, Do_Alloc 0x2000 0, Do_Free 0x10000, Do_Free 0x77]"]
  by (simp add: op_ok_def va_ok_def)

text \<open>
  C9. What an allocation promises: a well-formed request always returns. The result is 0 and the manager is unchanged, or it is a multiple of the requested
  alignment, was not in use, becomes a range of exactly the requested size inside the managed range, overlaps no range
  that was in use before, and no other range changes.
\<close>

theorem AllocImpl_correct:
  assumes "va_inv lo hi v" and "va_ok (min_align v) bytes align"
  shows "\<exists>v' a. AllocImpl v bytes align = Inr (v', a) \<and>
    (if a = 0 then v' = v
     else va_inv lo hi v' \<and> va_live v' = (va_live v)(a \<mapsto> bytes) \<and> va_live v a = None \<and>
       lo \<le> unat a \<and> unat a + unat bytes \<le> hi \<and> (align \<noteq> 0 \<longrightarrow> unat align dvd unat a) \<and>
       (\<forall>b n. va_live v b = Some n \<longrightarrow> unat a + unat bytes \<le> unat b \<or> unat b + unat n \<le> unat a))"
proof -
  have st: "va_state lo hi (min_align v) v" using assms(1) by (simp add: va_state_def)
  from va.alloc_law [OF st assms(2)] obtain v' a where r: "AllocImpl v bytes align = Inr (v', a)" "va_inv lo hi v'"
    "if a = 0 then v' = v else va_live v a = None \<and> va_live v' = (va_live v)(a \<mapsto> bytes) \<and> (align \<noteq> 0 \<longrightarrow> unat align dvd unat a)"
    by (auto simp: va_state_def)
  show ?thesis
  proof (cases "a = 0")
    case False
    with r va_ranges [OF r(2)] have "lo \<le> unat a \<and> unat a + unat bytes \<le> hi" by (auto simp: ranges_ok_def)
    with False r va.alloc_fresh [OF st assms(2) r(1)] show ?thesis by (intro exI [of _ v'] exI [of _ a]) simp
  qed (use r in auto)
qed

theorem AllocImpl_correct_witness:
  "(\<exists>v'. AllocImpl (VaMgr 0x11000 0x10000 0x1000) 0x1000 0x4000 = Inr (v', 0x14000) \<and>
     va_inv 0x11000 0x21000 v' \<and> va_live v' 0x14000 = Some 0x1000)"
proof -
  let ?v = "VaMgr 0x11000 0x10000 0x1000"
  have inv: "va_inv 0x11000 0x21000 ?v"
    using VaMgr_state [of "0x11000" "0x10000"] by (simp add: va_state_def)
  have ok: "va_ok (min_align ?v) 0x1000 0x4000" by (simp add: VaMgr_def va_ok_def)
  have "case AllocImpl ?v 0x1000 0x4000 of Inl _ \<Rightarrow> False | Inr r \<Rightarrow> snd r = 0x14000" by code_simp
  then obtain v' where v': "AllocImpl ?v 0x1000 0x4000 = Inr (v', 0x14000)" by (auto split: sum.splits)
  from AllocImpl_correct [OF inv ok] v' show ?thesis by auto
qed

text \<open>
  C10. \<^verbatim>\<open>Free\<close> removes exactly the given range: whatever address it is called with, the
  invariant is kept and the map of ranges in use loses that base address and nothing else
  (nothing at all for an address that is not the base of a range in use).
\<close>

theorem Free_correct:
  assumes "va_inv lo hi v"
  shows "va_inv lo hi (Free v a) \<and> va_live (Free v a) = (va_live v)(a := None)"
  using Free_post [OF assms] by blast

theorem Free_correct_witness:
  "va_inv 0x10000 0x20000 (Free (VaMgr 0x10000 0x10000 0x1000) 0x10000)"
  using Free_correct [of "0x10000" "0x20000" "VaMgr 0x10000 0x10000 0x1000" "0x10000"]
    VaMgr_state [of "0x10000" "0x10000" "0x1000"] by (simp add: va_state_def)



text \<open>
  C12. The manager gives up only when it must: if \<^verbatim>\<open>AllocImpl\<close> returns 0 for a well-formed request,
  no free fragment has room for the request plus its rounded alignment; so a free fragment of
  that size guarantees an address.
\<close>

theorem AllocImpl_succeeds:
  assumes "va_inv lo hi v" and "va_ok (min_align v) bytes align"
    and "(sz, b) \<in> set (free_list v)"
    and "unat bytes + (if align = 0 then 0 else unat (AlignUp align (min_align v))) \<le> unat sz"
  shows "\<exists>v' a. AllocImpl v bytes align = Inr (v', a) \<and> a \<noteq> 0"
proof -
  have rq: "request_ok v bytes align" using assms(2) by (simp add: va_ok_def request_ok_def)
  from AllocImpl_post [OF assms(1) rq] obtain v' a where
    r: "AllocImpl v bytes align = Inr (v', a)" "alloc_post lo hi v bytes align (fit_bound v bytes align) (v', a)"
    by fastforce
  have "\<not> sz < fit_bound v bytes align"
    using assms(4) new_align_bounds(2) [OF rq]
    by (auto simp: fit_bound_def new_align_of_def word_less_nat_alt split: if_splits)
  with r(2) assms(3) have "a \<noteq> 0" by (auto simp: alloc_post_def split: if_splits)
  with r(1) show ?thesis by blast
qed

theorem AllocImpl_succeeds_witness:
  "\<exists>v' a. AllocImpl (VaMgr 0x10000 0x10000 0x1000) 0x8000 0x8000 = Inr (v', a) \<and> a \<noteq> 0"
proof -
  let ?v = "VaMgr 0x10000 0x10000 0x1000"
  have "va_inv 0x10000 0x20000 ?v"
    using VaMgr_state [of "0x10000" "0x10000"] by (simp add: va_state_def)
  moreover have "va_ok (min_align ?v) 0x8000 0x8000" "(0x10000, 0x10000) \<in> set (free_list ?v)"
    by (simp_all add: VaMgr_def va_ok_def)
  moreover have "unat (0x8000 :: u64) + (if (0x8000 :: u64) = 0 then 0 else unat (AlignUp (0x8000 :: u64) (min_align ?v)))
      \<le> unat (0x10000 :: u64)" by (simp add: VaMgr_def AlignUp_u64)
  ultimately show ?thesis by (rule AllocImpl_succeeds)
qed

section \<open>Fixed addresses\<close>







end
