(* ===== verification/Pm4.thy ===== *)
theory Pm4
  imports Utils
begin

text \<open>
  The PM4 command packets of \<^verbatim>\<open>src/include/impl/pm4_cmds.h\<close> and the builders of
  \<^verbatim>\<open>src/src/wddm/cmd_util.cpp\<close>. A packet struct is a record of the members the code assigns (the
  others stay zero, since every packet starts as \<^verbatim>\<open>= {0}\<close>); \<open>dw_\<close> functions give the
  double words of a struct in memory order, bit-fields packed from the low end. A builder
  returns the words it copies to its buffer; the byte count it returns in the source is four times
  their number.
\<close>

section \<open>Headers\<close>

definition IT_DISPATCH_DIRECT :: u32 where "IT_DISPATCH_DIRECT = 0x15"
definition IT_ATOMIC_MEM :: u32 where "IT_ATOMIC_MEM = 0x1E"
definition IT_WRITE_DATA :: u32 where "IT_WRITE_DATA = 0x37"
definition IT_INDIRECT_BUFFER :: u32 where "IT_INDIRECT_BUFFER = 0x3F"
definition IT_COPY_DATA :: u32 where "IT_COPY_DATA = 0x40"
definition IT_EVENT_WRITE :: u32 where "IT_EVENT_WRITE = 0x46"
definition IT_ACQUIRE_MEM :: u32 where "IT_ACQUIRE_MEM = 0x58"
definition IT_SET_SH_REG :: u32 where "IT_SET_SH_REG = 0x76"

lemmas IT_defs = IT_DISPATCH_DIRECT_def IT_ATOMIC_MEM_def IT_WRITE_DATA_def IT_INDIRECT_BUFFER_def
  IT_COPY_DATA_def IT_EVENT_WRITE_def IT_ACQUIRE_MEM_def IT_SET_SH_REG_def

definition mmCOMPUTE_NUM_THREAD_X :: u32 where "mmCOMPUTE_NUM_THREAD_X = 0x2E07"
definition mmCOMPUTE_PGM_LO :: u32 where "mmCOMPUTE_PGM_LO = 0x2E0C"
definition mmCOMPUTE_DISPATCH_SCRATCH_BASE_LO :: u32 where
  "mmCOMPUTE_DISPATCH_SCRATCH_BASE_LO = 0x2E10"
definition mmCOMPUTE_PGM_RSRC1 :: u32 where "mmCOMPUTE_PGM_RSRC1 = 0x2E12"
definition mmCOMPUTE_PGM_RSRC3 :: u32 where "mmCOMPUTE_PGM_RSRC3 = 0x2E28"
definition mmCOMPUTE_RESOURCE_LIMITS :: u32 where "mmCOMPUTE_RESOURCE_LIMITS = 0x2E15"
definition mmCOMPUTE_USER_DATA_0 :: u32 where "mmCOMPUTE_USER_DATA_0 = 0x2E40"
definition PERSISTENT_SPACE_START :: u32 where "PERSISTENT_SPACE_START = 0x2C00"

text \<open>
  \<^verbatim>\<open>PM4_TYPE3_HDR\<close>: packet type 3, the number of words after the first one less one, the opcode and
  the compute shader bit. \<open>PM4_MEC_TYPE_3_HEADER\<close> is the layout in which the header is read back:
  the width of each member, lowest first.
\<close>

definition PM4_TYPE3_HDR :: "u32 \<Rightarrow> nat \<Rightarrow> u32" where
  "PM4_TYPE3_HDR opc cnt =
     (push_bit 30 3 OR push_bit 16 (of_nat cnt - 2) OR push_bit 8 opc) OR push_bit 1 1"

definition PM4_MEC_TYPE_3_HEADER :: "nat list" where
  "PM4_MEC_TYPE_3_HEADER = [8, 8, 14, 2]"

definition GenerateCmdHeader :: "nat \<Rightarrow> u32 \<Rightarrow> u32" where
  "GenerateCmdHeader sizeof_T op_code = PM4_TYPE3_HDR op_code (sizeof_T div 4)"

record PM4_MEC_SET_SH_REG =
  ssr_header :: u32
  reg_offset :: u32

definition dw_SET_SH_REG :: "PM4_MEC_SET_SH_REG \<Rightarrow> u32 list" where
  "dw_SET_SH_REG p = [ssr_header p, pack [(16, reg_offset p), (16, 0)]]"

definition GenerateSetShRegHeader :: "nat \<Rightarrow> u32 \<Rightarrow> PM4_MEC_SET_SH_REG" where
  "GenerateSetShRegHeader sizeof_T reg_addr =
     \<lparr>ssr_header = PM4_TYPE3_HDR IT_SET_SH_REG (sizeof_T div 4),
      reg_offset = reg_addr - PERSISTENT_SPACE_START\<rparr>"

section \<open>Packet structs\<close>

record PM4_MEC_DISPATCH_DIRECT =
  dd_header :: u32
  dim_x :: u32
  dim_y :: u32
  dim_z :: u32
  dispatch_initiator :: u32

definition dw_DISPATCH_DIRECT :: "PM4_MEC_DISPATCH_DIRECT \<Rightarrow> u32 list" where
  "dw_DISPATCH_DIRECT p = [dd_header p, dim_x p, dim_y p, dim_z p, dispatch_initiator p]"

record PM4_MEC_EVENT_WRITE =
  ew_header :: u32
  event_type :: u32
  event_index :: u32

definition dw_EVENT_WRITE :: "PM4_MEC_EVENT_WRITE \<Rightarrow> u32 list" where
  "dw_EVENT_WRITE p =
     [ew_header p, pack [(6, event_type p), (2, 0), (4, event_index p), (19, 0), (1, 0)]]"

record PM4_MEC_ATOMIC_MEM =
  am_header :: u32
  am_atomic :: u32
  am_cache_policy :: u32
  addr_lo :: u32
  addr_hi :: u32
  src_data_lo :: u32
  src_data_hi :: u32

definition dw_ATOMIC_MEM :: "PM4_MEC_ATOMIC_MEM \<Rightarrow> u32 list" where
  "dw_ATOMIC_MEM p =
     [am_header p,
      pack [(7, am_atomic p), (1, 0), (4, 0), (13, 0), (2, am_cache_policy p), (5, 0)],
      addr_lo p, addr_hi p, src_data_lo p, src_data_hi p, 0, 0, pack [(13, 0), (19, 0)]]"

record PM4_MEC_WRITE_DATA =
  wd_header :: u32
  wd_dst_sel :: u32
  addr_incr :: u32
  wd_wr_confirm :: u32
  wd_cache_policy :: u32
  dst_mem_addr_lo :: u32
  dst_mem_addr_hi :: u32
  write_data_value :: u64

definition dw_WRITE_DATA :: "PM4_MEC_WRITE_DATA \<Rightarrow> u32 list" where
  "dw_WRITE_DATA p =
     [wd_header p,
      pack [(8, 0), (4, wd_dst_sel p), (4, 0), (1, addr_incr p), (2, 0), (1, 0), (1, wd_wr_confirm p),
            (4, 0), (2, wd_cache_policy p), (5, 0)],
      pack [(2, 0), (30, dst_mem_addr_lo p)],
      dst_mem_addr_hi p,
      ucast (write_data_value p), ucast (drop_bit 32 (write_data_value p))]"

record PM4MEC_COPY_DATA =
  cd_header :: u32
  src_sel :: u32
  cd_dst_sel :: u32
  src_cache_policy :: u32
  count_sel :: u32
  cd_wr_confirm :: u32
  dst_cache_policy :: u32
  dst_64b_addr_lo :: u32
  dst_addr_hi :: u32

definition dw_COPY_DATA :: "PM4MEC_COPY_DATA \<Rightarrow> u32 list" where
  "dw_COPY_DATA p =
     [cd_header p,
      pack [(4, src_sel p), (4, 0), (4, cd_dst_sel p), (1, 0), (2, src_cache_policy p), (1, 0),
            (1, count_sel p), (3, 0), (1, cd_wr_confirm p), (4, 0), (2, dst_cache_policy p), (2, 0),
            (1, 0), (2, 0)],
      0, 0,
      pack [(3, 0), (29, dst_64b_addr_lo p)],
      dst_addr_hi p]"

record gfx9_ACQUIRE_MEM =
  aq9_header :: u32
  coher_cntl :: u32
  aq9_coher_size :: u32
  aq9_coher_size_hi :: u32
  aq9_coher_base_lo :: u32
  aq9_coher_base_hi :: u32
  aq9_poll_interval :: u32

definition dw_gfx9_ACQUIRE_MEM :: "gfx9_ACQUIRE_MEM \<Rightarrow> u32 list" where
  "dw_gfx9_ACQUIRE_MEM p =
     [aq9_header p, pack [(31, coher_cntl p), (1, 0)], aq9_coher_size p,
      pack [(8, aq9_coher_size_hi p), (24, 0)], aq9_coher_base_lo p,
      pack [(24, aq9_coher_base_hi p), (8, 0)], pack [(16, aq9_poll_interval p), (16, 0)]]"

record gfx10_ACQUIRE_MEM =
  aq10_header :: u32
  aq10_coher_size :: u32
  aq10_coher_size_hi :: u32
  aq10_coher_base_lo :: u32
  aq10_coher_base_hi :: u32
  aq10_poll_interval :: u32
  gcr_cntl :: u32

definition dw_gfx10_ACQUIRE_MEM :: "gfx10_ACQUIRE_MEM \<Rightarrow> u32 list" where
  "dw_gfx10_ACQUIRE_MEM p =
     [aq10_header p, 0, aq10_coher_size p,
      pack [(8, aq10_coher_size_hi p), (24, 0)], aq10_coher_base_lo p,
      pack [(24, aq10_coher_base_hi p), (8, 0)], pack [(16, aq10_poll_interval p), (16, 0)],
      pack [(19, gcr_cntl p), (13, 0)]]"

record SetScratchTemplate =
  ss_cmd_set_data :: PM4_MEC_SET_SH_REG
  scratch_lo :: u32
  scratch_hi :: u32

definition dw_SetScratchTemplate :: "SetScratchTemplate \<Rightarrow> u32 list" where
  "dw_SetScratchTemplate p = dw_SET_SH_REG (ss_cmd_set_data p) @ [scratch_lo p, scratch_hi p]"

record DispatchProgramResourceRegs3 =
  dp3_cmd_set_data :: PM4_MEC_SET_SH_REG
  compute_pgm_rsrc3 :: u32

definition dw_DispatchProgramResourceRegs3 :: "DispatchProgramResourceRegs3 \<Rightarrow> u32 list" where
  "dw_DispatchProgramResourceRegs3 p = dw_SET_SH_REG (dp3_cmd_set_data p) @ [compute_pgm_rsrc3 p]"

record DispatchDimensionRegs =
  dim_cmd :: PM4_MEC_SET_SH_REG
  compute_num_thread_x :: u32
  compute_num_thread_y :: u32
  compute_num_thread_z :: u32

record DispatchProgramRegs =
  pgm_cmd :: PM4_MEC_SET_SH_REG
  compute_pgm_lo :: u32
  compute_pgm_hi :: u32

record DispatchProgramResourceRegs =
  rsrc_cmd :: PM4_MEC_SET_SH_REG
  compute_pgm_rsrc1 :: u32
  compute_pgm_rsrc2 :: u32

record DispatchResourceRegs =
  res_cmd :: PM4_MEC_SET_SH_REG
  compute_resource_limits :: u32
  compute_static_thread_mgmt_se0 :: u32
  compute_static_thread_mgmt_se1 :: u32
  compute_tmpring_size :: u32
  compute_static_thread_mgmt_se2 :: u32
  compute_static_thread_mgmt_se3 :: u32

record DispatchComputeUserDataRegs =
  user_cmd :: PM4_MEC_SET_SH_REG
  compute_user_data :: "u32 list"

record DispatchTemplate =
  dimension_regs :: DispatchDimensionRegs
  program_regs :: DispatchProgramRegs
  program_resource_regs :: DispatchProgramResourceRegs
  resource_regs :: DispatchResourceRegs
  compute_user_data_regs :: DispatchComputeUserDataRegs
  dispatch_direct :: PM4_MEC_DISPATCH_DIRECT

definition dw_dimension_regs :: "DispatchDimensionRegs \<Rightarrow> u32 list" where
  "dw_dimension_regs r = dw_SET_SH_REG (dim_cmd r) @
     [compute_num_thread_x r, compute_num_thread_y r, compute_num_thread_z r]"

definition dw_program_regs :: "DispatchProgramRegs \<Rightarrow> u32 list" where
  "dw_program_regs r = dw_SET_SH_REG (pgm_cmd r) @ [compute_pgm_lo r, compute_pgm_hi r]"

definition dw_program_resource_regs :: "DispatchProgramResourceRegs \<Rightarrow> u32 list" where
  "dw_program_resource_regs r = dw_SET_SH_REG (rsrc_cmd r) @ [compute_pgm_rsrc1 r, compute_pgm_rsrc2 r]"

definition dw_resource_regs :: "DispatchResourceRegs \<Rightarrow> u32 list" where
  "dw_resource_regs r = dw_SET_SH_REG (res_cmd r) @
     [compute_resource_limits r, compute_static_thread_mgmt_se0 r, compute_static_thread_mgmt_se1 r,
      compute_tmpring_size r, compute_static_thread_mgmt_se2 r, compute_static_thread_mgmt_se3 r]"

definition dw_compute_user_data_regs :: "DispatchComputeUserDataRegs \<Rightarrow> u32 list" where
  "dw_compute_user_data_regs r = dw_SET_SH_REG (user_cmd r) @ compute_user_data r"

definition dw_DispatchTemplate :: "DispatchTemplate \<Rightarrow> u32 list" where
  "dw_DispatchTemplate t =
     dw_dimension_regs (dimension_regs t) @ dw_program_regs (program_regs t) @
     dw_program_resource_regs (program_resource_regs t) @ dw_resource_regs (resource_regs t) @
     dw_compute_user_data_regs (compute_user_data_regs t) @ dw_DISPATCH_DIRECT (dispatch_direct t)"

text \<open>The sizes of the structs in bytes, as \<^verbatim>\<open>sizeof\<close> gives them.\<close>

definition sizeof_EVENT_WRITE :: nat where "sizeof_EVENT_WRITE = 8"
definition sizeof_ATOMIC_MEM :: nat where "sizeof_ATOMIC_MEM = 36"
definition sizeof_WRITE_DATA :: nat where "sizeof_WRITE_DATA = 24"
definition sizeof_COPY_DATA :: nat where "sizeof_COPY_DATA = 24"
definition sizeof_gfx9_ACQUIRE_MEM :: nat where "sizeof_gfx9_ACQUIRE_MEM = 28"
definition sizeof_gfx10_ACQUIRE_MEM :: nat where "sizeof_gfx10_ACQUIRE_MEM = 32"
definition sizeof_SetScratchTemplate :: nat where "sizeof_SetScratchTemplate = 16"
definition sizeof_DispatchProgramResourceRegs3 :: nat where "sizeof_DispatchProgramResourceRegs3 = 12"
definition sizeof_DispatchTemplate :: nat where "sizeof_DispatchTemplate = 176"
definition offsetof_compute_user_data :: nat where "offsetof_compute_user_data = 92"
definition offsetof_scratch_lo :: nat where "offsetof_scratch_lo = 8"

lemmas sizeof_defs = sizeof_EVENT_WRITE_def sizeof_ATOMIC_MEM_def sizeof_WRITE_DATA_def
  sizeof_COPY_DATA_def sizeof_gfx9_ACQUIRE_MEM_def sizeof_gfx10_ACQUIRE_MEM_def
  sizeof_SetScratchTemplate_def sizeof_DispatchProgramResourceRegs3_def sizeof_DispatchTemplate_def
  offsetof_compute_user_data_def offsetof_scratch_lo_def

lemmas dw_defs = dw_SET_SH_REG_def dw_DISPATCH_DIRECT_def dw_EVENT_WRITE_def dw_ATOMIC_MEM_def
  dw_WRITE_DATA_def dw_COPY_DATA_def dw_gfx9_ACQUIRE_MEM_def dw_gfx10_ACQUIRE_MEM_def
  dw_SetScratchTemplate_def dw_DispatchProgramResourceRegs3_def dw_dimension_regs_def
  dw_program_regs_def dw_program_resource_regs_def dw_resource_regs_def
  dw_compute_user_data_regs_def dw_DispatchTemplate_def

section \<open>Builders\<close>

definition dst_sel__mec_copy_data__tc_l2 :: u32 where "dst_sel__mec_copy_data__tc_l2 = 2"
definition dst_cache_policy__mec_copy_data__stream :: u32 where
  "dst_cache_policy__mec_copy_data__stream = 1"
definition src_sel__mec_copy_data__gpu_clock_count :: u32 where
  "src_sel__mec_copy_data__gpu_clock_count = 9"
definition src_cache_policy__mec_copy_data__lru :: u32 where
  "src_cache_policy__mec_copy_data__lru = 0"
definition count_sel__mec_copy_data__64_bits_of_data :: u32 where
  "count_sel__mec_copy_data__64_bits_of_data = 1"
definition wr_confirm__mec_copy_data__wait_for_confirmation :: u32 where
  "wr_confirm__mec_copy_data__wait_for_confirmation = 1"
definition event_index__mec_event_write__cs_partial_flush :: u32 where
  "event_index__mec_event_write__cs_partial_flush = 4"
definition CS_PARTIAL_FLUSH :: u32 where "CS_PARTIAL_FLUSH = 7"
definition cache_policy__mec_atomic_mem__stream :: u32 where "cache_policy__mec_atomic_mem__stream = 1"
definition cache_policy__mec_atomic_mem__bypass :: u32 where "cache_policy__mec_atomic_mem__bypass = 3"
definition TC_OP_ATOMIC_ADD_RTN_64 :: u32 where "TC_OP_ATOMIC_ADD_RTN_64 = 0x2F"
definition dst_sel__mec_write_data__memory :: u32 where "dst_sel__mec_write_data__memory = 5"
definition addr_incr__mec_write_data__increment_address :: u32 where
  "addr_incr__mec_write_data__increment_address = 0"
definition wr_confirm__mec_write_data__wait_for_write_confirmation :: u32 where
  "wr_confirm__mec_write_data__wait_for_write_confirmation = 1"
definition cache_policy__mec_write_data__bypass :: u32 where "cache_policy__mec_write_data__bypass = 3"

lemmas pm4_enum_defs = dst_sel__mec_copy_data__tc_l2_def dst_cache_policy__mec_copy_data__stream_def
  src_sel__mec_copy_data__gpu_clock_count_def src_cache_policy__mec_copy_data__lru_def
  count_sel__mec_copy_data__64_bits_of_data_def wr_confirm__mec_copy_data__wait_for_confirmation_def
  event_index__mec_event_write__cs_partial_flush_def CS_PARTIAL_FLUSH_def
  cache_policy__mec_atomic_mem__stream_def cache_policy__mec_atomic_mem__bypass_def
  TC_OP_ATOMIC_ADD_RTN_64_def dst_sel__mec_write_data__memory_def
  addr_incr__mec_write_data__increment_address_def
  wr_confirm__mec_write_data__wait_for_write_confirmation_def
  cache_policy__mec_write_data__bypass_def

definition BuildCopyData :: "u64 \<Rightarrow> u32 \<Rightarrow> u32 \<Rightarrow> u32 \<Rightarrow> u32 \<Rightarrow> u32 \<Rightarrow> u32 \<Rightarrow> u32 list" where
  "BuildCopyData pDstAddr dstSel dstCachePolicy srcSel srcCachePolicy countSel wrConfirm =
     dw_COPY_DATA
       \<lparr>cd_header = GenerateCmdHeader sizeof_COPY_DATA IT_COPY_DATA,
        src_sel = srcSel, cd_dst_sel = dstSel, src_cache_policy = srcCachePolicy,
        count_sel = countSel, cd_wr_confirm = wrConfirm, dst_cache_policy = dstCachePolicy,
        dst_64b_addr_lo = drop_bit 3 (PtrLow32 pDstAddr), dst_addr_hi = PtrHigh32 pDstAddr\<rparr>"

text \<open>The call with the default arguments of \<^verbatim>\<open>cmd_util.h\<close>: sample the GPU clock into memory.\<close>

definition BuildCopyData_default :: "u64 \<Rightarrow> u32 list" where
  "BuildCopyData_default pDstAddr =
     BuildCopyData pDstAddr dst_sel__mec_copy_data__tc_l2 dst_cache_policy__mec_copy_data__stream
       src_sel__mec_copy_data__gpu_clock_count src_cache_policy__mec_copy_data__lru
       count_sel__mec_copy_data__64_bits_of_data wr_confirm__mec_copy_data__wait_for_confirmation"

definition BuildBarrier :: "u32 \<Rightarrow> u32 \<Rightarrow> u32 list" where
  "BuildBarrier eventIndex eventType =
     dw_EVENT_WRITE
       \<lparr>ew_header = GenerateCmdHeader sizeof_EVENT_WRITE IT_EVENT_WRITE,
        event_type = eventType, event_index = eventIndex\<rparr>"

definition BuildBarrier_default :: "u32 list" where
  "BuildBarrier_default = BuildBarrier event_index__mec_event_write__cs_partial_flush CS_PARTIAL_FLUSH"

definition BuildWriteData64Command :: "u64 \<Rightarrow> u64 \<Rightarrow> u32 list res" where
  "BuildWriteData64Command write_addr write_value =
     bindE (assertE ''BuildWriteData64Command'' (write_addr AND 3 = 0)) (\<lambda>_.
     Inr (dw_WRITE_DATA
       \<lparr>wd_header = GenerateCmdHeader sizeof_WRITE_DATA IT_WRITE_DATA,
        wd_dst_sel = dst_sel__mec_write_data__memory,
        addr_incr = addr_incr__mec_write_data__increment_address,
        wd_wr_confirm = wr_confirm__mec_write_data__wait_for_write_confirmation,
        wd_cache_policy = cache_policy__mec_write_data__bypass,
        dst_mem_addr_lo = drop_bit 2 (PtrLow32 write_addr),
        dst_mem_addr_hi = PtrHigh32 write_addr,
        write_data_value = write_value\<rparr>))"

text \<open>
  For \<^verbatim>\<open>major < 9\<close> the source writes nothing and returns an uninitialised size; that is the
  \<open>None\<close> of the model.
\<close>

definition BuildAcquireMem :: "int \<Rightarrow> u32 list option" where
  "BuildAcquireMem major =
     (if major = 9 then
        Some (dw_gfx9_ACQUIRE_MEM
          \<lparr>aq9_header = GenerateCmdHeader sizeof_gfx9_ACQUIRE_MEM IT_ACQUIRE_MEM,
           coher_cntl = push_bit 29 1 OR push_bit 27 1 OR push_bit 28 1,
           aq9_coher_size = 0xFFFFFFFF, aq9_coher_size_hi = 0xFF,
           aq9_coher_base_lo = 0, aq9_coher_base_hi = 0, aq9_poll_interval = 4\<rparr>)
      else if major \<ge> 10 then
        Some (dw_gfx10_ACQUIRE_MEM
          \<lparr>aq10_header = GenerateCmdHeader sizeof_gfx10_ACQUIRE_MEM IT_ACQUIRE_MEM,
           aq10_coher_size = 0xFFFFFFFF, aq10_coher_size_hi = 0xFF,
           aq10_coher_base_lo = 0, aq10_coher_base_hi = 0, aq10_poll_interval = 4,
           gcr_cntl = push_bit 16 1 OR push_bit 15 1 OR push_bit 14 1 OR push_bit 9 1 OR
             push_bit 8 1 OR push_bit 7 1 OR push_bit 6 1 OR push_bit 5 1 OR push_bit 4 1 OR 1\<rparr>)
      else None)"

definition BuildScratch :: "u64 \<Rightarrow> u32 list res" where
  "BuildScratch pScratchBase =
     bindE (Ptr48Low32 pScratchBase) (\<lambda>lo.
     Inr (dw_SetScratchTemplate
       \<lparr>ss_cmd_set_data =
          GenerateSetShRegHeader sizeof_SetScratchTemplate mmCOMPUTE_DISPATCH_SCRATCH_BASE_LO,
        scratch_lo = lo, scratch_hi = ucast (Ptr48High8 pScratchBase)\<rparr>))"

definition BuildComputeShaderParams :: "u32 list" where
  "BuildComputeShaderParams =
     dw_DispatchProgramResourceRegs3
       \<lparr>dp3_cmd_set_data =
          GenerateSetShRegHeader sizeof_DispatchProgramResourceRegs3 mmCOMPUTE_PGM_RSRC3,
        compute_pgm_rsrc3 = push_bit 31 1\<rparr>"

definition BuildAtomicMem :: "u64 \<Rightarrow> u32 \<Rightarrow> u32 \<Rightarrow> u64 \<Rightarrow> u32 list" where
  "BuildAtomicMem pAddr atomic cachePolicy srcData =
     dw_ATOMIC_MEM
       \<lparr>am_header = GenerateCmdHeader sizeof_ATOMIC_MEM IT_ATOMIC_MEM,
        am_atomic = atomic, am_cache_policy = cachePolicy,
        addr_lo = PtrLow32 pAddr, addr_hi = PtrHigh32 pAddr,
        src_data_lo = LowPart srcData, src_data_hi = HighPart srcData\<rparr>"

section \<open>The dispatch packet\<close>

record hsa_kernel_dispatch_packet =
  kd_header :: u16
  kd_setup :: u16
  workgroup_size_x :: u16
  workgroup_size_y :: u16
  workgroup_size_z :: u16
  grid_size_x :: u32
  grid_size_y :: u32
  grid_size_z :: u32
  private_segment_size :: u32
  group_segment_size :: u32
  kernel_object :: u64
  kernarg_address :: u64
  kd_completion_signal :: u64

record amd_kernel_code =
  kernel_code_entry_byte_offset :: u64
  kc_compute_pgm_rsrc1 :: u32
  kc_compute_pgm_rsrc2 :: u32
  kernel_code_properties :: u32
  workitem_private_segment_byte_size :: u32

record amd_queue_v2 =
  aq_compute_tmpring_size :: u32
  scratch_resource_descriptor :: "u32 list"
  scratch_backing_memory_location :: u64
  scratch_wave64_lane_byte_size :: u32

record DispatchInfo =
  di_major :: int
  pPacket_addr :: u64
  pPacket :: hsa_kernel_dispatch_packet
  pEntry :: u64
  pKernelObject :: amd_kernel_code
  ldsBlks :: u32
  pAmdQueue_addr :: u64
  pAmdQueue :: amd_queue_v2
  di_wave32 :: bool
  di_srd :: u32
  pScratchBase :: u64
  scratchSizePerWave :: u32

text \<open>
  \<^verbatim>\<open>AMD_HSA_BITS_GET\<close> and \<^verbatim>\<open>AMD_HSA_BITS_SET\<close> on a field of width one, given by its shift, and the
  shifts of the kernel code properties that ask for user SGPRs.
\<close>

definition AMD_HSA_BITS_GET :: "u32 \<Rightarrow> nat \<Rightarrow> bool" where
  "AMD_HSA_BITS_GET src sh \<longleftrightarrow> drop_bit sh (src AND push_bit sh 1) \<noteq> 0"

definition AMD_HSA_BITS_SET :: "u32 \<Rightarrow> nat \<Rightarrow> u32 \<Rightarrow> u32" where
  "AMD_HSA_BITS_SET dst sh val =
     (dst AND (NOT (push_bit sh 1) AND NOT (push_bit sh 1))) OR (push_bit sh val AND push_bit sh 1)"

definition ENABLE_SGPR_PRIVATE_SEGMENT_BUFFER :: nat where "ENABLE_SGPR_PRIVATE_SEGMENT_BUFFER = 0"
definition ENABLE_SGPR_DISPATCH_PTR :: nat where "ENABLE_SGPR_DISPATCH_PTR = 1"
definition ENABLE_SGPR_QUEUE_PTR :: nat where "ENABLE_SGPR_QUEUE_PTR = 2"
definition ENABLE_SGPR_KERNARG_SEGMENT_PTR :: nat where "ENABLE_SGPR_KERNARG_SEGMENT_PTR = 3"
definition ENABLE_SGPR_DISPATCH_ID :: nat where "ENABLE_SGPR_DISPATCH_ID = 4"
definition ENABLE_SGPR_FLAT_SCRATCH_INIT :: nat where "ENABLE_SGPR_FLAT_SCRATCH_INIT = 5"
definition ENABLE_SGPR_PRIVATE_SEGMENT_SIZE :: nat where "ENABLE_SGPR_PRIVATE_SEGMENT_SIZE = 6"
definition ENABLE_WAVEFRONT_SIZE32 :: nat where "ENABLE_WAVEFRONT_SIZE32 = 10"
definition PGM_RSRC_ONE_PRIV :: nat where "PGM_RSRC_ONE_PRIV = 20"

text \<open>
  The user SGPR block: the words stored so far (\<^verbatim>\<open>sgpr_no\<close> is their number) and the byte
  offsets recorded in \<^verbatim>\<open>scratchBaseOffset\<close>. A store past \<^verbatim>\<open>compute_user_data[16]\<close> or
  \<^verbatim>\<open>scratchBaseOffset[2]\<close> is out of bounds.
\<close>

type_synonym sgprs = "u32 list \<times> nat list"

definition sgpr_store :: "u32 list \<Rightarrow> sgprs \<Rightarrow> sgprs res" where
  "sgpr_store vs s =
     (if length (fst s) + length vs \<le> 16 then Inr (fst s @ vs, snd s)
      else Inl (Out_Of_Bounds ''compute_user_data''))"

definition sgpr_mark_scratch :: "sgprs \<Rightarrow> sgprs res" where
  "sgpr_mark_scratch s =
     (if length (snd s) < 2
      then Inr (fst s, snd s @ [offsetof_compute_user_data + length (fst s) * 4])
      else Inl (Out_Of_Bounds ''scratchBaseOffset''))"

definition sgpr_if :: "bool \<Rightarrow> (sgprs \<Rightarrow> sgprs res) \<Rightarrow> sgprs \<Rightarrow> sgprs res" where
  "sgpr_if c f s = (if c then f s else Inr s)"

definition srd_word :: "amd_queue_v2 \<Rightarrow> nat \<Rightarrow> u32 res" where
  "srd_word q i = (if i < length (scratch_resource_descriptor q)
                   then Inr (scratch_resource_descriptor q ! i)
                   else Inl (Out_Of_Bounds ''scratch_resource_descriptor''))"

definition user_private_segment_buffer :: "DispatchInfo \<Rightarrow> sgprs \<Rightarrow> sgprs res" where
  "user_private_segment_buffer p s =
     bindE (assertE ''BuildDispatch'' (di_major p < 11)) (\<lambda>_.
     bindE (sgpr_mark_scratch s) (\<lambda>s.
     bindE (srd_word (pAmdQueue p) 0) (\<lambda>d0.
     bindE (srd_word (pAmdQueue p) 1) (\<lambda>d1.
     bindE (srd_word (pAmdQueue p) 2) (\<lambda>d2.
     sgpr_store [d0, d1, d2, di_srd p] s)))))"

definition user_flat_scratch_init :: "DispatchInfo \<Rightarrow> sgprs \<Rightarrow> sgprs res" where
  "user_flat_scratch_init p s =
     bindE (assertE ''BuildDispatch'' (di_major p < 11)) (\<lambda>_.
     bindE (sgpr_mark_scratch s) (\<lambda>s.
     sgpr_store [PtrLow32 (pScratchBase p), PtrHigh32 (pScratchBase p)] s))"

definition user_sgprs :: "DispatchInfo \<Rightarrow> sgprs res" where
  "user_sgprs p =
     (let on = AMD_HSA_BITS_GET (kernel_code_properties (pKernelObject p));
          pkt = pPacket p
      in bindE (sgpr_if (on ENABLE_SGPR_PRIVATE_SEGMENT_BUFFER) (user_private_segment_buffer p) ([], []))
        (\<lambda>s.
      bindE (sgpr_if (on ENABLE_SGPR_DISPATCH_PTR)
        (sgpr_store [PtrLow32 (pPacket_addr p), PtrHigh32 (pPacket_addr p)]) s) (\<lambda>s.
      bindE (sgpr_if (on ENABLE_SGPR_QUEUE_PTR)
        (sgpr_store [PtrLow32 (pAmdQueue_addr p), PtrHigh32 (pAmdQueue_addr p)]) s) (\<lambda>s.
      bindE (sgpr_if (on ENABLE_SGPR_KERNARG_SEGMENT_PTR)
        (sgpr_store [PtrLow32 (kernarg_address pkt), PtrHigh32 (kernarg_address pkt)]) s) (\<lambda>s.
      bindE (sgpr_if (on ENABLE_SGPR_DISPATCH_ID) (sgpr_store [0, 0]) s) (\<lambda>s.
      bindE (sgpr_if (on ENABLE_SGPR_FLAT_SCRATCH_INIT) (user_flat_scratch_init p) s) (\<lambda>s.
      sgpr_if (on ENABLE_SGPR_PRIVATE_SEGMENT_SIZE)
        (sgpr_store [scratchSizePerWave p div (if di_wave32 p then 32 else 64)]) s)))))))"

definition dispatch_dimension_regs :: "DispatchInfo \<Rightarrow> DispatchDimensionRegs" where
  "dispatch_dimension_regs p =
     \<lparr>dim_cmd = GenerateSetShRegHeader 20 mmCOMPUTE_NUM_THREAD_X,
      compute_num_thread_x = ucast (workgroup_size_x (pPacket p)),
      compute_num_thread_y = ucast (workgroup_size_y (pPacket p)),
      compute_num_thread_z = ucast (workgroup_size_z (pPacket p))\<rparr>"

definition dispatch_program_regs :: "DispatchInfo \<Rightarrow> DispatchProgramRegs res" where
  "dispatch_program_regs p =
     bindE (Ptr48Low32 (pEntry p)) (\<lambda>lo.
     Inr \<lparr>pgm_cmd = GenerateSetShRegHeader 16 mmCOMPUTE_PGM_LO,
          compute_pgm_lo = lo, compute_pgm_hi = ucast (Ptr48High8 (pEntry p))\<rparr>)"

definition dispatch_program_resource_regs :: "DispatchInfo \<Rightarrow> DispatchProgramResourceRegs" where
  "dispatch_program_resource_regs p =
     (let rsrc1 = kc_compute_pgm_rsrc1 (pKernelObject p)
      in \<lparr>rsrc_cmd = GenerateSetShRegHeader 16 mmCOMPUTE_PGM_RSRC1,
          compute_pgm_rsrc1 =
            (if di_major p = 11 then AMD_HSA_BITS_SET rsrc1 PGM_RSRC_ONE_PRIV 1 else rsrc1),
          compute_pgm_rsrc2 = push_bit 15 (ldsBlks p) OR kc_compute_pgm_rsrc2 (pKernelObject p)\<rparr>)"

definition dispatch_resource_regs :: "DispatchInfo \<Rightarrow> DispatchResourceRegs" where
  "dispatch_resource_regs p =
     \<lparr>res_cmd = GenerateSetShRegHeader 32 mmCOMPUTE_RESOURCE_LIMITS,
      compute_resource_limits = 0x3FF,
      compute_static_thread_mgmt_se0 = 0xFFFFFFFF, compute_static_thread_mgmt_se1 = 0xFFFFFFFF,
      compute_tmpring_size = aq_compute_tmpring_size (pAmdQueue p),
      compute_static_thread_mgmt_se2 = 0xFFFFFFFF, compute_static_thread_mgmt_se3 = 0xFFFFFFFF\<rparr>"

definition dispatch_direct_packet :: "DispatchInfo \<Rightarrow> PM4_MEC_DISPATCH_DIRECT" where
  "dispatch_direct_packet p =
     (let initiator = push_bit 0 1 OR push_bit 2 1 OR push_bit 5 1
      in \<lparr>dd_header = GenerateCmdHeader 20 IT_DISPATCH_DIRECT,
          dim_x = grid_size_x (pPacket p), dim_y = grid_size_y (pPacket p),
          dim_z = grid_size_z (pPacket p),
          dispatch_initiator = (if di_wave32 p then initiator OR push_bit 15 1 else initiator)\<rparr>)"

text \<open>\<^verbatim>\<open>BuildDispatch\<close>: the words of the packet and the scratch offsets it leaves in \<^verbatim>\<open>pInfo\<close>.\<close>

definition BuildDispatch :: "DispatchInfo \<Rightarrow> (u32 list \<times> nat list) res" where
  "BuildDispatch p =
     bindE (dispatch_program_regs p) (\<lambda>pgm.
     bindE (user_sgprs p) (\<lambda>(user, offs).
     Inr (dw_DispatchTemplate
       \<lparr>dimension_regs = dispatch_dimension_regs p,
        program_regs = pgm,
        program_resource_regs = dispatch_program_resource_regs p,
        resource_regs = dispatch_resource_regs p,
        compute_user_data_regs =
          \<lparr>user_cmd = GenerateSetShRegHeader 72 mmCOMPUTE_USER_DATA_0,
           compute_user_data = user @ replicate (16 - length user) 0\<rparr>,
        dispatch_direct = dispatch_direct_packet p\<rparr>, offs)))"

section \<open>Headers describe their packets\<close>

text \<open>
  A reader of the stream takes a header apart as \<open>PM4_MEC_TYPE_3_HEADER\<close> lays it out and skips the
  number of words it announces. \<open>pm4_parse\<close> is that reader: the opcodes and bodies of a buffer,
  \<open>None\<close> where a word that should be a header is not one or a body is cut short.
\<close>

definition pm4_type :: "u32 \<Rightarrow> u32" where
  "pm4_type h = unpack PM4_MEC_TYPE_3_HEADER h ! 3"

definition pm4_opcode :: "u32 \<Rightarrow> u32" where
  "pm4_opcode h = unpack PM4_MEC_TYPE_3_HEADER h ! 1"

definition pm4_count :: "u32 \<Rightarrow> nat" where
  "pm4_count h = unat (unpack PM4_MEC_TYPE_3_HEADER h ! 2)"

fun pm4_parse :: "u32 list \<Rightarrow> (u32 \<times> u32 list) list option" where
  "pm4_parse [] = Some []"
| "pm4_parse (h # xs) =
     (if pm4_type h \<noteq> 3 \<or> length xs < pm4_count h + 1 then None
      else map_option (Cons (pm4_opcode h, take (pm4_count h + 1) xs))
             (pm4_parse (drop (pm4_count h + 1) xs)))"

definition pm4_packet :: "u32 \<Rightarrow> u32 list \<Rightarrow> bool" where
  "pm4_packet opc p \<longleftrightarrow> p \<noteq> [] \<and> pm4_type (hd p) = 3 \<and> pm4_opcode (hd p) = opc \<and>
     length p = pm4_count (hd p) + 2"

lemma TYPE3_HDR_pack:
  assumes "unat opc < 256" and "2 \<le> n" and "n < 16386"
  shows "PM4_TYPE3_HDR opc n = pack [(8, 2), (8, opc), (14, of_nat (n - 2)), (2, 3)]"
proof -
  have opc: "take_bit 8 opc = opc"
    using assms(1) by (simp add: word_unat_eq_iff unsigned_take_bit_eq take_bit_nat_eq_self_iff)
  have "of_nat n - 2 = (of_nat (n - 2) :: u32)" using assms(2) by (simp add: of_nat_diff)
  moreover have "take_bit 14 (of_nat (n - 2)) = (of_nat (n - 2) :: u32)"
    using assms(3) by (simp add: take_bit_of_nat take_bit_nat_eq_self)
  ultimately show ?thesis
    by (simp add: PM4_TYPE3_HDR_def opc push_bit_or or.assoc or.commute or.left_commute)
qed

lemma TYPE3_HDR_unpack:
  assumes "unat opc < 256" and "2 \<le> n" and "n < 16386"
  shows "unpack PM4_MEC_TYPE_3_HEADER (PM4_TYPE3_HDR opc n) = [2, opc, of_nat (n - 2), 3]"
proof -
  have opc: "take_bit 8 opc = opc"
    using assms(1) by (simp add: word_unat_eq_iff unsigned_take_bit_eq take_bit_nat_eq_self_iff)
  have cnt: "take_bit 14 (of_nat (n - 2)) = (of_nat (n - 2) :: u32)"
    using assms(3) by (simp add: take_bit_of_nat take_bit_nat_eq_self)
  from unpack_pack [of "[(8, 2), (8, opc), (14, of_nat (n - 2)), (2, 3)]"] show ?thesis
    by (simp add: TYPE3_HDR_pack [OF assms] PM4_MEC_TYPE_3_HEADER_def opc cnt
          del: pack.simps unpack.simps)
qed

lemma TYPE3_HDR_fields:
  assumes "unat opc < 256" and "2 \<le> n" and "n < 16386"
  shows "pm4_type (PM4_TYPE3_HDR opc n) = 3" and "pm4_opcode (PM4_TYPE3_HDR opc n) = opc"
    and "pm4_count (PM4_TYPE3_HDR opc n) = n - 2"
proof -
  have "unat (of_nat (n - 2) :: u32) = (n - 2) mod 2 ^ LENGTH(32)" by (rule unat_of_nat)
  with assms(3) have "unat (of_nat (n - 2) :: u32) = n - 2" by simp
  then show "pm4_count (PM4_TYPE3_HDR opc n) = n - 2"
    by (simp add: pm4_count_def TYPE3_HDR_unpack [OF assms] del: of_nat_diff)
qed (simp_all add: pm4_type_def pm4_opcode_def TYPE3_HDR_unpack [OF assms])

lemma pm4_packetI:
  "\<lbrakk>unat opc < 256; 2 \<le> length p; length p < 16386; \<exists>n. hd p = PM4_TYPE3_HDR opc n \<and> length p = n\<rbrakk> \<Longrightarrow>
   pm4_packet opc p"
  by (auto simp: pm4_packet_def TYPE3_HDR_fields)

lemma pm4_parse_packet:
  assumes "pm4_packet opc p"
  shows "pm4_parse (p @ rest) = map_option (Cons (opc, tl p)) (pm4_parse rest)"
proof -
  from assms obtain h xs where p: "p = h # xs" by (cases p) (auto simp: pm4_packet_def)
  with assms show ?thesis by (simp add: pm4_packet_def)
qed

lemma pm4_parse_concat:
  "(\<forall>(opc, p) \<in> set ps. pm4_packet opc p) \<Longrightarrow>
   pm4_parse (concat (map snd ps)) = Some (map (\<lambda>(opc, p). (opc, tl p)) ps)"
  by (induction ps) (auto simp: pm4_parse_packet)

lemma GenerateSetShRegHeader_simps [simp]:
  "ssr_header (GenerateSetShRegHeader n r) = PM4_TYPE3_HDR IT_SET_SH_REG (n div 4)"
  by (simp add: GenerateSetShRegHeader_def)

lemmas build_defs = BuildCopyData_def BuildCopyData_default_def BuildBarrier_def
  BuildBarrier_default_def BuildScratch_def BuildComputeShaderParams_def BuildAtomicMem_def
  BuildAcquireMem_def BuildWriteData64Command_def

lemma BuildCopyData_packet:
  "pm4_packet IT_COPY_DATA (BuildCopyData a b c d e f g)"
  "length (BuildCopyData a b c d e f g) * 4 = sizeof_COPY_DATA"
  by (auto intro!: pm4_packetI simp: build_defs dw_defs GenerateCmdHeader_def sizeof_defs IT_defs)

lemma BuildBarrier_packet:
  "pm4_packet IT_EVENT_WRITE (BuildBarrier a b)" "length (BuildBarrier a b) * 4 = sizeof_EVENT_WRITE"
  by (auto intro!: pm4_packetI simp: build_defs dw_defs GenerateCmdHeader_def sizeof_defs IT_defs)

lemma BuildAtomicMem_packet:
  "pm4_packet IT_ATOMIC_MEM (BuildAtomicMem a b c d)"
  "length (BuildAtomicMem a b c d) * 4 = sizeof_ATOMIC_MEM"
  by (auto intro!: pm4_packetI simp: build_defs dw_defs GenerateCmdHeader_def sizeof_defs IT_defs)

lemma BuildComputeShaderParams_packet:
  "pm4_packet IT_SET_SH_REG BuildComputeShaderParams"
  "length BuildComputeShaderParams * 4 = sizeof_DispatchProgramResourceRegs3"
  by (auto intro!: pm4_packetI simp: build_defs dw_defs sizeof_defs IT_defs)

lemma BuildScratch_packet:
  "BuildScratch b = Inr p \<Longrightarrow>
   pm4_packet IT_SET_SH_REG p \<and> length p * 4 = sizeof_SetScratchTemplate \<and> Ptr48_ok b"
  by (auto intro!: pm4_packetI simp: build_defs dw_defs sizeof_defs IT_defs bindE_Inr_iff
      Ptr48Low32_def split: if_splits)

lemma BuildWriteData64Command_packet:
  "BuildWriteData64Command a v = Inr p \<Longrightarrow>
   pm4_packet IT_WRITE_DATA p \<and> length p * 4 = sizeof_WRITE_DATA"
  by (auto intro!: pm4_packetI simp: build_defs dw_defs GenerateCmdHeader_def sizeof_defs IT_defs
      bindE_Inr_iff)

definition sizeof_ACQUIRE_MEM :: "int \<Rightarrow> nat" where
  "sizeof_ACQUIRE_MEM major = (if major = 9 then sizeof_gfx9_ACQUIRE_MEM else sizeof_gfx10_ACQUIRE_MEM)"

lemma BuildAcquireMem_packet:
  "BuildAcquireMem major = Some p \<Longrightarrow>
   pm4_packet IT_ACQUIRE_MEM p \<and> length p * 4 = sizeof_ACQUIRE_MEM major"
  by (auto intro!: pm4_packetI simp: build_defs dw_defs GenerateCmdHeader_def sizeof_defs IT_defs
      sizeof_ACQUIRE_MEM_def split: if_splits)

lemma BuildAcquireMem_Some: "9 \<le> major \<Longrightarrow> BuildAcquireMem major \<noteq> None"
  by (simp add: BuildAcquireMem_def)

section \<open>The user SGPR block\<close>

lemma sgpr_store_Inr:
  "sgpr_store vs s = Inr t \<longleftrightarrow> length (fst s) + length vs \<le> 16 \<and> t = (fst s @ vs, snd s)"
  by (auto simp: sgpr_store_def)

definition dispatch_ok :: "DispatchInfo \<Rightarrow> bool" where
  "dispatch_ok p \<longleftrightarrow> Ptr48_ok (pEntry p) \<and> length (scratch_resource_descriptor (pAmdQueue p)) = 4 \<and>
     (AMD_HSA_BITS_GET (kernel_code_properties (pKernelObject p)) ENABLE_SGPR_PRIVATE_SEGMENT_BUFFER \<or>
      AMD_HSA_BITS_GET (kernel_code_properties (pKernelObject p)) ENABLE_SGPR_FLAT_SCRATCH_INIT \<longrightarrow>
      di_major p < 11)"

text \<open>\<open>sgprs_ok n k s\<close>: at most \<open>n\<close> words and \<open>k\<close> scratch offsets, each naming two of the words.\<close>

definition sgprs_ok :: "nat \<Rightarrow> nat \<Rightarrow> sgprs \<Rightarrow> bool" where
  "sgprs_ok n k s \<longleftrightarrow> length (fst s) \<le> n \<and> length (snd s) \<le> k \<and>
     (\<forall>off \<in> set (snd s). \<exists>i. off = offsetof_compute_user_data + i * 4 \<and> i + 2 \<le> length (fst s))"

lemma sgprs_ok_append:
  assumes "sgprs_ok n k s" "n + length vs \<le> m"
  shows "sgprs_ok m k (fst s @ vs, snd s)"
  using assms unfolding sgprs_ok_def by fastforce

lemma sgpr_store_ok:
  assumes "sgprs_ok n k s" "n + length vs \<le> m" "m \<le> 16"
  shows "\<exists>t. sgpr_if c (sgpr_store vs) s = Inr t \<and> sgprs_ok m k t"
proof (cases c)
  case True
  have "length (fst s) + length vs \<le> 16" using assms by (simp add: sgprs_ok_def)
  with True show ?thesis
    using sgprs_ok_append [OF assms(1,2)] by (simp add: sgpr_if_def sgpr_store_def)
next
  case False
  have "sgprs_ok m k s" using assms(1,2) by (auto simp: sgprs_ok_def)
  with False show ?thesis by (simp add: sgpr_if_def)
qed

lemma sgpr_mark_store_ok:
  assumes "sgprs_ok n k s" "k < 2" "2 \<le> length vs" "n + length vs \<le> m" "m \<le> 16"
  shows "\<exists>t u. sgpr_mark_scratch s = Inr t \<and> sgpr_store vs t = Inr u \<and> sgprs_ok m (Suc k) u"
proof -
  let ?off = "offsetof_compute_user_data + length (fst s) * 4"
  have bounds: "length (snd s) < 2" "length (fst s) + length vs \<le> 16"
    using assms by (simp_all add: sgprs_ok_def)
  have "sgprs_ok m (Suc k) (fst s @ vs, snd s @ [?off])"
    using sgprs_ok_append [OF assms(1,4)] assms(3) by (auto simp: sgprs_ok_def)
  with bounds show ?thesis by (simp add: sgpr_mark_scratch_def sgpr_store_def)
qed

lemma sgprs_ok_mono: "\<lbrakk>sgprs_ok n k s; n \<le> m; k \<le> j\<rbrakk> \<Longrightarrow> sgprs_ok m j s"
  by (auto simp: sgprs_ok_def)

lemma user_private_segment_buffer_ok:
  assumes "dispatch_ok p" "sgprs_ok 0 0 s"
    and c: "c = AMD_HSA_BITS_GET (kernel_code_properties (pKernelObject p)) ENABLE_SGPR_PRIVATE_SEGMENT_BUFFER"
  shows "\<exists>t. sgpr_if c (user_private_segment_buffer p) s = Inr t \<and> sgprs_ok 4 1 t"
proof (cases c)
  case True
  let ?d = "scratch_resource_descriptor (pAmdQueue p)"
  have len: "length ?d = 4" and maj: "di_major p < 11"
    using assms(1) c True by (auto simp: dispatch_ok_def)
  from sgpr_mark_store_ok [OF assms(2), of "[?d ! 0, ?d ! 1, ?d ! 2, di_srd p]" 4]
  show ?thesis using True len maj
    by (auto simp: sgpr_if_def user_private_segment_buffer_def srd_word_def)
next
  case False
  then show ?thesis using sgprs_ok_mono [OF assms(2), of 4 1] by (simp add: sgpr_if_def)
qed

lemma user_flat_scratch_init_ok:
  assumes "dispatch_ok p" "sgprs_ok 12 1 s"
    and c: "c = AMD_HSA_BITS_GET (kernel_code_properties (pKernelObject p)) ENABLE_SGPR_FLAT_SCRATCH_INIT"
  shows "\<exists>t. sgpr_if c (user_flat_scratch_init p) s = Inr t \<and> sgprs_ok 14 2 t"
proof (cases c)
  case True
  have maj: "di_major p < 11" using assms(1) c True by (auto simp: dispatch_ok_def)
  from sgpr_mark_store_ok [OF assms(2), of "[PtrLow32 (pScratchBase p), PtrHigh32 (pScratchBase p)]" 14]
  show ?thesis using True maj by (auto simp: sgpr_if_def user_flat_scratch_init_def numeral_2_eq_2)
next
  case False
  then show ?thesis using sgprs_ok_mono [OF assms(2), of 14 2] by (simp add: sgpr_if_def)
qed

lemma user_sgprs_ok:
  assumes ok: "dispatch_ok p"
  shows "\<exists>s. user_sgprs p = Inr s \<and> sgprs_ok 15 2 s"
proof -
  let ?on = "AMD_HSA_BITS_GET (kernel_code_properties (pKernelObject p))"
  have "sgprs_ok 0 0 ([], [])" by (simp add: sgprs_ok_def)
  from user_private_segment_buffer_ok [OF ok this refl] obtain s1 where s1:
    "sgpr_if (?on ENABLE_SGPR_PRIVATE_SEGMENT_BUFFER) (user_private_segment_buffer p) ([], []) = Inr s1"
    "sgprs_ok 4 1 s1" by blast
  from sgpr_store_ok [OF s1(2), of "[PtrLow32 (pPacket_addr p), PtrHigh32 (pPacket_addr p)]" 6
      "?on ENABLE_SGPR_DISPATCH_PTR"]
  obtain s2 where s2: "sgpr_if (?on ENABLE_SGPR_DISPATCH_PTR)
      (sgpr_store [PtrLow32 (pPacket_addr p), PtrHigh32 (pPacket_addr p)]) s1 = Inr s2"
    "sgprs_ok 6 1 s2" by auto
  from sgpr_store_ok [OF s2(2), of "[PtrLow32 (pAmdQueue_addr p), PtrHigh32 (pAmdQueue_addr p)]" 8
      "?on ENABLE_SGPR_QUEUE_PTR"]
  obtain s3 where s3: "sgpr_if (?on ENABLE_SGPR_QUEUE_PTR)
      (sgpr_store [PtrLow32 (pAmdQueue_addr p), PtrHigh32 (pAmdQueue_addr p)]) s2 = Inr s3"
    "sgprs_ok 8 1 s3" by auto
  from sgpr_store_ok [OF s3(2), of "[PtrLow32 (kernarg_address (pPacket p)),
      PtrHigh32 (kernarg_address (pPacket p))]" 10 "?on ENABLE_SGPR_KERNARG_SEGMENT_PTR"]
  obtain s4 where s4: "sgpr_if (?on ENABLE_SGPR_KERNARG_SEGMENT_PTR)
      (sgpr_store [PtrLow32 (kernarg_address (pPacket p)), PtrHigh32 (kernarg_address (pPacket p))]) s3
      = Inr s4" "sgprs_ok 10 1 s4" by auto
  from sgpr_store_ok [OF s4(2), of "[0, 0]" 12 "?on ENABLE_SGPR_DISPATCH_ID"]
  obtain s5 where s5: "sgpr_if (?on ENABLE_SGPR_DISPATCH_ID) (sgpr_store [0, 0]) s4 = Inr s5"
    "sgprs_ok 12 1 s5" by auto
  from user_flat_scratch_init_ok [OF ok s5(2) refl] obtain s6 where s6:
    "sgpr_if (?on ENABLE_SGPR_FLAT_SCRATCH_INIT) (user_flat_scratch_init p) s5 = Inr s6"
    "sgprs_ok 14 2 s6" by blast
  from sgpr_store_ok [OF s6(2), of "[scratchSizePerWave p div (if di_wave32 p then 32 else 64)]" 15
      "?on ENABLE_SGPR_PRIVATE_SEGMENT_SIZE"]
  show ?thesis using s1 s2 s3 s4 s5 s6 by (simp add: user_sgprs_def)
qed

text \<open>
  What the block holds: \<open>regs_before_flat\<close> lists the words in front of the flat-scratch pair, each
  group present when its bit of the kernel code properties is set.
\<close>

definition kernel_wants :: "DispatchInfo \<Rightarrow> nat \<Rightarrow> bool" where
  "kernel_wants p = AMD_HSA_BITS_GET (kernel_code_properties (pKernelObject p))"

definition regs_before_flat :: "DispatchInfo \<Rightarrow> u32 list" where
  "regs_before_flat p =
     (if kernel_wants p ENABLE_SGPR_PRIVATE_SEGMENT_BUFFER
      then take 3 (scratch_resource_descriptor (pAmdQueue p)) @ [di_srd p] else []) @
     (if kernel_wants p ENABLE_SGPR_DISPATCH_PTR then [PtrLow32 (pPacket_addr p), PtrHigh32 (pPacket_addr p)] else []) @
     (if kernel_wants p ENABLE_SGPR_QUEUE_PTR then [PtrLow32 (pAmdQueue_addr p), PtrHigh32 (pAmdQueue_addr p)] else []) @
     (if kernel_wants p ENABLE_SGPR_KERNARG_SEGMENT_PTR
      then [PtrLow32 (kernarg_address (pPacket p)), PtrHigh32 (kernarg_address (pPacket p))] else []) @
     (if kernel_wants p ENABLE_SGPR_DISPATCH_ID then [0, 0] else [])"

lemma sgpr_if_store_eq: "sgpr_if c (sgpr_store vs) s = Inr t \<Longrightarrow> t = (fst s @ (if c then vs else []), snd s)"
  by (auto simp: sgpr_if_def sgpr_store_def split: if_splits)

lemma user_private_segment_buffer_eq:
  assumes "length (scratch_resource_descriptor (pAmdQueue p)) = 4" "sgpr_if c (user_private_segment_buffer p) ([], []) = Inr t"
  shows "t = (if c then (take 3 (scratch_resource_descriptor (pAmdQueue p)) @ [di_srd p], [92]) else ([], []))"
proof -
  obtain w0 w1 w2 w3 where "scratch_resource_descriptor (pAmdQueue p) = [w0, w1, w2, w3]"
    using assms(1) by (auto simp: numeral_eq_Suc length_Suc_conv)
  then show ?thesis using assms(2)
    by (auto simp: sgpr_if_def user_private_segment_buffer_def sgpr_mark_scratch_def sgpr_store_def srd_word_def assertE_def sizeof_defs split: if_splits)
qed

lemma user_flat_scratch_init_eq:
  assumes "sgpr_if c (user_flat_scratch_init p) s = Inr t"
  shows "t = (fst s @ (if c then [PtrLow32 (pScratchBase p), PtrHigh32 (pScratchBase p)] else []),
    snd s @ (if c then [92 + 4 * length (fst s)] else []))"
  using assms by (auto simp: sgpr_if_def user_flat_scratch_init_def sgpr_mark_scratch_def sgpr_store_def assertE_def sizeof_defs split: if_splits)

lemma user_sgprs_eq:
  assumes "dispatch_ok p" "user_sgprs p = Inr (user, offs)"
  shows "user = regs_before_flat p @
      (if kernel_wants p ENABLE_SGPR_FLAT_SCRATCH_INIT then [PtrLow32 (pScratchBase p), PtrHigh32 (pScratchBase p)] else []) @
      (if kernel_wants p ENABLE_SGPR_PRIVATE_SEGMENT_SIZE then [scratchSizePerWave p div (if di_wave32 p then 32 else 64)] else [])"
    and "offs = (if kernel_wants p ENABLE_SGPR_PRIVATE_SEGMENT_BUFFER then [92] else []) @
      (if kernel_wants p ENABLE_SGPR_FLAT_SCRATCH_INIT then [92 + 4 * length (regs_before_flat p)] else [])"
proof -
  have "length (scratch_resource_descriptor (pAmdQueue p)) = 4" using assms(1) by (simp add: dispatch_ok_def)
  note eqs = user_private_segment_buffer_eq [OF this] user_flat_scratch_init_eq sgpr_if_store_eq
  obtain s1 s2 s3 s4 s5 s6 where s:
    "sgpr_if (kernel_wants p ENABLE_SGPR_PRIVATE_SEGMENT_BUFFER) (user_private_segment_buffer p) ([], []) = Inr s1"
    "sgpr_if (kernel_wants p ENABLE_SGPR_DISPATCH_PTR) (sgpr_store [PtrLow32 (pPacket_addr p), PtrHigh32 (pPacket_addr p)]) s1 = Inr s2"
    "sgpr_if (kernel_wants p ENABLE_SGPR_QUEUE_PTR) (sgpr_store [PtrLow32 (pAmdQueue_addr p), PtrHigh32 (pAmdQueue_addr p)]) s2 = Inr s3"
    "sgpr_if (kernel_wants p ENABLE_SGPR_KERNARG_SEGMENT_PTR)
      (sgpr_store [PtrLow32 (kernarg_address (pPacket p)), PtrHigh32 (kernarg_address (pPacket p))]) s3 = Inr s4"
    "sgpr_if (kernel_wants p ENABLE_SGPR_DISPATCH_ID) (sgpr_store [0, 0]) s4 = Inr s5"
    "sgpr_if (kernel_wants p ENABLE_SGPR_FLAT_SCRATCH_INIT) (user_flat_scratch_init p) s5 = Inr s6"
    "sgpr_if (kernel_wants p ENABLE_SGPR_PRIVATE_SEGMENT_SIZE)
      (sgpr_store [scratchSizePerWave p div (if di_wave32 p then 32 else 64)]) s6 = Inr (user, offs)"
    using assms(2) unfolding user_sgprs_def Let_def kernel_wants_def bindE_Inr_iff by blast
  note e = eqs(1) [OF s(1)] eqs(3) [OF s(2)] eqs(3) [OF s(3)] eqs(3) [OF s(4)] eqs(3) [OF s(5)] eqs(2) [OF s(6)] eqs(3) [OF s(7)]
  have "fst s5 = regs_before_flat p" "snd s5 = (if kernel_wants p ENABLE_SGPR_PRIVATE_SEGMENT_BUFFER then [92] else [])"
    by (simp_all add: e(1-5) regs_before_flat_def)
  then show "user = regs_before_flat p @
      (if kernel_wants p ENABLE_SGPR_FLAT_SCRATCH_INIT then [PtrLow32 (pScratchBase p), PtrHigh32 (pScratchBase p)] else []) @
      (if kernel_wants p ENABLE_SGPR_PRIVATE_SEGMENT_SIZE then [scratchSizePerWave p div (if di_wave32 p then 32 else 64)] else [])"
    "offs = (if kernel_wants p ENABLE_SGPR_PRIVATE_SEGMENT_BUFFER then [92] else []) @
      (if kernel_wants p ENABLE_SGPR_FLAT_SCRATCH_INIT then [92 + 4 * length (regs_before_flat p)] else [])"
    using e(6,7) by simp_all
qed

text \<open>The pairs of words at the recorded offsets, in any buffer that holds the block from word 23 on.\<close>

lemma scratch_pairs:
  assumes "length (scratch_resource_descriptor (pAmdQueue p)) = 4"
    and user: "user = regs_before_flat p @
      (if kernel_wants p ENABLE_SGPR_FLAT_SCRATCH_INIT then [PtrLow32 (pScratchBase p), PtrHigh32 (pScratchBase p)] else []) @ rest"
    and offs: "offs = (if kernel_wants p ENABLE_SGPR_PRIVATE_SEGMENT_BUFFER then [92] else []) @
      (if kernel_wants p ENABLE_SGPR_FLAT_SCRATCH_INIT then [92 + 4 * length (regs_before_flat p)] else [])"
    and ws: "\<And>i. i < length user \<Longrightarrow> ws ! (23 + i) = user ! i"
  shows "map (\<lambda>off. (ws ! (off div 4), ws ! (off div 4 + 1))) offs =
      (if kernel_wants p ENABLE_SGPR_PRIVATE_SEGMENT_BUFFER
       then [(scratch_resource_descriptor (pAmdQueue p) ! 0, scratch_resource_descriptor (pAmdQueue p) ! 1)] else []) @
      (if kernel_wants p ENABLE_SGPR_FLAT_SCRATCH_INIT then [(PtrLow32 (pScratchBase p), PtrHigh32 (pScratchBase p))] else [])"
proof -
  let ?n = "length (regs_before_flat p)"
  have "ws ! 23 = scratch_resource_descriptor (pAmdQueue p) ! 0 \<and> ws ! 24 = scratch_resource_descriptor (pAmdQueue p) ! 1"
    if "kernel_wants p ENABLE_SGPR_PRIVATE_SEGMENT_BUFFER"
    using ws [of 0] ws [of 1] that assms(1) by (simp add: user regs_before_flat_def nth_append)
  moreover have "ws ! (23 + ?n) = PtrLow32 (pScratchBase p) \<and> ws ! (24 + ?n) = PtrHigh32 (pScratchBase p)"
    if "kernel_wants p ENABLE_SGPR_FLAT_SCRATCH_INIT"
    using ws [of ?n] ws [of "Suc ?n"] that by (simp add: user nth_append)
  ultimately show ?thesis by (auto simp: offs)
qed

section \<open>The dispatch stream\<close>

lemma dispatch_packets:
  "pm4_packet IT_SET_SH_REG (dw_dimension_regs (dispatch_dimension_regs p))"
  "pm4_packet IT_SET_SH_REG (dw_program_resource_regs (dispatch_program_resource_regs p))"
  "pm4_packet IT_SET_SH_REG (dw_resource_regs (dispatch_resource_regs p))"
  "pm4_packet IT_DISPATCH_DIRECT (dw_DISPATCH_DIRECT (dispatch_direct_packet p))"
  by (auto intro!: pm4_packetI simp: dw_defs IT_defs dispatch_dimension_regs_def
      dispatch_program_resource_regs_def dispatch_resource_regs_def dispatch_direct_packet_def
      GenerateCmdHeader_def Let_def)

lemma user_data_packet:
  "length user = 16 \<Longrightarrow> pm4_packet IT_SET_SH_REG (dw_compute_user_data_regs
     \<lparr>user_cmd = GenerateSetShRegHeader 72 mmCOMPUTE_USER_DATA_0, compute_user_data = user\<rparr>)"
  by (auto intro!: pm4_packetI simp: dw_defs IT_defs)

lemma program_packet:
  "pm4_packet IT_SET_SH_REG (dw_program_regs
     \<lparr>pgm_cmd = GenerateSetShRegHeader 16 mmCOMPUTE_PGM_LO, compute_pgm_lo = lo, compute_pgm_hi = hi\<rparr>)"
  by (auto intro!: pm4_packetI simp: dw_defs IT_defs)

lemma dispatch_lengths:
  "length (dw_dimension_regs d) = 5" "length (dw_program_regs g) = 4"
  "length (dw_program_resource_regs r) = 4" "length (dw_resource_regs q) = 8"
  "length (dw_compute_user_data_regs u) = 2 + length (compute_user_data u)"
  "length (dw_DISPATCH_DIRECT e) = 5"
  by (simp_all add: dw_defs)


lemma rsrc1_priv: "AMD_HSA_BITS_SET r PGM_RSRC_ONE_PRIV 1 = r OR push_bit 20 1"
  unfolding AMD_HSA_BITS_SET_def PGM_RSRC_ONE_PRIV_def by (rule bit_word_eqI) (auto simp: bit_simps)

lemmas dispatch_reg_defs = dispatch_dimension_regs_def dispatch_resource_regs_def
  dispatch_direct_packet_def dispatch_program_resource_regs_def GenerateSetShRegHeader_def rsrc1_priv
  mmCOMPUTE_NUM_THREAD_X_def mmCOMPUTE_PGM_LO_def mmCOMPUTE_PGM_RSRC1_def
  mmCOMPUTE_RESOURCE_LIMITS_def mmCOMPUTE_USER_DATA_0_def PERSISTENT_SPACE_START_def Let_def

definition dispatch_stream :: "DispatchInfo \<Rightarrow> u32 \<Rightarrow> u32 list \<Rightarrow> (u32 \<times> u32 list) list" where
  "dispatch_stream p lo user =
     [(IT_SET_SH_REG, dw_dimension_regs (dispatch_dimension_regs p)),
      (IT_SET_SH_REG, dw_program_regs
         \<lparr>pgm_cmd = GenerateSetShRegHeader 16 mmCOMPUTE_PGM_LO,
          compute_pgm_lo = lo, compute_pgm_hi = ucast (Ptr48High8 (pEntry p))\<rparr>),
      (IT_SET_SH_REG, dw_program_resource_regs (dispatch_program_resource_regs p)),
      (IT_SET_SH_REG, dw_resource_regs (dispatch_resource_regs p)),
      (IT_SET_SH_REG, dw_compute_user_data_regs
         \<lparr>user_cmd = GenerateSetShRegHeader 72 mmCOMPUTE_USER_DATA_0,
          compute_user_data = user @ replicate (16 - length user) 0\<rparr>),
      (IT_DISPATCH_DIRECT, dw_DISPATCH_DIRECT (dispatch_direct_packet p))]"

lemma dispatch_stream_packets:
  "length user \<le> 16 \<Longrightarrow> \<forall>(opc, q) \<in> set (dispatch_stream p lo user). pm4_packet opc q"
  using user_data_packet [of "user @ replicate (16 - length user) 0"]
  by (simp add: dispatch_stream_def dispatch_packets program_packet)

lemma dispatch_stream_bodies:
  "map (\<lambda>(opc, q). (opc, tl q)) (dispatch_stream p lo user) =
      [(IT_SET_SH_REG, [0x207, ucast (workgroup_size_x (pPacket p)),
          ucast (workgroup_size_y (pPacket p)), ucast (workgroup_size_z (pPacket p))]),
       (IT_SET_SH_REG, [0x20C, lo, ucast (Ptr48High8 (pEntry p))]),
       (IT_SET_SH_REG, [0x212, let r = kc_compute_pgm_rsrc1 (pKernelObject p) in
            if di_major p = 11 then r OR push_bit 20 1 else r,
          push_bit 15 (ldsBlks p) OR kc_compute_pgm_rsrc2 (pKernelObject p)]),
       (IT_SET_SH_REG, [0x215, 0x3FF, 0xFFFFFFFF, 0xFFFFFFFF,
          aq_compute_tmpring_size (pAmdQueue p), 0xFFFFFFFF, 0xFFFFFFFF]),
       (IT_SET_SH_REG, 0x240 # user @ replicate (16 - length user) 0),
       (IT_DISPATCH_DIRECT, [grid_size_x (pPacket p), grid_size_y (pPacket p),
          grid_size_z (pPacket p), if di_wave32 p then 0x8025 else 0x25])]"
  by (simp add: dispatch_stream_def dw_defs dispatch_reg_defs)

lemma BuildDispatch_eq:
  assumes "dispatch_ok p"
  obtains lo user offs where "Ptr48Low32 (pEntry p) = Inr lo" "user_sgprs p = Inr (user, offs)"
    "sgprs_ok 15 2 (user, offs)"
    "BuildDispatch p = Inr (concat (map snd (dispatch_stream p lo user)), offs)"
proof -
  from assms obtain lo where lo: "Ptr48Low32 (pEntry p) = Inr lo"
    by (auto simp: dispatch_ok_def Ptr48Low32_def)
  from user_sgprs_ok [OF assms] obtain user offs where s: "user_sgprs p = Inr (user, offs)"
    "sgprs_ok 15 2 (user, offs)" by (metis surj_pair)
  have "BuildDispatch p = Inr (concat (map snd (dispatch_stream p lo user)), offs)"
    using lo s(1)
    by (simp add: BuildDispatch_def dispatch_program_regs_def dispatch_stream_def dw_DispatchTemplate_def)
  with lo s that show thesis by blast
qed

lemma dispatch_stream_length:
  "length user \<le> 16 \<Longrightarrow> length (concat (map snd (dispatch_stream p lo user))) = 44"
  by (simp add: dispatch_stream_def dispatch_lengths)

lemma dispatch_stream_user:
  assumes "i < length user" "length user \<le> 16"
  shows "concat (map snd (dispatch_stream p lo user)) ! (23 + i) = user ! i"
  using assms by (simp add: dispatch_stream_def nth_append dispatch_lengths dw_compute_user_data_regs_def
      dw_SET_SH_REG_def nth_Cons')

lemma BuildDispatch_length:
  assumes "dispatch_ok p" "BuildDispatch p = Inr (ws, offs)"
  shows "length ws * 4 = sizeof_DispatchTemplate"
  by (rule BuildDispatch_eq [OF assms(1)])
     (use assms(2) in \<open>auto simp: dispatch_stream_length sgprs_ok_def sizeof_defs\<close>)

text \<open>
  C8. A dispatch request becomes six packets that a reader of the stream recovers exactly: for every
  dispatch whose entry point passes the 48-bit check and that asks for scratch registers only
  before gfx11, \<^verbatim>\<open>BuildDispatch\<close> succeeds, fills \<^verbatim>\<open>sizeof(DispatchTemplate)\<close> bytes, uses
  at most 15 of the 16 user registers and both scratch offset slots at most, and the buffer parses
  as the writes of the group dimensions, program address, program resources, resource
  limits and user data, and then the dispatch with the grid dimensions. The user registers are the
  groups the kernel asks for, in their fixed order. The recorded scratch offsets are one for the private segment buffer and one for the
  flat-scratch pair, in this order and only for the groups present, and the words at a recorded offset are the
  first two words of the queue's scratch descriptor, respectively the two halves of the scratch base.
\<close>

theorem BuildDispatch_stream:
  assumes "dispatch_ok p"
  shows "\<exists>ws offs user lo.
    BuildDispatch p = Inr (ws, offs) \<and> length ws * 4 = sizeof_DispatchTemplate \<and>
    user_sgprs p = Inr (user, offs) \<and> length user \<le> 15 \<and> length offs \<le> 2 \<and>
    Ptr48Low32 (pEntry p) = Inr lo \<and>
    pm4_parse ws = Some
      [(IT_SET_SH_REG, [0x207, ucast (workgroup_size_x (pPacket p)),
          ucast (workgroup_size_y (pPacket p)), ucast (workgroup_size_z (pPacket p))]),
       (IT_SET_SH_REG, [0x20C, lo, ucast (Ptr48High8 (pEntry p))]),
       (IT_SET_SH_REG, [0x212, let r = kc_compute_pgm_rsrc1 (pKernelObject p) in
            if di_major p = 11 then r OR push_bit 20 1 else r,
          push_bit 15 (ldsBlks p) OR kc_compute_pgm_rsrc2 (pKernelObject p)]),
       (IT_SET_SH_REG, [0x215, 0x3FF, 0xFFFFFFFF, 0xFFFFFFFF,
          aq_compute_tmpring_size (pAmdQueue p), 0xFFFFFFFF, 0xFFFFFFFF]),
       (IT_SET_SH_REG, 0x240 # user @ replicate (16 - length user) 0),
       (IT_DISPATCH_DIRECT, [grid_size_x (pPacket p), grid_size_y (pPacket p),
          grid_size_z (pPacket p), if di_wave32 p then 0x8025 else 0x25])] \<and>
    (\<forall>off \<in> set offs. \<exists>i. off = 4 * (23 + i) \<and> i + 2 \<le> length user \<and>
       ws ! (off div 4) = user ! i \<and> ws ! (off div 4 + 1) = user ! (i + 1)) \<and>
    user = regs_before_flat p @
      (if kernel_wants p ENABLE_SGPR_FLAT_SCRATCH_INIT then [PtrLow32 (pScratchBase p), PtrHigh32 (pScratchBase p)] else []) @
      (if kernel_wants p ENABLE_SGPR_PRIVATE_SEGMENT_SIZE then [scratchSizePerWave p div (if di_wave32 p then 32 else 64)] else []) \<and>
    offs = (if kernel_wants p ENABLE_SGPR_PRIVATE_SEGMENT_BUFFER then [92] else []) @
      (if kernel_wants p ENABLE_SGPR_FLAT_SCRATCH_INIT then [92 + 4 * length (regs_before_flat p)] else []) \<and>
    map (\<lambda>off. (ws ! (off div 4), ws ! (off div 4 + 1))) offs =
      (if kernel_wants p ENABLE_SGPR_PRIVATE_SEGMENT_BUFFER
       then [(scratch_resource_descriptor (pAmdQueue p) ! 0, scratch_resource_descriptor (pAmdQueue p) ! 1)] else []) @
      (if kernel_wants p ENABLE_SGPR_FLAT_SCRATCH_INIT then [(PtrLow32 (pScratchBase p), PtrHigh32 (pScratchBase p))] else [])"
proof (rule BuildDispatch_eq [OF assms])
  fix lo user offs
  let ?ws = "concat (map snd (dispatch_stream p lo user))"
  assume lo: "Ptr48Low32 (pEntry p) = Inr lo" and user: "user_sgprs p = Inr (user, offs)"
    and ok: "sgprs_ok 15 2 (user, offs)" and b: "BuildDispatch p = Inr (?ws, offs)"
  from ok have len: "length user \<le> 15" "length offs \<le> 2" by (simp_all add: sgprs_ok_def)
  then have le: "length user \<le> 16" by simp
  note parse = pm4_parse_concat [OF dispatch_stream_packets [OF le], unfolded dispatch_stream_bodies]
  have offs: "\<exists>i. off = 4 * (23 + i) \<and> i + 2 \<le> length user \<and>
      ?ws ! (off div 4) = user ! i \<and> ?ws ! (off div 4 + 1) = user ! (i + 1)" if "off \<in> set offs" for off
  proof -
    from ok that obtain i where i: "off = 92 + i * 4" "i + 2 \<le> length user"
      by (auto simp: sgprs_ok_def sizeof_defs)
    have "?ws ! (23 + i) = user ! i" "?ws ! (23 + (i + 1)) = user ! (i + 1)"
      using i(2) le by (intro dispatch_stream_user; simp)+
    with i show ?thesis by (intro exI [of _ i]) (simp add: add.assoc)
  qed
  note eq = user_sgprs_eq [OF assms user]
  have wd: "?ws ! (23 + i) = user ! i" if "i < length user" for i using dispatch_stream_user [OF that le] .
  have pair: "map (\<lambda>off. (?ws ! (off div 4), ?ws ! (off div 4 + 1))) offs =
      (if kernel_wants p ENABLE_SGPR_PRIVATE_SEGMENT_BUFFER
       then [(scratch_resource_descriptor (pAmdQueue p) ! 0, scratch_resource_descriptor (pAmdQueue p) ! 1)] else []) @
      (if kernel_wants p ENABLE_SGPR_FLAT_SCRATCH_INIT then [(PtrLow32 (pScratchBase p), PtrHigh32 (pScratchBase p))] else [])"
    using assms by (intro scratch_pairs [OF _ eq wd]) (auto simp: dispatch_ok_def)
  have "length ?ws * 4 = sizeof_DispatchTemplate" by (simp add: dispatch_stream_length [OF le] sizeof_defs)
  with b user len lo parse offs eq pair show ?thesis
    by (intro exI [of _ ?ws] exI [of _ offs] exI [of _ user] exI [of _ lo] conjI) (assumption | rule ballI, erule offs)+
qed


definition dispatch_example :: DispatchInfo where
  "dispatch_example =
     \<lparr>di_major = 10, pPacket_addr = 0x7F0000001000,
      pPacket = \<lparr>kd_header = 0x102, kd_setup = 3, workgroup_size_x = 64, workgroup_size_y = 1,
        workgroup_size_z = 1, grid_size_x = 1024, grid_size_y = 1, grid_size_z = 1,
        private_segment_size = 16, group_segment_size = 0, kernel_object = 0x200000,
        kernarg_address = 0x300040, kd_completion_signal = 0\<rparr>,
      pEntry = 0x200100,
      pKernelObject = \<lparr>kernel_code_entry_byte_offset = 0x100, kc_compute_pgm_rsrc1 = 0xC0,
        kc_compute_pgm_rsrc2 = 0x90, kernel_code_properties = 0x46F,
        workitem_private_segment_byte_size = 16\<rparr>,
      ldsBlks = 0, pAmdQueue_addr = 0x400000,
      pAmdQueue = \<lparr>aq_compute_tmpring_size = 0, scratch_resource_descriptor = [1, 2, 3, 4],
        scratch_backing_memory_location = 0, scratch_wave64_lane_byte_size = 0\<rparr>,
      di_wave32 = True, di_srd = 5, pScratchBase = 0x500000, scratchSizePerWave = 1024\<rparr>"

theorem BuildDispatch_stream_witness:
  "dispatch_ok dispatch_example \<and>
   (\<exists>ws offs. BuildDispatch dispatch_example = Inr (ws, offs) \<and> length ws * 4 = sizeof_DispatchTemplate)"
proof -
  have ok: "dispatch_ok dispatch_example" by code_simp
  from BuildDispatch_stream [OF ok] ok show ?thesis by blast
qed

lemma low_bits_clear:
  assumes "a AND mask n = (0 :: u64)" and "n + m = 32"
  shows "push_bit n (take_bit m (drop_bit n (PtrLow32 a))) = PtrLow32 a"
proof (rule bit_word_eqI)
  fix k assume k: "k < LENGTH(32)"
  from assms(1) have "\<not> bit a k" if "k < n"
    using that k by (auto simp: bit_eq_iff bit_simps)
  with k assms(2) show "bit (push_bit n (take_bit m (drop_bit n (PtrLow32 a)))) k = bit (PtrLow32 a) k"
    by (cases "k < n") (auto simp: bit_simps PtrLow32_def)
qed

text \<open>
  C18. The addresses and operands a packet carries are the ones it was given: the two address words
  of an atomic packet are the halves of the address and its data words the halves of the operand;
  for a four-byte aligned address the write-data packet carries it and the 64-bit value in full
  and the assertion holds, and for an eight-byte aligned one so does the copy-data packet.
\<close>

theorem packet_operands_roundtrip:
  "(let ws = BuildAtomicMem a op pol v in
      push_bit 32 (ucast (ws ! 3)) OR ucast (ws ! 2) = a \<and>
      push_bit 32 (ucast (ws ! 5)) OR ucast (ws ! 4) = v) \<and>
   (a AND 3 = 0 \<longrightarrow> (\<exists>ws. BuildWriteData64Command a v = Inr ws \<and>
      push_bit 32 (ucast (ws ! 3)) OR ucast (ws ! 2) = a \<and>
      push_bit 32 (ucast (ws ! 5)) OR ucast (ws ! 4) = v)) \<and>
   (a AND 7 = 0 \<longrightarrow> (let ws = BuildCopyData_default a in
      push_bit 32 (ucast (ws ! 5)) OR ucast (ws ! 4) = a))"
proof (intro conjI impI)
  show "let ws = BuildAtomicMem a op pol v in
      push_bit 32 (ucast (ws ! 3)) OR ucast (ws ! 2) = a \<and>
      push_bit 32 (ucast (ws ! 5)) OR ucast (ws ! 4) = v"
    by (simp add: Let_def BuildAtomicMem_def dw_ATOMIC_MEM_def Ptr_halves)
next
  assume a: "a AND 3 = 0"
  then have "push_bit 2 (take_bit 30 (drop_bit 2 (PtrLow32 a))) = PtrLow32 a"
    by (intro low_bits_clear [of _ 2]) (simp_all add: mask_eq_exp_minus_1)
  then show "\<exists>ws. BuildWriteData64Command a v = Inr ws \<and>
      push_bit 32 (ucast (ws ! 3)) OR ucast (ws ! 2) = a \<and>
      push_bit 32 (ucast (ws ! 5)) OR ucast (ws ! 4) = v"
    using a Ptr_halves [of v, unfolded PtrLow32_def PtrHigh32_def]
    by (simp add: BuildWriteData64Command_def dw_WRITE_DATA_def Ptr_halves)
next
  assume "a AND 7 = 0"
  then have "push_bit 3 (take_bit 29 (drop_bit 3 (PtrLow32 a))) = PtrLow32 a"
    by (intro low_bits_clear [of _ 3]) (simp_all add: mask_eq_exp_minus_1)
  then show "let ws = BuildCopyData_default a in push_bit 32 (ucast (ws ! 5)) OR ucast (ws ! 4) = a"
    by (simp add: Let_def BuildCopyData_default_def BuildCopyData_def dw_COPY_DATA_def Ptr_halves)
qed

theorem packet_operands_roundtrip_witness:
  "(0x7F00000010C0 AND 7 = (0 :: u64)) \<and> 0x7F00000010C0 AND 3 = (0 :: u64) \<and>
   (let ws = BuildCopyData_default 0x7F00000010C0 in
      push_bit 32 (ucast (ws ! 5)) OR ucast (ws ! 4) = (0x7F00000010C0 :: u64))"
proof -
  have "0x7F00000010C0 AND 7 = (0 :: u64)" "0x7F00000010C0 AND 3 = (0 :: u64)" by simp_all
  with packet_operands_roundtrip [of _ _ _ "0x7F00000010C0"] show ?thesis by blast
qed

end
