(* ===== verification/Kernel.thy ===== *)
theory Kernel
  imports Utils
begin

text \<open>
  The boundary to the kernels below the library: the D3DKMT entry points the wrappers of
  \<^verbatim>\<open>src/shared/include/thunks.h\<close> call and the POSIX system calls of the runtime. Neither is code of
  this repository, so both are a parameter of the model: an environment gives the reply to a call,
  a status and the values of the out-parameters, from the calls made before it and their replies.
  The trace of these is the state, so a statement about what was created, mapped or released is one about
  the trace. For a POSIX call the status is \<open>STATUS_SUCCESS\<close> exactly when the call succeeds.
\<close>

section \<open>Status codes\<close>

datatype ErrorCode =
    Success | DeviceLost | UnSupported | NotReady | OutOfMemory | InitializationFailed
  | OutOfGpuMemory | OutOfHandleApeMemory | BufferTooSmall | Timeout | SyscallFail | InvalidParams
  | InvalidPointer | IncompatibleDevice | CheckError | NotFound | SameProcessSameDevice | Unknown

datatype ntstatus =
    STATUS_SUCCESS | STATUS_PENDING | STATUS_NO_MEMORY | STATUS_DEVICE_REMOVED
  | STATUS_GRAPHICS_NO_VIDEO_MEMORY | STATUS_TIMEOUT | STATUS_BUFFER_TOO_SMALL
  | STATUS_INVALID_PARAMETER | STATUS_OTHER

fun TranslateNtStatus :: "ntstatus \<Rightarrow> ErrorCode" where
  "TranslateNtStatus STATUS_SUCCESS = Success"
| "TranslateNtStatus STATUS_PENDING = NotReady"
| "TranslateNtStatus STATUS_NO_MEMORY = OutOfMemory"
| "TranslateNtStatus STATUS_DEVICE_REMOVED = DeviceLost"
| "TranslateNtStatus STATUS_GRAPHICS_NO_VIDEO_MEMORY = OutOfGpuMemory"
| "TranslateNtStatus STATUS_TIMEOUT = Timeout"
| "TranslateNtStatus STATUS_BUFFER_TOO_SMALL = BufferTooSmall"
| "TranslateNtStatus STATUS_INVALID_PARAMETER = InvalidParams"
| "TranslateNtStatus STATUS_OTHER = Unknown"

datatype AllocDomain = kSystem | kLocal | kUserMemory | kUserQueue | kDomainCount

section \<open>Calls\<close>

text \<open>
  What \<^verbatim>\<open>mmap\<close> is asked for: a reservation without access, committed private memory (locked or not),
  the withdrawal of it, or a shared mapping of a file.
\<close>

datatype mmap_kind = Map_Reserve | Map_Commit bool | Map_Decommit | Map_Shared int bool

record map_args =
  ma_queue :: u64
  ma_base :: u64
  ma_allocation :: u64
  ma_offset_pages :: u64
  ma_size_pages :: u64
  ma_write :: bool
  ma_no_access :: bool

text \<open>
  The arguments of \<^verbatim>\<open>D3DKMTCreateAllocation2\<close> that depend on the state: per allocation its size, the
  address and memory it is given, and whether the resource is shared with its runtime data.
\<close>

record alloc_info =
  ai_size :: u64
  ai_addr :: u64
  ai_sysmem :: u64

text \<open>\<^verbatim>\<open>SharedHandleInfo\<close>: the private data stored with a shared resource, read back by the importer.\<close>

record SharedHandleInfo =
  si_domain :: AllocDomain
  si_adapter_luid :: u64
  si_client_size :: u64
  si_size :: u64
  si_flags :: u32
  si_mem_flags :: int
  si_pid :: int
  si_gpu_addr :: u64

datatype dx_call =
    QueryStatistics_adapter
  | QueryStatistics_segment u32
  | CreatePagingQueue_call
  | DestroyPagingQueue_call u64
  | Escape_power bool
  | Lock2 u64
  | Unlock2 u64
  | CreateContextVirtual int
  | DestroyContext_call u64
  | WaitForSynchronizationObjectFromGpu u64 u64 u64
  | SignalSynchronizationObjectFromGpu u64 u64 u64
  | WaitForSynchronizationObjectFromCpu u64 u64
  | CreateSynchronizationObject2
  | DestroySynchronizationObject u64
  | SubmitCommand u64 u64 u64
  | CreateHwQueue_call u64 int
  | DestroyHwQueue_call u64
  | SubmitCommandToHwQueue u64 u64 u64 u64
  | QueryClockCalibration
  | ReserveGpuVA u64 u64 u64 u64
  | FreeGpuVA u64 u64 u64
  | MapGpuVA map_args
  | CreateAllocation2 u64 "alloc_info list" "SharedHandleInfo option"
  | DestroyAllocation2 u64 u64 "u64 list"
  | MakeResident_call u64 "u64 list"
  | Evict_call u64 "u64 list"
  | ShareObjects_call u64 u32
  | QueryResourceInfoFromNtHandle u64 int
  | OpenResourceFromNtHandle u64 int u32
  | Mmap u64 u64 mmap_kind
  | Munmap u64 u64
  | Madvise_dontfork u64 u64
  | Memfd_create
  | Ftruncate int u64
  | Close_fd int
  | Dup_fd int
  | Sysinfo
  | Readlink_memfd int
  | Fstat_fd int
  | Calloc u32
  | Open_dxg
  | Dxcore_Initialize
  | Dxcore_Shutdown

type_synonym dx_reply = "ntstatus \<times> u64 list"
type_synonym dx_trace = "(dx_call \<times> dx_reply) list"
type_synonym dx_env = "dx_trace \<Rightarrow> dx_call \<Rightarrow> dx_reply"

text \<open>A call with its translated status, and the form of it whose callers only ask for success.\<close>

definition dxc :: "dx_env \<Rightarrow> dx_call \<Rightarrow> dx_trace \<Rightarrow> ErrorCode \<times> u64 list \<times> dx_trace" where
  "dxc env c tr =
     (let r = env tr c in (TranslateNtStatus (fst r), snd r, tr @ [(c, r)]))"

definition dx :: "dx_env \<Rightarrow> dx_call \<Rightarrow> dx_trace \<Rightarrow> u64 list option \<times> dx_trace" where
  "dx env c tr =
     (case dxc env c tr of (code, vs, tr) \<Rightarrow> (if code = Success then Some vs else None, tr))"

definition out_arg :: "u64 list \<Rightarrow> nat \<Rightarrow> u64" where
  "out_arg vs i = (if i < length vs then vs ! i else 0)"

text \<open>\<^verbatim>\<open>d3dthunk::DestroyAllocation\<close> names the resource if there is one, otherwise the allocations.\<close>

definition DestroyAllocation ::
  "dx_env \<Rightarrow> u64 \<Rightarrow> u64 \<Rightarrow> u64 list \<Rightarrow> dx_trace \<Rightarrow> ErrorCode \<times> dx_trace" where
  "DestroyAllocation env device resource handles tr =
     (case dxc env (DestroyAllocation2 device resource (if resource \<noteq> 0 then [] else handles)) tr of
        (code, _, tr) \<Rightarrow> (code, tr))"

text \<open>\<^verbatim>\<open>d3dthunk::ReserveGpuVirtualAddress\<close> with a range leaves the out-parameter alone on failure.\<close>

definition d3d_ReserveGpuVirtualAddress ::
  "dx_env \<Rightarrow> u64 \<Rightarrow> u64 \<Rightarrow> u64 \<Rightarrow> u64 \<Rightarrow> u64 \<Rightarrow> dx_trace \<Rightarrow> ErrorCode \<times> u64 \<times> dx_trace" where
  "d3d_ReserveGpuVirtualAddress env adapter len min_addr max_addr out tr =
     (case dxc env (ReserveGpuVA adapter len min_addr max_addr) tr of
        (code, vs, tr) \<Rightarrow> (code, if code = Success then out_arg vs 0 else out, tr))"

definition ShareObjects :: "dx_env \<Rightarrow> u64 \<Rightarrow> u32 \<Rightarrow> dx_trace \<Rightarrow> ErrorCode \<times> int \<times> dx_trace" where
  "ShareObjects env resource flags tr =
     (case dxc env (ShareObjects_call resource flags) tr of
        (code, vs, tr) \<Rightarrow>
          (code, if code = Success then sint (ucast (out_arg vs 0) :: u32) else -1, tr))"

section \<open>Traces\<close>

lemma dxc_trace: "snd (snd (dxc env c tr)) = tr @ [(c, env tr c)]"
  by (simp add: dxc_def Let_def)

lemma dx_trace_step: "snd (dx env c tr) = tr @ [(c, env tr c)]"
  by (simp add: dx_def dxc_def Let_def)

lemma TranslateNtStatus_Success [simp]: "TranslateNtStatus s = Success \<longleftrightarrow> s = STATUS_SUCCESS"
  by (cases s) auto

lemma TranslateNtStatus_NotReady [simp]: "TranslateNtStatus s = NotReady \<longleftrightarrow> s = STATUS_PENDING"
  by (cases s) auto

lemma dx_Some_iff:
  "dx env c tr = (Some vs, tr') \<longleftrightarrow> env tr c = (STATUS_SUCCESS, vs) \<and> tr' = tr @ [(c, STATUS_SUCCESS, vs)]"
  by (cases "env tr c") (auto simp: dx_def dxc_def)

lemma dx_None_iff:
  "dx env c tr = (None, tr') \<longleftrightarrow> fst (env tr c) \<noteq> STATUS_SUCCESS \<and> tr' = tr @ [(c, env tr c)]"
  by (cases "env tr c") (auto simp: dx_def dxc_def)

end
