(* ===== verification/Device.thy ===== *)
theory Device
  imports Pm4 Kernel
begin

text \<open>
  The WDDM device of \<^verbatim>\<open>src/src/wddm/device.cpp\<close> and \<^verbatim>\<open>device.h\<close>: the paging fence, the memory segments,
  kernel contexts, synchronisation objects, hardware queues and the size of an AQL frame in the
  command buffer.
\<close>

section \<open>The device\<close>

record SegmentInfo =
  segment_id :: u32
  segment_type :: u64
  aperture :: u64
  system_memory :: u64
  commit_limit :: u64

text \<open>
  \<^verbatim>\<open>WDDMDevice\<close> with the properties of the shared device it forwards to (\<^verbatim>\<open>dev_\<close> fields) and the state
  it keeps: the paging queue and its fence, the frame sizes and the segments.
\<close>

record wddm_device =
  dev_adapter :: u64
  dev_handle :: u64
  dev_luid :: u64
  dev_major :: int
  dev_is_dgpu :: bool
  dev_lds_size :: u32
  dev_num_shader_engine :: u32
  dev_max_scratch_slots_per_cu :: u32
  dev_compute_unit_count :: u32
  dev_platform_atomic :: bool
  dev_local_visible_heap_size :: u64
  dev_local_invisible_heap_size :: u64
  dev_non_local_heap_size :: u64
  dev_private_aperture_base :: u64
  dev_private_aperture_size :: u64
  dev_shared_aperture_base :: u64
  dev_shared_aperture_size :: u64
  dev_enable_big_page :: bool
  dev_big_page_alignment :: u32
  dev_hw_big_page_min_alignment :: u32
  dev_hw_big_page_alignment :: u32
  page_queue :: u64
  page_syncobj :: u64
  page_fence_addr :: u64
  page_fence_value :: u64
  dev_cmdbuf_size :: u32
  dev_aql_frame_size :: u32
  segment_infos :: "SegmentInfo list"

definition cmdbuf_aql_frame_num :: u32 where
  "cmdbuf_aql_frame_num = 0x1000"

definition LocalHeapSize :: "wddm_device \<Rightarrow> u64" where
  "LocalHeapSize d = dev_local_visible_heap_size d + dev_local_invisible_heap_size d"

text \<open>
  \<^verbatim>\<open>InitCmdbufInfo\<close>: before gfx9 neither of the first two branches assigns the frame size, and the
  additions read the uninitialised member.
\<close>

definition frame_packets_size :: "int \<Rightarrow> u32" where
  "frame_packets_size major =
     of_nat (2 * (if major = 9 then sizeof_gfx9_ACQUIRE_MEM else sizeof_gfx10_ACQUIRE_MEM)) +
     (if major \<ge> 11 then of_nat sizeof_SetScratchTemplate + of_nat sizeof_DispatchProgramResourceRegs3
      else 0) +
     of_nat (sizeof_COPY_DATA * 2 + sizeof_EVENT_WRITE * 2 + sizeof_DispatchTemplate +
             sizeof_ATOMIC_MEM * 2)"

definition InitCmdbufInfo :: "wddm_device \<Rightarrow> wddm_device res" where
  "InitCmdbufInfo d =
     (if dev_major d < 9 then Inl (Uninitialised ''cmdbuf_aql_frame_size_'')
      else let frame = AlignUp (frame_packets_size (dev_major d) + 128) 0x10
           in Inr (d\<lparr>dev_aql_frame_size := frame,
                     dev_cmdbuf_size := AlignUp (cmdbuf_aql_frame_num * frame) 0x1000\<rparr>))"

definition LdsBlocks :: "u32 \<Rightarrow> u32" where
  "LdsBlocks group_size = (group_size + 512 - 1) div 512"

section \<open>Segments\<close>

fun QuerySegments :: "dx_env \<Rightarrow> nat \<Rightarrow> nat \<Rightarrow> SegmentInfo list \<Rightarrow> dx_trace \<Rightarrow>
    bool \<times> SegmentInfo list \<times> dx_trace" where
  "QuerySegments env 0 i infos tr = (True, infos, tr)"
| "QuerySegments env (Suc n) i infos tr =
     (case dx env (QueryStatistics_segment (of_nat i)) tr of
        (None, tr) \<Rightarrow> (False, infos, tr)
      | (Some seg, tr) \<Rightarrow>
          QuerySegments env n (Suc i)
            (infos @ [\<lparr>segment_id = of_nat i, segment_type = out_arg seg 0, aperture = out_arg seg 2,
                       system_memory = out_arg seg 1, commit_limit = out_arg seg 3\<rparr>]) tr)"

definition QuerySegmentInfo :: "dx_env \<Rightarrow> wddm_device \<Rightarrow> dx_trace \<Rightarrow> bool \<times> wddm_device \<times> dx_trace" where
  "QuerySegmentInfo env d tr =
     (case dx env QueryStatistics_adapter tr of
        (None, tr) \<Rightarrow> (False, d\<lparr>segment_infos := []\<rparr>, tr)
      | (Some a, tr) \<Rightarrow>
          (case QuerySegments env (unat (ucast (out_arg a 0) :: u32)) 0 [] tr of
             (ok, infos, tr) \<Rightarrow> (ok, d\<lparr>segment_infos := infos\<rparr>, tr)))"

definition GetSegmentId :: "wddm_device \<Rightarrow> u64 \<Rightarrow> u32 option" where
  "GetSegmentId d ty = map_option segment_id (find (\<lambda>s. segment_type s = ty) (segment_infos d))"

definition SEGMENT_TYPE_MEMORY :: u64 where "SEGMENT_TYPE_MEMORY = 1"
definition SEGMENT_TYPE_SYSMEM :: u64 where "SEGMENT_TYPE_SYSMEM = 2"
definition HSA_STATUS_ERROR_code :: u64 where "HSA_STATUS_ERROR_code = 0x1000"

definition CpuWait :: "dx_env \<Rightarrow> u64 \<Rightarrow> u64 \<Rightarrow> dx_trace \<Rightarrow> bool \<times> dx_trace" where
  "CpuWait env syncobj value tr =
     (case dx env (WaitForSynchronizationObjectFromCpu syncobj value) tr of (r, tr) \<Rightarrow> (r \<noteq> None, tr))"

definition query_resident :: "dx_env \<Rightarrow> u32 \<Rightarrow> dx_trace \<Rightarrow> u64 \<times> dx_trace" where
  "query_resident env seg tr =
     (case dx env (QueryStatistics_segment seg) tr of
        (None, tr) \<Rightarrow> (0, tr)
      | (Some vs, tr) \<Rightarrow> (out_arg vs 4, tr))"

text \<open>
  \<^verbatim>\<open>VramAvail\<close> returns the status \<^verbatim>\<open>HSA_STATUS_ERROR\<close> as if it were a number of bytes where it
  cannot find out.
\<close>

definition VramAvail :: "dx_env \<Rightarrow> wddm_device \<Rightarrow> dx_trace \<Rightarrow> u64 \<times> dx_trace" where
  "VramAvail env d tr =
     (case CpuWait env (page_syncobj d) (page_fence_value d) tr of
        (False, tr) \<Rightarrow> (HSA_STATUS_ERROR_code, tr)
      | (True, tr) \<Rightarrow>
     (case GetSegmentId d SEGMENT_TYPE_MEMORY of
        None \<Rightarrow> (HSA_STATUS_ERROR_code, tr)
      | Some seg \<Rightarrow>
     (case query_resident env seg tr of (usedVis, tr) \<Rightarrow>
     (case (if dev_local_invisible_heap_size d \<noteq> 0 then query_resident env (seg + 1) tr else (0, tr)) of
        (usedInv, tr) \<Rightarrow>
     (if dev_is_dgpu d then (LocalHeapSize d - usedVis - usedInv, tr)
      else (case GetSegmentId d SEGMENT_TYPE_SYSMEM of
              None \<Rightarrow> (HSA_STATUS_ERROR_code, tr)
            | Some seg \<Rightarrow>
                (case query_resident env seg tr of (usedNonLocal, tr) \<Rightarrow>
                   (LocalHeapSize d + dev_non_local_heap_size d - usedVis - usedInv - usedNonLocal,
                    tr))))))))"

section \<open>Paging queue, locks, contexts and synchronisation objects\<close>

definition CreatePagingQueue :: "dx_env \<Rightarrow> wddm_device \<Rightarrow> dx_trace \<Rightarrow> bool \<times> wddm_device \<times> dx_trace" where
  "CreatePagingQueue env d tr =
     (case dx env CreatePagingQueue_call tr of
        (None, tr) \<Rightarrow> (False, d, tr)
      | (Some vs, tr) \<Rightarrow>
          (True, d\<lparr>page_queue := out_arg vs 0, page_syncobj := out_arg vs 1,
                   page_fence_addr := out_arg vs 2, page_fence_value := 0\<rparr>, tr))"

definition DestroyPagingQueue :: "dx_env \<Rightarrow> wddm_device \<Rightarrow> dx_trace \<Rightarrow> bool \<times> dx_trace" where
  "DestroyPagingQueue env d tr =
     (case dx env (DestroyPagingQueue_call (page_queue d)) tr of (r, tr) \<Rightarrow> (r \<noteq> None, tr))"

definition SetPowerOptimization :: "dx_env \<Rightarrow> bool \<Rightarrow> dx_trace \<Rightarrow> dx_trace" where
  "SetPowerOptimization env restore tr = snd (dx env (Escape_power restore) tr)"

definition WDDMDevice_ctor :: "dx_env \<Rightarrow> wddm_device \<Rightarrow> dx_trace \<Rightarrow> (wddm_device \<times> dx_trace) res" where
  "WDDMDevice_ctor env d tr =
     (let tr = SetPowerOptimization env False tr
      in case CreatePagingQueue env d tr of (_, d, tr) \<Rightarrow>
         bindE (InitCmdbufInfo d) (\<lambda>d.
         case QuerySegmentInfo env d tr of (_, d, tr) \<Rightarrow> Inr (d, tr)))"

definition WDDMDevice_dtor :: "dx_env \<Rightarrow> wddm_device \<Rightarrow> dx_trace \<Rightarrow> dx_trace" where
  "WDDMDevice_dtor env d tr = SetPowerOptimization env True (snd (DestroyPagingQueue env d tr))"

definition Lock :: "dx_env \<Rightarrow> u64 \<Rightarrow> dx_trace \<Rightarrow> u64 \<times> dx_trace" where
  "Lock env handle tr =
     (case dx env (Lock2 handle) tr of (None, tr) \<Rightarrow> (0, tr) | (Some vs, tr) \<Rightarrow> (out_arg vs 0, tr))"

definition Unlock :: "dx_env \<Rightarrow> u64 \<Rightarrow> dx_trace \<Rightarrow> bool \<times> dx_trace" where
  "Unlock env handle tr = (case dx env (Unlock2 handle) tr of (r, tr) \<Rightarrow> (r \<noteq> None, tr))"

text \<open>\<open>ordinal\<close> is \<^verbatim>\<open>EngineOrdinal(engine)\<close> of the shared device; negative when there is none.\<close>

definition CreateContext :: "dx_env \<Rightarrow> int \<Rightarrow> dx_trace \<Rightarrow> u64 option \<times> dx_trace" where
  "CreateContext env ordinal tr =
     (if ordinal < 0 then (None, tr)
      else case dx env (CreateContextVirtual ordinal) tr of
             (None, tr) \<Rightarrow> (None, tr)
           | (Some vs, tr) \<Rightarrow> (Some (out_arg vs 0), tr))"

definition DestroyContext :: "dx_env \<Rightarrow> u64 \<Rightarrow> dx_trace \<Rightarrow> bool \<times> dx_trace" where
  "DestroyContext env handle tr =
     (case dx env (DestroyContext_call handle) tr of (r, tr) \<Rightarrow> (r \<noteq> None, tr))"

definition GpuWait :: "dx_env \<Rightarrow> u64 \<Rightarrow> u64 \<Rightarrow> u64 \<Rightarrow> dx_trace \<Rightarrow> bool \<times> dx_trace" where
  "GpuWait env context syncobj value tr =
     (case dx env (WaitForSynchronizationObjectFromGpu context syncobj value) tr of (r, tr) \<Rightarrow>
        (r \<noteq> None, tr))"

definition GpuSignal :: "dx_env \<Rightarrow> u64 \<Rightarrow> u64 \<Rightarrow> u64 \<Rightarrow> dx_trace \<Rightarrow> bool \<times> dx_trace" where
  "GpuSignal env context syncobj value tr =
     (case dx env (SignalSynchronizationObjectFromGpu context syncobj value) tr of (r, tr) \<Rightarrow>
        (r \<noteq> None, tr))"

definition WaitOnPagingFenceFromCpu :: "dx_env \<Rightarrow> wddm_device \<Rightarrow> dx_trace \<Rightarrow> bool \<times> dx_trace" where
  "WaitOnPagingFenceFromCpu env d tr = CpuWait env (page_syncobj d) (page_fence_value d) tr"

text \<open>\<open>fence\<close> is the value the kernel has written at \<^verbatim>\<open>*page_fence_addr_\<close>.\<close>

definition WaitPagingFence :: "dx_env \<Rightarrow> wddm_device \<Rightarrow> u64 \<Rightarrow> u64 \<Rightarrow> dx_trace \<Rightarrow> bool \<times> dx_trace" where
  "WaitPagingFence env d fence context tr =
     (if fence < page_fence_value d then GpuWait env context (page_syncobj d) (page_fence_value d) tr
      else (True, tr))"

definition CreateSyncobj :: "dx_env \<Rightarrow> dx_trace \<Rightarrow> (u64 \<times> u64) option \<times> dx_trace" where
  "CreateSyncobj env tr =
     (case dx env CreateSynchronizationObject2 tr of
        (None, tr) \<Rightarrow> (None, tr)
      | (Some vs, tr) \<Rightarrow> (Some (out_arg vs 0, out_arg vs 1), tr))"

definition DestroySyncobj :: "dx_env \<Rightarrow> u64 \<Rightarrow> dx_trace \<Rightarrow> dx_trace" where
  "DestroySyncobj env handle tr = snd (dx env (DestroySynchronizationObject handle) tr)"

definition GetClockCounters :: "dx_env \<Rightarrow> u64 \<times> u64 \<Rightarrow> dx_trace \<Rightarrow> (u64 \<times> u64) \<times> dx_trace" where
  "GetClockCounters env old tr =
     (case dx env QueryClockCalibration tr of
        (None, tr) \<Rightarrow> (old, tr)
      | (Some vs, tr) \<Rightarrow> ((out_arg vs 0, out_arg vs 1), tr))"

section \<open>The paging fence under concurrent updates\<close>

text \<open>
  \<^verbatim>\<open>UpdatePageFence\<close> as each thread executes it: load the value, leave when it is not below the
  target, otherwise \<^verbatim>\<open>compare_exchange_weak\<close>, which stores the target when the value is still the one
  loaded and may also fail for no reason; a failure reloads. \<open>fence_step\<close> is one atomic action
  of one of the threads on the shared value.
\<close>

datatype fence_thread =
    Fence_Start u64
  | Fence_Loop u64 u64
  | Fence_Done u64

inductive fence_step :: "u64 \<times> fence_thread list \<Rightarrow> u64 \<times> fence_thread list \<Rightarrow> bool" where
  fence_load: "\<lbrakk>i < length ts; ts ! i = Fence_Start t\<rbrakk> \<Longrightarrow>
     fence_step (v, ts) (v, ts[i := Fence_Loop v t])"
| fence_break: "\<lbrakk>i < length ts; ts ! i = Fence_Loop cur t; t \<le> cur\<rbrakk> \<Longrightarrow>
     fence_step (v, ts) (v, ts[i := Fence_Done t])"
| fence_cas: "\<lbrakk>i < length ts; ts ! i = Fence_Loop cur t; cur < t; v = cur\<rbrakk> \<Longrightarrow>
     fence_step (v, ts) (t, ts[i := Fence_Done t])"
| fence_cas_fail: "\<lbrakk>i < length ts; ts ! i = Fence_Loop cur t; cur < t\<rbrakk> \<Longrightarrow>
     fence_step (v, ts) (v, ts[i := Fence_Loop v t])"

inductive_cases fence_stepE: "fence_step (v, ts) s"

text \<open>The same call executed alone, as the other components use it.\<close>

definition UpdatePageFence :: "u64 \<Rightarrow> wddm_device \<Rightarrow> wddm_device" where
  "UpdatePageFence fence_value d =
     (if page_fence_value d \<ge> fence_value then d else d\<lparr>page_fence_value := fence_value\<rparr>)"

fun fence_thread_ok :: "u64 \<Rightarrow> fence_thread \<Rightarrow> bool" where
  "fence_thread_ok v (Fence_Start t) = True"
| "fence_thread_ok v (Fence_Loop cur t) = (cur \<le> v)"
| "fence_thread_ok v (Fence_Done t) = (t \<le> v)"

fun fence_target :: "fence_thread \<Rightarrow> u64" where
  "fence_target (Fence_Start t) = t"
| "fence_target (Fence_Loop cur t) = t"
| "fence_target (Fence_Done t) = t"

definition fence_inv :: "u64 \<Rightarrow> u64 list \<Rightarrow> u64 \<times> fence_thread list \<Rightarrow> bool" where
  "fence_inv v0 targets s \<longleftrightarrow> v0 \<le> fst s \<and> fst s \<in> insert v0 (set targets) \<and>
     map fence_target (snd s) = targets \<and> (\<forall>t \<in> set (snd s). fence_thread_ok (fst s) t)"

lemma fence_thread_ok_mono: "\<lbrakk>fence_thread_ok v t; v \<le> w\<rbrakk> \<Longrightarrow> fence_thread_ok w t"
  by (cases t) auto

lemma fence_targets_update:
  "\<lbrakk>i < length ts; fence_target x = fence_target (ts ! i)\<rbrakk> \<Longrightarrow>
   map fence_target (ts[i := x]) = map fence_target ts"
  by (simp add: map_update list_update_same_conv)

lemma fence_inv_step:
  assumes "fence_step s s'" "fence_inv v0 targets s"
  shows "fence_inv v0 targets s' \<and> fst s \<le> fst s'"
  using assms
proof (induction rule: fence_step.induct)
  case (fence_cas i ts cur t v)
  from fence_cas.prems have inv: "v0 \<le> v" "map fence_target ts = targets"
    "\<forall>t \<in> set ts. fence_thread_ok v t" by (auto simp: fence_inv_def)
  have "t \<in> set targets"
    using fence_cas.hyps inv(2) by (metis fence_target.simps(2) length_map nth_map nth_mem)
  moreover have "\<forall>x \<in> set (ts[i := Fence_Done t]). fence_thread_ok t x"
    using inv(3) fence_cas.hyps
    by (auto dest!: set_update_subset_insert [THEN subsetD] intro: fence_thread_ok_mono [of v])
  ultimately show ?case
    using inv fence_cas.hyps fence_targets_update [of i ts "Fence_Done t"]
    by (auto simp: fence_inv_def)
qed (auto simp: fence_inv_def fence_targets_update dest!: set_update_subset_insert [THEN subsetD]
       nth_mem)

lemma fence_inv_steps:
  "\<lbrakk>fence_step\<^sup>*\<^sup>* s s'; fence_inv v0 targets s\<rbrakk> \<Longrightarrow> fence_inv v0 targets s' \<and> fst s \<le> fst s'"
  by (induction rule: rtranclp_induct) (auto dest: fence_inv_step)

text \<open>
  C17. The paging fence only moves forward, whatever the interleaving of the threads that update it:
  it never decreases, always holds its initial value or one of the requested ones, and a
  thread that has returned finds its target reached.
\<close>

theorem UpdatePageFence_concurrent:
  assumes "fence_step\<^sup>*\<^sup>* (v0, map Fence_Start targets) (v, ts)"
  shows "v0 \<le> v \<and> v \<in> insert v0 (set targets) \<and> (\<forall>t. Fence_Done t \<in> set ts \<longrightarrow> t \<le> v)"
proof -
  have "fence_inv v0 targets (v0, map Fence_Start targets)"
    by (simp add: fence_inv_def comp_def)
  from fence_inv_steps [OF assms this] show ?thesis by (force simp: fence_inv_def)
qed

theorem UpdatePageFence_concurrent_witness:
  "fence_step\<^sup>*\<^sup>* (1, map Fence_Start [5]) (5, [Fence_Done 5]) \<and> (1 :: u64) \<le> 5"
proof -
  have "fence_step (1, [Fence_Start 5]) (1, [Fence_Loop 1 5])"
    using fence_load [of 0 "[Fence_Start 5]" 5 1] by simp
  moreover have "fence_step (1, [Fence_Loop 1 5]) (5, [Fence_Done 5])"
    using fence_cas [of 0 "[Fence_Loop 1 5]" 1 5 1] by simp
  ultimately have "fence_step\<^sup>*\<^sup>* (1, map Fence_Start [5]) (5, [Fence_Done 5])"
    by (simp add: converse_rtranclp_into_rtranclp)
  from this UpdatePageFence_concurrent [OF this] show ?thesis by blast
qed

section \<open>Frame size\<close>

lemma InitCmdbufInfo_eq:
  "9 \<le> dev_major d \<Longrightarrow> InitCmdbufInfo d = Inr (d\<lparr>
     dev_aql_frame_size := (if dev_major d = 9 then 496 else if dev_major d = 10 then 512 else 544),
     dev_cmdbuf_size := (if dev_major d = 9 then 2031616 else if dev_major d = 10 then 2097152
                         else 2228224)\<rparr>)"
  by (auto simp: InitCmdbufInfo_def frame_packets_size_def sizeof_defs cmdbuf_aql_frame_num_def
      AlignUp_def AlignDown_def Let_def)

text \<open>
  The command buffer is a whole number of frames and a frame holds the largest sequence a packet
  can need: on every supported generation \<^verbatim>\<open>InitCmdbufInfo\<close> gives a frame size that is a positive
  multiple of 16 bytes with 128 bytes to spare over two cache flushes, the scratch and shader
  registers, two timestamps, two barriers, a dispatch and two atomics, and \<^verbatim>\<open>cmdbuf_size_\<close> is
  the frame number times it, without wrap-around, and page aligned.
\<close>

theorem InitCmdbufInfo_frames:
  assumes "9 \<le> dev_major d"
  shows "\<exists>d'. InitCmdbufInfo d = Inr d' \<and>
    16 dvd unat (dev_aql_frame_size d') \<and>
    unat (dev_cmdbuf_size d') = 4096 * unat (dev_aql_frame_size d') \<and>
    4096 dvd unat (dev_cmdbuf_size d') \<and>
    2 * sizeof_ACQUIRE_MEM (dev_major d) +
    (if 11 \<le> dev_major d then sizeof_SetScratchTemplate + sizeof_DispatchProgramResourceRegs3 else 0) +
    2 * sizeof_COPY_DATA + 2 * sizeof_EVENT_WRITE + sizeof_DispatchTemplate + 2 * sizeof_ATOMIC_MEM +
    128 \<le> unat (dev_aql_frame_size d')"
  using assms by (auto simp: InitCmdbufInfo_eq sizeof_ACQUIRE_MEM_def sizeof_defs)

definition device_example :: wddm_device where
  "device_example =
     \<lparr>dev_adapter = 0x40, dev_handle = 0x41, dev_luid = 7, dev_major = 11, dev_is_dgpu = True, dev_lds_size = 65536, dev_num_shader_engine = 4,
      dev_max_scratch_slots_per_cu = 32, dev_compute_unit_count = 48, dev_platform_atomic = True,
      dev_local_visible_heap_size = 0x200000000, dev_local_invisible_heap_size = 0,
      dev_non_local_heap_size = 0x200000000,
      dev_private_aperture_base = 0x1000000000000, dev_private_aperture_size = 0x100000000,
      dev_shared_aperture_base = 0x2000000000000, dev_shared_aperture_size = 0x100000000,
      dev_enable_big_page = True, dev_big_page_alignment = 0x10000,
      dev_hw_big_page_min_alignment = 0x10000, dev_hw_big_page_alignment = 0x200000, page_queue = 1, page_syncobj = 2, page_fence_addr = 0x1000,
      page_fence_value = 0, dev_cmdbuf_size = 2228224, dev_aql_frame_size = 544, segment_infos = []\<rparr>"

theorem InitCmdbufInfo_frames_witness:
  "9 \<le> dev_major device_example \<and> (\<exists>d'. InitCmdbufInfo device_example = Inr d' \<and>
     16 dvd unat (dev_aql_frame_size d'))"
proof -
  have m: "9 \<le> dev_major device_example" by (simp add: device_example_def)
  from InitCmdbufInfo_frames [OF m] m show ?thesis by blast
qed

end
