(* ===== verification/Runtime.thy ===== *)
theory Runtime
  imports Va_Mgr Device
begin

text \<open>
  The runtime object \<^verbatim>\<open>hsakmtRuntime\<close> of \<^verbatim>\<open>src/src/librocdxg.h\<close> and \<^verbatim>\<open>src/src/openclose.cpp\<close>: the address
  ranges shared by the CPU and every GPU, the three address-space managers over them, and the
  operations that reserve, commit and release addresses. The devices are given by
  \<open>dv\<close>, the function \<^verbatim>\<open>get_wddmdev\<close> of the topology (\<open>None\<close> is \<^verbatim>\<open>nullptr\<close>), and their number \<open>n\<close>.
  A manager that has not been created is a null \<^verbatim>\<open>unique_ptr\<close>.
\<close>

section \<open>State\<close>

record runtime =
  rt_dxg_fd :: int
  rt_parent_pid :: int
  rt_is_forked :: bool
  rt_debug_level :: int
  rt_open_count :: u64
  rt_page_size :: u64
  rt_page_shift :: int
  rt_is_dgpu :: bool
  rt_svm_supported :: bool
  rt_zfb_support :: int
  rt_vendor_packet :: int
  rt_check_avail_sysram :: bool
  rt_max_single_alloc_size :: u64
  rt_sub_allocator :: int
  rt_default_node :: u32
  rt_local_start :: u64
  rt_local_size :: u64
  rt_local_mgr :: "va_mgr option"
  rt_system_start :: u64
  rt_system_size :: u64
  rt_system_mgr :: "va_mgr option"
  rt_aperture_start :: u64
  rt_aperture_size :: u64
  rt_aperture_mgr :: "va_mgr option"

definition new_hsakmtRuntime :: "int \<Rightarrow> runtime" where
  "new_hsakmtRuntime pid =
     \<lparr>rt_dxg_fd = -1, rt_parent_pid = pid, rt_is_forked = False, rt_debug_level = 3,
      rt_open_count = 0, rt_page_size = 0, rt_page_shift = 0, rt_is_dgpu = False,
      rt_svm_supported = False, rt_zfb_support = 0, rt_vendor_packet = 0,
      rt_check_avail_sysram = False, rt_max_single_alloc_size = 0, rt_sub_allocator = 0,
      rt_default_node = 1, rt_local_start = 0, rt_local_size = 0, rt_local_mgr = None,
      rt_system_start = 0, rt_system_size = 0, rt_system_mgr = None,
      rt_aperture_start = 0, rt_aperture_size = 0, rt_aperture_mgr = None\<rparr>"

definition the_mgr :: "string \<Rightarrow> va_mgr option \<Rightarrow> va_mgr res" where
  "the_mgr w m = (case m of None \<Rightarrow> Inl (Null_Deref w) | Some v \<Rightarrow> Inr v)"

section \<open>Ranges shared by the CPU and the GPUs\<close>

text \<open>
  The loop over the adapters in one attempt of \<^verbatim>\<open>ReserveSvmSpace\<close>: it counts the adapters that gave
  an address and keeps in \<open>base\<close> the last one given.
\<close>

fun svm_adapters :: "dx_env \<Rightarrow> (nat \<Rightarrow> wddm_device option) \<Rightarrow> nat \<Rightarrow> nat \<Rightarrow> u64 \<Rightarrow> u64 \<Rightarrow> u64 \<Rightarrow>
    nat \<Rightarrow> u64 \<Rightarrow> u64 \<Rightarrow> dx_trace \<Rightarrow> (nat \<times> u64 \<times> u64 \<times> dx_trace) res" where
  "svm_adapters env dv 0 j ptr sys_va_size len cnt base local_va tr = Inr (cnt, base, local_va, tr)"
| "svm_adapters env dv (Suc k) j ptr sys_va_size len cnt base local_va tr =
     (case dv (Suc j) of
        None \<Rightarrow> Inl (Null_Deref ''ReserveSvmSpace'')
      | Some d \<Rightarrow>
          let start = (if base = 0 then ptr else base);
              last = start + (if base = 0 then sys_va_size else len) + 1
          in case d3d_ReserveGpuVirtualAddress env (dev_adapter d) len start last local_va tr of
               (code, local_va', tr') \<Rightarrow>
                 if code = Success
                 then svm_adapters env dv k (Suc j) ptr sys_va_size len (Suc cnt) local_va' local_va' tr'
                 else svm_adapters env dv k (Suc j) ptr sys_va_size len cnt base local_va' tr')"

text \<open>
  The attempts: \<open>k\<close> are left; \<open>vas\<close> are the CPU addresses mapped so far (\<^verbatim>\<open>sys_va\<close>). The result
  is the address found, if any, the addresses mapped and \<^verbatim>\<open>base\<close>.
\<close>

fun svm_attempts :: "dx_env \<Rightarrow> (nat \<Rightarrow> wddm_device option) \<Rightarrow> nat \<Rightarrow> nat \<Rightarrow> u64 \<Rightarrow> u64 \<Rightarrow> u64 \<Rightarrow>
    u64 list \<Rightarrow> dx_trace \<Rightarrow> (u64 option \<times> u64 list \<times> u64 \<times> dx_trace) res" where
  "svm_attempts env dv n 0 sys_va_size len base vas tr = Inr (None, vas, base, tr)"
| "svm_attempts env dv n (Suc k) sys_va_size len base vas tr =
     (case dx env (Mmap 0 sys_va_size Map_Reserve) tr of
        (None, tr) \<Rightarrow> Inr (None, vas, base, tr)
      | (Some vs, tr) \<Rightarrow>
          let ptr = out_arg vs 0 in
          bindE (svm_adapters env dv n 0 ptr sys_va_size len 0 base 0 tr) (\<lambda>(cnt, base, local_va, tr).
            if cnt = n then Inr (Some local_va, vas @ [ptr], base, tr)
            else svm_attempts env dv n k sys_va_size len base (vas @ [ptr]) tr))"

definition munmap_all :: "dx_env \<Rightarrow> u64 \<Rightarrow> u64 list \<Rightarrow> dx_trace \<Rightarrow> dx_trace" where
  "munmap_all env len vas tr =
     fold (\<lambda>a tr. if a \<noteq> 0 then snd (dx env (Munmap a len) tr) else tr) vas tr"

definition ReserveSvmSpace :: "dx_env \<Rightarrow> (nat \<Rightarrow> wddm_device option) \<Rightarrow> nat \<Rightarrow> u64 \<Rightarrow> u64 \<Rightarrow> dx_trace \<Rightarrow>
    (bool \<times> u64 \<times> u64 \<times> dx_trace) res" where
  "ReserveSvmSpace env dv n len align tr =
     (let sys_va_size = len + align in
      bindE (svm_attempts env dv n 16 sys_va_size len 0 [] tr) (\<lambda>(found, vas, base, tr).
        case found of
          None \<Rightarrow> Inr (False, 0, 0, munmap_all env sys_va_size vas tr)
        | Some local_va \<Rightarrow>
            let ptr = last vas;
                left_size = local_va - ptr;
                right_size = align - left_size;
                tr = (if left_size > 0 then snd (dx env (Munmap ptr left_size) tr) else tr);
                tr = (if right_size > 0 then snd (dx env (Munmap (local_va + len) right_size) tr) else tr)
            in Inr (True, base, len, munmap_all env sys_va_size (butlast vas) tr)))"

fun free_adapters :: "dx_env \<Rightarrow> (nat \<Rightarrow> wddm_device option) \<Rightarrow> nat \<Rightarrow> nat \<Rightarrow> u64 \<Rightarrow> u64 \<Rightarrow> dx_trace \<Rightarrow>
    bool \<times> dx_trace" where
  "free_adapters env dv 0 j base len tr = (True, tr)"
| "free_adapters env dv (Suc k) j base len tr =
     (case dv (Suc j) of
        None \<Rightarrow> (False, tr)
      | Some d \<Rightarrow> free_adapters env dv k (Suc j) base len (snd (dx env (FreeGpuVA (dev_adapter d) base len) tr)))"

text \<open>
  \<^verbatim>\<open>FreeSvmSpace\<close> returns its result with the two reference parameters; a missing device makes it
  \<^verbatim>\<open>return -1\<close>, which is \<open>True\<close> for a \<^verbatim>\<open>bool\<close>, with nothing unmapped.
\<close>

definition FreeSvmSpace :: "dx_env \<Rightarrow> (nat \<Rightarrow> wddm_device option) \<Rightarrow> nat \<Rightarrow> u64 \<Rightarrow> u64 \<Rightarrow> dx_trace \<Rightarrow>
    bool \<times> u64 \<times> u64 \<times> dx_trace" where
  "FreeSvmSpace env dv n base len tr =
     (case free_adapters env dv n 0 base len tr of
        (False, tr) \<Rightarrow> (True, base, len, tr)
      | (True, tr) \<Rightarrow>
          (case dx env (Munmap base len) tr of (r, tr) \<Rightarrow> (r \<noteq> None, 0, 0, tr)))"

fun total_local_size :: "(nat \<Rightarrow> wddm_device option) \<Rightarrow> nat \<Rightarrow> nat \<Rightarrow> u64 \<Rightarrow> u64 option" where
  "total_local_size dv 0 j acc = Some acc"
| "total_local_size dv (Suc k) j acc =
     (case dv (Suc j) of
        None \<Rightarrow> None
      | Some d \<Rightarrow>
          total_local_size dv k (Suc j)
            (max (if dev_is_dgpu d then LocalHeapSize d else LocalHeapSize d + dev_non_local_heap_size d) acc))"

definition ReserveLocalHeapSpace :: "dx_env \<Rightarrow> (nat \<Rightarrow> wddm_device option) \<Rightarrow> nat \<Rightarrow> runtime \<Rightarrow> dx_trace \<Rightarrow>
    (bool \<times> runtime \<times> dx_trace) res" where
  "ReserveLocalHeapSpace env dv n rt tr =
     (case total_local_size dv n 0 0 of
        None \<Rightarrow> Inr (True, rt, tr)
      | Some total_size \<Rightarrow>
          let align = 0x40000000 in
          bindE (ReserveSvmSpace env dv n (AlignUp total_size align * 4) align tr) (\<lambda>(ok, base, len, tr).
            Inr (ok, rt\<lparr>rt_local_start := base, rt_local_size := len\<rparr>, tr)))"

definition ReserveSystemHeapSpace :: "dx_env \<Rightarrow> (nat \<Rightarrow> wddm_device option) \<Rightarrow> nat \<Rightarrow> runtime \<Rightarrow> dx_trace \<Rightarrow>
    (bool \<times> runtime \<times> dx_trace) res" where
  "ReserveSystemHeapSpace env dv n rt tr =
     (case dx env Sysinfo tr of
        (None, tr) \<Rightarrow> Inl (Assert_Failed ''ReserveSystemHeapSpace: sysinfo'')
      | (Some vs, tr) \<Rightarrow>
          let alignment = 0x100000000;
              len = min (AlignUp (out_arg vs 0) alignment * 2) 0x10000000000
          in bindE (ReserveSvmSpace env dv n len alignment tr) (\<lambda>(ok, base, len, tr).
               Inr (ok, rt\<lparr>rt_system_start := base, rt_system_size := len\<rparr>, tr)))"

definition FreeLocalHeapSpace :: "dx_env \<Rightarrow> (nat \<Rightarrow> wddm_device option) \<Rightarrow> nat \<Rightarrow> runtime \<Rightarrow> dx_trace \<Rightarrow>
    bool \<times> runtime \<times> dx_trace" where
  "FreeLocalHeapSpace env dv n rt tr =
     (case FreeSvmSpace env dv n (rt_local_start rt) (rt_local_size rt) tr of
        (r, b, s, tr) \<Rightarrow> (r, rt\<lparr>rt_local_start := b, rt_local_size := s\<rparr>, tr))"

definition FreeSystemHeapSpace :: "dx_env \<Rightarrow> (nat \<Rightarrow> wddm_device option) \<Rightarrow> nat \<Rightarrow> runtime \<Rightarrow> dx_trace \<Rightarrow>
    bool \<times> runtime \<times> dx_trace" where
  "FreeSystemHeapSpace env dv n rt tr =
     (case FreeSvmSpace env dv n (rt_system_start rt) (rt_system_size rt) tr of
        (r, b, s, tr) \<Rightarrow> (r, rt\<lparr>rt_system_start := b, rt_system_size := s\<rparr>, tr))"

section \<open>The handle aperture\<close>

definition IS_OVERLAPPING :: "u64 \<Rightarrow> u64 \<Rightarrow> u64 \<Rightarrow> u64 \<Rightarrow> bool" where
  "IS_OVERLAPPING start1 size1 start2 size2 \<longleftrightarrow> start1 < start2 + size2 \<and> start2 < start1 + size1"

definition START_NON_CANONICAL_ADDR :: u64 where "START_NON_CANONICAL_ADDR = push_bit 47 1"
definition END_NON_CANONICAL_ADDR :: u64 where "END_NON_CANONICAL_ADDR = NOT 0 - push_bit 47 1"

definition aperture_clash :: "wddm_device \<Rightarrow> u64 \<Rightarrow> u64 \<Rightarrow> bool" where
  "aperture_clash d start len \<longleftrightarrow>
     dev_private_aperture_base d \<noteq> 0 \<and>
       IS_OVERLAPPING (dev_private_aperture_base d) (dev_private_aperture_size d) start len \<or>
     dev_shared_aperture_base d \<noteq> 0 \<and>
       IS_OVERLAPPING (dev_shared_aperture_base d) (dev_shared_aperture_size d) start len"

text \<open>
  The loop over the adapters: a clash moves the start up by $2^{47}$ and tries the same adapter
  again. The earlier adapters are not looked at again. A missing device leaves the function with
  \<^verbatim>\<open>return -1\<close>, which is true, and the start as it is.
\<close>

partial_function (option) aperture_loop ::
  "(nat \<Rightarrow> wddm_device option) \<Rightarrow> nat \<Rightarrow> u64 \<Rightarrow> nat \<Rightarrow> u64 \<Rightarrow> u64 option" where
  "aperture_loop dv n len j start =
     (if n \<le> j then Some start
      else case dv (Suc j) of
        None \<Rightarrow> Some start
      | Some d \<Rightarrow>
          if aperture_clash d start len then aperture_loop dv n len j (start + push_bit 47 1)
          else aperture_loop dv n len (Suc j) start)"

definition InitHandleApertureSpace :: "(nat \<Rightarrow> wddm_device option) \<Rightarrow> nat \<Rightarrow> runtime \<Rightarrow> (bool \<times> runtime) option" where
  "InitHandleApertureSpace dv n rt =
     (let len = push_bit 47 1 in
      if START_NON_CANONICAL_ADDR < END_NON_CANONICAL_ADDR - 1 then
        map_option (\<lambda>start. (True, rt\<lparr>rt_aperture_start := start, rt_aperture_size := len\<rparr>))
          (aperture_loop dv n len 0 START_NON_CANONICAL_ADDR)
      else Some (False, rt\<lparr>rt_aperture_start := 0, rt_aperture_size := len\<rparr>))"

section \<open>Managers\<close>

definition InitLocalHeapMgr :: "runtime \<Rightarrow> runtime" where
  "InitLocalHeapMgr rt =
     rt\<lparr>rt_local_mgr := Some (VaMgr (rt_local_start rt) (rt_local_size rt) DEFAULT_GPU_PAGE_SIZE)\<rparr>"

definition InitSystemHeapMgr :: "runtime \<Rightarrow> runtime" where
  "InitSystemHeapMgr rt =
     rt\<lparr>rt_system_mgr := Some (VaMgr (rt_system_start rt) (rt_system_size rt) DEFAULT_GPU_PAGE_SIZE)\<rparr>"

definition InitHandleApertureMgr :: "runtime \<Rightarrow> runtime" where
  "InitHandleApertureMgr rt =
     rt\<lparr>rt_aperture_mgr := Some (VaMgr (rt_aperture_start rt) (rt_aperture_size rt) DEFAULT_GPU_PAGE_SIZE)\<rparr>"

definition HeapInit :: "dx_env \<Rightarrow> (nat \<Rightarrow> wddm_device option) \<Rightarrow> nat \<Rightarrow> runtime \<Rightarrow> dx_trace \<Rightarrow>
    (runtime \<times> dx_trace) res" where
  "HeapInit env dv n rt tr =
     bindE (ReserveLocalHeapSpace env dv n rt tr) (\<lambda>(_, rt, tr).
     bindE (ReserveSystemHeapSpace env dv n rt tr) (\<lambda>(_, rt, tr).
     case InitHandleApertureSpace dv n rt of
       None \<Rightarrow> Inl (Waiting ''InitHandleApertureSpace'')
     | Some (_, rt) \<Rightarrow> Inr (InitHandleApertureMgr (InitSystemHeapMgr (InitLocalHeapMgr rt)), tr)))"

definition HeapFini :: "dx_env \<Rightarrow> (nat \<Rightarrow> wddm_device option) \<Rightarrow> nat \<Rightarrow> runtime \<Rightarrow> dx_trace \<Rightarrow> runtime \<times> dx_trace" where
  "HeapFini env dv n rt tr =
     (case FreeSystemHeapSpace env dv n rt tr of (_, rt, tr) \<Rightarrow>
      case FreeLocalHeapSpace env dv n rt tr of (_, rt, tr) \<Rightarrow> (rt, tr))"

section \<open>Committing memory and handing out addresses\<close>

text \<open>A successful \<^verbatim>\<open>MAP_FIXED\<close> mapping must be where it was asked for; the code asserts it.\<close>

definition mmap_fixed :: "dx_env \<Rightarrow> string \<Rightarrow> u64 \<Rightarrow> u64 \<Rightarrow> mmap_kind \<Rightarrow> dx_trace \<Rightarrow> (bool \<times> dx_trace) res" where
  "mmap_fixed env w addr len kind tr =
     (case dx env (Mmap addr len kind) tr of
        (None, tr) \<Rightarrow> Inr (False, tr)
      | (Some vs, tr) \<Rightarrow> bindE (assertE w (addr = out_arg vs 0)) (\<lambda>_. Inr (True, tr)))"

definition CommitSystemHeapSpace :: "dx_env \<Rightarrow> u64 \<Rightarrow> u64 \<Rightarrow> bool \<Rightarrow> dx_trace \<Rightarrow> (bool \<times> dx_trace) res" where
  "CommitSystemHeapSpace env addr len lock tr =
     bindE (mmap_fixed env ''CommitSystemHeapSpace'' addr len (Map_Commit lock) tr) (\<lambda>(ok, tr).
       if ok then Inr (True, snd (dx env (Madvise_dontfork addr len) tr)) else Inr (False, tr))"

definition DecommitSystemHeapSpace :: "dx_env \<Rightarrow> u64 \<Rightarrow> u64 \<Rightarrow> dx_trace \<Rightarrow> (bool \<times> dx_trace) res" where
  "DecommitSystemHeapSpace env addr len tr =
     mmap_fixed env ''DecommitSystemHeapSpace'' addr len Map_Decommit tr"

definition Runtime_ReserveGpuVirtualAddress :: "dx_env \<Rightarrow> AllocDomain \<Rightarrow> u64 \<Rightarrow> u64 \<Rightarrow> u64 \<Rightarrow> bool \<Rightarrow>
    runtime \<Rightarrow> dx_trace \<Rightarrow> (ErrorCode \<times> u64 \<times> runtime \<times> dx_trace) res" where
  "Runtime_ReserveGpuVirtualAddress env domain hit_base_addr len alignment lock rt tr =
     (let align = (if alignment = 0 then 64 * 1024 else alignment);
          align = (if len \<ge> GPU_HUGE_PAGE_SIZE then GPU_HUGE_PAGE_SIZE else align)
      in if domain = kSystem then
           bindE (the_mgr ''system_heap_mgr_'' (rt_system_mgr rt)) (\<lambda>v.
           bindE (Alloc v len align hit_base_addr) (\<lambda>(v, gpu_addr).
             let code = (if gpu_addr = 0 then OutOfMemory else Success) in
             bindE (CommitSystemHeapSpace env gpu_addr len lock tr) (\<lambda>(ok, tr).
               let v = (if ok then v else Free v gpu_addr);
                   code = (if ok then code else SyscallFail)
               in Inr (code, if code = Success then gpu_addr else 0, rt\<lparr>rt_system_mgr := Some v\<rparr>, tr))))
         else
           bindE (the_mgr ''local_heap_mgr_'' (rt_local_mgr rt)) (\<lambda>v.
           bindE (Alloc v len align hit_base_addr) (\<lambda>(v, gpu_addr).
             let code = (if gpu_addr = 0 then OutOfGpuMemory else Success)
             in Inr (code, if code = Success then gpu_addr else 0, rt\<lparr>rt_local_mgr := Some v\<rparr>, tr))))"

definition Runtime_FreeGpuVirtualAddress :: "dx_env \<Rightarrow> AllocDomain \<Rightarrow> u64 \<Rightarrow> u64 \<Rightarrow> runtime \<Rightarrow> dx_trace \<Rightarrow>
    (ErrorCode \<times> runtime \<times> dx_trace) res" where
  "Runtime_FreeGpuVirtualAddress env domain gpu_addr len rt tr =
     (if domain = kSystem then
        bindE (DecommitSystemHeapSpace env gpu_addr len tr) (\<lambda>(_, tr).
        bindE (the_mgr ''system_heap_mgr_'' (rt_system_mgr rt)) (\<lambda>v.
          Inr (Success, rt\<lparr>rt_system_mgr := Some (Free v gpu_addr)\<rparr>, tr)))
      else
        bindE (the_mgr ''local_heap_mgr_'' (rt_local_mgr rt)) (\<lambda>v.
          Inr (Success, rt\<lparr>rt_local_mgr := Some (Free v gpu_addr)\<rparr>, tr)))"

text \<open>
  Shared system memory for signals: the memory file is created unless the caller brings one. The
  result carries the reference parameter \<^verbatim>\<open>memfd\<close>.
\<close>

definition CommitSystemHeapSpaceIPC :: "dx_env \<Rightarrow> u64 \<Rightarrow> u64 \<Rightarrow> int \<Rightarrow> bool \<Rightarrow> dx_trace \<Rightarrow>
    (bool \<times> int \<times> dx_trace) res" where
  "CommitSystemHeapSpaceIPC env addr len memfd lock tr =
     (case (if memfd = -1 then
              (case dx env Memfd_create tr of
                 (None, tr) \<Rightarrow> (None, tr)
               | (Some vs, tr) \<Rightarrow>
                   let fd = sint (ucast (out_arg vs 0) :: u32)
                   in (Some fd, snd (dx env (Ftruncate fd len) tr)))
            else (Some memfd, tr)) of
        (None, tr) \<Rightarrow> Inr (False, memfd, tr)
      | (Some fd, tr) \<Rightarrow>
          bindE (mmap_fixed env ''CommitSystemHeapSpaceIPC'' addr len (Map_Shared fd lock) tr) (\<lambda>(ok, tr).
            if ok then Inr (True, fd, snd (dx env (Madvise_dontfork addr len) tr))
            else Inr (False, memfd, if memfd = -1 then snd (dx env (Close_fd fd) tr) else tr)))"

definition DecommitSystemHeapSpaceIPC :: "dx_env \<Rightarrow> u64 \<Rightarrow> u64 \<Rightarrow> int \<Rightarrow> dx_trace \<Rightarrow> bool \<times> int \<times> dx_trace" where
  "DecommitSystemHeapSpaceIPC env addr len memfd tr =
     (case dx env (Munmap addr len) tr of
        (None, tr) \<Rightarrow> (False, memfd, tr)
      | (Some _, tr) \<Rightarrow> (True, -1, snd (dx env (Close_fd memfd) tr)))"

definition ReserveIPCSysMem :: "dx_env \<Rightarrow> u64 \<Rightarrow> u64 \<Rightarrow> int \<Rightarrow> bool \<Rightarrow> runtime \<Rightarrow> dx_trace \<Rightarrow>
    (ErrorCode \<times> u64 \<times> int \<times> runtime \<times> dx_trace) res" where
  "ReserveIPCSysMem env len alignment memfd lock rt tr =
     bindE (the_mgr ''system_heap_mgr_'' (rt_system_mgr rt)) (\<lambda>v.
     bindE (Alloc v len alignment 0) (\<lambda>(v, gpu_addr).
       if gpu_addr = 0 then Inr (OutOfMemory, 0, memfd, rt\<lparr>rt_system_mgr := Some v\<rparr>, tr)
       else bindE (CommitSystemHeapSpaceIPC env gpu_addr len memfd lock tr) (\<lambda>(ok, memfd, tr).
              if ok then Inr (Success, gpu_addr, memfd, rt\<lparr>rt_system_mgr := Some v\<rparr>, tr)
              else Inr (SyscallFail, 0, memfd, rt\<lparr>rt_system_mgr := Some (Free v gpu_addr)\<rparr>, tr))))"

definition FreeIPCSysMem :: "dx_env \<Rightarrow> u64 \<Rightarrow> u64 \<Rightarrow> int \<Rightarrow> runtime \<Rightarrow> dx_trace \<Rightarrow>
    (ErrorCode \<times> int \<times> runtime \<times> dx_trace) res" where
  "FreeIPCSysMem env gpu_addr len memfd rt tr =
     (case DecommitSystemHeapSpaceIPC env gpu_addr len memfd tr of (_, memfd, tr) \<Rightarrow>
      bindE (the_mgr ''system_heap_mgr_'' (rt_system_mgr rt)) (\<lambda>v.
        Inr (Success, memfd, rt\<lparr>rt_system_mgr := Some (Free v gpu_addr)\<rparr>, tr)))"

definition HandleApertureAlloc :: "u64 \<Rightarrow> runtime \<Rightarrow> (ErrorCode \<times> u64 \<times> runtime) res" where
  "HandleApertureAlloc len rt =
     (let align = (if len \<ge> GPU_HUGE_PAGE_SIZE then GPU_HUGE_PAGE_SIZE else DEFAULT_GPU_PAGE_SIZE) in
      bindE (the_mgr ''handle_aperture_mgr_'' (rt_aperture_mgr rt)) (\<lambda>v.
      bindE (Alloc v len align 0) (\<lambda>(v, addr).
        Inr (if addr = 0 then OutOfHandleApeMemory else Success, addr, rt\<lparr>rt_aperture_mgr := Some v\<rparr>))))"

definition HandleApertureFree :: "u64 \<Rightarrow> runtime \<Rightarrow> runtime res" where
  "HandleApertureFree gpu_addr rt =
     bindE (the_mgr ''handle_aperture_mgr_'' (rt_aperture_mgr rt)) (\<lambda>v.
       Inr (rt\<lparr>rt_aperture_mgr := Some (Free v gpu_addr)\<rparr>))"

end
