(* ===== verification/Address_Space.thy ===== *)
theory Address_Space
  imports Runtime
begin

text \<open>
  Correctness of the runtime's address space. The trace of system calls determines which
  bytes of the process are mapped; the contracts of the kernel the code relies on are predicates on
  the environment. The reservation of the heaps is shown to leak nothing, the search
  for the handle aperture to end, and the addresses handed out to memory objects to be fresh, with
  the locale \<open>address_provider\<close> as the interface the memory objects use.
\<close>

section \<open>The address space of the process\<close>

text \<open>The bytes a trace of calls leaves mapped.\<close>

definition bytes_at :: "u64 \<Rightarrow> u64 \<Rightarrow> nat set" where
  "bytes_at a len = {unat a ..< unat a + unat len}"

fun mapped_step :: "dx_call \<times> dx_reply \<Rightarrow> nat set \<Rightarrow> nat set" where
  "mapped_step (Mmap a len k, (s, vs)) M = (if s = STATUS_SUCCESS then M \<union> bytes_at (out_arg vs 0) len else M)"
| "mapped_step (Munmap a len, (s, vs)) M = (if s = STATUS_SUCCESS then M - bytes_at a len else M)"
| "mapped_step _ M = M"

definition mapped :: "dx_trace \<Rightarrow> nat set" where
  "mapped tr = fold mapped_step tr {}"

lemma mapped_snoc: "mapped (tr @ [e]) = mapped_step e (mapped tr)"
  by (simp add: mapped_def)

text \<open>
  What the code relies on of \<^verbatim>\<open>mmap\<close>, \<^verbatim>\<open>munmap\<close> and the reservation of GPU addresses: a new mapping is page
  aligned, non-null, inside the lower half of the canonical range and free; a mapping at a fixed
  address is where it was asked for; a page-aligned range can be unmapped; a GPU address lies in the
  range it was asked for and is page aligned.
\<close>

definition new_map_ok :: "dx_env \<Rightarrow> bool" where
  "new_map_ok env \<longleftrightarrow>
     (\<forall>tr len vs. env tr (Mmap 0 len Map_Reserve) = (STATUS_SUCCESS, vs) \<longrightarrow>
        out_arg vs 0 \<noteq> 0 \<and> 4096 dvd unat (out_arg vs 0) \<and> unat (out_arg vs 0) + unat len \<le> 2 ^ 47 \<and>
        bytes_at (out_arg vs 0) len \<inter> mapped tr = {})"

definition fixed_map_ok :: "dx_env \<Rightarrow> bool" where
  "fixed_map_ok env \<longleftrightarrow>
     (\<forall>tr a len k vs. k \<noteq> Map_Reserve \<longrightarrow> env tr (Mmap a len k) = (STATUS_SUCCESS, vs) \<longrightarrow> out_arg vs 0 = a)"

definition unmap_ok :: "dx_env \<Rightarrow> bool" where
  "unmap_ok env \<longleftrightarrow>
     (\<forall>tr a len. 4096 dvd unat a \<longrightarrow> 0 < unat len \<longrightarrow> fst (env tr (Munmap a len)) = STATUS_SUCCESS)"

definition gpu_va_ok :: "dx_env \<Rightarrow> bool" where
  "gpu_va_ok env \<longleftrightarrow>
     (\<forall>tr ad len lo hi vs. env tr (ReserveGpuVA ad len lo hi) = (STATUS_SUCCESS, vs) \<longrightarrow>
        4096 dvd unat (out_arg vs 0) \<and> unat lo \<le> unat (out_arg vs 0) \<and>
        unat (out_arg vs 0) + unat len \<le> unat hi)"

lemma mapped_munmap:
  assumes "unmap_ok env" and "4096 dvd unat a" and "0 < unat len"
  shows "mapped (snd (dx env (Munmap a len) tr)) = mapped tr - bytes_at a len"
proof -
  have "fst (env tr (Munmap a len)) = STATUS_SUCCESS" using assms by (simp add: unmap_ok_def)
  then show ?thesis by (cases "env tr (Munmap a len)") (simp add: dx_trace_step mapped_snoc)
qed

lemma mapped_munmap_any:
  assumes "unmap_ok env" and "4096 dvd unat a"
  shows "mapped (snd (dx env (Munmap a len) tr)) = mapped tr - bytes_at a len"
proof (cases "unat len = 0")
  case True
  then show ?thesis by (cases "env tr (Munmap a len)") (simp add: dx_trace_step mapped_snoc bytes_at_def)
qed (use mapped_munmap [OF assms] in auto)

lemma mapped_munmap_all:
  assumes "unmap_ok env" and "0 < unat len" and "\<forall>a\<in>set vas. a \<noteq> 0 \<and> 4096 dvd unat a"
  shows "mapped (munmap_all env len vas tr) = mapped tr - (\<Union>a\<in>set vas. bytes_at a len)"
  using assms(3)
proof (induction vas arbitrary: tr)
  case Nil
  then show ?case by (simp add: munmap_all_def)
next
  case (Cons a vas)
  have "mapped (munmap_all env len (a # vas) tr) = mapped (munmap_all env len vas (snd (dx env (Munmap a len) tr)))"
    using Cons.prems by (simp add: munmap_all_def)
  also have "\<dots> = mapped tr - bytes_at a len - (\<Union>a\<in>set vas. bytes_at a len)"
    using Cons mapped_munmap [OF assms(1) _ assms(2), of a tr] by simp
  finally show ?case by auto
qed

text \<open>
  After some attempts with one adapter, the process holds what it held before and the ranges of
  the attempts; the address found is inside the last one.
\<close>

definition attempts_inv :: "nat set \<Rightarrow> u64 \<Rightarrow> u64 list \<Rightarrow> dx_trace \<Rightarrow> bool" where
  "attempts_inv M len vas tr \<longleftrightarrow>
     mapped tr = M \<union> (\<Union>a\<in>set vas. bytes_at a len) \<and>
     (\<forall>a\<in>set vas. a \<noteq> 0 \<and> 4096 dvd unat a \<and> unat a + unat len \<le> 2 ^ 47 \<and> bytes_at a len \<inter> M = {}) \<and>
     (vas \<noteq> [] \<longrightarrow> (\<forall>a\<in>set (butlast vas). bytes_at (last vas) len \<inter> bytes_at a len = {}))"

lemma attempts_inv_mmap:
  assumes "new_map_ok env" and "attempts_inv M len vas tr"
    and "dx env (Mmap 0 len Map_Reserve) tr = (Some vs, tr')"
  shows "attempts_inv M len (vas @ [out_arg vs 0]) tr'"
proof -
  from assms(3) have e: "env tr (Mmap 0 len Map_Reserve) = (STATUS_SUCCESS, vs)"
    and tr': "tr' = tr @ [(Mmap 0 len Map_Reserve, (STATUS_SUCCESS, vs))]"
    by (auto simp: dx_Some_iff)
  let ?a = "out_arg vs 0"
  from assms(1) e have a: "?a \<noteq> 0" "4096 dvd unat ?a" "unat ?a + unat len \<le> 2 ^ 47"
    "bytes_at ?a len \<inter> mapped tr = {}" by (auto simp: new_map_ok_def)
  have m: "mapped tr' = mapped tr \<union> bytes_at ?a len" by (simp add: tr' mapped_snoc)
  have "bytes_at ?a len \<inter> M = {}" "\<forall>b\<in>set vas. bytes_at ?a len \<inter> bytes_at b len = {}"
    using a(4) assms(2) by (auto simp: attempts_inv_def)
  with a m assms(2) show ?thesis by (simp add: attempts_inv_def Un_assoc insert_commute) blast
qed

lemma svm_adapters_one:
  assumes "dv 1 = Some d"
  shows "\<exists>vs tr'. svm_adapters env dv 1 0 ptr sz len 0 0 0 tr = Inr (if fst (env tr (ReserveGpuVA (dev_adapter d) len ptr (ptr + sz + 1))) = STATUS_SUCCESS
      then (1, out_arg vs 0, out_arg vs 0, tr') else (0, 0, 0, tr')) \<and>
    vs = snd (env tr (ReserveGpuVA (dev_adapter d) len ptr (ptr + sz + 1))) \<and> mapped tr' = mapped tr"
proof -
  let ?c = "ReserveGpuVA (dev_adapter d) len ptr (ptr + sz + 1)"
  have d: "dv (Suc 0) = Some d" using assms by simp
  have m: "mapped (tr @ [(?c, env tr ?c)]) = mapped tr" by (cases "env tr ?c") (simp add: mapped_snoc)
  have "svm_adapters env dv 1 0 ptr sz len 0 0 0 tr = Inr (if fst (env tr ?c) = STATUS_SUCCESS
      then (1, out_arg (snd (env tr ?c)) 0, out_arg (snd (env tr ?c)) 0, tr @ [(?c, env tr ?c)])
      else (0, 0, 0, tr @ [(?c, env tr ?c)]))"
    unfolding One_nat_def svm_adapters.simps d option.case Let_def d3d_ReserveGpuVirtualAddress_def dxc_def
      prod.case TranslateNtStatus_Success by simp
  with m show ?thesis by blast
qed

lemma page_le_Suc: "4096 dvd x \<Longrightarrow> 4096 dvd y \<Longrightarrow> x \<le> y + 1 \<Longrightarrow> x \<le> (y :: nat)"
  by (elim dvdE) simp

lemma svm_attempts_one:
  assumes env: "new_map_ok env" "gpu_va_ok env" and dv: "dv 1 = Some d"
    and sz: "sz = len + align" "4096 dvd unat len" "4096 dvd unat align" "unat len + unat align \<le> 2 ^ 47"
    and inv: "attempts_inv M sz vas tr"
  shows "\<exists>found vas' base tr'. svm_attempts env dv 1 k sz len 0 vas tr = Inr (found, vas', base, tr') \<and>
    attempts_inv M sz vas' tr' \<and>
    (case found of None \<Rightarrow> base = 0
     | Some a \<Rightarrow> vas' \<noteq> [] \<and> base = a \<and> 4096 dvd unat a \<and> unat (last vas') \<le> unat a \<and>
         unat a + unat len \<le> unat (last vas') + unat sz)"
  using inv
proof (induction k arbitrary: vas tr)
  case 0
  then show ?case by auto
next
  case (Suc k)
  show ?case
  proof (cases "dx env (Mmap 0 sz Map_Reserve) tr")
    case (Pair r tr1)
    show ?thesis
    proof (cases r)
      case None
      have "mapped tr1 = mapped tr"
        using Pair None by (cases "env tr (Mmap 0 sz Map_Reserve)") (auto simp: dx_None_iff mapped_snoc)
      with Pair None Suc.prems show ?thesis by (auto simp: attempts_inv_def)
    next
      case (Some vs)
      let ?p = "out_arg vs 0"
      from Pair Some have mm: "dx env (Mmap 0 sz Map_Reserve) tr = (Some vs, tr1)" by simp
      from attempts_inv_mmap [OF env(1) Suc.prems mm] have i1: "attempts_inv M sz (vas @ [?p]) tr1" .
      obtain ws tr2 where ad: "svm_adapters env dv 1 0 ?p sz len 0 0 0 tr1 =
          Inr (if fst (env tr1 (ReserveGpuVA (dev_adapter d) len ?p (?p + sz + 1))) = STATUS_SUCCESS
            then (1, out_arg ws 0, out_arg ws 0, tr2) else (0, 0, 0, tr2))"
        "ws = snd (env tr1 (ReserveGpuVA (dev_adapter d) len ?p (?p + sz + 1)))" "mapped tr2 = mapped tr1"
        using svm_adapters_one [of dv d env ?p sz len tr1] dv by blast
      have i2: "attempts_inv M sz (vas @ [?p]) tr2" using i1 ad(3) by (simp add: attempts_inv_def)
      show ?thesis
      proof (cases "fst (env tr1 (ReserveGpuVA (dev_adapter d) len ?p (?p + sz + 1))) = STATUS_SUCCESS")
        case False
        with ad mm Suc.IH [OF i2] show ?thesis by simp
      next
        case True
        let ?a = "out_arg ws 0"
        from True ad(2) env(2) have a: "4096 dvd unat ?a" "unat ?p \<le> unat ?a"
          "unat ?a + unat len \<le> unat (?p + sz + 1)"
          by (auto simp: gpu_va_ok_def) (metis prod.collapse)+
        have p: "4096 dvd unat ?p" "unat ?p + unat sz \<le> 2 ^ 47" using i1 by (auto simp: attempts_inv_def)
        have szu: "unat sz = unat len + unat align" using sz by (simp add: unat_add64)
        have "unat (?p + sz) = unat ?p + unat sz" using p by (simp add: unat_add64)
        then have "unat (?p + sz + 1) = unat ?p + unat sz + 1" using p by (simp add: unat_add64)
        with a(3) have "unat ?a + unat len \<le> unat ?p + unat sz + 1" by simp
        moreover have "4096 dvd unat ?a + unat len" by (rule dvd_add [OF a(1) sz(2)])
        moreover have "4096 dvd unat ?p + unat sz" unfolding szu by (intro dvd_add p(1) sz(2,3))
        ultimately have "unat ?a + unat len \<le> unat ?p + unat sz" by (metis page_le_Suc)
        moreover have "svm_attempts env dv 1 (Suc k) sz len 0 vas tr = Inr (Some ?a, vas @ [?p], ?a, tr2)"
          using True ad(1) mm by (simp del: svm_adapters.simps One_nat_def add: Let_def)
        ultimately show ?thesis using a(1,2) i2 by (intro exI [of _ "Some ?a"]) auto
      qed
    qed
  qed
qed

lemma trim_range:
  fixes ptr a len sz align :: u64
  assumes "unat ptr \<le> unat a" and "unat a + unat len \<le> unat ptr + unat sz" and "unat sz = unat len + unat align"
    and "unat ptr + unat sz \<le> 2 ^ 47"
  shows "unat (a - ptr) = unat a - unat ptr" and "unat (align - (a - ptr)) = unat ptr + unat sz - (unat a + unat len)"
    and "unat (a + len) = unat a + unat len"
proof -
  show l: "unat (a - ptr) = unat a - unat ptr" using assms(1) by (simp add: unat_sub64)
  have "unat (a - ptr) \<le> unat align" using assms l by simp
  then show "unat (align - (a - ptr)) = unat ptr + unat sz - (unat a + unat len)"
    using assms l by (simp add: unat_sub64)
  show "unat (a + len) = unat a + unat len" using assms by (simp add: unat_add64)
qed

lemma mapped_trim:
  fixes ptr a len sz align :: u64
  assumes um: "unmap_ok env" and d: "4096 dvd unat a" "4096 dvd unat ptr" "4096 dvd unat len"
    and r: "unat ptr \<le> unat a" "unat a + unat len \<le> unat ptr + unat sz" "unat sz = unat len + unat align"
      "unat ptr + unat sz \<le> 2 ^ 47"
  shows "mapped (let left_size = a - ptr; right_size = align - left_size;
        tr = (if left_size > 0 then snd (dx env (Munmap ptr left_size) tr) else tr)
      in (if right_size > 0 then snd (dx env (Munmap (a + len) right_size) tr) else tr)) =
    mapped tr - {unat ptr ..< unat a} - {unat a + unat len ..< unat ptr + unat sz}"
proof -
  note t = trim_range [OF r]
  have "4096 dvd unat (a + len)" using t(3) d by simp
  have L: "mapped (if a - ptr > 0 then snd (dx env (Munmap ptr (a - ptr)) tr) else tr) = mapped tr - {unat ptr ..< unat a}"
    if "True" for tr
    using mapped_munmap [OF um d(2), of "a - ptr" tr] t(1) r(1)
    by (auto simp: word_less_nat_alt bytes_at_def word_neq_0_conv)
  have R: "mapped (if align - (a - ptr) > 0 then snd (dx env (Munmap (a + len) (align - (a - ptr))) tr) else tr) =
      mapped tr - {unat a + unat len ..< unat ptr + unat sz}" if "True" for tr
    using mapped_munmap [OF um \<open>4096 dvd unat (a + len)\<close>, of "align - (a - ptr)" tr] t(2,3) r(1,2)
    by (auto simp: word_less_nat_alt bytes_at_def word_neq_0_conv)
  show ?thesis unfolding Let_def using L R by simp
qed


lemma set_trim:
  assumes "B \<inter> P = {}" and "B \<inter> M = {}" and "P \<inter> M = {}" and "L \<subseteq> P" and "R \<subseteq> P" and "P - L - R = A"
  shows "M \<union> (P \<union> B) - L - R - B = M \<union> A"
  using assms by blast

lemma release_attempts:
  fixes a len sz align :: u64
  assumes um: "unmap_ok env" and inv: "attempts_inv M sz vas tr" and ne: "vas \<noteq> []"
    and d: "4096 dvd unat a" "4096 dvd unat len"
    and r: "unat (last vas) \<le> unat a" "unat a + unat len \<le> unat (last vas) + unat sz"
      "unat sz = unat len + unat align" "0 < unat sz"
  shows "mapped (munmap_all env sz (butlast vas) (let left_size = a - last vas; right_size = align - left_size;
        tr = (if left_size > 0 then snd (dx env (Munmap (last vas) left_size) tr) else tr)
      in (if right_size > 0 then snd (dx env (Munmap (a + len) right_size) tr) else tr))) =
    M \<union> bytes_at a len" and "bytes_at a len \<inter> M = {}"
proof -
  let ?p = "last vas"
  have p: "4096 dvd unat ?p" "unat ?p + unat sz \<le> 2 ^ 47" "bytes_at ?p sz \<inter> M = {}"
    using inv last_in_set [OF ne] unfolding attempts_inv_def by blast+
  have bl: "\<forall>a\<in>set (butlast vas). a \<noteq> 0 \<and> 4096 dvd unat a"
    using inv by (auto simp: attempts_inv_def dest: in_set_butlastD)
  have dj: "\<forall>b\<in>set (butlast vas). bytes_at ?p sz \<inter> bytes_at b sz = {} \<and> bytes_at b sz \<inter> M = {}"
    using inv ne by (auto simp: attempts_inv_def dest: in_set_butlastD)
  have vs: "set vas = insert ?p (set (butlast vas))"
    using ne by (metis append_butlast_last_id list.simps(15) rotate1.simps(2) set_rotate1)
  have sub: "bytes_at a len \<subseteq> bytes_at ?p sz" "{unat ?p ..< unat a} \<subseteq> bytes_at ?p sz"
    "{unat a + unat len ..< unat ?p + unat sz} \<subseteq> bytes_at ?p sz"
    using r by (auto simp: bytes_at_def)
  have cut: "bytes_at ?p sz - {unat ?p ..< unat a} - {unat a + unat len ..< unat ?p + unat sz} = bytes_at a len"
    using r by (auto simp: bytes_at_def)
  have m: "mapped tr = M \<union> (bytes_at ?p sz \<union> (\<Union>a\<in>set (butlast vas). bytes_at a sz))"
    using inv vs by (simp add: attempts_inv_def)
  from sub p(3) show "bytes_at a len \<inter> M = {}" by blast
  show "mapped (munmap_all env sz (butlast vas) (let left_size = a - last vas; right_size = align - left_size;
        tr = (if left_size > 0 then snd (dx env (Munmap (last vas) left_size) tr) else tr)
      in (if right_size > 0 then snd (dx env (Munmap (a + len) right_size) tr) else tr))) = M \<union> bytes_at a len"
    unfolding mapped_munmap_all [OF um r(4) bl] mapped_trim [OF um d(1) p(1) d(2) r(1-3) p(2)]
    unfolding m by (rule set_trim [OF _ _ p(3) sub(2,3) cut]) (use dj in blast)+
qed

lemma ReserveSvmSpace_one:
  assumes env: "new_map_ok env" "unmap_ok env" "gpu_va_ok env" and dv: "dv 1 = Some d"
    and len: "0 < unat len" "4096 dvd unat len" "4096 dvd unat align" "unat len + unat align \<le> 2 ^ 47"
  shows "\<exists>ok base len' tr'. ReserveSvmSpace env dv 1 len align tr = Inr (ok, base, len', tr') \<and>
    (if ok then base \<noteq> 0 \<and> len' = len \<and> 4096 dvd unat base \<and> unat base + unat len \<le> 2 ^ 47 \<and>
       bytes_at base len \<inter> mapped tr = {} \<and> mapped tr' = mapped tr \<union> bytes_at base len
     else base = 0 \<and> len' = 0 \<and> mapped tr' = mapped tr)"
proof -
  let ?sz = "len + align"
  have sz: "unat ?sz = unat len + unat align" using len(4) by (simp add: unat_add64)
  have pos: "0 < unat ?sz" using sz len(1) by simp
  have "attempts_inv (mapped tr) ?sz [] tr" by (simp add: attempts_inv_def)
  from svm_attempts_one [where dv = dv and k = 16, OF env(1,3) dv refl len(2-4) this]
  obtain found vas base tr1 where
    at: "svm_attempts env dv 1 16 ?sz len 0 [] tr = Inr (found, vas, base, tr1)"
    and inv: "attempts_inv (mapped tr) ?sz vas tr1"
    and fnd: "case found of None \<Rightarrow> base = 0
      | Some a \<Rightarrow> vas \<noteq> [] \<and> base = a \<and> 4096 dvd unat a \<and> unat (last vas) \<le> unat a \<and>
         unat a + unat len \<le> unat (last vas) + unat ?sz"
    by blast
  show ?thesis
  proof (cases found)
    case None
    have "\<forall>a\<in>set vas. a \<noteq> 0 \<and> 4096 dvd unat a" using inv by (simp add: attempts_inv_def)
    with mapped_munmap_all [OF env(2) pos, of vas tr1] inv
    have "mapped (munmap_all env ?sz vas tr1) = mapped tr" by (auto simp: attempts_inv_def)
    with at None show ?thesis by (auto simp: ReserveSvmSpace_def Let_def)
  next
    case (Some a)
    from fnd Some have f: "vas \<noteq> []" "base = a" "4096 dvd unat a" "unat (last vas) \<le> unat a"
      "unat a + unat len \<le> unat (last vas) + unat ?sz" by auto
    have p: "last vas \<noteq> 0" "unat (last vas) + unat ?sz \<le> 2 ^ 47"
      using inv last_in_set [OF f(1)] unfolding attempts_inv_def by blast+
    note rel = release_attempts [OF env(2) inv f(1,3) len(2) f(4,5) sz pos]
    have "a \<noteq> 0" using p(1) f(4) by (auto simp: unat_eq_0)
    moreover have "unat a + unat len \<le> 2 ^ 47" using f(5) p(2) by simp
    moreover have "ReserveSvmSpace env dv 1 len align tr = Inr (True, a, len,
        munmap_all env ?sz (butlast vas) (let left_size = a - last vas; right_size = align - left_size;
          tr = (if left_size > 0 then snd (dx env (Munmap (last vas) left_size) tr1) else tr1)
        in (if right_size > 0 then snd (dx env (Munmap (a + len) right_size) tr) else tr)))"
      using at Some f(2) by (simp add: ReserveSvmSpace_def Let_def)
    ultimately show ?thesis using f(3) rel by (intro exI [of _ True]) auto
  qed
qed

section \<open>The handle aperture\<close>

text \<open>
  Each clash moves the start up by $2^{47}$; the highest multiple of $2^{47}$ clashes with nothing,
  because its end wraps to 0, so the search always ends.
\<close>

lemma aperture_loop_returns:
  assumes "\<exists>k. 0 < k \<and> k < 131072 \<and> unat start = k * 2 ^ 47"
  shows "\<exists>s. aperture_loop dv n (push_bit 47 1) j start = Some s"
  using assms
proof (induction "(131072 - unat start div 2 ^ 47) + (n - j)" arbitrary: j start rule: less_induct)
  case less
  then obtain k where k: "0 < k" "k < 131072" "unat start = k * 2 ^ 47" by blast
  show ?case
  proof (cases "n \<le> j \<or> dv (Suc j) = None")
    case True
    then show ?thesis by (subst aperture_loop.simps) auto
  next
    case False
    then obtain d where d: "dv (Suc j) = Some d" and j: "j < n" by auto
    show ?thesis
    proof (cases "aperture_clash d start (push_bit 47 1)")
      case True
      have "k \<noteq> 131071"
      proof
        assume "k = 131071"
        then have "start = 0xFFFF800000000000" using k(3) by (simp add: word_unat_eq_iff)
        then have "start + push_bit 47 1 = 0" by simp
        with True show False by (simp add: aperture_clash_def IS_OVERLAPPING_def)
      qed
      then have u: "unat (start + push_bit 47 1) = Suc k * 2 ^ 47"
        using k by (simp add: unat_add64 push_bit_eq_mult)
      have "\<exists>s. aperture_loop dv n (push_bit 47 1) j (start + push_bit 47 1) = Some s"
      proof (rule less.hyps)
        show "131072 - unat (start + push_bit 47 1) div 2 ^ 47 + (n - j) < 131072 - unat start div 2 ^ 47 + (n - j)"
          unfolding u k(3) using k(2) by simp
        show "\<exists>k'. 0 < k' \<and> k' < 131072 \<and> unat (start + push_bit 47 1) = k' * 2 ^ 47"
          using u k \<open>k \<noteq> 131071\<close> by (intro exI [of _ "Suc k"]) simp
      qed
      with True d j show ?thesis by (subst aperture_loop.simps) simp
    next
      case False
      have "\<exists>s. aperture_loop dv n (push_bit 47 1) (Suc j) start = Some s"
        using less.hyps [of start "Suc j"] less.prems j by simp
      with False d j show ?thesis by (subst aperture_loop.simps) simp
    qed
  qed
qed


definition same_apertures :: "wddm_device \<Rightarrow> wddm_device \<Rightarrow> bool" where
  "same_apertures d d' \<longleftrightarrow>
     dev_private_aperture_base d' = dev_private_aperture_base d \<and>
     dev_private_aperture_size d' = dev_private_aperture_size d \<and>
     dev_shared_aperture_base d' = dev_shared_aperture_base d \<and>
     dev_shared_aperture_size d' = dev_shared_aperture_size d"

definition apertures_below :: "nat \<Rightarrow> wddm_device \<Rightarrow> bool" where
  "apertures_below b d \<longleftrightarrow>
     unat (dev_private_aperture_base d) + unat (dev_private_aperture_size d) \<le> b \<and>
     unat (dev_shared_aperture_base d) + unat (dev_shared_aperture_size d) \<le> b"

lemma same_apertures_clash: "same_apertures d d' \<Longrightarrow> aperture_clash d' s len = aperture_clash d s len"
  by (simp add: same_apertures_def aperture_clash_def)

lemma clash_below:
  assumes "aperture_clash d start len" and "apertures_below b d" and "b < 2 ^ 64"
  shows "unat start < b"
  using assms
  by (auto simp: aperture_clash_def IS_OVERLAPPING_def apertures_below_def word_less_nat_alt unat_add64)

lemma aperture_loop_clear:
  assumes "\<forall>i<n. \<exists>d'. dv (Suc i) = Some d' \<and> same_apertures d d'" and "\<not> aperture_clash d start len"
  shows "aperture_loop dv n len j start = Some start"
  using assms
proof (induction "n - j" arbitrary: j)
  case 0
  then show ?case by (subst aperture_loop.simps) simp
next
  case (Suc m)
  then obtain d' where "dv (Suc j) = Some d'" "same_apertures d d'" by (metis zero_less_Suc zero_less_diff)
  with Suc.prems Suc.hyps(1) [of "Suc j"] Suc.hyps(2) show ?case
    by (subst aperture_loop.simps) (simp add: same_apertures_clash)
qed

lemma aperture_loop_search:
  assumes same: "\<forall>i<n. \<exists>d'. dv (Suc i) = Some d' \<and> same_apertures d d'" and n: "0 < n"
    and b: "apertures_below b d" "b \<le> 2 ^ 64 - 2 ^ 48"
    and start: "2 ^ 47 \<le> unat start" "unat start \<le> b + 2 ^ 47"
  shows "\<exists>s. aperture_loop dv n (push_bit 47 1) 0 start = Some s \<and> \<not> aperture_clash d s (push_bit 47 1) \<and>
    2 ^ 47 \<le> unat s \<and> unat s \<le> b + 2 ^ 47"
  using start
proof (induction "b + 2 ^ 47 - unat start" arbitrary: start rule: less_induct)
  case less
  show ?case
  proof (cases "aperture_clash d start (push_bit 47 1)")
    case False
    with less.prems aperture_loop_clear [OF same False] show ?thesis by auto
  next
    case True
    have lt: "unat start < b" using clash_below [OF True b(1)] b(2) by simp
    then have u: "unat (start + push_bit 47 1) = unat start + 2 ^ 47"
      using b(2) by (simp add: unat_add64 push_bit_eq_mult)
    obtain d' where "dv (Suc 0) = Some d'" "same_apertures d d'" using same n by blast
    with True n have "aperture_loop dv n (push_bit 47 1) 0 start =
        aperture_loop dv n (push_bit 47 1) 0 (start + push_bit 47 1)"
      by (subst aperture_loop.simps) (simp add: same_apertures_clash)
    moreover have "b + 2 ^ 47 - unat (start + push_bit 47 1) < b + 2 ^ 47 - unat start"
      "2 ^ 47 \<le> unat (start + push_bit 47 1)" "unat (start + push_bit 47 1) \<le> b + 2 ^ 47"
      using u lt by simp_all
    ultimately show ?thesis using less.hyps [of "start + push_bit 47 1"] by simp
  qed
qed

lemma not_overlapping_bytes:
  assumes "\<not> IS_OVERLAPPING a n b m" and "unat a + unat n < 2 ^ 64" and "unat b + unat m < 2 ^ 64"
  shows "bytes_at a n \<inter> bytes_at b m = {}"
  using assms by (auto simp: IS_OVERLAPPING_def bytes_at_def word_less_nat_alt unat_add64)

definition clear_of_apertures :: "wddm_device \<Rightarrow> u64 \<Rightarrow> u64 \<Rightarrow> bool" where
  "clear_of_apertures d start len \<longleftrightarrow>
     (dev_private_aperture_base d \<noteq> 0 \<longrightarrow>
        bytes_at (dev_private_aperture_base d) (dev_private_aperture_size d) \<inter> bytes_at start len = {}) \<and>
     (dev_shared_aperture_base d \<noteq> 0 \<longrightarrow>
        bytes_at (dev_shared_aperture_base d) (dev_shared_aperture_size d) \<inter> bytes_at start len = {})"

lemma InitHandleApertureSpace_search:
  assumes "\<forall>i<n. \<exists>d'. dv (Suc i) = Some d' \<and> same_apertures d d'" and "0 < n"
    and b: "apertures_below (2 ^ 63) d"
  shows "\<exists>start. InitHandleApertureSpace dv n rt =
      Some (True, rt\<lparr>rt_aperture_start := start, rt_aperture_size := push_bit 47 1\<rparr>) \<and>
    2 ^ 47 \<le> unat start \<and> unat start + 2 ^ 47 < 2 ^ 64 \<and> clear_of_apertures d start (push_bit 47 1)"
proof -
  from aperture_loop_search [OF assms, of START_NON_CANONICAL_ADDR] obtain s where
    s: "aperture_loop dv n (push_bit 47 1) 0 START_NON_CANONICAL_ADDR = Some s"
      "\<not> aperture_clash d s (push_bit 47 1)" "2 ^ 47 \<le> unat s" "unat s \<le> 2 ^ 63 + 2 ^ 47"
    by (auto simp: START_NON_CANONICAL_ADDR_def push_bit_eq_mult)
  have fits: "unat s + unat (push_bit 47 1 :: u64) < 2 ^ 64" using s(4) by (simp add: push_bit_eq_mult)
  have clear: "clear_of_apertures d s (push_bit 47 1)"
    using s(2) b unfolding aperture_clash_def clear_of_apertures_def
    by (intro conjI impI not_overlapping_bytes [OF _ _ fits]) (simp_all add: apertures_below_def)
  have "START_NON_CANONICAL_ADDR < END_NON_CANONICAL_ADDR - 1"
    by (simp add: START_NON_CANONICAL_ADDR_def END_NON_CANONICAL_ADDR_def)
  then have "InitHandleApertureSpace dv n rt =
      Some (True, rt\<lparr>rt_aperture_start := s, rt_aperture_size := push_bit 47 1\<rparr>)"
    using s(1) unfolding InitHandleApertureSpace_def Let_def by simp
  with clear s(3,4) show ?thesis by (intro exI [of _ s]) simp
qed


section \<open>Handing out addresses\<close>

definition mgr_ok :: "nat \<times> nat \<Rightarrow> va_mgr option \<Rightarrow> bool" where
  "mgr_ok r m \<longleftrightarrow> (\<exists>v. m = Some v \<and> va_state (fst r) (snd r) DEFAULT_GPU_PAGE_SIZE v)"

definition mgr_live :: "va_mgr option \<Rightarrow> u64 \<rightharpoonup> u64" where
  "mgr_live m = (case m of None \<Rightarrow> Map.empty | Some v \<Rightarrow> va_live v)"

definition rt_mgr :: "AllocDomain \<Rightarrow> runtime \<Rightarrow> va_mgr option" where
  "rt_mgr domain rt = (if domain = kSystem then rt_system_mgr rt else rt_local_mgr rt)"

definition set_mgr :: "AllocDomain \<Rightarrow> va_mgr option \<Rightarrow> runtime \<Rightarrow> runtime" where
  "set_mgr domain m rt = (if domain = kSystem then rt\<lparr>rt_system_mgr := m\<rparr> else rt\<lparr>rt_local_mgr := m\<rparr>)"

definition va_request :: "u64 \<Rightarrow> u64 \<Rightarrow> bool" where
  "va_request len align \<longleftrightarrow> 0 < unat len \<and> unat len + unat align + 4096 \<le> 2 ^ 64"

definition heap_align :: "u64 \<Rightarrow> u64 \<Rightarrow> u64" where
  "heap_align len alignment =
     (if len \<ge> GPU_HUGE_PAGE_SIZE then GPU_HUGE_PAGE_SIZE else if alignment = 0 then 64 * 1024 else alignment)"

text \<open>What a manager gives a client that names no address: a fresh range, or nothing.\<close>

lemma Alloc_any:
  assumes "va_state lo hi DEFAULT_GPU_PAGE_SIZE v" and "va_request len align"
  shows "\<exists>v' a. Alloc v len align 0 = Inr (v', a) \<and> va_state lo hi DEFAULT_GPU_PAGE_SIZE v' \<and>
    (if a = 0 then v' = v
     else va_live v a = None \<and> va_live v' = (va_live v)(a \<mapsto> len) \<and> (align \<noteq> 0 \<longrightarrow> unat align dvd unat a))"
proof -
  have "va_ok DEFAULT_GPU_PAGE_SIZE len align" using assms(2) by (simp add: va_request_def va_ok_def)
  from va.alloc_law [OF assms(1) this] show ?thesis by (simp add: Alloc_def)
qed

lemma Free_any:
  assumes "va_state lo hi g v"
  shows "va_state lo hi g (Free v a)" and "va_live (Free v a) = (va_live v)(a := None)"
  using va.free_law [OF assms] by auto

lemma Alloc_undo:
  assumes "va_state lo hi g v'" and "if a = 0 then v' = v else va_live v a = None \<and> va_live v' = (va_live v)(a \<mapsto> len) \<and> P"
  shows "va_live (Free v' a) = va_live v"
proof (cases "a = 0")
  case True
  with assms(2) show ?thesis by (simp add: Free_def)
next
  case False
  with assms(2) Free_any(2) [OF assms(1), of a] show ?thesis by (simp add: fun_upd_idem)
qed

lemma mmap_fixed_eq:
  assumes "fixed_map_ok env" and "k \<noteq> Map_Reserve"
  shows "mmap_fixed env w a len k tr =
    Inr (fst (env tr (Mmap a len k)) = STATUS_SUCCESS, tr @ [(Mmap a len k, env tr (Mmap a len k))])"
proof (cases "env tr (Mmap a len k)")
  case (Pair s vs)
  then have "s = STATUS_SUCCESS \<Longrightarrow> out_arg vs 0 = a" using assms by (auto simp: fixed_map_ok_def)
  with Pair show ?thesis by (simp add: mmap_fixed_def dx_def dxc_def Let_def)
qed

lemma CommitSystemHeapSpace_result:
  assumes "fixed_map_ok env"
  shows "\<exists>ok tr'. CommitSystemHeapSpace env addr len lock tr = Inr (ok, tr') \<and>
    (ok \<longrightarrow> (\<exists>vs. (Mmap addr len (Map_Commit lock), (STATUS_SUCCESS, vs)) \<in> set tr'))"
  by (cases "env tr (Mmap addr len (Map_Commit lock))")
    (auto simp: CommitSystemHeapSpace_def mmap_fixed_eq [OF assms] dx_trace_step)

lemma Runtime_Reserve_post:
  assumes env: "fixed_map_ok env" and m: "mgr_ok r (rt_mgr domain rt)"
    and rq: "va_request len (heap_align len alignment)"
  shows "\<exists>code a m' tr'.
    Runtime_ReserveGpuVirtualAddress env domain 0 len alignment lock rt tr = Inr (code, a, set_mgr domain m' rt, tr') \<and>
    mgr_ok r m' \<and>
    (if code = Success then a \<noteq> 0 \<and> mgr_live (rt_mgr domain rt) a = None \<and>
       mgr_live m' = (mgr_live (rt_mgr domain rt))(a \<mapsto> len) \<and> unat (heap_align len alignment) dvd unat a \<and>
       (domain = kSystem \<longrightarrow> (\<exists>vs. (Mmap a len (Map_Commit lock), (STATUS_SUCCESS, vs)) \<in> set tr'))
     else a = 0 \<and> mgr_live m' = mgr_live (rt_mgr domain rt))"
proof -
  from m obtain v where v: "rt_mgr domain rt = Some v" "va_state (fst r) (snd r) DEFAULT_GPU_PAGE_SIZE v"
    by (auto simp: mgr_ok_def)
  have al: "heap_align len alignment \<noteq> 0" by (simp add: heap_align_def)
  from Alloc_any [OF v(2) rq] obtain v' a where
    a: "Alloc v len (heap_align len alignment) 0 = Inr (v', a)" "va_state (fst r) (snd r) DEFAULT_GPU_PAGE_SIZE v'"
      "if a = 0 then v' = v else va_live v a = None \<and> va_live v' = (va_live v)(a \<mapsto> len) \<and>
         (heap_align len alignment \<noteq> 0 \<longrightarrow> unat (heap_align len alignment) dvd unat a)" by blast
  have al_eq: "(if GPU_HUGE_PAGE_SIZE \<le> len then GPU_HUGE_PAGE_SIZE else if alignment = 0 then 64 * 1024 else alignment) =
      heap_align len alignment" by (simp add: heap_align_def)
  show ?thesis
  proof (cases "domain = kSystem")
    case True
    from CommitSystemHeapSpace_result [OF env] obtain ok tr' where
      c: "CommitSystemHeapSpace env a len lock tr = Inr (ok, tr')"
        "ok \<longrightarrow> (\<exists>vs. (Mmap a len (Map_Commit lock), (STATUS_SUCCESS, vs)) \<in> set tr')" by blast
    let ?v = "if ok then v' else Free v' a" and ?code = "if \<not> ok then SyscallFail else if a = 0 then OutOfMemory else Success"
    have run: "Runtime_ReserveGpuVirtualAddress env domain 0 len alignment lock rt tr =
        Inr (?code, if ?code = Success then a else 0, set_mgr domain (Some ?v) rt, tr')"
      using True v(1) a(1) c(1) unfolding Runtime_ReserveGpuVirtualAddress_def Let_def al_eq
      by (simp add: rt_mgr_def set_mgr_def the_mgr_def)
    have st: "mgr_ok r (Some ?v)" using a(2) Free_any(1) [OF a(2)] by (simp add: mgr_ok_def)
    note undo = Alloc_undo [OF a(2,3)]
    show ?thesis
      using run st a(3) c(2) al v(1) True undo by (intro exI [of _ ?code] exI [of _ "if ?code = Success then a else 0"] exI [of _ "Some ?v"] exI [of _ tr'])
        (auto simp: mgr_live_def split: if_splits)
  next
    case False
    let ?code = "if a = 0 then OutOfGpuMemory else Success"
    have run: "Runtime_ReserveGpuVirtualAddress env domain 0 len alignment lock rt tr =
        Inr (?code, a, set_mgr domain (Some v') rt, tr)"
      using False v(1) a(1) unfolding Runtime_ReserveGpuVirtualAddress_def Let_def al_eq
      by (simp add: rt_mgr_def set_mgr_def the_mgr_def)
    then show ?thesis
      using a al v(1) False by (intro exI [of _ ?code] exI [of _ a] exI [of _ "Some v'"] exI [of _ tr])
        (auto simp: mgr_live_def mgr_ok_def split: if_splits)
  qed
qed


lemma Runtime_Free_post:
  assumes env: "fixed_map_ok env" and m: "mgr_ok r (rt_mgr domain rt)"
  shows "\<exists>m' tr'. Runtime_FreeGpuVirtualAddress env domain a len rt tr = Inr (Success, set_mgr domain m' rt, tr') \<and>
    mgr_ok r m' \<and> mgr_live m' = (mgr_live (rt_mgr domain rt))(a := None)"
proof -
  from m obtain v where v: "rt_mgr domain rt = Some v" "va_state (fst r) (snd r) DEFAULT_GPU_PAGE_SIZE v"
    by (auto simp: mgr_ok_def)
  with Free_any [OF v(2), of a] have "mgr_ok r (Some (Free v a))"
    "mgr_live (Some (Free v a)) = (mgr_live (rt_mgr domain rt))(a := None)"
    by (simp_all add: mgr_ok_def mgr_live_def)
  moreover have "\<exists>tr'. Runtime_FreeGpuVirtualAddress env domain a len rt tr = Inr (Success, set_mgr domain (Some (Free v a)) rt, tr')"
    using v(1) by (auto simp: Runtime_FreeGpuVirtualAddress_def DecommitSystemHeapSpace_def mmap_fixed_eq [OF env]
        rt_mgr_def set_mgr_def the_mgr_def split: if_splits)
  ultimately show ?thesis by blast
qed

lemma rt_mgr_set [simp]:
  "rt_mgr domain (set_mgr domain m rt) = m"
  "rt_aperture_mgr (set_mgr domain m rt) = rt_aperture_mgr rt"
  by (simp_all add: rt_mgr_def set_mgr_def)

text \<open>
  The contract the memory objects rely on: a reservation adds one fresh range or nothing, a
  release takes it away, and neither faults. A client that gives back what it got leaves the
  ranges in use as it found them.
\<close>

locale address_provider =
  fixes inv :: "'s \<Rightarrow> bool"
    and live :: "'s \<Rightarrow> u64 \<rightharpoonup> u64"
    and ok :: "u64 \<Rightarrow> u64 \<Rightarrow> bool"
    and reserve :: "u64 \<Rightarrow> u64 \<Rightarrow> bool \<Rightarrow> 's \<Rightarrow> dx_trace \<Rightarrow> (ErrorCode \<times> u64 \<times> 's \<times> dx_trace) res"
    and release :: "u64 \<Rightarrow> u64 \<Rightarrow> 's \<Rightarrow> dx_trace \<Rightarrow> (ErrorCode \<times> 's \<times> dx_trace) res"
  assumes reserve_law: "inv s \<Longrightarrow> ok len align \<Longrightarrow>
      \<exists>code a s' tr'. reserve len align lock s tr = Inr (code, a, s', tr') \<and> inv s' \<and>
        (if code = Success then a \<noteq> 0 \<and> live s a = None \<and> live s' = (live s)(a \<mapsto> len)
         else a = 0 \<and> live s' = live s)"
    and release_law: "inv s \<Longrightarrow>
      \<exists>s' tr'. release a len s tr = Inr (Success, s', tr') \<and> inv s' \<and> live s' = (live s)(a := None)"
begin

lemma reserve_release:
  assumes "inv s" and "ok len align" and "reserve len align lock s tr = Inr (Success, a, s1, tr1)"
  shows "\<exists>s2 tr2. release a len s1 tr1 = Inr (Success, s2, tr2) \<and> inv s2 \<and> live s2 = live s"
proof -
  from reserve_law [OF assms(1,2), of lock tr] assms(3)
  have "inv s1" "live s a = None" "live s1 = (live s)(a \<mapsto> len)" by auto
  with release_law [OF this(1), of a len tr1] show ?thesis by (auto simp: fun_upd_idem)
qed

end

interpretation heap: address_provider
  "\<lambda>rt. fixed_map_ok env \<and> mgr_ok r (rt_mgr domain rt)" "\<lambda>rt. mgr_live (rt_mgr domain rt)"
  "\<lambda>len align. va_request len (heap_align len align)"
  "Runtime_ReserveGpuVirtualAddress env domain 0" "Runtime_FreeGpuVirtualAddress env domain" for env r domain
proof unfold_locales
  fix rt len align lock tr
  assume "fixed_map_ok env \<and> mgr_ok r (rt_mgr domain rt)" "va_request len (heap_align len align)"
  with Runtime_Reserve_post [of env r domain rt len align lock tr]
  show "\<exists>code a s' tr'. Runtime_ReserveGpuVirtualAddress env domain 0 len align lock rt tr = Inr (code, a, s', tr') \<and>
      (fixed_map_ok env \<and> mgr_ok r (rt_mgr domain s')) \<and>
      (if code = Success then a \<noteq> 0 \<and> mgr_live (rt_mgr domain rt) a = None \<and>
         mgr_live (rt_mgr domain s') = (mgr_live (rt_mgr domain rt))(a \<mapsto> len)
       else a = 0 \<and> mgr_live (rt_mgr domain s') = mgr_live (rt_mgr domain rt))"
    by (fastforce split: if_splits)
next
  fix rt a len tr assume "fixed_map_ok env \<and> mgr_ok r (rt_mgr domain rt)"
  with Runtime_Free_post [of env r domain rt a len tr]
  show "\<exists>s' tr'. Runtime_FreeGpuVirtualAddress env domain a len rt tr = Inr (Success, s', tr') \<and>
      (fixed_map_ok env \<and> mgr_ok r (rt_mgr domain s')) \<and>
      mgr_live (rt_mgr domain s') = (mgr_live (rt_mgr domain rt))(a := None)"
    by fastforce
qed

section \<open>Setting up and tearing down the heaps\<close>

definition heap_bytes :: "wddm_device \<Rightarrow> u64" where
  "heap_bytes d = (if dev_is_dgpu d then LocalHeapSize d else LocalHeapSize d + dev_non_local_heap_size d)"

lemma AlignUp_scaled:
  assumes "0 < unat v" and "unat v \<le> 2 ^ 60" and "a = 0x40000000 \<or> a = 0x100000000" and "0 < k" and "k \<le> 4"
  shows "unat (AlignUp (v :: u64) a * of_nat k) = unat (AlignUp v a) * k" and "4096 dvd unat (AlignUp v a)"
    and "unat v \<le> unat (AlignUp v a)" and "unat (AlignUp v a) < unat v + unat a"
proof -
  have au: "0 < unat a" "unat v + unat a \<le> 18446744073709551616" "4096 dvd unat a" "unat a \<le> 2 ^ 32"
    using assms(2,3) by auto
  note b = AlignUp_u64_bounds [OF au(1,2)]
  from b show "unat v \<le> unat (AlignUp v a)" "unat (AlignUp v a) < unat v + unat a" by auto
  have "unat a dvd unat (AlignUp v a)" using unat_AlignUp_u64 [OF au(1,2)] by simp
  with au(3) show "4096 dvd unat (AlignUp v a)" by (rule dvd_trans)
  have k: "unat (of_nat k :: u64) = k" using assms(5) by (simp add: unat_of_nat64)
  have "unat (AlignUp v a) * k \<le> (2 ^ 60 + 2 ^ 32) * 4"
    using b(2) au(4) assms(2,5) by (intro mult_le_mono) auto
  then show "unat (AlignUp v a * of_nat k) = unat (AlignUp v a) * k"
    using unat_mult64 [of "AlignUp v a" "of_nat k"] k by simp
qed

definition heap_reserved :: "nat set \<Rightarrow> u64 \<Rightarrow> u64 \<Rightarrow> nat set \<Rightarrow> bool" where
  "heap_reserved M start len M' \<longleftrightarrow>
     (if start = 0 then len = 0 \<and> M' = M
      else 0 < unat len \<and> 4096 dvd unat start \<and> unat start + unat len \<le> 2 ^ 47 \<and>
        bytes_at start len \<inter> M = {} \<and> M' = M \<union> bytes_at start len)"

lemma ReserveSvmSpace_reserved:
  assumes "new_map_ok env" "unmap_ok env" "gpu_va_ok env" "dv 1 = Some d"
    and "0 < unat len" "4096 dvd unat len" "4096 dvd unat align" "unat len + unat align \<le> 2 ^ 47"
  shows "\<exists>ok base len' tr'. ReserveSvmSpace env dv 1 len align tr = Inr (ok, base, len', tr') \<and>
    heap_reserved (mapped tr) base len' (mapped tr')"
proof -
  from ReserveSvmSpace_one [OF assms(1-3), of dv d len align tr] assms(4-8) obtain ok base len' tr' where
    r: "ReserveSvmSpace env dv 1 len align tr = Inr (ok, base, len', tr')"
      "if ok then base \<noteq> 0 \<and> len' = len \<and> 4096 dvd unat base \<and> unat base + unat len \<le> 2 ^ 47 \<and>
       bytes_at base len \<inter> mapped tr = {} \<and> mapped tr' = mapped tr \<union> bytes_at base len
     else base = 0 \<and> len' = 0 \<and> mapped tr' = mapped tr" by auto
  from r(2) assms(5) have "heap_reserved (mapped tr) base len' (mapped tr')"
    by (auto simp: heap_reserved_def split: if_splits)
  with r(1) show ?thesis by blast
qed

lemma ReserveLocalHeapSpace_reserved:
  assumes env: "new_map_ok env" "unmap_ok env" "gpu_va_ok env" and dv: "dv 1 = Some d"
    and b: "0 < unat (heap_bytes d)" "unat (heap_bytes d) \<le> 2 ^ 44"
  shows "\<exists>ok start len tr'.
    ReserveLocalHeapSpace env dv 1 rt tr = Inr (ok, rt\<lparr>rt_local_start := start, rt_local_size := len\<rparr>, tr') \<and>
    heap_reserved (mapped tr) start len (mapped tr')"
proof -
  let ?a = "0x40000000 :: u64"
  have t: "total_local_size dv 1 0 0 = Some (heap_bytes d)"
    using dv by (simp add: heap_bytes_def)
  have v: "unat (heap_bytes d) \<le> 2 ^ 60" using b(2) by simp
  have aa: "?a = 0x40000000 \<or> ?a = 0x100000000" by simp
  note al = AlignUp_scaled [OF b(1) v aa, of 4, simplified]
  have "0 < unat (AlignUp (heap_bytes d) ?a * 4)" "4096 dvd unat (AlignUp (heap_bytes d) ?a * 4)"
    "unat (AlignUp (heap_bytes d) ?a * 4) + unat ?a \<le> 2 ^ 47"
    using al b by auto
  from ReserveSvmSpace_reserved [where dv = dv, OF env dv this(1,2) _ this(3), of tr]
  obtain ok base len tr'
    where "ReserveSvmSpace env dv 1 (AlignUp (heap_bytes d) ?a * 4) ?a tr = Inr (ok, base, len, tr')"
      "heap_reserved (mapped tr) base len (mapped tr')" by auto
  with t show ?thesis by (auto simp: ReserveLocalHeapSpace_def Let_def)
qed

lemma ReserveSystemHeapSpace_reserved:
  assumes env: "new_map_ok env" "unmap_ok env" "gpu_va_ok env" and dv: "dv 1 = Some d"
    and si: "fst (env tr Sysinfo) = STATUS_SUCCESS" "out_arg (snd (env tr Sysinfo)) 0 = ram"
    and b: "0 < unat ram" "unat ram \<le> 2 ^ 60"
  shows "\<exists>ok start len tr'.
    ReserveSystemHeapSpace env dv 1 rt tr = Inr (ok, rt\<lparr>rt_system_start := start, rt_system_size := len\<rparr>, tr') \<and>
    heap_reserved (mapped tr) start len (mapped tr')"
proof -
  let ?a = "0x100000000 :: u64" and ?tr = "tr @ [(Sysinfo, env tr Sysinfo)]"
  let ?len = "min (AlignUp ram ?a * 2) 0x10000000000"
  have aa: "?a = 0x40000000 \<or> ?a = 0x100000000" by simp
  note al = AlignUp_scaled [OF b aa, of 2, simplified]
  have u: "unat ?len = min (unat (AlignUp ram ?a) * 2) 0x10000000000"
    using al(1) by (simp add: min_def word_le_nat_alt)
  have "0 < unat ?len" "4096 dvd unat ?len" "unat ?len + unat ?a \<le> 2 ^ 47"
    unfolding u using al b(1) by (auto simp: min_def)
  from ReserveSvmSpace_reserved [where dv = dv, OF env dv this(1,2) _ this(3), of ?tr] obtain ok base len tr'
    where r: "ReserveSvmSpace env dv 1 ?len ?a ?tr = Inr (ok, base, len, tr')"
      "heap_reserved (mapped ?tr) base len (mapped tr')" by auto
  have m: "mapped ?tr = mapped tr" by (cases "env tr Sysinfo") (simp add: mapped_snoc)
  have "dx env Sysinfo tr = (Some (snd (env tr Sysinfo)), ?tr)"
    using si(1) by (cases "env tr Sysinfo") (simp add: dx_Some_iff)
  with r m si(2) show ?thesis by (auto simp: ReserveSystemHeapSpace_def Let_def)
qed


lemma FreeSvmSpace_unmaps:
  assumes "unmap_ok env" and "dv 1 = Some d" and "4096 dvd unat base"
  shows "\<exists>r tr'. FreeSvmSpace env dv 1 base len tr = (r, 0, 0, tr') \<and> mapped tr' = mapped tr - bytes_at base len"
proof -
  let ?tr = "snd (dx env (FreeGpuVA (dev_adapter d) base len) tr)"
  have m: "mapped ?tr = mapped tr"
    by (cases "env tr (FreeGpuVA (dev_adapter d) base len)") (simp add: dx_trace_step mapped_snoc)
  let ?r = "dx env (Munmap base len) ?tr"
  have "FreeSvmSpace env dv 1 base len tr = (fst ?r \<noteq> None, 0, 0, snd ?r)"
    using assms(2) by (cases ?r) (simp add: FreeSvmSpace_def)
  with m mapped_munmap_any [OF assms(1,3), of len ?tr] show ?thesis by auto
qed

text \<open>The two heaps after \<^verbatim>\<open>HeapInit\<close>; a heap that could not be reserved has start 0.\<close>

definition heaps_ok :: "nat set \<Rightarrow> runtime \<Rightarrow> nat set \<Rightarrow> bool" where
  "heaps_ok M rt M' \<longleftrightarrow>
     heap_reserved M (rt_local_start rt) (rt_local_size rt) (M \<union> bytes_at (rt_local_start rt) (rt_local_size rt)) \<and>
     heap_reserved (M \<union> bytes_at (rt_local_start rt) (rt_local_size rt))
       (rt_system_start rt) (rt_system_size rt) M'"

definition heap_mgr_ok :: "u64 \<Rightarrow> u64 \<Rightarrow> va_mgr option \<Rightarrow> bool" where
  "heap_mgr_ok start len m \<longleftrightarrow>
     (start \<noteq> 0 \<longrightarrow> mgr_ok (unat start, unat start + unat len) m \<and> mgr_live m = Map.empty)"

lemma VaMgr_fresh:
  assumes "0 < unat len" and "unat start + unat len < 2 ^ 64" and "unat len < 2 ^ 63"
  shows "heap_mgr_ok start len (Some (VaMgr start len DEFAULT_GPU_PAGE_SIZE))"
proof -
  have "va_live (VaMgr start len DEFAULT_GPU_PAGE_SIZE) = Map.empty"
    by (auto simp: va_live_def VaMgr_def make_free_fragment_def fun_eq_iff)
  then show ?thesis
    using VaMgr_state [OF _ assms] by (auto simp: heap_mgr_ok_def mgr_ok_def mgr_live_def unat_gt_0)
qed

lemma heap_reserved_mgr:
  assumes "heap_reserved M start len M'"
  shows "heap_mgr_ok start len (Some (VaMgr start len DEFAULT_GPU_PAGE_SIZE))"
proof (cases "start = 0")
  case True
  then show ?thesis by (simp add: heap_mgr_ok_def)
next
  case False
  with assms show ?thesis by (intro VaMgr_fresh) (auto simp: heap_reserved_def)
qed

lemma heap_reserved_union: "heap_reserved M start len M' \<Longrightarrow> M' = M \<union> bytes_at start len"
  by (auto simp: heap_reserved_def bytes_at_def split: if_splits)


lemma HeapInit_post:
  assumes env: "new_map_ok env" "unmap_ok env" "gpu_va_ok env" and dv: "dv 1 = Some d"
    and b: "0 < unat (heap_bytes d)" "unat (heap_bytes d) \<le> 2 ^ 44" "apertures_below (2 ^ 63) d"
    and si: "\<forall>tr. fst (env tr Sysinfo) = STATUS_SUCCESS \<and> 0 < unat (out_arg (snd (env tr Sysinfo)) 0) \<and>
      unat (out_arg (snd (env tr Sysinfo)) 0) \<le> 2 ^ 60"
  shows "\<exists>rt' tr'. HeapInit env dv 1 rt tr = Inr (rt', tr') \<and> heaps_ok (mapped tr) rt' (mapped tr') \<and>
    heap_mgr_ok (rt_local_start rt') (rt_local_size rt') (rt_local_mgr rt') \<and>
    heap_mgr_ok (rt_system_start rt') (rt_system_size rt') (rt_system_mgr rt') \<and>
    heap_mgr_ok (rt_aperture_start rt') (rt_aperture_size rt') (rt_aperture_mgr rt') \<and>
    2 ^ 47 \<le> unat (rt_aperture_start rt') \<and>
    clear_of_apertures d (rt_aperture_start rt') (rt_aperture_size rt')"
proof -
  from ReserveLocalHeapSpace_reserved [where dv = dv, OF env dv b(1,2)] obtain ok1 ls ll tr1 where
    l: "ReserveLocalHeapSpace env dv 1 rt tr = Inr (ok1, rt\<lparr>rt_local_start := ls, rt_local_size := ll\<rparr>, tr1)"
      "heap_reserved (mapped tr) ls ll (mapped tr1)" by blast
  let ?rt1 = "rt\<lparr>rt_local_start := ls, rt_local_size := ll\<rparr>"
  from si have si1: "fst (env tr1 Sysinfo) = STATUS_SUCCESS" "0 < unat (out_arg (snd (env tr1 Sysinfo)) 0)"
    "unat (out_arg (snd (env tr1 Sysinfo)) 0) \<le> 2 ^ 60" by blast+
  from ReserveSystemHeapSpace_reserved [where dv = dv and tr = tr1, OF env dv si1(1) refl si1(2,3), of ?rt1]
  obtain ok2 ss sl tr2 where
    sy: "ReserveSystemHeapSpace env dv 1 ?rt1 tr1 = Inr (ok2, ?rt1\<lparr>rt_system_start := ss, rt_system_size := sl\<rparr>, tr2)"
      "heap_reserved (mapped tr1) ss sl (mapped tr2)" by blast
  let ?rt2 = "?rt1\<lparr>rt_system_start := ss, rt_system_size := sl\<rparr>"
  have same: "\<forall>i<1. \<exists>d'. dv (Suc i) = Some d' \<and> same_apertures d d'" using dv by (simp add: same_apertures_def)
  from InitHandleApertureSpace_search [OF same _ b(3), of ?rt2] obtain start where
    ap: "InitHandleApertureSpace dv 1 ?rt2 = Some (True, ?rt2\<lparr>rt_aperture_start := start, rt_aperture_size := push_bit 47 1\<rparr>)"
      "2 ^ 47 \<le> unat start" "unat start + 2 ^ 47 < 2 ^ 64" "clear_of_apertures d start (push_bit 47 1)" by auto
  have m1: "mapped tr1 = mapped tr \<union> bytes_at ls ll" by (rule heap_reserved_union [OF l(2)])
  have am: "heap_mgr_ok start (push_bit 47 1) (Some (VaMgr start (push_bit 47 1) DEFAULT_GPU_PAGE_SIZE))"
    using ap(3) by (intro VaMgr_fresh) simp_all
  let ?rt3 = "?rt2\<lparr>rt_aperture_start := start, rt_aperture_size := push_bit 47 1\<rparr>"
  have "HeapInit env dv 1 rt tr = Inr (InitHandleApertureMgr (InitSystemHeapMgr (InitLocalHeapMgr ?rt3)), tr2)"
    unfolding HeapInit_def l(1) sy(1) ap(1) bindE_simps prod.case option.case ..
  moreover have "heaps_ok (mapped tr) ?rt3 (mapped tr2)"
    using l(2) sy(2) unfolding heaps_ok_def m1 by simp
  ultimately show ?thesis
    using am ap(2,4) heap_reserved_mgr [OF l(2)] heap_reserved_mgr [OF sy(2)]
    by (intro exI [of _ "InitHandleApertureMgr (InitSystemHeapMgr (InitLocalHeapMgr ?rt3))"] exI [of _ tr2])
      (simp add: InitLocalHeapMgr_def InitSystemHeapMgr_def InitHandleApertureMgr_def heaps_ok_def)
qed

lemma HeapFini_post:
  assumes "unmap_ok env" and dv: "dv 1 = Some d" and h: "heaps_ok M rt (mapped tr)"
  shows "mapped (snd (HeapFini env dv 1 rt tr)) = M"
proof -
  have d: "4096 dvd unat (rt_system_start rt)" "4096 dvd unat (rt_local_start rt)"
    using h by (auto simp: heaps_ok_def heap_reserved_def split: if_splits)
  from FreeSvmSpace_unmaps [where dv = dv, OF assms(1) dv d(1)] obtain r1 tr1 where
    s: "FreeSvmSpace env dv 1 (rt_system_start rt) (rt_system_size rt) tr = (r1, 0, 0, tr1)"
      "mapped tr1 = mapped tr - bytes_at (rt_system_start rt) (rt_system_size rt)" by blast
  from FreeSvmSpace_unmaps [where dv = dv, OF assms(1) dv d(2)] obtain r2 tr2 where
    l: "FreeSvmSpace env dv 1 (rt_local_start rt) (rt_local_size rt) tr1 = (r2, 0, 0, tr2)"
      "mapped tr2 = mapped tr1 - bytes_at (rt_local_start rt) (rt_local_size rt)" by blast
  have e: "bytes_at 0 0 = {}" by (simp add: bytes_at_def)
  have "mapped tr - bytes_at (rt_system_start rt) (rt_system_size rt) - bytes_at (rt_local_start rt) (rt_local_size rt) = M"
    using h e unfolding heaps_ok_def heap_reserved_def by (auto split: if_splits)
  with s l show ?thesis by (simp add: HeapFini_def FreeSystemHeapSpace_def FreeLocalHeapSpace_def)
qed


section \<open>Properties\<close>

text \<open>A kernel with 16 GB of memory that places mappings at one of two addresses, where free.\<close>

definition place :: "dx_trace \<Rightarrow> u64 \<Rightarrow> u64 option" where
  "place tr len =
     find (\<lambda>p. unat p + unat len \<le> 2 ^ 47 \<and> bytes_at p len \<inter> mapped tr = {}) [0x100000000, 0x200000000000]"

definition sample_env :: dx_env where
  "sample_env tr c =
     (case c of
        Mmap a len k \<Rightarrow>
          (if k = Map_Reserve then
             (case place tr len of None \<Rightarrow> (STATUS_NO_MEMORY, []) | Some p \<Rightarrow> (STATUS_SUCCESS, [p]))
           else (STATUS_SUCCESS, [a]))
      | ReserveGpuVA ad len lo hi \<Rightarrow>
          (if 4096 dvd unat lo \<and> unat lo + unat len \<le> unat hi then (STATUS_SUCCESS, [lo])
           else (STATUS_NO_MEMORY, []))
      | Sysinfo \<Rightarrow> (STATUS_SUCCESS, [0x400000000])
      | _ \<Rightarrow> (STATUS_SUCCESS, []))"

lemma sample_env_ok:
  "new_map_ok sample_env" "fixed_map_ok sample_env" "unmap_ok sample_env" "gpu_va_ok sample_env"
proof -
  have "p \<noteq> 0 \<and> 4096 dvd unat p \<and> unat p + unat len \<le> 2 ^ 47 \<and> bytes_at p len \<inter> mapped tr = {}"
    if "place tr len = Some p" for tr len p
    using that by (auto simp: place_def split: if_splits)
  then show "new_map_ok sample_env"
    by (auto simp: new_map_ok_def sample_env_def out_arg_def split: option.splits)
qed (auto simp: fixed_map_ok_def unmap_ok_def gpu_va_ok_def sample_env_def out_arg_def split: if_splits)

lemma sample_sysinfo:
  "\<forall>tr. fst (sample_env tr Sysinfo) = STATUS_SUCCESS \<and> 0 < unat (out_arg (snd (sample_env tr Sysinfo)) 0) \<and>
     unat (out_arg (snd (sample_env tr Sysinfo)) 0) \<le> 2 ^ 60"
  by (simp add: sample_env_def out_arg_def)

definition one_device :: "nat \<Rightarrow> wddm_device option" where
  "one_device i = (if i = 1 then Some device_example else None)"

text \<open>
  C15. \<^verbatim>\<open>ReserveSvmSpace\<close> with one adapter reserves a range for the CPU and the GPU together and leaks
  nothing. It always returns: if it succeeds, the process holds exactly the returned range more than
  before, page aligned, of the requested size and free until then; if all sixteen attempts fail, its
  address space is as it was.
\<close>

theorem ReserveSvmSpace_correct:
  assumes "new_map_ok env" "unmap_ok env" "gpu_va_ok env" and "dv 1 = Some d"
    and "0 < unat len" "4096 dvd unat len" "4096 dvd unat align" "unat len + unat align \<le> 2 ^ 47"
  shows "\<exists>ok base len' tr'. ReserveSvmSpace env dv 1 len align tr = Inr (ok, base, len', tr') \<and>
    (if ok then base \<noteq> 0 \<and> len' = len \<and> 4096 dvd unat base \<and> unat base + unat len \<le> 2 ^ 47 \<and>
       bytes_at base len \<inter> mapped tr = {} \<and> mapped tr' = mapped tr \<union> bytes_at base len
     else base = 0 \<and> len' = 0 \<and> mapped tr' = mapped tr)"
  by (rule ReserveSvmSpace_one) (fact assms)+

theorem ReserveSvmSpace_correct_witness:
  "\<exists>ok base len' tr'. ReserveSvmSpace sample_env one_device 1 0x10000 0x40000000 [] = Inr (ok, base, len', tr') \<and>
    (ok \<longrightarrow> len' = 0x10000 \<and> mapped tr' = bytes_at base 0x10000) \<and> (\<not> ok \<longrightarrow> mapped tr' = {})"
proof -
  have "one_device 1 = Some device_example" by (simp add: one_device_def)
  from ReserveSvmSpace_correct [where dv = one_device and len = "0x10000" and align = "0x40000000" and tr = "[]",
      OF sample_env_ok(1,3,4) this]
  obtain ok base len' tr' where "ReserveSvmSpace sample_env one_device 1 0x10000 0x40000000 [] = Inr (ok, base, len', tr')"
    "if ok then base \<noteq> 0 \<and> len' = 0x10000 \<and> 4096 dvd unat base \<and> unat base + unat (0x10000 :: u64) \<le> 2 ^ 47 \<and>
       bytes_at base 0x10000 \<inter> mapped [] = {} \<and> mapped tr' = mapped [] \<union> bytes_at base 0x10000
     else base = 0 \<and> len' = 0 \<and> mapped tr' = mapped []" by auto
  then show ?thesis by (auto simp: mapped_def split: if_splits)
qed

text \<open>
  C13. \<^verbatim>\<open>HeapInit\<close> and \<^verbatim>\<open>HeapFini\<close> with one adapter, on top of the address manager. Setting up always
  ends without a fault; the local and the system heap are disjoint, page-aligned parts of the lower
  canonical half that were free before, the handle aperture lies above it and clear of the apertures
  of the device, every manager over a reserved range starts in its invariant with nothing in
  use, and tearing down gives back exactly what was mapped.
\<close>

theorem HeapInit_heaps:
  assumes env: "new_map_ok env" "unmap_ok env" "gpu_va_ok env" and dv: "dv 1 = Some d"
    and "0 < unat (heap_bytes d)" "unat (heap_bytes d) \<le> 2 ^ 44" "apertures_below (2 ^ 63) d"
    and "\<forall>tr. fst (env tr Sysinfo) = STATUS_SUCCESS \<and> 0 < unat (out_arg (snd (env tr Sysinfo)) 0) \<and>
      unat (out_arg (snd (env tr Sysinfo)) 0) \<le> 2 ^ 60"
  shows "\<exists>rt' tr'. HeapInit env dv 1 rt tr = Inr (rt', tr') \<and> heaps_ok (mapped tr) rt' (mapped tr') \<and>
    heap_mgr_ok (rt_local_start rt') (rt_local_size rt') (rt_local_mgr rt') \<and>
    heap_mgr_ok (rt_system_start rt') (rt_system_size rt') (rt_system_mgr rt') \<and>
    heap_mgr_ok (rt_aperture_start rt') (rt_aperture_size rt') (rt_aperture_mgr rt') \<and>
    2 ^ 47 \<le> unat (rt_aperture_start rt') \<and>
    clear_of_apertures d (rt_aperture_start rt') (rt_aperture_size rt') \<and>
    mapped (snd (HeapFini env dv 1 rt' tr')) = mapped tr"
proof -
  from HeapInit_post [where dv = dv and rt = rt and tr = tr, OF env dv assms(5-8)] obtain rt' tr' where
    h: "HeapInit env dv 1 rt tr = Inr (rt', tr')" "heaps_ok (mapped tr) rt' (mapped tr')"
      "heap_mgr_ok (rt_local_start rt') (rt_local_size rt') (rt_local_mgr rt')"
      "heap_mgr_ok (rt_system_start rt') (rt_system_size rt') (rt_system_mgr rt')"
      "heap_mgr_ok (rt_aperture_start rt') (rt_aperture_size rt') (rt_aperture_mgr rt')"
      "2 ^ 47 \<le> unat (rt_aperture_start rt')"
      "clear_of_apertures d (rt_aperture_start rt') (rt_aperture_size rt')" by blast
  with HeapFini_post [where dv = dv, OF env(2) dv h(2)] show ?thesis by blast
qed

theorem HeapInit_heaps_witness:
  "\<exists>rt' tr'. HeapInit sample_env one_device 1 (new_hsakmtRuntime 1) [] = Inr (rt', tr') \<and>
    heaps_ok {} rt' (mapped tr') \<and> mapped (snd (HeapFini sample_env one_device 1 rt' tr')) = {}"
proof -
  have dv: "one_device 1 = Some device_example" by (simp add: one_device_def)
  have b: "0 < unat (heap_bytes device_example)" "unat (heap_bytes device_example) \<le> 2 ^ 44"
    "apertures_below (2 ^ 63) device_example"
    by (simp_all add: heap_bytes_def device_example_def LocalHeapSize_def apertures_below_def)
  from HeapInit_heaps [where dv = one_device and rt = "new_hsakmtRuntime 1" and tr = "[]",
      OF sample_env_ok(1,3,4) dv b sample_sysinfo]
  show ?thesis by (auto simp: mapped_def)
qed

text \<open>
  C20. The search for the handle aperture ends for every set of devices, whatever their apertures:
  \<^verbatim>\<open>InitHandleApertureSpace\<close> returns.
\<close>

theorem InitHandleApertureSpace_terminates: "\<exists>r. InitHandleApertureSpace dv n rt = Some r"
proof -
  have "\<exists>s. aperture_loop dv n (push_bit 47 1) 0 START_NON_CANONICAL_ADDR = Some s"
    by (rule aperture_loop_returns, rule exI [of _ 1]) (simp add: START_NON_CANONICAL_ADDR_def)
  then show ?thesis by (auto simp: InitHandleApertureSpace_def Let_def)
qed

text \<open>
  With adapters whose apertures differ the search can hand out a range that overlaps one of
  them: after a clash with a later adapter the earlier ones are not checked again. Here
  the first adapter has its private aperture at $2^{48}$ and the second at $2^{47}$.
\<close>

definition two_devices :: "nat \<Rightarrow> wddm_device option" where
  "two_devices i =
     (if i = 1 then Some (device_example\<lparr>dev_private_aperture_base := 0x1000000000000\<rparr>)
      else if i = 2 then Some (device_example\<lparr>dev_private_aperture_base := 0x800000000000\<rparr>) else None)"

theorem aperture_earlier_device_clash:
  "\<exists>rt'. InitHandleApertureSpace two_devices 2 (new_hsakmtRuntime 1) = Some (True, rt') \<and>
    (\<exists>d. two_devices 1 = Some d \<and> aperture_clash d (rt_aperture_start rt') (rt_aperture_size rt'))"
  by (simp add: InitHandleApertureSpace_def START_NON_CANONICAL_ADDR_def END_NON_CANONICAL_ADDR_def
      aperture_loop.simps two_devices_def device_example_def aperture_clash_def IS_OVERLAPPING_def Let_def)

text \<open>
  C14. Addresses for memory objects: without an address hint, \<^verbatim>\<open>hsakmtRuntime::ReserveGpuVirtualAddress\<close>
  never faults and either returns a non-zero, suitably aligned address of a range that was not in
  use, recorded with the requested size and for system memory backed by a committed mapping, or
  reports an error, returns 0 and leaves the ranges in use unchanged; and
  \<^verbatim>\<open>FreeGpuVirtualAddress\<close> of such an address restores them.
\<close>

theorem Runtime_ReserveGpuVirtualAddress_correct:
  assumes "fixed_map_ok env" and "mgr_ok r (rt_mgr domain rt)" and "va_request len (heap_align len alignment)"
  shows "\<exists>code a rt' tr'.
    Runtime_ReserveGpuVirtualAddress env domain 0 len alignment lock rt tr = Inr (code, a, rt', tr') \<and>
    mgr_ok r (rt_mgr domain rt') \<and>
    (if code = Success then a \<noteq> 0 \<and> mgr_live (rt_mgr domain rt) a = None \<and>
       mgr_live (rt_mgr domain rt') = (mgr_live (rt_mgr domain rt))(a \<mapsto> len) \<and>
       unat (heap_align len alignment) dvd unat a \<and>
       (domain = kSystem \<longrightarrow> (\<exists>vs. (Mmap a len (Map_Commit lock), (STATUS_SUCCESS, vs)) \<in> set tr')) \<and>
       (\<exists>rt2 tr2. Runtime_FreeGpuVirtualAddress env domain a len rt' tr' = Inr (Success, rt2, tr2) \<and>
          mgr_live (rt_mgr domain rt2) = mgr_live (rt_mgr domain rt))
     else a = 0 \<and> mgr_live (rt_mgr domain rt') = mgr_live (rt_mgr domain rt))"
proof -
  from Runtime_Reserve_post [OF assms, of lock tr] obtain code a m' tr' where
    p: "Runtime_ReserveGpuVirtualAddress env domain 0 len alignment lock rt tr = Inr (code, a, set_mgr domain m' rt, tr')"
      "mgr_ok r m'"
      "if code = Success then a \<noteq> 0 \<and> mgr_live (rt_mgr domain rt) a = None \<and>
       mgr_live m' = (mgr_live (rt_mgr domain rt))(a \<mapsto> len) \<and> unat (heap_align len alignment) dvd unat a \<and>
       (domain = kSystem \<longrightarrow> (\<exists>vs. (Mmap a len (Map_Commit lock), (STATUS_SUCCESS, vs)) \<in> set tr'))
     else a = 0 \<and> mgr_live m' = mgr_live (rt_mgr domain rt)" by blast
  have "code = Success \<Longrightarrow> \<exists>rt2 tr2. Runtime_FreeGpuVirtualAddress env domain a len (set_mgr domain m' rt) tr' =
      Inr (Success, rt2, tr2) \<and> mgr_live (rt_mgr domain rt2) = mgr_live (rt_mgr domain rt)"
    using heap.reserve_release [of env r domain rt len alignment lock tr a "set_mgr domain m' rt" tr'] assms p(1) by blast
  with p show ?thesis by (intro exI [of _ code] exI [of _ a] exI [of _ "set_mgr domain m' rt"] exI [of _ tr']) auto
qed

theorem Runtime_ReserveGpuVirtualAddress_correct_witness:
  "\<exists>code a rt' tr'. Runtime_ReserveGpuVirtualAddress sample_env kSystem 0 0x3000 0 False
      ((new_hsakmtRuntime 1)\<lparr>rt_system_mgr := Some (VaMgr 0x10000 0x100000 DEFAULT_GPU_PAGE_SIZE)\<rparr>) [] =
      Inr (code, a, rt', tr') \<and> mgr_ok (0x10000, 0x110000) (rt_mgr kSystem rt')"
proof -
  let ?rt = "(new_hsakmtRuntime 1)\<lparr>rt_system_mgr := Some (VaMgr 0x10000 0x100000 DEFAULT_GPU_PAGE_SIZE)\<rparr>"
  have "mgr_ok (0x10000, 0x110000) (rt_mgr kSystem ?rt)"
    using VaMgr_state [of "0x10000" "0x100000" DEFAULT_GPU_PAGE_SIZE] by (simp add: mgr_ok_def rt_mgr_def)
  moreover have "va_request 0x3000 (heap_align 0x3000 0)" by (simp add: va_request_def heap_align_def)
  ultimately show ?thesis using Runtime_ReserveGpuVirtualAddress_correct [OF sample_env_ok(2)] by blast
qed

end
