(* ===== verification/Gpu_Memory.thy ===== *)
theory Gpu_Memory
  imports Address_Space
begin

text \<open>
  \<^verbatim>\<open>GpuMemory\<close> of \<^verbatim>\<open>src/include/impl/wddm/gpu_memory.h\<close> and \<^verbatim>\<open>src/src/wddm/gpu_memory.cpp\<close>: a memory object
  is backed by allocations of at most 2 GB each (chunks), reserves its GPU addresses
  from the runtime, maps the chunks there and makes them resident. The operations run in a
  \<open>world\<close>: the runtime, the device of the object and the trace of kernel calls. The
  private driver data of an allocation is built by a binary library; what it is given is recorded
  in the call.
\<close>

section \<open>State\<close>

record GpuMemoryDescFlags =
  is_virtual :: bool
  is_shared :: bool
  is_external :: bool
  is_physical_only :: bool
  is_locked :: bool
  is_queue_referenced :: bool
  is_physical_contiguous :: bool
  is_imported_sys_memfd :: bool
  is_sysmem_exporter :: bool
  is_va_required :: bool
  is_imported_vram_vmem :: bool
  is_imported_vram_ipc :: bool
  is_imported_from_same_process :: "3 word"
  is_blit_kernel_object :: bool
  fl_unused :: u16

definition bit_of :: "bool \<Rightarrow> u32" where
  "bit_of b = (if b then 1 else 0)"

text \<open>The union with \<^verbatim>\<open>reserved\<close>: the flags as one 32-bit word and back.\<close>

definition flags_fields :: "GpuMemoryDescFlags \<Rightarrow> (nat \<times> u32) list" where
  "flags_fields f =
     [(1, bit_of (is_virtual f)), (1, bit_of (is_shared f)), (1, bit_of (is_external f)),
      (1, bit_of (is_physical_only f)), (1, bit_of (is_locked f)), (1, bit_of (is_queue_referenced f)),
      (1, bit_of (is_physical_contiguous f)), (1, bit_of (is_imported_sys_memfd f)),
      (1, bit_of (is_sysmem_exporter f)), (1, bit_of (is_va_required f)),
      (1, bit_of (is_imported_vram_vmem f)), (1, bit_of (is_imported_vram_ipc f)),
      (3, ucast (is_imported_from_same_process f)), (1, bit_of (is_blit_kernel_object f)),
      (16, ucast (fl_unused f))]"

definition flags_reserved :: "GpuMemoryDescFlags \<Rightarrow> u32" where
  "flags_reserved f = pack (flags_fields f)"

definition flags_of_reserved :: "u32 \<Rightarrow> GpuMemoryDescFlags" where
  "flags_of_reserved x =
     (let v = unpack [1, 1, 1, 1, 1, 1, 1, 1, 1, 1, 1, 1, 3, 1, 16] x in
      \<lparr>is_virtual = (v ! 0 \<noteq> 0), is_shared = (v ! 1 \<noteq> 0), is_external = (v ! 2 \<noteq> 0),
       is_physical_only = (v ! 3 \<noteq> 0), is_locked = (v ! 4 \<noteq> 0), is_queue_referenced = (v ! 5 \<noteq> 0),
       is_physical_contiguous = (v ! 6 \<noteq> 0), is_imported_sys_memfd = (v ! 7 \<noteq> 0),
       is_sysmem_exporter = (v ! 8 \<noteq> 0), is_va_required = (v ! 9 \<noteq> 0),
       is_imported_vram_vmem = (v ! 10 \<noteq> 0), is_imported_vram_ipc = (v ! 11 \<noteq> 0),
       is_imported_from_same_process = ucast (v ! 12), is_blit_kernel_object = (v ! 13 \<noteq> 0),
       fl_unused = ucast (v ! 14)\<rparr>)"

record GpuMemoryCreateInfo =
  ci_virtual_alloc :: bool
  ci_physical_only :: bool
  ci_interprocess :: bool
  ci_locked :: bool
  ci_physical_contiguous :: bool
  ci_sysmem_ipc_sig_importer :: bool
  ci_sysmem_ipc_sig_exporter :: bool
  ci_alloc_va :: bool
  ci_blit_kernel_object :: bool
  ci_domain :: AllocDomain
  ci_size :: u64
  ci_alignment :: u64
  ci_mem_flags :: int
  ci_engine_flag :: int
  ci_dmabuf_fd :: int
  ci_user_ptr :: u64
  ci_va_hint :: u64

definition new_GpuMemoryCreateInfo :: GpuMemoryCreateInfo where
  "new_GpuMemoryCreateInfo =
     \<lparr>ci_virtual_alloc = False, ci_physical_only = False, ci_interprocess = False, ci_locked = False,
      ci_physical_contiguous = False, ci_sysmem_ipc_sig_importer = False,
      ci_sysmem_ipc_sig_exporter = False, ci_alloc_va = False, ci_blit_kernel_object = False,
      ci_domain = kLocal, ci_size = 0, ci_alignment = 0, ci_mem_flags = 0, ci_engine_flag = 0,
      ci_dmabuf_fd = -1, ci_user_ptr = 0, ci_va_hint = 0\<rparr>"

text \<open>
  \<^verbatim>\<open>GpuMemoryDesc\<close> and the members of \<^verbatim>\<open>GpuMemory\<close>. \<open>alloc_handles\<close> is the array behind
  \<^verbatim>\<open>alloc_handles_ptr_\<close>, \<open>None\<close> for \<^verbatim>\<open>nullptr\<close>; for one allocation it is the member \<^verbatim>\<open>alloc_handle_\<close>. The
  constructors leave the domain and the adapter identifier uninitialised; the values the memory
  happens to hold are arguments of the constructor.
\<close>

record GpuMemory =
  gm_domain :: AllocDomain
  gm_adapter_luid :: u64
  gm_gpu_addr :: u64
  gm_cpu_addr :: u64
  gm_client_size :: u64
  gm_size :: u64
  gm_alignment :: u64
  gm_handle_ape_addr :: u64
  gm_flags :: GpuMemoryDescFlags
  gm_mem_flags :: int
  gm_engine_flag :: int
  num_allocations :: u64
  alloc_handles :: "u64 list option"
  gm_resource :: u64
  mem_fd :: int

definition new_GpuMemory :: "AllocDomain \<Rightarrow> u64 \<Rightarrow> GpuMemory" where
  "new_GpuMemory domain luid =
     \<lparr>gm_domain = domain, gm_adapter_luid = luid, gm_gpu_addr = 0, gm_cpu_addr = 0, gm_client_size = 0,
      gm_size = 0, gm_alignment = 0, gm_handle_ape_addr = 0, gm_flags = flags_of_reserved 0,
      gm_mem_flags = 0, gm_engine_flag = 0, num_allocations = 0, alloc_handles = None, gm_resource = 0,
      mem_fd = -1\<rparr>"

record world =
  w_rt :: runtime
  w_dev :: wddm_device
  w_tr :: dx_trace

definition kcall :: "dx_env \<Rightarrow> dx_call \<Rightarrow> world \<Rightarrow> ErrorCode \<times> u64 list \<times> world" where
  "kcall env c w = (case dxc env c (w_tr w) of (code, vs, tr) \<Rightarrow> (code, vs, w\<lparr>w_tr := tr\<rparr>))"

definition page_fence :: "u64 \<Rightarrow> world \<Rightarrow> world" where
  "page_fence v w = w\<lparr>w_dev := UpdatePageFence v (w_dev w)\<rparr>"

section \<open>Sizes and references\<close>

definition GpuMemoryChunkSize :: u64 where
  "GpuMemoryChunkSize = 2 * push_bit 30 1"

definition CalcChunkNumbers :: "u64 \<Rightarrow> u64" where
  "CalcChunkNumbers len = (len + GpuMemoryChunkSize - 1) div GpuMemoryChunkSize"

definition AdjustSize :: "wddm_device \<Rightarrow> AllocDomain \<Rightarrow> u64 \<Rightarrow> u64" where
  "AdjustSize d domain len =
     (if dev_enable_big_page d \<and> domain = kLocal then
        let alignment = dev_big_page_alignment d;
            alignment =
              (if dev_hw_big_page_min_alignment d > 0 \<and> len > ucast (dev_hw_big_page_min_alignment d) then
                 let alignment = max alignment (dev_hw_big_page_min_alignment d)
                 in if len > ucast (dev_hw_big_page_alignment d)
                    then max alignment (dev_hw_big_page_alignment d) else alignment
               else alignment)
        in if alignment > 0 then AlignUp len (ucast alignment) else len
      else AlignUp len 4096)"

definition IsUserMemory :: "GpuMemory \<Rightarrow> bool" where "IsUserMemory m \<longleftrightarrow> gm_domain m = kUserMemory"
definition IsSystem :: "GpuMemory \<Rightarrow> bool" where "IsSystem m \<longleftrightarrow> gm_domain m = kSystem"

definition GetQueueReference :: "GpuMemory \<Rightarrow> GpuMemory" where
  "GetQueueReference m = m\<lparr>gm_flags := (gm_flags m)\<lparr>is_queue_referenced := True\<rparr>\<rparr>"

definition PutQueueReference :: "GpuMemory \<Rightarrow> GpuMemory" where
  "PutQueueReference m = m\<lparr>gm_flags := (gm_flags m)\<lparr>is_queue_referenced := False\<rparr>\<rparr>"

definition IncSharedReference :: "GpuMemory \<Rightarrow> GpuMemory" where
  "IncSharedReference m =
     m\<lparr>gm_flags := (gm_flags m)\<lparr>is_imported_from_same_process := is_imported_from_same_process (gm_flags m) + 1\<rparr>\<rparr>"

definition DecSharedReference :: "GpuMemory \<Rightarrow> u32 \<times> GpuMemory" where
  "DecSharedReference m =
     (let c = is_imported_from_same_process (gm_flags m) in
      if c = 0 then (0, m)
      else (ucast (c - 1), m\<lparr>gm_flags := (gm_flags m)\<lparr>is_imported_from_same_process := c - 1\<rparr>\<rparr>))"

definition IsSharedFromSameProcess :: "GpuMemory \<Rightarrow> bool" where
  "IsSharedFromSameProcess m \<longleftrightarrow> is_imported_from_same_process (gm_flags m) > 0"

definition GetAllocationHandle :: "GpuMemory \<Rightarrow> nat \<Rightarrow> u64 res" where
  "GetAllocationHandle m i =
     (case alloc_handles m of
        None \<Rightarrow> Inl (Null_Deref ''GetAllocationHandle'')
      | Some hs \<Rightarrow> if i < length hs then Inr (hs ! i) else Inl (Out_Of_Bounds ''GetAllocationHandle''))"

section \<open>Mapping\<close>

text \<open>The loop that finds the chunk an offset falls in.\<close>

function skip_chunks :: "nat \<Rightarrow> u64 \<Rightarrow> nat \<times> u64" where
  "skip_chunks i offset =
     (if offset \<ge> GpuMemoryChunkSize then skip_chunks (Suc i) (offset - GpuMemoryChunkSize) else (i, offset))"
  by pat_completeness auto
termination
  by (relation "measure (\<lambda>(i, offset). unat offset)")
    (auto simp: GpuMemoryChunkSize_def word_le_nat_alt unat_sub64)

declare skip_chunks.simps [simp del]

definition map_call :: "wddm_device \<Rightarrow> u64 \<Rightarrow> u64 \<Rightarrow> u64 \<Rightarrow> u64 \<Rightarrow> bool \<Rightarrow> dx_call" where
  "map_call d base alloc offset block_size write =
     MapGpuVA \<lparr>ma_queue = page_queue d, ma_base = base, ma_allocation = alloc,
       ma_offset_pages = offset div 0x1000, ma_size_pages = block_size div 0x1000,
       ma_write = write, ma_no_access = \<not> write\<rparr>"

lemma chunk_step:
  "map_size \<noteq> 0 \<Longrightarrow> unat (map_size - min map_size GpuMemoryChunkSize) < unat map_size"
  by (auto simp: GpuMemoryChunkSize_def min_def word_le_nat_alt unat_sub64 unat_gt_0)

text \<open>
  The loop of \<^verbatim>\<open>MapGpuVirtualAddress\<close>: the result is the status, the chunk the loop stopped at and
  the world. A pending status counts as success after its fence has been noted.
\<close>

function map_chunks :: "dx_env \<Rightarrow> GpuMemory \<Rightarrow> nat \<Rightarrow> u64 \<Rightarrow> u64 \<Rightarrow> u64 \<Rightarrow> world \<Rightarrow>
    (ErrorCode \<times> nat \<times> world) res" where
  "map_chunks env m i map_addr map_size offset w =
     (if map_size = 0 then Inr (Success, i, w)
      else bindE (GetAllocationHandle m i) (\<lambda>h.
        let block_size = min map_size GpuMemoryChunkSize in
        case kcall env (map_call (w_dev w) map_addr h offset block_size True) w of (code, vs, w) \<Rightarrow>
          if code = Success \<or> code = NotReady then
            map_chunks env m (Suc i) (map_addr + block_size) (map_size - block_size) 0
              (if code = NotReady then page_fence (out_arg vs 0) w else w)
          else Inr (code, i, w)))"
  by pat_completeness auto
termination
  by (relation "measure (\<lambda>(env, m, i, map_addr, map_size, offset, w). unat map_size)") (auto simp: chunk_step)

declare map_chunks.simps [simp del]

text \<open>The roll-back of a failed mapping: the chunks mapped so far lose their access.\<close>

fun unmap_partial :: "dx_env \<Rightarrow> nat \<Rightarrow> u64 \<Rightarrow> u64 \<Rightarrow> u64 \<Rightarrow> world \<Rightarrow> world" where
  "unmap_partial env 0 map_addr map_size offset w = w"
| "unmap_partial env (Suc n) map_addr map_size offset w =
     (let block_size = min map_size GpuMemoryChunkSize in
      case kcall env (map_call (w_dev w) map_addr 0 offset block_size False) w of (code, vs, w) \<Rightarrow>
        unmap_partial env n (map_addr + block_size) (map_size - block_size) offset
          (if code = NotReady then page_fence (out_arg vs 0) w else w))"

definition MapGpuVirtualAddress :: "dx_env \<Rightarrow> GpuMemory \<Rightarrow> u64 \<Rightarrow> u64 \<Rightarrow> u64 \<Rightarrow> world \<Rightarrow> (ErrorCode \<times> world) res" where
  "MapGpuVirtualAddress env m addr len offset w =
     (case skip_chunks 0 offset of (first_chunk, offset) \<Rightarrow>
      bindE (map_chunks env m first_chunk addr len offset w) (\<lambda>(code, i, w).
        if code \<noteq> Success then Inr (code, unmap_partial env (i - first_chunk) addr len offset w)
        else Inr (code, w)))"

text \<open>
  \<^verbatim>\<open>UnmapGpuVirtualAddress\<close> does not turn a pending status into success: if the last call is
  pending, the caller is told \<^verbatim>\<open>NotReady\<close>.
\<close>

function unmap_chunks :: "dx_env \<Rightarrow> GpuMemory \<Rightarrow> nat \<Rightarrow> ErrorCode \<Rightarrow> u64 \<Rightarrow> u64 \<Rightarrow> world \<Rightarrow>
    (ErrorCode \<times> world) res" where
  "unmap_chunks env m i code map_addr map_size w =
     (if map_size = 0 then Inr (code, w)
      else bindE (GetAllocationHandle m i) (\<lambda>h.
        let block_size = min map_size GpuMemoryChunkSize in
        case kcall env (map_call (w_dev w) map_addr h 0 block_size False) w of (code, vs, w) \<Rightarrow>
          if code = Success \<or> code = NotReady then
            unmap_chunks env m (Suc i) code (map_addr + block_size) (map_size - block_size)
              (if code = NotReady then page_fence (out_arg vs 0) w else w)
          else Inr (code, w)))"
  by pat_completeness auto
termination
  by (relation "measure (\<lambda>(env, m, i, code, map_addr, map_size, w). unat map_size)") (auto simp: chunk_step)

declare unmap_chunks.simps [simp del]

definition UnmapGpuVirtualAddress :: "dx_env \<Rightarrow> GpuMemory \<Rightarrow> u64 \<Rightarrow> u64 \<Rightarrow> u64 \<Rightarrow> world \<Rightarrow> (ErrorCode \<times> world) res" where
  "UnmapGpuVirtualAddress env m addr len offset w =
     unmap_chunks env m (fst (skip_chunks 0 offset)) Success addr len w"

section \<open>Addresses, allocations and residency\<close>

definition GpuMemory_ReserveGpuVirtualAddress :: "dx_env \<Rightarrow> u64 \<Rightarrow> u64 \<Rightarrow> u64 \<Rightarrow> GpuMemory \<Rightarrow> world \<Rightarrow>
    (ErrorCode \<times> GpuMemory \<times> world) res" where
  "GpuMemory_ReserveGpuVirtualAddress env base_virt_addr len alignment m w =
     bindE
       (if (is_sysmem_exporter (gm_flags m) \<or> is_imported_sys_memfd (gm_flags m)) \<and> gm_domain m = kSystem then
          bindE (ReserveIPCSysMem env (gm_size m) (gm_alignment m) (if mem_fd m > -1 then mem_fd m else -1)
              (is_locked (gm_flags m)) (w_rt w) (w_tr w)) (\<lambda>(code, a, mfd, rt, tr).
            Inr (code, a, if code = Success then m\<lparr>mem_fd := mfd\<rparr> else m, w\<lparr>w_rt := rt, w_tr := tr\<rparr>))
        else
          bindE (Runtime_ReserveGpuVirtualAddress env (gm_domain m) base_virt_addr len alignment
              (is_locked (gm_flags m)) (w_rt w) (w_tr w)) (\<lambda>(code, a, rt, tr).
            Inr (code, a, m, w\<lparr>w_rt := rt, w_tr := tr\<rparr>)))
       (\<lambda>(code, a, m, w).
          if code = Success then
            Inr (code, if IsSystem m then m\<lparr>gm_gpu_addr := a, gm_cpu_addr := a\<rparr> else m\<lparr>gm_gpu_addr := a\<rparr>, w)
          else Inr (code, m, w))"

definition GpuMemory_FreeGpuVirtualAddress :: "dx_env \<Rightarrow> u64 \<Rightarrow> u64 \<Rightarrow> GpuMemory \<Rightarrow> world \<Rightarrow>
    (ErrorCode \<times> GpuMemory \<times> world) res" where
  "GpuMemory_FreeGpuVirtualAddress env base_addr len m w =
     (if mem_fd m > -1 then
        bindE (FreeIPCSysMem env (gm_gpu_addr m) (gm_size m) (mem_fd m) (w_rt w) (w_tr w)) (\<lambda>(code, mfd, rt, tr).
          Inr (code, m\<lparr>mem_fd := mfd\<rparr>, w\<lparr>w_rt := rt, w_tr := tr\<rparr>))
      else if base_addr \<noteq> 0 then
        bindE (Runtime_FreeGpuVirtualAddress env (gm_domain m) base_addr len (w_rt w) (w_tr w)) (\<lambda>(code, rt, tr).
          Inr (code, m, w\<lparr>w_rt := rt, w_tr := tr\<rparr>))
      else Inr (Success, m, w))"

text \<open>The loop over the chunks in \<^verbatim>\<open>CreatePhysicalMemory\<close>.\<close>

fun chunk_infos :: "bool \<Rightarrow> nat \<Rightarrow> u64 \<Rightarrow> u64 \<Rightarrow> u64 \<Rightarrow> alloc_info list" where
  "chunk_infos sysmem 0 len addr cpu_addr = []"
| "chunk_infos sysmem (Suc n) len addr cpu_addr =
     (let block_size = min len GpuMemoryChunkSize in
      (if sysmem then \<lparr>ai_size = block_size, ai_addr = 0, ai_sysmem = cpu_addr\<rparr>
       else \<lparr>ai_size = block_size, ai_addr = addr, ai_sysmem = 0\<rparr>) #
      chunk_infos sysmem n (len - block_size) (addr + block_size) (cpu_addr + block_size))"

definition shared_info_of :: "runtime \<Rightarrow> GpuMemory \<Rightarrow> SharedHandleInfo" where
  "shared_info_of rt m =
     \<lparr>si_domain = gm_domain m, si_adapter_luid = gm_adapter_luid m, si_client_size = gm_client_size m,
      si_size = gm_size m, si_flags = flags_reserved (gm_flags m), si_mem_flags = gm_mem_flags m,
      si_pid = rt_parent_pid rt, si_gpu_addr = gm_gpu_addr m\<rparr>"

text \<open>The reply carries the resource handle, then the handles of the allocations.\<close>

definition CreatePhysicalMemory :: "dx_env \<Rightarrow> GpuMemory \<Rightarrow> world \<Rightarrow> (ErrorCode \<times> GpuMemory \<times> world) res" where
  "CreatePhysicalMemory env m w =
     bindE (assertE ''CreatePhysicalMemory'' (\<not> is_virtual (gm_flags m) \<and> num_allocations m > 0)) (\<lambda>_.
       let n = unat (num_allocations m);
           infos = chunk_infos (IsUserMemory m \<or> IsSystem m) n (gm_size m) (gm_gpu_addr m) (gm_cpu_addr m);
           shared = (if is_shared (gm_flags m) then Some (shared_info_of (w_rt w) m) else None)
       in case kcall env (CreateAllocation2 (dev_handle (w_dev w)) infos shared) w of (code, vs, w) \<Rightarrow>
            if code = Success then
              (case alloc_handles m of
                 None \<Rightarrow> Inl (Null_Deref ''CreatePhysicalMemory'')
               | Some hs \<Rightarrow>
                   Inr (code, m\<lparr>alloc_handles := Some (map (\<lambda>i. out_arg vs (Suc i)) [0..<n]),
                                gm_resource := out_arg vs 0\<rparr>, w))
            else Inr (code, m, w))"

definition FreePhysicalMemory :: "dx_env \<Rightarrow> GpuMemory \<Rightarrow> world \<Rightarrow> ErrorCode \<times> GpuMemory \<times> world" where
  "FreePhysicalMemory env m w =
     (case alloc_handles m of
        None \<Rightarrow> (Success, m, w)
      | Some hs \<Rightarrow>
          if num_allocations m = 1 \<and> hs ! 0 = 0 then (Success, m, w)
          else case DestroyAllocation env (dev_handle (w_dev w)) (gm_resource m)
                      (take (unat (num_allocations m)) hs) (w_tr w) of
                 (code, tr) \<Rightarrow> (code, m\<lparr>alloc_handles := None\<rparr>, w\<lparr>w_tr := tr\<rparr>))"

definition MakeResident :: "dx_env \<Rightarrow> GpuMemory \<Rightarrow> world \<Rightarrow> ErrorCode \<times> world" where
  "MakeResident env m w =
     (case kcall env (MakeResident_call (page_queue (w_dev w))
             (case alloc_handles m of None \<Rightarrow> [] | Some hs \<Rightarrow> take (unat (num_allocations m)) hs)) w of (code, vs, w) \<Rightarrow>
        if code = NotReady then (Success, page_fence (out_arg vs 0) w) else (code, w))"

definition Evict :: "dx_env \<Rightarrow> GpuMemory \<Rightarrow> world \<Rightarrow> ErrorCode \<times> world" where
  "Evict env m w =
     (case kcall env (Evict_call (dev_handle (w_dev w))
             (case alloc_handles m of None \<Rightarrow> [] | Some hs \<Rightarrow> take (unat (num_allocations m)) hs)) w of (code, vs, w) \<Rightarrow> (code, w))"

section \<open>Life cycle\<close>

definition alloc_chunk_handles :: "GpuMemory \<Rightarrow> GpuMemory" where
  "alloc_chunk_handles m =
     (let n = CalcChunkNumbers (gm_size m)
      in m\<lparr>num_allocations := n, alloc_handles := Some (replicate (unat n) 0)\<rparr>)"

text \<open>
  The steps between the reservation of the address and the return, the same in \<^verbatim>\<open>Init\<close> and in the
  import of signal memory: the status, whether the allocations exist, and the state.
\<close>

definition back_memory :: "dx_env \<Rightarrow> GpuMemory \<Rightarrow> world \<Rightarrow> (ErrorCode \<times> bool \<times> GpuMemory \<times> world) res" where
  "back_memory env m w =
     bindE (CreatePhysicalMemory env m w) (\<lambda>(code, m, w).
       if code \<noteq> Success then Inr (code, False, m, w)
       else bindE (MapGpuVirtualAddress env m (gm_gpu_addr m) (gm_size m) 0 w) (\<lambda>(code, w).
         if code \<noteq> Success then Inr (code, True, m, w)
         else case MakeResident env m w of (code, w) \<Rightarrow>
           if code \<noteq> Success then Inr (code, True, m, w)
           else case WaitOnPagingFenceFromCpu env (w_dev w) (w_tr w) of (ok, tr) \<Rightarrow>
             Inr (if ok then Success else Unknown, True, m, w\<lparr>w_tr := tr\<rparr>)))"

text \<open>The scope guard: on an error the allocations, if created, and the address are released.\<close>

definition back_memory_guarded :: "dx_env \<Rightarrow> GpuMemory \<Rightarrow> world \<Rightarrow> (ErrorCode \<times> GpuMemory \<times> world) res" where
  "back_memory_guarded env m w =
     bindE (back_memory env m w) (\<lambda>(code, created, m, w).
       if code \<noteq> Success then
         (case (if created then snd (FreePhysicalMemory env m w) else (m, w)) of (m, w) \<Rightarrow>
          bindE (GpuMemory_FreeGpuVirtualAddress env (gm_gpu_addr m) (gm_size m) m w) (\<lambda>(_, m, w).
            Inr (code, m, w)))
       else Inr (code, m, w))"

definition init_desc :: "wddm_device \<Rightarrow> GpuMemoryCreateInfo \<Rightarrow> GpuMemory \<Rightarrow> GpuMemory" where
  "init_desc d ci m =
     (let m = m\<lparr>gm_domain := ci_domain ci, gm_adapter_luid := dev_luid d, gm_client_size := ci_size ci,
                gm_alignment := ci_alignment ci, gm_mem_flags := ci_mem_flags ci,
                gm_engine_flag := ci_engine_flag ci,
                gm_flags := (gm_flags m)\<lparr>is_virtual := ci_virtual_alloc ci,
                  is_physical_only := ci_physical_only ci,
                  is_physical_contiguous := ci_physical_contiguous ci,
                  is_imported_sys_memfd := ci_sysmem_ipc_sig_importer ci,
                  is_sysmem_exporter := ci_sysmem_ipc_sig_exporter ci,
                  is_va_required := ci_alloc_va ci, is_blit_kernel_object := ci_blit_kernel_object ci,
                  is_shared := (ci_interprocess ci \<or> ci_domain ci = kLocal \<or> is_shared (gm_flags m)),
                  is_locked := ci_locked ci\<rparr>,
                gm_size := AdjustSize d (ci_domain ci) (ci_size ci)\<rparr>
      in if IsUserMemory m \<or> IsSystem m then m\<lparr>gm_cpu_addr := ci_user_ptr ci\<rparr> else m)"

definition GpuMemory_Init :: "dx_env \<Rightarrow> GpuMemoryCreateInfo \<Rightarrow> GpuMemory \<Rightarrow> world \<Rightarrow>
    (ErrorCode \<times> GpuMemory \<times> world) res" where
  "GpuMemory_Init env ci m w =
     (let m = alloc_chunk_handles (init_desc (w_dev w) ci m) in
      if is_physical_only (gm_flags m) then
        bindE (CreatePhysicalMemory env m w) (\<lambda>(code, m, w).
          if code = Success then
            bindE (HandleApertureAlloc (gm_size m) (w_rt w)) (\<lambda>(code, a, rt).
              Inr (code, m\<lparr>gm_handle_ape_addr := a\<rparr>, w\<lparr>w_rt := rt\<rparr>))
          else Inr (code, m, w))
      else
        bindE (GpuMemory_ReserveGpuVirtualAddress env (ci_va_hint ci) (gm_size m) (ci_alignment ci) m w)
          (\<lambda>(code, m, w).
            if is_virtual (gm_flags m) \<or> code \<noteq> Success then Inr (code, m, w)
            else back_memory_guarded env m w))"

definition GpuMemory_dtor :: "dx_env \<Rightarrow> GpuMemory \<Rightarrow> world \<Rightarrow> world res" where
  "GpuMemory_dtor env m w =
     bindE (GpuMemory_FreeGpuVirtualAddress env (gm_gpu_addr m) (gm_size m) m w) (\<lambda>(_, m, w).
       case FreePhysicalMemory env m w of (_, m, w) \<Rightarrow>
         if gm_handle_ape_addr m > 0 then
           bindE (HandleApertureFree (gm_handle_ape_addr m) (w_rt w)) (\<lambda>rt. Inr (w\<lparr>w_rt := rt\<rparr>))
         else Inr w)"

definition ExportPhysicalHandle :: "dx_env \<Rightarrow> u32 \<Rightarrow> GpuMemory \<Rightarrow> world \<Rightarrow> ErrorCode \<times> int option \<times> world" where
  "ExportPhysicalHandle env flags m w =
     (if mem_fd m > -1 then (Success, Some (mem_fd m), w)
      else if is_shared (gm_flags m) then
        (case ShareObjects env (gm_resource m) flags (w_tr w) of (code, fd, tr) \<Rightarrow>
           (code, Some fd, w\<lparr>w_tr := tr\<rparr>))
      else (UnSupported, None, w))"

section \<open>Import\<close>

definition sizeof_SharedHandleInfo :: u64 where "sizeof_SharedHandleInfo = 56"

definition domain_of :: "u64 \<Rightarrow> AllocDomain" where
  "domain_of x =
     (if x = 0 then kSystem else if x = 1 then kLocal else if x = 2 then kUserMemory
      else if x = 3 then kUserQueue else kDomainCount)"

text \<open>The runtime data in the reply to the call that opens a resource, after the resource handle.\<close>

definition shared_info_reply :: "u64 list \<Rightarrow> SharedHandleInfo" where
  "shared_info_reply vs =
     \<lparr>si_domain = domain_of (out_arg vs 1), si_adapter_luid = out_arg vs 2, si_client_size = out_arg vs 3,
      si_size = out_arg vs 4, si_flags = ucast (out_arg vs 5), si_mem_flags = sint (out_arg vs 6),
      si_pid = sint (out_arg vs 7), si_gpu_addr = out_arg vs 8\<rparr>"

definition IsSameAdapter :: "GpuMemory \<Rightarrow> u64 \<Rightarrow> bool" where
  "IsSameAdapter m luid \<longleftrightarrow> gm_adapter_luid m = luid"

definition import_sysmem :: "dx_env \<Rightarrow> GpuMemoryCreateInfo \<Rightarrow> GpuMemory \<Rightarrow> world \<Rightarrow>
    (ErrorCode \<times> GpuMemory \<times> world) res" where
  "import_sysmem env ci m w =
     (case kcall env (Dup_fd (ci_dmabuf_fd ci)) w of (code, vs, w) \<Rightarrow>
      let fd = (if code = Success then sint (ucast (out_arg vs 0) :: u32) else -1);
          m = m\<lparr>mem_fd := fd, gm_client_size := ci_size ci,
                gm_size := AdjustSize (w_dev w) (gm_domain m) (ci_size ci), gm_domain := kSystem,
                gm_adapter_luid := dev_luid (w_dev w), gm_alignment := 0x1000,
                gm_mem_flags := ci_mem_flags ci, gm_engine_flag := ci_engine_flag ci,
                gm_flags := (gm_flags m)\<lparr>is_imported_sys_memfd := ci_sysmem_ipc_sig_importer ci,
                  is_va_required := ci_alloc_va ci, is_virtual := ci_virtual_alloc ci,
                  is_physical_only := ci_physical_only ci,
                  is_physical_contiguous := ci_physical_contiguous ci, is_locked := ci_locked ci\<rparr>\<rparr>
      in bindE (GpuMemory_ReserveGpuVirtualAddress env (ci_va_hint ci) (gm_size m) (ci_alignment ci) m w)
           (\<lambda>(code, m, w).
             if code \<noteq> Success then Inr (code, m, w)
             else back_memory_guarded env (alloc_chunk_handles m) w))"

text \<open>
  The import of video memory. \<open>osz\<close> is the size of \<^verbatim>\<open>D3DDDI_OPENALLOCATIONINFO2\<close>, a type of the D3DKMT
  headers. The result also carries the address of the existing buffer when the exporter is this
  process and device.
\<close>

definition import_vram :: "dx_env \<Rightarrow> u32 \<Rightarrow> GpuMemoryCreateInfo \<Rightarrow> GpuMemory \<Rightarrow> world \<Rightarrow>
    (ErrorCode \<times> u64 option \<times> GpuMemory \<times> world) res" where
  "import_vram env osz ci m w =
     (case kcall env (QueryResourceInfoFromNtHandle (dev_handle (w_dev w)) (ci_dmabuf_fd ci)) w of (code, q, w) \<Rightarrow>
      if code \<noteq> Success then Inr (InvalidParams, None, m, w)
      else if sizeof_SharedHandleInfo \<noteq> out_arg q 1 then Inr (UnSupported, None, m, w)
      else
        let n = ucast (out_arg q 0) :: u32;
            total_size = n * osz + ucast (out_arg q 2) + ucast (out_arg q 3)
        in case kcall env (Calloc total_size) w of (code, _, w) \<Rightarrow>
           if code \<noteq> Success then Inr (OutOfMemory, None, m, w)
           else
             let m = m\<lparr>alloc_handles := Some (replicate (unat n) 0)\<rparr> in
             case kcall env (OpenResourceFromNtHandle (dev_handle (w_dev w)) (ci_dmabuf_fd ci) n) w of (code, vs, w) \<Rightarrow>
             if code \<noteq> Success then Inr (InvalidParams, None, m, w)
             else
               let si = shared_info_reply vs in
               if si_pid si = rt_parent_pid (w_rt w) \<and> ci_alloc_va ci \<and> IsSameAdapter m (si_adapter_luid si) \<and>
                  si_gpu_addr si \<noteq> 0
               then Inr (SameProcessSameDevice, Some (si_gpu_addr si), m, w)
               else
                 let fl = (flags_of_reserved (si_flags si))\<lparr>is_va_required := ci_alloc_va ci\<rparr>;
                     m = m\<lparr>gm_size := si_size si, gm_client_size := si_client_size si, gm_domain := si_domain si,
                           gm_mem_flags := si_mem_flags si, gm_adapter_luid := si_adapter_luid si,
                           gm_resource := out_arg vs 0, num_allocations := ucast n,
                           alloc_handles := Some (map (\<lambda>i. out_arg vs (9 + i)) [0..<unat n])\<rparr>
                 in if ci_alloc_va ci then
                      bindE (GpuMemory_ReserveGpuVirtualAddress env (ci_va_hint ci) (gm_size m) (ci_alignment ci)
                          (m\<lparr>gm_flags := fl\<lparr>is_imported_vram_ipc := True\<rparr>\<rparr>) w)
                        (\<lambda>(code, m, w). Inr (code, None, m, w))
                    else
                      bindE (HandleApertureAlloc (gm_size m) (w_rt w)) (\<lambda>(code, a, rt).
                        Inr (code, None, m\<lparr>gm_flags := fl\<lparr>is_imported_vram_vmem := True\<rparr>, gm_handle_ape_addr := a\<rparr>,
                             w\<lparr>w_rt := rt\<rparr>)))"

definition ImportPhysicalHandle :: "dx_env \<Rightarrow> u32 \<Rightarrow> GpuMemoryCreateInfo \<Rightarrow> GpuMemory \<Rightarrow> world \<Rightarrow>
    (ErrorCode \<times> u64 option \<times> GpuMemory \<times> world) res" where
  "ImportPhysicalHandle env osz ci m w =
     (if ci_dmabuf_fd ci \<le> 0 then Inr (InvalidParams, None, m, w)
      else if ci_sysmem_ipc_sig_importer ci then
        bindE (import_sysmem env ci m w) (\<lambda>(code, m, w). Inr (code, None, m, w))
      else import_vram env osz ci m w)"

text \<open>
  \<^verbatim>\<open>WDDMDevice::CreateGpuMemory\<close>: a new object, or its destruction. \<open>junk\<close> is what the memory of
  the object held.
\<close>

definition CreateGpuMemory :: "dx_env \<Rightarrow> u32 \<Rightarrow> AllocDomain \<times> u64 \<Rightarrow> GpuMemoryCreateInfo \<Rightarrow> world \<Rightarrow>
    (ErrorCode \<times> GpuMemory option \<times> u64 option \<times> world) res" where
  "CreateGpuMemory env osz junk ci w =
     (let m = new_GpuMemory (fst junk) (snd junk) in
      bindE
        (if ci_dmabuf_fd ci > 0 then ImportPhysicalHandle env osz ci m w
         else bindE (GpuMemory_Init env ci m w) (\<lambda>(code, m, w). Inr (code, None, m, w)))
        (\<lambda>(code, va, m, w).
          if code = Success then Inr (code, Some m, va, w)
          else bindE (GpuMemory_dtor env m w) (\<lambda>w. Inr (code, None, va, w))))"

end
