(* ===== verification/Gpu_Mapping.thy ===== *)
theory Gpu_Mapping
  imports Gpu_Memory
begin

text \<open>
  Correctness of memory objects: what a trace of kernel calls leaves in the GPU page table and
  which allocations it leaves alive; mapping covers the requested range chunk by chunk
  and a failure takes every chunk back; creating an object takes one address range and one group of
  allocations, or nothing.
\<close>

section \<open>The GPU page table of a trace\<close>

type_synonym page_table = "nat \<rightharpoonup> u64 \<times> nat"

definition overlay :: "page_table \<Rightarrow> nat \<Rightarrow> nat \<Rightarrow> (nat \<Rightarrow> (u64 \<times> nat) option) \<Rightarrow> page_table" where
  "overlay pt b n f = (\<lambda>p. if b \<le> p \<and> p < b + n then f (p - b) else pt p)"

fun pt_step :: "dx_call \<times> dx_reply \<Rightarrow> page_table \<Rightarrow> page_table" where
  "pt_step (MapGpuVA a, (s, vs)) pt =
     (if s = STATUS_SUCCESS \<or> s = STATUS_PENDING then
        overlay pt (unat (ma_base a) div 4096) (unat (ma_size_pages a))
          (\<lambda>k. if ma_no_access a then None else Some (ma_allocation a, unat (ma_offset_pages a) + k))
      else pt)"
| "pt_step _ pt = pt"

definition gpu_pt :: "dx_trace \<Rightarrow> page_table" where
  "gpu_pt tr = fold pt_step tr Map.empty"

definition unmap_gpu_ok :: "dx_env \<Rightarrow> bool" where
  "unmap_gpu_ok env \<longleftrightarrow>
     (\<forall>tr a. ma_no_access a \<longrightarrow> fst (env tr (MapGpuVA a)) \<in> {STATUS_SUCCESS, STATUS_PENDING})"

lemma gpu_pt_snoc: "gpu_pt (tr @ [e]) = pt_step e (gpu_pt tr)"
  by (simp add: gpu_pt_def)

lemma overlay_zero [simp]: "overlay pt b 0 f = pt"
  by (auto simp: overlay_def fun_eq_iff)

lemma overlay_append:
  "overlay (overlay pt b n f) (b + n) k g = overlay pt b (n + k) (\<lambda>i. if i < n then f i else g (i - n))"
  by (auto simp: overlay_def fun_eq_iff)

lemma overlay_cong: "(\<And>k. k < n \<Longrightarrow> f k = g k) \<Longrightarrow> overlay pt b n f = overlay pt b n g"
  by (auto simp: overlay_def fun_eq_iff)

lemma overlay_again: "overlay (overlay pt b n f) b n g = overlay pt b n g"
  by (auto simp: overlay_def fun_eq_iff)

lemma chunk_size: "GpuMemoryChunkSize = 2147483648" "unat GpuMemoryChunkSize = 2147483648"
  by (simp_all add: GpuMemoryChunkSize_def)

lemma skip_chunks_eq:
  "skip_chunks i offset = (i + unat offset div 2147483648, offset mod 2147483648)"
proof (induction i offset rule: skip_chunks.induct)
  case (1 i offset)
  show ?case
  proof (cases "GpuMemoryChunkSize \<le> offset")
    case True
    then have le: "2147483648 \<le> unat offset" by (simp add: word_le_nat_alt chunk_size)
    have u: "unat (offset - 2147483648) = unat offset - 2147483648" using le by (simp add: unat_sub64)
    have "unat offset div 2147483648 = Suc ((unat offset - 2147483648) div 2147483648)"
      using le by (simp add: le_div_geq)
    moreover have "(offset - 2147483648) mod 2147483648 = offset mod 2147483648"
      using le u by (simp add: word_unat_eq_iff unat_mod64 le_mod_geq)
    ultimately show ?thesis using 1 True u by (subst skip_chunks.simps) (simp add: chunk_size)
  next
    case False
    then have "unat offset < 2147483648" by (simp add: word_le_nat_alt chunk_size)
    then have "offset mod 2147483648 = offset" by (simp add: word_unat_eq_iff unat_mod64)
    with False \<open>unat offset < 2147483648\<close> show ?thesis by (subst skip_chunks.simps) simp
  qed
qed

section \<open>One call\<close>

text \<open>What one mapping call leaves: only the trace and the paging fence change.\<close>

definition same_but_fence :: "world \<Rightarrow> world \<Rightarrow> bool" where
  "same_but_fence w w' \<longleftrightarrow> w_rt w' = w_rt w \<and> (\<exists>v. w_dev w' = (w_dev w)\<lparr>page_fence_value := v\<rparr>)"

lemma same_but_fence_refl [simp]: "same_but_fence w w"
  unfolding same_but_fence_def by (intro conjI refl exI [of _ "page_fence_value (w_dev w)"]) simp

lemma same_but_fence_trans: "same_but_fence w w1 \<Longrightarrow> same_but_fence w1 w2 \<Longrightarrow> same_but_fence w w2"
  by (auto simp: same_but_fence_def)

lemma same_but_fence_page_fence: "same_but_fence w (page_fence v (w\<lparr>w_tr := tr\<rparr>))"
  "same_but_fence w (w\<lparr>w_tr := tr\<rparr>)"
  by (auto simp: same_but_fence_def page_fence_def UpdatePageFence_def intro: exI [of _ "page_fence_value (w_dev w)"])

lemma kcall_eq:
  "kcall env c w = (TranslateNtStatus (fst (env (w_tr w) c)), snd (env (w_tr w) c),
     w\<lparr>w_tr := w_tr w @ [(c, env (w_tr w) c)]\<rparr>)"
  by (simp add: kcall_def dxc_def Let_def)

lemma page_fence_tr [simp]: "w_tr (page_fence v w) = w_tr w" "w_rt (page_fence v w) = w_rt w"
  by (simp_all add: page_fence_def)

lemma map_call_pt:
  assumes "fst (env tr (map_call d base h off len wr)) \<in> {STATUS_SUCCESS, STATUS_PENDING}"
  shows "gpu_pt (tr @ [(map_call d base h off len wr, env tr (map_call d base h off len wr))]) =
    overlay (gpu_pt tr) (unat base div 4096) (unat len div 4096)
      (\<lambda>k. if wr then Some (h, unat off div 4096 + k) else None)"
  using assms
  by (cases "env tr (map_call d base h off len wr)"; cases wr) (auto simp: gpu_pt_snoc map_call_def unat_div64)

lemma map_call_pt_failed:
  assumes "fst (env tr (map_call d base h off len wr)) \<notin> {STATUS_SUCCESS, STATUS_PENDING}"
  shows "gpu_pt (tr @ [(map_call d base h off len wr, env tr (map_call d base h off len wr))]) = gpu_pt tr"
  using assms by (cases "env tr (map_call d base h off len wr)") (auto simp: gpu_pt_snoc map_call_def)

section \<open>The mapping loop\<close>

definition chunk_page :: "u64 list \<Rightarrow> nat \<Rightarrow> nat \<Rightarrow> (u64 \<times> nat) option" where
  "chunk_page hs first k = Some (hs ! ((first + k) div 524288), (first + k) mod 524288)"

definition chunks_needed :: "nat \<Rightarrow> nat" where
  "chunks_needed n = (n + 2147483647) div 2147483648"

lemma chunks_needed_step: "2147483648 \<le> n \<Longrightarrow> chunks_needed n = Suc (chunks_needed (n - 2147483648))"
proof -
  assume "2147483648 \<le> n"
  then have "n + 2147483647 = (n - 2147483648 + 2147483647) + 1 * 2147483648" by simp
  then show ?thesis by (simp only: chunks_needed_def div_mult_self1 add.commute)
qed

lemma chunks_needed_pos: "0 < n \<Longrightarrow> 0 < chunks_needed n"
  by (simp add: chunks_needed_def)

definition map_result :: "u64 list \<Rightarrow> nat \<Rightarrow> nat \<Rightarrow> nat \<Rightarrow> world \<Rightarrow> ErrorCode \<times> nat \<times> world \<Rightarrow> bool" where
  "map_result hs i addr len w r \<longleftrightarrow>
     (case r of (code, i', w') \<Rightarrow>
        same_but_fence w w' \<and> i \<le> i' \<and> code \<noteq> NotReady \<and> (code \<noteq> Success \<longrightarrow> (i' - i) * 2147483648 < len) \<and>
        gpu_pt (w_tr w') = overlay (gpu_pt (w_tr w)) (addr div 4096)
          ((if code = Success then len else (i' - i) * 2147483648) div 4096) (chunk_page hs (i * 524288)))"

lemma map_result_step:
  assumes r: "map_result hs (Suc i) (addr + 2147483648) (len - 2147483648) w1 (code, i', w')"
    and w1: "same_but_fence w w1" "4096 dvd addr" "2147483648 \<le> len"
    and pt: "gpu_pt (w_tr w1) = overlay (gpu_pt (w_tr w)) (addr div 4096) 524288 (chunk_page hs (i * 524288))"
  shows "map_result hs i addr len w (code, i', w')"
proof -
  let ?n = "(if code = Success then len - 2147483648 else (i' - Suc i) * 2147483648) div 4096"
  have i: "Suc i \<le> i'" "code \<noteq> Success \<longrightarrow> (i' - Suc i) * 2147483648 < len - 2147483648"
    using r by (auto simp: map_result_def)
  have b: "(addr + 2147483648) div 4096 = addr div 4096 + 524288" using w1(2) by (auto elim!: dvdE)
  have f: "chunk_page hs (Suc i * 524288) (k - 524288) = chunk_page hs (i * 524288) k" if "\<not> k < 524288" for k
  proof -
    have "Suc i * 524288 + (k - 524288) = i * 524288 + k" using that by simp
    then show ?thesis by (simp only: chunk_page_def)
  qed
  have "gpu_pt (w_tr w') = overlay (overlay (gpu_pt (w_tr w)) (addr div 4096) 524288 (chunk_page hs (i * 524288)))
      (addr div 4096 + 524288) ?n (chunk_page hs (Suc i * 524288))"
    using r by (simp add: map_result_def pt b)
  also have "\<dots> = overlay (gpu_pt (w_tr w)) (addr div 4096) (524288 + ?n) (chunk_page hs (i * 524288))"
    unfolding overlay_append by (rule overlay_cong) (metis f)
  also have "524288 + ?n = (if code = Success then len else (i' - i) * 2147483648) div 4096"
  proof (cases "code = Success")
    case True
    have "len = 524288 * 4096 + (len - 2147483648)" using w1(3) by simp
    then have "len div 4096 = 524288 + (len - 2147483648) div 4096" by (metis div_mult_self3 zero_neq_numeral)
    with True show ?thesis by simp
  next
    case False
    have "(i' - i) * 2147483648 = 524288 * 4096 + (i' - Suc i) * 2147483648"
      using i(1) by (simp add: Suc_diff_le [symmetric] algebra_simps)
    then have "(i' - i) * 2147483648 div 4096 = 524288 + (i' - Suc i) * 2147483648 div 4096"
      by (metis div_mult_self3 zero_neq_numeral)
    with False show ?thesis by simp
  qed
  finally have "gpu_pt (w_tr w') = overlay (gpu_pt (w_tr w)) (addr div 4096)
      ((if code = Success then len else (i' - i) * 2147483648) div 4096) (chunk_page hs (i * 524288))" .
  moreover have "(i' - i) * 2147483648 = (i' - Suc i) * 2147483648 + 2147483648"
    using i(1) Suc_diff_Suc [of i i'] by (metis Suc_le_eq add.commute mult_Suc)
  then have "code \<noteq> Success \<longrightarrow> (i' - i) * 2147483648 < len" using i(2) by linarith
  ultimately show ?thesis
    using r w1(1) i(1) by (auto simp: map_result_def intro: same_but_fence_trans)
qed

lemma map_chunks_accepted:
  fixes env w addr len off i m
  defines "c h \<equiv> map_call (w_dev w) addr h off (min len GpuMemoryChunkSize) True"
  assumes hs: "alloc_handles m = Some hs" "i < length hs" and len: "len \<noteq> 0"
    and acc: "fst (env (w_tr w) (c (hs ! i))) \<in> {STATUS_SUCCESS, STATUS_PENDING}"
  shows "\<exists>w2. map_chunks env m i addr len off w =
        map_chunks env m (Suc i) (addr + min len GpuMemoryChunkSize) (len - min len GpuMemoryChunkSize) 0 w2 \<and>
      same_but_fence w w2 \<and> gpu_pt (w_tr w2) = overlay (gpu_pt (w_tr w)) (unat addr div 4096)
        (unat (min len GpuMemoryChunkSize) div 4096) (\<lambda>k. Some (hs ! i, unat off div 4096 + k))"
proof -
  let ?c = "c (hs ! i)"
  let ?w1 = "w\<lparr>w_tr := w_tr w @ [(?c, env (w_tr w) ?c)]\<rparr>"
  define w2 where "w2 = (if fst (env (w_tr w) ?c) = STATUS_PENDING
    then page_fence (out_arg (snd (env (w_tr w) ?c)) 0) ?w1 else ?w1)"
  have "map_chunks env m i addr len off w =
      map_chunks env m (Suc i) (addr + min len GpuMemoryChunkSize) (len - min len GpuMemoryChunkSize) 0 w2"
    using len hs acc by (subst map_chunks.simps) (auto simp add: GetAllocationHandle_def kcall_eq Let_def w2_def c_def)
  moreover have "same_but_fence w w2" by (simp add: w2_def same_but_fence_page_fence)
  moreover have "gpu_pt (w_tr w2) = gpu_pt (w_tr ?w1)" by (simp add: w2_def)
  ultimately show ?thesis
    using map_call_pt [where env = env, OF acc [unfolded c_def]] by (intro exI [of _ w2]) (simp add: c_def)
qed

lemma map_chunks_first:
  assumes hs: "alloc_handles m = Some hs" "i < length hs" and len: "len \<noteq> 0"
  shows "(\<exists>code w1. map_chunks env m i addr len off w = Inr (code, i, w1) \<and> code \<noteq> Success \<and> code \<noteq> NotReady \<and>
      same_but_fence w w1 \<and> gpu_pt (w_tr w1) = gpu_pt (w_tr w)) \<or>
    (\<exists>w2. map_chunks env m i addr len off w =
        map_chunks env m (Suc i) (addr + min len GpuMemoryChunkSize) (len - min len GpuMemoryChunkSize) 0 w2 \<and>
      same_but_fence w w2 \<and> gpu_pt (w_tr w2) = overlay (gpu_pt (w_tr w)) (unat addr div 4096)
        (unat (min len GpuMemoryChunkSize) div 4096) (\<lambda>k. Some (hs ! i, unat off div 4096 + k)))"
proof -
  let ?c = "map_call (w_dev w) addr (hs ! i) off (min len GpuMemoryChunkSize) True"
  let ?w1 = "w\<lparr>w_tr := w_tr w @ [(?c, env (w_tr w) ?c)]\<rparr>"
  have h: "GetAllocationHandle m i = Inr (hs ! i)" using hs by (simp add: GetAllocationHandle_def)
  show ?thesis
  proof (cases "fst (env (w_tr w) ?c) \<in> {STATUS_SUCCESS, STATUS_PENDING}")
    case False
    then have "map_chunks env m i addr len off w = Inr (TranslateNtStatus (fst (env (w_tr w) ?c)), i, ?w1)"
      using len h by (subst map_chunks.simps) (simp add: kcall_eq Let_def)
    moreover have "gpu_pt (w_tr ?w1) = gpu_pt (w_tr w)"
      using map_call_pt_failed [where env = env, OF False] by simp
    moreover have "same_but_fence w ?w1" by (rule same_but_fence_page_fence)
    ultimately show ?thesis
      using False by (intro disjI1 exI [of _ "TranslateNtStatus (fst (env (w_tr w) ?c))"] exI [of _ ?w1]) simp
  next
    case True
    from map_chunks_accepted [where env = env, OF hs len this] show ?thesis by blast
  qed
qed

lemma map_chunks_zero:
  assumes hs: "alloc_handles m = Some hs" and al: "4096 dvd unat addr" "4096 dvd unat len"
    and fits: "unat addr + unat len < 2 ^ 64" and n: "i + chunks_needed (unat len) \<le> length hs"
  shows "\<exists>r. map_chunks env m i addr len 0 w = Inr r \<and> map_result hs i (unat addr) (unat len) w r"
  using al fits n
proof (induction "unat len" arbitrary: i addr len w rule: less_induct)
  case less
  let ?b = "min len GpuMemoryChunkSize"
  have b: "unat ?b = min (unat len) 2147483648" by (auto simp: min_def word_le_nat_alt chunk_size)
  consider (empty) "len = 0"
    | (fail) code w1 where "map_chunks env m i addr len 0 w = Inr (code, i, w1)" "code \<noteq> Success" "code \<noteq> NotReady"
        "same_but_fence w w1" "gpu_pt (w_tr w1) = gpu_pt (w_tr w)" "len \<noteq> 0"
    | (step) w2 where "map_chunks env m i addr len 0 w = map_chunks env m (Suc i) (addr + ?b) (len - ?b) 0 w2"
        "same_but_fence w w2" "gpu_pt (w_tr w2) = overlay (gpu_pt (w_tr w)) (unat addr div 4096)
        (unat ?b div 4096) (\<lambda>k. Some (hs ! i, unat (0 :: u64) div 4096 + k))"
  proof (cases "len = 0")
    case False
    then have "i < length hs" using less.prems(4) chunks_needed_pos [of "unat len"] by (simp add: unat_gt_0)
    from map_chunks_first [OF hs this False] show ?thesis using that False by blast
  qed (use that in blast)
  then show ?case
  proof cases
    case empty
    then show ?thesis by (simp add: map_chunks.simps map_result_def)
  next
    case fail
    then show ?thesis by (auto simp: map_result_def unat_gt_0)
  next
    case step
    have pt: "gpu_pt (w_tr w2) = overlay (gpu_pt (w_tr w)) (unat addr div 4096) (unat ?b div 4096)
        (chunk_page hs (i * 524288))"
      unfolding step(3) by (rule overlay_cong) (auto simp: b chunk_page_def)
    show ?thesis
    proof (cases "unat len < 2147483648")
      case True
      then have "len - ?b = 0" by (simp add: min_def word_le_nat_alt chunk_size)
      then have "map_chunks env m i addr len 0 w = Inr (Success, Suc i, w2)"
        using step(1) by (simp add: map_chunks.simps)
      then show ?thesis using step(2) pt b True by (auto simp: map_result_def)
    next
      case big: False
      then have bb: "?b = 2147483648" by (auto simp: min_def word_le_nat_alt chunk_size word_unat_eq_iff)
      have u: "unat (len - ?b) = unat len - 2147483648" "unat (addr + ?b) = unat addr + 2147483648"
        unfolding bb using big less.prems(3) by (simp_all add: unat_sub64 unat_add64)
      have "\<exists>r. map_chunks env m (Suc i) (addr + ?b) (len - ?b) 0 w2 = Inr r \<and>
          map_result hs (Suc i) (unat (addr + ?b)) (unat (len - ?b)) w2 r"
        by (rule less.hyps) (use less.prems big u chunks_needed_step [of "unat len"] in \<open>auto simp: dvd_diff_nat\<close>)
      then obtain code i' w' where r: "map_chunks env m (Suc i) (addr + ?b) (len - ?b) 0 w2 = Inr (code, i', w')"
        "map_result hs (Suc i) (unat addr + 2147483648) (unat len - 2147483648) w2 (code, i', w')"
        unfolding u by auto
      have "map_result hs i (unat addr) (unat len) w (code, i', w')"
        using map_result_step [OF r(2) step(2) less.prems(1)] big pt b by simp
      with r(1) step(1) show ?thesis by metis
    qed
  qed
qed

section \<open>Roll-back\<close>

lemma unmap_partial_pt:
  assumes env: "unmap_gpu_ok env" and al: "4096 dvd unat addr" and fits: "unat addr + unat len < 2 ^ 64"
    and n: "n * 2147483648 \<le> unat len"
  shows "same_but_fence w (unmap_partial env n addr len off w) \<and>
    gpu_pt (w_tr (unmap_partial env n addr len off w)) =
      overlay (gpu_pt (w_tr w)) (unat addr div 4096) (n * 524288) (\<lambda>_. None)"
  using al fits n
proof (induction n arbitrary: addr len w)
  case (Suc n)
  let ?b = "min len GpuMemoryChunkSize"
  let ?c = "map_call (w_dev w) addr 0 off ?b False"
  let ?w1 = "w\<lparr>w_tr := w_tr w @ [(?c, env (w_tr w) ?c)]\<rparr>"
  let ?w2 = "if fst (env (w_tr w) ?c) = STATUS_PENDING then page_fence (out_arg (snd (env (w_tr w) ?c)) 0) ?w1 else ?w1"
  have bb: "?b = 2147483648" using Suc.prems(3) by (auto simp: min_def word_le_nat_alt chunk_size word_unat_eq_iff)
  have ok: "fst (env (w_tr w) ?c) \<in> {STATUS_SUCCESS, STATUS_PENDING}"
    using env by (simp add: unmap_gpu_ok_def map_call_def)
  have u: "unat (len - ?b) = unat len - 2147483648" "unat (addr + ?b) = unat addr + 2147483648"
    unfolding bb using Suc.prems(2,3) by (simp_all add: unat_sub64 unat_add64)
  have b: "(unat addr + 2147483648) div 4096 = unat addr div 4096 + 524288" using Suc.prems(1) by (auto elim!: dvdE)
  have pt: "gpu_pt (w_tr ?w2) = overlay (gpu_pt (w_tr w)) (unat addr div 4096) 524288 (\<lambda>_. None)"
    using map_call_pt [where env = env, OF ok] by (simp add: bb)
  have run: "unmap_partial env (Suc n) addr len off w = unmap_partial env n (addr + ?b) (len - ?b) off ?w2"
    by (simp add: kcall_eq Let_def)
  have ih: "same_but_fence ?w2 (unmap_partial env n (addr + ?b) (len - ?b) off ?w2)"
    "gpu_pt (w_tr (unmap_partial env n (addr + ?b) (len - ?b) off ?w2)) =
      overlay (gpu_pt (w_tr ?w2)) (unat (addr + ?b) div 4096) (n * 524288) (\<lambda>_. None)"
    using Suc.IH [of "addr + ?b" "len - ?b" ?w2] Suc.prems u by auto
  have "same_but_fence w ?w2" by (simp add: same_but_fence_page_fence)
  with ih(1) have sf: "same_but_fence w (unmap_partial env (Suc n) addr len off w)"
    unfolding run by (blast intro: same_but_fence_trans)
  have "gpu_pt (w_tr (unmap_partial env (Suc n) addr len off w)) =
      overlay (gpu_pt (w_tr w)) (unat addr div 4096) (524288 + n * 524288) (\<lambda>i. if i < 524288 then None else None)"
    unfolding run ih(2) pt u(2) b overlay_append ..
  with sf show ?case by simp
qed simp

lemma overlay_None_le: "overlay (overlay pt b n f) b n (\<lambda>_. None) \<subseteq>\<^sub>m pt"
  by (auto simp: overlay_def map_le_def)

lemma MapGpuVirtualAddress_zero:
  assumes hs: "alloc_handles m = Some hs" and al: "4096 dvd unat addr" "4096 dvd unat len"
    and fits: "unat addr + unat len < 2 ^ 64" and n: "i + chunks_needed (unat len) \<le> length hs"
    and env: "unmap_gpu_ok env" and sk: "skip_chunks 0 off = (i, 0)"
  shows "\<exists>code w'. MapGpuVirtualAddress env m addr len off w = Inr (code, w') \<and> same_but_fence w w' \<and>
    (if code = Success then gpu_pt (w_tr w') = overlay (gpu_pt (w_tr w)) (unat addr div 4096) (unat len div 4096)
       (chunk_page hs (i * 524288)) else gpu_pt (w_tr w') \<subseteq>\<^sub>m gpu_pt (w_tr w))"
proof -
  from map_chunks_zero [OF hs al fits n] obtain code i' w1 where
    r: "map_chunks env m i addr len 0 w = Inr (code, i', w1)" "map_result hs i (unat addr) (unat len) w (code, i', w1)"
    by (metis prod_cases3)
  show ?thesis
  proof (cases "code = Success")
    case True
    with r sk show ?thesis by (auto simp: MapGpuVirtualAddress_def map_result_def)
  next
    case False
    let ?w2 = "unmap_partial env (i' - i) addr len 0 w1"
    have res: "MapGpuVirtualAddress env m addr len off w = Inr (code, ?w2)"
      using False r(1) sk by (simp add: MapGpuVirtualAddress_def)
    have pages: "(i' - i) * 2147483648 div 4096 = (i' - i) * 524288" by simp
    have lt: "(i' - i) * 2147483648 \<le> unat len" and sf: "same_but_fence w w1"
      and pt: "gpu_pt (w_tr w1) = overlay (gpu_pt (w_tr w)) (unat addr div 4096) ((i' - i) * 524288) (chunk_page hs (i * 524288))"
      using r(2) False pages by (auto simp: map_result_def mult.commute)
    from unmap_partial_pt [OF env al(1) fits lt, of w1 0] have
      u: "same_but_fence w1 ?w2" "gpu_pt (w_tr ?w2) = overlay (gpu_pt (w_tr w1)) (unat addr div 4096) ((i' - i) * 524288) (\<lambda>_. None)"
      by auto
    have "gpu_pt (w_tr ?w2) \<subseteq>\<^sub>m gpu_pt (w_tr w)" unfolding u(2) pt by (rule overlay_None_le)
    with res False same_but_fence_trans [OF sf u(1)] show ?thesis by auto
  qed
qed

lemma MapGpuVirtualAddress_inside:
  assumes hs: "alloc_handles m = Some hs" "i < length hs" and sk: "skip_chunks 0 off = (i, r)"
    and len: "len \<noteq> 0" "unat r + unat len \<le> 2147483648" "4096 dvd unat r"
  shows "\<exists>code w'. MapGpuVirtualAddress env m addr len off w = Inr (code, w') \<and> same_but_fence w w' \<and>
    (if code = Success then gpu_pt (w_tr w') = overlay (gpu_pt (w_tr w)) (unat addr div 4096) (unat len div 4096)
       (chunk_page hs (i * 524288 + unat r div 4096)) else gpu_pt (w_tr w') \<subseteq>\<^sub>m gpu_pt (w_tr w))"
proof -
  have b: "min len GpuMemoryChunkSize = len" using len(2) by (simp add: min_def word_le_nat_alt chunk_size)
  from map_chunks_first [OF hs len(1), of env addr r w] show ?thesis unfolding b
  proof (elim disjE exE conjE)
    fix code w1
    assume "map_chunks env m i addr len r w = Inr (code, i, w1)" "code \<noteq> Success" "same_but_fence w w1"
      "gpu_pt (w_tr w1) = gpu_pt (w_tr w)"
    with sk show ?thesis by (auto simp: MapGpuVirtualAddress_def)
  next
    fix w2
    assume a: "map_chunks env m i addr len r w = map_chunks env m (Suc i) (addr + len) (len - len) 0 w2"
      "same_but_fence w w2" "gpu_pt (w_tr w2) = overlay (gpu_pt (w_tr w)) (unat addr div 4096)
        (unat len div 4096) (\<lambda>k. Some (hs ! i, unat r div 4096 + k))"
    have run: "MapGpuVirtualAddress env m addr len off w = Inr (Success, w2)"
      using a(1) sk by (simp add: MapGpuVirtualAddress_def map_chunks.simps)
    have "chunk_page hs (i * 524288 + unat r div 4096) k = Some (hs ! i, unat r div 4096 + k)"
      if "k < unat len div 4096" for k
    proof -
      have lt: "unat r div 4096 + k < 524288" using that len(2,3) by (auto elim!: dvdE)
      have "(i * 524288 + unat r div 4096 + k) div 524288 = i + (unat r div 4096 + k) div 524288"
        "(i * 524288 + unat r div 4096 + k) mod 524288 = (unat r div 4096 + k) mod 524288"
        by (simp_all only: add.assoc div_mult_self3 mod_mult_self3 zero_neq_numeral not_False_eq_True)
      with lt show ?thesis by (simp add: chunk_page_def)
    qed
    then have "gpu_pt (w_tr w2) = overlay (gpu_pt (w_tr w)) (unat addr div 4096) (unat len div 4096)
        (chunk_page hs (i * 524288 + unat r div 4096))" unfolding a(3) by (intro overlay_cong) simp
    with run a(2) show ?thesis by auto
  qed
qed

lemma skip_pages:
  assumes "4096 dvd unat off"
  shows "4096 dvd unat (off mod 2147483648 :: u64)"
    and "unat off div 2147483648 * 524288 + unat (off mod 2147483648) div 4096 = unat off div 4096"
proof -
  from assms obtain k where k: "unat off = 4096 * k" by (elim dvdE)
  have m: "unat (off mod 2147483648) = 4096 * (k mod 524288)"
    using mult_mod_right [of 4096 k 524288] by (simp add: unat_mod64 k)
  then show "4096 dvd unat (off mod 2147483648 :: u64)" by simp
  have d: "unat off div 2147483648 = k div 524288" using div_mult_mult1 [of 4096 k 524288] by (simp add: k)
  show "unat off div 2147483648 * 524288 + unat (off mod 2147483648) div 4096 = unat off div 4096"
    unfolding m d k by simp
qed

lemma MapGpuVirtualAddress_mapped:
  assumes hs: "alloc_handles m = Some hs" and al: "4096 dvd unat addr" "4096 dvd unat len" "4096 dvd unat off"
    and fits: "unat addr + unat len < 2 ^ 64" "unat off + unat len \<le> 2147483648 * length hs"
    and off: "unat off mod 2147483648 = 0 \<or> unat off mod 2147483648 + unat len \<le> 2147483648"
    and env: "unmap_gpu_ok env"
  shows "\<exists>code w'. MapGpuVirtualAddress env m addr len off w = Inr (code, w') \<and> same_but_fence w w' \<and>
    (if code = Success then gpu_pt (w_tr w') = overlay (gpu_pt (w_tr w)) (unat addr div 4096) (unat len div 4096)
       (chunk_page hs (unat off div 4096)) else gpu_pt (w_tr w') \<subseteq>\<^sub>m gpu_pt (w_tr w))"
proof -
  let ?i = "unat off div 2147483648" and ?r = "off mod 2147483648"
  have sk: "skip_chunks 0 off = (?i, ?r)" by (simp add: skip_chunks_eq)
  note pg = skip_pages [OF al(3)]
  have ru: "unat ?r = unat off mod 2147483648" by (simp add: unat_mod64)
  have split: "unat off = ?i * 2147483648 + unat ?r" unfolding ru by simp
  show ?thesis
  proof (cases "?r = 0 \<or> len = 0")
    case True
    then consider "?r = 0" | "?r \<noteq> 0" "len = 0" by blast
    then show ?thesis
    proof cases
      case 1
      have "?i * 2147483648 + unat len \<le> 2147483648 * length hs" using fits(2) split 1 by simp
      then have "?i + chunks_needed (unat len) \<le> length hs" unfolding chunks_needed_def by linarith
      moreover have "skip_chunks 0 off = (?i, 0)" "?i * 524288 = unat off div 4096" using sk 1 pg(2) by simp_all
      ultimately show ?thesis
        using MapGpuVirtualAddress_zero [OF hs al(1,2) fits(1) _ env, of ?i off w] by (simp only:)
    next
      case 2
      then show ?thesis using sk by (auto simp: MapGpuVirtualAddress_def map_chunks.simps)
    qed
  next
    case False
    then have "unat ?r + unat len \<le> 2147483648" using off ru by (auto simp: word_unat_eq_iff)
    moreover have "?i < length hs"
    proof -
      have "0 < unat ?r" using False by (simp add: unat_gt_0)
      then have "?i * 2147483648 < 2147483648 * length hs" using fits(2) split by linarith
      then show ?thesis by (simp add: mult.commute)
    qed
    ultimately show ?thesis
      using MapGpuVirtualAddress_inside [OF hs _ sk _ _ pg(1), of len env addr w] False unfolding pg(2) by blast
  qed
qed

section \<open>Properties of mapping\<close>

text \<open>
  C6. \<^verbatim>\<open>MapGpuVirtualAddress\<close> maps exactly the pages asked for: with an offset on a chunk boundary, or a
  range inside one chunk, a success leaves every page of the range mapped to the chunk and page of
  the object it belongs to and no other page touched; a failure of any call unmaps the
  chunks mapped before it, so no mapping is new. It never reads a handle out of bounds.
\<close>

theorem MapGpuVirtualAddress_correct:
  assumes hs: "alloc_handles m = Some hs" and al: "4096 dvd unat addr" "4096 dvd unat len" "4096 dvd unat off"
    and fits: "unat addr + unat len < 2 ^ 64" "unat off + unat len \<le> 2147483648 * length hs"
    and off: "unat off mod 2147483648 = 0 \<or> unat off mod 2147483648 + unat len \<le> 2147483648"
    and env: "unmap_gpu_ok env"
  shows "\<exists>code w'. MapGpuVirtualAddress env m addr len off w = Inr (code, w') \<and> same_but_fence w w' \<and>
    (if code = Success then gpu_pt (w_tr w') = overlay (gpu_pt (w_tr w)) (unat addr div 4096) (unat len div 4096)
       (chunk_page hs (unat off div 4096)) else gpu_pt (w_tr w') \<subseteq>\<^sub>m gpu_pt (w_tr w))"
  by (rule MapGpuVirtualAddress_mapped) (fact assms)+

definition sample_world :: world where
  "sample_world = \<lparr>w_rt = (new_hsakmtRuntime 1)\<lparr>
      rt_system_mgr := Some (VaMgr 0x100000000 0x100000000 DEFAULT_GPU_PAGE_SIZE),
      rt_local_mgr := Some (VaMgr 0x800000000 0x1000000000 DEFAULT_GPU_PAGE_SIZE),
      rt_aperture_mgr := Some (VaMgr 0x800000000000 0x800000000000 DEFAULT_GPU_PAGE_SIZE)\<rparr>,
    w_dev = device_example, w_tr = []\<rparr>"

definition sample_memory :: GpuMemory where
  "sample_memory = (new_GpuMemory kLocal 7)\<lparr>num_allocations := 2, alloc_handles := Some [0x11, 0x22],
     gm_size := 0x100000000\<rparr>"

theorem MapGpuVirtualAddress_correct_witness:
  "\<exists>code w'. MapGpuVirtualAddress sample_env sample_memory 0x800000000 0x90000000 0 sample_world = Inr (code, w') \<and>
    (code = Success \<longrightarrow> gpu_pt (w_tr w') (0x800000 + 0x80001) = Some (0x22, 1))"
proof -
  have "alloc_handles sample_memory = Some [0x11, 0x22]" by (simp add: sample_memory_def)
  moreover have "unmap_gpu_ok sample_env" by (simp add: unmap_gpu_ok_def sample_env_def)
  ultimately obtain code w' where
    "MapGpuVirtualAddress sample_env sample_memory 0x800000000 0x90000000 0 sample_world = Inr (code, w')"
    "if code = Success then gpu_pt (w_tr w') = overlay (gpu_pt (w_tr sample_world)) (unat (0x800000000 :: u64) div 4096)
       (unat (0x90000000 :: u64) div 4096) (chunk_page [0x11, 0x22] (unat (0 :: u64) div 4096))
     else gpu_pt (w_tr w') \<subseteq>\<^sub>m gpu_pt (w_tr sample_world)"
    using MapGpuVirtualAddress_correct [where addr = "0x800000000" and len = "0x90000000" and off = 0 and w = sample_world]
    by fastforce
  then show ?thesis by (auto simp: overlay_def chunk_page_def)
qed

text \<open>
  C21. A range that starts inside a chunk and crosses its end is mapped wrongly, for every object, offset and length up to
  the chunk size, once the kernel accepts the call: the first block is not cut at the end of the chunk, so the whole range is mapped to the first
  allocation and its pages run past the end of it. The page where the next chunk should begin is mapped to page 524288 of the first
  allocation, one behind its last page, where the object has page 0 of the next allocation; the caller is told \<^verbatim>\<open>Success\<close>.
\<close>

theorem MapGpuVirtualAddress_crosses_chunk:
  fixes m addr len off w hs
  defines "i \<equiv> unat off div 2147483648" and "r \<equiv> unat off mod 2147483648"
  assumes "alloc_handles m = Some hs" "4096 dvd unat off"
    and "0 < r" "unat len \<le> 2147483648" "2147483648 < r + unat len" "i < length hs"
    and "fst (env (w_tr w) (map_call (w_dev w) addr (hs ! i) (off mod 2147483648) len True)) \<in> {STATUS_SUCCESS, STATUS_PENDING}"
  shows "\<exists>w'. MapGpuVirtualAddress env m addr len off w = Inr (Success, w') \<and>
    gpu_pt (w_tr w') = overlay (gpu_pt (w_tr w)) (unat addr div 4096) (unat len div 4096) (\<lambda>k. Some (hs ! i, r div 4096 + k)) \<and>
    (4096 dvd unat len \<longrightarrow>
      gpu_pt (w_tr w') (unat addr div 4096 + (2147483648 - r) div 4096) = Some (hs ! i, 524288)) \<and>
    chunk_page hs (unat off div 4096) ((2147483648 - r) div 4096) = Some (hs ! Suc i, 0)"
proof -
  have r: "r < 2147483648" by (simp add: r_def)
  have mn: "min len GpuMemoryChunkSize = len" using assms(6) by (simp add: min_def word_le_nat_alt chunk_size)
  have len: "len \<noteq> 0" using assms(7) r by auto
  have off: "unat (off mod 2147483648) = r" by (simp add: r_def unat_mod64)
  have "fst (env (w_tr w) (map_call (w_dev w) addr (hs ! i) (off mod 2147483648) (min len GpuMemoryChunkSize) True))
      \<in> {STATUS_SUCCESS, STATUS_PENDING}" unfolding mn by (rule assms(9))
  from map_chunks_accepted [where env = env, OF assms(3,8) len this] obtain w2 where
    w2: "map_chunks env m i addr len (off mod 2147483648) w = map_chunks env m (Suc i) (addr + len) 0 0 w2"
    "gpu_pt (w_tr w2) = overlay (gpu_pt (w_tr w)) (unat addr div 4096) (unat len div 4096) (\<lambda>k. Some (hs ! i, r div 4096 + k))"
    unfolding mn off by auto
  have "4096 dvd r" unfolding r_def using assms(4) by (rule dvd_mod) simp
  then obtain q where q: "r = 4096 * q" by (elim dvdE)
  have o: "unat off = i * 2147483648 + r" by (simp add: i_def r_def)
  have "MapGpuVirtualAddress env m addr len off w = Inr (Success, w2)"
    using w2(1) by (simp add: MapGpuVirtualAddress_def skip_chunks_eq map_chunks.simps i_def)
  moreover have "gpu_pt (w_tr w2) (unat addr div 4096 + (2147483648 - r) div 4096) = Some (hs ! i, 524288)" if "4096 dvd unat len"
    using that assms(7) r q by (auto simp: w2(2) overlay_def elim!: dvdE)
  moreover have "chunk_page hs (unat off div 4096) ((2147483648 - r) div 4096) = Some (hs ! Suc i, 0)"
  proof -
    have "unat off div 4096 + (2147483648 - r) div 4096 = Suc i * 524288" using q r by (simp add: o)
    then show ?thesis by (simp only: chunk_page_def) simp
  qed
  ultimately show ?thesis using w2(2) by blast
qed

theorem MapGpuVirtualAddress_crosses_chunk_witness:
  "\<exists>w'. MapGpuVirtualAddress sample_env sample_memory 0x800000000 0x80000000 0x40000000 sample_world = Inr (Success, w') \<and>
    gpu_pt (w_tr w') (0x800000 + 0x40000) = Some (0x11, 0x80000) \<and>
    chunk_page [0x11, 0x22] 0x40000 0x40000 = Some (0x22, 0)"
proof -
  have "alloc_handles sample_memory = Some [0x11, 0x22]" by (simp add: sample_memory_def)
  moreover have "fst (sample_env (w_tr sample_world) (map_call (w_dev sample_world) 0x800000000 ([0x11, 0x22] ! 0)
      (0x40000000 mod 2147483648) 0x80000000 True)) \<in> {STATUS_SUCCESS, STATUS_PENDING}"
    by (simp add: sample_env_def map_call_def sample_world_def)
  ultimately show ?thesis
    using MapGpuVirtualAddress_crosses_chunk [of sample_memory "[0x11, 0x22]" "0x40000000" "0x80000000" sample_env sample_world "0x800000000"]
    by auto
qed

end
