(* ===== verification/Gpu_Lifecycle.thy ===== *)
theory Gpu_Lifecycle
  imports Gpu_Mapping
begin

text \<open>
  The life cycle of memory objects: which groups of allocations a trace leaves alive, and the proof
  that \<^verbatim>\<open>CreateGpuMemory\<close> takes one address range and one group of allocations or nothing, and that
  the destructor gives both back.
\<close>

section \<open>Allocations of a trace\<close>

type_synonym alloc_group = "u64 \<times> u64 list"

definition group_of :: "nat \<Rightarrow> u64 list \<Rightarrow> alloc_group" where
  "group_of n vs = (out_arg vs 0, map (\<lambda>i. out_arg vs (Suc i)) [0..<n])"

definition names_group :: "u64 \<Rightarrow> u64 list \<Rightarrow> alloc_group \<Rightarrow> bool" where
  "names_group res hs g \<longleftrightarrow> (if res \<noteq> 0 then fst g = res else snd g = hs)"

fun alloc_step :: "dx_call \<times> dx_reply \<Rightarrow> alloc_group set \<Rightarrow> alloc_group set" where
  "alloc_step (CreateAllocation2 d infos si, (s, vs)) L =
     (if s = STATUS_SUCCESS then insert (group_of (length infos) vs) L else L)"
| "alloc_step (DestroyAllocation2 d res hs, (s, vs)) L =
     (if s = STATUS_SUCCESS then {g \<in> L. \<not> names_group res hs g} else L)"
| "alloc_step _ L = L"

definition alloc_live :: "dx_trace \<Rightarrow> alloc_group set" where
  "alloc_live tr = fold alloc_step tr {}"

lemma alloc_live_snoc: "alloc_live (tr @ [e]) = alloc_step e (alloc_live tr)"
  by (simp add: alloc_live_def)

definition create_ok :: "dx_env \<Rightarrow> bool" where
  "create_ok env \<longleftrightarrow>
     (\<forall>tr d infos si vs. env tr (CreateAllocation2 d infos si) = (STATUS_SUCCESS, vs) \<longrightarrow>
        out_arg vs 1 \<noteq> 0 \<and>
        (\<forall>g\<in>alloc_live tr. (out_arg vs 0 \<noteq> 0 \<longrightarrow> fst g \<noteq> out_arg vs 0) \<and>
           snd g \<noteq> snd (group_of (length infos) vs)))"

definition destroy_ok :: "dx_env \<Rightarrow> bool" where
  "destroy_ok env \<longleftrightarrow> (\<forall>tr d res hs. fst (env tr (DestroyAllocation2 d res hs)) = STATUS_SUCCESS)"

section \<open>Frames\<close>

definition only_maps :: "dx_trace \<Rightarrow> dx_trace \<Rightarrow> bool" where
  "only_maps tr tr' \<longleftrightarrow> (\<exists>es. tr' = tr @ es \<and> (\<forall>e\<in>set es. \<exists>a. fst e = MapGpuVA a))"

lemma only_maps_refl [simp]: "only_maps tr tr"
  by (simp add: only_maps_def)

lemma only_maps_snoc: "only_maps (tr @ [(MapGpuVA a, r)]) tr' \<Longrightarrow> only_maps tr tr'"
  by (force simp: only_maps_def)

lemma only_maps_trans: "only_maps tr tr1 \<Longrightarrow> only_maps tr1 tr2 \<Longrightarrow> only_maps tr tr2"
  by (force simp: only_maps_def)

lemma only_maps_alloc: "only_maps tr tr' \<Longrightarrow> alloc_live tr' = alloc_live tr"
proof -
  have "alloc_live (tr @ es) = alloc_live tr" if "\<forall>e\<in>set es. \<exists>a. fst e = MapGpuVA a" for es
    using that
  proof (induction es rule: rev_induct)
    case (snoc e es)
    then obtain a s vs where "e = (MapGpuVA a, (s, vs))" by (cases e) auto
    with snoc show ?case using alloc_live_snoc [of "tr @ es" e] by simp
  qed simp
  then show "only_maps tr tr' \<Longrightarrow> alloc_live tr' = alloc_live tr" by (auto simp: only_maps_def)
qed

lemma map_chunks_only_maps:
  "map_chunks env m i addr len off w = Inr (code, i', w') \<Longrightarrow> only_maps (w_tr w) (w_tr w')"
proof (induction env m i addr len off w arbitrary: w' i' code rule: map_chunks.induct)
  case (1 env m i addr len off w)
  show ?case
  proof (cases "len = 0")
    case True
    with 1(2) show ?thesis by (simp add: map_chunks.simps)
  next
    case False
    with 1(2) obtain h where h: "GetAllocationHandle m i = Inr h"
      by (subst (asm) map_chunks.simps) (auto simp: bindE_Inr_iff)
    let ?b = "min len GpuMemoryChunkSize"
    let ?c = "map_call (w_dev w) addr h off ?b True"
    let ?w1 = "w\<lparr>w_tr := w_tr w @ [(?c, env (w_tr w) ?c)]\<rparr>"
    let ?code = "TranslateNtStatus (fst (env (w_tr w) ?c))"
    let ?w2 = "if ?code = NotReady then page_fence (out_arg (snd (env (w_tr w) ?c)) 0) ?w1 else ?w1"
    have run: "map_chunks env m i addr len off w = (if ?code = Success \<or> ?code = NotReady
        then map_chunks env m (Suc i) (addr + ?b) (len - ?b) 0 ?w2 else Inr (?code, i, ?w1))"
      using False h by (subst map_chunks.simps) (simp add: kcall_eq Let_def)
    have c: "\<exists>a. ?c = MapGpuVA a" by (simp add: map_call_def)
    have tr2: "w_tr ?w2 = w_tr w @ [(?c, env (w_tr w) ?c)]" by simp
    show ?thesis
    proof (cases "?code = Success \<or> ?code = NotReady")
      case True
      then have "map_chunks env m (Suc i) (addr + ?b) (len - ?b) 0 ?w2 = Inr (code, i', w')" using run 1(2) by simp
      then have "only_maps (w_tr ?w2) (w_tr w')"
        by (rule "1.IH" [OF False refl kcall_eq [symmetric] refl True])
      with c show ?thesis unfolding tr2 by (auto intro: only_maps_snoc)
    next
      case bad: False
      with run 1(2) have "w' = ?w1" by simp
      with c show ?thesis by (auto simp: only_maps_def)
    qed
  qed
qed

lemma unmap_partial_only_maps: "only_maps (w_tr w) (w_tr (unmap_partial env n addr len off w))"
proof (induction n arbitrary: addr len w)
  case (Suc n)
  let ?c = "map_call (w_dev w) addr 0 off (min len GpuMemoryChunkSize) False"
  let ?w1 = "w\<lparr>w_tr := w_tr w @ [(?c, env (w_tr w) ?c)]\<rparr>"
  let ?w2 = "if fst (env (w_tr w) ?c) = STATUS_PENDING then page_fence (out_arg (snd (env (w_tr w) ?c)) 0) ?w1 else ?w1"
  obtain a where c: "?c = MapGpuVA a" by (simp add: map_call_def)
  have tr: "w_tr ?w2 = w_tr w @ [(?c, env (w_tr w) ?c)]" by simp
  let ?b = "min len GpuMemoryChunkSize"
  have run: "unmap_partial env (Suc n) addr len off w = unmap_partial env n (addr + ?b) (len - ?b) off ?w2"
    by (simp add: kcall_eq Let_def)
  have "only_maps (w_tr ?w2) (w_tr (unmap_partial env n (addr + ?b) (len - ?b) off ?w2))" by (rule Suc.IH)
  moreover have "only_maps (w_tr w) (w_tr ?w2)" unfolding tr using c by (auto simp: only_maps_def)
  ultimately show ?case unfolding run by (rule only_maps_trans [rotated])
qed simp

lemma MapGpuVirtualAddress_only_maps:
  assumes "MapGpuVirtualAddress env m addr len off w = Inr (code, w')"
  shows "alloc_live (w_tr w') = alloc_live (w_tr w)"
proof -
  obtain i r where sk: "skip_chunks 0 off = (i, r)" by fastforce
  with assms obtain code1 i' w1 where m: "map_chunks env m i addr len r w = Inr (code1, i', w1)"
    and w': "w' = w1 \<or> w' = unmap_partial env (i' - i) addr len r w1"
    by (auto simp: MapGpuVirtualAddress_def bindE_Inr_iff split: if_splits)
  from w' have "only_maps (w_tr w1) (w_tr w')" using unmap_partial_only_maps by auto
  with map_chunks_only_maps [OF m] show ?thesis by (metis only_maps_alloc)
qed

section \<open>The steps of the life cycle\<close>

lemma chunk_infos_length [simp]: "length (chunk_infos b n len addr cpu) = n"
  by (induction n arbitrary: len addr cpu) (simp_all add: Let_def)

definition owns :: "GpuMemory \<Rightarrow> alloc_group \<Rightarrow> bool" where
  "owns m g \<longleftrightarrow> alloc_handles m = Some (snd g) \<and> gm_resource m = fst g \<and>
     length (snd g) = unat (num_allocations m) \<and> snd g ! 0 \<noteq> 0"

definition fresh_group :: "alloc_group \<Rightarrow> alloc_group set \<Rightarrow> bool" where
  "fresh_group g L \<longleftrightarrow> (\<forall>g'\<in>L. \<not> names_group (fst g) (snd g) g' \<and> \<not> names_group (fst g') (snd g') g)"

lemma CreatePhysicalMemory_post:
  assumes env: "create_ok env" and m: "\<not> is_virtual (gm_flags m)" "num_allocations m > 0" "alloc_handles m = Some hs"
  shows "\<exists>code m' w'. CreatePhysicalMemory env m w = Inr (code, m', w') \<and> w_rt w' = w_rt w \<and> w_dev w' = w_dev w \<and>
    (if code = Success then
       (\<exists>g. m' = m\<lparr>alloc_handles := Some (snd g), gm_resource := fst g\<rparr> \<and> owns m' g \<and>
          fresh_group g (alloc_live (w_tr w)) \<and> alloc_live (w_tr w') = insert g (alloc_live (w_tr w)))
     else m' = m \<and> alloc_live (w_tr w') = alloc_live (w_tr w)) \<and> gpu_pt (w_tr w') = gpu_pt (w_tr w)"
proof -
  let ?n = "unat (num_allocations m)"
  let ?c = "CreateAllocation2 (dev_handle (w_dev w))
    (chunk_infos (IsUserMemory m \<or> IsSystem m) ?n (gm_size m) (gm_gpu_addr m) (gm_cpu_addr m))
    (if is_shared (gm_flags m) then Some (shared_info_of (w_rt w) m) else None)"
  let ?w1 = "w\<lparr>w_tr := w_tr w @ [(?c, env (w_tr w) ?c)]\<rparr>"
  obtain s vs where e: "env (w_tr w) ?c = (s, vs)" by fastforce
  let ?g = "group_of ?n vs" and ?m1 = "m\<lparr>alloc_handles := Some (snd (group_of ?n vs)), gm_resource := fst (group_of ?n vs)\<rparr>"
  have run: "CreatePhysicalMemory env m w =
      (if s = STATUS_SUCCESS then Inr (Success, ?m1, ?w1) else Inr (TranslateNtStatus s, m, ?w1))"
    using m e by (simp add: CreatePhysicalMemory_def Let_def kcall_eq group_of_def)
  have pt: "gpu_pt (w_tr ?w1) = gpu_pt (w_tr w)" using e by (simp add: gpu_pt_snoc)
  show ?thesis
  proof (cases "s = STATUS_SUCCESS")
    case True
    have n: "0 < ?n" using m(2) by (simp add: word_less_nat_alt)
    from env e True have "out_arg vs 1 \<noteq> 0 \<and> (\<forall>g\<in>alloc_live (w_tr w). (out_arg vs 0 \<noteq> 0 \<longrightarrow> fst g \<noteq> out_arg vs 0) \<and> snd g \<noteq> snd ?g)"
      unfolding create_ok_def by (metis chunk_infos_length)
    then have "out_arg vs 1 \<noteq> 0" "fresh_group ?g (alloc_live (w_tr w))"
      by (auto simp: fresh_group_def group_of_def names_group_def)
    moreover have "owns ?m1 ?g" using n calculation(1) by (simp add: owns_def group_of_def)
    moreover have "alloc_live (w_tr ?w1) = insert ?g (alloc_live (w_tr w))"
      using e True by (simp add: alloc_live_snoc)
    ultimately have "\<exists>g. ?m1 = m\<lparr>alloc_handles := Some (snd g), gm_resource := fst g\<rparr> \<and> owns ?m1 g \<and>
        fresh_group g (alloc_live (w_tr w)) \<and> alloc_live (w_tr ?w1) = insert g (alloc_live (w_tr w))" by blast
    with run True pt show ?thesis by (intro exI [of _ Success] exI [of _ ?m1] exI [of _ ?w1]) simp
  next
    case False
    then have "alloc_live (w_tr ?w1) = alloc_live (w_tr w)" using e by (simp add: alloc_live_snoc)
    with run False pt show ?thesis by (intro exI [of _ "TranslateNtStatus s"] exI [of _ m] exI [of _ ?w1]) simp
  qed
qed

lemma FreePhysicalMemory_post:
  assumes env: "destroy_ok env" and o: "owns m g" and f: "fresh_group g L" and l: "alloc_live (w_tr w) = insert g L"
  shows "\<exists>code w'. FreePhysicalMemory env m w = (code, m\<lparr>alloc_handles := None\<rparr>, w') \<and> w_rt w' = w_rt w \<and>
    w_dev w' = w_dev w \<and> alloc_live (w_tr w') = L"
proof -
  let ?c = "DestroyAllocation2 (dev_handle (w_dev w)) (gm_resource m) (if gm_resource m \<noteq> 0 then [] else snd g)"
  let ?w1 = "w\<lparr>w_tr := w_tr w @ [(?c, env (w_tr w) ?c)]\<rparr>"
  have run: "FreePhysicalMemory env m w = (TranslateNtStatus (fst (env (w_tr w) ?c)), m\<lparr>alloc_handles := None\<rparr>, ?w1)"
    using o by (simp add: FreePhysicalMemory_def owns_def DestroyAllocation_def dxc_def Let_def split: if_splits)
  have s: "fst (env (w_tr w) ?c) = STATUS_SUCCESS" using env by (simp add: destroy_ok_def)
  have "names_group (gm_resource m) (if gm_resource m \<noteq> 0 then [] else snd g) g' \<longleftrightarrow> names_group (fst g) (snd g) g'" for g'
    using o by (simp add: names_group_def owns_def)
  moreover have "names_group (fst g) (snd g) g" by (simp add: names_group_def)
  ultimately have "alloc_live (w_tr ?w1) = L"
    using s f l by (cases "env (w_tr w) ?c") (auto simp: alloc_live_snoc fresh_group_def)
  with run show ?thesis by auto
qed

lemma MakeResident_post:
  "\<exists>code w'. MakeResident env m w = (code, w') \<and> same_but_fence w w' \<and> alloc_live (w_tr w') = alloc_live (w_tr w) \<and>
    gpu_pt (w_tr w') = gpu_pt (w_tr w)"
proof -
  let ?c = "MakeResident_call (page_queue (w_dev w))
    (case alloc_handles m of None \<Rightarrow> [] | Some hs \<Rightarrow> take (unat (num_allocations m)) hs)"
  obtain s vs where e: "env (w_tr w) ?c = (s, vs)" by fastforce
  then show ?thesis by (auto simp: MakeResident_def kcall_eq alloc_live_snoc gpu_pt_snoc same_but_fence_page_fence)
qed

lemma WaitOnPagingFence_post:
  "\<exists>ok tr'. WaitOnPagingFenceFromCpu env d tr = (ok, tr') \<and> alloc_live tr' = alloc_live tr \<and> gpu_pt tr' = gpu_pt tr"
proof -
  let ?c = "WaitForSynchronizationObjectFromCpu (page_syncobj d) (page_fence_value d)"
  obtain s vs where e: "env tr ?c = (s, vs)" by fastforce
  then show ?thesis
    by (simp add: WaitOnPagingFenceFromCpu_def CpuWait_def dx_def dxc_def Let_def alloc_live_snoc gpu_pt_snoc)
qed

definition ready :: "GpuMemory \<Rightarrow> bool" where
  "ready m \<longleftrightarrow> \<not> is_virtual (gm_flags m) \<and> num_allocations m > 0 \<and> alloc_handles m \<noteq> None \<and>
     unat (gm_size m) \<le> 2147483648 * unat (num_allocations m) \<and>
     4096 dvd unat (gm_gpu_addr m) \<and> 4096 dvd unat (gm_size m) \<and>
     unat (gm_gpu_addr m) + unat (gm_size m) < 2 ^ 64"

lemma same_but_fence_eq: "w_rt w' = w_rt w \<Longrightarrow> w_dev w' = w_dev w \<Longrightarrow> same_but_fence w w'"
  unfolding same_but_fence_def by (intro conjI exI [of _ "page_fence_value (w_dev w)"]) simp_all

text \<open>What the operations leave alone: the runtime but one manager, the device but its paging fence.\<close>

definition same_but_mgr :: "AllocDomain \<Rightarrow> world \<Rightarrow> world \<Rightarrow> bool" where
  "same_but_mgr domain w w' \<longleftrightarrow>
     (\<exists>m. w_rt w' = set_mgr domain m (w_rt w)) \<and> (\<exists>v. w_dev w' = (w_dev w)\<lparr>page_fence_value := v\<rparr>)"

lemma same_but_fence_mgr: "same_but_fence w w' \<Longrightarrow> same_but_mgr domain w w'"
  unfolding same_but_mgr_def same_but_fence_def
  by (intro conjI exI [of _ "rt_mgr domain (w_rt w)"]) (auto simp: set_mgr_def rt_mgr_def)

lemma set_mgr_set_mgr [simp]: "set_mgr d m2 (set_mgr d m1 rt) = set_mgr d m2 rt"
  by (cases d) (simp_all add: set_mgr_def)

lemma same_but_mgr_trans: "same_but_mgr d w w1 \<Longrightarrow> same_but_mgr d w1 w2 \<Longrightarrow> same_but_mgr d w w2"
  unfolding same_but_mgr_def by fastforce

text \<open>What backing memory does on every path.\<close>

definition backed :: "GpuMemory \<Rightarrow> world \<Rightarrow> GpuMemory \<Rightarrow> world \<Rightarrow> alloc_group \<Rightarrow> bool" where
  "backed m w m' w' g \<longleftrightarrow> m' = m\<lparr>alloc_handles := Some (snd g), gm_resource := fst g\<rparr> \<and> owns m' g \<and>
     fresh_group g (alloc_live (w_tr w)) \<and> alloc_live (w_tr w') = insert g (alloc_live (w_tr w))"

definition mapped_object :: "GpuMemory \<Rightarrow> world \<Rightarrow> world \<Rightarrow> alloc_group \<Rightarrow> bool" where
  "mapped_object m w w' g \<longleftrightarrow>
     gpu_pt (w_tr w') = overlay (gpu_pt (w_tr w)) (unat (gm_gpu_addr m) div 4096) (unat (gm_size m) div 4096)
       (chunk_page (snd g) 0)"

lemma back_memory_post:
  assumes env: "create_ok env" "unmap_gpu_ok env" and m: "ready m"
  shows "\<exists>code created m' w'. back_memory env m w = Inr (code, created, m', w') \<and> same_but_fence w w' \<and>
    (if created then (\<exists>g. backed m w m' w' g \<and> (code = Success \<longrightarrow> mapped_object m w w' g))
     else code \<noteq> Success \<and> m' = m \<and> alloc_live (w_tr w') = alloc_live (w_tr w))"
proof -
  from m obtain hs where hs: "alloc_handles m = Some hs" by (auto simp: ready_def)
  from CreatePhysicalMemory_post [OF env(1) _ _ hs, of w] m obtain code1 m1 w1 where
    c0: "CreatePhysicalMemory env m w = Inr (code1, m1, w1)" "w_rt w1 = w_rt w" "w_dev w1 = w_dev w"
      "gpu_pt (w_tr w1) = gpu_pt (w_tr w)"
      "if code1 = Success then \<exists>g. backed m w m1 w1 g else m1 = m \<and> alloc_live (w_tr w1) = alloc_live (w_tr w)"
    unfolding ready_def backed_def by blast
  note c = c0(1) same_but_fence_eq [OF c0(2,3)] c0(4,5)
  show ?thesis
  proof (cases "code1 = Success")
    case False
    with c show ?thesis by (auto simp: back_memory_def)
  next
    case True
    with c(4) obtain g where g: "backed m w m1 w1 g" by auto
    then have m1: "alloc_handles m1 = Some (snd g)" "gm_gpu_addr m1 = gm_gpu_addr m" "gm_size m1 = gm_size m"
      "length (snd g) = unat (num_allocations m)" by (auto simp: backed_def owns_def)
    obtain code2 w2 where mp: "MapGpuVirtualAddress env m1 (gm_gpu_addr m) (gm_size m) 0 w1 = Inr (code2, w2)"
      "same_but_fence w1 w2" "code2 = Success \<longrightarrow> gpu_pt (w_tr w2) = overlay (gpu_pt (w_tr w1))
        (unat (gm_gpu_addr m) div 4096) (unat (gm_size m) div 4096) (chunk_page (snd g) 0)"
      using MapGpuVirtualAddress_mapped [OF m1(1), of "gm_gpu_addr m" "gm_size m" 0 env w1] m m1(4) env(2)
      by (fastforce simp: ready_def)
    have a2: "alloc_live (w_tr w2) = alloc_live (w_tr w1)" by (rule MapGpuVirtualAddress_only_maps [OF mp(1)])
    have rt2: "same_but_fence w w2" by (rule same_but_fence_trans [OF c(2) mp(2)])
    obtain code3 w3 where r: "MakeResident env m1 w2 = (code3, w3)" "same_but_fence w2 w3"
      "alloc_live (w_tr w3) = alloc_live (w_tr w2)" "gpu_pt (w_tr w3) = gpu_pt (w_tr w2)"
      using MakeResident_post by blast
    have rt3: "same_but_fence w w3" "same_but_fence w (w3\<lparr>w_tr := tr\<rparr>)" for tr
      using same_but_fence_trans [OF rt2 r(2)] same_but_fence_page_fence(2) same_but_fence_trans by blast+
    obtain ok tr4 where t: "WaitOnPagingFenceFromCpu env (w_dev w3) (w_tr w3) = (ok, tr4)"
      "alloc_live tr4 = alloc_live (w_tr w3)" "gpu_pt tr4 = gpu_pt (w_tr w3)"
      using WaitOnPagingFence_post by blast
    have bk: "backed m w m1 w2 g" "backed m w m1 w3 g" "backed m w m1 (w3\<lparr>w_tr := tr4\<rparr>) g"
      using g a2 r(3) t(2) by (auto simp: backed_def)
    have mo: "code2 = Success \<longrightarrow> mapped_object m w (w3\<lparr>w_tr := tr4\<rparr>) g"
      using mp(3) c(3) r(4) t(3) by (simp add: mapped_object_def)
    have eq: "back_memory env m w =
        (if code2 \<noteq> Success then Inr (code2, True, m1, w2) else if code3 \<noteq> Success then Inr (code3, True, m1, w3)
         else Inr (if ok then Success else Unknown, True, m1, w3\<lparr>w_tr := tr4\<rparr>))"
      using True c(1) mp(1) r(1) t(1) m1(2,3) by (simp add: back_memory_def)
    have fin: ?thesis if "back_memory env m w = Inr (code, True, m1, w')" "same_but_fence w w'" "backed m w m1 w' g"
      "code = Success \<longrightarrow> mapped_object m w w' g" for code w'
      using that by (intro exI [of _ code] exI [of _ True] exI [of _ m1] exI [of _ w']) (simp only: if_True, blast)
    show ?thesis
    proof (cases "code2 = Success \<and> code3 = Success")
      case True
      show ?thesis by (rule fin [OF _ _ bk(3)]) (use eq True mo rt3 in auto)
    next
      case False
      then consider "code2 \<noteq> Success" | "code2 = Success" "code3 \<noteq> Success" by blast
      then show ?thesis
      proof cases
        case 1
        show ?thesis by (rule fin [where code = code2, OF _ rt2 bk(1)]) (use eq 1 in auto)
      next
        case 2
        show ?thesis by (rule fin [where code = code3, OF _ _ bk(2)]) (use eq 2 rt3 in auto)
      qed
    qed
  qed
qed

section \<open>Addresses\<close>

lemma mmap_alloc_live [simp]: "alloc_live (tr @ [(Mmap a len k, r)]) = alloc_live tr"
  "alloc_live (tr @ [(Madvise_dontfork a len, r)]) = alloc_live tr"
  "gpu_pt (tr @ [(Mmap a len k, r)]) = gpu_pt tr"
  "gpu_pt (tr @ [(Madvise_dontfork a len, r)]) = gpu_pt tr"
  by (cases r; simp add: alloc_live_snoc gpu_pt_snoc)+

lemma Runtime_Free_frame:
  assumes "fixed_map_ok env" and "Runtime_FreeGpuVirtualAddress env domain a len rt tr = Inr (code, rt', tr')"
  shows "alloc_live tr' = alloc_live tr" and "rt_aperture_mgr rt' = rt_aperture_mgr rt"
  using assms(2)
  by (auto simp: Runtime_FreeGpuVirtualAddress_def DecommitSystemHeapSpace_def mmap_fixed_eq [OF assms(1)]
      bindE_Inr_iff split: if_splits)

lemma CommitSystemHeapSpace_frame:
  assumes "fixed_map_ok env" and "CommitSystemHeapSpace env a len lock tr = Inr (ok, tr')"
  shows "alloc_live tr' = alloc_live tr" and "gpu_pt tr' = gpu_pt tr"
proof -
  let ?tr1 = "tr @ [(Mmap a len (Map_Commit lock), env tr (Mmap a len (Map_Commit lock)))]"
  from assms(2) have "tr' = ?tr1 \<or> tr' = ?tr1 @ [(Madvise_dontfork a len, env ?tr1 (Madvise_dontfork a len))]"
    by (auto simp: CommitSystemHeapSpace_def mmap_fixed_eq [OF assms(1)] dx_trace_step split: if_splits)
  then show "alloc_live tr' = alloc_live tr" "gpu_pt tr' = gpu_pt tr" by (metis mmap_alloc_live)+
qed

lemma Runtime_Reserve_frame:
  assumes "fixed_map_ok env"
    and "Runtime_ReserveGpuVirtualAddress env domain h len al lock rt tr = Inr (code, a, rt', tr')"
  shows "alloc_live tr' = alloc_live tr \<and> gpu_pt tr' = gpu_pt tr \<and> rt_aperture_mgr rt' = rt_aperture_mgr rt"
proof (cases "domain = kSystem")
  case True
  with assms(2) obtain a ok v where "CommitSystemHeapSpace env a len lock tr = Inr (ok, tr')" "rt' = rt\<lparr>rt_system_mgr := Some v\<rparr>"
    by (auto simp: Runtime_ReserveGpuVirtualAddress_def Let_def bindE_Inr_iff)
  with CommitSystemHeapSpace_frame [OF assms(1)] show ?thesis by simp
next
  case False
  with assms(2) show ?thesis
    by (auto simp: Runtime_ReserveGpuVirtualAddress_def Let_def bindE_Inr_iff)
qed

lemma mgr_live_zero: "mgr_ok r m \<Longrightarrow> mgr_live m 0 = None"
proof -
  assume "mgr_ok r m"
  then obtain v where v: "m = Some v" "va_inv (fst r) (snd r) v" by (auto simp: mgr_ok_def va_state_def)
  with va_ranges [OF v(2)] have "0 < fst r" "ranges_ok (fst r) (snd r) (va_live v)" by (auto simp: va_inv_def)
  then have "va_live v 0 = None" unfolding ranges_ok_def by (metis not_None_eq not_less unsigned_0)
  with v(1) show ?thesis by (simp add: mgr_live_def)
qed

lemma GpuMemory_Free_post:
  assumes env: "fixed_map_ok env" and m: "mem_fd m = -1" "mgr_ok r (rt_mgr (gm_domain m) (w_rt w))"
  shows "\<exists>w'. GpuMemory_FreeGpuVirtualAddress env a len m w = Inr (Success, m, w') \<and>
    mgr_ok r (rt_mgr (gm_domain m) (w_rt w')) \<and>
    mgr_live (rt_mgr (gm_domain m) (w_rt w')) = (mgr_live (rt_mgr (gm_domain m) (w_rt w)))(a := None) \<and>
    alloc_live (w_tr w') = alloc_live (w_tr w) \<and> same_but_mgr (gm_domain m) w w'"
proof (cases "a = 0")
  case True
  have "(mgr_live (rt_mgr (gm_domain m) (w_rt w)))(0 := None) = mgr_live (rt_mgr (gm_domain m) (w_rt w))"
    using mgr_live_zero [OF m(2)] by (simp add: fun_upd_idem)
  with True m same_but_fence_mgr [OF same_but_fence_refl] show ?thesis by (simp add: GpuMemory_FreeGpuVirtualAddress_def)
next
  case False
  from Runtime_Free_post [OF env m(2), of a len "w_tr w"] obtain mg tr' where
    f: "Runtime_FreeGpuVirtualAddress env (gm_domain m) a len (w_rt w) (w_tr w) = Inr (Success, set_mgr (gm_domain m) mg (w_rt w), tr')"
      "mgr_ok r mg" "mgr_live mg = (mgr_live (rt_mgr (gm_domain m) (w_rt w)))(a := None)" by blast
  have "same_but_mgr (gm_domain m) w (w\<lparr>w_rt := set_mgr (gm_domain m) mg (w_rt w), w_tr := tr'\<rparr>)"
    unfolding same_but_mgr_def by (intro conjI exI [of _ mg] exI [of _ "page_fence_value (w_dev w)"]) simp_all
  with False m f Runtime_Free_frame [OF env f(1)] show ?thesis by (simp add: GpuMemory_FreeGpuVirtualAddress_def)
qed

section \<open>Creation and destruction\<close>

text \<open>
  A memory object that owns nothing: its address, if any, has been given back, and what is left of
  its handles names no live allocation.
\<close>

definition spent :: "GpuMemory \<Rightarrow> GpuMemory \<Rightarrow> bool" where
  "spent m m' \<longleftrightarrow> mem_fd m' = -1 \<and> gm_domain m' = gm_domain m \<and> gm_handle_ape_addr m' = 0 \<and>
     (alloc_handles m' = None \<or> gm_resource m' = 0 \<and> alloc_handles m' = Some (replicate (unat (num_allocations m')) 0))"

definition groups_ok :: "alloc_group set \<Rightarrow> bool" where
  "groups_ok L \<longleftrightarrow> (\<forall>g\<in>L. snd g \<noteq> [] \<and> snd g ! 0 \<noteq> 0)"

lemma spent_free_physical:
  assumes "spent m0 m" and "groups_ok (alloc_live (w_tr w))"
  shows "\<exists>code m' w'. FreePhysicalMemory env m w = (code, m', w') \<and> w_rt w' = w_rt w \<and> w_dev w' = w_dev w \<and>
    gm_handle_ape_addr m' = 0 \<and> alloc_live (w_tr w') = alloc_live (w_tr w)"
proof (cases "alloc_handles m = None \<or> num_allocations m = 1")
  case True
  with assms(1) show ?thesis by (auto simp: spent_def FreePhysicalMemory_def)
next
  case False
  with assms(1) have h: "alloc_handles m = Some (replicate (unat (num_allocations m)) 0)" "gm_resource m = 0"
    by (auto simp: spent_def)
  let ?hs = "replicate (unat (num_allocations m)) (0 :: u64)"
  let ?c = "DestroyAllocation2 (dev_handle (w_dev w)) 0 ?hs"
  have "\<not> names_group 0 ?hs g" if "g \<in> alloc_live (w_tr w)" for g
    using assms(2) that by (cases "unat (num_allocations m)") (auto simp: groups_ok_def names_group_def)
  then have "alloc_live (w_tr w @ [(?c, env (w_tr w) ?c)]) = alloc_live (w_tr w)"
    by (cases "env (w_tr w) ?c") (auto simp: alloc_live_snoc)
  with False h assms(1) show ?thesis
    by (auto simp: FreePhysicalMemory_def DestroyAllocation_def dxc_def Let_def spent_def)
qed

lemma dtor_spent:
  assumes env: "fixed_map_ok env" and m: "spent m0 m" "mgr_ok r (rt_mgr (gm_domain m) (w_rt w))"
    and g: "groups_ok (alloc_live (w_tr w))"
  shows "\<exists>w'. GpuMemory_dtor env m w = Inr w' \<and> mgr_ok r (rt_mgr (gm_domain m) (w_rt w')) \<and>
    mgr_live (rt_mgr (gm_domain m) (w_rt w')) = (mgr_live (rt_mgr (gm_domain m) (w_rt w)))(gm_gpu_addr m := None) \<and>
    alloc_live (w_tr w') = alloc_live (w_tr w) \<and> same_but_mgr (gm_domain m) w w'"
proof -
  have "mem_fd m = -1" using m(1) by (simp add: spent_def)
  from GpuMemory_Free_post [OF env this m(2), of "gm_gpu_addr m" "gm_size m"] obtain w1 where
    f: "GpuMemory_FreeGpuVirtualAddress env (gm_gpu_addr m) (gm_size m) m w = Inr (Success, m, w1)"
      "mgr_ok r (rt_mgr (gm_domain m) (w_rt w1))"
      "mgr_live (rt_mgr (gm_domain m) (w_rt w1)) = (mgr_live (rt_mgr (gm_domain m) (w_rt w)))(gm_gpu_addr m := None)"
      "alloc_live (w_tr w1) = alloc_live (w_tr w)" "same_but_mgr (gm_domain m) w w1" by blast
  from g f(4) have "groups_ok (alloc_live (w_tr w1))" by simp
  from spent_free_physical [OF m(1) this, of env] obtain code m2 w2 where
    p: "FreePhysicalMemory env m w1 = (code, m2, w2)" "w_rt w2 = w_rt w1" "w_dev w2 = w_dev w1" "gm_handle_ape_addr m2 = 0"
      "alloc_live (w_tr w2) = alloc_live (w_tr w1)" by blast
  have "same_but_mgr (gm_domain m) w w2"
    by (rule same_but_mgr_trans [OF f(5) same_but_fence_mgr [OF same_but_fence_eq [OF p(2,3)]]])
  with f p show ?thesis by (simp add: GpuMemory_dtor_def)
qed

lemma dtor_owner:
  assumes env: "fixed_map_ok env" "destroy_ok env"
    and m: "mem_fd m = -1" "gm_handle_ape_addr m = 0" "owns m g" "mgr_ok r (rt_mgr (gm_domain m) (w_rt w))"
    and g: "fresh_group g L" "alloc_live (w_tr w) = insert g L"
  shows "\<exists>w'. GpuMemory_dtor env m w = Inr w' \<and> mgr_ok r (rt_mgr (gm_domain m) (w_rt w')) \<and>
    mgr_live (rt_mgr (gm_domain m) (w_rt w')) = (mgr_live (rt_mgr (gm_domain m) (w_rt w)))(gm_gpu_addr m := None) \<and>
    alloc_live (w_tr w') = L \<and> same_but_mgr (gm_domain m) w w'"
proof -
  from GpuMemory_Free_post [OF env(1) m(1,4), of "gm_gpu_addr m" "gm_size m"] obtain w1 where
    f: "GpuMemory_FreeGpuVirtualAddress env (gm_gpu_addr m) (gm_size m) m w = Inr (Success, m, w1)"
      "mgr_ok r (rt_mgr (gm_domain m) (w_rt w1))"
      "mgr_live (rt_mgr (gm_domain m) (w_rt w1)) = (mgr_live (rt_mgr (gm_domain m) (w_rt w)))(gm_gpu_addr m := None)"
      "alloc_live (w_tr w1) = alloc_live (w_tr w)" "same_but_mgr (gm_domain m) w w1" by blast
  from f(4) g(2) have "alloc_live (w_tr w1) = insert g L" by simp
  from FreePhysicalMemory_post [OF env(2) m(3) g(1) this] obtain code w2 where
    p: "FreePhysicalMemory env m w1 = (code, m\<lparr>alloc_handles := None\<rparr>, w2)" "w_rt w2 = w_rt w1" "w_dev w2 = w_dev w1"
      "alloc_live (w_tr w2) = L" by blast
  have "same_but_mgr (gm_domain m) w w2"
    by (rule same_but_mgr_trans [OF f(5) same_but_fence_mgr [OF same_but_fence_eq [OF p(2,3)]]])
  with f m(2) p show ?thesis by (simp add: GpuMemory_dtor_def)
qed

lemma guarded_post:
  assumes env: "create_ok env" "destroy_ok env" "unmap_gpu_ok env" "fixed_map_ok env"
    and m: "ready m" "mem_fd m = -1" "gm_handle_ape_addr m = 0" "gm_resource m = 0"
      "alloc_handles m = Some (replicate (unat (num_allocations m)) 0)"
      "mgr_ok r (rt_mgr (gm_domain m) (w_rt w))"
  shows "\<exists>code m' w'. back_memory_guarded env m w = Inr (code, m', w') \<and> mgr_ok r (rt_mgr (gm_domain m) (w_rt w')) \<and>
    same_but_mgr (gm_domain m) w w' \<and>
    (if code = Success then w_rt w' = w_rt w \<and> (\<exists>g. backed m w m' w' g \<and> mapped_object m w w' g)
     else spent m m' \<and> gm_gpu_addr m' = gm_gpu_addr m \<and> alloc_live (w_tr w') = alloc_live (w_tr w) \<and>
       mgr_live (rt_mgr (gm_domain m) (w_rt w')) = (mgr_live (rt_mgr (gm_domain m) (w_rt w)))(gm_gpu_addr m := None))"
proof -
  from back_memory_post [OF env(1,3) m(1), of w] obtain code created m1 w1 where
    b: "back_memory env m w = Inr (code, created, m1, w1)" "same_but_fence w w1"
      "if created then \<exists>g. backed m w m1 w1 g \<and> (code = Success \<longrightarrow> mapped_object m w w1 g)
       else code \<noteq> Success \<and> m1 = m \<and> alloc_live (w_tr w1) = alloc_live (w_tr w)" by blast
  have rt1: "w_rt w1 = w_rt w" using b(2) by (simp add: same_but_fence_def)
  show ?thesis
  proof (cases "code = Success")
    case True
    with b m(6) rt1 same_but_fence_mgr [OF b(2)] show ?thesis by (auto simp: back_memory_guarded_def split: if_splits)
  next
    case False
    obtain m2 w2 where p: "(if created then snd (FreePhysicalMemory env m1 w1) else (m1, w1)) = (m2, w2)"
      "w_rt w2 = w_rt w1" "w_dev w2 = w_dev w1" "spent m m2" "gm_gpu_addr m2 = gm_gpu_addr m" "gm_size m2 = gm_size m"
      "alloc_live (w_tr w2) = alloc_live (w_tr w)"
    proof (cases created)
      case True
      with b(3) obtain g where g: "backed m w m1 w1 g" by auto
      then have "owns m1 g" "fresh_group g (alloc_live (w_tr w))" "alloc_live (w_tr w1) = insert g (alloc_live (w_tr w))"
        and m1: "m1 = m\<lparr>alloc_handles := Some (snd g), gm_resource := fst g\<rparr>" by (auto simp: backed_def)
      from FreePhysicalMemory_post [OF env(2) this(1-3)] obtain c w2 where
        "FreePhysicalMemory env m1 w1 = (c, m1\<lparr>alloc_handles := None\<rparr>, w2)" "w_rt w2 = w_rt w1" "w_dev w2 = w_dev w1"
        "alloc_live (w_tr w2) = alloc_live (w_tr w)" by blast
      with True m1 m(2,3) that show ?thesis by (simp add: spent_def)
    next
      case False
      with b(3) m that show ?thesis by (simp add: spent_def)
    qed
    have d: "gm_domain m2 = gm_domain m" "mem_fd m2 = -1" using p(4) by (simp_all add: spent_def)
    have "mgr_ok r (rt_mgr (gm_domain m2) (w_rt w2))" using m(6) rt1 p(2) d(1) by simp
    from GpuMemory_Free_post [OF env(4) d(2) this, of "gm_gpu_addr m2" "gm_size m2"] obtain w3 where
      f: "GpuMemory_FreeGpuVirtualAddress env (gm_gpu_addr m2) (gm_size m2) m2 w2 = Inr (Success, m2, w3)"
        "mgr_ok r (rt_mgr (gm_domain m) (w_rt w3))"
        "mgr_live (rt_mgr (gm_domain m) (w_rt w3)) = (mgr_live (rt_mgr (gm_domain m) (w_rt w)))(gm_gpu_addr m := None)"
        "alloc_live (w_tr w3) = alloc_live (w_tr w2)" "same_but_mgr (gm_domain m) w2 w3"
      unfolding d(1) using p(2,5) rt1 by auto
    have "same_but_mgr (gm_domain m) w w3"
      using same_but_mgr_trans [OF same_but_fence_mgr [OF b(2)] same_but_mgr_trans [OF same_but_fence_mgr [OF same_but_fence_eq [OF p(2,3)]] f(5)]] .
    moreover have "back_memory_guarded env m w = Inr (code, m2, w3)"
      using b(1) False p(1) f(1) by (simp add: back_memory_guarded_def)
    ultimately show ?thesis using False f p by auto
  qed
qed

section \<open>A plain request\<close>

text \<open>
  A request for memory of its own, backed and mapped at once, at an address the runtime chooses, whose
  size, after the device's rounding, is a number of pages that fits the address arithmetic.
\<close>

definition plain_request :: "wddm_device \<Rightarrow> GpuMemoryCreateInfo \<Rightarrow> bool" where
  "plain_request d ci \<longleftrightarrow>
     ci_dmabuf_fd ci \<le> 0 \<and> \<not> ci_virtual_alloc ci \<and> \<not> ci_physical_only ci \<and>
     \<not> ci_sysmem_ipc_sig_importer ci \<and> \<not> ci_sysmem_ipc_sig_exporter ci \<and> ci_va_hint ci = 0 \<and>
     (let len = AdjustSize d (ci_domain ci) (ci_size ci) in
        4096 dvd unat len \<and> unat len + 2 ^ 31 \<le> 2 ^ 64 \<and>
        va_request len (heap_align len (ci_alignment ci)) \<and> 4096 dvd unat (heap_align len (ci_alignment ci)))"

lemma CalcChunkNumbers_nat:
  assumes "0 < unat len" "unat len + 2 ^ 31 \<le> 2 ^ 64"
  shows "unat (CalcChunkNumbers len) = (unat len + 2147483647) div 2147483648"
proof -
  have s: "unat (len + GpuMemoryChunkSize - 1) = unat len + 2147483647"
  proof -
    have e: "len + GpuMemoryChunkSize - 1 = len + 2147483647" by (simp add: chunk_size)
    have "unat (len + 2147483647) = unat len + 2147483647" using unat_add64 [of len 2147483647] assms(2) by simp
    then show ?thesis by (simp only: e)
  qed
  show ?thesis
    unfolding CalcChunkNumbers_def unat_div_distrib s by (simp add: chunk_size)
qed

lemma CalcChunkNumbers_cover:
  assumes "0 < unat len" "unat len + 2 ^ 31 \<le> 2 ^ 64"
  shows "0 < CalcChunkNumbers len" and "unat len \<le> 2147483648 * unat (CalcChunkNumbers len)"
proof -
  note CalcChunkNumbers_nat [OF assms]
  moreover have "2147483648 * ((unat len + 2147483647) div 2147483648) + (unat len + 2147483647) mod 2147483648 = unat len + 2147483647"
    "(unat len + 2147483647) mod 2147483648 < 2147483648" by (rule mult_div_mod_eq, simp)
  moreover have "0 < (unat len + 2147483647) div 2147483648" using assms(1) by (simp add: div_greater_zero_iff)
  ultimately show "0 < CalcChunkNumbers len" "unat len \<le> 2147483648 * unat (CalcChunkNumbers len)"
    unfolding word_less_nat_alt by (simp, linarith)
qed

definition fresh_object :: "wddm_device \<Rightarrow> GpuMemoryCreateInfo \<Rightarrow> AllocDomain \<times> u64 \<Rightarrow> GpuMemory" where
  "fresh_object d ci junk = alloc_chunk_handles (init_desc d ci (new_GpuMemory (fst junk) (snd junk)))"

lemma fresh_object_fields:
  fixes junk :: "AllocDomain \<times> u64"
  assumes "plain_request d ci"
  defines "m \<equiv> fresh_object d ci junk" and "len \<equiv> AdjustSize d (ci_domain ci) (ci_size ci)"
  shows "gm_domain m = ci_domain ci" "gm_size m = len" "mem_fd m = -1" "gm_handle_ape_addr m = 0" "gm_resource m = 0"
    "gm_gpu_addr m = 0" "num_allocations m = CalcChunkNumbers len"
    "alloc_handles m = Some (replicate (unat (CalcChunkNumbers len)) 0)"
    "\<not> is_virtual (gm_flags m)" "\<not> is_physical_only (gm_flags m)" "\<not> is_sysmem_exporter (gm_flags m)"
    "\<not> is_imported_sys_memfd (gm_flags m)" "is_locked (gm_flags m) = ci_locked ci"
    "\<not> is_queue_referenced (gm_flags m)" "\<not> is_imported_vram_ipc (gm_flags m)"
  using assms(1) unfolding m_def len_def
  by (simp_all add: fresh_object_def init_desc_def alloc_chunk_handles_def new_GpuMemory_def plain_request_def Let_def flags_of_reserved_def)

lemma GpuMemory_Reserve_post:
  fixes junk :: "AllocDomain \<times> u64"
  assumes env: "fixed_map_ok env" and rq: "plain_request (w_dev w) ci"
    and mgr: "mgr_ok r (rt_mgr (ci_domain ci) (w_rt w))"
  defines "m \<equiv> fresh_object (w_dev w) ci junk" and "len \<equiv> AdjustSize (w_dev w) (ci_domain ci) (ci_size ci)"
  shows "\<exists>code a m' w'. GpuMemory_ReserveGpuVirtualAddress env (ci_va_hint ci) (gm_size m) (ci_alignment ci) m w =
      Inr (code, m', w') \<and> mgr_ok r (rt_mgr (ci_domain ci) (w_rt w')) \<and> w_dev w' = w_dev w \<and> same_but_mgr (ci_domain ci) w w' \<and>
      alloc_live (w_tr w') = alloc_live (w_tr w) \<and> gpu_pt (w_tr w') = gpu_pt (w_tr w) \<and>
      (if code = Success then a \<noteq> 0 \<and> mgr_live (rt_mgr (ci_domain ci) (w_rt w)) a = None \<and>
         mgr_live (rt_mgr (ci_domain ci) (w_rt w')) = (mgr_live (rt_mgr (ci_domain ci) (w_rt w)))(a \<mapsto> len) \<and>
         unat (heap_align len (ci_alignment ci)) dvd unat a \<and> 4096 dvd unat a \<and>
         m' = (if ci_domain ci = kSystem then m\<lparr>gm_gpu_addr := a, gm_cpu_addr := a\<rparr> else m\<lparr>gm_gpu_addr := a\<rparr>)
       else m' = m \<and> mgr_live (rt_mgr (ci_domain ci) (w_rt w')) = mgr_live (rt_mgr (ci_domain ci) (w_rt w)))"
proof -
  note f = fresh_object_fields [OF rq, of junk, folded m_def len_def]
  have rq': "va_request len (heap_align len (ci_alignment ci))" "4096 dvd unat (heap_align len (ci_alignment ci))"
    "ci_va_hint ci = 0" using rq by (simp_all add: plain_request_def Let_def len_def)
  from Runtime_Reserve_post [OF env mgr rq'(1), of "ci_locked ci" "w_tr w"] obtain code a m1 tr1 where
    p: "Runtime_ReserveGpuVirtualAddress env (ci_domain ci) 0 len (ci_alignment ci) (ci_locked ci) (w_rt w) (w_tr w) =
        Inr (code, a, set_mgr (ci_domain ci) m1 (w_rt w), tr1)" "mgr_ok r m1"
      "if code = Success then a \<noteq> 0 \<and> mgr_live (rt_mgr (ci_domain ci) (w_rt w)) a = None \<and>
         mgr_live m1 = (mgr_live (rt_mgr (ci_domain ci) (w_rt w)))(a \<mapsto> len) \<and>
         unat (heap_align len (ci_alignment ci)) dvd unat a \<and>
         (ci_domain ci = kSystem \<longrightarrow> (\<exists>vs. (Mmap a len (Map_Commit (ci_locked ci)), (STATUS_SUCCESS, vs)) \<in> set tr1))
       else a = 0 \<and> mgr_live m1 = mgr_live (rt_mgr (ci_domain ci) (w_rt w))" by blast
  from Runtime_Reserve_frame [OF env p(1)] have fr: "alloc_live tr1 = alloc_live (w_tr w)" "gpu_pt tr1 = gpu_pt (w_tr w)" by auto
  let ?w1 = "w\<lparr>w_rt := set_mgr (ci_domain ci) m1 (w_rt w), w_tr := tr1\<rparr>"
  let ?m1 = "if code = Success then if ci_domain ci = kSystem then m\<lparr>gm_gpu_addr := a, gm_cpu_addr := a\<rparr>
    else m\<lparr>gm_gpu_addr := a\<rparr> else m"
  have run: "GpuMemory_ReserveGpuVirtualAddress env (ci_va_hint ci) (gm_size m) (ci_alignment ci) m w = Inr (code, ?m1, ?w1)"
    using f p(1) rq'(3) by (simp add: GpuMemory_ReserveGpuVirtualAddress_def IsSystem_def)
  have sm: "same_but_mgr (ci_domain ci) w ?w1"
    unfolding same_but_mgr_def by (intro conjI exI [of _ m1] exI [of _ "page_fence_value (w_dev w)"]) simp_all
  have al: "code = Success \<Longrightarrow> 4096 dvd unat a" using p(3) rq'(2) dvd_trans by fastforce
  show ?thesis
    by (intro exI [of _ code] exI [of _ a] exI [of _ ?m1] exI [of _ ?w1]) (use run p(2,3) fr al sm in simp)
qed

lemma mgr_live_bounds:
  assumes "mgr_ok r m" "mgr_live m a = Some n"
  shows "unat a + unat n < 2 ^ 64"
proof -
  from assms obtain v where v: "va_inv (fst r) (snd r) v" "va_live v a = Some n"
    by (auto simp: mgr_ok_def mgr_live_def va_state_def)
  with va_ranges [OF v(1)] show ?thesis unfolding ranges_ok_def va_inv_def by fastforce
qed

text \<open>The object a successful request leaves, and the state around it.\<close>

definition created :: "GpuMemoryCreateInfo \<Rightarrow> world \<Rightarrow> GpuMemory \<Rightarrow> world \<Rightarrow> bool" where
  "created ci w m w' \<longleftrightarrow> same_but_mgr (ci_domain ci) w w' \<and>
     gm_domain m = ci_domain ci \<and> gm_size m = AdjustSize (w_dev w) (ci_domain ci) (ci_size ci) \<and>
     mem_fd m = -1 \<and> gm_handle_ape_addr m = 0 \<and> gm_gpu_addr m \<noteq> 0 \<and> 0 < num_allocations m \<and>
     \<not> is_queue_referenced (gm_flags m) \<and> \<not> is_imported_vram_ipc (gm_flags m) \<and>
     unat (heap_align (gm_size m) (ci_alignment ci)) dvd unat (gm_gpu_addr m) \<and>
     mgr_live (rt_mgr (ci_domain ci) (w_rt w)) (gm_gpu_addr m) = None \<and>
     mgr_live (rt_mgr (ci_domain ci) (w_rt w')) =
       (mgr_live (rt_mgr (ci_domain ci) (w_rt w)))(gm_gpu_addr m \<mapsto> gm_size m) \<and>
     (\<exists>g. owns m g \<and> fresh_group g (alloc_live (w_tr w)) \<and>
        alloc_live (w_tr w') = insert g (alloc_live (w_tr w)) \<and> mapped_object m w w' g)"

definition untouched :: "AllocDomain \<Rightarrow> world \<Rightarrow> world \<Rightarrow> bool" where
  "untouched domain w w' \<longleftrightarrow> same_but_mgr domain w w' \<and>
     mgr_live (rt_mgr domain (w_rt w')) = mgr_live (rt_mgr domain (w_rt w)) \<and>
     alloc_live (w_tr w') = alloc_live (w_tr w)"

lemma Init_post:
  assumes env: "create_ok env" "destroy_ok env" "unmap_gpu_ok env" "fixed_map_ok env"
    and rq: "plain_request (w_dev w) ci" and mgr: "mgr_ok r (rt_mgr (ci_domain ci) (w_rt w))"
  shows "\<exists>code m' w'. GpuMemory_Init env ci (new_GpuMemory (fst junk) (snd junk)) w = Inr (code, m', w') \<and>
    mgr_ok r (rt_mgr (ci_domain ci) (w_rt w')) \<and>
    (if code = Success then created ci w m' w'
     else spent m' m' \<and> gm_domain m' = ci_domain ci \<and> untouched (ci_domain ci) w w' \<and>
       mgr_live (rt_mgr (ci_domain ci) (w_rt w)) (gm_gpu_addr m') = None)"
proof -
  let ?d = "ci_domain ci"
  define len where "len = AdjustSize (w_dev w) ?d (ci_size ci)"
  define m where "m = fresh_object (w_dev w) ci junk"
  note f = fresh_object_fields [OF rq, of junk, folded m_def len_def]
  from GpuMemory_Reserve_post [OF env(4) rq mgr, of junk, folded m_def len_def] obtain code1 a m1 w1 where
    res: "GpuMemory_ReserveGpuVirtualAddress env (ci_va_hint ci) (gm_size m) (ci_alignment ci) m w = Inr (code1, m1, w1)"
      "mgr_ok r (rt_mgr ?d (w_rt w1))" "same_but_mgr ?d w w1"
      "alloc_live (w_tr w1) = alloc_live (w_tr w)" "gpu_pt (w_tr w1) = gpu_pt (w_tr w)"
      "if code1 = Success then a \<noteq> 0 \<and> mgr_live (rt_mgr ?d (w_rt w)) a = None \<and>
         mgr_live (rt_mgr ?d (w_rt w1)) = (mgr_live (rt_mgr ?d (w_rt w)))(a \<mapsto> len) \<and>
         unat (heap_align len (ci_alignment ci)) dvd unat a \<and> 4096 dvd unat a \<and>
         m1 = (if ?d = kSystem then m\<lparr>gm_gpu_addr := a, gm_cpu_addr := a\<rparr> else m\<lparr>gm_gpu_addr := a\<rparr>)
       else m1 = m \<and> mgr_live (rt_mgr ?d (w_rt w1)) = mgr_live (rt_mgr ?d (w_rt w))" by blast
  have run: "GpuMemory_Init env ci (new_GpuMemory (fst junk) (snd junk)) w =
      (if code1 = Success then back_memory_guarded env m1 w1 else Inr (code1, m1, w1))"
    using res(1,6) f(9,10) by (simp add: GpuMemory_Init_def m_def fresh_object_def Let_def split: if_splits)
  show ?thesis
  proof (cases "code1 = Success")
    case False
    with res(6) f have "spent m1 m1" "gm_domain m1 = ?d" "untouched ?d w w1" "gm_gpu_addr m1 = 0"
      by (simp_all add: spent_def untouched_def res(3,4))
    with run False res(2) mgr_live_zero [OF mgr] show ?thesis by simp
  next
    case True
    with res(6) have a: "a \<noteq> 0" "mgr_live (rt_mgr ?d (w_rt w)) a = None"
      "mgr_live (rt_mgr ?d (w_rt w1)) = (mgr_live (rt_mgr ?d (w_rt w)))(a \<mapsto> len)" "4096 dvd unat a"
      "unat (heap_align len (ci_alignment ci)) dvd unat a" "m1 = (if ?d = kSystem then m\<lparr>gm_gpu_addr := a, gm_cpu_addr := a\<rparr> else m\<lparr>gm_gpu_addr := a\<rparr>)" by auto
    have m1: "gm_domain m1 = ?d" "gm_size m1 = len" "mem_fd m1 = -1" "gm_handle_ape_addr m1 = 0" "gm_resource m1 = 0"
      "gm_gpu_addr m1 = a" "num_allocations m1 = CalcChunkNumbers len" "\<not> is_virtual (gm_flags m1)"
      "\<not> is_queue_referenced (gm_flags m1)" "\<not> is_imported_vram_ipc (gm_flags m1)"
      "alloc_handles m1 = Some (replicate (unat (num_allocations m1)) 0)" using a(6) f by auto
    have l: "0 < unat len" "unat len + 2 ^ 31 \<le> 2 ^ 64" "4096 dvd unat len"
      using rq by (simp_all add: plain_request_def Let_def va_request_def len_def)
    have "ready m1"
      using m1 a(4) l(3) CalcChunkNumbers_cover [OF l(1,2)] mgr_live_bounds [OF res(2), of a len] a(3)
      by (simp add: ready_def)
    from guarded_post [OF env this m1(3,4,5,11)] res(2) m1(1) obtain code m2 w2 where
      b: "back_memory_guarded env m1 w1 = Inr (code, m2, w2)" "mgr_ok r (rt_mgr ?d (w_rt w2))" "same_but_mgr ?d w1 w2"
        "if code = Success then w_rt w2 = w_rt w1 \<and> (\<exists>g. backed m1 w1 m2 w2 g \<and> mapped_object m1 w1 w2 g)
         else spent m1 m2 \<and> gm_gpu_addr m2 = gm_gpu_addr m1 \<and> alloc_live (w_tr w2) = alloc_live (w_tr w1) \<and>
           mgr_live (rt_mgr ?d (w_rt w2)) = (mgr_live (rt_mgr ?d (w_rt w1)))(gm_gpu_addr m1 := None)"
      by metis
    note sm = same_but_mgr_trans [OF res(3) b(3)]
    show ?thesis
    proof (cases "code = Success")
      case True
      with b(4) obtain g where g: "w_rt w2 = w_rt w1" "backed m1 w1 m2 w2 g" "mapped_object m1 w1 w2 g" by auto
      then have "owns m2 g \<and> fresh_group g (alloc_live (w_tr w)) \<and>
          alloc_live (w_tr w2) = insert g (alloc_live (w_tr w)) \<and> mapped_object m2 w w2 g"
        using m1 res(4,5) by (auto simp: backed_def mapped_object_def)
      then have "\<exists>g. owns m2 g \<and> fresh_group g (alloc_live (w_tr w)) \<and>
          alloc_live (w_tr w2) = insert g (alloc_live (w_tr w)) \<and> mapped_object m2 w w2 g" ..
      moreover have "gm_domain m2 = ?d" "gm_size m2 = len" "mem_fd m2 = -1" "gm_handle_ape_addr m2 = 0" "gm_gpu_addr m2 = a"
        "\<not> is_queue_referenced (gm_flags m2)" "\<not> is_imported_vram_ipc (gm_flags m2)" "0 < num_allocations m2"
        using g(2) m1 CalcChunkNumbers_cover(1) [OF l(1,2)] by (simp_all add: backed_def)
      ultimately have "created ci w m2 w2" using a g(1) sm by (simp only: created_def len_def simp_thms)
      with run b \<open>code1 = Success\<close> True show ?thesis by simp
    next
      case False
      with b(4) m1 a res(4) sm have "spent m2 m2" "gm_domain m2 = ?d" "untouched ?d w w2" "gm_gpu_addr m2 = a"
        by (simp_all add: spent_def untouched_def fun_upd_idem)
      with run b \<open>code1 = Success\<close> False a(2) show ?thesis by simp
    qed
  qed
qed

lemma CreateGpuMemory_post:
  assumes "create_ok env" and "destroy_ok env" and "unmap_gpu_ok env" and "fixed_map_ok env"
    and "plain_request (w_dev w) ci" and "mgr_ok r (rt_mgr (ci_domain ci) (w_rt w))"
    and "groups_ok (alloc_live (w_tr w))"
  shows "\<exists>code obj w'. CreateGpuMemory env osz junk ci w = Inr (code, obj, None, w') \<and>
    mgr_ok r (rt_mgr (ci_domain ci) (w_rt w')) \<and>
    (case obj of
       None \<Rightarrow> code \<noteq> Success \<and> untouched (ci_domain ci) w w'
     | Some m \<Rightarrow> code = Success \<and> created ci w m w' \<and>
         (\<exists>w''. GpuMemory_dtor env m w' = Inr w'' \<and> untouched (ci_domain ci) w w''))"
proof -
  let ?d = "ci_domain ci"
  have fd: "\<not> ci_dmabuf_fd ci > 0" using assms(5) by (simp add: plain_request_def)
  from Init_post [OF assms(1-6)] obtain code m w1 where
    i: "GpuMemory_Init env ci (new_GpuMemory (fst junk) (snd junk)) w = Inr (code, m, w1)" "mgr_ok r (rt_mgr ?d (w_rt w1))"
      "if code = Success then created ci w m w1
       else spent m m \<and> gm_domain m = ?d \<and> untouched ?d w w1 \<and> mgr_live (rt_mgr ?d (w_rt w)) (gm_gpu_addr m) = None" by blast
  show ?thesis
  proof (cases "code = Success")
    case True
    with i(3) have c: "created ci w m w1" by simp
    then obtain g where g: "owns m g" "fresh_group g (alloc_live (w_tr w))"
      "alloc_live (w_tr w1) = insert g (alloc_live (w_tr w))" and d: "gm_domain m = ?d" "mem_fd m = -1" "gm_handle_ape_addr m = 0"
      by (auto simp: created_def)
    from dtor_owner [OF assms(4,2) d(2,3) g(1) _ g(2,3), of r] i(2) d(1) c obtain w2 where
      "GpuMemory_dtor env m w1 = Inr w2" "untouched ?d w w2"
      by (auto simp: untouched_def created_def fun_upd_idem intro: same_but_mgr_trans)
    with c True i(1,2) fd show ?thesis by (auto simp: CreateGpuMemory_def)
  next
    case False
    with i(3) have s: "spent m m" "gm_domain m = ?d" "untouched ?d w w1" "mgr_live (rt_mgr ?d (w_rt w)) (gm_gpu_addr m) = None"
      by auto
    from s(3) assms(7) have "groups_ok (alloc_live (w_tr w1))" by (simp add: untouched_def)
    from dtor_spent [OF assms(4) s(1) _ this, of r] i(2) s obtain w2 where
      "GpuMemory_dtor env m w1 = Inr w2" "mgr_ok r (rt_mgr ?d (w_rt w2))" "untouched ?d w w2"
      by (auto simp: untouched_def fun_upd_idem intro: same_but_mgr_trans)
    with False i(1) fd show ?thesis by (auto simp: CreateGpuMemory_def)
  qed
qed

text \<open>
  C5. \<^verbatim>\<open>CreateGpuMemory\<close> takes everything or nothing. A plain request always returns. If it succeeds, the
  runtime holds exactly one address range more, the kernel exactly one group of allocations more, every
  page of the object is mapped to its chunk, and the destructor gives the range and the group back. If it
  fails at any step, no range and no allocation is left behind, and no object is returned.
\<close>

theorem CreateGpuMemory_all_or_nothing:
  assumes "create_ok env" and "destroy_ok env" and "unmap_gpu_ok env" and "fixed_map_ok env"
    and "plain_request (w_dev w) ci" and "mgr_ok r (rt_mgr (ci_domain ci) (w_rt w))"
    and "groups_ok (alloc_live (w_tr w))"
  shows "\<exists>code obj w'. CreateGpuMemory env osz junk ci w = Inr (code, obj, None, w') \<and>
    mgr_ok r (rt_mgr (ci_domain ci) (w_rt w')) \<and>
    (case obj of
       None \<Rightarrow> code \<noteq> Success \<and> untouched (ci_domain ci) w w'
     | Some m \<Rightarrow> code = Success \<and> created ci w m w' \<and>
         (\<exists>w''. GpuMemory_dtor env m w' = Inr w'' \<and> untouched (ci_domain ci) w w''))"
  using assms by (rule CreateGpuMemory_post)

text \<open>A kernel that has one resource to give.\<close>

definition one_resource_env :: dx_env where
  "one_resource_env tr c =
     (case c of
        CreateAllocation2 d infos si \<Rightarrow>
          if \<forall>g\<in>alloc_live tr. fst g \<noteq> 1 \<and> snd g \<noteq> snd (group_of (length infos) [1, 2])
          then (STATUS_SUCCESS, [1, 2]) else (STATUS_NO_MEMORY, [])
      | _ \<Rightarrow> sample_env tr c)"

lemma one_resource_env_ok:
  "create_ok one_resource_env" "destroy_ok one_resource_env" "unmap_gpu_ok one_resource_env" "fixed_map_ok one_resource_env"
  using sample_env_ok(2)
  by (auto simp: create_ok_def destroy_ok_def unmap_gpu_ok_def fixed_map_ok_def one_resource_env_def sample_env_def
      out_arg_def group_of_def split: if_splits)

definition sample_request :: GpuMemoryCreateInfo where
  "sample_request = new_GpuMemoryCreateInfo\<lparr>ci_size := 0x300000, ci_alloc_va := True\<rparr>"

theorem CreateGpuMemory_all_or_nothing_witness:
  "\<exists>code obj w'. CreateGpuMemory one_resource_env 72 (kUserQueue, 0) sample_request sample_world = Inr (code, obj, None, w') \<and>
    mgr_ok (0x800000000, 0x1800000000) (rt_mgr kLocal (w_rt w')) \<and>
    (case obj of
       None \<Rightarrow> code \<noteq> Success \<and> untouched kLocal sample_world w'
     | Some m \<Rightarrow> code = Success \<and> created sample_request sample_world m w' \<and>
         (\<exists>w''. GpuMemory_dtor one_resource_env m w' = Inr w'' \<and> untouched kLocal sample_world w''))"
proof -
  have d: "ci_domain sample_request = kLocal" by (simp add: sample_request_def new_GpuMemoryCreateInfo_def)
  have sz: "AdjustSize (w_dev sample_world) kLocal (ci_size sample_request) = 0x400000"
    by (simp add: AdjustSize_def sample_world_def device_example_def sample_request_def Let_def AlignUp_def)
  have rq: "plain_request (w_dev sample_world) sample_request"
    using sz d by (simp add: plain_request_def sample_request_def new_GpuMemoryCreateInfo_def Let_def va_request_def heap_align_def)
  have mgr: "mgr_ok (0x800000000, 0x1800000000) (rt_mgr (ci_domain sample_request) (w_rt sample_world))"
    using VaMgr_state [of "0x800000000" "0x1000000000" DEFAULT_GPU_PAGE_SIZE] d
    by (simp add: mgr_ok_def rt_mgr_def sample_world_def)
  have "groups_ok (alloc_live (w_tr sample_world))" by (simp add: groups_ok_def alloc_live_def sample_world_def)
  from CreateGpuMemory_all_or_nothing [where osz = 72 and junk = "(kUserQueue, 0)", OF one_resource_env_ok rq mgr this]
  show ?thesis by (simp only: d)
qed

section \<open>Descriptions of the allocations\<close>

lemma chunk_infos_sizes:
  assumes "unat len \<le> 2147483648 * n" "2147483648 * n < unat len + 2147483648"
  shows "sum_list (map (\<lambda>x. unat (ai_size x)) (chunk_infos sysmem n len addr cpu)) = unat len \<and>
    (\<forall>x\<in>set (chunk_infos sysmem n len addr cpu). 0 < unat (ai_size x) \<and> unat (ai_size x) \<le> 2147483648)"
  using assms
proof (induction n arbitrary: len addr cpu)
  case (Suc n)
  let ?b = "min len GpuMemoryChunkSize"
  have b: "unat ?b = min (unat len) 2147483648" by (simp add: chunk_size min_def word_le_nat_alt)
  have l: "unat (len - ?b) = unat len - min (unat len) 2147483648" using b by (simp add: unat_sub64)
  have "unat (len - ?b) \<le> 2147483648 * n" "2147483648 * n < unat (len - ?b) + 2147483648"
    using Suc.prems unfolding l by (auto simp: min_def)
  from Suc.IH [OF this, of "addr + ?b" "cpu + ?b"] show ?case using b l Suc.prems by (auto simp: Let_def)
qed simp

lemma chunk_infos_nth:
  "i < n \<Longrightarrow> 2147483648 * n < unat len + 2147483648 \<Longrightarrow>
   (if sysmem then ai_sysmem (chunk_infos sysmem n len addr cpu ! i) = cpu + of_nat i * GpuMemoryChunkSize
    else ai_addr (chunk_infos sysmem n len addr cpu ! i) = addr + of_nat i * GpuMemoryChunkSize)"
proof (induction n arbitrary: i len addr cpu)
  case (Suc n)
  show ?case
  proof (cases i)
    case (Suc j)
    with Suc.prems have n: "0 < n" by simp
    have ge: "2147483648 \<le> unat len" using n Suc.prems(2) by (cases n) auto
    then have "GpuMemoryChunkSize \<le> len" by (simp add: chunk_size word_le_nat_alt)
    then have b: "min len GpuMemoryChunkSize = GpuMemoryChunkSize" by (simp add: min_absorb2)
    have "unat (len - GpuMemoryChunkSize) = unat len - 2147483648" using ge by (simp add: chunk_size unat_sub64)
    with Suc.prems ge have "2147483648 * n < unat (len - GpuMemoryChunkSize) + 2147483648" by simp
    from Suc.IH [OF _ this, of j "addr + GpuMemoryChunkSize" "cpu + GpuMemoryChunkSize"] Suc Suc.prems
    show ?thesis by (simp add: b Let_def distrib_right add.assoc split: if_splits)
  qed (simp add: Let_def)
qed simp

lemma CalcChunkNumbers_least:
  assumes "0 < unat len" "unat len + 2 ^ 31 \<le> 2 ^ 64"
  shows "2147483648 * unat (CalcChunkNumbers len) < unat len + 2147483648"
proof -
  have "2147483648 * ((unat len + 2147483647) div 2147483648) + (unat len + 2147483647) mod 2147483648 = unat len + 2147483647"
    by (rule mult_div_mod_eq)
  with CalcChunkNumbers_nat [OF assms] show ?thesis by linarith
qed

text \<open>
  C19. The allocations that back an object cover it exactly: for every size that does not overflow the
  rounding, their sizes add up to the size of the object, none is empty or larger than two gigabytes,
  and allocation \<open>i\<close> starts \<open>i\<close> chunks after the object's address, the CPU one for system and user memory.
\<close>

theorem chunk_infos_cover:
  assumes "0 < unat len" and "unat len + 2 ^ 31 \<le> 2 ^ 64"
  shows "let infos = chunk_infos sysmem (unat (CalcChunkNumbers len)) len addr cpu in
    sum_list (map (\<lambda>x. unat (ai_size x)) infos) = unat len \<and>
    (\<forall>i<length infos. 0 < unat (ai_size (infos ! i)) \<and> unat (ai_size (infos ! i)) \<le> 2147483648 \<and>
       (if sysmem then ai_sysmem (infos ! i) = cpu + of_nat i * GpuMemoryChunkSize
        else ai_addr (infos ! i) = addr + of_nat i * GpuMemoryChunkSize))"
  using chunk_infos_sizes [OF CalcChunkNumbers_cover(2) [OF assms] CalcChunkNumbers_least [OF assms]]
    chunk_infos_nth [OF _ CalcChunkNumbers_least [OF assms]]
  by (simp add: Let_def all_set_conv_all_nth)

theorem chunk_infos_cover_witness:
  "sum_list (map (\<lambda>x. unat (ai_size x)) (chunk_infos False (unat (CalcChunkNumbers 0x90000000)) 0x90000000 0x1000 0)) =
     0x90000000"
  using chunk_infos_cover [of "0x90000000" False "0x1000" 0] by (simp add: Let_def)

section \<open>Flags\<close>



end
