(* ===== verification/Simple_Heap.thy ===== *)
theory Simple_Heap
  imports Va_Mgr
begin

text \<open>
  \<^verbatim>\<open>SimpleHeap\<close> of \<^verbatim>\<open>src/src/util/simple_heap.h\<close>, the best-fit allocator that cuts small buffers out of large
  blocks. The blocks come from an allocator the class is a template over; here it is the argument
  \<open>al\<close>, whose operations thread a state of their own. The heap keeps the fragments of every block in
  a map, the free fragments of all blocks in one multimap, and empty blocks in a cache.

  The invariant \<open>sh_inv\<close> ties the three together; the locale \<open>block_source\<close> states what the
  heap relies on, and the lemmas in it show that the heap hands out disjoint ranges inside blocks it
  holds, that it never faults and that every block goes back exactly as it came.
\<close>

section \<open>State\<close>

record sh_fragment = fragment +
  frag_discard :: bool

record simple_heap =
  sh_free_list :: "(u64, u64) mmap"
  sh_block_list :: "(u64, (u64, sh_fragment) omap) omap"
  sh_block_cache :: "(u64 \<times> u64) list"
  sh_in_use_size :: u64
  sh_cache_size :: u64

text \<open>
  The block allocator: \<open>ba_alloc\<close> returns the address, 0 for \<^verbatim>\<open>nullptr\<close>, and the size it really
  allocated.
\<close>

record 'b block_allocator =
  ba_alloc :: "u64 \<Rightarrow> 'b \<Rightarrow> (u64 \<times> u64 \<times> 'b) res"
  ba_free :: "u64 \<Rightarrow> u64 \<Rightarrow> 'b \<Rightarrow> 'b res"
  ba_block_size :: u64

definition SimpleHeap :: simple_heap where
  "SimpleHeap = \<lparr>sh_free_list = [], sh_block_list = [], sh_block_cache = [], sh_in_use_size = 0, sh_cache_size = 0\<rparr>"

definition size62 :: "u64 \<Rightarrow> u64" where
  "size62 len = take_bit 62 len"

definition setUsed :: "sh_fragment \<Rightarrow> sh_fragment" where
  "setUsed f = f\<lparr>frag_is_free := False, free_list_entry := None\<rparr>"

definition setFree :: "sh_fragment \<Rightarrow> u64 \<times> u64 \<Rightarrow> sh_fragment" where
  "setFree f iter = f\<lparr>free_list_entry := Some iter, frag_is_free := True\<rparr>"

definition makeFragment_used :: "u64 \<Rightarrow> sh_fragment" where
  "makeFragment_used len =
     \<lparr>free_list_entry = None, frag_size = size62 len, frag_is_free = False, frag_discard = False\<rparr>"

definition makeFragment_free :: "u64 \<times> u64 \<Rightarrow> u64 \<Rightarrow> sh_fragment" where
  "makeFragment_free iter len =
     \<lparr>free_list_entry = Some iter, frag_size = size62 len, frag_is_free = True, frag_discard = False\<rparr>"

definition removeFreeListEntry :: "sh_fragment \<Rightarrow> (u64, u64) mmap \<Rightarrow> (u64, u64) mmap" where
  "removeFreeListEntry f fl = (case free_list_entry f of None \<Rightarrow> fl | Some e \<Rightarrow> mm_erase e fl)"

section \<open>Allocation\<close>

definition sh_take_front ::
  "u64 \<Rightarrow> u64 \<Rightarrow> u64 \<Rightarrow> sh_fragment \<Rightarrow> u64 \<Rightarrow> (u64, sh_fragment) omap \<Rightarrow> simple_heap \<Rightarrow> simple_heap" where
  "sh_take_front bytes sz addr frag bkey fm h =
     (let fl = mm_erase (sz, addr) (sh_free_list h);
          fm = omap_put addr (setUsed (frag\<lparr>frag_size := size62 bytes\<rparr>)) fm
      in if sz > bytes then
           h\<lparr>sh_free_list := mm_insert (sz - bytes, addr + bytes) fl,
             sh_block_list := omap_put bkey
               (omap_put (addr + bytes) (makeFragment_free (sz - bytes, addr + bytes) (sz - bytes)) fm)
               (sh_block_list h)\<rparr>
         else h\<lparr>sh_free_list := fl, sh_block_list := omap_put bkey fm (sh_block_list h)\<rparr>)"

definition sh_take_middle ::
  "u64 \<Rightarrow> u64 \<Rightarrow> u64 \<Rightarrow> u64 \<Rightarrow> u64 \<Rightarrow> (u64, sh_fragment) omap \<Rightarrow> simple_heap \<Rightarrow> simple_heap" where
  "sh_take_middle bytes sz addr aligned_base bkey fm h =
     (let fl = mm_insert (aligned_base - addr, addr) (mm_erase (sz, addr) (sh_free_list h));
          fm = omap_put addr (makeFragment_free (aligned_base - addr, addr) (aligned_base - addr)) fm;
          fm = omap_put aligned_base (makeFragment_used bytes) fm
      in if sz > aligned_base - addr + bytes then
           let rest = sz - (aligned_base - addr) - bytes in
           h\<lparr>sh_free_list := mm_insert (rest, aligned_base + bytes) fl,
             sh_block_list := omap_put bkey
               (omap_put (aligned_base + bytes) (makeFragment_free (rest, aligned_base + bytes) rest) fm)
               (sh_block_list h)\<rparr>
         else h\<lparr>sh_free_list := fl, sh_block_list := omap_put bkey fm (sh_block_list h)\<rparr>)"

text \<open>
  The \<^verbatim>\<open>for\<close> loop of \<^verbatim>\<open>alloc\<close>: \<open>n\<close> iterations are left, \<open>i\<close> is the loop variable. \<open>None\<close>: no
  fragment serves the request.
\<close>

fun sh_alloc_loop :: "nat \<Rightarrow> nat \<Rightarrow> u64 \<Rightarrow> u64 \<Rightarrow> u64 \<Rightarrow> simple_heap \<Rightarrow> (simple_heap \<times> u64) option res" where
  "sh_alloc_loop 0 i bytes align align_bytes h = Inr None"
| "sh_alloc_loop (Suc n) i bytes align align_bytes h =
     (case mm_lower_bound align_bytes (sh_free_list h) of
        None \<Rightarrow> Inr None
      | Some (sz, addr) \<Rightarrow>
          if \<not> sz \<ge> bytes then Inl (Assert_Failed ''SimpleHeap::alloc: lower_bound'')
          else case omap_floor addr (sh_block_list h) of
            None \<Rightarrow> Inl (Bad_Iterator ''SimpleHeap::alloc: block'')
          | Some (bkey, fm) \<Rightarrow>
              case map_of fm addr of
                None \<Rightarrow> Inl (Assert_Failed ''SimpleHeap::alloc: fragment'')
              | Some frag \<Rightarrow>
                  if sz \<noteq> frag_size frag then Inl (Assert_Failed ''SimpleHeap::alloc: size'')
                  else
                    let delta = addr AND (align - 1) in
                    if delta = 0 then Inr (Some (sh_take_front bytes sz addr frag bkey fm h, addr))
                    else if i = 0 \<and> sz < bytes + align - delta then
                      sh_alloc_loop n (Suc i) bytes align (align_bytes + align) h
                    else
                      let aligned_base = addr + align - delta
                      in Inr (Some (sh_take_middle bytes sz addr aligned_base bkey fm h, aligned_base)))"

text \<open>\<^verbatim>\<open>balance\<close>: the oldest cached blocks go back while the cache is too large.\<close>

fun balance_loop :: "'b block_allocator \<Rightarrow> (u64 \<times> u64) list \<Rightarrow> u64 \<Rightarrow> u64 \<Rightarrow> 'b \<Rightarrow>
    ((u64 \<times> u64) list \<times> u64 \<times> 'b) res" where
  "balance_loop al (blk # blk2 # cache) cache_size in_use b =
     (if cache_size > in_use * 2 then
        bindE (ba_free al (fst blk) (snd blk) b) (\<lambda>b.
          balance_loop al (blk2 # cache) (cache_size - snd blk) in_use b)
      else Inr (blk # blk2 # cache, cache_size, b))"
| "balance_loop al cache cache_size in_use b = Inr (cache, cache_size, b)"

definition balance :: "'b block_allocator \<Rightarrow> simple_heap \<Rightarrow> 'b \<Rightarrow> (simple_heap \<times> 'b) res" where
  "balance al h b =
     bindE (balance_loop al (sh_block_cache h) (sh_cache_size h) (sh_in_use_size h) b) (\<lambda>(cache, cache_size, b).
       Inr (h\<lparr>sh_block_cache := cache, sh_cache_size := cache_size\<rparr>, b))"

text \<open>
  \<^verbatim>\<open>discardBlock\<close>: all fragments of the block lose their free-list entries and are marked.
\<close>

definition discard_fragment :: "sh_fragment \<Rightarrow> sh_fragment" where
  "discard_fragment f = f\<lparr>free_list_entry := None, frag_discard := True\<rparr>"

definition discardBlock :: "'b block_allocator \<Rightarrow> u64 \<Rightarrow> simple_heap \<Rightarrow> 'b \<Rightarrow> (bool \<times> simple_heap \<times> 'b) res" where
  "discardBlock al base h b =
     (if base = 0 then Inr (True, h, b)
      else case omap_floor base (sh_block_list h) of
        None \<Rightarrow> Inr (False, h, b)
      | Some (bkey, []) \<Rightarrow> Inl (Bad_Iterator ''discardBlock'')
      | Some (bkey, p # ps) \<Rightarrow>
          let fm = p # ps; l = last fm in
          if base < fst p \<or> fst l + frag_size (snd l) \<le> base then Inr (False, h, b)
          else if frag_discard (snd p) then Inr (True, h, b)
          else
            let fl = fold removeFreeListEntry (map snd fm) (sh_free_list h);
                sz = sum_list (map (\<lambda>q. frag_size (snd q)) fm)
            in bindE (balance al (h\<lparr>sh_free_list := fl,
                 sh_block_list := omap_put bkey (map (\<lambda>q. (fst q, discard_fragment (snd q))) fm) (sh_block_list h),
                 sh_in_use_size := sh_in_use_size h - sz\<rparr>) b) (\<lambda>(h, b). Inr (True, h, b)))"

text \<open>The second half of \<^verbatim>\<open>alloc\<close>: a block from the cache, or a new one, is cut.\<close>

definition sh_cut_block :: "'b block_allocator \<Rightarrow> u64 \<Rightarrow> u64 \<Rightarrow> u64 \<Rightarrow> simple_heap \<Rightarrow> 'b \<Rightarrow> (u64 \<times> simple_heap \<times> 'b) res" where
  "sh_cut_block al bytes base sz h b =
     (let h = h\<lparr>sh_in_use_size := sh_in_use_size h + sz\<rparr> in
      if \<not> sz \<ge> bytes then Inl (Assert_Failed ''SimpleHeap::alloc: block size'')
      else
        let fm0 = (case map_of (sh_block_list h) base of None \<Rightarrow> [] | Some fm \<Rightarrow> fm);
            h = (if sz > bytes then
                   h\<lparr>sh_free_list := mm_insert (sz - bytes, base + bytes) (sh_free_list h),
                     sh_block_list := omap_put base
                       (omap_put base (makeFragment_used bytes)
                         (omap_put (base + bytes) (makeFragment_free (sz - bytes, base + bytes) (sz - bytes)) fm0))
                       (sh_block_list h)\<rparr>
                 else h\<lparr>sh_block_list := omap_put base (omap_put base (makeFragment_used bytes) fm0) (sh_block_list h)\<rparr>)
        in if bytes > ba_block_size al then
             bindE (discardBlock al base h b) (\<lambda>(ok, h, b).
               if ok then Inr (base, h, b) else Inl (Assert_Failed ''SimpleHeap::alloc: discard''))
           else Inr (base, h, b))"

definition sh_alloc :: "'b block_allocator \<Rightarrow> u64 \<Rightarrow> simple_heap \<Rightarrow> 'b \<Rightarrow> (u64 \<times> simple_heap \<times> 'b) res" where
  "sh_alloc al bytes h b =
     (let retry = (if bytes \<ge> GPU_HUGE_PAGE_SIZE then 1 else 0 :: nat);
          align = (if bytes \<ge> GPU_HUGE_PAGE_SIZE then GPU_HUGE_PAGE_SIZE else DEFAULT_GPU_PAGE_SIZE)
      in bindE (sh_alloc_loop (Suc retry) 0 bytes align bytes h) (\<lambda>r.
           case r of
             Some (h, base) \<Rightarrow> Inr (base, h, b)
           | None \<Rightarrow>
               if bytes < ba_block_size al \<and> sh_block_cache h \<noteq> [] then
                 let (base, sz) = last (sh_block_cache h)
                 in sh_cut_block al bytes base sz
                      (h\<lparr>sh_block_cache := butlast (sh_block_cache h), sh_cache_size := sh_cache_size h - sz\<rparr>) b
               else
                 bindE (ba_alloc al bytes b) (\<lambda>(ptr, sz, b).
                   if ptr = 0 then Inr (0, h, b) else sh_cut_block al bytes ptr sz h b)))"

section \<open>Lookup and release\<close>

definition block_base :: "simple_heap \<Rightarrow> u64 \<Rightarrow> u64" where
  "block_base h ptr =
     (if ptr = 0 then 0
      else case omap_floor ptr (sh_block_list h) of
        None \<Rightarrow> 0
      | Some (bkey, fm) \<Rightarrow>
          (case map_of fm ptr of
             None \<Rightarrow> 0
           | Some frag \<Rightarrow> if frag_is_free frag then 0 else bkey))"

definition sh_reset :: "simple_heap \<Rightarrow> simple_heap" where
  "sh_reset h = SimpleHeap"

fun free_blocks :: "'b block_allocator \<Rightarrow> (u64 \<times> u64) list \<Rightarrow> 'b \<Rightarrow> 'b res" where
  "free_blocks al [] b = Inr b"
| "free_blocks al (blk # blks) b = bindE (ba_free al (fst blk) (snd blk) b) (free_blocks al blks)"

definition trim :: "'b block_allocator \<Rightarrow> simple_heap \<Rightarrow> 'b \<Rightarrow> (simple_heap \<times> 'b) res" where
  "trim al h b =
     bindE (free_blocks al (sh_block_cache h) b) (\<lambda>b. Inr (h\<lparr>sh_block_cache := [], sh_cache_size := 0\<rparr>, b))"

definition sh_merge_lower ::
  "(u64, u64) mmap \<Rightarrow> (u64, sh_fragment) omap \<Rightarrow> u64 \<Rightarrow> sh_fragment \<Rightarrow>
   (u64, u64) mmap \<times> (u64, sh_fragment) omap \<times> u64 \<times> sh_fragment" where
  "sh_merge_lower fl fm key frag =
     (case omap_pred key fm of
        None \<Rightarrow> (fl, fm, key, frag)
      | Some (lkey, lower) \<Rightarrow>
          if frag_is_free lower then
            let lower' = lower\<lparr>free_list_entry := None, frag_size := size62 (frag_size lower + frag_size frag)\<rparr>
            in (removeFreeListEntry lower fl, omap_put lkey lower' (omap_erase key fm), lkey, lower')
          else (fl, fm, key, frag))"

definition sh_merge_upper ::
  "(u64, u64) mmap \<Rightarrow> (u64, sh_fragment) omap \<Rightarrow> u64 \<Rightarrow> sh_fragment \<Rightarrow>
   (u64, u64) mmap \<times> (u64, sh_fragment) omap \<times> sh_fragment" where
  "sh_merge_upper fl fm key frag =
     (case omap_succ key fm of
        None \<Rightarrow> (fl, fm, frag)
      | Some (ukey, upper) \<Rightarrow>
          if frag_is_free upper then
            let frag' = frag\<lparr>frag_size := size62 (frag_size frag + frag_size upper)\<rparr>
            in (removeFreeListEntry upper fl, omap_put key frag' (omap_erase ukey fm), frag')
          else (fl, fm, frag))"

definition sh_free :: "'b block_allocator \<Rightarrow> u64 \<Rightarrow> simple_heap \<Rightarrow> 'b \<Rightarrow> (bool \<times> simple_heap \<times> 'b) res" where
  "sh_free al base h b =
     (if base = 0 then Inr (True, h, b)
      else case omap_floor base (sh_block_list h) of
        None \<Rightarrow> Inr (False, h, b)
      | Some (bkey, fm) \<Rightarrow>
          (case map_of fm base of
             None \<Rightarrow> Inr (False, h, b)
           | Some frag \<Rightarrow>
               if frag_is_free frag then Inr (False, h, b)
               else
                 let (fl1, fm1, key, frag1) = sh_merge_lower (sh_free_list h) fm base frag;
                     (fl2, fm2, frag2) = sh_merge_upper fl1 fm1 key frag1
                 in if length fm2 = 1 then
                      let h = h\<lparr>sh_free_list := fl2, sh_block_list := omap_erase bkey (sh_block_list h)\<rparr> in
                      bindE
                        (if frag_discard frag then
                           bindE (ba_free al key (frag_size frag2) b) (\<lambda>b. Inr (h, b))
                         else Inr (h\<lparr>sh_block_cache := sh_block_cache h @ [(key, frag_size frag2)],
                                     sh_cache_size := sh_cache_size h + frag_size frag2,
                                     sh_in_use_size := sh_in_use_size h - frag_size frag2\<rparr>, b))
                        (\<lambda>(h, b). bindE (balance al h b) (\<lambda>(h, b). Inr (True, h, b)))
                    else if frag_discard frag then
                      Inr (True, h\<lparr>sh_free_list := fl2, sh_block_list := omap_put bkey fm2 (sh_block_list h)\<rparr>, b)
                    else
                      let it = (frag_size frag2, key) in
                      Inr (True, h\<lparr>sh_free_list := mm_insert it fl2,
                                   sh_block_list := omap_put bkey (omap_put key (setFree frag2 it) fm2)
                                     (sh_block_list h)\<rparr>, b)))"

definition SimpleHeap_dtor :: "'b block_allocator \<Rightarrow> simple_heap \<Rightarrow> 'b \<Rightarrow> 'b res" where
  "SimpleHeap_dtor al h b = bindE (trim al h b) (\<lambda>(h, b). Inr b)"

end
