(* ===== verification/Sub_Allocator.thy ===== *)
theory Sub_Allocator
  imports Simple_Heap
begin

text \<open>
  The invariant of the block heap and the proof that allocation and release keep it. Requests are those
  the library makes, at most one block: larger ones get a block of their own that is marked
  for discarding. The interface to the source of the blocks is the locale \<open>block_source\<close>.
\<close>

section \<open>Invariant\<close>

definition block_bytes :: "(u64 \<times> 'a fragment_scheme) list \<Rightarrow> nat" where
  "block_bytes fm = (\<Sum>p\<leftarrow>fm. unat (frag_size (snd p)))"

definition plain_frag :: "u64 \<times> sh_fragment \<Rightarrow> bool" where
  "plain_frag p \<longleftrightarrow> frag_ok p \<and> \<not> frag_discard (snd p)"

text \<open>A block in use: its fragments tile it, no two free ones touch and one at least is used.\<close>

definition block_ok :: "u64 \<times> (u64, sh_fragment) omap \<Rightarrow> bool" where
  "block_ok B \<longleftrightarrow>
     0 < unat (fst B) \<and> unat (fst B) + block_bytes (snd B) < 2 ^ 64 \<and> block_bytes (snd B) < 2 ^ 62 \<and>
     tiles (unat (fst B)) (snd B) (unat (fst B) + block_bytes (snd B)) \<and>
     list_all plain_frag (snd B) \<and> successively not_both_free (snd B) \<and>
     (\<exists>p\<in>set (snd B). \<not> frag_is_free (snd p))"

definition block_before :: "u64 \<times> (u64, sh_fragment) omap \<Rightarrow> u64 \<times> (u64, sh_fragment) omap \<Rightarrow> bool" where
  "block_before B C \<longleftrightarrow> unat (fst B) + block_bytes (snd B) \<le> unat (fst C)"

definition cells :: "('k \<times> 'v list) list \<Rightarrow> 'v list" where
  "cells bl = concat (map snd bl)"

definition sh_inv :: "simple_heap \<Rightarrow> bool" where
  "sh_inv h \<longleftrightarrow>
     sorted_wrt block_before (sh_block_list h) \<and> list_all block_ok (sh_block_list h) \<and>
     mm_ok (sh_free_list h) \<and> mset (sh_free_list h) = mset (free_entries (cells (sh_block_list h))) \<and>
     sh_in_use_size h = of_nat (\<Sum>B\<leftarrow>sh_block_list h. block_bytes (snd B)) \<and>
     sh_cache_size h = sum_list (map snd (sh_block_cache h))"

text \<open>The blocks the heap holds, those in use and those in the cache.\<close>

definition sh_held :: "simple_heap \<Rightarrow> (u64 \<times> nat) list" where
  "sh_held h = map (\<lambda>B. (fst B, block_bytes (snd B))) (sh_block_list h) @ map (\<lambda>c. (fst c, unat (snd c))) (sh_block_cache h)"

definition same_cache :: "simple_heap \<Rightarrow> simple_heap \<Rightarrow> bool" where
  "same_cache h h' \<longleftrightarrow> sh_block_cache h' = sh_block_cache h \<and> sh_cache_size h' = sh_cache_size h \<and>
     sh_in_use_size h' = sh_in_use_size h"

definition sh_live :: "simple_heap \<Rightarrow> u64 \<rightharpoonup> u64" where
  "sh_live h = live_list (cells (sh_block_list h))"

lemma cells_simps [simp]:
  "cells [] = []" "cells (B # bl) = snd B @ cells bl" "cells (bl @ bl') = cells bl @ cells bl'"
  by (simp_all add: cells_def)

lemma block_bytes_simps [simp]:
  "block_bytes [] = 0" "block_bytes (p # ps) = unat (frag_size (snd p)) + block_bytes ps"
  "block_bytes (xs @ ys) = block_bytes xs + block_bytes ys"
  by (simp_all add: block_bytes_def)

lemma tiles_block_bytes: "tiles lo fm hi \<Longrightarrow> hi = lo + block_bytes fm"
  by (induction lo fm hi rule: tiles.induct) auto

lemma size62_id [simp]: "unat a < 4611686018427387904 \<Longrightarrow> size62 a = a"
  by (simp add: size62_def unsigned_take_bit_eq word_unat_eq_iff take_bit_nat_eq_self)

lemma tiles_key_range:
  "tiles lo fm hi \<Longrightarrow> p \<in> set fm \<Longrightarrow> lo \<le> unat (fst p) \<and> unat (fst p) < hi"
  using tiles_bounds [of lo fm hi p] by linarith

lemma block_key_range:
  assumes "block_ok B" "p \<in> set (snd B)"
  shows "unat (fst B) \<le> unat (fst p)" "unat (fst p) < unat (fst B) + block_bytes (snd B)"
  using assms tiles_key_range unfolding block_ok_def by blast+

lemma block_pos: "block_ok B \<Longrightarrow> 0 < block_bytes (snd B)"
proof -
  assume ok: "block_ok B"
  then obtain p where "p \<in> set (snd B)" by (auto simp: block_ok_def)
  from block_key_range [OF ok this] show ?thesis by linarith
qed

text \<open>One block singled out: its neighbours' fragments lie below and above it.\<close>

lemma cells_around:
  assumes "sorted_wrt block_before (bl1 @ B # bl2)" "list_all block_ok (bl1 @ B # bl2)"
  shows "\<forall>p\<in>set (cells bl1). unat (fst p) < unat (fst B)"
    and "\<forall>p\<in>set (cells bl2). unat (fst B) + block_bytes (snd B) \<le> unat (fst p)"
proof -
  have *: "unat (fst p) < unat (fst B)" if "C \<in> set bl1" "p \<in> set (snd C)" for C p
  proof -
    have "block_ok C" "block_before C B" using assms that by (auto simp: sorted_wrt_append list_all_iff)
    with block_key_range(2) [OF _ that(2)] show ?thesis by (fastforce simp: block_before_def)
  qed
  have **: "unat (fst B) + block_bytes (snd B) \<le> unat (fst p)" if "C \<in> set bl2" "p \<in> set (snd C)" for C p
  proof -
    have "block_ok C" "block_before B C" using assms that by (auto simp: sorted_wrt_append list_all_iff)
    with block_key_range(1) [OF _ that(2)] show ?thesis by (fastforce simp: block_before_def)
  qed
  from * ** show "\<forall>p\<in>set (cells bl1). unat (fst p) < unat (fst B)"
    "\<forall>p\<in>set (cells bl2). unat (fst B) + block_bytes (snd B) \<le> unat (fst p)" by (auto simp: cells_def)
qed

lemma blocks_around:
  assumes "sorted_wrt block_before (bl1 @ B # bl2)" "list_all block_ok (bl1 @ B # bl2)"
  shows "\<forall>C\<in>set bl1. fst C < fst B" and "\<forall>C\<in>set bl2. unat (fst B) + block_bytes (snd B) \<le> unat (fst C)"
    and "\<forall>C\<in>set bl2. fst B < fst C"
proof -
  show a: "\<forall>C\<in>set bl2. unat (fst B) + block_bytes (snd B) \<le> unat (fst C)"
    using assms by (auto simp: sorted_wrt_append block_before_def)
  have "0 < block_bytes (snd B)" using assms(2) block_pos by simp
  with a show "\<forall>C\<in>set bl2. fst B < fst C" by (fastforce simp: word_less_nat_alt)
  show "\<forall>C\<in>set bl1. fst C < fst B"
    using assms block_pos by (fastforce simp: sorted_wrt_append block_before_def word_less_nat_alt list_all_iff)
qed

lemma floor_block:
  assumes "sorted_wrt block_before (bl1 @ B # bl2)" "list_all block_ok (bl1 @ B # bl2)" "p \<in> set (snd B)"
  shows "omap_floor (fst p) (bl1 @ B # bl2) = Some B"
proof -
  have "block_ok B" using assms(2) by simp
  note r = block_key_range [OF this assms(3)]
  have "fst B \<le> fst p" using r(1) by (simp add: word_le_nat_alt)
  moreover have "\<forall>C\<in>set bl1. fst C \<le> fst p" using blocks_around(1) [OF assms(1,2)] calculation by (auto intro: order.trans less_imp_le)
  moreover have "\<forall>C\<in>set bl2. fst p < fst C" using blocks_around(2) [OF assms(1,2)] r(2) by (fastforce simp: word_less_nat_alt)
  ultimately show ?thesis using omap_floor_append [of "bl1 @ [B]" "fst p" bl2] by (auto simp del: omap_floor_append)
qed

lemma floor_split:
  assumes "sorted_wrt block_before bl" "list_all block_ok bl" "omap_floor a bl = Some B" "map_of (snd B) a = Some f"
  obtains bl1 bl2 xs ys where "bl = bl1 @ (fst B, xs @ (a, f) # ys) # bl2" "snd B = xs @ (a, f) # ys"
proof -
  have "B \<in> set (filter (\<lambda>p. fst p \<le> a) bl)"
    using assms(3) unfolding omap_floor_def last_opt_def by (metis last_in_set option.inject option.distinct(1))
  then have "B \<in> set bl" by simp
  then obtain bl1 bl2 where bl: "bl = bl1 @ B # bl2" by (meson split_list)
  with assms(2) have "tiles (unat (fst B)) (snd B) (unat (fst B) + block_bytes (snd B))" by (simp add: block_ok_def)
  from tiles_lookup [OF this assms(4)] obtain xs ys where "snd B = xs @ (a, f) # ys" .
  with bl that show ?thesis by (metis prod.collapse)
qed

lemma omap_put_block:
  assumes "\<forall>C\<in>set bl1. fst C < k"
  shows "omap_put k fm' (bl1 @ (k, fm) # bl2) = bl1 @ (k, fm') # bl2"
  using assms by (simp add: omap_simps)

section \<open>Replacing the fragments of one block\<close>

lemma sh_replace:
  assumes inv: "sh_inv h" and bl: "sh_block_list h = bl1 @ (k, fm) # bl2"
    and new: "block_ok (k, fm')" "block_bytes fm' = block_bytes fm"
    and fl: "mm_ok fl" "mset fl = mset (sh_free_list h) - mset (free_entries fm) + mset (free_entries fm')"
    and h': "sh_block_list h' = bl1 @ (k, fm') # bl2" "sh_free_list h' = fl" "same_cache h h'"
  shows "sh_inv h'" and "sh_held h' = sh_held h"
proof -
  have "sorted_wrt block_before (bl1 @ (k, fm') # bl2)"
    using inv bl new(2) by (simp add: sh_inv_def sorted_wrt_append block_before_def)
  moreover have "list_all block_ok (bl1 @ (k, fm') # bl2)" using inv bl new(1) by (simp add: sh_inv_def)
  moreover have "mset fl = mset (free_entries (cells (bl1 @ (k, fm') # bl2)))"
    using inv bl fl(2) by (simp add: sh_inv_def)
  ultimately show "sh_inv h'" using fl(1) h' inv bl new(2) by (simp add: sh_inv_def same_cache_def)
  show "sh_held h' = sh_held h" using bl h' new(2) by (simp add: sh_held_def same_cache_def)
qed

definition sh_pieces :: "u64 \<Rightarrow> u64 \<Rightarrow> u64 \<Rightarrow> u64 \<Rightarrow> (u64 \<times> sh_fragment) list" where
  "sh_pieces a sz d n =
     (if d = 0 then [] else [(a, makeFragment_free (d, a) d)]) @
     [(a + d, makeFragment_used n)] @
     (if d + n < sz then [(a + d + n, makeFragment_free (sz - d - n, a + d + n) (sz - d - n))] else [])"

lemma sh_pieces_arith:
  assumes "unat a + unat sz < 18446744073709551616" and "unat sz < 4611686018427387904"
    and "0 < unat n" and "unat d + unat n \<le> unat sz"
  shows "unat (d + n) = unat d + unat n" and "unat (a + d) = unat a + unat d"
    and "unat (a + d + n) = unat a + unat d + unat n" and "unat (sz - d - n) = unat sz - unat d - unat n"
    and "d + n < sz \<longleftrightarrow> unat d + unat n < unat sz"
    and "size62 d = d" and "size62 n = n" and "size62 (sz - d - n) = sz - d - n"
  using assms by (simp_all add: word_nat word_less_nat_alt)

lemma sh_pieces_ok:
  assumes b: "unat a + unat sz < 18446744073709551616" "unat sz < 4611686018427387904"
    and n: "0 < unat n" "unat d + unat n \<le> unat sz"
  shows "tiles (unat a) (sh_pieces a sz d n) (unat a + unat sz)"
    and "list_all plain_frag (sh_pieces a sz d n)"
    and "successively not_both_free (sh_pieces a sz d n)"
    and "mset (free_entries (sh_pieces a sz d n)) =
      (if d = 0 then {#} else {#(d, a)#}) + (if d + n < sz then {#(sz - d - n, a + d + n)#} else {#})"
  using n sh_pieces_arith [OF b n] unat_gt_0 [of d]
  by (cases "d = 0"; auto simp: sh_pieces_def frag_ok_def plain_frag_def not_both_free_def makeFragment_free_def
      makeFragment_used_def)+

text \<open>The bounds a fragment inherits from its block.\<close>

lemma block_frag:
  assumes "block_ok (k, xs @ (a, f) # ys)"
  shows "unat (frag_size f) < 4611686018427387904" and "unat a + unat (frag_size f) < 18446744073709551616"
    and "\<forall>p\<in>set xs. fst p < a" and "\<forall>p\<in>set ys. a < fst p" and "unat k \<le> unat a"
    and "tiles (unat a + unat (frag_size f)) ys (unat k + block_bytes (xs @ (a, f) # ys))"
    and "unat a + unat (frag_size f) \<le> unat k + block_bytes (xs @ (a, f) # ys)" and "0 < unat a"
    and "tiles (unat k) xs (unat a)" and "0 < unat (frag_size f)"
proof -
  have t: "tiles (unat k) (xs @ (a, f) # ys) (unat k + block_bytes (xs @ (a, f) # ys))"
    and b: "unat k + block_bytes (xs @ (a, f) # ys) < 2 ^ 64" "block_bytes (xs @ (a, f) # ys) < 2 ^ 62" "0 < unat k"
    using assms by (simp_all add: block_ok_def)
  note sp = tiles_split [OF t]
  show "unat (frag_size f) < 4611686018427387904" "unat a + unat (frag_size f) < 18446744073709551616"
    "unat a + unat (frag_size f) \<le> unat k + block_bytes (xs @ (a, f) # ys)" "0 < unat a"
    using sp(3,5) b by simp_all
  from sp show "\<forall>p\<in>set xs. fst p < a" "\<forall>p\<in>set ys. a < fst p" "unat k \<le> unat a"
    "tiles (unat a + unat (frag_size f)) ys (unat k + block_bytes (xs @ (a, f) # ys))"
    "tiles (unat k) xs (unat a)" "0 < unat (frag_size f)" by auto
qed

lemma block_carve:
  assumes ok: "block_ok (k, xs @ (a, f) # ys)" and free: "frag_is_free f"
    and n: "0 < unat n" "unat d + unat n \<le> unat (frag_size f)"
  shows "block_ok (k, xs @ sh_pieces a (frag_size f) d n @ ys)"
    and "block_bytes (xs @ sh_pieces a (frag_size f) d n @ ys) = block_bytes (xs @ (a, f) # ys)"
proof -
  note fr = block_frag [OF ok]
  note pc = sh_pieces_ok [OF fr(2,1) n]
  have bb: "block_bytes (sh_pieces a (frag_size f) d n) = unat (frag_size f)"
    using tiles_block_bytes [OF pc(1)] by simp
  then show eq: "block_bytes (xs @ sh_pieces a (frag_size f) d n @ ys) = block_bytes (xs @ (a, f) # ys)" by simp
  have t: "tiles (unat k) (xs @ sh_pieces a (frag_size f) d n @ ys) (unat k + block_bytes (xs @ (a, f) # ys))"
    unfolding tiles_append using fr(6,9) pc(1) by blast
  have last: "xs \<noteq> [] \<Longrightarrow> \<not> frag_is_free (snd (last xs))" and hd: "ys \<noteq> [] \<Longrightarrow> \<not> frag_is_free (snd (hd ys))"
    and sx: "successively not_both_free xs" "successively not_both_free ys"
    using ok free by (auto simp: block_ok_def successively_append_iff successively_Cons not_both_free_def)
  have "successively not_both_free (xs @ sh_pieces a (frag_size f) d n @ ys)"
    using sx pc(3) last hd by (auto simp: successively_append_iff successively_Cons not_both_free_def)
  moreover have "\<exists>p\<in>set (sh_pieces a (frag_size f) d n). \<not> frag_is_free (snd p)"
    by (simp add: sh_pieces_def makeFragment_used_def)
  ultimately show "block_ok (k, xs @ sh_pieces a (frag_size f) d n @ ys)"
    using ok t pc(2) eq by (auto simp: block_ok_def)
qed

lemma live_carve:
  assumes "\<forall>p\<in>set C1. unat (fst p) < unat a" and "\<forall>p\<in>set C2. unat a + unat d < unat (fst p)"
    and "unat (a + d) = unat a + unat d" and "size62 n = n"
    and free: "frag_is_free f"
  shows "live_list (C1 @ sh_pieces a sz d n @ C2) = (live_list (C1 @ (a, f) # C2))(a + d \<mapsto> n)"
    and "live_list (C1 @ (a, f) # C2) (a + d) = None"
proof -
  have c1: "\<forall>p\<in>set C1. fst p < a + d" using assms(1,3) by (fastforce simp: word_less_nat_alt)
  have "a + d \<notin> fst ` set C1" "a + d \<notin> fst ` set C2" using c1 assms(2,3) by force+
  then show "live_list (C1 @ (a, f) # C2) (a + d) = None"
    using free by (simp add: map_add_None live_list_notin)
  from live_list_insert [OF c1, of "makeFragment_used n" C2] free assms(4)
  show "live_list (C1 @ sh_pieces a sz d n @ C2) = (live_list (C1 @ (a, f) # C2))(a + d \<mapsto> n)"
    by (auto simp: sh_pieces_def makeFragment_used_def makeFragment_free_def map_add_upd_left)
qed

text \<open>The result of cutting a used fragment out of a free one, for either way of cutting.\<close>

lemma sh_carve:
  assumes inv: "sh_inv h" and bl: "sh_block_list h = bl1 @ (k, xs @ (a, f) # ys) # bl2" and free: "frag_is_free f"
    and n: "0 < unat n" "unat d + unat n \<le> unat (frag_size f)"
    and h': "sh_block_list h' = bl1 @ (k, xs @ sh_pieces a (frag_size f) d n @ ys) # bl2" "mm_ok (sh_free_list h')"
      "same_cache h h'" "mset (sh_free_list h') = mset (sh_free_list h) - {#(frag_size f, a)#} +
        ((if d = 0 then {#} else {#(d, a)#}) +
         (if d + n < frag_size f then {#(frag_size f - d - n, a + d + n)#} else {#}))"
  shows "sh_inv h'" and "sh_live h' = (sh_live h)(a + d \<mapsto> n)" and "sh_live h (a + d) = None"
    and "a + d \<noteq> 0" and "sh_held h' = sh_held h"
proof -
  have so: "sorted_wrt block_before (bl1 @ (k, xs @ (a, f) # ys) # bl2)"
    and al: "list_all block_ok (bl1 @ (k, xs @ (a, f) # ys) # bl2)" using inv bl by (simp_all add: sh_inv_def)
  then have ok: "block_ok (k, xs @ (a, f) # ys)" by simp
  note fr = block_frag [OF ok]
  note ar = sh_pieces_arith [OF fr(2,1) n] and pc = sh_pieces_ok [OF fr(2,1) n]
  have "mset (sh_free_list h') = mset (sh_free_list h) - mset (free_entries (xs @ (a, f) # ys)) +
      mset (free_entries (xs @ sh_pieces a (frag_size f) d n @ ys))"
  proof -
    have "mset (sh_free_list h) = mset (free_entries (cells bl1)) + mset (free_entries (xs @ (a, f) # ys)) +
        mset (free_entries (cells bl2))" using inv bl by (simp add: sh_inv_def)
    then show ?thesis using h'(4) pc(4) free by simp
  qed
  from sh_replace [OF inv bl block_carve [OF ok free n] h'(2) this h'(1) refl h'(3)]
  show "sh_inv h'" "sh_held h' = sh_held h" .
  have "\<forall>p\<in>set (cells bl1 @ xs). unat (fst p) < unat a"
    using cells_around(1) [OF so al] fr(3,5) by (fastforce simp: word_less_nat_alt)
  moreover have "\<forall>p\<in>set (ys @ cells bl2). unat a + unat d < unat (fst p)"
    using cells_around(2) [OF so al] fr(7) tiles_bounds [OF fr(6)] n by fastforce
  ultimately have "live_list ((cells bl1 @ xs) @ sh_pieces a (frag_size f) d n @ (ys @ cells bl2)) =
      (live_list ((cells bl1 @ xs) @ (a, f) # (ys @ cells bl2)))(a + d \<mapsto> n)"
    and "live_list ((cells bl1 @ xs) @ (a, f) # (ys @ cells bl2)) (a + d) = None"
    using live_carve [OF _ _ ar(2,7) free] by blast+
  then show "sh_live h' = (sh_live h)(a + d \<mapsto> n)" "sh_live h (a + d) = None"
    by (simp_all add: sh_live_def bl h'(1))
  show "a + d \<noteq> 0" using ar(2) fr(8) by (metis add_is_0 less_numeral_extra(3) unsigned_0)
qed

section \<open>Allocation from a fragment\<close>

lemma sh_take_front_post:
  assumes inv: "sh_inv h" and bl: "sh_block_list h = bl1 @ (k, xs @ (a, f) # ys) # bl2" and free: "frag_is_free f"
    and n: "0 < unat n" "unat n \<le> unat (frag_size f)"
  defines "h' \<equiv> sh_take_front n (frag_size f) a f k (xs @ (a, f) # ys) h"
  shows "sh_inv h' \<and> sh_live h' = (sh_live h)(a \<mapsto> n) \<and> sh_live h a = None \<and> a \<noteq> 0 \<and> sh_held h' = sh_held h"
proof -
  have so: "sorted_wrt block_before (bl1 @ (k, xs @ (a, f) # ys) # bl2)"
    and al: "list_all block_ok (bl1 @ (k, xs @ (a, f) # ys) # bl2)" using inv bl by (simp_all add: sh_inv_def)
  then have ok: "block_ok (k, xs @ (a, f) # ys)" by simp
  note fr = block_frag [OF ok]
  have n': "unat (0 :: u64) + unat n \<le> unat (frag_size f)" using n(2) by simp
  have ar: "unat (a + n) = unat a + unat n" using sh_pieces_arith(3) [OF fr(2,1) n(1) n'] by simp
  have "\<not> frag_discard f" using ok by (simp add: block_ok_def plain_frag_def)
  then have u: "setUsed (f\<lparr>frag_size := size62 n\<rparr>) = makeFragment_used n"
    by (simp add: setUsed_def makeFragment_used_def)
  have m1: "omap_put a (makeFragment_used n) (xs @ (a, f) # ys) = xs @ (a, makeFragment_used n) # ys"
    using fr(3) by (simp add: omap_simps)
  have "\<forall>p\<in>set (xs @ [(a, makeFragment_used n)]). fst p < a + n" using fr(3) n(1) ar by (fastforce simp: word_less_nat_alt)
  note m2 = omap_put_append [OF this, of _ ys, simplified]
  have ys: "\<forall>p\<in>set ys. a + n < fst p" if "n < frag_size f"
    using tiles_bounds [OF fr(6)] ar that by (fastforce simp: word_less_nat_alt)
  have bk: "\<forall>C\<in>set bl1. fst C < k" using blocks_around(1) [OF so al] by simp
  have "sh_block_list h' = bl1 @ (k, xs @ sh_pieces a (frag_size f) 0 n @ ys) # bl2"
    using u m1 m2 omap_put_front [OF ys] omap_put_block [OF bk] bl
    by (simp add: h'_def sh_take_front_def sh_pieces_def Let_def)
  moreover have "mm_ok (sh_free_list h')" "same_cache h h'"
    using inv by (auto simp: h'_def sh_take_front_def sh_inv_def same_cache_def Let_def)
  moreover have "mset (sh_free_list h') = mset (sh_free_list h) - {#(frag_size f, a)#} +
      (if n < frag_size f then {#(frag_size f - n, a + n)#} else {#})"
    by (simp add: h'_def sh_take_front_def mset_mm_erase Let_def)
  ultimately show ?thesis using sh_carve [OF inv bl free n(1) n', of h'] by simp
qed

lemma sh_take_middle_post:
  assumes inv: "sh_inv h" and bl: "sh_block_list h = bl1 @ (k, xs @ (a, f) # ys) # bl2" and free: "frag_is_free f"
    and n: "0 < unat n" "unat d + unat n \<le> unat (frag_size f)" and d: "d \<noteq> 0"
  defines "h' \<equiv> sh_take_middle n (frag_size f) a (a + d) k (xs @ (a, f) # ys) h"
  shows "sh_inv h' \<and> sh_live h' = (sh_live h)(a + d \<mapsto> n) \<and> sh_live h (a + d) = None \<and> a + d \<noteq> 0 \<and>
    sh_held h' = sh_held h"
proof -
  have so: "sorted_wrt block_before (bl1 @ (k, xs @ (a, f) # ys) # bl2)"
    and al: "list_all block_ok (bl1 @ (k, xs @ (a, f) # ys) # bl2)" using inv bl by (simp_all add: sh_inv_def)
  then have ok: "block_ok (k, xs @ (a, f) # ys)" by simp
  note fr = block_frag [OF ok]
  note ar = sh_pieces_arith [OF fr(2,1) n]
  let ?u = "makeFragment_used n" and ?g = "makeFragment_free (d, a) d"
  have lt: "a < a + d" "a + d < a + d + n" using ar d n by (simp_all add: word_less_nat_alt unat_gt_0)
  have ys: "\<forall>p\<in>set ys. a + d + n < fst p" if "d + n < frag_size f"
    using tiles_bounds [OF fr(6)] ar n that by (fastforce simp: word_less_nat_alt)
  have yy: "\<forall>p\<in>set ys. a + d < fst p"
    using tiles_bounds [OF fr(6)] ar n by (fastforce simp: word_less_nat_alt)
  have xs1: "\<forall>p\<in>set (xs @ [(a, ?g)]). fst p < a + d" and xs2: "\<forall>p\<in>set (xs @ [(a, ?g), (a + d, ?u)]). fst p < a + d + n"
    using fr(3) lt by (auto intro: less_trans)
  have m1: "omap_put a ?g (xs @ (a, f) # ys) = xs @ (a, ?g) # ys" using fr(3) by (simp add: omap_simps)
  have m2: "omap_put (a + d) ?u (xs @ (a, ?g) # ys) = xs @ (a, ?g) # (a + d, ?u) # ys"
    using omap_put_append [OF xs1, of ?u ys] omap_put_front [OF yy, of ?u] by simp
  have m3: "omap_put (a + d + n) x (xs @ (a, ?g) # (a + d, ?u) # ys) = xs @ (a, ?g) # (a + d, ?u) # (a + d + n, x) # ys"
    if "d + n < frag_size f" for x
    using omap_put_append [OF xs2, of x ys] omap_put_front [OF ys [OF that], of x] by simp
  have bk: "\<forall>C\<in>set bl1. fst C < k" using blocks_around(1) [OF so al] by simp
  note defs = h'_def sh_take_middle_def Let_def
  have "sh_block_list h' = bl1 @ (k, xs @ sh_pieces a (frag_size f) d n @ ys) # bl2"
    using m1 m2 m3 d omap_put_block [OF bk] bl by (simp add: defs sh_pieces_def)
  moreover have "mm_ok (sh_free_list h')" "same_cache h h'" using inv by (auto simp: defs sh_inv_def same_cache_def)
  moreover have "mset (sh_free_list h') = mset (sh_free_list h) - {#(frag_size f, a)#} + ({#(d, a)#} +
      (if d + n < frag_size f then {#(frag_size f - d - n, a + d + n)#} else {#}))"
    by (simp add: defs mset_mm_erase)
  ultimately show ?thesis using sh_carve [OF inv bl free n, of h'] d by simp
qed

lemma sh_free_list_entryD:
  assumes inv: "sh_inv h" and e: "(sz, a) \<in> set (sh_free_list h)"
  obtains bl1 k xs f ys bl2 where "sh_block_list h = bl1 @ (k, xs @ (a, f) # ys) # bl2" "frag_is_free f" "frag_size f = sz"
    "omap_floor a (sh_block_list h) = Some (k, xs @ (a, f) # ys)" "map_of (xs @ (a, f) # ys) a = Some f"
proof -
  from inv e have "(sz, a) \<in> set (free_entries (cells (sh_block_list h)))"
    unfolding sh_inv_def by (metis set_mset_mset)
  then obtain B f where B: "B \<in> set (sh_block_list h)" "(a, f) \<in> set (snd B)" and f: "frag_is_free f" "frag_size f = sz"
    by (auto simp: free_entries_def cells_def)
  from B(1) obtain bl1 bl2 where bl: "sh_block_list h = bl1 @ B # bl2" by (meson split_list)
  from B(2) obtain xs ys where B2: "B = (fst B, xs @ (a, f) # ys)" by (metis split_list prod.collapse)
  have so: "sorted_wrt block_before (bl1 @ B # bl2)" "list_all block_ok (bl1 @ B # bl2)"
    using inv bl by (simp_all add: sh_inv_def)
  have "block_ok (fst B, xs @ (a, f) # ys)" using so(2) B2 by simp
  from map_of_mid [OF block_frag(3) [OF this]] floor_block [OF so B(2)] bl B2 f that show ?thesis
    by (metis fst_conv)
qed

text \<open>What a successful pass gives: a fresh, aligned range of the requested size.\<close>

definition sh_got :: "u64 \<Rightarrow> u64 \<Rightarrow> simple_heap \<Rightarrow> simple_heap \<Rightarrow> u64 \<Rightarrow> bool" where
  "sh_got n align h h' a \<longleftrightarrow>
     sh_inv h' \<and> sh_held h' = sh_held h \<and> a \<noteq> 0 \<and> sh_live h a = None \<and> sh_live h' = (sh_live h)(a \<mapsto> n) \<and>
     unat align dvd unat a"

text \<open>The alignments the heap asks for are powers of two, so the mask is a remainder.\<close>

definition page_align :: "u64 \<Rightarrow> bool" where
  "page_align align \<longleftrightarrow> align = DEFAULT_GPU_PAGE_SIZE \<or> align = GPU_HUGE_PAGE_SIZE"

lemma page_align_mask:
  assumes "page_align align"
  shows "a AND (align - 1) = a mod align" and "align \<noteq> 0" and "unat align \<le> 2097152"
proof -
  have *: "a AND (2 ^ k - 1) = a mod 2 ^ k" for k
    by (simp add: take_bit_eq_mod flip: take_bit_eq_mask mask_eq_exp_minus_1)
  from assms consider "align = 2 ^ 12" | "align = 2 ^ 21"
    by (auto simp: page_align_def DEFAULT_GPU_PAGE_SIZE_def GPU_HUGE_PAGE_SIZE_def)
  then show "a AND (align - 1) = a mod align" using * [of 12] * [of 21] by cases simp_all
  show "align \<noteq> 0" "unat align \<le> 2097152"
    using assms by (auto simp: page_align_def DEFAULT_GPU_PAGE_SIZE_def GPU_HUGE_PAGE_SIZE_def)
qed

declare sh_alloc_loop.simps [simp del]

lemma sh_loop_step:
  assumes inv: "sh_inv h" and al: "page_align align" and n: "0 < unat bytes" "unat bytes + 2 * 2097152 < 2 ^ 64"
    and ab: "if i = 0 then unat bytes \<le> unat ab else unat bytes + unat align \<le> unat ab"
  shows "sh_alloc_loop (Suc m) i bytes align ab h = Inr None \<or>
    (\<exists>h' a. sh_alloc_loop (Suc m) i bytes align ab h = Inr (Some (h', a)) \<and> sh_got bytes align h h' a) \<or>
    i = 0 \<and> sh_alloc_loop (Suc m) i bytes align ab h = sh_alloc_loop m (Suc i) bytes align (ab + align) h"
proof (cases "mm_lower_bound ab (sh_free_list h)")
  case None
  then show ?thesis by (simp add: sh_alloc_loop.simps)
next
  case (Some e)
  obtain sz a where e: "e = (sz, a)" by (cases e)
  from mm_lower_bound_SomeD [OF Some] e have m: "(sz, a) \<in> set (sh_free_list h)" "ab \<le> sz" by auto
  from sh_free_list_entryD [OF inv m(1)] obtain bl1 k xs f ys bl2 where
    bl: "sh_block_list h = bl1 @ (k, xs @ (a, f) # ys) # bl2" and f: "frag_is_free f" "frag_size f = sz"
    and fl: "omap_floor a (sh_block_list h) = Some (k, xs @ (a, f) # ys)" "map_of (xs @ (a, f) # ys) a = Some f" .
  have ge: "unat bytes \<le> unat sz" using m(2) ab by (auto simp: word_le_nat_alt split: if_splits)
  then have ge': "bytes \<le> sz" by (simp add: word_le_nat_alt)
  let ?delta = "a mod align"
  note mask = page_align_mask [OF al]
  have run: "sh_alloc_loop (Suc m) i bytes align ab h =
      (if ?delta = 0 then Inr (Some (sh_take_front bytes sz a f k (xs @ (a, f) # ys) h, a))
       else if i = 0 \<and> sz < bytes + align - ?delta then sh_alloc_loop m (Suc i) bytes align (ab + align) h
       else Inr (Some (sh_take_middle bytes sz a (a + align - ?delta) k (xs @ (a, f) # ys) h, a + align - ?delta)))"
    using Some e ge' fl f(2) by (simp add: sh_alloc_loop.simps Let_def mask(1))
  show ?thesis
  proof (cases "?delta = 0")
    case True
    then have "unat align dvd unat a" by (rule mod_eq_0_dvd_u64)
    with sh_take_front_post [OF inv bl f(1) n(1)] f(2) ge
    have "sh_got bytes align h (sh_take_front bytes sz a f k (xs @ (a, f) # ys) h) a" by (simp add: sh_got_def)
    with run True show ?thesis by auto
  next
    case False
    let ?d = "align - ?delta"
    have dl: "unat ?delta < unat align" using mask(2) by (simp add: unat_mod64 unat_gt_0)
    then have d: "unat ?d = unat align - unat a mod unat align" and d0: "?d \<noteq> 0"
      by (auto simp: unat_sub64 unat_mod64 word_unat_eq_iff)
    show ?thesis
    proof (cases "i = 0 \<and> sz < bytes + align - ?delta")
      case True
      with run False show ?thesis by simp
    next
      case fit: False
      have "unat (bytes + align - ?delta) = unat bytes + unat ?d"
        using n(2) dl mask(3) d by (simp add: unat_mod64 word_nat)
      then have fits: "unat ?d + unat bytes \<le> unat (frag_size f)"
        using fit ab m(2) f(2) d by (auto simp: word_le_nat_alt word_less_nat_alt split: if_splits)
      have ok: "block_ok (k, xs @ (a, f) # ys)" using inv bl by (simp add: sh_inv_def)
      have bd: "unat (a + ?d) = unat a + unat ?d"
        by (rule sh_pieces_arith(2) [OF block_frag(2,1) [OF ok] n(1) fits])
      have dv: "unat align dvd unat (a + ?d)"
        unfolding bd d using mask(2) by (intro next_multiple_dvd) (simp add: unat_gt_0)
      have eq: "a + align - ?delta = a + ?d" by simp
      have "sh_got bytes align h (sh_take_middle bytes sz a (a + align - ?delta) k (xs @ (a, f) # ys) h)
          (a + align - ?delta)"
        unfolding eq sh_got_def using sh_take_middle_post [OF inv bl f(1) n(1) fits d0] dv unfolding f(2) by blast
      with run False fit show ?thesis by auto
    qed
  qed
qed

lemma sh_loop_post:
  assumes inv: "sh_inv h" and al: "page_align align" and n: "0 < unat bytes" "unat bytes + 2 * 2097152 < 2 ^ 64"
  shows "sh_alloc_loop (Suc retry) 0 bytes align bytes h = Inr None \<or>
    (\<exists>h' a. sh_alloc_loop (Suc retry) 0 bytes align bytes h = Inr (Some (h', a)) \<and> sh_got bytes align h h' a)"
proof -
  have "unat (bytes + align) = unat bytes + unat align" using n(2) page_align_mask(3) [OF al] by (simp add: unat_add64)
  then have ab: "unat bytes + unat align \<le> unat (bytes + align)" by simp
  have second: "sh_alloc_loop retry 1 bytes align (bytes + align) h = Inr None \<or>
      (\<exists>h' a. sh_alloc_loop retry 1 bytes align (bytes + align) h = Inr (Some (h', a)) \<and> sh_got bytes align h h' a)"
  proof (cases retry)
    case 0
    then show ?thesis by (simp add: sh_alloc_loop.simps)
  next
    case (Suc m)
    with sh_loop_step [OF inv al n, of 1 "bytes + align" m] ab show ?thesis by simp
  qed
  with sh_loop_step [OF inv al n, of 0 bytes retry] show ?thesis by auto
qed

section \<open>Release\<close>

text \<open>
  Between the two merges of \<^verbatim>\<open>free\<close>: the fragments tile the block, all but the one being freed agree
  with the free list, whose other entries are \<open>R\<close>.
\<close>

definition sh_hole where
  "sh_hole lo hi R fl xs k (f :: sh_fragment) ys \<longleftrightarrow>
     hi < 2 ^ 64 \<and> hi - lo < 2 ^ 62 \<and> tiles lo (xs @ (k, f) # ys) hi \<and> list_all plain_frag (xs @ ys) \<and>
     \<not> frag_discard f \<and> successively not_both_free xs \<and> successively not_both_free ys \<and>
     mm_ok fl \<and> mset fl = R + mset (free_entries (xs @ ys))"

lemma sh_merged_size:
  assumes "tiles lo (xs @ (a, f) # (b, g) # ys) hi" and "hi < 18446744073709551616"
    and "hi - lo < 4611686018427387904"
  shows "size62 (frag_size f + frag_size g) = frag_size f + frag_size g"
    and "tiles lo (xs @ (a, h\<lparr>frag_size := frag_size f + frag_size g\<rparr>) # ys) hi"
proof -
  note t = tiles_split [OF assms(1)]
  from t(2) have b: "unat b = unat a + unat (frag_size f)" and g: "0 < unat (frag_size g)"
    and y: "tiles (unat b + unat (frag_size g)) ys hi" by auto
  from tiles_le [OF y] have le: "unat b + unat (frag_size g) \<le> hi" .
  have s: "unat (frag_size f + frag_size g) = unat (frag_size f) + unat (frag_size g)"
    using le b assms(2) by (simp add: unat_add64)
  show "size62 (frag_size f + frag_size g) = frag_size f + frag_size g" using s le b t(3) assms(3) by simp
  show "tiles lo (xs @ (a, h\<lparr>frag_size := frag_size f + frag_size g\<rparr>) # ys) hi"
    unfolding tiles_append using t(1) y s b g by (intro exI [of _ "unat a"]) (simp add: add.assoc)
qed

lemma sh_merge_lower_hole:
  assumes h: "sh_hole lo hi R fl xs a f ys"
  shows "\<exists>fl' xs' k f'. sh_merge_lower fl (xs @ (a, f) # ys) a f = (fl', xs' @ (k, f') # ys, k, f') \<and>
    sh_hole lo hi R fl' xs' k f' ys \<and> (xs' = [] \<or> \<not> frag_is_free (snd (last xs'))) \<and>
    live_list xs' = live_list xs"
proof -
  from h have t: "tiles lo (xs @ (a, f) # ys) hi" by (simp add: sh_hole_def)
  have pred: "omap_pred a (xs @ (a, f) # ys) = last_opt xs"
    using tiles_split(6,7) [OF t] by (simp add: omap_pred_append less_imp_le)
  show ?thesis
  proof (cases "xs = [] \<or> \<not> frag_is_free (snd (last xs))")
    case True
    then have "sh_merge_lower fl (xs @ (a, f) # ys) a f = (fl, xs @ (a, f) # ys, a, f)"
      using pred by (auto simp: sh_merge_lower_def last_opt_def split: prod.splits)
    with True h show ?thesis by blast
  next
    case False
    then obtain xs' l g where xs: "xs = xs' @ [(l, g)]" and g: "frag_is_free g"
      by (metis append_butlast_last_id prod.collapse)
    let ?g = "g\<lparr>free_list_entry := None, frag_size := frag_size g + frag_size f\<rparr>"
    from t xs have t': "tiles lo (xs' @ (l, g) # (a, f) # ys) hi" by simp
    have bnd: "hi < 18446744073709551616" "hi - lo < 4611686018427387904" using h by (simp_all add: sh_hole_def)
    note ms = sh_merged_size(1) [OF t' bnd] sh_merged_size(2) [OF t' bnd, of "g\<lparr>free_list_entry := None\<rparr>"]
    have er: "omap_erase a (xs @ (a, f) # ys) = xs @ ys"
      using tiles_split(6,7) [OF t] by (auto intro!: omap_erase_mid)
    have pt: "omap_put l ?g (xs @ ys) = xs' @ (l, ?g) # ys"
      using xs tiles_split(6) [OF t'] by (simp add: omap_simps)
    have ok: "plain_frag (l, g)" using h xs by (simp add: sh_hole_def)
    then have "removeFreeListEntry g fl = mm_erase (frag_size g, l) fl"
      using g by (simp add: removeFreeListEntry_def frag_ok_def plain_frag_def)
    then have "sh_merge_lower fl (xs @ (a, f) # ys) a f = (mm_erase (frag_size g, l) fl, xs' @ (l, ?g) # ys, l, ?g)"
      using pred xs g er pt ms(1) by (simp add: sh_merge_lower_def Let_def)
    moreover have "sh_hole lo hi R (mm_erase (frag_size g, l) fl) xs' l ?g ys"
      using h xs g ms(2) ok by (auto simp: sh_hole_def mset_mm_erase successively_append_iff plain_frag_def)
    moreover have "xs' = [] \<or> \<not> frag_is_free (snd (last xs'))"
      using h xs g by (auto simp: sh_hole_def successively_append_iff not_both_free_def)
    moreover have "live_list xs' = live_list xs" using xs g by simp
    ultimately show ?thesis by blast
  qed
qed

lemma sh_merge_upper_hole:
  assumes h: "sh_hole lo hi R fl xs k f ys"
  shows "\<exists>fl' f' ys'. sh_merge_upper fl (xs @ (k, f) # ys) k f = (fl', xs @ (k, f') # ys', f') \<and>
    sh_hole lo hi R fl' xs k f' ys' \<and> (ys' = [] \<or> \<not> frag_is_free (snd (hd ys'))) \<and>
    live_list ys' = live_list ys"
proof -
  from h have t: "tiles lo (xs @ (k, f) # ys) hi" by (simp add: sh_hole_def)
  have "omap_succ k ((xs @ [(k, f)]) @ ys) = (case ys of [] \<Rightarrow> None | y # _ \<Rightarrow> Some y)"
    using tiles_split(6,7) [OF t] by (intro omap_succ_append) auto
  then have sc: "omap_succ k (xs @ (k, f) # ys) = (case ys of [] \<Rightarrow> None | y # _ \<Rightarrow> Some y)" by simp
  show ?thesis
  proof (cases "ys = [] \<or> \<not> frag_is_free (snd (hd ys))")
    case True
    then have "sh_merge_upper fl (xs @ (k, f) # ys) k f = (fl, xs @ (k, f) # ys, f)"
      using sc by (cases ys) (auto simp: sh_merge_upper_def)
    with True h show ?thesis by blast
  next
    case False
    then obtain u g ys' where ys: "ys = (u, g) # ys'" and g: "frag_is_free g" by (cases ys) auto
    let ?f = "f\<lparr>frag_size := frag_size f + frag_size g\<rparr>"
    from t ys have t': "tiles lo (xs @ (k, f) # (u, g) # ys') hi" by simp
    have bnd: "hi < 18446744073709551616" "hi - lo < 4611686018427387904" using h by (simp_all add: sh_hole_def)
    note ms = sh_merged_size(1) [OF t' bnd] sh_merged_size(2) [OF t' bnd, of f]
    from t' have "tiles lo ((xs @ [(k, f)]) @ (u, g) # ys') hi" by simp
    from tiles_split(6,7) [OF this] have "omap_erase u ((xs @ [(k, f)]) @ (u, g) # ys') = (xs @ [(k, f)]) @ ys'"
      by (intro omap_erase_mid) force+
    then have er: "omap_erase u (xs @ (k, f) # ys) = xs @ (k, f) # ys'" using ys by simp
    have pt: "omap_put k ?f (xs @ (k, f) # ys') = xs @ (k, ?f) # ys'"
      using tiles_split(6) [OF t] by (simp add: omap_simps)
    have ok: "plain_frag (u, g)" using h ys by (simp add: sh_hole_def)
    then have "removeFreeListEntry g fl = mm_erase (frag_size g, u) fl"
      using g by (simp add: removeFreeListEntry_def frag_ok_def plain_frag_def)
    then have "sh_merge_upper fl (xs @ (k, f) # ys) k f = (mm_erase (frag_size g, u) fl, xs @ (k, ?f) # ys', ?f)"
      using sc ys g er pt ms(1) by (simp add: sh_merge_upper_def Let_def)
    moreover have "sh_hole lo hi R (mm_erase (frag_size g, u) fl) xs k ?f ys'"
      using h ys g ms(2) by (auto simp: sh_hole_def mset_mm_erase successively_Cons)
    moreover have "ys' = [] \<or> \<not> frag_is_free (snd (hd ys'))"
      using h ys g by (auto simp: sh_hole_def successively_Cons not_both_free_def)
    moreover have "live_list ys' = live_list ys" using ys g by simp
    ultimately show ?thesis by blast
  qed
qed

lemma cells_omap_ok: "sorted_wrt block_before bl \<Longrightarrow> list_all block_ok bl \<Longrightarrow> omap_ok (cells bl)"
proof (induction bl)
  case (Cons B bl)
  have "omap_ok (snd B)" using Cons.prems(2) by (auto simp: block_ok_def intro: tiles_omap_ok)
  moreover have "fst p < fst q" if "p \<in> set (snd B)" "q \<in> set (cells bl)" for p q
  proof -
    have "block_ok B" using Cons.prems(2) by simp
    from block_key_range(2) [OF this that(1)] cells_around(2) [of "[]" B bl] Cons.prems that(2)
    show ?thesis by (fastforce simp: word_less_nat_alt)
  qed
  ultimately show ?case using Cons by (auto simp: omap_ok_append)
qed (simp add: omap_ok_def)

lemma word_of_nat_unat_id: "of_nat (unat w) = (w :: u64)"
  by simp

lemma sh_live_split:
  assumes inv: "sh_inv h" and "sh_live h a = Some n"
  obtains bl1 k xs f ys bl2 where "sh_block_list h = bl1 @ (k, xs @ (a, f) # ys) # bl2" "\<not> frag_is_free f" "frag_size f = n"
    "omap_floor a (sh_block_list h) = Some (k, xs @ (a, f) # ys)" "map_of (xs @ (a, f) # ys) a = Some f"
proof -
  let ?bl = "sh_block_list h"
  have so: "sorted_wrt block_before ?bl" "list_all block_ok ?bl" using inv by (simp_all add: sh_inv_def)
  from assms(2) omap_ok_distinct [OF cells_omap_ok [OF so]] obtain f where
    f: "map_of (cells ?bl) a = Some f" "\<not> frag_is_free f" "frag_size f = n"
    by (auto simp: sh_live_def live_list_eq split: option.splits if_splits)
  from map_of_SomeD [OF f(1)] obtain B where B: "B \<in> set ?bl" "(a, f) \<in> set (snd B)" by (auto simp: cells_def)
  from B(1) obtain bl1 bl2 where bl: "?bl = bl1 @ B # bl2" by (meson split_list)
  from B(2) obtain xs ys where B2: "B = (fst B, xs @ (a, f) # ys)" by (metis split_list prod.collapse)
  have so': "sorted_wrt block_before (bl1 @ B # bl2)" "list_all block_ok (bl1 @ B # bl2)" using so bl by simp_all
  have "block_ok (fst B, xs @ (a, f) # ys)" using so'(2) B2 by simp
  from map_of_mid [OF block_frag(3) [OF this]] floor_block [OF so' B(2)] bl B2 f that show ?thesis by (metis fst_conv)
qed

lemma sh_free_unknown:
  assumes inv: "sh_inv h" and none: "sh_live h a = None"
  shows "sh_free al a h b = Inr (a = 0, h, b)"
proof (cases "omap_floor a (sh_block_list h)")
  case None
  then show ?thesis by (simp add: sh_free_def)
next
  case (Some B)
  let ?bl = "sh_block_list h"
  have so: "sorted_wrt block_before ?bl" "list_all block_ok ?bl" using inv by (simp_all add: sh_inv_def)
  have "frag_is_free f" if f: "map_of (snd B) a = Some f" for f
  proof -
    from floor_split [OF so Some f] obtain bl1 bl2 xs ys where bl: "?bl = bl1 @ (fst B, xs @ (a, f) # ys) # bl2" .
    then have "(a, f) \<in> set (cells ?bl)" by simp
    then have "map_of (cells ?bl) a = Some f"
      using omap_ok_distinct [OF cells_omap_ok [OF so]] by (simp add: map_of_is_SomeI)
    with none omap_ok_distinct [OF cells_omap_ok [OF so]] show ?thesis
      by (simp add: sh_live_def live_list_eq split: if_splits)
  qed
  with Some show ?thesis by (cases B) (auto simp: sh_free_def split: option.splits)
qed

lemma live_remove:
  assumes "omap_ok (C1 @ (a, f) # C2)" and "\<not> frag_is_free f"
  shows "live_list (C1 @ C2) = (live_list (C1 @ (a, f) # C2))(a := None)"
proof -
  have "\<forall>p\<in>set C1. fst p < a" "\<forall>p\<in>set C2. a < fst p" using assms(1) by (auto simp: omap_ok_def sorted_wrt_append)
  then have "a \<notin> fst ` set C1" "a \<notin> fst ` set C2" by force+
  with assms(2) show ?thesis
    using live_list_notin [of a C1] live_list_notin [of a C2]
    by (auto simp: fun_eq_iff map_add_def split: option.splits)
qed

text \<open>
  Releasing a range: the pieces merge, and either the block keeps another range or it moves to the
  cache, which is then trimmed.
\<close>

lemma sh_free_core:
  assumes inv: "sh_inv h" and live: "sh_live h a = Some n"
  shows "\<exists>h1. sh_inv h1 \<and> sh_live h1 = (sh_live h)(a := None) \<and> mset (sh_held h1) = mset (sh_held h) \<and>
    (sh_free al a h b = Inr (True, h1, b) \<or> sh_free al a h b = bindE (balance al h1 b) (\<lambda>(h, b). Inr (True, h, b)))"
proof -
  from sh_live_split [OF inv live] obtain bl1 k xs f ys bl2 where
    bl: "sh_block_list h = bl1 @ (k, xs @ (a, f) # ys) # bl2" and f: "\<not> frag_is_free f"
    and fl: "omap_floor a (sh_block_list h) = Some (k, xs @ (a, f) # ys)" "map_of (xs @ (a, f) # ys) a = Some f" .
  have so: "sorted_wrt block_before (bl1 @ (k, xs @ (a, f) # ys) # bl2)"
    and al: "list_all block_ok (bl1 @ (k, xs @ (a, f) # ys) # bl2)" using inv bl by (simp_all add: sh_inv_def)
  then have ok: "block_ok (k, xs @ (a, f) # ys)" by simp
  note fr = block_frag [OF ok]
  let ?hi = "unat k + block_bytes (xs @ (a, f) # ys)"
  let ?R = "mset (free_entries (cells bl1)) + mset (free_entries (cells bl2))"
  have "sh_hole (unat k) ?hi ?R (sh_free_list h) xs a f ys"
    using ok inv bl f by (auto simp: sh_hole_def block_ok_def sh_inv_def plain_frag_def successively_append_iff successively_Cons)
  from sh_merge_lower_hole [OF this] obtain fl1 xs1 k1 f1 where
    l: "sh_merge_lower (sh_free_list h) (xs @ (a, f) # ys) a f = (fl1, xs1 @ (k1, f1) # ys, k1, f1)"
      "sh_hole (unat k) ?hi ?R fl1 xs1 k1 f1 ys" "xs1 = [] \<or> \<not> frag_is_free (snd (last xs1))" "live_list xs1 = live_list xs"
    by blast
  from sh_merge_upper_hole [OF l(2)] obtain fl2 f2 ys2 where
    u: "sh_merge_upper fl1 (xs1 @ (k1, f1) # ys) k1 f1 = (fl2, xs1 @ (k1, f2) # ys2, f2)"
      "sh_hole (unat k) ?hi ?R fl2 xs1 k1 f2 ys2" "ys2 = [] \<or> \<not> frag_is_free (snd (hd ys2))" "live_list ys2 = live_list ys"
    by blast
  from u(2) have h: "tiles (unat k) (xs1 @ (k1, f2) # ys2) ?hi" "list_all plain_frag (xs1 @ ys2)" "\<not> frag_discard f2"
    "successively not_both_free xs1" "successively not_both_free ys2" "mm_ok fl2" "mset fl2 = ?R + mset (free_entries (xs1 @ ys2))"
    by (auto simp: sh_hole_def)
  have nd: "\<not> frag_discard f" and a0: "a \<noteq> 0" using ok fr(8) by (auto simp: block_ok_def plain_frag_def)
  have lv: "(sh_live h)(a := None) = live_list (cells bl1 @ xs1 @ ys2 @ cells bl2)"
    using live_remove [of "cells bl1 @ xs" a f "ys @ cells bl2"] cells_omap_ok [OF so al] f l(4) u(4)
    by (simp add: sh_live_def bl)
  have bk: "\<forall>C\<in>set bl1. fst C < k" "\<forall>C\<in>set bl2. k < fst C" using blocks_around(1,3) [OF so al] by simp_all
  have bb: "block_bytes (xs1 @ (k1, f2) # ys2) = block_bytes (xs @ (a, f) # ys)" using tiles_block_bytes [OF h(1)] by simp
  show ?thesis
  proof (cases "xs1 = [] \<and> ys2 = []")
    case True
    let ?h1 = "h\<lparr>sh_free_list := fl2, sh_block_list := bl1 @ bl2, sh_block_cache := sh_block_cache h @ [(k1, frag_size f2)],
      sh_cache_size := sh_cache_size h + frag_size f2, sh_in_use_size := sh_in_use_size h - frag_size f2\<rparr>"
    have k1: "k1 = k" using h(1) True by (simp add: word_unat_eq_iff)
    have sz: "unat (frag_size f2) = block_bytes (xs @ (a, f) # ys)" using bb True by simp
    have er: "omap_erase k (sh_block_list h) = bl1 @ bl2"
      unfolding bl by (rule omap_erase_mid) (use bk in force)+
    have "sh_free al a h b = bindE (balance al ?h1 b) (\<lambda>(h, b). Inr (True, h, b))"
      using True l(1) u(1) fl f nd a0 er k1 by (simp add: sh_free_def Let_def)
    moreover have "sh_inv ?h1"
    proof -
      have "sorted_wrt block_before (bl1 @ bl2)" "list_all block_ok (bl1 @ bl2)" using so al by (auto simp: sorted_wrt_append)
      moreover have "sh_in_use_size h - frag_size f2 = of_nat (\<Sum>B\<leftarrow>bl1 @ bl2. block_bytes (snd B))"
      proof -
        have "sh_in_use_size h = of_nat ((\<Sum>B\<leftarrow>bl1 @ bl2. block_bytes (snd B)) + block_bytes (xs @ (a, f) # ys))"
          using inv bl by (simp add: sh_inv_def)
        moreover have "frag_size f2 = of_nat (block_bytes (xs @ (a, f) # ys))" using arg_cong [OF sz, of "of_nat :: nat \<Rightarrow> u64"] by (simp only: word_of_nat_unat_id)
        ultimately show ?thesis by (simp only: of_nat_add) simp
      qed
      ultimately show ?thesis using h(6,7) True inv by (simp add: sh_inv_def)
    qed
    moreover have "sh_live ?h1 = (sh_live h)(a := None)" using lv True by (simp add: sh_live_def)
    moreover have "mset (sh_held ?h1) = mset (sh_held h)" using bl sz k1 by (simp add: sh_held_def)
    ultimately show ?thesis by blast
  next
    case False
    let ?it = "(frag_size f2, k1)"
    let ?fm = "xs1 @ (k1, setFree f2 ?it) # ys2"
    let ?h1 = "h\<lparr>sh_free_list := mm_insert ?it fl2, sh_block_list := bl1 @ (k, ?fm) # bl2\<rparr>"
    have t: "tiles (unat k) ?fm ?hi" using h(1) by (simp add: tiles_append setFree_def)
    have bb': "block_bytes ?fm = block_bytes (xs @ (a, f) # ys)" using tiles_block_bytes [OF t] by simp
    have sn: "successively not_both_free ?fm"
      using h(4,5) l(3) u(3) by (auto simp: successively_append_iff successively_Cons not_both_free_def)
    have "(xs1 \<noteq> [] \<and> last xs1 \<in> set ?fm \<and> \<not> frag_is_free (snd (last xs1))) \<or>
        (ys2 \<noteq> [] \<and> hd ys2 \<in> set ?fm \<and> \<not> frag_is_free (snd (hd ys2)))" using False l(3) u(3) by auto
    then have us: "\<exists>p\<in>set ?fm. \<not> frag_is_free (snd p)" by blast
    have pl: "list_all plain_frag ?fm" using h(2,3) by (simp add: plain_frag_def frag_ok_def setFree_def)
    have ok': "block_ok (k, ?fm)" using ok t bb' pl sn us by (simp add: block_ok_def)
    have "\<forall>p\<in>set xs1. fst p < k1" using tiles_split(6) [OF h(1)] .
    then have put: "omap_put k1 (setFree f2 ?it) (xs1 @ (k1, f2) # ys2) = ?fm" by (simp add: omap_simps)
    have run: "sh_free al a h b = Inr (True, ?h1, b)"
      using False l(1) u(1) fl f nd a0 put omap_put_block [OF bk(1)] bl by (cases xs1) (simp_all add: sh_free_def Let_def)
    have ms: "mset (mm_insert ?it fl2) = mset (sh_free_list h) - mset (free_entries (xs @ (a, f) # ys)) + mset (free_entries ?fm)"
      using h(7) inv bl by (simp add: sh_inv_def setFree_def)
    have mo: "mm_ok (mm_insert ?it fl2)" using h(6) by auto
    from sh_replace [OF inv bl ok' bb' mo ms, of ?h1] have "sh_inv ?h1" "sh_held ?h1 = sh_held h"
      by (simp_all add: same_cache_def)
    moreover have "sh_live ?h1 = (sh_live h)(a := None)" using lv by (simp add: sh_live_def setFree_def)
    ultimately show ?thesis using run by auto
  qed
qed

section \<open>A fresh block\<close>

lemma omap_split_at:
  assumes "omap_ok m" "k \<notin> fst ` set m"
  shows "\<exists>m1 m2. m = m1 @ m2 \<and> (\<forall>p\<in>set m1. fst p < k) \<and> (\<forall>p\<in>set m2. k < fst p)"
  using assms
proof (induction m)
  case (Cons p m)
  show ?case
  proof (cases "k < fst p")
    case True
    with Cons.prems have "\<forall>q\<in>set (p # m). k < fst q" by (auto simp: omap_ok_def intro: less_trans)
    then show ?thesis by (intro exI [of _ "[]"] exI [of _ "p # m"]) simp
  next
    case False
    with Cons.prems have "fst p < k" by auto
    moreover from Cons obtain m1 m2 where "m = m1 @ m2" "\<forall>q\<in>set m1. fst q < k" "\<forall>q\<in>set m2. k < fst q"
      by (auto simp: omap_ok_def)
    ultimately show ?thesis by (intro exI [of _ "p # m1"] exI [of _ m2]) simp
  qed
qed simp

lemma sh_inv_blocks_omap: "sh_inv h \<Longrightarrow> omap_ok (sh_block_list h)"
proof -
  assume "sh_inv h"
  then have "sorted_wrt block_before (sh_block_list h)" "list_all block_ok (sh_block_list h)" by (simp_all add: sh_inv_def)
  then show ?thesis
  proof (induction "sh_block_list h" arbitrary: h)
    case (Cons B bl)
    from Cons.prems blocks_around(3) [of "[]" B bl] Cons.hyps(2) have "\<forall>C\<in>set bl. fst B < fst C" by simp
    with Cons.hyps(1) [of "h\<lparr>sh_block_list := bl\<rparr>"] Cons.prems Cons.hyps(2) [symmetric] show ?case by (simp add: omap_ok_def)
  qed (simp add: omap_ok_def)
qed

definition clear_of :: "u64 \<Rightarrow> u64 \<Rightarrow> simple_heap \<Rightarrow> bool" where
  "clear_of base sz h \<longleftrightarrow>
     (\<forall>B\<in>set (sh_block_list h). unat (fst B) + block_bytes (snd B) \<le> unat base \<or> unat base + unat sz \<le> unat (fst B))"

lemma sh_cut_block_post:
  assumes inv: "sh_inv h" and n: "0 < unat n" "n \<le> sz" "n \<le> ba_block_size al"
    and blk: "0 < unat base" "unat base + unat sz < 2 ^ 64" "unat sz < 2 ^ 62" "clear_of base sz h"
  shows "\<exists>h'. sh_cut_block al n base sz h b = Inr (base, h', b) \<and> sh_inv h' \<and> sh_live h base = None \<and>
    sh_live h' = (sh_live h)(base \<mapsto> n) \<and> mset (sh_held h') = add_mset (base, unat sz) (mset (sh_held h)) \<and>
    sh_block_cache h' = sh_block_cache h"
proof -
  let ?bl = "sh_block_list h" and ?fm = "sh_pieces base sz 0 n"
  have so: "sorted_wrt block_before ?bl" "list_all block_ok ?bl" using inv by (simp_all add: sh_inv_def)
  have le: "unat n \<le> unat sz" using n(2) by (simp add: word_le_nat_alt)
  have ap: "unat (fst B) + block_bytes (snd B) \<le> unat base \<or> unat base + unat sz \<le> unat (fst B)" "0 < block_bytes (snd B)"
    if "B \<in> set ?bl" for B using blk(4) that so(2) block_pos by (auto simp: clear_of_def list_all_iff)
  have "base \<notin> fst ` set ?bl" using ap n(1) le by fastforce
  from omap_split_at [OF sh_inv_blocks_omap [OF inv] this] obtain bl1 bl2 where
    bl: "?bl = bl1 @ bl2" "\<forall>C\<in>set bl1. fst C < base" "\<forall>C\<in>set bl2. base < fst C" by blast
  have b2: "unat base + unat (0 :: u64) + unat n \<le> unat base + unat sz" and sz': "unat (0 :: u64) + unat n \<le> unat sz" using le by simp_all
  have bs: "unat base + unat sz < 18446744073709551616" "unat sz < 4611686018427387904" using blk(2,3) by simp_all
  note pc = sh_pieces_ok [OF bs n(1) sz'] and ar = sh_pieces_arith [OF bs n(1) sz']
  have bb: "block_bytes ?fm = unat sz" using tiles_block_bytes [OF pc(1)] by simp
  have ok: "block_ok (base, ?fm)"
    using blk bb pc(1-3) by (auto simp: block_ok_def sh_pieces_def makeFragment_used_def)
  have fm: "?fm = (base, makeFragment_used n) #
      (if n < sz then [(base + n, makeFragment_free (sz - n, base + n) (sz - n))] else [])" by (simp add: sh_pieces_def)
  have lt: "base < base + n" using ar(3) n(1) by (simp add: word_less_nat_alt)
  have mo: "map_of ?bl base = None" using \<open>base \<notin> fst ` set ?bl\<close> by (simp add: map_of_eq_None_iff)
  have put: "omap_put base x ?bl = bl1 @ (base, x) # bl2" for x
    unfolding bl(1) using bl(2,3) omap_put_append [OF bl(2)] omap_put_front [OF bl(3)] by simp
  let ?h' = "h\<lparr>sh_in_use_size := sh_in_use_size h + sz,
    sh_free_list := (if n < sz then mm_insert (sz - n, base + n) (sh_free_list h) else sh_free_list h),
    sh_block_list := bl1 @ (base, ?fm) # bl2\<rparr>"
  have run: "sh_cut_block al n base sz h b = Inr (base, ?h', b)"
  proof -
    have "\<not> ba_block_size al < n" using n(3) by simp
    with n(2) mo put lt fm show ?thesis by (simp add: sh_cut_block_def Let_def)
  qed
  have sw: "sorted_wrt block_before (bl1 @ (base, ?fm) # bl2)"
  proof -
    have "block_before B (base, ?fm)" if "B \<in> set bl1" for B
      using ap(1) [of B] bl that by (fastforce simp: block_before_def word_less_nat_alt)
    moreover have "block_before (base, ?fm) B" if "B \<in> set bl2" for B
      using ap(1) [of B] bl that bb by (fastforce simp: block_before_def word_less_nat_alt)
    ultimately show ?thesis using so(1) bl(1) by (simp add: sorted_wrt_append)
  qed
  have al': "list_all block_ok (bl1 @ (base, ?fm) # bl2)" using so(2) bl(1) ok by simp
  have c1: "\<forall>p\<in>set (cells bl1). fst p < base"
    using cells_around(1) [OF sw al'] by (simp add: word_less_nat_alt)
  have c2: "\<forall>p\<in>set (cells bl2). base < fst p"
    using cells_around(2) [OF sw al'] bb n(1) le by (fastforce simp: word_less_nat_alt)
  have "base \<notin> fst ` set (cells bl1)" "base \<notin> fst ` set (cells bl2)" using c1 c2 by force+
  then have fresh: "sh_live h base = None" by (simp add: sh_live_def bl(1) map_add_None live_list_notin)
  have live: "sh_live ?h' = (sh_live h)(base \<mapsto> n)"
    using live_list_insert [OF c1, of "makeFragment_used n"] ar(7)
    by (auto simp: sh_live_def bl(1) fm makeFragment_used_def makeFragment_free_def)
  have "sh_inv ?h'"
    using inv sw al' bb pc(4) by (auto simp: sh_inv_def bl(1) ac_simps)
  moreover have "mset (sh_held ?h') = add_mset (base, unat sz) (mset (sh_held h))" using bb by (simp add: sh_held_def bl(1))
  ultimately show ?thesis using run fresh live by (intro exI [of _ ?h']) simp
qed

section \<open>The source of the blocks\<close>

text \<open>
  The heap owns the blocks of a list \<open>H\<close>; what else the allocator has handed out, \<open>others\<close>, is not its own.
\<close>

definition owned :: "u64 \<Rightarrow> (u64 \<rightharpoonup> u64) \<Rightarrow> (u64 \<times> nat) list \<Rightarrow> bool" where
  "owned bs L H \<longleftrightarrow> distinct (map fst H) \<and>
     (\<forall>e\<in>set H. L (fst e) = Some (of_nat (snd e)) \<and> unat bs \<le> snd e \<and> snd e < 2 ^ 62 \<and> 2097152 dvd unat (fst e))"

definition others :: "(u64 \<rightharpoonup> u64) \<Rightarrow> (u64 \<times> nat) list \<Rightarrow> u64 \<rightharpoonup> u64" where
  "others L H = L |` (- fst ` set H)"

definition sh_rel :: "u64 \<Rightarrow> (u64 \<rightharpoonup> u64) \<Rightarrow> simple_heap \<Rightarrow> bool" where
  "sh_rel bs L h \<longleftrightarrow> sh_inv h \<and> owned bs L (sh_held h)"

abbreviation cached :: "(u64 \<times> u64) list \<Rightarrow> (u64 \<times> nat) list" where
  "cached cache \<equiv> map (\<lambda>c. (fst c, unat (snd c))) cache"

lemma owned_perm: "mset H' = mset H \<Longrightarrow> owned bs L H' = owned bs L H \<and> others L H' = others L H"
proof -
  assume m: "mset H' = mset H"
  then have "set H' = set H" by (metis set_mset_mset)
  moreover from m have "distinct (map fst H') = distinct (map fst H)" by (metis mset_map mset_eq_imp_distinct_iff)
  ultimately show ?thesis by (simp add: owned_def others_def)
qed

lemma owned_drop:
  assumes "owned bs L (H1 @ (p, n) # H2)"
  shows "L p = Some (of_nat n)" and "owned bs (L(p := None)) (H1 @ H2)"
    and "others (L(p := None)) (H1 @ H2) = others L (H1 @ (p, n) # H2)"
proof -
  have p: "p \<notin> fst ` set (H1 @ H2)" using assms by (auto simp: owned_def)
  show "L p = Some (of_nat n)" using assms by (auto simp: owned_def)
  show "owned bs (L(p := None)) (H1 @ H2)" using assms p by (force simp: owned_def)
  show "others (L(p := None)) (H1 @ H2) = others L (H1 @ (p, n) # H2)"
    using p by (auto simp: others_def restrict_map_def fun_eq_iff)
qed

lemma owned_add:
  assumes "owned bs L H" "L p = None" "bs \<le> sz" "unat sz < 2 ^ 62" "2097152 dvd unat p"
  shows "owned bs (L(p \<mapsto> sz)) ((p, unat sz) # H)" and "others (L(p \<mapsto> sz)) ((p, unat sz) # H) = others L H"
proof -
  have p: "p \<notin> fst ` set H" using assms(1,2) by (fastforce simp: owned_def)
  show "owned bs (L(p \<mapsto> sz)) ((p, unat sz) # H)"
    using assms p by (fastforce simp: owned_def word_le_nat_alt)
  show "others (L(p \<mapsto> sz)) ((p, unat sz) # H) = others L H"
    using assms(2) p by (auto simp: others_def restrict_map_def fun_eq_iff)
qed

text \<open>The alignment of a request.\<close>

definition req_align :: "u64 \<Rightarrow> u64" where
  "req_align n = (if n \<ge> GPU_HUGE_PAGE_SIZE then GPU_HUGE_PAGE_SIZE else DEFAULT_GPU_PAGE_SIZE)"

lemma req_align_huge: "2097152 dvd unat (p :: u64) \<Longrightarrow> unat (req_align n) dvd unat p"
  by (auto simp: req_align_def GPU_HUGE_PAGE_SIZE_def DEFAULT_GPU_PAGE_SIZE_def elim: dvd_trans [rotated])

lemma sh_ranges:
  assumes inv: "sh_inv h"
  shows "ranges_ok 1 (2 ^ 64 - 1) (sh_live h)"
proof -
  let ?bl = "sh_block_list h"
  have sep: "unat a + unat n \<le> unat c" if "sh_live h a = Some n" "sh_live h c = Some m" "a < c" for a n c m
  proof -
    from sh_live_split [OF inv that(1)] obtain bl1 k xs f ys bl2 where
      bl: "?bl = bl1 @ (k, xs @ (a, f) # ys) # bl2" and f: "frag_size f = n" by metis
    have so: "sorted_wrt block_before (bl1 @ (k, xs @ (a, f) # ys) # bl2)"
      and al: "list_all block_ok (bl1 @ (k, xs @ (a, f) # ys) # bl2)" using inv bl by (simp_all add: sh_inv_def)
    then have "block_ok (k, xs @ (a, f) # ys)" by simp
    note fr = block_frag [OF this]
    from sh_live_split [OF inv that(2)] obtain bl1' k' xs' g ys' bl2' where
      "?bl = bl1' @ (k', xs' @ (c, g) # ys') # bl2'" by metis
    then have "(c, g) \<in> set (cells ?bl)" by simp
    then consider "(c, g) \<in> set (cells bl1)" | "(c, g) \<in> set xs" | "(c, g) = (a, f)" | "(c, g) \<in> set ys" | "(c, g) \<in> set (cells bl2)"
      by (auto simp: bl)
    then show ?thesis
    proof cases
      case 1
      with cells_around(1) [OF so al] fr(5) that(3) show ?thesis by (fastforce simp: word_less_nat_alt)
    next
      case 4
      with tiles_bounds [OF fr(6)] f show ?thesis by fastforce
    next
      case 5
      with cells_around(2) [OF so al] fr(7) f show ?thesis by fastforce
    qed (use fr(3) that(3) in force)+
  qed
  have "1 \<le> unat a \<and> 0 < unat n \<and> unat a + unat n \<le> 2 ^ 64 - 1" if l: "sh_live h a = Some n" for a n
  proof -
    from sh_live_split [OF inv l] obtain bl1 k xs f ys bl2 where
      bl: "?bl = bl1 @ (k, xs @ (a, f) # ys) # bl2" and f: "frag_size f = n" by metis
    then have "block_ok (k, xs @ (a, f) # ys)" using inv by (simp add: sh_inv_def)
    note fr = block_frag [OF this]
    show ?thesis using fr(2,8,10) f by simp
  qed
  moreover have "unat a + unat n \<le> unat c \<or> unat c + unat m \<le> unat a"
    if "sh_live h a = Some n" "sh_live h c = Some m" "a \<noteq> c" for a n c m
    using sep [OF that(1,2)] sep [OF that(2,1)] that(3) by (cases "a < c") auto
  ultimately show ?thesis unfolding ranges_ok_def by blast
qed

text \<open>
  What the heap expects of its block allocator, in terms of the blocks \<open>bheld\<close> it has handed out to
  anyone: a new block has at least the block size, is aligned to a huge page and clear of the
  others, or the call fails and changes nothing; a block that is given back is gone.
\<close>

locale block_source =
  fixes al :: "'b block_allocator" and binv :: "'b \<Rightarrow> bool" and bheld :: "'b \<Rightarrow> u64 \<rightharpoonup> u64" and hi :: nat
  assumes block_size: "0 < unat (ba_block_size al)" "unat (ba_block_size al) < 2 ^ 61"
    and top: "hi < 2 ^ 64"
    and ranges: "binv b \<Longrightarrow> ranges_ok 1 hi (bheld b)"
    and alloc_law: "binv b \<Longrightarrow> 0 < unat n \<Longrightarrow> n \<le> ba_block_size al \<Longrightarrow>
      \<exists>p sz b'. ba_alloc al n b = Inr (p, sz, b') \<and> binv b' \<and>
        (if p = 0 then bheld b' = bheld b
         else bheld b p = None \<and> bheld b' = (bheld b)(p \<mapsto> sz) \<and> ba_block_size al \<le> sz \<and> unat sz < 2 ^ 62 \<and>
           2097152 dvd unat p)"
    and free_law: "binv b \<Longrightarrow> bheld b p = Some n \<Longrightarrow>
      \<exists>b'. ba_free al p n b = Inr b' \<and> binv b' \<and> bheld b' = (bheld b)(p := None)"
begin

lemma release_block:
  assumes "binv b" "owned bs (bheld b) (H1 @ cached (c # cs) @ H2)"
  shows "\<exists>b'. ba_free al (fst c) (snd c) b = Inr b' \<and> binv b' \<and> owned bs (bheld b') (H1 @ cached cs @ H2) \<and>
    others (bheld b') (H1 @ cached cs @ H2) = others (bheld b) (H1 @ cached (c # cs) @ H2)"
proof -
  have "owned bs (bheld b) (H1 @ (fst c, unat (snd c)) # (cached cs @ H2))" using assms(2) by simp
  note d = owned_drop [OF this]
  then have "bheld b (fst c) = Some (snd c)" by simp
  from free_law [OF assms(1) this] obtain b' where
    "ba_free al (fst c) (snd c) b = Inr b'" "binv b'" "bheld b' = (bheld b)(fst c := None)" by blast
  with d show ?thesis by auto
qed

lemma balance_loop_post:
  assumes "binv b" "owned bs (bheld b) (H @ cached cache)" "cs = sum_list (map snd cache)"
  shows "\<exists>cache' cs' b'. balance_loop al cache cs iu b = Inr (cache', cs', b') \<and> binv b' \<and>
    owned bs (bheld b') (H @ cached cache') \<and> cs' = sum_list (map snd cache') \<and>
    others (bheld b') (H @ cached cache') = others (bheld b) (H @ cached cache)"
  using assms
proof (induction cache arbitrary: cs b)
  case (Cons blk rest)
  show ?case
  proof (cases "rest = [] \<or> \<not> cs > iu * 2")
    case True
    then have "balance_loop al (blk # rest) cs iu b = Inr (blk # rest, cs, b)" by (cases rest) auto
    with Cons.prems show ?thesis by blast
  next
    case False
    then obtain blk2 rest' where rest: "rest = blk2 # rest'" by (cases rest) auto
    from release_block [of b bs H blk rest "[]"] Cons.prems obtain b1 where
      r: "ba_free al (fst blk) (snd blk) b = Inr b1" "binv b1" "owned bs (bheld b1) (H @ cached rest)"
        "others (bheld b1) (H @ cached rest) = others (bheld b) (H @ cached (blk # rest))" by auto
    have "balance_loop al (blk # rest) cs iu b = balance_loop al rest (cs - snd blk) iu b1"
      using False r(1) rest by simp
    moreover have "cs - snd blk = sum_list (map snd rest)" using Cons.prems(3) by simp
    ultimately show ?thesis using Cons.IH [OF r(2,3)] r(4) by simp
  qed
qed auto

lemma balance_post:
  assumes "binv b" "sh_rel bs (bheld b) h"
  shows "\<exists>h' b'. balance al h b = Inr (h', b') \<and> binv b' \<and> sh_rel bs (bheld b') h' \<and> sh_live h' = sh_live h \<and>
    others (bheld b') (sh_held h') = others (bheld b) (sh_held h)"
proof -
  let ?H = "map (\<lambda>B. (fst B, block_bytes (snd B))) (sh_block_list h)"
  from assms(2) have "owned bs (bheld b) (?H @ cached (sh_block_cache h))" "sh_cache_size h = sum_list (map snd (sh_block_cache h))"
    by (simp_all add: sh_rel_def sh_held_def sh_inv_def)
  from balance_loop_post [OF assms(1) this, of "sh_in_use_size h"] obtain cache' cs' b' where
    r: "balance_loop al (sh_block_cache h) (sh_cache_size h) (sh_in_use_size h) b = Inr (cache', cs', b')" "binv b'"
      "owned bs (bheld b') (?H @ cached cache')" "cs' = sum_list (map snd cache')"
      "others (bheld b') (?H @ cached cache') = others (bheld b) (?H @ cached (sh_block_cache h))" by blast
  let ?h = "h\<lparr>sh_block_cache := cache', sh_cache_size := cs'\<rparr>"
  have "balance al h b = Inr (?h, b')" using r(1) by (simp add: balance_def)
  moreover have "sh_inv ?h" "sh_live ?h = sh_live h" using assms(2) r(4) by (simp_all add: sh_rel_def sh_inv_def sh_live_def)
  ultimately show ?thesis using r by (intro exI [of _ ?h] exI [of _ b']) (simp add: sh_rel_def sh_held_def)
qed

lemma free_blocks_post:
  "binv b \<Longrightarrow> owned bs (bheld b) (H @ cached cache) \<Longrightarrow>
   \<exists>b'. free_blocks al cache b = Inr b' \<and> binv b' \<and> owned bs (bheld b') H \<and>
     others (bheld b') H = others (bheld b) (H @ cached cache)"
proof (induction cache arbitrary: b)
  case (Cons c cs)
  from release_block [of b bs H c cs "[]"] Cons.prems obtain b1 where
    "ba_free al (fst c) (snd c) b = Inr b1" "binv b1" "owned bs (bheld b1) (H @ cached cs)"
    "others (bheld b1) (H @ cached cs) = others (bheld b) (H @ cached (c # cs))" by auto
  with Cons.IH [of b1] show ?case by auto
qed auto

lemma trim_post:
  assumes "binv b" "sh_rel bs (bheld b) h"
  shows "\<exists>h' b'. trim al h b = Inr (h', b') \<and> binv b' \<and> sh_rel bs (bheld b') h' \<and> sh_live h' = sh_live h \<and>
    sh_block_cache h' = [] \<and> others (bheld b') (sh_held h') = others (bheld b) (sh_held h)"
proof -
  let ?H = "map (\<lambda>B. (fst B, block_bytes (snd B))) (sh_block_list h)"
  from assms(2) have "owned bs (bheld b) (?H @ cached (sh_block_cache h))" by (simp add: sh_rel_def sh_held_def)
  from free_blocks_post [OF assms(1) this] obtain b' where
    r: "free_blocks al (sh_block_cache h) b = Inr b'" "binv b'" "owned bs (bheld b') ?H"
      "others (bheld b') ?H = others (bheld b) (?H @ cached (sh_block_cache h))" by blast
  let ?h = "h\<lparr>sh_block_cache := [], sh_cache_size := 0\<rparr>"
  have "trim al h b = Inr (?h, b')" using r(1) by (simp add: trim_def)
  moreover have "sh_inv ?h" "sh_live ?h = sh_live h" using assms(2) by (simp_all add: sh_rel_def sh_inv_def sh_live_def)
  ultimately show ?thesis using r by (intro exI [of _ ?h] exI [of _ b']) (simp add: sh_rel_def sh_held_def)
qed

lemma free_post:
  assumes "binv b" "sh_rel bs (bheld b) h"
  shows "\<exists>ok h' b'. sh_free al a h b = Inr (ok, h', b') \<and> binv b' \<and> sh_rel bs (bheld b') h' \<and>
    sh_live h' = (sh_live h)(a := None) \<and> ok = (a = 0 \<or> sh_live h a \<noteq> None) \<and>
    others (bheld b') (sh_held h') = others (bheld b) (sh_held h)"
proof (cases "sh_live h a")
  case None
  then have "sh_free al a h b = Inr (a = 0, h, b)" using assms(2) by (intro sh_free_unknown) (simp_all add: sh_rel_def)
  with assms None show ?thesis by (simp add: fun_upd_idem)
next
  case (Some n)
  have "sh_inv h" using assms(2) by (simp add: sh_rel_def)
  from sh_free_core [OF this Some, of al b] obtain h1 where
    h1: "sh_inv h1" "sh_live h1 = (sh_live h)(a := None)" "mset (sh_held h1) = mset (sh_held h)"
      "sh_free al a h b = Inr (True, h1, b) \<or> sh_free al a h b = bindE (balance al h1 b) (\<lambda>(h, b). Inr (True, h, b))" by blast
  note pm = owned_perm [OF h1(3), of bs "bheld b"]
  have rel: "sh_rel bs (bheld b) h1" using assms(2) h1(1) pm by (simp add: sh_rel_def)
  from balance_post [OF assms(1) rel] obtain h2 b2 where
    "balance al h1 b = Inr (h2, b2)" "binv b2" "sh_rel bs (bheld b2) h2" "sh_live h2 = sh_live h1"
    "others (bheld b2) (sh_held h2) = others (bheld b) (sh_held h1)" by blast
  with h1 rel pm assms(1) Some show ?thesis by auto
qed

lemma clear_of_fresh:
  assumes "binv b" "bheld b p = Some sz" "owned bs (bheld b) (sh_held h)" "p \<notin> fst ` set (sh_block_list h)" "list_all block_ok (sh_block_list h)"
  shows "clear_of p sz h" "0 < unat p" "unat p + unat sz < 2 ^ 64"
proof -
  note r = ranges [OF assms(1)]
  show "0 < unat p" "unat p + unat sz < 2 ^ 64" using r assms(2) top unfolding ranges_ok_def by fastforce+
  have "unat (fst B) + block_bytes (snd B) \<le> unat p \<or> unat p + unat sz \<le> unat (fst B)" if "B \<in> set (sh_block_list h)" for B
  proof -
    have "bheld b (fst B) = Some (of_nat (block_bytes (snd B)))" using assms(3) that by (force simp: owned_def sh_held_def)
    moreover have "fst B \<noteq> p" using assms(4) that by auto
    moreover have "unat (of_nat (block_bytes (snd B)) :: u64) = block_bytes (snd B)"
    proof -
      have "block_bytes (snd B) < 2 ^ 64" using assms(5) that by (auto simp: list_all_iff block_ok_def)
      then show ?thesis by (simp add: unat_of_nat)
    qed
    ultimately show ?thesis using ranges_ok_disjoint [OF r _ assms(2)] by fastforce
  qed
  then show "clear_of p sz h" by (simp add: clear_of_def)
qed

lemma alloc_from_cache:
  assumes b: "binv b" and rel: "sh_rel (ba_block_size al) (bheld b) h" and n: "0 < unat n" "n \<le> ba_block_size al"
    and c: "sh_block_cache h = cs @ [(base, sz)]"
  shows "\<exists>h'. sh_cut_block al n base sz (h\<lparr>sh_block_cache := cs, sh_cache_size := sh_cache_size h - sz\<rparr>) b = Inr (base, h', b) \<and>
    sh_rel (ba_block_size al) (bheld b) h' \<and> base \<noteq> 0 \<and> sh_live h base = None \<and> sh_live h' = (sh_live h)(base \<mapsto> n) \<and>
    unat (req_align n) dvd unat base \<and> others (bheld b) (sh_held h') = others (bheld b) (sh_held h)"
proof -
  let ?h = "h\<lparr>sh_block_cache := cs, sh_cache_size := sh_cache_size h - sz\<rparr>"
  have inv: "sh_inv h" and ow: "owned (ba_block_size al) (bheld b) (sh_held h)" using rel by (simp_all add: sh_rel_def)
  have inv1: "sh_inv ?h" using inv c by (simp add: sh_inv_def)
  have held: "mset (sh_held h) = add_mset (base, unat sz) (mset (sh_held ?h))" using c by (simp add: sh_held_def)
  have e: "(base, unat sz) \<in> set (sh_held h)" using c by (simp add: sh_held_def)
  then have bh: "bheld b base = Some sz" "ba_block_size al \<le> sz" "unat sz < 2 ^ 62" "2097152 dvd unat base"
    using ow by (fastforce simp: owned_def word_le_nat_alt)+
  have "base \<notin> fst ` set (sh_block_list ?h)" using ow c by (auto simp: owned_def sh_held_def)
  moreover have "owned (ba_block_size al) (bheld b) (sh_held ?h)" using ow c by (auto simp: owned_def sh_held_def)
  moreover have "list_all block_ok (sh_block_list ?h)" using inv1 by (simp add: sh_inv_def)
  ultimately have cl: "clear_of base sz ?h" "0 < unat base" "unat base + unat sz < 2 ^ 64"
    using clear_of_fresh [OF b bh(1), of _ ?h] by blast+
  have le: "n \<le> sz" using n(2) bh(2) by (rule order.trans)
  from sh_cut_block_post [OF inv1 n(1) le n(2) cl(2,3) bh(3) cl(1)] obtain h' where
    h': "sh_cut_block al n base sz ?h b = Inr (base, h', b)" "sh_inv h'" "sh_live ?h base = None"
      "sh_live h' = (sh_live ?h)(base \<mapsto> n)" "mset (sh_held h') = add_mset (base, unat sz) (mset (sh_held ?h))" by blast
  have "mset (sh_held h') = mset (sh_held h)" using h'(5) held by simp
  note pm = owned_perm [OF this, of "ba_block_size al" "bheld b"]
  have live: "sh_live ?h = sh_live h" by (simp add: sh_live_def)
  show ?thesis
    using h' pm ow cl(2) req_align_huge [OF bh(4)] unfolding live by (intro exI [of _ h']) (auto simp: sh_rel_def unat_gt_0)
qed

lemma alloc_from_source:
  assumes b: "binv b" and rel: "sh_rel (ba_block_size al) (bheld b) h" and n: "0 < unat n" "n \<le> ba_block_size al"
    and p: "bheld b p = None" "binv b'" "bheld b' = (bheld b)(p \<mapsto> sz)" "ba_block_size al \<le> sz" "unat sz < 2 ^ 62" "2097152 dvd unat p"
  shows "\<exists>h'. sh_cut_block al n p sz h b' = Inr (p, h', b') \<and>
    sh_rel (ba_block_size al) (bheld b') h' \<and> p \<noteq> 0 \<and> sh_live h p = None \<and> sh_live h' = (sh_live h)(p \<mapsto> n) \<and>
    unat (req_align n) dvd unat p \<and> others (bheld b') (sh_held h') = others (bheld b) (sh_held h)"
proof -
  have inv: "sh_inv h" and ow: "owned (ba_block_size al) (bheld b) (sh_held h)" using rel by (simp_all add: sh_rel_def)
  note add = owned_add [OF ow p(1,4,5,6), folded p(3)]
  have bp: "bheld b' p = Some sz" using p(3) by simp
  have "p \<notin> fst ` set (sh_block_list h)" using ow p(1) by (force simp: owned_def sh_held_def)
  moreover have "owned (ba_block_size al) (bheld b') (sh_held h)" using add(1) by (auto simp: owned_def)
  moreover have "list_all block_ok (sh_block_list h)" using inv by (simp add: sh_inv_def)
  ultimately have cl: "clear_of p sz h" "0 < unat p" "unat p + unat sz < 2 ^ 64"
    using clear_of_fresh [OF p(2) bp, of _ h] by blast+
  have le: "n \<le> sz" using n(2) p(4) by (rule order.trans)
  from sh_cut_block_post [OF inv n(1) le n(2) cl(2,3) p(5) cl(1)] obtain h' where
    h': "sh_cut_block al n p sz h b' = Inr (p, h', b')" "sh_inv h'" "sh_live h p = None"
      "sh_live h' = (sh_live h)(p \<mapsto> n)" "mset (sh_held h') = mset ((p, unat sz) # sh_held h)" by auto
  note pm = owned_perm [OF h'(5), of "ba_block_size al" "bheld b'"]
  show ?thesis
    using h' pm add cl(2) req_align_huge [OF p(6)] by (intro exI [of _ h']) (auto simp: sh_rel_def unat_gt_0)
qed

lemma alloc_post:
  assumes b: "binv b" and rel: "sh_rel (ba_block_size al) (bheld b) h" and n: "0 < unat n" "n \<le> ba_block_size al"
  shows "\<exists>a h' b'. sh_alloc al n h b = Inr (a, h', b') \<and> binv b' \<and> sh_rel (ba_block_size al) (bheld b') h' \<and>
    (if a = 0 then sh_live h' = sh_live h
     else sh_live h a = None \<and> sh_live h' = (sh_live h)(a \<mapsto> n) \<and> unat (req_align n) dvd unat a) \<and>
    others (bheld b') (sh_held h') = others (bheld b) (sh_held h)"
proof -
  have inv: "sh_inv h" using rel by (simp add: sh_rel_def)
  let ?retry = "if n \<ge> GPU_HUGE_PAGE_SIZE then 1 else 0 :: nat"
  have pa: "page_align (req_align n)" by (simp add: page_align_def req_align_def)
  have nb: "unat n + 2 * 2097152 < 2 ^ 64" using n(2) block_size(2) by (simp add: word_le_nat_alt)
  have al: "(if n \<ge> GPU_HUGE_PAGE_SIZE then GPU_HUGE_PAGE_SIZE else DEFAULT_GPU_PAGE_SIZE) = req_align n" by (simp add: req_align_def)
  from sh_loop_post [OF inv pa n(1) nb, of ?retry] show ?thesis
  proof (elim disjE exE conjE)
    fix h' a assume "sh_alloc_loop (Suc ?retry) 0 n (req_align n) n h = Inr (Some (h', a))" and got: "sh_got n (req_align n) h h' a"
    then have "sh_alloc al n h b = Inr (a, h', b)" unfolding sh_alloc_def Let_def al by simp
    with got rel b show ?thesis by (auto simp: sh_got_def sh_rel_def)
  next
    assume lp: "sh_alloc_loop (Suc ?retry) 0 n (req_align n) n h = Inr None"
    show ?thesis
    proof (cases "n < ba_block_size al \<and> sh_block_cache h \<noteq> []")
      case True
      then obtain cs base sz where c: "sh_block_cache h = cs @ [(base, sz)]" by (metis append_butlast_last_id prod.collapse)
      have "sh_alloc al n h b = sh_cut_block al n base sz (h\<lparr>sh_block_cache := cs, sh_cache_size := sh_cache_size h - sz\<rparr>) b"
        using lp True c unfolding sh_alloc_def Let_def al by simp
      with alloc_from_cache [OF b rel n c] b show ?thesis by auto
    next
      case False
      from alloc_law [OF b n] obtain p sz b' where
        r: "ba_alloc al n b = Inr (p, sz, b')" "binv b'"
          "if p = 0 then bheld b' = bheld b
           else bheld b p = None \<and> bheld b' = (bheld b)(p \<mapsto> sz) \<and> ba_block_size al \<le> sz \<and> unat sz < 2 ^ 62 \<and> 2097152 dvd unat p"
        by blast
      have run: "sh_alloc al n h b = (if p = 0 then Inr (0, h, b') else sh_cut_block al n p sz h b')"
        using lp False r(1) unfolding sh_alloc_def Let_def al by auto
      show ?thesis
      proof (cases "p = 0")
        case True
        with run r rel show ?thesis by (auto simp: sh_rel_def)
      next
        case False
        with r(3) have "bheld b p = None" "bheld b' = (bheld b)(p \<mapsto> sz)" "ba_block_size al \<le> sz" "unat sz < 2 ^ 62" "2097152 dvd unat p"
          by auto
        from alloc_from_source [OF b rel n this(1) r(2) this(2-5)] run False r(2) show ?thesis by auto
      qed
    qed
  qed
qed

end

end
