(* ===== verification/Memory_Api.thy ===== *)
theory Memory_Api
  imports Gpu_Lifecycle Sub_Allocator
begin

text \<open>
  The memory functions of the library interface: \<^verbatim>\<open>src/src/memory.cpp\<close> and \<^verbatim>\<open>src/src/libdrm.cpp\<close>. The state
  has the runtime, the devices, the trace of kernel calls, the memory objects the library has
  created (a handle is the number of an object; a deleted object is gone), the allocation map
  and the sub-allocator. Each function runs as one step, so that the model describes clients that call
  one at a time: the code locks the allocation map around each access only and takes no lock at all for the sub-allocator,
  and races between concurrent clients are not part of the model.
  \<^verbatim>\<open>CHECK_DXG_OPEN\<close> is the guard \<open>dxg_open\<close>. Functions that the library declares and does not
  implement trip their \<^verbatim>\<open>assert(false)\<close>.
\<close>

section \<open>Status codes and flags\<close>

datatype HSAKMT_STATUS =
    HSAKMT_STATUS_SUCCESS
  | HSAKMT_STATUS_ERROR
  | HSAKMT_STATUS_DRIVER_MISMATCH
  | HSAKMT_STATUS_INVALID_PARAMETER
  | HSAKMT_STATUS_INVALID_HANDLE
  | HSAKMT_STATUS_INVALID_NODE_UNIT
  | HSAKMT_STATUS_NO_MEMORY
  | HSAKMT_STATUS_BUFFER_TOO_SMALL
  | HSAKMT_STATUS_NOT_IMPLEMENTED
  | HSAKMT_STATUS_NOT_SUPPORTED
  | HSAKMT_STATUS_UNAVAILABLE
  | HSAKMT_STATUS_OUT_OF_RESOURCES
  | HSAKMT_STATUS_KERNEL_IO_CHANNEL_NOT_OPENED
  | HSAKMT_STATUS_KERNEL_COMMUNICATION_ERROR
  | HSAKMT_STATUS_KERNEL_ALREADY_OPENED
  | HSAKMT_STATUS_HSAMMU_UNAVAILABLE
  | HSAKMT_STATUS_WAIT_FAILURE
  | HSAKMT_STATUS_WAIT_TIMEOUT
  | HSAKMT_STATUS_MEMORY_ALREADY_REGISTERED
  | HSAKMT_STATUS_MEMORY_NOT_REGISTERED
  | HSAKMT_STATUS_MEMORY_ALIGNMENT

text \<open>The bits of \<^verbatim>\<open>HsaMemFlags\<close> the library reads, by their place in the bit field.\<close>

datatype HsaMemFlag =
    NonPaged | HostAccess | NoSubstitute | Scratch | ExecuteAccess | CoarseGrain | FixedAddress
  | Uncached | NoAddress | OnlyAddress | ExtendedCoherent | GTTAccess | Contiguous | ExecuteBlit

fun mf_pos :: "HsaMemFlag \<Rightarrow> nat" where
  "mf_pos NonPaged = 0"
| "mf_pos HostAccess = 6"
| "mf_pos NoSubstitute = 7"
| "mf_pos Scratch = 9"
| "mf_pos ExecuteAccess = 12"
| "mf_pos CoarseGrain = 13"
| "mf_pos FixedAddress = 15"
| "mf_pos Uncached = 17"
| "mf_pos NoAddress = 18"
| "mf_pos OnlyAddress = 19"
| "mf_pos ExtendedCoherent = 20"
| "mf_pos GTTAccess = 21"
| "mf_pos Contiguous = 22"
| "mf_pos ExecuteBlit = 23"

definition mf :: "u32 \<Rightarrow> HsaMemFlag \<Rightarrow> bool" where
  "mf flags f = bit flags (mf_pos f)"

definition mf_set :: "HsaMemFlag \<Rightarrow> u32 \<Rightarrow> u32" where
  "mf_set f flags = flags OR push_bit (mf_pos f) 1"

definition kFineGrain :: int where "kFineGrain = 1"
definition kKernarg :: int where "kKernarg = 2"

section \<open>State\<close>

record Allocation =
  al_handle :: nat
  al_cpu_addr :: u64
  al_gpu_addr :: u64
  al_userptr :: bool
  al_size :: u64
  al_user_data :: u64
  al_size_requested :: u64
  al_node_id :: u32
  al_mem_flags_value :: u32
  al_dmabuf_fd :: int
  al_rocr_userdata :: u64

definition new_Allocation ::
  "nat \<Rightarrow> u64 \<Rightarrow> u64 \<Rightarrow> u64 \<Rightarrow> bool \<Rightarrow> u64 \<Rightarrow> u64 \<Rightarrow> u32 \<Rightarrow> u32 \<Rightarrow> Allocation" where
  "new_Allocation handle cpu_addr gpu_addr sz userptr user_data user_size node_id mem_flags =
     \<lparr>al_handle = handle, al_cpu_addr = cpu_addr, al_gpu_addr = gpu_addr, al_userptr = userptr,
      al_size = sz, al_user_data = user_data, al_size_requested = user_size, al_node_id = node_id,
      al_mem_flags_value = mem_flags, al_dmabuf_fd = -1, al_rocr_userdata = 0\<rparr>"

text \<open>
  What the code runs against: the kernel and C library, the size of \<^verbatim>\<open>D3DDDI_OPENALLOCATIONINFO2\<close> and the
  value of \<^verbatim>\<open>SHARED_ALLOCATION_ALL_ACCESS\<close> in the D3DKMT headers, and
  what the memory of a new object holds before its constructor.
\<close>

record mem_env =
  me_dx :: dx_env
  me_osz :: u32
  me_share_access :: u32
  me_junk :: "nat \<Rightarrow> AllocDomain \<times> u64"

record mem_state =
  ms_rt :: runtime
  ms_devs :: "wddm_device list"
  ms_num_nodes :: u32
  ms_tr :: dx_trace
  ms_objs :: "nat \<rightharpoonup> nat \<times> GpuMemory"
  ms_next :: nat
  allocation_map :: "(u64, Allocation) omap"
  fragment_allocator :: simple_heap

definition dxg_open :: "mem_state \<Rightarrow> bool" where
  "dxg_open st \<longleftrightarrow> rt_open_count (ms_rt st) \<noteq> 0 \<and> \<not> rt_is_forked (ms_rt st)"

definition get_wddmdev :: "mem_state \<Rightarrow> u32 \<Rightarrow> nat option res" where
  "get_wddmdev st node_id =
     (if ms_devs st = [] \<or> node_id = 0 \<or> node_id \<ge> ms_num_nodes st then Inr None
      else if unat node_id - 1 < length (ms_devs st) then Inr (Some (unat node_id - 1))
      else Inl (Out_Of_Bounds ''get_wddmdev''))"

text \<open>Operations of a memory object run in the world of its device.\<close>

definition world_of :: "nat \<Rightarrow> mem_state \<Rightarrow> world" where
  "world_of i st = \<lparr>w_rt = ms_rt st, w_dev = ms_devs st ! i, w_tr = ms_tr st\<rparr>"

definition put_world :: "nat \<Rightarrow> world \<Rightarrow> mem_state \<Rightarrow> mem_state" where
  "put_world i w st = st\<lparr>ms_rt := w_rt w, ms_devs := (ms_devs st)[i := w_dev w], ms_tr := w_tr w\<rparr>"

definition get_obj :: "nat \<Rightarrow> mem_state \<Rightarrow> (nat \<times> GpuMemory) res" where
  "get_obj hn st = (case ms_objs st hn of None \<Rightarrow> Inl (Use_After_Free ''GpuMemory'') | Some ob \<Rightarrow> Inr ob)"

definition set_obj :: "nat \<Rightarrow> GpuMemory \<Rightarrow> mem_state \<Rightarrow> mem_state" where
  "set_obj hn m st =
     st\<lparr>ms_objs := (case ms_objs st hn of None \<Rightarrow> ms_objs st | Some (i, _) \<Rightarrow> (ms_objs st)(hn \<mapsto> (i, m)))\<rparr>"

definition create_obj :: "mem_env \<Rightarrow> GpuMemoryCreateInfo \<Rightarrow> nat \<Rightarrow> mem_state \<Rightarrow>
    (ErrorCode \<times> nat option \<times> u64 option \<times> mem_state) res" where
  "create_obj me ci i st =
     bindE (CreateGpuMemory (me_dx me) (me_osz me) (me_junk me (ms_next st)) ci (world_of i st)) (\<lambda>(code, obj, va, w).
       let st = put_world i w st in
       Inr (case obj of
              None \<Rightarrow> (code, None, va, st)
            | Some m \<Rightarrow> (code, Some (ms_next st), va,
                st\<lparr>ms_objs := (ms_objs st)(ms_next st \<mapsto> (i, m)), ms_next := Suc (ms_next st)\<rparr>)))"

definition delete_obj :: "mem_env \<Rightarrow> nat \<Rightarrow> mem_state \<Rightarrow> mem_state res" where
  "delete_obj me hn st =
     bindE (get_obj hn st) (\<lambda>(i, m).
       bindE (GpuMemory_dtor (me_dx me) m (world_of i st)) (\<lambda>w.
         Inr ((put_world i w st)\<lparr>ms_objs := (ms_objs st)(hn := None)\<rparr>)))"

definition close_fd :: "mem_env \<Rightarrow> int \<Rightarrow> mem_state \<Rightarrow> mem_state" where
  "close_fd me fd st = (case dxc (me_dx me) (Close_fd fd) (ms_tr st) of (_, _, tr) \<Rightarrow> st\<lparr>ms_tr := tr\<rparr>)"

section \<open>Allocation\<close>

definition clear_allocation_map :: "mem_state \<Rightarrow> mem_state" where
  "clear_allocation_map st = st\<lparr>allocation_map := []\<rparr>"

definition PageSizeFromFlags :: "u32 \<Rightarrow> u32 res" where
  "PageSizeFromFlags flags =
     (if flags = 0 then Inr (4 * 1024) else if flags = 1 then Inr (64 * 1024)
      else if flags = 2 then Inr (2 * 1024 * 1024) else if flags = 3 then Inr (1024 * 1024 * 1024)
      else Inl (Assert_Failed ''PageSizeFromFlags''))"

definition isSystemMemoryAvailable :: "mem_env \<Rightarrow> u64 \<Rightarrow> mem_state \<Rightarrow> bool \<times> mem_state" where
  "isSystemMemoryAvailable me sz st =
     (case dx (me_dx me) Sysinfo (ms_tr st) of
        (None, tr) \<Rightarrow> (False, st\<lparr>ms_tr := tr\<rparr>)
      | (Some vs, tr) \<Rightarrow> (sz \<le> out_arg vs 1, st\<lparr>ms_tr := tr\<rparr>))"

definition getpagesize :: u64 where "getpagesize = 4096"

text \<open>
  The part of \<^verbatim>\<open>hsaKmtAllocMemoryAlignInternal\<close> before the sub-allocator: a status to return at once,
  or the device, the flags, the request and whether the sub-allocator is to be skipped. \<open>dst\<close> is
  \<^verbatim>\<open>*MemoryAddress\<close> after the first checks.
\<close>

definition alloc_flags :: "u32 \<Rightarrow> u64 \<Rightarrow> u32" where
  "alloc_flags flags sz =
     (if mf flags Scratch \<and> mf flags HostAccess \<and> sz > 0x80000000 then mf_set OnlyAddress flags else flags)"

definition wants_system :: "runtime \<Rightarrow> u32 \<Rightarrow> u32 \<Rightarrow> bool" where
  "wants_system rt node flags \<longleftrightarrow>
     node = 0 \<and> mf flags HostAccess \<or> rt_zfb_support rt \<noteq> 0 \<or> mf flags GTTAccess"

definition alloc_create_info :: "bool \<Rightarrow> u32 \<Rightarrow> u64 \<Rightarrow> u64 \<Rightarrow> u64 \<Rightarrow> GpuMemoryCreateInfo" where
  "alloc_create_info sys flags sz alignment hint =
     (let ci = new_GpuMemoryCreateInfo\<lparr>ci_size := sz, ci_alignment := alignment, ci_va_hint := hint,
             ci_domain := (if sys then kSystem else kLocal),
             ci_sysmem_ipc_sig_exporter := (sys \<and> mf flags NonPaged \<and> \<not> mf flags GTTAccess),
             ci_mem_flags := (if mf flags CoarseGrain then 0 else kFineGrain) + (if mf flags Uncached then kKernarg else 0),
             ci_physical_only := mf flags NoAddress, ci_alloc_va := \<not> mf flags NoAddress,
             ci_interprocess := mf flags NoAddress \<or> mf flags Contiguous,
             ci_physical_contiguous := mf flags Contiguous, ci_locked := mf flags NoSubstitute,
             ci_virtual_alloc := mf flags OnlyAddress,
             ci_blit_kernel_object := (mf flags ExecuteBlit \<and> mf flags ExecuteAccess \<and> sys)\<rparr>
      in if ci_virtual_alloc ci \<or> ci_physical_only ci \<or> ci_physical_contiguous ci
         then ci\<lparr>ci_domain := kLocal\<rparr> else ci)"

definition alloc_request :: "mem_env \<Rightarrow> u32 \<Rightarrow> u64 \<Rightarrow> u64 \<Rightarrow> u32 \<Rightarrow> u64 \<Rightarrow> mem_state \<Rightarrow>
    (HSAKMT_STATUS + nat \<times> u32 \<times> GpuMemoryCreateInfo \<times> bool) res \<times> mem_state" where
  "alloc_request me PreferredNode sz alignment flags dst st =
     (let node = (if PreferredNode = 0 then rt_default_node (ms_rt st) else PreferredNode) in
      case get_wddmdev st node of
        Inl e \<Rightarrow> (Inl e, st)
      | Inr None \<Rightarrow> (Inr (Inl HSAKMT_STATUS_ERROR), st)
      | Inr (Some i) \<Rightarrow>
          let flags = alloc_flags flags sz; sys = wants_system (ms_rt st) PreferredNode flags in
          if sys \<and> sz > rt_max_single_alloc_size (ms_rt st) then (Inr (Inl HSAKMT_STATUS_NO_MEMORY), st)
          else
            case (if sys \<and> rt_check_avail_sysram (ms_rt st) then isSystemMemoryAvailable me sz st else (True, st)) of (avail, st) \<Rightarrow>
              if \<not> avail then (Inr (Inl HSAKMT_STATUS_NO_MEMORY), st)
              else
                let flags = (if sys \<and> rt_zfb_support (ms_rt st) \<noteq> 0 \<and> mf flags NonPaged then mf_set CoarseGrain flags else flags);
                    ci = alloc_create_info sys flags sz alignment dst;
                    skip = (ci_virtual_alloc ci \<or> ci_physical_only ci \<or> ci_physical_contiguous ci)
                in (Inr (Inr (i, flags, ci, skip)), st))"

text \<open>The creation of the object and its entry in the map; the address is 0 where nothing was created.\<close>

definition alloc_create :: "mem_env \<Rightarrow> u32 \<Rightarrow> u64 \<Rightarrow> nat \<Rightarrow> u32 \<Rightarrow> GpuMemoryCreateInfo \<Rightarrow> mem_state \<Rightarrow>
    (u64 option \<times> mem_state) res" where
  "alloc_create me PreferredNode sz i flags ci st =
     bindE (create_obj me ci i st) (\<lambda>(code, hn, _, st).
       case hn of
         None \<Rightarrow> Inr (None, st)
       | Some hn \<Rightarrow>
           bindE (get_obj hn st) (\<lambda>(_, m).
             let addr = (if ci_physical_only ci \<or> ci_dmabuf_fd ci > 0 then gm_handle_ape_addr m else gm_gpu_addr m)
             in Inr (Some addr, st\<lparr>allocation_map := omap_put addr
                  (new_Allocation hn addr addr (ci_size ci) False 0 sz
                    (if mf flags GTTAccess then 0 else PreferredNode) flags) (allocation_map st)\<rparr>)))"

text \<open>
  The function for a caller that skips the sub-allocator, which the sub-allocator itself is. The
  argument \<open>dst\<close> is the pointer argument: \<open>None\<close> is a null pointer, \<open>Some v\<close> the value it points to.
\<close>

definition alloc_direct :: "mem_env \<Rightarrow> u32 \<Rightarrow> u64 \<Rightarrow> u64 \<Rightarrow> u32 \<Rightarrow> u64 option \<Rightarrow> mem_state \<Rightarrow>
    (HSAKMT_STATUS \<times> u64 option \<times> mem_state) res" where
  "alloc_direct me PreferredNode sz alignment flags dst st =
     (if \<not> dxg_open st then Inr (HSAKMT_STATUS_KERNEL_IO_CHANNEL_NOT_OPENED, dst, st)
      else case dst of
        None \<Rightarrow> Inr (HSAKMT_STATUS_INVALID_PARAMETER, dst, st)
      | Some d \<Rightarrow>
          if mf flags FixedAddress \<and> d = 0 then Inr (HSAKMT_STATUS_INVALID_PARAMETER, dst, st)
          else
            let d = (if mf flags FixedAddress then d else 0) in
            case alloc_request me PreferredNode sz alignment flags d st of (r, st) \<Rightarrow>
              bindE r (\<lambda>r. case r of
                  Inl status \<Rightarrow> Inr (status, Some d, st)
                | Inr (i, flags, ci, skip) \<Rightarrow>
                    bindE (alloc_create me PreferredNode sz i flags ci st) (\<lambda>(a, st).
                      case a of
                        None \<Rightarrow> Inr (HSAKMT_STATUS_ERROR, Some d, st)
                      | Some a \<Rightarrow> Inr (HSAKMT_STATUS_SUCCESS, Some a, st))))"

section \<open>Release\<close>

definition free_direct :: "mem_env \<Rightarrow> u64 \<Rightarrow> mem_state \<Rightarrow> (HSAKMT_STATUS \<times> mem_state) res" where
  "free_direct me addr st =
     (if \<not> dxg_open st then Inr (HSAKMT_STATUS_KERNEL_IO_CHANNEL_NOT_OPENED, st)
      else if addr = 0 then Inr (HSAKMT_STATUS_INVALID_PARAMETER, st)
      else case map_of (allocation_map st) addr of
        None \<Rightarrow> Inr (HSAKMT_STATUS_ERROR, st)
      | Some a \<Rightarrow>
          bindE (get_obj (al_handle a) st) (\<lambda>(i, m).
            if is_queue_referenced (gm_flags m) then Inr (HSAKMT_STATUS_ERROR, st)
            else
              let (n, m') = (if is_imported_vram_ipc (gm_flags m) then DecSharedReference m else (0, m));
                  st = set_obj (al_handle a) m' st
              in if is_imported_vram_ipc (gm_flags m) \<and> n \<noteq> 0 then Inr (HSAKMT_STATUS_SUCCESS, st)
                 else
                   let st = (if al_dmabuf_fd a \<ge> 0 then close_fd me (al_dmabuf_fd a) st else st);
                       st = st\<lparr>allocation_map := omap_erase addr (allocation_map st)\<rparr>
                   in bindE (delete_obj me (al_handle a) st) (\<lambda>st. Inr (HSAKMT_STATUS_SUCCESS, st))))"

section \<open>The sub-allocator\<close>

definition BlockAllocator_block_size :: u64 where
  "BlockAllocator_block_size = 128 * 1024 * 1024"

definition BlockAllocator_alloc :: "mem_env \<Rightarrow> u64 \<Rightarrow> mem_state \<Rightarrow> (u64 \<times> u64 \<times> mem_state) res" where
  "BlockAllocator_alloc me request_size st =
     (let flags = mf_set NoSubstitute (mf_set CoarseGrain 0);
          allocated_size = AlignUp request_size BlockAllocator_block_size
      in bindE (alloc_direct me 1 allocated_size 0 flags (Some 0) st) (\<lambda>(status, dst, st).
           Inr (if status = HSAKMT_STATUS_SUCCESS then case dst of None \<Rightarrow> 0 | Some a \<Rightarrow> a else 0, allocated_size, st)))"

definition BlockAllocator_free :: "mem_env \<Rightarrow> u64 \<Rightarrow> u64 \<Rightarrow> mem_state \<Rightarrow> mem_state res" where
  "BlockAllocator_free me ptr len st = bindE (free_direct me ptr st) (\<lambda>(status, st). Inr st)"

definition BlockAllocator :: "mem_env \<Rightarrow> mem_state block_allocator" where
  "BlockAllocator me =
     \<lparr>ba_alloc = BlockAllocator_alloc me, ba_free = BlockAllocator_free me,
      ba_block_size = BlockAllocator_block_size\<rparr>"

definition reset_suballocator :: "mem_state \<Rightarrow> mem_state" where
  "reset_suballocator st = st\<lparr>fragment_allocator := sh_reset (fragment_allocator st)\<rparr>"

definition trim_suballocator :: "mem_env \<Rightarrow> mem_state \<Rightarrow> mem_state res" where
  "trim_suballocator me st =
     bindE (trim (BlockAllocator me) (fragment_allocator st) st) (\<lambda>(h, st). Inr (st\<lparr>fragment_allocator := h\<rparr>))"

definition sub_alloc :: "mem_env \<Rightarrow> u64 \<Rightarrow> mem_state \<Rightarrow> (u64 \<times> mem_state) res" where
  "sub_alloc me sz st =
     bindE (sh_alloc (BlockAllocator me) sz (fragment_allocator st) st) (\<lambda>(a, h, st).
       Inr (a, st\<lparr>fragment_allocator := h\<rparr>))"

definition sub_free :: "mem_env \<Rightarrow> u64 \<Rightarrow> mem_state \<Rightarrow> (bool \<times> mem_state) res" where
  "sub_free me addr st =
     bindE (sh_free (BlockAllocator me) addr (fragment_allocator st) st) (\<lambda>(ok, h, st).
       Inr (ok, st\<lparr>fragment_allocator := h\<rparr>))"

definition real_size :: "u64 \<Rightarrow> u64" where
  "real_size sz = (if sz > GPU_HUGE_PAGE_SIZE then AlignUp sz GPU_HUGE_PAGE_SIZE else AlignUp sz getpagesize)"

text \<open>
  The direct allocation: where it fails and the sub-allocator is in use, its cache is released and the allocation
  tried once more.
\<close>

definition alloc_or_trim :: "mem_env \<Rightarrow> u32 \<Rightarrow> u64 \<Rightarrow> nat \<Rightarrow> u32 \<Rightarrow> GpuMemoryCreateInfo \<Rightarrow> bool \<Rightarrow> u64 \<Rightarrow> mem_state \<Rightarrow>
    (HSAKMT_STATUS \<times> u64 option \<times> mem_state) res" where
  "alloc_or_trim me PreferredNode sz i flags ci trim_safe d st =
     bindE (alloc_create me PreferredNode sz i flags ci st) (\<lambda>(a, st).
       case a of
         Some a \<Rightarrow> Inr (HSAKMT_STATUS_SUCCESS, Some a, st)
       | None \<Rightarrow>
           if trim_safe then
             bindE (trim_suballocator me st) (\<lambda>st.
               bindE (alloc_create me PreferredNode sz i flags ci st) (\<lambda>(a, st).
                 case a of
                   Some a \<Rightarrow> Inr (HSAKMT_STATUS_SUCCESS, Some a, st)
                 | None \<Rightarrow> Inr (HSAKMT_STATUS_ERROR, Some d, st)))
           else Inr (HSAKMT_STATUS_ERROR, Some d, st))"

definition hsaKmtAllocMemoryAlignInternal :: "mem_env \<Rightarrow> u32 \<Rightarrow> u64 \<Rightarrow> u64 \<Rightarrow> u32 \<Rightarrow> u64 option \<Rightarrow> bool \<Rightarrow>
    mem_state \<Rightarrow> (HSAKMT_STATUS \<times> u64 option \<times> mem_state) res" where
  "hsaKmtAllocMemoryAlignInternal me PreferredNode sz alignment flags dst SkipSubAlloc st =
     (if \<not> dxg_open st then Inr (HSAKMT_STATUS_KERNEL_IO_CHANNEL_NOT_OPENED, dst, st)
      else case dst of
        None \<Rightarrow> Inr (HSAKMT_STATUS_INVALID_PARAMETER, dst, st)
      | Some d \<Rightarrow>
          if mf flags FixedAddress \<and> d = 0 then Inr (HSAKMT_STATUS_INVALID_PARAMETER, dst, st)
          else
            let d = (if mf flags FixedAddress then d else 0) in
            case alloc_request me PreferredNode sz alignment flags d st of (r, st) \<Rightarrow>
              bindE r (\<lambda>r. case r of
                  Inl status \<Rightarrow> Inr (status, Some d, st)
                | Inr (i, flags, ci, skip) \<Rightarrow>
                    let sub = (\<not> (SkipSubAlloc \<or> skip) \<and> ci_domain ci = kLocal);
                        try_sub = (sub \<and> real_size (ci_size ci) < BlockAllocator_block_size)
                    in bindE (if try_sub then sub_alloc me (real_size (ci_size ci)) st else Inr (0, st)) (\<lambda>(a, st).
                         if a \<noteq> 0 then Inr (HSAKMT_STATUS_SUCCESS, Some a, st)
                         else alloc_or_trim me PreferredNode sz i flags ci sub (if try_sub then a else d) st)))"

definition hsaKmtAllocMemoryAlign :: "mem_env \<Rightarrow> u32 \<Rightarrow> u64 \<Rightarrow> u64 \<Rightarrow> u32 \<Rightarrow> u64 option \<Rightarrow> mem_state \<Rightarrow>
    (HSAKMT_STATUS \<times> u64 option \<times> mem_state) res" where
  "hsaKmtAllocMemoryAlign me PreferredNode sz alignment flags dst st =
     hsaKmtAllocMemoryAlignInternal me PreferredNode sz alignment flags dst (rt_sub_allocator (ms_rt st) = 0) st"

definition hsaKmtAllocMemory :: "mem_env \<Rightarrow> u32 \<Rightarrow> u64 \<Rightarrow> u32 \<Rightarrow> u64 option \<Rightarrow> mem_state \<Rightarrow>
    (HSAKMT_STATUS \<times> u64 option \<times> mem_state) res" where
  "hsaKmtAllocMemory me PreferredNode sz flags dst st = hsaKmtAllocMemoryAlign me PreferredNode sz 0 flags dst st"

definition hsaKmtFreeMemoryInternal :: "mem_env \<Rightarrow> u64 \<Rightarrow> bool \<Rightarrow> mem_state \<Rightarrow> (HSAKMT_STATUS \<times> mem_state) res" where
  "hsaKmtFreeMemoryInternal me addr SkipSubAlloc st =
     (if \<not> dxg_open st then Inr (HSAKMT_STATUS_KERNEL_IO_CHANNEL_NOT_OPENED, st)
      else if addr = 0 then Inr (HSAKMT_STATUS_INVALID_PARAMETER, st)
      else if SkipSubAlloc then free_direct me addr st
      else bindE (sub_free me addr st) (\<lambda>(ok, st).
        if ok then Inr (HSAKMT_STATUS_SUCCESS, st) else free_direct me addr st))"

definition hsaKmtFreeMemory :: "mem_env \<Rightarrow> u64 \<Rightarrow> mem_state \<Rightarrow> (HSAKMT_STATUS \<times> mem_state) res" where
  "hsaKmtFreeMemory me addr st = hsaKmtFreeMemoryInternal me addr False st"

section \<open>Lookup and references\<close>

text \<open>
  The two functions return \<^verbatim>\<open>HSAKMT_STATUS_ERROR\<close>, which is 1, as a \<^verbatim>\<open>bool\<close> where the address is not in the
  map, and so report success.
\<close>

definition queue_acquire_buffer :: "u64 \<Rightarrow> mem_state \<Rightarrow> (bool \<times> mem_state) res" where
  "queue_acquire_buffer addr st =
     (if addr = 0 then Inr (False, st)
      else case map_of (allocation_map st) addr of
        None \<Rightarrow> Inr (True, st)
      | Some a \<Rightarrow> bindE (get_obj (al_handle a) st) (\<lambda>(i, m). Inr (True, set_obj (al_handle a) (GetQueueReference m) st)))"

definition queue_release_buffer :: "u64 \<Rightarrow> mem_state \<Rightarrow> (bool \<times> mem_state) res" where
  "queue_release_buffer addr st =
     (if addr = 0 then Inr (False, st)
      else case map_of (allocation_map st) addr of
        None \<Rightarrow> Inr (True, st)
      | Some a \<Rightarrow> bindE (get_obj (al_handle a) st) (\<lambda>(i, m). Inr (True, set_obj (al_handle a) (PutQueueReference m) st)))"

definition get_gpu_mem :: "u64 \<Rightarrow> mem_state \<Rightarrow> nat option" where
  "get_gpu_mem addr st = map_option al_handle (map_of (allocation_map st) addr)"

definition hsaKmtAvailableMemory :: "mem_env \<Rightarrow> u32 \<Rightarrow> bool \<Rightarrow> mem_state \<Rightarrow> (HSAKMT_STATUS \<times> u64 option \<times> mem_state) res" where
  "hsaKmtAvailableMemory me node has_dst st =
     (if \<not> dxg_open st then Inr (HSAKMT_STATUS_KERNEL_IO_CHANNEL_NOT_OPENED, None, st)
      else if \<not> has_dst then Inr (HSAKMT_STATUS_INVALID_PARAMETER, None, st)
      else bindE (get_wddmdev st node) (\<lambda>d. case d of
          None \<Rightarrow> Inr (HSAKMT_STATUS_ERROR, None, st)
        | Some i \<Rightarrow>
            (case VramAvail (me_dx me) (ms_devs st ! i) (ms_tr st) of (n, tr) \<Rightarrow>
               Inr (HSAKMT_STATUS_SUCCESS, Some n, st\<lparr>ms_tr := tr\<rparr>))))"

definition hsaKmtRegisterMemoryWithFlags :: "u64 \<Rightarrow> u32 \<Rightarrow> mem_state \<Rightarrow> HSAKMT_STATUS" where
  "hsaKmtRegisterMemoryWithFlags addr flags st =
     (if \<not> dxg_open st then HSAKMT_STATUS_KERNEL_IO_CHANNEL_NOT_OPENED
      else if addr = 0 then HSAKMT_STATUS_INVALID_PARAMETER
      else if mf flags ExtendedCoherent \<and> mf flags CoarseGrain then HSAKMT_STATUS_INVALID_PARAMETER
      else if \<not> mf flags HostAccess \<or> mf flags NonPaged then HSAKMT_STATUS_NOT_SUPPORTED
      else if \<not> rt_is_dgpu (ms_rt st) then HSAKMT_STATUS_NOT_SUPPORTED
      else HSAKMT_STATUS_SUCCESS)"

section \<open>Sharing\<close>

text \<open>
  \<^verbatim>\<open>is_ipc_sysmemfd\<close> asks whether the name of the file behind a descriptor has the mark of memory that this
  library shares; the reply of the call says so.
\<close>

definition is_ipc_sysmemfd :: "mem_env \<Rightarrow> int \<Rightarrow> mem_state \<Rightarrow> bool \<times> mem_state" where
  "is_ipc_sysmemfd me fd st =
     (case dx (me_dx me) (Readlink_memfd fd) (ms_tr st) of
        (None, tr) \<Rightarrow> (False, st\<lparr>ms_tr := tr\<rparr>)
      | (Some vs, tr) \<Rightarrow> (out_arg vs 0 \<noteq> 0, st\<lparr>ms_tr := tr\<rparr>))"

definition import_request :: "mem_env \<Rightarrow> int \<Rightarrow> bool \<Rightarrow> bool \<Rightarrow> mem_state \<Rightarrow> GpuMemoryCreateInfo \<times> mem_state" where
  "import_request me fd alloc_va is_ipc_memfd st =
     (let ci = new_GpuMemoryCreateInfo\<lparr>ci_dmabuf_fd := fd, ci_alloc_va := alloc_va\<rparr> in
      if is_ipc_memfd then
        (case dxc (me_dx me) (Fstat_fd fd) (ms_tr st) of (code, vs, tr) \<Rightarrow>
           let sz = out_arg vs 0; st = st\<lparr>ms_tr := tr\<rparr> in
           if 4096 \<le> sz \<and> sz < rt_system_size (ms_rt st) \<and> sz AND 0xfff = 0
           then (ci\<lparr>ci_sysmem_ipc_sig_importer := True, ci_size := sz\<rparr>, st) else (ci, st))
      else (ci, st))"

definition import_dmabuf_fd :: "mem_env \<Rightarrow> int \<Rightarrow> u32 \<Rightarrow> bool \<Rightarrow> bool \<Rightarrow> mem_state \<Rightarrow>
    (HSAKMT_STATUS \<times> nat option \<times> mem_state) res" where
  "import_dmabuf_fd me fd node alloc_va is_ipc_memfd st =
     (if \<not> dxg_open st then Inr (HSAKMT_STATUS_KERNEL_IO_CHANNEL_NOT_OPENED, None, st)
      else bindE (get_wddmdev st node) (\<lambda>d.
        case import_request me fd alloc_va is_ipc_memfd st of (ci, st) \<Rightarrow>
        case d of
          None \<Rightarrow> Inl (Null_Deref ''import_dmabuf_fd'')
        | Some i \<Rightarrow>
            bindE (create_obj me ci i st) (\<lambda>(code, hn, va, st).
              if code = SameProcessSameDevice then
                (case map_of (allocation_map st) (case va of None \<Rightarrow> 0 | Some a \<Rightarrow> a) of
                   None \<Rightarrow> Inr (HSAKMT_STATUS_ERROR, None, st)
                 | Some a \<Rightarrow>
                     bindE (get_obj (al_handle a) st) (\<lambda>(_, m).
                       Inr (HSAKMT_STATUS_SUCCESS, Some (al_handle a), set_obj (al_handle a) (IncSharedReference m) st)))
              else
                case hn of
                  None \<Rightarrow> Inr (HSAKMT_STATUS_ERROR, None, st)
                | Some hn \<Rightarrow>
                    bindE (get_obj hn st) (\<lambda>(_, m).
                      let addr = (if alloc_va then gm_gpu_addr m else gm_handle_ape_addr m)
                      in Inr (HSAKMT_STATUS_SUCCESS, Some hn,
                           st\<lparr>allocation_map := omap_put addr
                             (new_Allocation hn addr addr (gm_size m) False 0 (gm_client_size m) node
                               (flags_reserved (gm_flags m))) (allocation_map st)\<rparr>)))))"

text \<open>The result of a registration: the node, the size and the address of the buffer.\<close>

definition hsaKmtRegisterGraphicsHandleToNodesExt :: "mem_env \<Rightarrow> u64 \<Rightarrow> u32 list \<Rightarrow> bool \<Rightarrow>
    mem_state \<Rightarrow> (HSAKMT_STATUS \<times> (u32 \<times> (u64 \<times> u64) option) option \<times> mem_state) res" where
  "hsaKmtRegisterGraphicsHandleToNodesExt me handle nodes requiresVAddr st =
     (if \<not> dxg_open st then Inr (HSAKMT_STATUS_KERNEL_IO_CHANNEL_NOT_OPENED, None, st)
      else case is_ipc_sysmemfd me (sint (ucast handle :: u32)) st of
        (True, st) \<Rightarrow> Inr (HSAKMT_STATUS_SUCCESS, Some (rt_default_node (ms_rt st), None), st)
      | (False, st) \<Rightarrow>
          let va = (nodes \<noteq> [] \<and> requiresVAddr);
              node = (case nodes of [] \<Rightarrow> rt_default_node (ms_rt st) | n # _ \<Rightarrow> n)
          in bindE (import_dmabuf_fd me (sint (ucast handle :: u32)) node va False st) (\<lambda>(status, hn, st).
               case hn of
                 None \<Rightarrow> Inr (status, None, st)
               | Some hn \<Rightarrow>
                   bindE (get_obj hn st) (\<lambda>(i, m).
                     Inr (status, Some (of_nat (Suc i), Some (gm_client_size m, if va then gm_gpu_addr m else gm_handle_ape_addr m)),
                       st))))"

definition hsaKmtRegisterGraphicsHandleToNodes :: "mem_env \<Rightarrow> u64 \<Rightarrow> u32 list \<Rightarrow>
    mem_state \<Rightarrow> (HSAKMT_STATUS \<times> (u32 \<times> (u64 \<times> u64) option) option \<times> mem_state) res" where
  "hsaKmtRegisterGraphicsHandleToNodes me handle nodes st =
     hsaKmtRegisterGraphicsHandleToNodesExt me handle nodes False st"

text \<open>The export keeps one descriptor with the allocation and hands out duplicates of it.\<close>

definition hsaKmtExportDMABufHandle :: "mem_env \<Rightarrow> u64 \<Rightarrow> mem_state \<Rightarrow>
    (HSAKMT_STATUS \<times> (int \<times> u64) option \<times> mem_state) res" where
  "hsaKmtExportDMABufHandle me addr st =
     (if \<not> dxg_open st then Inr (HSAKMT_STATUS_KERNEL_IO_CHANNEL_NOT_OPENED, None, st)
      else case omap_floor addr (allocation_map st) of
        None \<Rightarrow> Inr (HSAKMT_STATUS_ERROR, None, st)
      | Some (key, a) \<Rightarrow>
          bindE
            (if al_dmabuf_fd a = -1 then
               bindE (get_obj (al_handle a) st) (\<lambda>(i, m).
                 case ExportPhysicalHandle (me_dx me) (me_share_access me) m (world_of i st) of (code, fd, w) \<Rightarrow>
                   let st = put_world i w st in
                   if code \<noteq> Success then Inr (None, st)
                   else
                     let fd = (case fd of None \<Rightarrow> -1 | Some fd \<Rightarrow> fd)
                     in Inr (Some fd, st\<lparr>allocation_map := omap_put key (a\<lparr>al_dmabuf_fd := fd\<rparr>) (allocation_map st)\<rparr>))
             else Inr (Some (al_dmabuf_fd a), st))
            (\<lambda>(fd, st). case fd of
                None \<Rightarrow> Inr (HSAKMT_STATUS_ERROR, None, st)
              | Some fd \<Rightarrow>
                  (case dxc (me_dx me) (Dup_fd fd) (ms_tr st) of (code, vs, tr) \<Rightarrow>
                     Inr (HSAKMT_STATUS_SUCCESS,
                       Some (if code = Success then sint (ucast (out_arg vs 0) :: u32) else -1, addr - al_gpu_addr a),
                       st\<lparr>ms_tr := tr\<rparr>))))"

section \<open>Mapping to the GPU\<close>

definition map_ipc :: "mem_env \<Rightarrow> nat \<Rightarrow> GpuMemory \<Rightarrow> mem_state \<Rightarrow> (HSAKMT_STATUS \<times> mem_state) res" where
  "map_ipc me i m st =
     bindE (MapGpuVirtualAddress (me_dx me) m (gm_gpu_addr m) (gm_size m) 0 (world_of i st)) (\<lambda>(code, w).
       if code \<noteq> Success then Inr (HSAKMT_STATUS_ERROR, put_world i w st)
       else case MakeResident (me_dx me) m w of (code, w) \<Rightarrow>
         if code \<noteq> Success then Inr (HSAKMT_STATUS_ERROR, put_world i w st)
         else case WaitOnPagingFenceFromCpu (me_dx me) (w_dev w) (w_tr w) of (ok, tr) \<Rightarrow>
           Inr (if ok then HSAKMT_STATUS_SUCCESS else HSAKMT_STATUS_ERROR, put_world i (w\<lparr>w_tr := tr\<rparr>) st))"

definition map_userptr :: "mem_env \<Rightarrow> u64 \<Rightarrow> u64 \<Rightarrow> u64 \<Rightarrow> u64 \<Rightarrow> u32 \<Rightarrow> mem_state \<Rightarrow>
    (HSAKMT_STATUS \<times> u64 option \<times> mem_state) res" where
  "map_userptr me addr sz aligned_ptr aligned_size node st =
     bindE (get_wddmdev st node) (\<lambda>d. case d of
         None \<Rightarrow> Inr (HSAKMT_STATUS_ERROR, None, st)
       | Some i \<Rightarrow>
           bindE (create_obj me (new_GpuMemoryCreateInfo\<lparr>ci_domain := kUserMemory, ci_size := aligned_size,
               ci_user_ptr := aligned_ptr\<rparr>) i st) (\<lambda>(code, hn, _, st).
             case hn of
               None \<Rightarrow> Inr (HSAKMT_STATUS_ERROR, None, st)
             | Some hn \<Rightarrow>
                 bindE (get_obj hn st) (\<lambda>(_, m).
                   let gpu = gm_gpu_addr m;
                       entry = (\<lambda>ud. new_Allocation hn aligned_ptr gpu aligned_size True ud sz 0 0)
                   in Inr (HSAKMT_STATUS_SUCCESS, Some (gpu + (addr - aligned_ptr)),
                        st\<lparr>allocation_map := omap_put gpu (entry 0) (omap_put addr (entry addr) (allocation_map st))\<rparr>))))"

definition hsaKmtMapMemoryToGPUNodes :: "mem_env \<Rightarrow> u64 \<Rightarrow> u64 \<Rightarrow> bool \<Rightarrow> u32 list \<Rightarrow> mem_state \<Rightarrow>
    (HSAKMT_STATUS \<times> u64 option \<times> mem_state) res" where
  "hsaKmtMapMemoryToGPUNodes me addr sz has_dst nodes st =
     (if \<not> dxg_open st then Inr (HSAKMT_STATUS_KERNEL_IO_CHANNEL_NOT_OPENED, None, st)
      else if addr = 0 \<or> \<not> has_dst then Inr (HSAKMT_STATUS_ERROR, None, st)
      else
        let start = AlignDown addr 4096; end_addr = AlignUp (addr + sz) 4096; aligned_size = end_addr - start in
        if block_base (fragment_allocator st) start \<noteq> 0 then Inr (HSAKMT_STATUS_SUCCESS, None, st)
        else
          let userptr_path =
            (case map_of (allocation_map st) addr of
               Some a \<Rightarrow>
                 if al_userptr a \<and> al_size a \<ge> sz
                 then Inr (HSAKMT_STATUS_SUCCESS, Some (al_gpu_addr a + (addr - al_cpu_addr a)), st)
                 else map_userptr me addr sz start aligned_size (nodes ! 0) st
             | None \<Rightarrow> map_userptr me addr sz start aligned_size (nodes ! 0) st)
          in case map_of (allocation_map st) start of
               None \<Rightarrow> userptr_path
             | Some a \<Rightarrow>
                 bindE (get_obj (al_handle a) st) (\<lambda>(i, m).
                   if is_imported_vram_ipc (gm_flags m) then
                     bindE (map_ipc me i m st) (\<lambda>(status, st). Inr (status, None, st))
                   else if \<not> al_userptr a then
                     (if al_size a \<ge> sz then Inr (HSAKMT_STATUS_SUCCESS, Some addr, st)
                      else Inr (HSAKMT_STATUS_ERROR, None, st))
                   else userptr_path))"

definition hsaKmtMapMemoryToGPU :: "mem_env \<Rightarrow> u64 \<Rightarrow> u64 \<Rightarrow> bool \<Rightarrow> mem_state \<Rightarrow>
    (HSAKMT_STATUS \<times> u64 option \<times> mem_state) res" where
  "hsaKmtMapMemoryToGPU me addr sz has_dst st =
     hsaKmtMapMemoryToGPUNodes me addr sz has_dst [rt_default_node (ms_rt st)] st"

definition hsaKmtUnmapMemoryToGPU :: "mem_env \<Rightarrow> u64 \<Rightarrow> mem_state \<Rightarrow> (HSAKMT_STATUS \<times> mem_state) res" where
  "hsaKmtUnmapMemoryToGPU me addr st =
     (if \<not> dxg_open st then Inr (HSAKMT_STATUS_KERNEL_IO_CHANNEL_NOT_OPENED, st)
      else if addr = 0 then Inr (HSAKMT_STATUS_SUCCESS, st)
      else if block_base (fragment_allocator st) addr \<noteq> 0 then Inr (HSAKMT_STATUS_SUCCESS, st)
      else case map_of (allocation_map st) addr of
        None \<Rightarrow> Inr (HSAKMT_STATUS_ERROR, st)
      | Some a \<Rightarrow>
          bindE (get_obj (al_handle a) st) (\<lambda>(i, m).
            if is_queue_referenced (gm_flags m) then Inr (HSAKMT_STATUS_ERROR, st)
            else if is_imported_vram_ipc (gm_flags m) \<and> \<not> IsSharedFromSameProcess m then
              bindE (UnmapGpuVirtualAddress (me_dx me) m (gm_gpu_addr m) (gm_size m) 0 (world_of i st)) (\<lambda>(code, w).
                if code \<noteq> Success then Inr (HSAKMT_STATUS_ERROR, put_world i w st)
                else case Evict (me_dx me) m w of (_, w) \<Rightarrow> Inr (HSAKMT_STATUS_SUCCESS, put_world i w st))
            else Inr (HSAKMT_STATUS_SUCCESS, st)))"

text \<open>
  \<^verbatim>\<open>hsaKmtDeregisterMemory\<close> reads through the iterator it has just erased when it withdraws user memory.
\<close>

definition hsaKmtDeregisterMemory :: "mem_env \<Rightarrow> u64 \<Rightarrow> mem_state \<Rightarrow> (HSAKMT_STATUS \<times> mem_state) res" where
  "hsaKmtDeregisterMemory me addr st =
     (if \<not> dxg_open st then Inr (HSAKMT_STATUS_KERNEL_IO_CHANNEL_NOT_OPENED, st)
      else if addr = 0 then Inr (HSAKMT_STATUS_INVALID_PARAMETER, st)
      else case map_of (allocation_map st) addr of
        None \<Rightarrow> Inr (HSAKMT_STATUS_SUCCESS, st)
      | Some a \<Rightarrow>
          bindE (get_obj (al_handle a) st) (\<lambda>(i, m).
            let ipc = is_imported_vram_ipc (gm_flags m);
                (n, m') = (if ipc then DecSharedReference m else (0, m));
                st = set_obj (al_handle a) m' st
            in if ipc \<and> n = 0 then
                 bindE (delete_obj me (al_handle a) (st\<lparr>allocation_map := omap_erase addr (allocation_map st)\<rparr>)) (\<lambda>st.
                   Inr (HSAKMT_STATUS_SUCCESS, st))
               else if al_userptr a then Inl (Use_After_Free ''hsaKmtDeregisterMemory'')
               else Inr (HSAKMT_STATUS_SUCCESS, st)))"

section \<open>Queries\<close>

datatype HSA_POINTER_TYPE =
    HSA_POINTER_UNKNOWN | HSA_POINTER_ALLOCATED | HSA_POINTER_REGISTERED_USER
  | HSA_POINTER_REGISTERED_GRAPHICS | HSA_POINTER_REGISTERED_SHARED | HSA_POINTER_RESERVED_ADDR

record HsaPointerInfo =
  pi_Type :: HSA_POINTER_TYPE
  pi_Node :: u32
  pi_MemFlags :: u32
  pi_CPUAddress :: u64
  pi_GPUAddress :: u64
  pi_SizeInBytes :: u64
  pi_UserData :: u64

definition zero_HsaPointerInfo :: HsaPointerInfo where
  "zero_HsaPointerInfo =
     \<lparr>pi_Type = HSA_POINTER_UNKNOWN, pi_Node = 0, pi_MemFlags = 0, pi_CPUAddress = 0, pi_GPUAddress = 0,
      pi_SizeInBytes = 0, pi_UserData = 0\<rparr>"

definition hsaKmtQueryPointerInfo :: "u64 \<Rightarrow> bool \<Rightarrow> mem_state \<Rightarrow> (HSAKMT_STATUS \<times> HsaPointerInfo option) res" where
  "hsaKmtQueryPointerInfo ptr has_dst st =
     (if \<not> dxg_open st then Inr (HSAKMT_STATUS_KERNEL_IO_CHANNEL_NOT_OPENED, None)
      else if ptr = 0 \<or> \<not> has_dst then Inr (HSAKMT_STATUS_INVALID_PARAMETER, None)
      else
        case (case omap_floor ptr (allocation_map st) of
                None \<Rightarrow> None
              | Some (key, a) \<Rightarrow> if ptr \<ge> key \<and> ptr < key + al_size_requested a then Some a else None) of
          None \<Rightarrow> Inr (HSAKMT_STATUS_ERROR, Some zero_HsaPointerInfo)
        | Some a \<Rightarrow>
            bindE (if al_userptr a then Inr False else bindE (get_obj (al_handle a) st) (\<lambda>(i, m). Inr (is_virtual (gm_flags m))))
              (\<lambda>virt.
                Inr (HSAKMT_STATUS_SUCCESS, Some
                  \<lparr>pi_Type = (if al_userptr a then HSA_POINTER_REGISTERED_USER
                              else if virt then HSA_POINTER_RESERVED_ADDR else HSA_POINTER_ALLOCATED),
                   pi_Node = al_node_id a, pi_MemFlags = al_mem_flags_value a, pi_CPUAddress = al_cpu_addr a,
                   pi_GPUAddress = al_gpu_addr a,
                   pi_SizeInBytes = (if al_userptr a then al_size a else if virt then 0 else al_size_requested a),
                   pi_UserData = al_rocr_userdata a\<rparr>)))"

definition hsaKmtSetMemoryUserData :: "u64 \<Rightarrow> u64 \<Rightarrow> mem_state \<Rightarrow> HSAKMT_STATUS \<times> mem_state" where
  "hsaKmtSetMemoryUserData ptr ud st =
     (if \<not> dxg_open st then (HSAKMT_STATUS_KERNEL_IO_CHANNEL_NOT_OPENED, st)
      else
        let key = AlignDown ptr 4096 in
        case map_of (allocation_map st) key of
          None \<Rightarrow> (HSAKMT_STATUS_ERROR, st)
        | Some a \<Rightarrow> (HSAKMT_STATUS_SUCCESS,
            st\<lparr>allocation_map := omap_put key (a\<lparr>al_rocr_userdata := ud\<rparr>) (allocation_map st)\<rparr>))"

section \<open>Buffer objects of the DRM interface\<close>

text \<open>
  A buffer handle is the handle of a memory object and a device handle the index of a device. The functions
  of the DRM library return 0 or -1.
\<close>

datatype amdgpu_bo_handle_type = bo_gem_flink_name | bo_kms | bo_dma_buf_fd
datatype HsaExternalHandleType = HANDLE_GEM_FLINK_NAME | HANDLE_KMS | HANDLE_DMA_BUF | HANDLE_OTHER

definition hsaKmtGetAMDGPUDeviceHandle :: "u32 \<Rightarrow> mem_state \<Rightarrow> (HSAKMT_STATUS \<times> nat option) res" where
  "hsaKmtGetAMDGPUDeviceHandle node st =
     (if \<not> dxg_open st then Inr (HSAKMT_STATUS_KERNEL_IO_CHANNEL_NOT_OPENED, None)
      else bindE (get_wddmdev st node) (\<lambda>d. case d of
          None \<Rightarrow> Inr (HSAKMT_STATUS_ERROR, None)
        | Some i \<Rightarrow> Inr (HSAKMT_STATUS_SUCCESS, Some i)))"

definition amdgpu_device_get_fd :: "mem_state \<Rightarrow> int" where
  "amdgpu_device_get_fd st = rt_dxg_fd (ms_rt st)"

text \<open>Only imported system memory has a CPU address here; otherwise the pointer is left as it was.\<close>

definition amdgpu_bo_cpu_map :: "nat \<Rightarrow> u64 \<Rightarrow> mem_state \<Rightarrow> (int \<times> u64) res" where
  "amdgpu_bo_cpu_map bo cpu st =
     bindE (get_obj bo st) (\<lambda>(i, m). Inr (0, if is_imported_sys_memfd (gm_flags m) then gm_cpu_addr m else cpu))"

definition amdgpu_bo_free :: "mem_env \<Rightarrow> nat \<Rightarrow> mem_state \<Rightarrow> (int \<times> mem_state) res" where
  "amdgpu_bo_free me bo st =
     bindE (get_obj bo st) (\<lambda>(i, m).
       bindE (hsaKmtFreeMemory me (if is_va_required (gm_flags m) then gm_gpu_addr m else gm_handle_ape_addr m) st)
         (\<lambda>(status, st). Inr (if status = HSAKMT_STATUS_SUCCESS then 0 else -1, st)))"

definition amdgpu_bo_import :: "mem_env \<Rightarrow> nat \<Rightarrow> amdgpu_bo_handle_type \<Rightarrow> int \<Rightarrow> mem_state \<Rightarrow>
    (int \<times> (nat \<times> u64) option \<times> mem_state) res" where
  "amdgpu_bo_import me dev type fd st =
     (if type \<noteq> bo_dma_buf_fd then Inr (-1, None, st)
      else case is_ipc_sysmemfd me fd st of (is_ipc, st) \<Rightarrow>
        bindE (import_dmabuf_fd me fd (of_nat (Suc dev)) is_ipc is_ipc st) (\<lambda>(status, hn, st).
          case hn of
            None \<Rightarrow> Inr (-1, None, st)
          | Some hn \<Rightarrow> bindE (get_obj hn st) (\<lambda>(i, m). Inr (0, Some (hn, gm_client_size m), st))))"

definition bo_map :: "mem_env \<Rightarrow> nat \<Rightarrow> u64 \<Rightarrow> u64 \<Rightarrow> u64 \<Rightarrow> mem_state \<Rightarrow> (int \<times> mem_state) res" where
  "bo_map me bo offset sz addr st =
     bindE (get_obj bo st) (\<lambda>(i, m).
       if gm_gpu_addr m = addr then Inr (0, st)
       else if gm_gpu_addr m \<noteq> 0 then Inr (-1, st)
       else bindE (MapGpuVirtualAddress (me_dx me) m addr sz offset (world_of i st)) (\<lambda>(code, w).
         if code \<noteq> Success then Inr (-1, put_world i w st)
         else case MakeResident (me_dx me) m w of (code, w) \<Rightarrow>
           Inr (if code \<noteq> Success then -1 else 0, put_world i w st)))"

definition bo_unmap :: "mem_env \<Rightarrow> nat \<Rightarrow> u64 \<Rightarrow> u64 \<Rightarrow> u64 \<Rightarrow> mem_state \<Rightarrow> (int \<times> mem_state) res" where
  "bo_unmap me bo offset sz addr st =
     bindE (get_obj bo st) (\<lambda>(i, m).
       bindE (UnmapGpuVirtualAddress (me_dx me) m addr sz offset (world_of i st)) (\<lambda>(code, w).
         if code \<noteq> Success then Inr (-1, put_world i w st)
         else case Evict (me_dx me) m w of (_, w) \<Rightarrow> Inr (0, put_world i w st)))"

definition AMDGPU_VA_OP_MAP :: u32 where "AMDGPU_VA_OP_MAP = 1"
definition AMDGPU_VA_OP_UNMAP :: u32 where "AMDGPU_VA_OP_UNMAP = 2"

definition amdgpu_bo_va_op :: "mem_env \<Rightarrow> nat \<Rightarrow> u64 \<Rightarrow> u64 \<Rightarrow> u64 \<Rightarrow> u32 \<Rightarrow> mem_state \<Rightarrow> (int \<times> mem_state) res" where
  "amdgpu_bo_va_op me bo offset sz addr ops st =
     (if ops = AMDGPU_VA_OP_MAP then bo_map me bo offset sz addr st
      else if ops = AMDGPU_VA_OP_UNMAP then bo_unmap me bo offset sz addr st
      else Inr (0, st))"

text \<open>
  \<^verbatim>\<open>hsaKmtHandleImport\<close> reads its argument in the layout of the caller's version; \<open>current\<close> and \<open>legacy\<close> are the
  device, the descriptor and the type as each layout gives them.
\<close>

definition hsaKmtHandleImport :: "mem_env \<Rightarrow> bool \<Rightarrow> nat \<times> int \<times> HsaExternalHandleType \<Rightarrow>
    nat \<times> int \<times> HsaExternalHandleType \<Rightarrow> mem_state \<Rightarrow> (HSAKMT_STATUS \<times> (nat \<times> u64) option \<times> mem_state) res" where
  "hsaKmtHandleImport me is_current current legacy st =
     (if \<not> dxg_open st then Inr (HSAKMT_STATUS_KERNEL_IO_CHANNEL_NOT_OPENED, None, st)
      else case (if is_current then current else legacy) of (dev, fd, etype) \<Rightarrow>
        let type = (case etype of HANDLE_GEM_FLINK_NAME \<Rightarrow> bo_gem_flink_name | HANDLE_KMS \<Rightarrow> bo_kms | _ \<Rightarrow> bo_dma_buf_fd) in
        bindE (amdgpu_bo_import me dev type fd st) (\<lambda>(ret, res, st).
          Inr (if ret \<noteq> 0 then (HSAKMT_STATUS_ERROR, None, st) else (HSAKMT_STATUS_SUCCESS, res, st))))"

datatype HsaMemoryMapFlags = HSA_MEMORY_ACCESS_NONE | HSA_MEMORY_ACCESS_RO | HSA_MEMORY_ACCESS_WO | HSA_MEMORY_ACCESS_RW

definition MapDrmPerm :: "HsaMemoryMapFlags \<Rightarrow> u64" where
  "MapDrmPerm flags =
     (case flags of
        HSA_MEMORY_ACCESS_RO \<Rightarrow> 2
      | HSA_MEMORY_ACCESS_WO \<Rightarrow> 4
      | HSA_MEMORY_ACCESS_RW \<Rightarrow> 2 OR 4
      | HSA_MEMORY_ACCESS_NONE \<Rightarrow> 0)"

definition hsaKmtMemoryVaMap :: "mem_env \<Rightarrow> nat option \<Rightarrow> u64 \<Rightarrow> u64 \<Rightarrow> u64 \<Rightarrow> mem_state \<Rightarrow> (HSAKMT_STATUS \<times> mem_state) res" where
  "hsaKmtMemoryVaMap me bo offset sz addr st =
     (if \<not> dxg_open st then Inr (HSAKMT_STATUS_KERNEL_IO_CHANNEL_NOT_OPENED, st)
      else case bo of
        None \<Rightarrow> Inr (HSAKMT_STATUS_ERROR, st)
      | Some bo \<Rightarrow> bindE (amdgpu_bo_va_op me bo offset sz addr AMDGPU_VA_OP_MAP st) (\<lambda>(ret, st).
          Inr (if ret \<noteq> 0 then HSAKMT_STATUS_ERROR else HSAKMT_STATUS_SUCCESS, st)))"

definition hsaKmtMemoryVaUnmap :: "mem_env \<Rightarrow> nat option \<Rightarrow> u64 \<Rightarrow> u64 \<Rightarrow> u64 \<Rightarrow> mem_state \<Rightarrow> (HSAKMT_STATUS \<times> mem_state) res" where
  "hsaKmtMemoryVaUnmap me bo offset sz addr st =
     (if \<not> dxg_open st then Inr (HSAKMT_STATUS_KERNEL_IO_CHANNEL_NOT_OPENED, st)
      else case bo of
        None \<Rightarrow> Inr (HSAKMT_STATUS_ERROR, st)
      | Some bo \<Rightarrow> bindE (amdgpu_bo_va_op me bo offset sz addr AMDGPU_VA_OP_UNMAP st) (\<lambda>(ret, st).
          Inr (if ret \<noteq> 0 then HSAKMT_STATUS_ERROR else HSAKMT_STATUS_SUCCESS, st)))"

definition hsaKmtMemHandleFree :: "mem_env \<Rightarrow> nat \<Rightarrow> mem_state \<Rightarrow> (HSAKMT_STATUS \<times> mem_state) res" where
  "hsaKmtMemHandleFree me bo st =
     (if \<not> dxg_open st then Inr (HSAKMT_STATUS_KERNEL_IO_CHANNEL_NOT_OPENED, st)
      else bindE (amdgpu_bo_free me bo st) (\<lambda>(ret, st).
        Inr (if ret \<noteq> 0 then HSAKMT_STATUS_ERROR else HSAKMT_STATUS_SUCCESS, st)))"

definition hsaKmtMemoryCpuMap :: "nat \<Rightarrow> u64 \<Rightarrow> mem_state \<Rightarrow> (HSAKMT_STATUS \<times> u64) res" where
  "hsaKmtMemoryCpuMap bo cpu st =
     (if \<not> dxg_open st then Inr (HSAKMT_STATUS_KERNEL_IO_CHANNEL_NOT_OPENED, cpu)
      else bindE (amdgpu_bo_cpu_map bo cpu st) (\<lambda>(ret, cpu).
        Inr (if ret \<noteq> 0 then HSAKMT_STATUS_ERROR else HSAKMT_STATUS_SUCCESS, cpu)))"

definition hsaKmtMemoryGetCpuAddr :: "nat \<Rightarrow> mem_state \<Rightarrow> (HSAKMT_STATUS \<times> (int \<times> u64) option) res" where
  "hsaKmtMemoryGetCpuAddr bo st =
     (if \<not> dxg_open st then Inr (HSAKMT_STATUS_KERNEL_IO_CHANNEL_NOT_OPENED, None)
      else bindE (amdgpu_bo_cpu_map bo 0 st) (\<lambda>(ret, cpu).
        Inr (if ret \<noteq> 0 then (HSAKMT_STATUS_ERROR, None) else (HSAKMT_STATUS_SUCCESS, Some (amdgpu_device_get_fd st, cpu)))))"

section \<open>Functions the library does not implement\<close>

definition unimplemented :: "string \<Rightarrow> mem_state \<Rightarrow> HSAKMT_STATUS res" where
  "unimplemented name st =
     (if \<not> dxg_open st then Inr HSAKMT_STATUS_KERNEL_IO_CHANNEL_NOT_OPENED else Inl (Assert_Failed name))"

definition hsaKmtSetMemoryPolicy :: "mem_state \<Rightarrow> HSAKMT_STATUS res" where
  "hsaKmtSetMemoryPolicy st = unimplemented ''hsaKmtSetMemoryPolicy'' st"
definition hsaKmtRegisterMemory :: "mem_state \<Rightarrow> HSAKMT_STATUS res" where
  "hsaKmtRegisterMemory st = unimplemented ''hsaKmtRegisterMemory'' st"
definition hsaKmtRegisterMemoryToNodes :: "mem_state \<Rightarrow> HSAKMT_STATUS res" where
  "hsaKmtRegisterMemoryToNodes st = unimplemented ''hsaKmtRegisterMemoryToNodes'' st"
definition hsaKmtShareMemory :: "mem_state \<Rightarrow> HSAKMT_STATUS res" where
  "hsaKmtShareMemory st = unimplemented ''hsaKmtShareMemory'' st"
definition hsaKmtRegisterSharedHandle :: "mem_state \<Rightarrow> HSAKMT_STATUS res" where
  "hsaKmtRegisterSharedHandle st = unimplemented ''hsaKmtRegisterSharedHandle'' st"
definition hsaKmtRegisterSharedHandleToNodes :: "mem_state \<Rightarrow> HSAKMT_STATUS res" where
  "hsaKmtRegisterSharedHandleToNodes st = unimplemented ''hsaKmtRegisterSharedHandleToNodes'' st"
definition hsaKmtProcessVMRead :: "mem_state \<Rightarrow> HSAKMT_STATUS res" where
  "hsaKmtProcessVMRead st = unimplemented ''hsaKmtProcessVMRead'' st"
definition hsaKmtProcessVMWrite :: "mem_state \<Rightarrow> HSAKMT_STATUS res" where
  "hsaKmtProcessVMWrite st = unimplemented ''hsaKmtProcessVMWrite'' st"
definition hsaKmtUnmapGraphicHandle :: "mem_state \<Rightarrow> HSAKMT_STATUS res" where
  "hsaKmtUnmapGraphicHandle st = unimplemented ''hsaKmtUnmapGraphicHandle'' st"
definition hsaKmtGetTileConfig :: "mem_state \<Rightarrow> HSAKMT_STATUS res" where
  "hsaKmtGetTileConfig st = unimplemented ''hsaKmtGetTileConfig'' st"
definition hsaKmtReplaceAsanHeaderPage :: "mem_state \<Rightarrow> HSAKMT_STATUS res" where
  "hsaKmtReplaceAsanHeaderPage st = unimplemented ''hsaKmtReplaceAsanHeaderPage'' st"
definition hsaKmtReturnAsanHeaderPage :: "mem_state \<Rightarrow> HSAKMT_STATUS res" where
  "hsaKmtReturnAsanHeaderPage st = unimplemented ''hsaKmtReturnAsanHeaderPage'' st"

definition hsaKmtMapGraphicHandle :: "mem_state \<Rightarrow> HSAKMT_STATUS" where
  "hsaKmtMapGraphicHandle st =
     (if \<not> dxg_open st then HSAKMT_STATUS_KERNEL_IO_CHANNEL_NOT_OPENED else HSAKMT_STATUS_NOT_IMPLEMENTED)"

definition hsaKmtGetMemoryHandle :: "mem_state \<Rightarrow> HSAKMT_STATUS" where
  "hsaKmtGetMemoryHandle st =
     (if \<not> dxg_open st then HSAKMT_STATUS_KERNEL_IO_CHANNEL_NOT_OPENED else HSAKMT_STATUS_NOT_SUPPORTED)"

end
