(* ===== verification/Memory_Safety.thy ===== *)
theory Memory_Safety
  imports Memory_Api
begin

text \<open>
  The memory interface as a range allocator: the invariant of the library's memory state under allocation and
  release, the sub-allocator's contract discharged on the blocks the library allocates for it, and the
  refinement of an abstract allocator by \<^verbatim>\<open>hsaKmtAllocMemory\<close> and \<^verbatim>\<open>hsaKmtFreeMemory\<close>.
\<close>

section \<open>Sizes\<close>

definition page_multiple :: "u32 \<Rightarrow> bool" where
  "page_multiple a \<longleftrightarrow> 4096 dvd unat a \<and> unat a dvd 2097152"

definition big_pages_ok :: "wddm_device \<Rightarrow> bool" where
  "big_pages_ok d \<longleftrightarrow>
     (dev_enable_big_page d \<longrightarrow>
        page_multiple (dev_big_page_alignment d) \<and>
        (dev_hw_big_page_min_alignment d > 0 \<longrightarrow>
           page_multiple (dev_hw_big_page_min_alignment d) \<and> page_multiple (dev_hw_big_page_alignment d)))"

lemma page_multiple_max: "page_multiple a \<Longrightarrow> page_multiple b \<Longrightarrow> page_multiple (max a b)"
  by (simp add: max_def)

lemma page_multiple_bounds: "page_multiple a \<Longrightarrow> 0 < unat a \<and> unat a \<le> 2097152"
  using dvd_pos_nat [of 2097152 "unat a"] by (auto simp: page_multiple_def intro: dvd_imp_le)

lemma AlignUp_page:
  assumes "page_multiple a" "unat len + 2097152 < 2 ^ 64"
  shows "unat len \<le> unat (AlignUp (len :: u64) (ucast a))" "unat (AlignUp len (ucast a)) < unat len + unat a"
    "unat a dvd unat (AlignUp len (ucast a))"
proof -
  have u: "unat (ucast a :: u64) = unat a" by simp
  have a: "0 < unat (ucast a :: u64)" "unat len + unat (ucast a :: u64) \<le> 18446744073709551616"
    using assms page_multiple_bounds [OF assms(1)] unfolding u by simp_all
  note b = AlignUp_u64_bounds [OF a]
  from b show "unat len \<le> unat (AlignUp (len :: u64) (ucast a))" "unat (AlignUp len (ucast a)) < unat len + unat a"
    "unat a dvd unat (AlignUp len (ucast a))" unfolding u by blast+
qed

lemma AdjustSize_AlignUp:
  assumes "big_pages_ok d"
  obtains a where "page_multiple a" "AdjustSize d domain len = AlignUp len (ucast a)"
proof (cases "dev_enable_big_page d \<and> domain = kLocal")
  case True
  let ?a = "if dev_hw_big_page_min_alignment d > 0 \<and> len > ucast (dev_hw_big_page_min_alignment d) then
       let alignment = max (dev_big_page_alignment d) (dev_hw_big_page_min_alignment d)
       in if len > ucast (dev_hw_big_page_alignment d) then max alignment (dev_hw_big_page_alignment d) else alignment
     else dev_big_page_alignment d"
  have pm: "page_multiple ?a" using assms(1) True by (simp add: big_pages_ok_def page_multiple_max Let_def)
  then have "0 < ?a" using page_multiple_bounds by (auto simp: word_less_nat_alt)
  then have "AdjustSize d domain len = AlignUp len (ucast ?a)" using True by (simp add: AdjustSize_def Let_def)
  with pm that show thesis by blast
next
  case False
  then show thesis by (intro that [of 4096]) (auto simp: AdjustSize_def page_multiple_def)
qed

lemma AdjustSize_bounds:
  assumes "big_pages_ok d" "unat len + 2097152 < 2 ^ 64"
  shows "unat len \<le> unat (AdjustSize d domain len)" "unat (AdjustSize d domain len) < unat len + 2097152"
    "4096 dvd unat (AdjustSize d domain len)" "2097152 dvd unat len \<Longrightarrow> AdjustSize d domain len = len"
proof -
  obtain a where a: "page_multiple a" "AdjustSize d domain len = AlignUp len (ucast a)"
    by (rule AdjustSize_AlignUp [OF assms(1)])
  note b = AlignUp_page [OF a(1) assms(2), folded a(2)]
  from b(1,2) page_multiple_bounds [OF a(1)] show "unat len \<le> unat (AdjustSize d domain len)"
    "unat (AdjustSize d domain len) < unat len + 2097152" by linarith+
  show "4096 dvd unat (AdjustSize d domain len)" using a(1) b(3) unfolding page_multiple_def by (metis dvd_trans)
  show "AdjustSize d domain len = len" if "2097152 dvd unat len"
  proof -
    have "unat a dvd unat len" using that a(1) unfolding page_multiple_def by (metis dvd_trans)
    with b(3) have "unat a dvd unat (AdjustSize d domain len) - unat len" by (rule dvd_diff_nat)
    moreover have "unat (AdjustSize d domain len) - unat len < unat a" using b(1,2) by linarith
    ultimately have "unat (AdjustSize d domain len) - unat len = 0" using nat_dvd_not_less by blast
    with b(1) show ?thesis by (simp add: word_unat_eq_iff)
  qed
qed

text \<open>A description of memory that is to have an address and backing, of a size the address space can hold.\<close>

definition plain_info :: "GpuMemoryCreateInfo \<Rightarrow> bool" where
  "plain_info ci \<longleftrightarrow>
     ci_dmabuf_fd ci \<le> 0 \<and> \<not> ci_virtual_alloc ci \<and> \<not> ci_physical_only ci \<and>
     \<not> ci_sysmem_ipc_sig_importer ci \<and> \<not> ci_sysmem_ipc_sig_exporter ci \<and> ci_va_hint ci = 0 \<and>
     0 < unat (ci_size ci) \<and> unat (ci_size ci) \<le> 2 ^ 61 \<and> 4096 dvd unat (ci_alignment ci) \<and> unat (ci_alignment ci) \<le> 2 ^ 61"

lemma plain_info_request:
  assumes "big_pages_ok d" "plain_info ci"
  shows "plain_request d ci"
proof -
  define len where "len = AdjustSize d (ci_domain ci) (ci_size ci)"
  have b: "unat (ci_size ci) + 2097152 < 2 ^ 64" using assms(2) by (simp add: plain_info_def)
  note l = AdjustSize_bounds [OF assms(1) b, of "ci_domain ci", folded len_def]
  have h: "4096 dvd unat (heap_align len (ci_alignment ci)) \<and> unat (heap_align len (ci_alignment ci)) \<le> 2 ^ 61"
    using assms(2) by (simp add: heap_align_def GPU_HUGE_PAGE_SIZE_def plain_info_def)
  have "0 < unat len" "unat len + 2 ^ 31 \<le> 2 ^ 64" "unat len + unat (heap_align len (ci_alignment ci)) + 4096 \<le> 2 ^ 64"
    using l(1,2) h assms(2) by (simp_all add: plain_info_def)
  with h l(3) assms(2) show ?thesis by (simp add: plain_request_def plain_info_def Let_def va_request_def flip: len_def)
qed

section \<open>The invariant\<close>

definition kernel_ok :: "dx_env \<Rightarrow> bool" where
  "kernel_ok env \<longleftrightarrow> create_ok env \<and> destroy_ok env \<and> unmap_gpu_ok env \<and> fixed_map_ok env"

definition groups_sep :: "alloc_group set \<Rightarrow> bool" where
  "groups_sep L \<longleftrightarrow> groups_ok L \<and> (\<forall>g\<in>L. \<forall>g'\<in>L. g \<noteq> g' \<longrightarrow> \<not> names_group (fst g) (snd g) g')"

text \<open>The address regions of the system heap and the local heap.\<close>

definition region :: "(nat \<times> nat) \<times> (nat \<times> nat) \<Rightarrow> AllocDomain \<Rightarrow> nat \<times> nat" where
  "region R domain = (if domain = kSystem then fst R else snd R)"

definition regions_apart :: "(nat \<times> nat) \<times> (nat \<times> nat) \<Rightarrow> bool" where
  "regions_apart R \<longleftrightarrow> snd (fst R) \<le> fst (snd R) \<or> snd (snd R) \<le> fst (fst R)"

text \<open>An object that owns an address range and a group of allocations and nothing else.\<close>

definition plain_object :: "runtime \<Rightarrow> alloc_group set \<Rightarrow> GpuMemory \<Rightarrow> bool" where
  "plain_object rt L m \<longleftrightarrow>
     mem_fd m = -1 \<and> gm_handle_ape_addr m = 0 \<and> gm_gpu_addr m \<noteq> 0 \<and>
     \<not> is_queue_referenced (gm_flags m) \<and> \<not> is_imported_vram_ipc (gm_flags m) \<and>
     mgr_live (rt_mgr (gm_domain m) rt) (gm_gpu_addr m) = Some (gm_size m) \<and> (\<exists>g\<in>L. owns m g)"

definition entry_ok :: "mem_state \<Rightarrow> u64 \<Rightarrow> Allocation \<Rightarrow> bool" where
  "entry_ok st p a \<longleftrightarrow> al_dmabuf_fd a < 0 \<and>
     (\<exists>i m. ms_objs st (al_handle a) = Some (i, m) \<and> i < length (ms_devs st) \<and> gm_gpu_addr m = p \<and>
        plain_object (ms_rt st) (alloc_live (ms_tr st)) m)"

definition obj_at :: "mem_state \<Rightarrow> u64 \<Rightarrow> GpuMemory option" where
  "obj_at st p = Option.bind (map_of (allocation_map st) p) (\<lambda>a. map_option snd (ms_objs st (al_handle a)))"

definition mem_held :: "mem_state \<Rightarrow> u64 \<rightharpoonup> u64" where
  "mem_held st p = map_option gm_size (obj_at st p)"

text \<open>The state without its objects, and the objects of the map.\<close>

definition base_ok :: "mem_env \<Rightarrow> (nat \<times> nat) \<times> (nat \<times> nat) \<Rightarrow> mem_state \<Rightarrow> bool" where
  "base_ok me R st \<longleftrightarrow>
     kernel_ok (me_dx me) \<and> regions_apart R \<and> dxg_open st \<and> rt_zfb_support (ms_rt st) = 0 \<and>
     (\<forall>d\<in>set (ms_devs st). big_pages_ok d) \<and>
     unat (ms_num_nodes st) \<le> Suc (length (ms_devs st)) \<and>
     (\<forall>d. mgr_ok (region R d) (rt_mgr d (ms_rt st))) \<and> groups_sep (alloc_live (ms_tr st))"

definition objects_ok :: "mem_state \<Rightarrow> bool" where
  "objects_ok st \<longleftrightarrow>
     (\<forall>hn\<ge>ms_next st. ms_objs st hn = None) \<and> omap_ok (allocation_map st) \<and>
     (\<forall>p a. map_of (allocation_map st) p = Some a \<longrightarrow> entry_ok st p a) \<and>
     (\<forall>p q m m' g. obj_at st p = Some m \<longrightarrow> obj_at st q = Some m' \<longrightarrow> p \<noteq> q \<longrightarrow> owns m g \<longrightarrow> \<not> owns m' g)"

definition mem_inv :: "mem_env \<Rightarrow> (nat \<times> nat) \<times> (nat \<times> nat) \<Rightarrow> mem_state \<Rightarrow> bool" where
  "mem_inv me R st \<longleftrightarrow> base_ok me R st \<and> objects_ok st"

lemma obj_at_entry:
  assumes "objects_ok st" "obj_at st p = Some m"
  obtains a i where "map_of (allocation_map st) p = Some a" "ms_objs st (al_handle a) = Some (i, m)" "i < length (ms_devs st)"
    "al_dmabuf_fd a < 0" "gm_gpu_addr m = p" "plain_object (ms_rt st) (alloc_live (ms_tr st)) m"
proof -
  from assms(2) obtain a where a: "map_of (allocation_map st) p = Some a" "map_option snd (ms_objs st (al_handle a)) = Some m"
    by (auto simp: obj_at_def bind_eq_Some_conv)
  with assms(1) have "entry_ok st p a" by (simp add: objects_ok_def)
  with a that show thesis by (auto simp: entry_ok_def)
qed

lemma obj_at_None: "objects_ok st \<Longrightarrow> obj_at st p = None \<longleftrightarrow> map_of (allocation_map st) p = None"
  by (cases "map_of (allocation_map st) p") (fastforce simp: obj_at_def objects_ok_def entry_ok_def)+

lemma rt_mgr_set_cases: "rt_mgr d (set_mgr domain m rt) = (if (d = kSystem) = (domain = kSystem) then m else rt_mgr d rt)"
  by (auto simp: rt_mgr_def set_mgr_def)

lemma region_eq: "(d = kSystem) = (domain = kSystem) \<Longrightarrow> region R d = region R domain \<and> rt_mgr d rt = rt_mgr domain rt"
  by (auto simp: region_def rt_mgr_def)

lemma mgr_live_region:
  assumes "mgr_ok r m" "mgr_live m a = Some n"
  shows "fst r \<le> unat a" "0 < unat n" "unat a + unat n \<le> snd r" "0 < fst r" "snd r < 2 ^ 64"
proof -
  from assms obtain v where v: "va_inv (fst r) (snd r) v" "va_live v a = Some n"
    by (auto simp: mgr_ok_def mgr_live_def va_state_def)
  with va_ranges [OF v(1)] show "fst r \<le> unat a" "0 < unat n" "unat a + unat n \<le> snd r" "0 < fst r" "snd r < 2 ^ 64"
    unfolding ranges_ok_def va_inv_def by blast+
qed

lemma mgr_live_disjoint:
  assumes "mgr_ok r m" "mgr_live m a = Some n" "mgr_live m b = Some k" "a \<noteq> b"
  shows "unat a + unat n \<le> unat b \<or> unat b + unat k \<le> unat a"
proof -
  from assms obtain v where v: "va_inv (fst r) (snd r) v" "va_live v a = Some n" "va_live v b = Some k"
    by (auto simp: mgr_ok_def mgr_live_def va_state_def)
  from ranges_ok_disjoint [OF va_ranges [OF v(1)] v(2,3) assms(4)] show ?thesis .
qed

text \<open>What one step on one manager leaves of the state.\<close>

lemma base_ok_put:
  assumes base: "base_ok me R st" and i: "i < length (ms_devs st)" and fr: "same_but_mgr d (world_of i st) w"
    and mgr: "mgr_ok (region R d) (rt_mgr d (w_rt w))" and g: "groups_sep (alloc_live (w_tr w))"
  shows "base_ok me R (put_world i w st)"
    and "(d' = kSystem) \<noteq> (d = kSystem) \<Longrightarrow> rt_mgr d' (w_rt w) = rt_mgr d' (ms_rt st)"
proof -
  from fr obtain m v where rt: "w_rt w = set_mgr d m (ms_rt st)" and dv: "w_dev w = (ms_devs st ! i)\<lparr>page_fence_value := v\<rparr>"
    by (auto simp: same_but_mgr_def world_of_def)
  have "big_pages_ok (w_dev w)" using base i dv by (auto simp: base_ok_def big_pages_ok_def)
  then have "\<forall>x\<in>set ((ms_devs st)[i := w_dev w]). big_pages_ok x"
    using base by (auto simp: base_ok_def dest!: set_update_subset_insert [THEN subsetD])
  moreover have "mgr_ok (region R x) (rt_mgr x (w_rt w))" for x
  proof (cases "(x = kSystem) = (d = kSystem)")
    case True
    from region_eq [OF this, of R "w_rt w"] mgr show ?thesis by simp
  next
    case False
    with rt have "rt_mgr x (w_rt w) = rt_mgr x (ms_rt st)" by (simp add: rt_mgr_set_cases)
    with base show ?thesis by (simp add: base_ok_def)
  qed
  moreover have "dxg_open (put_world i w st)" "rt_zfb_support (w_rt w) = 0"
    using base rt by (simp_all add: base_ok_def dxg_open_def put_world_def set_mgr_def)
  ultimately show "base_ok me R (put_world i w st)" using base g by (simp add: base_ok_def put_world_def)
  show "(d' = kSystem) \<noteq> (d = kSystem) \<Longrightarrow> rt_mgr d' (w_rt w) = rt_mgr d' (ms_rt st)" using rt by (auto simp: rt_mgr_set_cases)
qed

lemma plain_object_step:
  assumes "plain_object rt L m" "(\<And>g. owns m g \<Longrightarrow> g \<in> L \<Longrightarrow> g \<in> L')"
    and "mgr_live (rt_mgr (gm_domain m) rt') (gm_gpu_addr m) = mgr_live (rt_mgr (gm_domain m) rt) (gm_gpu_addr m)"
  shows "plain_object rt' L' m"
  using assms unfolding plain_object_def by metis

lemma owns_unique: "owns m g \<Longrightarrow> owns m g' \<Longrightarrow> g = g'"
  by (simp add: owns_def prod_eq_iff)

text \<open>No object of the map has an address that a manager has free.\<close>

lemma no_clash:
  assumes inv: "mem_inv me R st" and free: "mgr_live (rt_mgr d (ms_rt st)) p = None"
    and new: "mgr_ok (region R d) m'" "mgr_live m' p = Some n"
  shows "obj_at st p = None"
proof (rule ccontr)
  assume "obj_at st p \<noteq> None"
  then obtain m where m: "obj_at st p = Some m" by blast
  have ok: "objects_ok st" and base: "base_ok me R st" using inv by (simp_all add: mem_inv_def)
  from obj_at_entry [OF ok m] have l: "mgr_live (rt_mgr (gm_domain m) (ms_rt st)) p = Some (gm_size m)"
    by (metis plain_object_def)
  show False
  proof (cases "(gm_domain m = kSystem) = (d = kSystem)")
    case True
    from region_eq [OF this] l free show False by (metis option.distinct(1))
  next
    case False
    have "mgr_ok (region R (gm_domain m)) (rt_mgr (gm_domain m) (ms_rt st))" using base by (simp add: base_ok_def)
    from mgr_live_region [OF this l] mgr_live_region [OF new] base False show False
      by (auto simp: base_ok_def regions_apart_def region_def split: if_splits)
  qed
qed

lemma groups_sep_insert:
  assumes "groups_sep L" "fresh_group g L" "owns m g"  "num_allocations m \<noteq> 0"
  shows "groups_sep (insert g L)" and "g \<notin> L"
proof -
  show "g \<notin> L" using assms(2) unfolding fresh_group_def names_group_def by (metis (full_types))
  have "snd g \<noteq> []" using assms(3,4) by (auto simp: owns_def unat_eq_zero)
  with assms show "groups_sep (insert g L)"
    unfolding groups_sep_def groups_ok_def fresh_group_def by (auto simp: owns_def)
qed

lemma groups_sep_remove:
  assumes "groups_sep L" "g \<in> L"
  shows "groups_sep (L - {g})" and "fresh_group g (L - {g})" and "L = insert g (L - {g})"
  using assms unfolding groups_sep_def groups_ok_def fresh_group_def by auto

text \<open>A step that failed and left the ranges and the allocations as they were.\<close>

lemma mem_inv_untouched:
  assumes inv: "mem_inv me R st" and i: "i < length (ms_devs st)" and un: "untouched d (world_of i st) w"
    and mgr: "mgr_ok (region R d) (rt_mgr d (w_rt w))"
  shows "mem_inv me R (put_world i w st)" and "obj_at (put_world i w st) = obj_at st"
proof -
  have w: "w_rt (world_of i st) = ms_rt st" "w_tr (world_of i st) = ms_tr st" by (simp_all add: world_of_def)
  have un': "same_but_mgr d (world_of i st) w" "mgr_live (rt_mgr d (w_rt w)) = mgr_live (rt_mgr d (ms_rt st))"
    "alloc_live (w_tr w) = alloc_live (ms_tr st)" using un by (simp_all add: untouched_def w)
  have base: "base_ok me R st" "objects_ok st" using inv by (simp_all add: mem_inv_def)
  have g: "groups_sep (alloc_live (w_tr w))" using base un'(3) by (simp add: base_ok_def)
  have lv: "mgr_live (rt_mgr x (w_rt w)) = mgr_live (rt_mgr x (ms_rt st))" for x
    using base_ok_put(2) [OF base(1) i un'(1) mgr g, of x] region_eq [of x d R] un'(2) by metis
  show ob: "obj_at (put_world i w st) = obj_at st" by (rule ext) (simp add: obj_at_def put_world_def)
  have "entry_ok (put_world i w st) p a" if "entry_ok st p a" for p a
    using that plain_object_step [OF _ _ lv [THEN fun_cong]] un'(3) by (fastforce simp: entry_ok_def put_world_def)
  then have "objects_ok (put_world i w st)" using base(2) unfolding objects_ok_def ob by (simp add: put_world_def)
  with base_ok_put(1) [OF base(1) i un'(1) mgr g] show "mem_inv me R (put_world i w st)" by (simp add: mem_inv_def)
qed

text \<open>A new object with its entry.\<close>

definition with_object :: "nat \<Rightarrow> world \<Rightarrow> GpuMemory \<Rightarrow> Allocation \<Rightarrow> mem_state \<Rightarrow> mem_state" where
  "with_object i w m a st =
     (put_world i w st)\<lparr>ms_objs := (ms_objs st)(ms_next st \<mapsto> (i, m)), ms_next := Suc (ms_next st),
        allocation_map := omap_put (gm_gpu_addr m) a (allocation_map st)\<rparr>"

lemma mem_inv_created:
  assumes inv: "mem_inv me R st" and i: "i < length (ms_devs st)" and cr: "created ci (world_of i st) m w"
    and mgr: "mgr_ok (region R (ci_domain ci)) (rt_mgr (ci_domain ci) (w_rt w))"
    and a: "al_handle a = ms_next st" "al_dmabuf_fd a < 0"
  shows "mem_inv me R (with_object i w m a st)" and "obj_at st (gm_gpu_addr m) = None"
    and "obj_at (with_object i w m a st) = (obj_at st)(gm_gpu_addr m \<mapsto> m)"
proof -
  let ?d = "ci_domain ci" and ?p = "gm_gpu_addr m" and ?st = "with_object i w m a st"
  have w: "w_rt (world_of i st) = ms_rt st" "w_tr (world_of i st) = ms_tr st" by (simp_all add: world_of_def)
  from cr [unfolded created_def w] obtain g where c: "same_but_mgr ?d (world_of i st) w" "gm_domain m = ?d" "mem_fd m = -1"
      "gm_handle_ape_addr m = 0" "?p \<noteq> 0" "\<not> is_queue_referenced (gm_flags m)" "\<not> is_imported_vram_ipc (gm_flags m)"
      "mgr_live (rt_mgr ?d (ms_rt st)) ?p = None"
      "mgr_live (rt_mgr ?d (w_rt w)) = (mgr_live (rt_mgr ?d (ms_rt st)))(?p \<mapsto> gm_size m)"
    and g: "owns m g" "fresh_group g (alloc_live (ms_tr st))" "alloc_live (w_tr w) = insert g (alloc_live (ms_tr st))" by blast
  have n: "num_allocations m \<noteq> 0" using cr by (simp add: created_def word_gt_0)
  have base: "base_ok me R st" "objects_ok st" using inv by (simp_all add: mem_inv_def)
  have sep: "groups_sep (alloc_live (ms_tr st))" using base by (simp add: base_ok_def)
  note gi = groups_sep_insert [OF sep g(2,1) n, folded g(3)]
  note put = base_ok_put [OF base(1) i c(1) mgr gi(1)]
  show nc: "obj_at st ?p = None" using no_clash [OF inv c(8) mgr] c(9) by simp
  have nx: "ms_objs st (ms_next st) = None" using base(2) by (simp add: objects_ok_def)
  have handle: "al_handle b \<noteq> ms_next st" if "map_of (allocation_map st) q = Some b" for q b
    using base(2) that nx by (fastforce simp: objects_ok_def entry_ok_def)
  have om: "omap_ok (allocation_map st)" using base(2) by (simp add: objects_ok_def)
  have mp: "map_of (allocation_map ?st) = (map_of (allocation_map st))(?p \<mapsto> a)"
    using map_of_omap_put [OF om] by (simp add: with_object_def)
  show ob: "obj_at ?st = (obj_at st)(?p \<mapsto> m)"
  proof
    fix q
    show "obj_at ?st q = ((obj_at st)(?p \<mapsto> m)) q"
      using handle [of q] a(1) unfolding obj_at_def mp
      by (cases "map_of (allocation_map st) q") (auto simp: with_object_def)
  qed
  have lv: "mgr_live (rt_mgr x (w_rt w)) q = mgr_live (rt_mgr x (ms_rt st)) q" if "q \<noteq> ?p" for x q
    using put(2) [of x] region_eq [of x ?d R] c(9) that by (metis fun_upd_other)
  have new: "plain_object (w_rt w) (alloc_live (w_tr w)) m"
    using c g by (auto simp: plain_object_def)
  have old: "plain_object (w_rt w) (alloc_live (w_tr w)) m'" if "plain_object (ms_rt st) (alloc_live (ms_tr st)) m'" "gm_gpu_addr m' \<noteq> ?p" for m'
    using plain_object_step [OF that(1) _ lv [OF that(2)]] g(3) by blast
  have "entry_ok ?st q b" if "map_of (allocation_map ?st) q = Some b" for q b
  proof (cases "q = ?p")
    case True
    with that mp have "b = a" by simp
    with True a i new show ?thesis by (auto simp: entry_ok_def with_object_def put_world_def)
  next
    case False
    with that mp have b: "map_of (allocation_map st) q = Some b" by simp
    with base(2) have "entry_ok st q b" by (simp add: objects_ok_def)
    with handle [OF b] old False show ?thesis by (fastforce simp: entry_ok_def with_object_def put_world_def)
  qed
  moreover have "\<not> owns m' h" if "obj_at ?st p = Some m1" "obj_at ?st q = Some m'" "p \<noteq> q" "owns m1 h" for p q m1 m' h
  proof -
    have in_live: "k \<in> alloc_live (ms_tr st)" if "obj_at st x = Some y" "owns y k" for x y k
      using obj_at_entry [OF base(2) that(1)] that(2) owns_unique by (metis plain_object_def)
    have "g \<notin> alloc_live (ms_tr st)" by (rule groups_sep_insert(2) [OF sep g(2,1) n])
    then have new_group: "\<not> owns y g" if "obj_at st x = Some y" for x y using in_live [OF that] by blast
    have "p = ?p \<and> m1 = m \<and> obj_at st q = Some m' \<or> q = ?p \<and> m' = m \<and> obj_at st p = Some m1 \<or>
        obj_at st p = Some m1 \<and> obj_at st q = Some m'"
      using that(1-3) unfolding ob by (cases "p = ?p"; cases "q = ?p") simp_all
    then consider "m1 = m" "obj_at st q = Some m'" | "m' = m" "obj_at st p = Some m1"
      | "obj_at st p = Some m1" "obj_at st q = Some m'" by blast
    then show ?thesis
    proof cases
      case 1
      with owns_unique [OF g(1)] that(4) new_group show ?thesis by blast
    next
      case 2
      with owns_unique [OF g(1)] that(4) new_group show ?thesis by blast
    next
      case 3
      with base(2) that(3,4) show ?thesis unfolding objects_ok_def by blast
    qed
  qed
  moreover have "\<forall>hn\<ge>ms_next ?st. ms_objs ?st hn = None" using base(2) by (auto simp: objects_ok_def with_object_def)
  moreover have "omap_ok (allocation_map ?st)" using om by (auto simp: with_object_def)
  ultimately have "objects_ok ?st" unfolding objects_ok_def by blast
  moreover have "base_ok me R ?st" using put(1) by (simp add: base_ok_def with_object_def put_world_def dxg_open_def)
  ultimately show "mem_inv me R ?st" by (simp add: mem_inv_def)
qed

text \<open>An object that is gone with its entry.\<close>

definition without_object :: "nat \<Rightarrow> world \<Rightarrow> u64 \<Rightarrow> nat \<Rightarrow> mem_state \<Rightarrow> mem_state" where
  "without_object i w p hn st =
     (put_world i w st)\<lparr>ms_objs := (ms_objs st)(hn := None), allocation_map := omap_erase p (allocation_map st)\<rparr>"

lemma mem_inv_deleted:
  assumes inv: "mem_inv me R st" and i: "i < length (ms_devs st)" and e: "map_of (allocation_map st) p = Some a"
    and o: "ms_objs st (al_handle a) = Some (i, m)" and g: "owns m g"
    and w: "same_but_mgr (gm_domain m) (world_of i st) w"
      "mgr_live (rt_mgr (gm_domain m) (w_rt w)) = (mgr_live (rt_mgr (gm_domain m) (ms_rt st)))(p := None)"
      "alloc_live (w_tr w) = alloc_live (ms_tr st) - {g}"
    and mgr: "mgr_ok (region R (gm_domain m)) (rt_mgr (gm_domain m) (w_rt w))"
  shows "mem_inv me R (without_object i w p (al_handle a) st)"
    and "obj_at (without_object i w p (al_handle a) st) = (obj_at st)(p := None)"
proof -
  let ?d = "gm_domain m" and ?st = "without_object i w p (al_handle a) st"
  have base: "base_ok me R st" "objects_ok st" using inv by (simp_all add: mem_inv_def)
  have sep: "groups_sep (alloc_live (ms_tr st))" using base by (simp add: base_ok_def)
  have "groups_sep (alloc_live (w_tr w))" using sep unfolding w(3) groups_sep_def groups_ok_def by auto
  note put = base_ok_put [OF base(1) i w(1) mgr this]
  have obp: "obj_at st p = Some m" using e o by (simp add: obj_at_def)
  have mp: "map_of (allocation_map ?st) = (map_of (allocation_map st))(p := None)"
    by (simp add: without_object_def map_of_omap_erase)
  have handle: "al_handle b \<noteq> al_handle a" if "map_of (allocation_map st) q = Some b" "q \<noteq> p" for q b
  proof
    assume "al_handle b = al_handle a"
    moreover have "entry_ok st q b" "entry_ok st p a" using base(2) that(1) e by (simp_all add: objects_ok_def)
    ultimately show False using that(2) o by (simp add: entry_ok_def)
  qed
  show ob: "obj_at ?st = (obj_at st)(p := None)"
  proof
    fix q
    show "obj_at ?st q = ((obj_at st)(p := None)) q"
      using handle [of q] unfolding obj_at_def mp
      by (cases "map_of (allocation_map st) q") (auto simp: without_object_def)
  qed
  have lv: "mgr_live (rt_mgr x (w_rt w)) q = mgr_live (rt_mgr x (ms_rt st)) q" if "q \<noteq> p" for x q
    using put(2) [of x] region_eq [of x ?d R] w(2) that by (metis fun_upd_other)
  have "entry_ok ?st q b" if "map_of (allocation_map ?st) q = Some b" for q b
  proof -
    have q: "q \<noteq> p" "map_of (allocation_map st) q = Some b" using that mp by (auto split: if_splits)
    then have "entry_ok st q b" using base(2) by (simp add: objects_ok_def)
    then obtain j m' where j: "al_dmabuf_fd b < 0" "ms_objs st (al_handle b) = Some (j, m')" "j < length (ms_devs st)" "gm_gpu_addr m' = q"
      "plain_object (ms_rt st) (alloc_live (ms_tr st)) m'" unfolding entry_ok_def by blast
    have "obj_at st q = Some m'" using q(2) j(2) by (simp add: obj_at_def)
    then have "\<not> owns m' g" using base(2) obp q(1) g unfolding objects_ok_def by blast
    then have "plain_object (w_rt w) (alloc_live (w_tr w)) m'"
      using plain_object_step [OF j(5) _ lv] j(4) q(1) w(3) by blast
    with j handle [OF q(2,1)] show ?thesis by (auto simp: entry_ok_def without_object_def put_world_def)
  qed
  moreover have "\<not> owns m' h" if "obj_at ?st x = Some m1" "obj_at ?st y = Some m'" "x \<noteq> y" "owns m1 h" for x y m1 m' h
  proof -
    have "obj_at st x = Some m1" "obj_at st y = Some m'" using that(1,2) unfolding ob by (simp_all split: if_splits)
    with base(2) that(3,4) show ?thesis unfolding objects_ok_def by blast
  qed
  moreover have "\<forall>hn\<ge>ms_next ?st. ms_objs ?st hn = None" using base(2) by (auto simp: objects_ok_def without_object_def put_world_def)
  moreover have "omap_ok (allocation_map ?st)" using base(2) by (auto simp: objects_ok_def without_object_def)
  ultimately have "objects_ok ?st" unfolding objects_ok_def by blast
  moreover have "base_ok me R ?st" using put(1) by (simp add: base_ok_def without_object_def put_world_def dxg_open_def)
  ultimately show "mem_inv me R ?st" by (simp add: mem_inv_def)
qed

section \<open>Creation and release of entries\<close>

lemma mem_held_upd:
  "obj_at st' = (obj_at st)(p \<mapsto> m) \<Longrightarrow> mem_held st' = (mem_held st)(p \<mapsto> gm_size m)"
  "obj_at st' = (obj_at st)(p := None) \<Longrightarrow> mem_held st' = (mem_held st)(p := None)"
  "obj_at st' = obj_at st \<Longrightarrow> mem_held st' = mem_held st"
  by (simp_all add: mem_held_def fun_eq_iff)

text \<open>What the calls below leave alone.\<close>

definition same_api :: "mem_state \<Rightarrow> mem_state \<Rightarrow> bool" where
  "same_api st st' \<longleftrightarrow> length (ms_devs st') = length (ms_devs st) \<and> fragment_allocator st' = fragment_allocator st"

lemma same_api_refl [simp]: "same_api st st"
  by (simp add: same_api_def)

lemma alloc_create_post:
  assumes inv: "mem_inv me R st" and i: "i < length (ms_devs st)" and ci: "plain_info ci"
  shows "\<exists>r st'. alloc_create me node sz i flags ci st = Inr (r, st') \<and> mem_inv me R st' \<and> same_api st st' \<and>
    (case r of
       None \<Rightarrow> mem_held st' = mem_held st
     | Some p \<Rightarrow> p \<noteq> 0 \<and> mem_held st p = None \<and>
         (\<exists>n. mem_held st' = (mem_held st)(p \<mapsto> n) \<and> ci_size ci \<le> n \<and> unat n < unat (ci_size ci) + 2097152 \<and>
            (2097152 dvd unat (ci_size ci) \<longrightarrow> n = ci_size ci) \<and> unat (heap_align n (ci_alignment ci)) dvd unat p))"
proof -
  let ?w = "world_of i st" and ?d = "ci_domain ci" and ?env = "me_dx me"
  have base: "base_ok me R st" using inv by (simp add: mem_inv_def)
  then have k: "create_ok ?env" "destroy_ok ?env" "unmap_gpu_ok ?env" "fixed_map_ok ?env" by (simp_all add: base_ok_def kernel_ok_def)
  have bp: "big_pages_ok (w_dev ?w)" using base i by (simp add: base_ok_def world_of_def)
  have mg: "mgr_ok (region R ?d) (rt_mgr ?d (w_rt ?w))" using base by (simp add: base_ok_def world_of_def)
  have go: "groups_ok (alloc_live (w_tr ?w))" using base by (simp add: base_ok_def groups_sep_def world_of_def)
  from CreateGpuMemory_post [OF k plain_info_request [OF bp ci] mg go, of "me_osz me" "me_junk me (ms_next st)"]
  obtain code obj w where
    c: "CreateGpuMemory ?env (me_osz me) (me_junk me (ms_next st)) ci ?w = Inr (code, obj, None, w)"
      "mgr_ok (region R ?d) (rt_mgr ?d (w_rt w))"
      "case obj of None \<Rightarrow> code \<noteq> Success \<and> untouched ?d ?w w
       | Some m \<Rightarrow> code = Success \<and> created ci ?w m w \<and> (\<exists>w''. GpuMemory_dtor ?env m w = Inr w'' \<and> untouched ?d ?w w'')"
    by (elim exE conjE) (rule that)
  show ?thesis
  proof (cases obj)
    case None
    have "alloc_create me node sz i flags ci st = Inr (None, put_world i w st)"
      using c(1) None by (simp add: alloc_create_def create_obj_def Let_def)
    moreover have "untouched ?d ?w w" using c(3) None by simp
    note un = mem_inv_untouched [OF inv i this c(2)]
    moreover have "same_api st (put_world i w st)" by (simp add: same_api_def put_world_def)
    ultimately show ?thesis using mem_held_upd(3) [OF un(2)] by simp
  next
    case (Some m)
    then have cr: "created ci ?w m w" using c(3) by simp
    have p: "\<not> ci_physical_only ci" "\<not> ci_dmabuf_fd ci > 0" using ci by (simp_all add: plain_info_def)
    define a where "a = new_Allocation (ms_next st) (gm_gpu_addr m) (gm_gpu_addr m) (ci_size ci) False 0 sz
      (if mf flags GTTAccess then 0 else node) flags"
    have run: "alloc_create me node sz i flags ci st = Inr (Some (gm_gpu_addr m), with_object i w m a st)"
      using c(1) Some p by (simp add: alloc_create_def create_obj_def get_obj_def Let_def with_object_def a_def put_world_def)
    have "al_handle a = ms_next st" "al_dmabuf_fd a < 0" by (simp_all add: a_def new_Allocation_def)
    note st' = mem_inv_created [OF inv i cr c(2) this]
    have fr: "same_api st (with_object i w m a st)" by (simp add: same_api_def with_object_def put_world_def)
    have h: "mem_held st (gm_gpu_addr m) = None" using st'(2) by (simp add: mem_held_def)
    have f: "gm_gpu_addr m \<noteq> 0" "unat (heap_align (gm_size m) (ci_alignment ci)) dvd unat (gm_gpu_addr m)"
      "gm_size m = AdjustSize (w_dev ?w) ?d (ci_size ci)" using cr unfolding created_def by blast+
    have "unat (ci_size ci) + 2097152 < 2 ^ 64" using ci by (simp add: plain_info_def)
    note b = AdjustSize_bounds [OF bp this, of ?d, folded f(3)]
    have "mem_held (with_object i w m a st) = (mem_held st)(gm_gpu_addr m \<mapsto> gm_size m)" by (rule mem_held_upd(1) [OF st'(3)])
    with f(1,2) b(1,2,4) h have "gm_gpu_addr m \<noteq> 0 \<and> mem_held st (gm_gpu_addr m) = None \<and>
        (\<exists>n. mem_held (with_object i w m a st) = (mem_held st)(gm_gpu_addr m \<mapsto> n) \<and> ci_size ci \<le> n \<and>
           unat n < unat (ci_size ci) + 2097152 \<and> (2097152 dvd unat (ci_size ci) \<longrightarrow> n = ci_size ci) \<and>
           unat (heap_align n (ci_alignment ci)) dvd unat (gm_gpu_addr m))"
      by (intro conjI exI [of _ "gm_size m"]) (simp_all add: word_le_nat_alt)
    with run st'(1) fr show ?thesis
      by (intro exI [of _ "Some (gm_gpu_addr m)"] exI [of _ "with_object i w m a st"]) (simp only: option.case simp_thms)
  qed
qed

lemma free_direct_post:
  assumes inv: "mem_inv me R st"
  shows "\<exists>st'. free_direct me p st =
      Inr (if p = 0 then HSAKMT_STATUS_INVALID_PARAMETER else if mem_held st p = None then HSAKMT_STATUS_ERROR
           else HSAKMT_STATUS_SUCCESS, st') \<and> mem_inv me R st' \<and> same_api st st' \<and> mem_held st' = (mem_held st)(p := None)"
proof -
  have base: "base_ok me R st" "objects_ok st" using inv by (simp_all add: mem_inv_def)
  have op: "dxg_open st" using base by (simp add: base_ok_def)
  show ?thesis
  proof (cases "obj_at st p")
    case None
    then have h: "mem_held st p = None" by (simp add: mem_held_def)
    with None op obj_at_None [OF base(2)] show ?thesis by (auto simp: free_direct_def fun_upd_idem inv)
  next
    case (Some m)
    from obj_at_entry [OF base(2) Some] obtain a i where
      a: "map_of (allocation_map st) p = Some a" "ms_objs st (al_handle a) = Some (i, m)" "i < length (ms_devs st)"
        "al_dmabuf_fd a < 0" "gm_gpu_addr m = p" "plain_object (ms_rt st) (alloc_live (ms_tr st)) m" by blast
    then obtain g where g: "g \<in> alloc_live (ms_tr st)" "owns m g" and pl: "mem_fd m = -1" "gm_handle_ape_addr m = 0" "p \<noteq> 0"
        "\<not> is_queue_referenced (gm_flags m)" "\<not> is_imported_vram_ipc (gm_flags m)" by (auto simp: plain_object_def)
    have sep: "groups_sep (alloc_live (ms_tr st))" and mg: "mgr_ok (region R (gm_domain m)) (rt_mgr (gm_domain m) (ms_rt st))"
      and k: "fixed_map_ok (me_dx me)" "destroy_ok (me_dx me)"
      using base(1) by (simp_all add: base_ok_def kernel_ok_def)
    note gs = groups_sep_remove [OF sep g(1)]
    have w: "w_rt (world_of i st) = ms_rt st" "w_tr (world_of i st) = ms_tr st" by (simp_all add: world_of_def)
    from dtor_owner [OF k pl(1,2) g(2) mg [folded w] gs(2) [folded w(2)] gs(3) [folded w(2)]] obtain w' where
      d: "GpuMemory_dtor (me_dx me) m (world_of i st) = Inr w'" "mgr_ok (region R (gm_domain m)) (rt_mgr (gm_domain m) (w_rt w'))"
        "mgr_live (rt_mgr (gm_domain m) (w_rt w')) = (mgr_live (rt_mgr (gm_domain m) (ms_rt st)))(p := None)"
        "alloc_live (w_tr w') = alloc_live (ms_tr st) - {g}" "same_but_mgr (gm_domain m) (world_of i st) w'"
      unfolding w a(5) by blast
    note st' = mem_inv_deleted [OF inv a(3,1,2) g(2) d(5,3,4,2)]
    have id: "set_obj (al_handle a) m st = st" using a(2) by (simp add: set_obj_def fun_upd_idem)
    have "free_direct me p st = Inr (HSAKMT_STATUS_SUCCESS, without_object i w' p (al_handle a) st)"
      using op pl a d(1)
      by (simp add: free_direct_def get_obj_def id delete_obj_def world_of_def put_world_def without_object_def)
    moreover have "same_api st (without_object i w' p (al_handle a) st)"
      by (simp add: same_api_def without_object_def put_world_def)
    moreover have "mem_held st p \<noteq> None" using Some by (simp add: mem_held_def)
    ultimately show ?thesis using st'(1) mem_held_upd(2) [OF st'(2)] pl(3) by auto
  qed
qed

section \<open>Requests\<close>

lemma mf_mf_set: "mf (mf_set f flags) f' \<longleftrightarrow> f = f' \<or> mf flags f'"
proof -
  have "mf_pos f' < 32" "mf_pos f = mf_pos f' \<longleftrightarrow> f = f'" by (cases f'; simp) (cases f; cases f'; simp)
  then show ?thesis by (auto simp: mf_def mf_set_def bit_or_iff bit_exp_iff possible_bit_def)
qed

lemma mf_zero [simp]: "\<not> mf 0 f"
  by (simp add: mf_def)

text \<open>
  The requests for ordinary memory: it is to have an address that the library chooses, and its
  own backing, and it is not shared through a file.
\<close>

definition plain_flags :: "u32 \<Rightarrow> u64 \<Rightarrow> u32 \<Rightarrow> bool" where
  "plain_flags node sz flags \<longleftrightarrow>
     \<not> mf flags FixedAddress \<and> \<not> mf (alloc_flags flags sz) OnlyAddress \<and> \<not> mf flags NoAddress \<and> \<not> mf flags Contiguous \<and>
     (mf flags NonPaged \<longrightarrow> mf flags GTTAccess \<or> \<not> (node = 0 \<and> mf flags HostAccess))"

definition plain_size :: "u64 \<Rightarrow> u64 \<Rightarrow> bool" where
  "plain_size sz alignment \<longleftrightarrow>
     0 < unat sz \<and> unat sz \<le> 2 ^ 61 \<and> 4096 dvd unat alignment \<and> unat alignment \<le> 2 ^ 61"

lemma mem_inv_trace:
  assumes "mem_inv me R st" "alloc_live tr = alloc_live (ms_tr st)"
  shows "mem_inv me R (st\<lparr>ms_tr := tr\<rparr>)" "mem_held (st\<lparr>ms_tr := tr\<rparr>) = mem_held st"
  using assms
  by (simp_all add: mem_inv_def base_ok_def objects_ok_def entry_ok_def obj_at_def mem_held_def dxg_open_def fun_eq_iff)

lemma isSystemMemoryAvailable_post:
  assumes "mem_inv me R st"
  shows "\<exists>ok st'. isSystemMemoryAvailable me sz st = (ok, st') \<and> mem_inv me R st' \<and> same_api st st' \<and>
    mem_held st' = mem_held st \<and> ms_rt st' = ms_rt st"
proof -
  obtain s vs where e: "me_dx me (ms_tr st) Sysinfo = (s, vs)" by fastforce
  have al: "alloc_live (ms_tr st @ [(Sysinfo, s, vs)]) = alloc_live (ms_tr st)" by (simp add: alloc_live_snoc)
  from e mem_inv_trace [OF assms al] show ?thesis
    by (auto simp: isSystemMemoryAvailable_def dx_def dxc_def Let_def same_api_def)
qed

lemma get_wddmdev_total:
  assumes "mem_inv me R st"
  shows "get_wddmdev st node = Inr None \<or> (\<exists>i. get_wddmdev st node = Inr (Some i) \<and> i < length (ms_devs st))"
proof -
  have "unat (ms_num_nodes st) \<le> Suc (length (ms_devs st))" using assms by (simp add: mem_inv_def base_ok_def)
  moreover have "0 < unat node" if "node \<noteq> 0" using that by (simp add: unat_gt_0)
  ultimately show ?thesis by (auto simp: get_wddmdev_def word_le_nat_alt not_le)
qed

lemma alloc_request_post:
  assumes inv: "mem_inv me R st" and f: "plain_flags node sz flags" and z: "plain_size sz alignment"
  shows "\<exists>r st'. alloc_request me node sz alignment flags 0 st = (Inr r, st') \<and> mem_inv me R st' \<and> same_api st st' \<and>
    mem_held st' = mem_held st \<and>
    (case r of
       Inl status \<Rightarrow> status \<noteq> HSAKMT_STATUS_SUCCESS
     | Inr (i, fl, ci, skip) \<Rightarrow> i < length (ms_devs st') \<and> \<not> skip \<and> plain_info ci \<and> ci_size ci = sz \<and> ci_alignment ci = alignment)"
proof -
  have zfb: "rt_zfb_support (ms_rt st) = 0" using inv by (simp add: mem_inv_def base_ok_def)
  let ?node = "if node = 0 then rt_default_node (ms_rt st) else node"
  have fl: "alloc_flags flags sz = flags" using f by (auto simp: plain_flags_def alloc_flags_def mf_mf_set split: if_splits)
  let ?sys = "wants_system (ms_rt st) node flags"
  have ci: "plain_info (alloc_create_info ?sys flags sz alignment 0)" "ci_size (alloc_create_info ?sys flags sz alignment 0) = sz"
    "ci_alignment (alloc_create_info ?sys flags sz alignment 0) = alignment"
    "\<not> ci_virtual_alloc (alloc_create_info ?sys flags sz alignment 0)"
    "\<not> ci_physical_only (alloc_create_info ?sys flags sz alignment 0)"
    "\<not> ci_physical_contiguous (alloc_create_info ?sys flags sz alignment 0)"
    using f z zfb fl
    by (auto simp: plain_info_def alloc_create_info_def plain_flags_def plain_size_def new_GpuMemoryCreateInfo_def wants_system_def)
  from get_wddmdev_total [OF inv, of ?node] show ?thesis
  proof (elim disjE exE conjE)
    assume "get_wddmdev st ?node = Inr None"
    with inv show ?thesis by (simp add: alloc_request_def Let_def)
  next
    fix i assume g: "get_wddmdev st ?node = Inr (Some i)" and i: "i < length (ms_devs st)"
    obtain ok st' where a: "(if ?sys \<and> rt_check_avail_sysram (ms_rt st) then isSystemMemoryAvailable me sz st else (True, st)) = (ok, st')"
      "mem_inv me R st'" "same_api st st'" "mem_held st' = mem_held st" "ms_rt st' = ms_rt st"
      using isSystemMemoryAvailable_post [OF inv, of sz] inv
      by (cases "?sys \<and> rt_check_avail_sysram (ms_rt st)") auto
    show ?thesis
    proof (cases "?sys \<and> sz > rt_max_single_alloc_size (ms_rt st) \<or> \<not> ok")
      case True
      then show ?thesis using g a inv fl by (auto simp: alloc_request_def Let_def)
    next
      case False
      have "alloc_request me node sz alignment flags 0 st =
          (Inr (Inr (i, flags, alloc_create_info ?sys flags sz alignment 0, False)), st')"
        using g a(1,5) zfb False ci(4-6) fl by (simp add: alloc_request_def Let_def)
      moreover have "i < length (ms_devs st')" using i a(3) by (simp add: same_api_def)
      ultimately show ?thesis using a ci(1-3) by simp
    qed
  qed
qed

section \<open>The sub-allocator on the library's blocks\<close>

definition api_inv :: "mem_env \<Rightarrow> (nat \<times> nat) \<times> (nat \<times> nat) \<Rightarrow> mem_state \<Rightarrow> bool" where
  "api_inv me R st \<longleftrightarrow> mem_inv me R st \<and> sh_rel BlockAllocator_block_size (mem_held st) (fragment_allocator st)"

lemma mem_held_ranges:
  assumes inv: "mem_inv me R st"
  shows "ranges_ok 1 (2 ^ 64 - 1) (mem_held st)"
proof -
  have base: "base_ok me R st" "objects_ok st" using inv by (simp_all add: mem_inv_def)
  have ob: "mgr_live (rt_mgr (gm_domain m) (ms_rt st)) p = Some (gm_size m)" if "obj_at st p = Some m" for p m
    using obj_at_entry [OF base(2) that] by (metis plain_object_def)
  have mg: "mgr_ok (region R d) (rt_mgr d (ms_rt st))" for d using base(1) by (simp add: base_ok_def)
  have "1 \<le> unat p \<and> 0 < unat n \<and> unat p + unat n \<le> 2 ^ 64 - 1" if "mem_held st p = Some n" for p n
  proof -
    from that obtain m where m: "obj_at st p = Some m" "n = gm_size m" by (auto simp: mem_held_def)
    from mgr_live_region [OF mg ob [OF m(1)]] m(2) show ?thesis by simp
  qed
  moreover have "unat p + unat n \<le> unat q \<or> unat q + unat k \<le> unat p"
    if held: "mem_held st p = Some n" "mem_held st q = Some k" and ne: "p \<noteq> q" for p n q k
  proof -
    from held obtain m m' where m: "obj_at st p = Some m" "n = gm_size m" "obj_at st q = Some m'" "k = gm_size m'"
      by (auto simp: mem_held_def)
    note l = ob [OF m(1)] ob [OF m(3)]
    show ?thesis
    proof (cases "(gm_domain m = kSystem) = (gm_domain m' = kSystem)")
      case True
      from region_eq [OF this, of R "ms_rt st"] l have "mgr_live (rt_mgr (gm_domain m') (ms_rt st)) p = Some (gm_size m)" by simp
      from mgr_live_disjoint [OF mg this l(2) ne] m show ?thesis by simp
    next
      case False
      with base(1) mgr_live_region(1,3) [OF mg l(1)] mgr_live_region(1,3) [OF mg l(2)] m show ?thesis
        by (auto simp: base_ok_def regions_apart_def region_def split: if_splits)
    qed
  qed
  ultimately show ?thesis unfolding ranges_ok_def by blast
qed

lemma BlockAllocator_alloc_post:
  assumes inv: "mem_inv me R st" and n: "0 < unat n" "n \<le> BlockAllocator_block_size"
  shows "\<exists>p sz st'. BlockAllocator_alloc me n st = Inr (p, sz, st') \<and> mem_inv me R st' \<and> same_api st st' \<and>
    (if p = 0 then mem_held st' = mem_held st
     else mem_held st p = None \<and> mem_held st' = (mem_held st)(p \<mapsto> sz) \<and> BlockAllocator_block_size \<le> sz \<and>
       unat sz < 2 ^ 62 \<and> 2097152 dvd unat p)"
proof -
  let ?flags = "mf_set NoSubstitute (mf_set CoarseGrain 0)" and ?n = "AlignUp n BlockAllocator_block_size"
  have n128: "?n = 0x8000000"
  proof -
    have b: "0 < unat BlockAllocator_block_size" "unat n + unat BlockAllocator_block_size \<le> 18446744073709551616"
      using n(2) by (simp_all add: BlockAllocator_block_size_def word_le_nat_alt)
    note ab = AlignUp_u64_bounds [OF b]
    from ab(3) obtain q where q: "unat ?n = 134217728 * q" by (auto simp: BlockAllocator_block_size_def elim: dvdE)
    have "0 < unat ?n" "unat ?n < 268435456" using ab(1,2) n by (simp_all add: BlockAllocator_block_size_def word_le_nat_alt)
    with q have "q = 1" by linarith
    with q have "unat ?n = unat (0x8000000 :: u64)" by simp
    then show ?thesis by (simp only: word_unat_eq_iff)
  qed
  have f: "plain_flags 1 0x8000000 ?flags" "plain_size 0x8000000 0"
    by (simp_all add: plain_flags_def plain_size_def alloc_flags_def mf_mf_set)
  from alloc_request_post [OF inv f] obtain r st1 where
    q: "alloc_request me 1 0x8000000 0 ?flags 0 st = (Inr r, st1)" "mem_inv me R st1" "same_api st st1" "mem_held st1 = mem_held st"
      "case r of Inl status \<Rightarrow> status \<noteq> HSAKMT_STATUS_SUCCESS
       | Inr (i, fl, ci, skip) \<Rightarrow> i < length (ms_devs st1) \<and> \<not> skip \<and> plain_info ci \<and> ci_size ci = 0x8000000 \<and> ci_alignment ci = 0"
    by (elim exE conjE) (rule that)
  have op: "dxg_open st" using inv by (simp add: mem_inv_def base_ok_def)
  have fx: "\<not> mf ?flags FixedAddress" by (simp add: mf_mf_set)
  show ?thesis
  proof (cases r)
    case (Inl status)
    then have "BlockAllocator_alloc me n st = Inr (0, 0x8000000, st1)"
      using q(1,5) op fx by (simp add: BlockAllocator_alloc_def Let_def n128 alloc_direct_def)
    with q(2-4) show ?thesis by auto
  next
    case (Inr x)
    then obtain i fl ci skip where r: "r = Inr (i, fl, ci, skip)" by (metis prod_cases4)
    with q(5) have i: "i < length (ms_devs st1)" "plain_info ci" "ci_size ci = 0x8000000" "ci_alignment ci = 0" by auto
    from alloc_create_post [where node = 1 and sz = "0x8000000" and flags = fl, OF q(2) i(1,2)] obtain a st2 where
      c: "alloc_create me 1 0x8000000 i fl ci st1 = Inr (a, st2)" "mem_inv me R st2" "same_api st1 st2"
        "case a of None \<Rightarrow> mem_held st2 = mem_held st1
         | Some p \<Rightarrow> p \<noteq> 0 \<and> mem_held st1 p = None \<and>
             (\<exists>n. mem_held st2 = (mem_held st1)(p \<mapsto> n) \<and> ci_size ci \<le> n \<and> unat n < unat (ci_size ci) + 2097152 \<and>
                (2097152 dvd unat (ci_size ci) \<longrightarrow> n = ci_size ci) \<and> unat (heap_align n (ci_alignment ci)) dvd unat p)"
      by (elim exE conjE) (rule that)
    have run: "BlockAllocator_alloc me n st = Inr (case a of None \<Rightarrow> 0 | Some p \<Rightarrow> p, 0x8000000, st2)"
      using q(1) r c(1) op fx by (simp add: BlockAllocator_alloc_def Let_def n128 alloc_direct_def split: option.split)
    have fr: "same_api st st2" using q(3) c(3) by (simp add: same_api_def)
    show ?thesis
    proof (cases a)
      case None
      with run fr c(2,4) q(4) show ?thesis by simp
    next
      case (Some p)
      with c(4) i(3,4) q(4) have p: "p \<noteq> 0" "mem_held st p = None" "mem_held st2 = (mem_held st)(p \<mapsto> 0x8000000)"
        "unat (heap_align 0x8000000 0) dvd unat p" by auto
      then have "2097152 dvd unat p" by (simp add: heap_align_def GPU_HUGE_PAGE_SIZE_def)
      with p run fr c(2) Some show ?thesis by (simp add: BlockAllocator_block_size_def)
    qed
  qed
qed

lemma ba_block_size_BlockAllocator [simp]: "ba_block_size (BlockAllocator me) = BlockAllocator_block_size"
  by (simp add: BlockAllocator_def)

interpretation blocks: block_source "BlockAllocator me" "\<lambda>st. mem_inv me R st \<and> length (ms_devs st) = k" mem_held "2 ^ 64 - 1"
  for me R k
proof unfold_locales
  show "0 < unat (ba_block_size (BlockAllocator me))" "unat (ba_block_size (BlockAllocator me)) < 2 ^ 61"
    "(2 :: nat) ^ 64 - 1 < 2 ^ 64"
    by (simp_all add: BlockAllocator_def BlockAllocator_block_size_def)
next
  fix st assume "mem_inv me R st \<and> length (ms_devs st) = k"
  then show "ranges_ok 1 (2 ^ 64 - 1) (mem_held st)" using mem_held_ranges by blast
next
  fix st n assume "mem_inv me R st \<and> length (ms_devs st) = k" "0 < unat n" "n \<le> ba_block_size (BlockAllocator me)"
  with BlockAllocator_alloc_post [of me R st n] obtain p sz st' where
    r: "BlockAllocator_alloc me n st = Inr (p, sz, st')" "mem_inv me R st'" "length (ms_devs st') = k"
    "if p = 0 then mem_held st' = mem_held st
     else mem_held st p = None \<and> mem_held st' = (mem_held st)(p \<mapsto> sz) \<and> BlockAllocator_block_size \<le> sz \<and>
       unat sz < 2 ^ 62 \<and> 2097152 dvd unat p" by (auto simp: BlockAllocator_def same_api_def)
  show "\<exists>p sz st'. ba_alloc (BlockAllocator me) n st = Inr (p, sz, st') \<and>
      (mem_inv me R st' \<and> length (ms_devs st') = k) \<and>
      (if p = 0 then mem_held st' = mem_held st
       else mem_held st p = None \<and> mem_held st' = (mem_held st)(p \<mapsto> sz) \<and> ba_block_size (BlockAllocator me) \<le> sz \<and>
         unat sz < 2 ^ 62 \<and> 2097152 dvd unat p)"
    by (rule exI [of _ p], rule exI [of _ sz], rule exI [of _ st']) (use r in \<open>auto simp: BlockAllocator_def split: if_splits\<close>)
next
  fix st p n assume "mem_inv me R st \<and> length (ms_devs st) = k" "mem_held st p = Some n"
  with free_direct_post [of me R st p]
  show "\<exists>st'. ba_free (BlockAllocator me) p n st = Inr st' \<and> (mem_inv me R st' \<and> length (ms_devs st') = k) \<and>
      mem_held st' = (mem_held st)(p := None)"
    by (auto simp: BlockAllocator_def BlockAllocator_free_def same_api_def)
qed

section \<open>The interface as a range allocator\<close>

text \<open>
  What the clients of the interface hold: the fragments of the sub-allocator and the objects of the map, but the
  blocks of the sub-allocator.
\<close>

definition api_live :: "mem_state \<Rightarrow> u64 \<rightharpoonup> u64" where
  "api_live st = others (mem_held st) (sh_held (fragment_allocator st)) ++ sh_live (fragment_allocator st)"

lemma frag_alloc_inv [simp]:
  "mem_inv me R (st\<lparr>fragment_allocator := h\<rparr>) = mem_inv me R st" "mem_held (st\<lparr>fragment_allocator := h\<rparr>) = mem_held st"
  by (simp_all add: mem_inv_def base_ok_def objects_ok_def entry_ok_def obj_at_def mem_held_def dxg_open_def fun_eq_iff)

lemma sh_live_in_block:
  assumes "sh_inv h" "sh_live h a = Some n"
  shows "\<exists>B\<in>set (sh_block_list h). unat (fst B) \<le> unat a \<and> unat a + unat n \<le> unat (fst B) + block_bytes (snd B) \<and> 0 < unat n"
proof -
  from sh_live_split [OF assms] obtain bl1 k xs f ys bl2 where
    bl: "sh_block_list h = bl1 @ (k, xs @ (a, f) # ys) # bl2" and f: "frag_size f = n" by metis
  have ok: "block_ok (k, xs @ (a, f) # ys)" using assms(1) bl by (simp add: sh_inv_def)
  note fr = block_frag [OF ok]
  show ?thesis using bl f fr by (intro bexI [of _ "(k, xs @ (a, f) # ys)"]) auto
qed

lemma live_apart:
  assumes r: "ranges_ok 1 hi L" and rel: "sh_rel bs L h" and a: "sh_live h a = Some n"
    and p: "others L (sh_held h) p = Some k"
  shows "unat a + unat n \<le> unat p \<or> unat p + unat k \<le> unat a" "a \<noteq> p"
proof -
  have inv: "sh_inv h" and ow: "owned bs L (sh_held h)" using rel by (simp_all add: sh_rel_def)
  from sh_live_in_block [OF inv a] obtain B where B: "B \<in> set (sh_block_list h)" "unat (fst B) \<le> unat a"
    "unat a + unat n \<le> unat (fst B) + block_bytes (snd B)" "0 < unat n" by blast
  have e: "(fst B, block_bytes (snd B)) \<in> set (sh_held h)" using B(1) by (auto simp: sh_held_def)
  then have L: "L (fst B) = Some (of_nat (block_bytes (snd B)))" "block_bytes (snd B) < 2 ^ 62"
    using ow by (auto simp: owned_def)
  have u: "unat (of_nat (block_bytes (snd B)) :: u64) = block_bytes (snd B)" using L(2) by (simp add: unat_of_nat)
  have Lp: "L p = Some k" "p \<noteq> fst B" using p e by (force simp: others_def restrict_map_def split: if_splits)+
  from ranges_ok_disjoint [OF r L(1) Lp(1)] Lp(2) u
  have d: "unat (fst B) + block_bytes (snd B) \<le> unat p \<or> unat p + unat k \<le> unat (fst B)" by auto
  with B show "unat a + unat n \<le> unat p \<or> unat p + unat k \<le> unat a" by linarith
  have "0 < unat k" using r Lp(1) unfolding ranges_ok_def by blast
  with d B(2-4) show "a \<noteq> p" by auto
qed

lemma api_live_ranges:
  assumes "api_inv me R st"
  shows "ranges_ok 1 (2 ^ 64 - 1) (api_live st)"
proof -
  let ?h = "fragment_allocator st" and ?L = "mem_held st"
  have inv: "mem_inv me R st" and rel: "sh_rel BlockAllocator_block_size ?L ?h" using assms by (simp_all add: api_inv_def)
  note rL = mem_held_ranges [OF inv]
  have rh: "ranges_ok 1 (2 ^ 64 - 1) (sh_live ?h)" using rel by (intro sh_ranges) (simp add: sh_rel_def)
  have c: "sh_live ?h a = Some n \<or> sh_live ?h a = None \<and> others ?L (sh_held ?h) a = Some n" if "api_live st a = Some n" for a n
    using that by (auto simp: api_live_def map_add_Some_iff)
  have o: "?L a = Some n" if "others ?L (sh_held ?h) a = Some n" for a n
    using that by (auto simp: others_def restrict_map_def split: if_splits)
  have b: "1 \<le> unat a \<and> 0 < unat n \<and> unat a + unat n \<le> 2 ^ 64 - 1" if "ranges_ok 1 (2 ^ 64 - 1) M" "M a = Some n" for M a n
    using that unfolding ranges_ok_def by blast
  have "1 \<le> unat a \<and> 0 < unat n \<and> unat a + unat n \<le> 2 ^ 64 - 1" if "api_live st a = Some n" for a n
    using c [OF that] b [OF rh] b [OF rL o] by blast
  moreover have "unat a + unat n \<le> unat b \<or> unat b + unat m \<le> unat a"
    if l: "api_live st a = Some n" "api_live st b = Some m" and ne: "a \<noteq> b" for a n b m
  proof -
    from c [OF l(1)] c [OF l(2)] consider "sh_live ?h a = Some n" "sh_live ?h b = Some m"
      | "sh_live ?h a = Some n" "others ?L (sh_held ?h) b = Some m" | "others ?L (sh_held ?h) a = Some n" "sh_live ?h b = Some m"
      | "others ?L (sh_held ?h) a = Some n" "others ?L (sh_held ?h) b = Some m" by blast
    then show ?thesis
    proof cases
      case 1 then show ?thesis using ranges_ok_disjoint [OF rh _ _ ne] by blast
    next
      case 2 then show ?thesis using live_apart(1) [OF rL rel] by blast
    next
      case 3 then show ?thesis using live_apart(1) [OF rL rel] by blast
    next
      case 4 then show ?thesis using ranges_ok_disjoint [OF rL o o ne] by blast
    qed
  qed
  ultimately show ?thesis unfolding ranges_ok_def by blast
qed

text \<open>The effect of the steps on what the clients hold.\<close>

lemma api_live_sub:
  assumes "api_inv me R st'" "sh_live h' = (sh_live (fragment_allocator st))(a \<mapsto> n)" "sh_live (fragment_allocator st) a = None"
    and "fragment_allocator st' = h'" "others (mem_held st') (sh_held h') = others (mem_held st) (sh_held (fragment_allocator st))"
  shows "api_live st' = (api_live st)(a \<mapsto> n)" "api_live st a = None"
proof -
  show "api_live st' = (api_live st)(a \<mapsto> n)" using assms(2,4,5) by (simp add: api_live_def)
  have "mem_inv me R st'" "sh_rel BlockAllocator_block_size (mem_held st') h'" using assms(1,4) by (simp_all add: api_inv_def)
  from live_apart(2) [OF mem_held_ranges [OF this(1)] this(2), of a n a] assms(2)
  have "others (mem_held st') (sh_held h') a = None" by (cases "others (mem_held st') (sh_held h') a") auto
  then show "api_live st a = None" using assms(3,5) by (simp add: api_live_def map_add_None)
qed

lemma api_live_direct:
  assumes "api_inv me R st" "mem_inv me R st'" "fragment_allocator st' = fragment_allocator st"
    and "mem_held st p = None" "mem_held st' = (mem_held st)(p \<mapsto> n)"
  shows "api_inv me R st'" "api_live st' = (api_live st)(p \<mapsto> n)" "api_live st p = None"
proof -
  let ?h = "fragment_allocator st"
  have rel: "sh_rel BlockAllocator_block_size (mem_held st) ?h" using assms(1) by (simp add: api_inv_def)
  then have ow: "owned BlockAllocator_block_size (mem_held st) (sh_held ?h)" by (simp add: sh_rel_def)
  have p: "p \<notin> fst ` set (sh_held ?h)" using ow assms(4) by (fastforce simp: owned_def)
  then have "owned BlockAllocator_block_size (mem_held st') (sh_held ?h)"
    using ow unfolding assms(5) by (fastforce simp: owned_def)
  then have rel': "sh_rel BlockAllocator_block_size (mem_held st') ?h" using rel by (simp add: sh_rel_def)
  then show "api_inv me R st'" using assms(2,3) by (simp add: api_inv_def)
  have ot: "others (mem_held st') (sh_held ?h) = (others (mem_held st) (sh_held ?h))(p \<mapsto> n)"
    using p unfolding assms(5) by (auto simp: others_def restrict_map_def fun_eq_iff)
  have s: "sh_live ?h p = None"
    using live_apart(2) [OF mem_held_ranges [OF assms(2)] rel', of p _ p n] ot by (cases "sh_live ?h p") auto
  have "others (mem_held st) (sh_held ?h) p = None" using assms(4) by (simp add: others_def restrict_map_def)
  with s show "api_live st p = None" by (simp add: api_live_def map_add_None)
  show "api_live st' = (api_live st)(p \<mapsto> n)"
    using s unfolding api_live_def assms(3) ot by (auto simp: map_add_def fun_eq_iff split: option.split)
qed

lemma direct_post:
  assumes inv: "api_inv me R st" and i: "i < length (ms_devs st)" and ci: "plain_info ci"
  shows "\<exists>r st'. alloc_create me node sz i flags ci st = Inr (r, st') \<and> api_inv me R st' \<and> length (ms_devs st') = length (ms_devs st) \<and>
    (case r of
       None \<Rightarrow> api_live st' = api_live st
     | Some p \<Rightarrow> \<exists>n. p \<noteq> 0 \<and> api_live st p = None \<and> api_live st' = (api_live st)(p \<mapsto> n) \<and> ci_size ci \<le> n \<and> 4096 dvd unat p)"
proof -
  have mi: "mem_inv me R st" using inv by (simp add: api_inv_def)
  from alloc_create_post [OF mi i ci, where node = node and sz = sz and flags = flags] obtain r st' where
    c: "alloc_create me node sz i flags ci st = Inr (r, st')" "mem_inv me R st'" "same_api st st'"
      "case r of None \<Rightarrow> mem_held st' = mem_held st
       | Some p \<Rightarrow> p \<noteq> 0 \<and> mem_held st p = None \<and>
           (\<exists>n. mem_held st' = (mem_held st)(p \<mapsto> n) \<and> ci_size ci \<le> n \<and> unat n < unat (ci_size ci) + 2097152 \<and>
              (2097152 dvd unat (ci_size ci) \<longrightarrow> n = ci_size ci) \<and> unat (heap_align n (ci_alignment ci)) dvd unat p)"
    by (elim exE conjE) (rule that)
  have fr: "fragment_allocator st' = fragment_allocator st" "length (ms_devs st') = length (ms_devs st)"
    using c(3) by (simp_all add: same_api_def)
  show ?thesis
  proof (cases r)
    case None
    with c inv fr show ?thesis by (simp add: api_inv_def api_live_def)
  next
    case (Some p)
    with c(4) obtain n where p: "p \<noteq> 0" "mem_held st p = None" "mem_held st' = (mem_held st)(p \<mapsto> n)" "ci_size ci \<le> n"
      "unat (heap_align n (ci_alignment ci)) dvd unat p" by auto
    have "4096 dvd unat (heap_align n (ci_alignment ci))"
      using ci by (simp add: heap_align_def GPU_HUGE_PAGE_SIZE_def plain_info_def)
    then have "4096 dvd unat p" using p(5) by (rule dvd_trans)
    with api_live_direct [OF inv c(2) fr(1) p(2,3)] p(1,4) c(1) fr(2) Some show ?thesis
      by (intro exI [of _ r] exI [of _ st']) auto
  qed
qed

lemma trim_suballocator_post:
  assumes inv: "api_inv me R st"
  shows "\<exists>st'. trim_suballocator me st = Inr st' \<and> api_inv me R st' \<and> length (ms_devs st') = length (ms_devs st) \<and>
    api_live st' = api_live st"
proof -
  let ?h = "fragment_allocator st"
  have "mem_inv me R st \<and> length (ms_devs st) = length (ms_devs st)" "sh_rel BlockAllocator_block_size (mem_held st) ?h"
    using inv by (simp_all add: api_inv_def)
  from blocks.trim_post [OF this] obtain h' st' where
    "trim (BlockAllocator me) ?h st = Inr (h', st')" "mem_inv me R st' \<and> length (ms_devs st') = length (ms_devs st)"
    "sh_rel BlockAllocator_block_size (mem_held st') h'" "sh_live h' = sh_live ?h"
    "others (mem_held st') (sh_held h') = others (mem_held st) (sh_held ?h)" by (elim exE conjE) (rule that, (assumption | rule conjI)+)
  then show ?thesis
    by (intro exI [of _ "st'\<lparr>fragment_allocator := h'\<rparr>"]) (simp add: trim_suballocator_def api_inv_def api_live_def)
qed

lemma sub_alloc_post:
  assumes inv: "api_inv me R st" and n: "0 < unat n" "n \<le> BlockAllocator_block_size"
  shows "\<exists>a st'. sub_alloc me n st = Inr (a, st') \<and> api_inv me R st' \<and> length (ms_devs st') = length (ms_devs st) \<and>
    (if a = 0 then api_live st' = api_live st
     else api_live st a = None \<and> api_live st' = (api_live st)(a \<mapsto> n) \<and> unat (req_align n) dvd unat a)"
proof -
  let ?h = "fragment_allocator st"
  have "mem_inv me R st \<and> length (ms_devs st) = length (ms_devs st)" "sh_rel BlockAllocator_block_size (mem_held st) ?h"
    using inv by (simp_all add: api_inv_def)
  from blocks.alloc_post [where me = me, unfolded ba_block_size_BlockAllocator, OF this n] obtain a h' st' where
    r: "sh_alloc (BlockAllocator me) n ?h st = Inr (a, h', st')" "mem_inv me R st' \<and> length (ms_devs st') = length (ms_devs st)"
      "sh_rel BlockAllocator_block_size (mem_held st') h'"
      "if a = 0 then sh_live h' = sh_live ?h
       else sh_live ?h a = None \<and> sh_live h' = (sh_live ?h)(a \<mapsto> n) \<and> unat (req_align n) dvd unat a"
      "others (mem_held st') (sh_held h') = others (mem_held st) (sh_held ?h)" by (elim exE conjE) (rule that, (assumption | rule conjI)+)
  let ?st = "st'\<lparr>fragment_allocator := h'\<rparr>"
  have run: "sub_alloc me n st = Inr (a, ?st)" using r(1) by (simp add: sub_alloc_def)
  have ai: "api_inv me R ?st" using r(2,3) by (simp add: api_inv_def)
  show ?thesis
  proof (cases "a = 0")
    case True
    with run ai r show ?thesis by (simp add: api_live_def)
  next
    case False
    with r(4) have "sh_live ?h a = None" "sh_live h' = (sh_live ?h)(a \<mapsto> n)" "unat (req_align n) dvd unat a" by auto
    with api_live_sub [OF ai, of h' st a n] r(5) run ai False r(2) show ?thesis by auto
  qed
qed

text \<open>The abstract allocator: it takes a range clear of the others, or gives one back.\<close>

definition range_alloc :: "u64 \<Rightarrow> u64 \<Rightarrow> (u64 \<rightharpoonup> u64) \<Rightarrow> (u64 \<rightharpoonup> u64) \<Rightarrow> bool" where
  "range_alloc sz a L L' \<longleftrightarrow> (\<exists>n. a \<noteq> 0 \<and> L a = None \<and> L' = L(a \<mapsto> n) \<and> sz \<le> n \<and> 4096 dvd unat a)"

lemma real_size_bounds:
  assumes "plain_size sz alignment"
  shows "0 < unat (real_size sz)" "sz \<le> real_size sz"
proof -
  have z: "0 < unat sz" "unat sz \<le> 2305843009213693952" using assms(1) by (simp_all add: plain_size_def)
  have "unat sz \<le> unat (AlignUp sz GPU_HUGE_PAGE_SIZE)" "unat sz \<le> unat (AlignUp sz getpagesize)"
    using z(2) by (intro AlignUp_u64_bounds(1); simp add: GPU_HUGE_PAGE_SIZE_def getpagesize_def)+
  then have "unat sz \<le> unat (real_size sz)" by (simp add: real_size_def)
  with z(1) show "0 < unat (real_size sz)" "sz \<le> real_size sz" by (simp_all add: word_le_nat_alt)
qed

lemma req_align_page: "unat (req_align n) dvd unat a \<Longrightarrow> 4096 dvd unat (a :: u64)"
  by (rule dvd_trans [of _ "unat (req_align n)"]) (simp_all add: req_align_def GPU_HUGE_PAGE_SIZE_def DEFAULT_GPU_PAGE_SIZE_def)

lemma api_inv_request:
  assumes "api_inv me R st" "mem_inv me R st'" "same_api st st'" "mem_held st' = mem_held st"
  shows "api_inv me R st'" "api_live st' = api_live st" "length (ms_devs st') = length (ms_devs st)"
  using assms by (simp_all add: api_inv_def api_live_def same_api_def)

text \<open>What an allocation reports and what it does to the ranges.\<close>

definition alloc_outcome :: "mem_env \<Rightarrow> (nat \<times> nat) \<times> (nat \<times> nat) \<Rightarrow> u64 \<Rightarrow> mem_state \<Rightarrow>
    (HSAKMT_STATUS \<times> u64 option \<times> mem_state) res \<Rightarrow> bool" where
  "alloc_outcome me R sz st res \<longleftrightarrow>
     (\<exists>status a st'. res = Inr (status, Some a, st') \<and> api_inv me R st' \<and>
        (if status = HSAKMT_STATUS_SUCCESS then range_alloc sz a (api_live st) (api_live st') else api_live st' = api_live st))"

lemma alloc_outcomeI:
  "api_inv me R st' \<Longrightarrow> range_alloc sz a (api_live st) (api_live st') \<Longrightarrow>
     alloc_outcome me R sz st (Inr (HSAKMT_STATUS_SUCCESS, Some a, st'))"
  "api_inv me R st' \<Longrightarrow> api_live st' = api_live st \<Longrightarrow> status \<noteq> HSAKMT_STATUS_SUCCESS \<Longrightarrow>
     alloc_outcome me R sz st (Inr (status, Some a, st'))"
  by (simp_all add: alloc_outcome_def)

lemma alloc_outcome_live: "api_live st2 = api_live st \<Longrightarrow> alloc_outcome me R sz st2 res = alloc_outcome me R sz st res"
  by (simp only: alloc_outcome_def)

lemma alloc_or_trim_post:
  assumes inv: "api_inv me R st" and i: "i < length (ms_devs st)" and ci: "plain_info ci" "ci_size ci = sz"
  shows "alloc_outcome me R sz st (alloc_or_trim me node sz i flags ci sub d st)"
proof -
  note dp = direct_post [where node = node and sz = sz and flags = flags and ci = ci, OF _ _ ci(1), unfolded ci(2), folded range_alloc_def]
  from dp [OF inv i] obtain r st1 where
    c: "alloc_create me node sz i flags ci st = Inr (r, st1)" "api_inv me R st1" "length (ms_devs st1) = length (ms_devs st)"
      "case r of None \<Rightarrow> api_live st1 = api_live st | Some p \<Rightarrow> range_alloc sz p (api_live st) (api_live st1)"
    by (elim exE conjE) (rule that)
  from trim_suballocator_post [OF c(2)] obtain st2 where
    t: "trim_suballocator me st1 = Inr st2" "api_inv me R st2" "length (ms_devs st2) = length (ms_devs st1)" "api_live st2 = api_live st1"
    by blast
  have "i < length (ms_devs st2)" using i c(3) t(3) by simp
  from dp [OF t(2) this] obtain r' st3 where
    e: "alloc_create me node sz i flags ci st2 = Inr (r', st3)" "api_inv me R st3"
      "case r' of None \<Rightarrow> api_live st3 = api_live st2 | Some p \<Rightarrow> range_alloc sz p (api_live st2) (api_live st3)"
    by (elim exE conjE) (rule that)
  show ?thesis
    using c(1,2,4) t(1,4) e by (auto simp: alloc_or_trim_def alloc_outcomeI split: option.splits)
qed

lemma AllocInternal_post:
  assumes inv: "api_inv me R st" and f: "plain_flags node sz flags" and z: "plain_size sz alignment"
  shows "alloc_outcome me R sz st (hsaKmtAllocMemoryAlignInternal me node sz alignment flags (Some d) skip st)"
proof -
  have mi: "mem_inv me R st" and op: "dxg_open st" using inv by (simp_all add: api_inv_def mem_inv_def base_ok_def)
  have fx: "\<not> mf flags FixedAddress" using f by (simp add: plain_flags_def)
  from alloc_request_post [OF mi f z] obtain r st1 where
    q: "alloc_request me node sz alignment flags 0 st = (Inr r, st1)" "mem_inv me R st1" "same_api st st1" "mem_held st1 = mem_held st"
      "case r of Inl status \<Rightarrow> status \<noteq> HSAKMT_STATUS_SUCCESS
       | Inr (i, fl, ci, sk) \<Rightarrow> i < length (ms_devs st1) \<and> \<not> sk \<and> plain_info ci \<and> ci_size ci = sz \<and> ci_alignment ci = alignment"
    by (elim exE conjE) (rule that)
  note a1 = api_inv_request [OF inv q(2-4)]
  show ?thesis
  proof (cases r)
    case (Inl status)
    with q(1,5) op fx a1 show ?thesis by (simp add: hsaKmtAllocMemoryAlignInternal_def alloc_outcomeI)
  next
    case (Inr x)
    then obtain i fl ci sk where r: "r = Inr (i, fl, ci, sk)" by (metis prod_cases4)
    with q(5) have i: "i < length (ms_devs st1)" "\<not> sk" "plain_info ci" "ci_size ci = sz" by auto
    let ?sub = "\<not> skip \<and> ci_domain ci = kLocal"
    let ?sa = "?sub \<and> real_size sz < BlockAllocator_block_size"
    note n = real_size_bounds [OF z]
    obtain a st2 where s: "(if ?sa then sub_alloc me (real_size sz) st1 else Inr (0, st1)) = Inr (a, st2)" "api_inv me R st2"
        "length (ms_devs st2) = length (ms_devs st1)"
        "if a = 0 then api_live st2 = api_live st1
         else api_live st1 a = None \<and> api_live st2 = (api_live st1)(a \<mapsto> real_size sz) \<and> unat (req_align (real_size sz)) dvd unat a"
      using sub_alloc_post [OF a1(1) n(1)] a1(1) by (cases ?sa) (auto simp: less_imp_le)
    have run: "hsaKmtAllocMemoryAlignInternal me node sz alignment flags (Some d) skip st =
        (if a \<noteq> 0 then Inr (HSAKMT_STATUS_SUCCESS, Some a, st2)
         else alloc_or_trim me node sz i fl ci ?sub (if ?sa then a else 0) st2)"
      using op fx q(1) r s(1) i(2,4) by (cases ?sa) (auto simp: hsaKmtAllocMemoryAlignInternal_def Let_def)
    show ?thesis
    proof (cases "a = 0")
      case False
      have "range_alloc sz a (api_live st) (api_live st2)"
        using False s(4) n(2) a1(2) req_align_page unfolding range_alloc_def by auto
      with run False s(2) show ?thesis by (simp add: alloc_outcomeI)
    next
      case True
      have i2: "i < length (ms_devs st2)" and l2: "api_live st2 = api_live st" using i(1) s(3,4) True a1(2) by simp_all
      have "hsaKmtAllocMemoryAlignInternal me node sz alignment flags (Some d) skip st =
          alloc_or_trim me node sz i fl ci ?sub (if ?sa then a else 0) st2" using run True by (simp only: simp_thms if_False)
      with alloc_or_trim_post [where node = node and flags = fl and sub = ?sub and d = "if ?sa then a else 0", OF s(2) i2 i(3,4)]
      show ?thesis by (simp only: alloc_outcome_live [OF l2])
    qed
  qed
qed

text \<open>
  Releasing: an address the clients hold is given back; an address nobody holds is refused. The address of a
  block of the sub-allocator is neither.
\<close>

definition may_free :: "mem_state \<Rightarrow> u64 \<Rightarrow> bool" where
  "may_free st a \<longleftrightarrow> api_live st a \<noteq> None \<or> mem_held st a = None"

lemma api_live_cases:
  assumes "api_inv me R st" "may_free st a" "sh_live (fragment_allocator st) a = None"
  shows "a \<notin> fst ` set (sh_held (fragment_allocator st))" "mem_held st a = api_live st a"
proof -
  let ?h = "fragment_allocator st"
  have ow: "owned BlockAllocator_block_size (mem_held st) (sh_held ?h)" using assms(1) by (simp add: api_inv_def sh_rel_def)
  have l: "api_live st a = others (mem_held st) (sh_held ?h) a"
    using assms(3) by (simp add: api_live_def map_add_def)
  show a: "a \<notin> fst ` set (sh_held ?h)"
  proof
    assume "a \<in> fst ` set (sh_held ?h)"
    then have "others (mem_held st) (sh_held ?h) a = None" "mem_held st a \<noteq> None"
      using ow by (auto simp: others_def owned_def)
    with assms(2) l show False by (simp add: may_free_def)
  qed
  show "mem_held st a = api_live st a" using l a by (simp add: others_def restrict_map_def)
qed

lemma FreeMemory_post:
  assumes inv: "api_inv me R st" and a: "may_free st a"
  shows "\<exists>st'. hsaKmtFreeMemory me a st =
      Inr (if a = 0 then HSAKMT_STATUS_INVALID_PARAMETER else if api_live st a = None then HSAKMT_STATUS_ERROR
           else HSAKMT_STATUS_SUCCESS, st') \<and> api_inv me R st' \<and> api_live st' = (api_live st)(a := None)"
proof -
  let ?h = "fragment_allocator st"
  have mi: "mem_inv me R st" and op: "dxg_open st" and rel: "sh_rel BlockAllocator_block_size (mem_held st) ?h"
    using inv by (simp_all add: api_inv_def mem_inv_def base_ok_def)
  have z: "api_live st 0 = None"
    using api_live_ranges [OF inv] unfolding ranges_ok_def by (metis not_None_eq not_one_le_zero unsigned_0)
  have "mem_inv me R st \<and> length (ms_devs st) = length (ms_devs st)" using mi by simp
  from blocks.free_post [OF this rel, of a] obtain ok h' st1 where
    f: "sh_free (BlockAllocator me) a ?h st = Inr (ok, h', st1)" "mem_inv me R st1 \<and> length (ms_devs st1) = length (ms_devs st)"
      "sh_rel BlockAllocator_block_size (mem_held st1) h'" "sh_live h' = (sh_live ?h)(a := None)"
      "ok = (a = 0 \<or> sh_live ?h a \<noteq> None)" "others (mem_held st1) (sh_held h') = others (mem_held st) (sh_held ?h)"
    by (elim exE conjE) (rule that, (assumption | rule conjI)+)
  let ?st1 = "st1\<lparr>fragment_allocator := h'\<rparr>"
  have s: "sub_free me a st = Inr (ok, ?st1)" using f(1) by (simp add: sub_free_def)
  have i1: "api_inv me R ?st1" using f(2,3) by (simp add: api_inv_def)
  consider "a = 0" | "a \<noteq> 0" "sh_live ?h a \<noteq> None" | "a \<noteq> 0" "sh_live ?h a = None" by blast
  then show ?thesis
  proof cases
    case 1
    with op inv z show ?thesis by (simp add: hsaKmtFreeMemory_def hsaKmtFreeMemoryInternal_def fun_upd_idem)
  next
    case 2
    then obtain n where n: "sh_live ?h a = Some n" by blast
    have "others (mem_held st) (sh_held ?h) a = None"
      using live_apart(2) [OF mem_held_ranges [OF mi] rel n] by (cases "others (mem_held st) (sh_held ?h) a") auto
    then have "api_live ?st1 = (api_live st)(a := None)"
      using f(4,6) by (auto simp: api_live_def map_add_def fun_eq_iff split: option.split)
    moreover have "api_live st a \<noteq> None" using n by (simp add: api_live_def)
    ultimately show ?thesis
      using 2 op s f(5) i1 by (simp add: hsaKmtFreeMemory_def hsaKmtFreeMemoryInternal_def)
  next
    case 3
    note c = api_live_cases [OF inv a 3(2)]
    have "sub_free me a st = Inr (False, st)"
      using sh_free_unknown [OF _ 3(2), of "BlockAllocator me" st] rel 3(1) by (simp add: sub_free_def sh_rel_def)
    moreover from free_direct_post [OF mi, of a] obtain st2 where
      d: "free_direct me a st = Inr (if a = 0 then HSAKMT_STATUS_INVALID_PARAMETER
          else if mem_held st a = None then HSAKMT_STATUS_ERROR else HSAKMT_STATUS_SUCCESS, st2)"
        "mem_inv me R st2" "same_api st st2" "mem_held st2 = (mem_held st)(a := None)" by blast
    moreover have "api_live st2 = (api_live st)(a := None)" "api_inv me R st2"
    proof -
      have fr: "fragment_allocator st2 = ?h" using d(3) by (simp add: same_api_def)
      have "owned BlockAllocator_block_size (mem_held st2) (sh_held ?h)"
        using rel c(1) unfolding d(4) sh_rel_def owned_def by force
      then show "api_inv me R st2" using d(2) fr rel by (simp add: api_inv_def sh_rel_def)
      show "api_live st2 = (api_live st)(a := None)"
        using 3(2) unfolding api_live_def fr d(4) by (auto simp: others_def restrict_map_def map_add_def fun_eq_iff split: option.split)
    qed
    ultimately show ?thesis
      using 3 op c(2) by (simp add: hsaKmtFreeMemory_def hsaKmtFreeMemoryInternal_def)
  qed
qed

section \<open>Sequences of calls\<close>

datatype api_op =
    Alloc_call u32 u64 u64 u32
  | Free_call u64

fun api_call :: "mem_env \<Rightarrow> api_op \<Rightarrow> mem_state \<Rightarrow> (HSAKMT_STATUS \<times> u64 option \<times> mem_state) res" where
  "api_call me (Alloc_call node sz alignment flags) st = hsaKmtAllocMemoryAlign me node sz alignment flags (Some 0) st"
| "api_call me (Free_call a) st = bindE (hsaKmtFreeMemory me a st) (\<lambda>(status, st). Inr (status, None, st))"

fun client_may :: "mem_state \<Rightarrow> api_op \<Rightarrow> bool" where
  "client_may st (Alloc_call node sz alignment flags) \<longleftrightarrow> plain_flags node sz flags \<and> plain_size sz alignment"
| "client_may st (Free_call a) \<longleftrightarrow> may_free st a"

text \<open>The abstract allocator: its state is the map of the ranges that are held.\<close>

fun range_step :: "api_op \<Rightarrow> HSAKMT_STATUS \<times> u64 option \<Rightarrow> (u64 \<rightharpoonup> u64) \<Rightarrow> (u64 \<rightharpoonup> u64) \<Rightarrow> bool" where
  "range_step (Alloc_call node sz alignment flags) (status, r) L L' \<longleftrightarrow>
     (case r of None \<Rightarrow> False
      | Some a \<Rightarrow> if status = HSAKMT_STATUS_SUCCESS then range_alloc sz a L L' else L' = L)"
| "range_step (Free_call a) (status, r) L L' \<longleftrightarrow>
     L' = L(a := None) \<and> (status = HSAKMT_STATUS_SUCCESS) = (L a \<noteq> None)"

inductive api_reach :: "mem_env \<Rightarrow> mem_state \<Rightarrow> mem_state \<Rightarrow> bool" for me st0 where
  start: "api_reach me st0 st0"
| call: "api_reach me st0 st \<Longrightarrow> client_may st op \<Longrightarrow> api_call me op st = Inr (status, r, st') \<Longrightarrow> api_reach me st0 st'"

lemma api_step:
  assumes inv: "api_inv me R st" and op: "client_may st op"
  shows "\<exists>status r st'. api_call me op st = Inr (status, r, st') \<and> api_inv me R st' \<and>
    range_step op (status, r) (api_live st) (api_live st')"
proof (cases op)
  case (Alloc_call node sz alignment flags)
  with op have "plain_flags node sz flags" "plain_size sz alignment" by simp_all
  from AllocInternal_post [OF inv this, of 0 "rt_sub_allocator (ms_rt st) = 0",
    folded hsaKmtAllocMemoryAlign_def] obtain status a st' where
    "hsaKmtAllocMemoryAlign me node sz alignment flags (Some 0) st = Inr (status, Some a, st')" "api_inv me R st'"
    "if status = HSAKMT_STATUS_SUCCESS then range_alloc sz a (api_live st) (api_live st') else api_live st' = api_live st"
    unfolding alloc_outcome_def by (elim exE conjE) (rule that)
  then show ?thesis
    by (intro exI [of _ status] exI [of _ "Some a"] exI [of _ st']) (simp add: Alloc_call)
next
  case (Free_call a)
  with op have "may_free st a" by simp
  from FreeMemory_post [OF inv this] obtain st' where
    "hsaKmtFreeMemory me a st = Inr (if a = 0 then HSAKMT_STATUS_INVALID_PARAMETER
       else if api_live st a = None then HSAKMT_STATUS_ERROR else HSAKMT_STATUS_SUCCESS, st')"
    "api_inv me R st'" "api_live st' = (api_live st)(a := None)" by blast
  moreover have "api_live st 0 = None"
    using api_live_ranges [OF inv] unfolding ranges_ok_def by (metis not_None_eq not_one_le_zero unsigned_0)
  ultimately show ?thesis unfolding Free_call by auto
qed

lemma api_reach_inv: "api_reach me st0 st \<Longrightarrow> api_inv me R st0 \<Longrightarrow> api_inv me R st"
proof (induction rule: api_reach.induct)
  case (call st op status r st')
  from api_step [OF call.IH [OF call.prems] call.hyps(2)] call.hyps(3) show ?case by auto
qed

text \<open>
  C3. The memory interface refines a range allocator for clients that keep its rules. From a state that satisfies the invariant, after any sequence
  of allowed calls, every further allowed call returns. Allowed are \<^verbatim>\<open>hsaKmtAllocMemoryAlign\<close> for ordinary memory without a fixed address and
  \<^verbatim>\<open>hsaKmtFreeMemory\<close> on an address that is held, or that is not the base of any memory object (so not a second release of a block's base, see \<open>Memory_Faults\<close>). The call returns; it does what the abstract allocator
  does on the map of held ranges (take a new page-aligned range of at least the size, or fail and change
  nothing; give back exactly the range); and the held ranges stay disjoint. Whether the sub-allocator, a new block or
  a new object serves the request, and whether the kernel refuses to create, map or make resident, makes no difference; the kernel is assumed to accept
  every request to destroy an allocation and to unmap addresses, and to give new allocations new handles (\<open>kernel_ok\<close>, part of the invariant).
\<close>

theorem memory_api_refines:
  assumes "api_inv me R st0" and "api_reach me st0 st" and "client_may st op"
  shows "\<exists>status r st'. api_call me op st = Inr (status, r, st') \<and>
    range_step op (status, r) (api_live st) (api_live st') \<and> ranges_ok 1 (2 ^ 64 - 1) (api_live st')"
  using api_step [OF api_reach_inv [OF assms(2,1)] assms(3)] api_live_ranges by blast

definition sample_menv :: mem_env where
  "sample_menv = \<lparr>me_dx = one_resource_env, me_osz = 72, me_share_access = 0, me_junk = \<lambda>_. (kUserQueue, 0)\<rparr>"

definition sample_mem :: mem_state where
  "sample_mem = \<lparr>ms_rt = (w_rt sample_world)\<lparr>rt_open_count := 1, rt_sub_allocator := 1\<rparr>, ms_devs = [device_example],
     ms_num_nodes = 2, ms_tr = [], ms_objs = Map.empty, ms_next = 0, allocation_map = [], fragment_allocator = SimpleHeap\<rparr>"

lemma sample_api_inv: "api_inv sample_menv ((0x100000000, 0x200000000), (0x800000000, 0x1800000000)) sample_mem"
proof -
  have k: "kernel_ok one_resource_env" using one_resource_env_ok by (simp add: kernel_ok_def)
  have p: "big_pages_ok device_example" by (simp add: big_pages_ok_def device_example_def page_multiple_def)
  have m: "mgr_ok (region ((0x100000000, 0x200000000), (0x800000000, 0x1800000000)) d) (rt_mgr d (ms_rt sample_mem))" for d
    using VaMgr_state [of "0x800000000" "0x1000000000" DEFAULT_GPU_PAGE_SIZE] VaMgr_state [of "0x100000000" "0x100000000" DEFAULT_GPU_PAGE_SIZE]
    by (simp add: mgr_ok_def rt_mgr_def sample_world_def sample_mem_def region_def)
  have "dxg_open sample_mem" "rt_zfb_support (ms_rt sample_mem) = 0"
    by (simp_all add: dxg_open_def sample_mem_def sample_world_def new_hsakmtRuntime_def)
  with k p m have "base_ok sample_menv ((0x100000000, 0x200000000), (0x800000000, 0x1800000000)) sample_mem"
    by (simp add: base_ok_def sample_menv_def sample_mem_def regions_apart_def groups_sep_def groups_ok_def alloc_live_def)
  moreover have "objects_ok sample_mem" by (simp add: objects_ok_def sample_mem_def omap_ok_def obj_at_def)
  moreover have "sh_rel BlockAllocator_block_size (mem_held sample_mem) SimpleHeap"
    by (simp add: sh_rel_def sh_inv_def SimpleHeap_def owned_def sh_held_def mm_ok_def free_entries_def)
  ultimately show ?thesis by (simp add: api_inv_def mem_inv_def sample_mem_def)
qed

theorem memory_api_refines_witness:
  "\<exists>status r st'. api_call sample_menv (Alloc_call 1 0x5000 0 0x2000) sample_mem = Inr (status, r, st') \<and>
    range_step (Alloc_call 1 0x5000 0 0x2000) (status, r) (api_live sample_mem) (api_live st') \<and>
    ranges_ok 1 (2 ^ 64 - 1) (api_live st')"
proof -
  have "client_may sample_mem (Alloc_call 1 0x5000 0 0x2000)"
    by (simp add: plain_flags_def plain_size_def alloc_flags_def mf_def bit_numeral_rec)
  from memory_api_refines [OF sample_api_inv api_reach.start this] show ?thesis .
qed

end
