(* ===== verification/Memory_Faults.thy ===== *)
theory Memory_Faults
  imports Memory_Safety
begin

text \<open>
  The entry points the sub-allocator uses, which call back into the allocation functions with the sub-allocator switched
  off, and the requests that the memory interface does not serve as it describes.
\<close>

text \<open>
  The recursion between the memory functions and the sub-allocator is well founded: with the sub-allocator skipped,
  \<^verbatim>\<open>hsaKmtAllocMemoryAlignInternal\<close> and \<^verbatim>\<open>hsaKmtFreeMemoryInternal\<close> are the functions \<open>alloc_direct\<close> and \<open>free_direct\<close>
  that the block allocator is built from, on every input and every state.
\<close>

theorem skip_sub_allocator_direct:
  "hsaKmtAllocMemoryAlignInternal me node sz alignment flags dst True st = alloc_direct me node sz alignment flags dst st \<and>
   hsaKmtFreeMemoryInternal me a True st = free_direct me a st"
proof
  show "hsaKmtAllocMemoryAlignInternal me node sz alignment flags dst True st = alloc_direct me node sz alignment flags dst st"
    by (simp add: hsaKmtAllocMemoryAlignInternal_def alloc_direct_def alloc_or_trim_def Let_def bindE_def
        split: option.split sum.split prod.split)
  show "hsaKmtFreeMemoryInternal me a True st = free_direct me a st"
    by (simp add: hsaKmtFreeMemoryInternal_def free_direct_def)
qed

text \<open>Sequences of calls on the sample state, with the replies.\<close>

fun api_calls :: "mem_env \<Rightarrow> api_op list \<Rightarrow> mem_state \<Rightarrow> ((HSAKMT_STATUS \<times> u64 option) list \<times> mem_state) res" where
  "api_calls me [] st = Inr ([], st)"
| "api_calls me (op # ops) st =
     bindE (api_call me op st) (\<lambda>(status, r, st). bindE (api_calls me ops st) (\<lambda>(rs, st). Inr ((status, r) # rs, st)))"

definition unbacked :: "mem_state \<Rightarrow> u64 \<Rightarrow> bool" where
  "unbacked st a \<longleftrightarrow> list_all (\<lambda>(p, al). a < p \<or> p + al_size al \<le> a) (allocation_map st)"

text \<open>Releasing the base address of a block of the sub-allocator that is not the address of a fragment in use.\<close>

lemma free_block_base:
  assumes inv: "api_inv me R st" and blk: "a \<in> fst ` set (sh_held (fragment_allocator st))"
    and dead: "sh_live (fragment_allocator st) a = None"
  shows "\<exists>st'. hsaKmtFreeMemory me a st = Inr (HSAKMT_STATUS_SUCCESS, st') \<and>
    fragment_allocator st' = fragment_allocator st \<and> mem_held st' = (mem_held st)(a := None) \<and> \<not> api_inv me R st'"
proof -
  let ?h = "fragment_allocator st"
  have mi: "mem_inv me R st" and op: "dxg_open st" and rel: "sh_rel BlockAllocator_block_size (mem_held st) ?h"
    using inv by (simp_all add: api_inv_def mem_inv_def base_ok_def)
  then have held: "mem_held st a \<noteq> None" using blk by (auto simp: sh_rel_def owned_def)
  with mem_held_ranges [OF mi] have nz: "a \<noteq> 0" unfolding ranges_ok_def by force
  have "sub_free me a st = Inr (False, st)"
    using sh_free_unknown [OF _ dead, of "BlockAllocator me" st] rel nz by (simp add: sub_free_def sh_rel_def)
  moreover from free_direct_post [OF mi, of a] held nz obtain st' where
    d: "free_direct me a st = Inr (HSAKMT_STATUS_SUCCESS, st')" "same_api st st'" "mem_held st' = (mem_held st)(a := None)" by auto
  moreover have "\<not> api_inv me R st'"
    using d(2,3) blk by (auto simp: api_inv_def sh_rel_def owned_def same_api_def)
  ultimately show ?thesis using op nz by (simp add: hsaKmtFreeMemory_def hsaKmtFreeMemoryInternal_def same_api_def)
qed

text \<open>
  C24. Releasing a sub-allocated address twice is not always refused. Take any state of the interface and an address in use that is also the base of
  a block of the sub-allocator. The first release succeeds. If it makes the sub-allocator give the block back, the second release is
  refused. If the sub-allocator keeps the block (in its cache, or because other fragments of it are in use), the second release succeeds as well: it destroys the
  memory object of the block, while the sub-allocator keeps the block with the fragments in it, which are then backed by nothing.
\<close>

theorem double_free_unbacked:
  assumes inv: "api_inv me R st" and blk: "a \<in> fst ` set (sh_held (fragment_allocator st))"
    and live: "sh_live (fragment_allocator st) a \<noteq> None"
  shows "\<exists>st1 st2 status. hsaKmtFreeMemory me a st = Inr (HSAKMT_STATUS_SUCCESS, st1) \<and> api_inv me R st1 \<and>
    api_live st1 = (api_live st)(a := None) \<and> hsaKmtFreeMemory me a st1 = Inr (status, st2) \<and>
    (if mem_held st1 a = None then status = HSAKMT_STATUS_ERROR \<and> api_inv me R st2 \<and> api_live st2 = api_live st1
     else status = HSAKMT_STATUS_SUCCESS \<and> fragment_allocator st2 = fragment_allocator st1 \<and>
       a \<in> fst ` set (sh_held (fragment_allocator st2)) \<and> mem_held st2 a = None \<and> \<not> api_inv me R st2)"
proof -
  have al: "api_live st a \<noteq> None" using live by (auto simp: api_live_def)
  then have nz: "a \<noteq> 0" using api_live_ranges [OF inv] unfolding ranges_ok_def by force
  from FreeMemory_post [OF inv, of a] al nz obtain st1 where
    f: "hsaKmtFreeMemory me a st = Inr (HSAKMT_STATUS_SUCCESS, st1)" "api_inv me R st1" "api_live st1 = (api_live st)(a := None)"
    by (auto simp: may_free_def)
  have dead: "sh_live (fragment_allocator st1) a = None" and o: "others (mem_held st1) (sh_held (fragment_allocator st1)) a = None"
    using fun_cong [OF f(3), of a] by (simp_all add: api_live_def)
  show ?thesis
  proof (cases "mem_held st1 a = None")
    case True
    from FreeMemory_post [OF f(2), of a] True f(3) nz obtain st2 where
      "hsaKmtFreeMemory me a st1 = Inr (HSAKMT_STATUS_ERROR, st2)" "api_inv me R st2" "api_live st2 = api_live st1"
      by (auto simp: may_free_def fun_upd_idem)
    with True f show ?thesis by (intro exI [of _ st1] exI [of _ st2] exI [of _ HSAKMT_STATUS_ERROR]) simp
  next
    case False
    with o have b: "a \<in> fst ` set (sh_held (fragment_allocator st1))" by (auto simp: others_def restrict_map_def split: if_splits)
    from free_block_base [OF f(2) b dead] obtain st2 where "hsaKmtFreeMemory me a st1 = Inr (HSAKMT_STATUS_SUCCESS, st2)"
      "fragment_allocator st2 = fragment_allocator st1" "mem_held st2 = (mem_held st1)(a := None)" "\<not> api_inv me R st2" by blast
    with False f b show ?thesis by (intro exI [of _ st1] exI [of _ st2] exI [of _ HSAKMT_STATUS_SUCCESS]) simp
  qed
qed

theorem double_free_unbacked_witness:
  "\<exists>st st1 st2. api_call sample_menv (Alloc_call 1 0x1000 0 0x2000) sample_mem = Inr (HSAKMT_STATUS_SUCCESS, Some 0x800000000, st) \<and>
     hsaKmtFreeMemory sample_menv 0x800000000 st = Inr (HSAKMT_STATUS_SUCCESS, st1) \<and>
     hsaKmtFreeMemory sample_menv 0x800000000 st1 = Inr (HSAKMT_STATUS_SUCCESS, st2) \<and>
     fragment_allocator st2 = fragment_allocator st1 \<and> mem_held st2 0x800000000 = None"
proof -
  let ?op = "Alloc_call 1 0x1000 0 0x2000"
  have "case api_call sample_menv ?op sample_mem of Inl _ \<Rightarrow> False
    | Inr (s, r, st) \<Rightarrow> s = HSAKMT_STATUS_SUCCESS \<and> r = Some 0x800000000 \<and> map fst (sh_block_list (fragment_allocator st)) = [0x800000000] \<and>
        sh_live (fragment_allocator st) 0x800000000 = Some 0x1000 \<and>
        (case hsaKmtFreeMemory sample_menv 0x800000000 st of Inl _ \<Rightarrow> False | Inr (s, st1) \<Rightarrow> mem_held st1 0x800000000 \<noteq> None)"
    by code_simp
  then obtain st where st: "api_call sample_menv ?op sample_mem = Inr (HSAKMT_STATUS_SUCCESS, Some 0x800000000, st)"
    and b: "map fst (sh_block_list (fragment_allocator st)) = [0x800000000]" "sh_live (fragment_allocator st) 0x800000000 = Some 0x1000"
    and h: "case hsaKmtFreeMemory sample_menv 0x800000000 st of Inl _ \<Rightarrow> False | Inr (s, st1) \<Rightarrow> mem_held st1 0x800000000 \<noteq> None"
    by (cases "api_call sample_menv ?op sample_mem") (simp, auto simp del: api_call.simps)
  have "client_may sample_mem ?op" by (simp add: plain_flags_def plain_size_def alloc_flags_def mf_def bit_numeral_rec)
  from api_reach_inv [OF api_reach.call [OF api_reach.start this st] sample_api_inv]
  have inv: "api_inv sample_menv ((0x100000000, 0x200000000), (0x800000000, 0x1800000000)) st" .
  have "0x800000000 \<in> fst ` set (sh_held (fragment_allocator st))" using b(1) by (auto simp: sh_held_def image_iff)
  from double_free_unbacked [OF inv this] b(2) h st show ?thesis by auto
qed

text \<open>What follows in the sample state: the next allocation succeeds with an address in the destroyed block.\<close>

lemma destroyed_block_handed_out:
  "case api_calls sample_menv [Alloc_call 1 0x1000 0 0x2000, Free_call 0x800000000, Free_call 0x800000000,
       Alloc_call 1 0x1000 0 0x2000] sample_mem of
     Inl _ \<Rightarrow> False
   | Inr (replies, st) \<Rightarrow>
       replies = [(HSAKMT_STATUS_SUCCESS, Some 0x800000000), (HSAKMT_STATUS_SUCCESS, None), (HSAKMT_STATUS_SUCCESS, None),
         (HSAKMT_STATUS_SUCCESS, Some 0x800000000)] \<and> unbacked st 0x800000000"
  by code_simp

text \<open>
  The sub-allocator ignores the alignment of a request: \<^verbatim>\<open>hsaKmtAllocMemoryAlign\<close> with an alignment of 1 MB succeeds with an address that
  is a multiple of 4 KB only, where the sub-allocator has a fragment to give.
\<close>

theorem alignment_ignored:
  "case api_calls sample_menv [Alloc_call 1 0x1000 0 0x2000, Alloc_call 1 0x1000 0x100000 0x2000] sample_mem of
     Inl _ \<Rightarrow> False
   | Inr (replies, st) \<Rightarrow> replies ! 1 = (HSAKMT_STATUS_SUCCESS, Some 0x800001000) \<and> (0x800001000 :: u64) mod 0x100000 \<noteq> 0"
  by code_simp

text \<open>
  A request for a fixed address is served at another address: with \<^verbatim>\<open>FixedAddress\<close> set and the address in use by the
  sub-allocator's first block, \<^verbatim>\<open>hsaKmtAllocMemory\<close> reports success and returns the address the sub-allocator has chosen.
\<close>

theorem fixed_address_ignored:
  "mf (mf_set FixedAddress 0x2000) FixedAddress \<and>
   (case hsaKmtAllocMemory sample_menv 1 0x1000 (mf_set FixedAddress 0x2000) (Some 0x900000000) sample_mem of
      Inl _ \<Rightarrow> False
    | Inr (status, r, st) \<Rightarrow> status = HSAKMT_STATUS_SUCCESS \<and> r = Some 0x800000000)"
  by code_simp

text \<open>
  A request for no bytes gets an address that is then given away again: once the sub-allocator has a block, a request
  of size 0 succeeds and takes nothing from the free fragment, so that the next client is given the same address.
\<close>

theorem zero_size_aliases:
  "case api_calls sample_menv [Alloc_call 1 0x1000 0 0x2000, Alloc_call 1 0 0 0x2000, Alloc_call 1 0x1000 0 0x2000] sample_mem of
     Inl _ \<Rightarrow> False
   | Inr (replies, st) \<Rightarrow>
       replies ! 1 = (HSAKMT_STATUS_SUCCESS, Some 0x800001000) \<and> replies ! 2 = (HSAKMT_STATUS_SUCCESS, Some 0x800001000)"
  by code_simp

end
