(* ===== verification/Compute_Queue.thy ===== *)
theory Compute_Queue
  imports Device
begin

text \<open>
  The compute queue of \<^verbatim>\<open>src/src/wddm/queue.cpp\<close> and \<^verbatim>\<open>queue.h\<close>: AQL packets of the ring are
  translated, one frame each, into PM4 packets of a command buffer, merged into one indirect
  buffer and submitted.

  The ring is a list of 64-byte slots, each sixteen double words; \<open>as_dispatch\<close>, \<open>as_barrier\<close>
  and \<open>as_vendor\<close> are the three struct views the code casts a slot to. The command buffer is the list of
  its double words; a store outside it is a fault. What lies outside the queue (kernel code
  objects, signals, scratch memory, the kernel's answers) is the argument \<open>env\<close> of the operations.
\<close>

section \<open>Statuses, slots and views\<close>

datatype hsa_status =
    HSA_STATUS_SUCCESS
  | HSA_STATUS_ERROR
  | HSA_STATUS_ERROR_INVALID_ARGUMENT
  | HSA_STATUS_ERROR_INVALID_ALLOCATION
  | HSA_STATUS_ERROR_OUT_OF_RESOURCES
  | HSA_STATUS_ERROR_INVALID_PACKET_FORMAT
  | HSA_STATUS_ERROR_INCOMPATIBLE_ARGUMENTS
  | HSA_STATUS_ERROR_INVALID_CODE_OBJECT
  | HSA_STATUS_ERROR_EXCEPTION

type_synonym slot = "u32 list"

definition dw :: "slot \<Rightarrow> nat \<Rightarrow> u32" where
  "dw s i = (if i < length s then s ! i else 0)"

definition lo16 :: "u32 \<Rightarrow> u16" where "lo16 x = ucast x"
definition hi16 :: "u32 \<Rightarrow> u16" where "hi16 x = ucast (drop_bit 16 x)"

definition qw :: "slot \<Rightarrow> nat \<Rightarrow> u64" where
  "qw s i = ucast (dw s i) OR push_bit 32 (ucast (dw s (i + 1)))"

definition as_dispatch :: "slot \<Rightarrow> hsa_kernel_dispatch_packet" where
  "as_dispatch s =
     \<lparr>kd_header = lo16 (dw s 0), kd_setup = hi16 (dw s 0),
      workgroup_size_x = lo16 (dw s 1), workgroup_size_y = hi16 (dw s 1),
      workgroup_size_z = lo16 (dw s 2),
      grid_size_x = dw s 3, grid_size_y = dw s 4, grid_size_z = dw s 5,
      private_segment_size = dw s 6, group_segment_size = dw s 7,
      kernel_object = qw s 8, kernarg_address = qw s 10, kd_completion_signal = qw s 14\<rparr>"

record hsa_barrier_packet =
  bp_header :: u16
  dep_signal :: "u64 list"
  bp_completion_signal :: u64

definition as_barrier :: "slot \<Rightarrow> hsa_barrier_packet" where
  "as_barrier s =
     \<lparr>bp_header = lo16 (dw s 0), dep_signal = [qw s 2, qw s 4, qw s 6, qw s 8, qw s 10],
      bp_completion_signal = qw s 14\<rparr>"

record amd_aql_pm4_ib =
  vp_header :: u16
  ven_hdr :: u16
  ib_jump_cmd :: "u32 list"
  dw_cnt_remain :: u32
  vp_completion_signal :: u64

definition as_vendor :: "slot \<Rightarrow> amd_aql_pm4_ib" where
  "as_vendor s =
     \<lparr>vp_header = lo16 (dw s 0), ven_hdr = hi16 (dw s 0),
      ib_jump_cmd = [dw s 1, dw s 2, dw s 3, dw s 4], dw_cnt_remain = dw s 5,
      vp_completion_signal = qw s 14\<rparr>"

definition HSA_PACKET_TYPE_VENDOR_SPECIFIC :: u16 where "HSA_PACKET_TYPE_VENDOR_SPECIFIC = 0"
definition HSA_PACKET_TYPE_INVALID :: u16 where "HSA_PACKET_TYPE_INVALID = 1"
definition HSA_PACKET_TYPE_KERNEL_DISPATCH :: u16 where "HSA_PACKET_TYPE_KERNEL_DISPATCH = 2"
definition HSA_PACKET_TYPE_BARRIER_AND :: u16 where "HSA_PACKET_TYPE_BARRIER_AND = 3"
definition HSA_PACKET_TYPE_BARRIER_OR :: u16 where "HSA_PACKET_TYPE_BARRIER_OR = 5"

lemmas packet_type_defs = HSA_PACKET_TYPE_VENDOR_SPECIFIC_def HSA_PACKET_TYPE_INVALID_def
  HSA_PACKET_TYPE_KERNEL_DISPATCH_def HSA_PACKET_TYPE_BARRIER_AND_def HSA_PACKET_TYPE_BARRIER_OR_def

definition header_type :: "u16 \<Rightarrow> u16" where
  "header_type h = drop_bit 0 h AND (push_bit 8 1 - 1)"

text \<open>\<^verbatim>\<open>packet->header = HSA_PACKET_TYPE_INVALID\<close>: the low half of the first word.\<close>

definition invalidate_slot :: "slot \<Rightarrow> slot" where
  "invalidate_slot s =
     (case s of [] \<Rightarrow> [] | w # ws \<Rightarrow> ((w AND 0xFFFF0000) OR ucast HSA_PACKET_TYPE_INVALID) # ws)"

definition offsetof_signal_value :: u64 where "offsetof_signal_value = 8"
definition offsetof_signal_start_ts :: u64 where "offsetof_signal_start_ts = 32"
definition offsetof_signal_end_ts :: u64 where "offsetof_signal_end_ts = 40"
definition AMD_SIGNAL_KIND_USER :: int where "AMD_SIGNAL_KIND_USER = 1"

section \<open>Queue state and environment\<close>

text \<open>
  The members of \<^verbatim>\<open>WDDMQueue\<close> and \<^verbatim>\<open>ComputeQueue\<close>. \<open>ring_slots\<close> is the ring, \<open>ring_addr\<close> its address and
  \<open>ring_rptr_addr\<close> the address of the read pointer the GPU updates; \<open>cmdbuf\<close> is the content of the
  command buffer. \<open>scratch_freed\<close> (deleted scratch buffers), \<open>submissions\<close> (start, size, fence),
  \<open>signal_stores\<close> and \<open>error_code\<close> record what the queue freed, sent to the kernel, stored to signals
  and to the error location.
\<close>

record compute_queue =
  cq_device :: wddm_device
  cmdbuf_addr :: u64
  cmdbuf :: "u32 list"
  ring_addr :: u64
  ring_slots :: "slot list"
  ring_size :: u64
  ring_rptr_addr :: u64
  ib_start_addr :: u64
  ib_size :: u64
  sync_point :: u64
  write_index :: u64
  frame_size :: u32
  signal_addr :: u64
  platform_atomic_support :: bool
  needs_barrier :: bool
  ready_to_submit :: bool
  enable_profiling :: bool
  queue_inactive_signal :: u64
  has_error_addr :: bool
  cq_amd_queue_addr :: u64
  cq_amd_queue :: amd_queue_v2
  scratch_waves :: u32
  scratch_size_per_wave :: u32
  scratch_size :: u32
  scratch_base :: u64
  scratch_base_offset_array :: "u32 list"
  scratch_freed :: "u64 list"
  submissions :: "(u64 \<times> u64 \<times> u64) list"
  signal_stores :: "(u64 \<times> int) list"
  error_code :: "int option"

text \<open>
  What the operations ask of the outside: the kernel object at an address and whether it was found
  (\<^verbatim>\<open>GetKernelObjAddr\<close>), the kind of a signal, the value of a signal at a poll, the value a blocking
  wait on a signal returns, the address of a new scratch buffer (\<^verbatim>\<open>CreateGpuMemory\<close>), the words at
  a user command buffer, the paging fence and submission results, the fence values read, and the
  bits left in an uninitialised union.
\<close>

record queue_env =
  env_kernel_object :: "u64 \<Rightarrow> amd_kernel_code option"
  env_signal_kind :: "u64 \<Rightarrow> int"
  env_signal_load :: "nat \<Rightarrow> u64 \<Rightarrow> int"
  env_signal_wait :: "u64 \<Rightarrow> int"
  env_poll_limit :: nat
  env_alloc_scratch :: "u32 \<Rightarrow> u64 option"
  env_user_pm4 :: "u64 \<Rightarrow> nat \<Rightarrow> u32 list"
  env_vendor_packet_process :: bool
  env_page_wait :: bool
  env_submit :: "u64 \<times> u64 \<times> u64 \<Rightarrow> bool"
  env_cpu_wait :: "u64 \<Rightarrow> bool"
  env_sync_top :: u64
  env_sync_merge :: u64
  env_stack_bits :: u32

section \<open>Errors\<close>

definition QueueErrors :: "(int \<times> hsa_status) list" where
  "QueueErrors =
     [(2, HSA_STATUS_ERROR_INCOMPATIBLE_ARGUMENTS),
      (4, HSA_STATUS_ERROR_INVALID_ALLOCATION),
      (8, HSA_STATUS_ERROR_INVALID_CODE_OBJECT),
      (32, HSA_STATUS_ERROR_INVALID_PACKET_FORMAT),
      (64, HSA_STATUS_ERROR_INVALID_ARGUMENT),
      (0x80000000, HSA_STATUS_ERROR_EXCEPTION)]"

definition error_value :: "hsa_status \<Rightarrow> int" where
  "error_value status = (case find (\<lambda>e. snd e = status) QueueErrors of Some e \<Rightarrow> fst e | None \<Rightarrow> -1)"

definition HandleError :: "hsa_status \<Rightarrow> compute_queue \<Rightarrow> compute_queue" where
  "HandleError status q =
     (let val = error_value status;
          q = (if queue_inactive_signal q \<noteq> 0
               then q\<lparr>signal_stores := signal_stores q @ [(queue_inactive_signal q, val)]\<rparr> else q)
      in if has_error_addr q then q\<lparr>error_code := Some val\<rparr> else q)"

section \<open>Scratch memory\<close>

definition SQ_SEL_X :: u32 where "SQ_SEL_X = 4"
definition SQ_SEL_Y :: u32 where "SQ_SEL_Y = 5"
definition SQ_SEL_Z :: u32 where "SQ_SEL_Z = 6"
definition SQ_SEL_W :: u32 where "SQ_SEL_W = 7"
definition BUF_NUM_FORMAT_UINT :: u32 where "BUF_NUM_FORMAT_UINT = 4"
definition BUF_DATA_FORMAT_32 :: u32 where "BUF_DATA_FORMAT_32 = 4"
definition BUF_FORMAT_32_UINT :: u32 where "BUF_FORMAT_32_UINT = 0x14"
definition SQ_RSRC_BUF :: u32 where "SQ_RSRC_BUF = 0"

definition SQ_BUF_RSRC_WORD1 :: "u64 \<Rightarrow> u32" where
  "SQ_BUF_RSRC_WORD1 base = pack [(16, ucast (drop_bit 32 base)), (14, 0), (1, 0), (1, 1)]"

definition SQ_BUF_RSRC_WORD1_GFX11 :: "u64 \<Rightarrow> u32" where
  "SQ_BUF_RSRC_WORD1_GFX11 base = pack [(16, ucast (drop_bit 32 base)), (14, 0), (2, 1)]"

definition SQ_BUF_RSRC_WORD3 :: u32 where
  "SQ_BUF_RSRC_WORD3 =
     pack [(3, SQ_SEL_X), (3, SQ_SEL_Y), (3, SQ_SEL_Z), (3, SQ_SEL_W), (3, BUF_NUM_FORMAT_UINT),
           (4, BUF_DATA_FORMAT_32), (2, 1), (2, 3), (1, 1), (1, 0), (1, 0), (1, 0), (3, 0),
           (2, SQ_RSRC_BUF)]"

definition SQ_BUF_RSRC_WORD3_GFX10 :: u32 where
  "SQ_BUF_RSRC_WORD3_GFX10 =
     pack [(3, SQ_SEL_X), (3, SQ_SEL_Y), (3, SQ_SEL_Z), (3, SQ_SEL_W), (7, BUF_FORMAT_32_UINT),
           (2, 0), (2, 0), (1, 1), (1, 1), (3, 0), (2, 2), (2, SQ_RSRC_BUF)]"

definition SQ_BUF_RSRC_WORD3_GFX11 :: u32 where
  "SQ_BUF_RSRC_WORD3_GFX11 =
     pack [(3, SQ_SEL_X), (3, SQ_SEL_Y), (3, SQ_SEL_Z), (3, SQ_SEL_W), (6, BUF_FORMAT_32_UINT),
           (3, 0), (2, 0), (1, 1), (4, 0), (2, 2), (2, SQ_RSRC_BUF)]"

definition SQ_BUF_RSRC_WORD3_GFX12 :: u32 where
  "SQ_BUF_RSRC_WORD3_GFX12 =
     pack [(3, SQ_SEL_X), (3, SQ_SEL_Y), (3, SQ_SEL_Z), (3, SQ_SEL_W), (6, BUF_FORMAT_32_UINT),
           (3, 0), (2, 0), (1, 1), (1, 0), (1, 0), (2, 0), (2, 2), (2, SQ_RSRC_BUF)]"

definition srd_words :: "int \<Rightarrow> u64 \<Rightarrow> u32 \<Rightarrow> u32 list" where
  "srd_words major base sz =
     [ucast base,
      if major < 11 then SQ_BUF_RSRC_WORD1 base else SQ_BUF_RSRC_WORD1_GFX11 base,
      sz,
      if major < 10 then SQ_BUF_RSRC_WORD3
      else if major = 10 then SQ_BUF_RSRC_WORD3_GFX10
      else if major = 11 then SQ_BUF_RSRC_WORD3_GFX11
      else SQ_BUF_RSRC_WORD3_GFX12]"

text \<open>
  \<^verbatim>\<open>compute_tmpring_size\<close>: the unions for generations up to 11 are not initialised, so the bits above
  their two members are whatever the stack held; the gfx12 one starts at zero.
\<close>

definition tmpring_size :: "wddm_device \<Rightarrow> u32 \<Rightarrow> u32 \<Rightarrow> u32 \<Rightarrow> u32 res" where
  "tmpring_size d stk waves per_wave =
     (if dev_major d < 11 then
        Inr (set_field 12 13 (per_wave div 1024) (set_field 0 12 waves stk))
      else if dev_num_shader_engine d = 0 then Inl (Div_By_Zero ''NumShaderEngine'')
      else if dev_major d = 11 then
        Inr (set_field 12 15 (drop_bit 8 per_wave)
              (set_field 0 12 (waves div dev_num_shader_engine d) stk))
      else
        Inr (set_field 12 18 (drop_bit 8 per_wave)
              (set_field 0 12 (waves div dev_num_shader_engine d) 0)))"

definition InitScratchSRD :: "u32 \<Rightarrow> compute_queue \<Rightarrow> compute_queue res" where
  "InitScratchSRD stk q =
     bindE (tmpring_size (cq_device q) stk (scratch_waves q) (scratch_size_per_wave q)) (\<lambda>tmpring.
     Inr (q\<lparr>cq_amd_queue := (cq_amd_queue q)
        \<lparr>scratch_resource_descriptor := srd_words (dev_major (cq_device q)) (scratch_base q) (scratch_size q),
         scratch_backing_memory_location := scratch_base q,
         scratch_wave64_lane_byte_size := scratch_size_per_wave q div 64,
         aq_compute_tmpring_size := tmpring\<rparr>\<rparr>))"

text \<open>
  \<^verbatim>\<open>UpdateScratch\<close>. When the 64-bit product exceeds 32 bits the error is reported and the function
  goes on with the wrapped size.
\<close>

definition UpdateScratch :: "queue_env \<Rightarrow> u32 \<Rightarrow> bool \<Rightarrow> compute_queue \<Rightarrow> (bool \<times> compute_queue) res" where
  "UpdateScratch env private_size w32 q =
     (let wavefront = (if w32 then 32 else 64 :: u32);
          private_size = AlignUp private_size (ucast (1024 div wavefront));
          per_wave = private_size * wavefront;
          total = per_wave * scratch_waves q;
          total64 = (ucast per_wave :: u64) * ucast (scratch_waves q);
          q = (if total64 > 0xFFFFFFFF then HandleError HSA_STATUS_ERROR_INVALID_ARGUMENT q else q)
      in if scratch_size q \<ge> total then Inr (True, q)
         else case env_alloc_scratch env total of
                None \<Rightarrow> Inr (False, q)
              | Some base \<Rightarrow>
                  bindE (InitScratchSRD (env_stack_bits env)
                    (q\<lparr>scratch_freed := scratch_freed q @ (if scratch_base q \<noteq> 0 then [scratch_base q] else []),
                       scratch_size_per_wave := per_wave, scratch_size := total, scratch_base := base\<rparr>))
                    (\<lambda>q. Inr (True, q)))"

definition UpdateIndexStride :: "int \<Rightarrow> u32 \<Rightarrow> bool \<Rightarrow> u32 res" where
  "UpdateIndexStride major srd w32 =
     bindE (assertE ''UpdateIndexStride'' (major < 13)) (\<lambda>_.
     Inr (if major = 10 \<or> major = 11 \<or> major = 12 then set_field 21 2 (if w32 then 2 else 3) srd
          else srd))"

section \<open>Stores to the command buffer\<close>

text \<open>Byte address to word index in the command buffer; \<open>None\<close> below it or between words.\<close>

definition cmdbuf_index :: "compute_queue \<Rightarrow> u64 \<Rightarrow> nat option" where
  "cmdbuf_index q a =
     (if a < cmdbuf_addr q \<or> unat (a - cmdbuf_addr q) mod 4 \<noteq> 0 then None
      else Some (unat (a - cmdbuf_addr q) div 4))"

definition cmdbuf_store :: "u64 \<Rightarrow> u32 list \<Rightarrow> compute_queue \<Rightarrow> compute_queue res" where
  "cmdbuf_store a ws q =
     (case cmdbuf_index q a of
        None \<Rightarrow> Inl (Out_Of_Bounds ''cmdbuf'')
      | Some i \<Rightarrow> if i + length ws \<le> length (cmdbuf q)
                  then Inr (q\<lparr>cmdbuf := take i (cmdbuf q) @ ws @ drop (i + length ws) (cmdbuf q)\<rparr>)
                  else Inl (Out_Of_Bounds ''cmdbuf''))"

definition cmdbuf_load :: "u64 \<Rightarrow> compute_queue \<Rightarrow> u32 res" where
  "cmdbuf_load a q =
     (case cmdbuf_index q a of
        None \<Rightarrow> Inl (Out_Of_Bounds ''cmdbuf'')
      | Some i \<Rightarrow> if i < length (cmdbuf q) then Inr (cmdbuf q ! i) else Inl (Out_Of_Bounds ''cmdbuf''))"

text \<open>
  The two words a relocation writes at one recorded offset: the 48-bit split from gfx11 on, the low
  word and the low half of the high word before.
\<close>

definition relocate_one :: "u64 \<Rightarrow> u32 \<Rightarrow> compute_queue \<Rightarrow> compute_queue res" where
  "relocate_one addr off q =
     (let p = addr + scast off
      in if dev_major (cq_device q) \<ge> 11 then
           bindE (Ptr48Low32 (scratch_base q)) (\<lambda>lo.
           cmdbuf_store p [lo, ucast (Ptr48High8 (scratch_base q))] q)
         else
           bindE (cmdbuf_load (p + 4) q) (\<lambda>old.
           cmdbuf_store p [PtrLow32 (scratch_base q),
                           (old AND 0xFFFF0000) OR PtrHigh32 (scratch_base q)] q))"

fun relocate_all :: "u64 \<Rightarrow> u32 list \<Rightarrow> compute_queue \<Rightarrow> compute_queue res" where
  "relocate_all addr [] q = Inr q"
| "relocate_all addr (off # offs) q = bindE (relocate_one addr off q) (relocate_all addr offs)"

definition RelocateCmdbufScratchBase :: "u64 \<Rightarrow> compute_queue \<Rightarrow> compute_queue res" where
  "RelocateCmdbufScratchBase addr q =
     bindE (relocate_all addr (scratch_base_offset_array q) q) (\<lambda>q.
     Inr (q\<lparr>scratch_base_offset_array := []\<rparr>))"

section \<open>From AQL to PM4\<close>

definition acquire_mem :: "compute_queue \<Rightarrow> u32 list res" where
  "acquire_mem q =
     (case BuildAcquireMem (dev_major (cq_device q)) of
        None \<Rightarrow> Inl (Uninitialised ''BuildAcquireMem'') | Some ws \<Rightarrow> Inr ws)"

definition profiling_stamp :: "compute_queue \<Rightarrow> u64 \<Rightarrow> u64 \<Rightarrow> u32 list" where
  "profiling_stamp q signal off =
     (if signal \<noteq> 0 \<and> enable_profiling q then BuildCopyData_default (signal + off) else [])"

text \<open>The decrement of the completion signal, and the update of the read pointer that ends every packet.\<close>

definition signal_decrement :: "compute_queue \<Rightarrow> u64 \<Rightarrow> u32 list" where
  "signal_decrement q signal =
     (if platform_atomic_support q
      then BuildAtomicMem (signal + offsetof_signal_value) TC_OP_ATOMIC_ADD_RTN_64
             cache_policy__mec_atomic_mem__bypass (-1)
      else [])"

definition rptr_update :: "compute_queue \<Rightarrow> u32 list res" where
  "rptr_update q =
     (if platform_atomic_support q
      then Inr (BuildAtomicMem (ring_rptr_addr q) TC_OP_ATOMIC_ADD_RTN_64
                  cache_policy__mec_atomic_mem__stream 1)
      else BuildWriteData64Command (ring_rptr_addr q) (write_index q + 1))"

definition note_signal :: "u64 \<Rightarrow> compute_queue \<Rightarrow> compute_queue" where
  "note_signal signal q =
     (if platform_atomic_support q then q else q\<lparr>signal_addr := signal + offsetof_signal_value\<rparr>)"

text \<open>
  The common end of the three translations: the words are in the buffer at \<^verbatim>\<open>cpu + ib_size\<close>; when
  they exceed the frame the packet is refused, otherwise the indirect buffer grows, the write
  index advances and the slot becomes invalid.
\<close>

definition commit_packet :: "u64 \<Rightarrow> nat \<Rightarrow> u32 list \<Rightarrow> compute_queue \<Rightarrow> (hsa_status \<times> compute_queue) res" where
  "commit_packet cpu slot ws q =
     (let i = (ucast (ib_size q) :: u32) + of_nat (4 * length ws)
      in bindE (cmdbuf_store (cpu + ucast (ucast (ib_size q) :: u32)) ws q) (\<lambda>q.
         if ucast i - ib_size q > ucast (frame_size q)
         then Inr (HSA_STATUS_ERROR_OUT_OF_RESOURCES, q)
         else Inr (HSA_STATUS_SUCCESS,
                   q\<lparr>ib_size := ucast i, write_index := write_index q + 1,
                     ring_slots := (ring_slots q)[slot := invalidate_slot (ring_slots q ! slot)]\<rparr>)))"

definition dispatch_info :: "compute_queue \<Rightarrow> u64 \<Rightarrow> hsa_kernel_dispatch_packet \<Rightarrow> amd_kernel_code \<Rightarrow>
    u64 \<Rightarrow> u32 \<Rightarrow> bool \<Rightarrow> u32 \<Rightarrow> DispatchInfo" where
  "dispatch_info q pkt_addr pkt ko entry lds w32 srd3 =
     \<lparr>di_major = dev_major (cq_device q), pPacket_addr = pkt_addr, pPacket = pkt, pEntry = entry,
      pKernelObject = ko, ldsBlks = lds, pAmdQueue_addr = cq_amd_queue_addr q,
      pAmdQueue = cq_amd_queue q, di_wave32 = w32, di_srd = srd3, pScratchBase = scratch_base q,
      scratchSizePerWave = scratch_size_per_wave q\<rparr>"

text \<open>
  The command sequence of a kernel dispatch, with the offsets of the scratch addresses in it
  (relative to its start): start stamp, barrier, cache flush, scratch registers from gfx11 on,
  the dispatch, and with a completion signal a barrier, the end stamp, a cache flush and the decrement;
  then the read pointer.
\<close>

definition dispatch_head :: "compute_queue \<Rightarrow> u16 \<Rightarrow> u64 \<Rightarrow> u32 list res" where
  "dispatch_head q header signal =
     bindE (acquire_mem q) (\<lambda>acq.
     Inr (profiling_stamp q signal offsetof_signal_start_ts @
          (if drop_bit 8 header AND 1 \<noteq> 0 \<and> needs_barrier q then BuildBarrier_default else []) @ acq))"

definition dispatch_scratch :: "compute_queue \<Rightarrow> u32 list res" where
  "dispatch_scratch q =
     (if dev_major (cq_device q) \<ge> 11
      then bindE (BuildScratch (scratch_base q)) (\<lambda>ws. Inr (ws @ BuildComputeShaderParams))
      else Inr [])"

definition dispatch_tail :: "queue_env \<Rightarrow> compute_queue \<Rightarrow> u64 \<Rightarrow> u32 list res" where
  "dispatch_tail env q signal =
     (if signal \<noteq> 0
      then bindE (acquire_mem q) (\<lambda>acq.
           bindE (assertE ''KernelDispatchAqlToPm4'' (env_signal_kind env signal = AMD_SIGNAL_KIND_USER)) (\<lambda>_.
           Inr (BuildBarrier_default @ profiling_stamp q signal offsetof_signal_end_ts @ acq @
                signal_decrement q signal)))
      else Inr [])"

definition dispatch_words :: "queue_env \<Rightarrow> compute_queue \<Rightarrow> u64 \<Rightarrow> hsa_kernel_dispatch_packet \<Rightarrow>
    amd_kernel_code \<Rightarrow> u64 \<Rightarrow> u32 \<Rightarrow> bool \<Rightarrow> (u32 list \<times> nat list) res" where
  "dispatch_words env q pkt_addr pkt ko entry lds w32 =
     bindE (dispatch_head q (kd_header pkt) (kd_completion_signal pkt)) (\<lambda>head.
     bindE (dispatch_scratch q) (\<lambda>scr.
     bindE (srd_word (cq_amd_queue q) 3) (\<lambda>d3.
     bindE (UpdateIndexStride (dev_major (cq_device q)) d3 w32) (\<lambda>srd3.
     bindE (BuildDispatch (dispatch_info q pkt_addr pkt ko entry lds w32 srd3)) (\<lambda>(disp, offs).
     bindE (dispatch_tail env q (kd_completion_signal pkt)) (\<lambda>tail.
     bindE (rptr_update q) (\<lambda>rptr.
     Inr (head @ scr @ disp @ tail @ rptr,
          (if dev_major (cq_device q) \<ge> 11 then [4 * length head + offsetof_scratch_lo] else []) @
          map (\<lambda>off. 4 * (length head + length scr) + off) offs))))))))"

definition KernelDispatchAqlToPm4 :: "queue_env \<Rightarrow> u64 \<Rightarrow> nat \<Rightarrow> compute_queue \<Rightarrow>
    (hsa_status \<times> compute_queue) res" where
  "KernelDispatchAqlToPm4 env cpu slot q =
     (let pkt = as_dispatch (ring_slots q ! slot);
          pkt_addr = ring_addr q + of_nat (slot * 64);
          signal = kd_completion_signal pkt
      in if workgroup_size_x pkt > 1024 \<or> workgroup_size_y pkt > 1024 \<or> workgroup_size_z pkt > 1024
         then Inr (HSA_STATUS_ERROR_INVALID_ARGUMENT, q)
         else case env_kernel_object env (kernel_object pkt) of
           None \<Rightarrow> Inr (HSA_STATUS_ERROR_INVALID_CODE_OBJECT, q)
         | Some ko \<Rightarrow>
           let entry = kernel_object pkt + kernel_code_entry_byte_offset ko
           in bindE (assertE ''KernelDispatchAqlToPm4'' (entry mod 256 = 0)) (\<lambda>_.
              if kd_setup pkt = 0 \<or> kd_setup pkt > 3 then Inr (HSA_STATUS_ERROR_INCOMPATIBLE_ARGUMENTS, q)
              else if group_segment_size pkt > dev_lds_size (cq_device q)
              then Inr (HSA_STATUS_ERROR_INVALID_ALLOCATION, q)
              else let lds = LdsBlocks (group_segment_size pkt)
                   in if lds > 128 then Inr (HSA_STATUS_ERROR_INVALID_ARGUMENT, q)
              else let w32 = AMD_HSA_BITS_GET (kernel_code_properties ko) ENABLE_WAVEFRONT_SIZE32
                   in bindE (assertE ''KernelDispatchAqlToPm4''
                        (private_segment_size pkt \<ge> workitem_private_segment_byte_size ko)) (\<lambda>_.
                      bindE (UpdateScratch env (private_segment_size pkt) w32 q) (\<lambda>(_, q).
                      bindE (dispatch_words env q pkt_addr pkt ko entry lds w32) (\<lambda>(ws, offs).
                      commit_packet cpu slot ws
                        ((if signal \<noteq> 0 then note_signal signal else id)
                          (q\<lparr>scratch_base_offset_array := scratch_base_offset_array q @
                               map (\<lambda>off. ucast (ib_size q) + of_nat off) offs,
                             needs_barrier := (signal = 0)\<rparr>)))))))"

text \<open>
  Waiting for the dependencies of a barrier packet: all of them by blocking waits, or any of them
  by polling. The polling loop ends only when a signal is seen at zero; the environment bounds the number
  of rounds looked at, and \<open>Waiting\<close> says that none was zero in them.
\<close>

fun barrier_and_wait :: "queue_env \<Rightarrow> u64 list \<Rightarrow> unit res" where
  "barrier_and_wait env [] = Inr ()"
| "barrier_and_wait env (s # ss) =
     (if s = 0 then barrier_and_wait env ss
      else bindE (assertE ''BarrierGenericAqlToPm4'' (env_signal_wait env s = 0)) (\<lambda>_.
           barrier_and_wait env ss))"

fun barrier_or_poll :: "queue_env \<Rightarrow> nat \<Rightarrow> nat \<Rightarrow> u64 list \<Rightarrow> unit res" where
  "barrier_or_poll env 0 round sigs = Inl (Waiting ''BarrierGenericAqlToPm4'')"
| "barrier_or_poll env (Suc fuel) round sigs =
     (if \<exists>s \<in> set sigs. env_signal_load env round s = 0 then Inr ()
      else barrier_or_poll env fuel (Suc round) sigs)"

definition barrier_wait :: "queue_env \<Rightarrow> bool \<Rightarrow> u64 list \<Rightarrow> unit res" where
  "barrier_wait env is_or deps =
     (if is_or then let sigs = filter (\<lambda>s. s \<noteq> 0) deps
                    in if sigs = [] then Inr () else barrier_or_poll env (env_poll_limit env) 0 sigs
      else barrier_and_wait env deps)"

definition barrier_words :: "queue_env \<Rightarrow> compute_queue \<Rightarrow> u64 \<Rightarrow> u32 list res" where
  "barrier_words env q signal =
     (if signal \<noteq> 0
      then bindE (assertE ''BarrierGenericAqlToPm4'' (env_signal_kind env signal = AMD_SIGNAL_KIND_USER)) (\<lambda>_.
           bindE (acquire_mem q) (\<lambda>acq.
           Inr (profiling_stamp q signal offsetof_signal_start_ts @
                (if needs_barrier q then BuildBarrier_default else []) @
                profiling_stamp q signal offsetof_signal_end_ts @ acq @ signal_decrement q signal)))
      else Inr [])"

definition BarrierGenericAqlToPm4 :: "queue_env \<Rightarrow> u64 \<Rightarrow> nat \<Rightarrow> bool \<Rightarrow> compute_queue \<Rightarrow>
    (hsa_status \<times> compute_queue) res" where
  "BarrierGenericAqlToPm4 env cpu slot is_or q =
     (let pkt = as_barrier (ring_slots q ! slot);
          signal = bp_completion_signal pkt
      in bindE (barrier_wait env is_or (dep_signal pkt)) (\<lambda>_.
         bindE (barrier_words env q signal) (\<lambda>ws.
         bindE (rptr_update q) (\<lambda>rptr.
         commit_packet cpu slot (ws @ rptr)
           (if signal \<noteq> 0 then note_signal signal (q\<lparr>needs_barrier := False\<rparr>) else q)))))"

text \<open>
  A vendor packet carries the address and length of a user command buffer. Its words are copied
  before the frame size is looked at.
\<close>

definition vendor_words :: "queue_env \<Rightarrow> compute_queue \<Rightarrow> u32 list \<Rightarrow> u64 \<Rightarrow> u32 list res" where
  "vendor_words env q user signal =
     (if signal \<noteq> 0
      then bindE (assertE ''VendorSpecificAqlToPm4'' (env_signal_kind env signal = AMD_SIGNAL_KIND_USER)) (\<lambda>_.
           bindE (acquire_mem q) (\<lambda>acq.
           Inr (user @ profiling_stamp q signal offsetof_signal_start_ts @ BuildBarrier_default @
                profiling_stamp q signal offsetof_signal_end_ts @ acq @ signal_decrement q signal)))
      else Inr user)"

definition VendorSpecificAqlToPm4 :: "queue_env \<Rightarrow> u64 \<Rightarrow> nat \<Rightarrow> compute_queue \<Rightarrow>
    (hsa_status \<times> compute_queue) res" where
  "VendorSpecificAqlToPm4 env cpu slot q =
     (let pkt = as_vendor (ring_slots q ! slot);
          signal = vp_completion_signal pkt;
          j = ib_jump_cmd pkt;
          pm4_addr = push_bit 32 (ucast (j ! 2)) OR (ucast (j ! 1) AND NOT 3);
          pm4_size = j ! 3 AND 0xFFFFF
      in bindE (assertE ''VendorSpecificAqlToPm4'' (ven_hdr pkt = 1)) (\<lambda>_.
         bindE (assertE ''VendorSpecificAqlToPm4''
           (drop_bit 8 (j ! 0) AND 0xFF = IT_INDIRECT_BUFFER)) (\<lambda>_.
         if env_vendor_packet_process env then
           bindE (vendor_words env q (env_user_pm4 env pm4_addr (unat pm4_size)) signal) (\<lambda>ws.
           bindE (rptr_update q) (\<lambda>rptr.
           commit_packet cpu slot (ws @ rptr) (if signal \<noteq> 0 then note_signal signal q else q)))
         else
           bindE (rptr_update q) (\<lambda>rptr.
           commit_packet cpu slot rptr
             (if signal \<noteq> 0 then q\<lparr>signal_stores := signal_stores q @ [(signal, 0)]\<rparr> else q)))))"

section \<open>Submission and the processing loop\<close>

definition current_slot :: "compute_queue \<Rightarrow> nat" where
  "current_slot q = unat (write_index q mod ring_size q)"

definition slot_at :: "compute_queue \<Rightarrow> slot res" where
  "slot_at q =
     (if ring_size q = 0 then Inl (Div_By_Zero ''ring_size'')
      else if current_slot q < length (ring_slots q) then Inr (ring_slots q ! current_slot q)
      else Inl (Out_Of_Bounds ''ring''))"

definition IsInvalidPacket :: "compute_queue \<Rightarrow> bool res" where
  "IsInvalidPacket q =
     bindE (slot_at q) (\<lambda>s. Inr (header_type (lo16 (dw s 0)) = HSA_PACKET_TYPE_INVALID))"

definition SwitchAql2PM4 :: "queue_env \<Rightarrow> compute_queue \<Rightarrow> (hsa_status \<times> compute_queue) res" where
  "SwitchAql2PM4 env q =
     bindE (slot_at q) (\<lambda>s.
     let slot = current_slot q;
         ty = header_type (lo16 (dw s 0));
         cpu = ib_start_addr q
     in if ty = HSA_PACKET_TYPE_KERNEL_DISPATCH then
          bindE (KernelDispatchAqlToPm4 env cpu slot q) (\<lambda>(ret, q).
          if ret \<noteq> HSA_STATUS_SUCCESS then Inr (ret, q)
          else if kd_completion_signal (as_dispatch s) = 0 \<and>
                  write_index q mod ucast cmdbuf_aql_frame_num \<noteq> 0 \<and>
                  env_sync_merge env \<noteq> sync_point q
          then Inr (HSA_STATUS_SUCCESS, q)
          else Inr (HSA_STATUS_SUCCESS, q\<lparr>ready_to_submit := True\<rparr>))
        else if ty = HSA_PACKET_TYPE_BARRIER_AND then
          bindE (BarrierGenericAqlToPm4 env cpu slot False q) (\<lambda>(_, q).
          Inr (HSA_STATUS_SUCCESS, q\<lparr>ready_to_submit := True\<rparr>))
        else if ty = HSA_PACKET_TYPE_BARRIER_OR then
          bindE (BarrierGenericAqlToPm4 env cpu slot True q) (\<lambda>(_, q).
          Inr (HSA_STATUS_SUCCESS, q\<lparr>ready_to_submit := True\<rparr>))
        else if ty = HSA_PACKET_TYPE_VENDOR_SPECIFIC then
          bindE (VendorSpecificAqlToPm4 env cpu slot q) (\<lambda>(_, q).
          Inr (HSA_STATUS_SUCCESS, q\<lparr>ready_to_submit := True\<rparr>))
        else if ty = HSA_PACKET_TYPE_INVALID then Inl (Assert_Failed ''SwitchAql2PM4'')
        else Inr (HSA_STATUS_ERROR_INVALID_PACKET_FORMAT, q))"

definition PreSubmit :: "queue_env \<Rightarrow> compute_queue \<Rightarrow> (hsa_status \<times> compute_queue) res" where
  "PreSubmit env q =
     (if \<not> env_page_wait env then Inr (HSA_STATUS_ERROR, q)
      else bindE (RelocateCmdbufScratchBase (ib_start_addr q) q) (\<lambda>q. Inr (HSA_STATUS_SUCCESS, q)))"

definition EndSubmit :: "compute_queue \<Rightarrow> compute_queue" where
  "EndSubmit q =
     q\<lparr>sync_point := write_index q,
       ib_start_addr := cmdbuf_addr q +
         (write_index q mod ucast cmdbuf_aql_frame_num) * ucast (frame_size q),
       ib_size := 0\<rparr>"

definition Submit :: "queue_env \<Rightarrow> compute_queue \<Rightarrow> (hsa_status \<times> compute_queue) res" where
  "Submit env q =
     bindE (PreSubmit env q) (\<lambda>(ret, q).
     if ret \<noteq> HSA_STATUS_SUCCESS then Inr (HSA_STATUS_ERROR, q)
     else let sub = (ib_start_addr q, ib_size q, write_index q)
          in if \<not> env_submit env sub then Inr (HSA_STATUS_ERROR, q)
             else Inr (HSA_STATUS_SUCCESS,
                       EndSubmit (q\<lparr>submissions := submissions q @ [sub]\<rparr>)))"

text \<open>
  One turn of the loop of \<^verbatim>\<open>Process\<close> after its condition held, with the fence value it waits for
  when the frame it is about to fill may still be in use.
\<close>

definition frame_wait :: "queue_env \<Rightarrow> compute_queue \<Rightarrow> bool" where
  "frame_wait env q \<longleftrightarrow>
     (if env_sync_top env + ucast cmdbuf_aql_frame_num \<le> write_index q
      then env_cpu_wait env (write_index q - ucast cmdbuf_aql_frame_num + 1) else True)"

definition finish_signal :: "queue_env \<Rightarrow> compute_queue \<Rightarrow> hsa_status \<times> compute_queue" where
  "finish_signal env q =
     (if \<not> platform_atomic_support q \<and> signal_addr q \<noteq> 0 then
        if env_cpu_wait env (write_index q)
        then (HSA_STATUS_SUCCESS,
              q\<lparr>signal_stores := signal_stores q @ [(signal_addr q, -1)], signal_addr := 0\<rparr>)
        else (HSA_STATUS_ERROR, q)
      else (HSA_STATUS_SUCCESS, q))"

definition Process_turn :: "queue_env \<Rightarrow> compute_queue \<Rightarrow> (hsa_status \<times> compute_queue) res" where
  "Process_turn env q =
     (if \<not> frame_wait env q then Inr (HSA_STATUS_ERROR, q)
      else bindE (SwitchAql2PM4 env q) (\<lambda>(ret, q).
        if ret \<noteq> HSA_STATUS_SUCCESS \<or> \<not> ready_to_submit q then Inr (ret, q)
        else bindE (Submit env q) (\<lambda>(ret, q).
          if ret \<noteq> HSA_STATUS_SUCCESS then Inr (ret, q)
          else case finish_signal env q of (ret, q) \<Rightarrow>
            if ret \<noteq> HSA_STATUS_SUCCESS then Inr (ret, q)
            else Inr (HSA_STATUS_SUCCESS, q\<lparr>ready_to_submit := False\<rparr>))))"

text \<open>
  \<^verbatim>\<open>Process\<close>: turns as long as the ring holds a valid packet. The write pointer and the
  environment are read afresh in every turn; \<open>envs\<close> lists them, and \<open>Waiting\<close> says that the list ended
  before the loop did.
\<close>

fun Process :: "(u64 \<times> queue_env) list \<Rightarrow> compute_queue \<Rightarrow> (hsa_status \<times> compute_queue) res" where
  "Process [] q = Inl (Waiting ''Process'')"
| "Process ((wptr, env) # envs) q =
     (if \<not> write_index q < wptr then Inr (HSA_STATUS_SUCCESS, q)
      else bindE (IsInvalidPacket q) (\<lambda>inv.
        if inv then Inr (HSA_STATUS_SUCCESS, q)
        else bindE (Process_turn env q) (\<lambda>(ret, q).
          if ret \<noteq> HSA_STATUS_SUCCESS then Inr (ret, q) else Process envs q)))"

text \<open>
  The queue after the constructor and \<^verbatim>\<open>Init\<close>: the command buffer and the page for the AMD queue
  have been created (their addresses and contents are arguments), all indices are zero.
\<close>

definition ComputeQueue_Init :: "wddm_device \<Rightarrow> u64 \<Rightarrow> u32 list \<Rightarrow> u64 \<Rightarrow> slot list \<Rightarrow> u64 \<Rightarrow> u64 \<Rightarrow>
    bool \<Rightarrow> u64 \<Rightarrow> bool \<Rightarrow> u64 \<Rightarrow> amd_queue_v2 \<Rightarrow> compute_queue" where
  "ComputeQueue_Init d buf_addr buf raddr slots rsize rptr profiling inactive err aq_addr aq =
     \<lparr>cq_device = d, cmdbuf_addr = buf_addr, cmdbuf = buf, ring_addr = raddr, ring_slots = slots,
      ring_size = rsize, ring_rptr_addr = rptr, ib_start_addr = buf_addr, ib_size = 0, sync_point = 0,
      write_index = 0, frame_size = dev_aql_frame_size d, signal_addr = 0,
      platform_atomic_support = dev_platform_atomic d, needs_barrier = True, ready_to_submit = False,
      enable_profiling = profiling, queue_inactive_signal = inactive, has_error_addr = err,
      cq_amd_queue_addr = aq_addr, cq_amd_queue = aq,
      scratch_waves = dev_max_scratch_slots_per_cu d * dev_compute_unit_count d,
      scratch_size_per_wave = 0, scratch_size = 0, scratch_base = 0, scratch_base_offset_array = [],
      scratch_freed = [], submissions = [], signal_stores = [], error_code = None\<rparr>"

end
