(* ===== verification/Frame_Translation.thy ===== *)
theory Frame_Translation
  imports Compute_Queue
begin

text \<open>
  The translations of the compute queue against their frames: where the indirect buffer lies in the
  command buffer, how large the command sequences are, and one contract, the locale
  \<open>frame_translator\<close>, that kernel dispatches, barriers and vendor packets all meet: a packet is refused
  with the queue unchanged or translated within its frame. The lemmas \<open>..._ok\<close> give the words of each part of a
  sequence with their opcodes and sizes.
\<close>

section \<open>Where the indirect buffer lies\<close>

text \<open>
  The geometry invariant: the command buffer holds 4096 frames; the packets gathered since the last
  submission (indices \<open>sync_point\<close> up to \<open>write_index\<close>) stay in one pass over it, and the indirect
  buffer starts at the frame of the first and takes at most one frame for each.
\<close>

abbreviation FR :: "compute_queue \<Rightarrow> nat" where "FR q \<equiv> unat (frame_size q)"
abbreviation WI :: "compute_queue \<Rightarrow> nat" where "WI q \<equiv> unat (write_index q)"
abbreviation SP :: "compute_queue \<Rightarrow> nat" where "SP q \<equiv> unat (sync_point q)"

definition geometry :: "compute_queue \<Rightarrow> bool" where
  "geometry q \<longleftrightarrow>
     0 < FR q \<and> FR q \<le> 544 \<and> 4 dvd FR q \<and>
     unat (cmdbuf_addr q) + 4096 * FR q < 18446744073709551616 \<and>
     4 * length (cmdbuf q) = 4096 * FR q \<and>
     SP q \<le> WI q \<and> WI q div 4096 = SP q div 4096 \<and>
     unat (ib_start_addr q) = unat (cmdbuf_addr q) + SP q mod 4096 * FR q \<and>
     unat (ib_size q) \<le> (WI q - SP q) * FR q \<and> 4 dvd unat (ib_size q)"

text \<open>Byte offset in the command buffer at which the next packet goes.\<close>

definition ib_offset :: "compute_queue \<Rightarrow> nat" where
  "ib_offset q = SP q mod 4096 * FR q + unat (ib_size q)"

lemma block_mod:
  assumes "(s :: nat) \<le> w" and "w div N = s div N"
  shows "s mod N + (w - s) = w mod N"
proof -
  have "s = s div N * N + s mod N" "w = s div N * N + w mod N"
    using assms(2) by (metis div_mult_mod_eq)+
  with assms(1) show ?thesis by linarith
qed

lemma ib_offset_frame:
  assumes "geometry q"
  shows "ib_offset q \<le> WI q mod 4096 * FR q"
    and "ib_offset q + FR q \<le> 4 * length (cmdbuf q)"
    and "unat (ib_size q) < 4096 * 544" and "SP q mod 4096 * FR q \<le> ib_offset q"
proof -
  have m: "SP q mod 4096 + (WI q - SP q) = WI q mod 4096"
    using assms by (intro block_mod) (auto simp: geometry_def)
  have "ib_offset q \<le> SP q mod 4096 * FR q + (WI q - SP q) * FR q"
    using assms by (simp add: ib_offset_def geometry_def)
  also have "\<dots> = WI q mod 4096 * FR q" by (simp add: m [symmetric] add_mult_distrib)
  finally show le: "ib_offset q \<le> WI q mod 4096 * FR q" .
  have "WI q mod 4096 + 1 \<le> 4096" by (simp add: Suc_leI)
  then have "(WI q mod 4096 + 1) * FR q \<le> 4096 * FR q" by (rule mult_le_mono1)
  then have all: "WI q mod 4096 * FR q + FR q \<le> 4096 * FR q" by simp
  moreover have "4 * length (cmdbuf q) = 4096 * FR q" "FR q \<le> 544" "0 < FR q"
    using assms by (auto simp: geometry_def)
  ultimately show "ib_offset q + FR q \<le> 4 * length (cmdbuf q)" using le by linarith
  have "unat (ib_size q) \<le> ib_offset q" by (simp add: ib_offset_def)
  then show "unat (ib_size q) < 4096 * 544"
    using le all \<open>FR q \<le> 544\<close> \<open>0 < FR q\<close> by linarith
  show "SP q mod 4096 * FR q \<le> ib_offset q" by (simp add: ib_offset_def)
qed

lemma ib_address:
  assumes "geometry q"
  shows "unat (ib_start_addr q + ib_size q) = unat (cmdbuf_addr q) + ib_offset q"
proof -
  have "unat (ib_start_addr q) + unat (ib_size q) = unat (cmdbuf_addr q) + ib_offset q"
    using assms by (simp add: geometry_def ib_offset_def)
  moreover have "unat (cmdbuf_addr q) + ib_offset q < 18446744073709551616"
    using ib_offset_frame(2) [OF assms] assms by (auto simp: geometry_def)
  ultimately show ?thesis by (simp add: unat_add64)
qed

lemma ib_offset_index:
  assumes "geometry q"
  shows "cmdbuf_index q (ib_start_addr q + ib_size q) = Some (ib_offset q div 4)"
    and "4 dvd ib_offset q"
proof -
  note ad = ib_address [OF assms]
  show d: "4 dvd ib_offset q" using assms by (auto simp: geometry_def ib_offset_def)
  have "unat (ib_start_addr q + ib_size q - cmdbuf_addr q) = ib_offset q"
    using ad by (simp add: unat_sub64)
  moreover have "\<not> ib_start_addr q + ib_size q < cmdbuf_addr q"
    using ad by (simp add: word_less_nat_alt)
  ultimately show "cmdbuf_index q (ib_start_addr q + ib_size q) = Some (ib_offset q div 4)"
    using d by (simp add: cmdbuf_index_def)
qed

text \<open>The buffer with words replaced from an index on.\<close>

definition overwrite :: "nat \<Rightarrow> 'a list \<Rightarrow> 'a list \<Rightarrow> 'a list" where
  "overwrite i ws xs = take i xs @ ws @ drop (i + length ws) xs"

lemma length_overwrite [simp]: "i + length ws \<le> length xs \<Longrightarrow> length (overwrite i ws xs) = length xs"
  by (simp add: overwrite_def)

lemma nth_overwrite_outside:
  "\<lbrakk>i + length ws \<le> length xs; k < length xs; k < i \<or> i + length ws \<le> k\<rbrakk> \<Longrightarrow> overwrite i ws xs ! k = xs ! k"
  by (auto simp: overwrite_def nth_append)

lemma overwrite_window:
  "i + length ws \<le> length xs \<Longrightarrow> take (length ws) (drop i (overwrite i ws xs)) = ws"
  by (simp add: overwrite_def)

definition committed :: "nat \<Rightarrow> u32 list \<Rightarrow> compute_queue \<Rightarrow> compute_queue" where
  "committed slot ws q =
     q\<lparr>cmdbuf := overwrite (ib_offset q div 4) ws (cmdbuf q),
       ib_size := ib_size q + of_nat (4 * length ws), write_index := write_index q + 1,
       ring_slots := (ring_slots q)[slot := invalidate_slot (ring_slots q ! slot)]\<rparr>"

lemma commit_packet_ok:
  assumes g: "geometry q" and len: "4 * length ws \<le> FR q"
  shows "commit_packet (ib_start_addr q) slot ws q = Inr (HSA_STATUS_SUCCESS, committed slot ws q)"
    and "ib_offset q div 4 + length ws \<le> length (cmdbuf q)"
proof -
  note f = ib_offset_frame [OF g]
  have fr: "FR q \<le> 544" using g by (simp add: geometry_def)
  have b: "unat (ib_size q) < 4294967296" using f(3) by simp
  show fit: "ib_offset q div 4 + length ws \<le> length (cmdbuf q)"
    using f(2) len ib_offset_index(2) [OF g] by (auto elim!: dvdE)
  let ?n = "4 * length ws"
  have n: "unat (of_nat ?n :: u32) = ?n" "unat (of_nat ?n :: u64) = ?n"
    using len fr by (intro unat_of_nat32 unat_of_nat64; simp)+
  have "unat (ucast (ib_size q) + of_nat ?n :: u32) = unat (ib_size q) + ?n"
    using unat_add32 [of "ucast (ib_size q)" "of_nat ?n"] unat_ucast_down [OF b] n(1) f(3) len fr by simp
  moreover have "unat (ib_size q + of_nat ?n) = unat (ib_size q) + ?n"
    using unat_add64 [of "ib_size q" "of_nat ?n"] n(2) f(3) len fr by simp
  ultimately have i: "ucast (ucast (ib_size q) + of_nat ?n :: u32) = ib_size q + of_nat ?n"
    by (simp only: word_unat_eq_iff unat_ucast_up)
  have "ib_size q + of_nat ?n - ib_size q = of_nat ?n" by simp
  then have "\<not> ucast (frame_size q) < ib_size q + of_nat ?n - ib_size q"
    using n(2) len by (simp only: word_less_nat_alt unat_ucast_up not_less)
  then show "commit_packet (ib_start_addr q) slot ws q = Inr (HSA_STATUS_SUCCESS, committed slot ws q)"
    using fit unfolding commit_packet_def Let_def
    by (simp add: ucast_down_up [OF b] i cmdbuf_store_def ib_offset_index(1) [OF g] committed_def
        overwrite_def del: of_nat_mult)
qed

section \<open>The scratch buffer\<close>

lemma HandleError_eq:
  "HandleError st q = q\<lparr>
     signal_stores := (if queue_inactive_signal q \<noteq> 0
       then signal_stores q @ [(queue_inactive_signal q, error_value st)] else signal_stores q),
     error_code := (if has_error_addr q then Some (error_value st) else error_code q)\<rparr>"
  by (simp add: HandleError_def Let_def)

text \<open>
  What \<^verbatim>\<open>UpdateScratch\<close> may change: the scratch members, the descriptor in the AMD queue and the
  error outputs. \<open>scratch_updated\<close> is the updated queue.
\<close>

definition scratch_updated :: "u64 list \<Rightarrow> u32 \<Rightarrow> u32 \<Rightarrow> u64 \<Rightarrow> amd_queue_v2 \<Rightarrow> (u64 \<times> int) list \<Rightarrow>
    int option \<Rightarrow> compute_queue \<Rightarrow> compute_queue" where
  "scratch_updated fr pw sz base aq ss ec q =
     q\<lparr>scratch_freed := fr, scratch_size_per_wave := pw, scratch_size := sz, scratch_base := base,
       cq_amd_queue := aq, signal_stores := ss, error_code := ec\<rparr>"

lemma tmpring_size_total: "dev_num_shader_engine d \<noteq> 0 \<Longrightarrow> \<exists>t. tmpring_size d stk w p = Inr t"
  by (simp add: tmpring_size_def)

lemma srd_words_length [simp]: "length (srd_words m b s) = 4"
  by (simp add: srd_words_def)

lemma UpdateScratch_shape:
  assumes "dev_num_shader_engine (cq_device q) \<noteq> 0"
  shows "\<exists>b fr pw sz base aq ss ec.
    UpdateScratch env p w q = Inr (b, scratch_updated fr pw sz base aq ss ec q) \<and>
    (base = scratch_base q \<and> aq = cq_amd_queue q \<and> sz = scratch_size q \<and> pw = scratch_size_per_wave q \<or>
     env_alloc_scratch env sz = Some base \<and> length (scratch_resource_descriptor aq) = 4 \<and>
     scratch_resource_descriptor aq = srd_words (dev_major (cq_device q)) base sz \<and>
     scratch_size q < sz)"
proof -
  let ?wf = "if w then 32 else 64 :: u32"
  define pw where "pw = AlignUp p (ucast (1024 div ?wf)) * ?wf"
  define sz where "sz = pw * scratch_waves q"
  define q1 where "q1 = (if (ucast pw :: u64) * ucast (scratch_waves q) > 0xFFFFFFFF
      then HandleError HSA_STATUS_ERROR_INVALID_ARGUMENT q else q)"
  define ss where "ss = signal_stores q1"
  define ec where "ec = error_code q1"
  have q1: "q1 = q\<lparr>signal_stores := ss, error_code := ec\<rparr>"
    by (simp add: ss_def ec_def q1_def HandleError_eq)
  have upd: "UpdateScratch env p w q =
      (if scratch_size q1 \<ge> sz then Inr (True, q1)
       else case env_alloc_scratch env sz of None \<Rightarrow> Inr (False, q1)
            | Some base \<Rightarrow> bindE (InitScratchSRD (env_stack_bits env)
                (q1\<lparr>scratch_freed := scratch_freed q1 @ (if scratch_base q1 \<noteq> 0 then [scratch_base q1] else []),
                   scratch_size_per_wave := pw, scratch_size := sz, scratch_base := base\<rparr>))
                (\<lambda>q. Inr (True, q)))"
    unfolding UpdateScratch_def Let_def pw_def sz_def q1_def HandleError_def by simp
  have same: "q1 = scratch_updated (scratch_freed q) (scratch_size_per_wave q) (scratch_size q)
      (scratch_base q) (cq_amd_queue q) ss ec q"
    by (simp add: q1 scratch_updated_def)
  obtain t where t: "tmpring_size (cq_device q) (env_stack_bits env) (scratch_waves q) pw = Inr t"
    using tmpring_size_total [OF assms] by blast
  show ?thesis
  proof (cases "scratch_size q \<ge> sz \<or> env_alloc_scratch env sz = None")
    case True
    then have "UpdateScratch env p w q = Inr (scratch_size q \<ge> sz, q1)" unfolding upd by (auto simp: q1)
    then have "UpdateScratch env p w q = Inr (scratch_size q \<ge> sz, scratch_updated (scratch_freed q)
        (scratch_size_per_wave q) (scratch_size q) (scratch_base q) (cq_amd_queue q) ss ec q)"
      by (simp only: same [symmetric])
    then show ?thesis by (intro exI conjI disjI1) auto
  next
    case False
    then obtain base where b: "env_alloc_scratch env sz = Some base" "scratch_size q < sz" by auto
    let ?aq = "(cq_amd_queue q)
        \<lparr>scratch_resource_descriptor := srd_words (dev_major (cq_device q)) base sz,
         scratch_backing_memory_location := base, scratch_wave64_lane_byte_size := pw div 64,
         aq_compute_tmpring_size := t\<rparr>"
    have "UpdateScratch env p w q = Inr (True, scratch_updated
        (scratch_freed q @ (if scratch_base q \<noteq> 0 then [scratch_base q] else [])) pw sz base ?aq ss ec q)"
      using b t unfolding upd InitScratchSRD_def by (simp add: q1 scratch_updated_def)
    with b show ?thesis by (intro exI conjI disjI2) auto
  qed
qed

section \<open>The invariant of the queue\<close>

definition frame_bytes :: "int \<Rightarrow> nat" where
  "frame_bytes major = (if major = 9 then 496 else if major = 10 then 512 else 544)"

definition base_ok :: "compute_queue \<Rightarrow> bool" where
  "base_ok q \<longleftrightarrow>
     9 \<le> dev_major (cq_device q) \<and> dev_major (cq_device q) < 13 \<and>
     dev_num_shader_engine (cq_device q) \<noteq> 0 \<and>
     FR q = frame_bytes (dev_major (cq_device q)) \<and>
     ring_size q \<noteq> 0 \<and> length (ring_slots q) = unat (ring_size q) \<and>
     ring_rptr_addr q AND 3 = 0 \<and> Ptr48_ok (scratch_base q) \<and>
     length (scratch_resource_descriptor (cq_amd_queue q)) = 4"

definition offsets_ok :: "compute_queue \<Rightarrow> bool" where
  "offsets_ok q \<longleftrightarrow> (\<forall>off \<in> set (scratch_base_offset_array q).
     unat off + 8 \<le> unat (ib_size q) \<and> 4 dvd unat off)"

definition queue_inv :: "compute_queue \<Rightarrow> bool" where
  "queue_inv q \<longleftrightarrow> geometry q \<and> base_ok q \<and> offsets_ok q"

text \<open>
  A dispatch packet the queue accepts without a failed assertion: its entry point is aligned and
  addressable, the private segment is large enough, scratch registers are asked for only before gfx11
  and the completion signal is a user signal.
\<close>

definition kernel_ok :: "queue_env \<Rightarrow> compute_queue \<Rightarrow> hsa_kernel_dispatch_packet \<Rightarrow> bool" where
  "kernel_ok env q pkt \<longleftrightarrow>
     (case env_kernel_object env (kernel_object pkt) of
        None \<Rightarrow> True
      | Some ko \<Rightarrow>
          let entry = kernel_object pkt + kernel_code_entry_byte_offset ko
          in entry mod 256 = 0 \<and> Ptr48_ok entry \<and>
             workitem_private_segment_byte_size ko \<le> private_segment_size pkt \<and>
             (AMD_HSA_BITS_GET (kernel_code_properties ko) ENABLE_SGPR_PRIVATE_SEGMENT_BUFFER \<or>
              AMD_HSA_BITS_GET (kernel_code_properties ko) ENABLE_SGPR_FLAT_SCRATCH_INIT \<longrightarrow>
              dev_major (cq_device q) < 11)) \<and>
     (kd_completion_signal pkt \<noteq> 0 \<longrightarrow>
        env_signal_kind env (kd_completion_signal pkt) = AMD_SIGNAL_KIND_USER)"

definition alloc_ok :: "queue_env \<Rightarrow> bool" where
  "alloc_ok env \<longleftrightarrow> (\<forall>sz base. env_alloc_scratch env sz = Some base \<longrightarrow> Ptr48_ok base)"

lemma scratch_updated_frame:
  "geometry (scratch_updated fr pw sz base aq ss ec q) = geometry q"
  "offsets_ok (scratch_updated fr pw sz base aq ss ec q) = offsets_ok q"
  by (simp_all add: geometry_def offsets_ok_def scratch_updated_def)

lemma scratch_updated_inv:
  assumes "queue_inv q" "Ptr48_ok base" "length (scratch_resource_descriptor aq) = 4"
  shows "queue_inv (scratch_updated fr pw sz base aq ss ec q)"
proof -
  from assms have "base_ok (scratch_updated fr pw sz base aq ss ec q)"
    by (simp add: queue_inv_def base_ok_def scratch_updated_def)
  with assms(1) show ?thesis by (simp add: queue_inv_def scratch_updated_frame)
qed

section \<open>Sizes of the command sequences\<close>

lemma acquire_mem_ok:
  assumes "base_ok q"
  obtains acq where "acquire_mem q = Inr acq" "pm4_packet IT_ACQUIRE_MEM acq"
    "4 * length acq = sizeof_ACQUIRE_MEM (dev_major (cq_device q))"
proof -
  from assms have "BuildAcquireMem (dev_major (cq_device q)) \<noteq> None"
    by (intro BuildAcquireMem_Some) (simp add: base_ok_def)
  then obtain acq where a: "BuildAcquireMem (dev_major (cq_device q)) = Some acq" by blast
  from BuildAcquireMem_packet [OF a] a that show thesis by (simp add: acquire_mem_def mult.commute)
qed

lemma rptr_update_ok:
  assumes "base_ok q"
  obtains ws where "rptr_update q = Inr ws" "4 * length ws \<le> sizeof_ATOMIC_MEM"
    "pm4_packet (if platform_atomic_support q then IT_ATOMIC_MEM else IT_WRITE_DATA) ws"
proof (cases "platform_atomic_support q")
  case True
  with that [of "BuildAtomicMem (ring_rptr_addr q) TC_OP_ATOMIC_ADD_RTN_64
      cache_policy__mec_atomic_mem__stream 1"] show thesis
    using BuildAtomicMem_packet by (simp add: rptr_update_def mult.commute)
next
  case False
  from assms obtain ws where w: "BuildWriteData64Command (ring_rptr_addr q) (write_index q + 1) = Inr ws"
    by (auto simp: BuildWriteData64Command_def base_ok_def)
  from BuildWriteData64Command_packet [OF w] w False that [of ws] show thesis
    by (simp add: rptr_update_def sizeof_defs)
qed

lemma stamp_size: "4 * length (profiling_stamp q s off) \<le> sizeof_COPY_DATA"
  using BuildCopyData_packet(2) by (simp add: profiling_stamp_def BuildCopyData_default_def mult.commute)

lemma barrier_size: "4 * length BuildBarrier_default = sizeof_EVENT_WRITE"
  using BuildBarrier_packet(2) by (simp add: BuildBarrier_default_def mult.commute)

lemma decrement_size: "4 * length (signal_decrement q s) \<le> sizeof_ATOMIC_MEM"
  using BuildAtomicMem_packet(2) by (simp add: signal_decrement_def mult.commute)

section \<open>Opcodes of a command sequence\<close>

definition packets_of :: "u32 list \<Rightarrow> u32 list \<Rightarrow> bool" where
  "packets_of ops ws \<longleftrightarrow> (\<exists>ps. ws = concat (map snd ps) \<and> map fst ps = ops \<and>
     (\<forall>(opc, p) \<in> set ps. pm4_packet opc p))"

lemma packets_of_Nil [simp]: "packets_of [] []"
  by (simp add: packets_of_def)

lemma packets_of_single: "pm4_packet opc p \<Longrightarrow> packets_of [opc] p"
  unfolding packets_of_def by (intro exI [of _ "[(opc, p)]"]) simp

lemma packets_of_append:
  assumes "packets_of a x" "packets_of b y"
  shows "packets_of (a @ b) (x @ y)"
proof -
  from assms obtain ps qs where "x = concat (map snd ps)" "map fst ps = a"
    "\<forall>(opc, p) \<in> set ps. pm4_packet opc p" "y = concat (map snd qs)" "map fst qs = b"
    "\<forall>(opc, p) \<in> set qs. pm4_packet opc p" unfolding packets_of_def by blast
  then show ?thesis unfolding packets_of_def by (intro exI [of _ "ps @ qs"]) auto
qed

lemma packets_of_parse:
  assumes "packets_of ops ws"
  shows "\<exists>bs. pm4_parse ws = Some bs \<and> map fst bs = ops"
proof -
  from assms obtain ps where ps: "ws = concat (map snd ps)" "map fst ps = ops"
    "\<forall>(opc, p) \<in> set ps. pm4_packet opc p" unfolding packets_of_def by blast
  from pm4_parse_concat [OF ps(3)] ps(1,2) show ?thesis by (auto simp: comp_def split_beta)
qed

definition stamp_ops :: "compute_queue \<Rightarrow> u64 \<Rightarrow> u32 list" where
  "stamp_ops q signal = (if signal \<noteq> 0 \<and> enable_profiling q then [IT_COPY_DATA] else [])"

definition decrement_ops :: "compute_queue \<Rightarrow> u32 list" where
  "decrement_ops q = (if platform_atomic_support q then [IT_ATOMIC_MEM] else [])"

definition rptr_op :: "compute_queue \<Rightarrow> u32" where
  "rptr_op q = (if platform_atomic_support q then IT_ATOMIC_MEM else IT_WRITE_DATA)"

lemma stamp_packets: "packets_of (stamp_ops q s) (profiling_stamp q s off)"
  using BuildCopyData_packet(1)
  by (simp add: stamp_ops_def profiling_stamp_def BuildCopyData_default_def packets_of_single)

lemma barrier_packets: "packets_of [IT_EVENT_WRITE] BuildBarrier_default"
  using BuildBarrier_packet(1) by (simp add: BuildBarrier_default_def packets_of_single)

lemma decrement_packets: "packets_of (decrement_ops q) (signal_decrement q s)"
  using BuildAtomicMem_packet(1) by (simp add: decrement_ops_def signal_decrement_def packets_of_single)

lemma dispatch_head_ok:
  assumes "base_ok q"
  obtains ws where "dispatch_head q h s = Inr ws"
    "packets_of (stamp_ops q s @ (if drop_bit 8 h AND 1 \<noteq> 0 \<and> needs_barrier q then [IT_EVENT_WRITE] else [])
       @ [IT_ACQUIRE_MEM]) ws"
    "4 * length ws \<le> sizeof_COPY_DATA + sizeof_EVENT_WRITE + sizeof_ACQUIRE_MEM (dev_major (cq_device q))"
proof (rule acquire_mem_ok [OF assms])
  fix acq
  assume a: "acquire_mem q = Inr acq" "pm4_packet IT_ACQUIRE_MEM acq"
    "4 * length acq = sizeof_ACQUIRE_MEM (dev_major (cq_device q))"
  let ?bar = "if drop_bit 8 h AND 1 \<noteq> 0 \<and> needs_barrier q then BuildBarrier_default else []"
  let ?ops = "if drop_bit 8 h AND 1 \<noteq> 0 \<and> needs_barrier q then [IT_EVENT_WRITE] else []"
  have bar: "packets_of ?ops ?bar" "4 * length ?bar \<le> sizeof_EVENT_WRITE"
    using barrier_packets barrier_size by auto
  show thesis
  proof (rule that)
    show "dispatch_head q h s = Inr (profiling_stamp q s offsetof_signal_start_ts @ ?bar @ acq)"
      by (simp add: dispatch_head_def a(1))
    show "packets_of (stamp_ops q s @ ?ops @ [IT_ACQUIRE_MEM])
        (profiling_stamp q s offsetof_signal_start_ts @ ?bar @ acq)"
      by (intro packets_of_append stamp_packets bar(1) packets_of_single a(2))
    show "4 * length (profiling_stamp q s offsetof_signal_start_ts @ ?bar @ acq) \<le>
        sizeof_COPY_DATA + sizeof_EVENT_WRITE + sizeof_ACQUIRE_MEM (dev_major (cq_device q))"
      unfolding length_append add_mult_distrib2
      using stamp_size [of q s offsetof_signal_start_ts] bar(2) a(3) by linarith
  qed
qed

lemma dispatch_scratch_ok:
  assumes "base_ok q"
  obtains ws where "dispatch_scratch q = Inr ws"
    "packets_of (if 11 \<le> dev_major (cq_device q) then [IT_SET_SH_REG, IT_SET_SH_REG] else []) ws"
    "4 * length ws = (if 11 \<le> dev_major (cq_device q)
        then sizeof_SetScratchTemplate + sizeof_DispatchProgramResourceRegs3 else 0)"
proof (cases "11 \<le> dev_major (cq_device q)")
  case True
  from assms obtain ws where w: "BuildScratch (scratch_base q) = Inr ws"
    by (auto simp: BuildScratch_def base_ok_def Ptr48Low32_def)
  from BuildScratch_packet [OF w] have p: "pm4_packet IT_SET_SH_REG ws"
    "length ws * 4 = sizeof_SetScratchTemplate" by auto
  from packets_of_append [OF packets_of_single [OF p(1)]
      packets_of_single [OF BuildComputeShaderParams_packet(1)]]
  show thesis using that [of "ws @ BuildComputeShaderParams"] True w p(2)
      BuildComputeShaderParams_packet(2) by (simp add: dispatch_scratch_def mult.commute)
next
  case False
  with that [of "[]"] show thesis by (simp add: dispatch_scratch_def)
qed

lemma dispatch_tail_ok:
  assumes "base_ok q" "s \<noteq> 0 \<longrightarrow> env_signal_kind env s = AMD_SIGNAL_KIND_USER"
  obtains ws where "dispatch_tail env q s = Inr ws"
    "packets_of (if s \<noteq> 0 then [IT_EVENT_WRITE] @ stamp_ops q s @ [IT_ACQUIRE_MEM] @ decrement_ops q else []) ws"
    "4 * length ws \<le> sizeof_EVENT_WRITE + sizeof_COPY_DATA +
       sizeof_ACQUIRE_MEM (dev_major (cq_device q)) + sizeof_ATOMIC_MEM"
proof (rule acquire_mem_ok [OF assms(1)])
  fix acq
  assume a: "acquire_mem q = Inr acq" "pm4_packet IT_ACQUIRE_MEM acq"
    "4 * length acq = sizeof_ACQUIRE_MEM (dev_major (cq_device q))"
  let ?ws = "BuildBarrier_default @ profiling_stamp q s offsetof_signal_end_ts @ acq @ signal_decrement q s"
  have p: "packets_of ([IT_EVENT_WRITE] @ stamp_ops q s @ [IT_ACQUIRE_MEM] @ decrement_ops q) ?ws"
    by (intro packets_of_append stamp_packets barrier_packets decrement_packets packets_of_single a(2))
  have l: "4 * length ?ws \<le> sizeof_EVENT_WRITE + sizeof_COPY_DATA +
       sizeof_ACQUIRE_MEM (dev_major (cq_device q)) + sizeof_ATOMIC_MEM"
    unfolding length_append add_mult_distrib2
    using stamp_size [of q s offsetof_signal_end_ts] barrier_size decrement_size [of q s] a(3) by linarith
  show thesis
  proof (cases "s = 0")
    case True
    with that [of "[]"] show thesis by (simp add: dispatch_tail_def)
  next
    case False
    with assms(2) that [of ?ws] p l show thesis by (simp add: dispatch_tail_def a(1))
  qed
qed

section \<open>Kernel dispatch\<close>

definition dispatch_ops :: "compute_queue \<Rightarrow> hsa_kernel_dispatch_packet \<Rightarrow> u32 list" where
  "dispatch_ops q pkt =
     (stamp_ops q (kd_completion_signal pkt) @
      (if drop_bit 8 (kd_header pkt) AND 1 \<noteq> 0 \<and> needs_barrier q then [IT_EVENT_WRITE] else []) @
      [IT_ACQUIRE_MEM]) @
     (if 11 \<le> dev_major (cq_device q) then [IT_SET_SH_REG, IT_SET_SH_REG] else []) @
     [IT_SET_SH_REG, IT_SET_SH_REG, IT_SET_SH_REG, IT_SET_SH_REG, IT_SET_SH_REG, IT_DISPATCH_DIRECT] @
     (if kd_completion_signal pkt \<noteq> 0
      then [IT_EVENT_WRITE] @ stamp_ops q (kd_completion_signal pkt) @ [IT_ACQUIRE_MEM] @ decrement_ops q
      else []) @
     [rptr_op q]"

lemma BuildDispatch_packets:
  assumes "dispatch_ok p"
  obtains ws offs where "BuildDispatch p = Inr (ws, offs)"
    "packets_of [IT_SET_SH_REG, IT_SET_SH_REG, IT_SET_SH_REG, IT_SET_SH_REG, IT_SET_SH_REG,
       IT_DISPATCH_DIRECT] ws"
    "length ws = 44" "\<forall>off \<in> set offs. 4 dvd off \<and> off + 8 \<le> 4 * length ws"
proof (rule BuildDispatch_eq [OF assms])
  fix lo user offs
  assume *: "sgprs_ok 15 2 (user, offs)"
    "BuildDispatch p = Inr (concat (map snd (dispatch_stream p lo user)), offs)"
  then have le: "length user \<le> 16" by (simp add: sgprs_ok_def)
  show thesis
  proof (rule that [OF *(2)])
    show "length (concat (map snd (dispatch_stream p lo user))) = 44"
      by (rule dispatch_stream_length [OF le])
    then show "\<forall>off\<in>set offs. 4 dvd off \<and> off + 8 \<le> 4 * length (concat (map snd (dispatch_stream p lo user)))"
      using * le by (auto simp: sgprs_ok_def sizeof_defs)
    show "packets_of [IT_SET_SH_REG, IT_SET_SH_REG, IT_SET_SH_REG, IT_SET_SH_REG, IT_SET_SH_REG,
       IT_DISPATCH_DIRECT] (concat (map snd (dispatch_stream p lo user)))"
      unfolding packets_of_def using dispatch_stream_packets [OF le]
      by (intro exI [of _ "dispatch_stream p lo user"]) (auto simp: dispatch_stream_def)
  qed
qed

lemma UpdateIndexStride_ok: "base_ok q \<Longrightarrow> \<exists>d. UpdateIndexStride (dev_major (cq_device q)) w w32 = Inr d"
  by (simp add: UpdateIndexStride_def base_ok_def)

text \<open>The offsets a sequence records are inside it and word aligned.\<close>

definition offs_in :: "nat list \<Rightarrow> u32 list \<Rightarrow> bool" where
  "offs_in offs ws \<longleftrightarrow> (\<forall>off \<in> set offs. 4 dvd off \<and> off + 8 \<le> 4 * length ws)"

lemma dispatch_words_ok:
  assumes q: "base_ok q"
    and d: "\<And>srd3. dispatch_ok (dispatch_info q pkt_addr pkt ko entry lds w32 srd3)"
    and s: "kd_completion_signal pkt \<noteq> 0 \<longrightarrow>
      env_signal_kind env (kd_completion_signal pkt) = AMD_SIGNAL_KIND_USER"
  obtains ws offs where "dispatch_words env q pkt_addr pkt ko entry lds w32 = Inr (ws, offs)"
    "packets_of (dispatch_ops q pkt) ws" "4 * length ws + 128 \<le> FR q" "offs_in offs ws"
proof -
  let ?s = "kd_completion_signal pkt" and ?m = "dev_major (cq_device q)"
  from dispatch_head_ok [OF q] obtain h where h: "dispatch_head q (kd_header pkt) ?s = Inr h"
    "packets_of (stamp_ops q ?s @ (if drop_bit 8 (kd_header pkt) AND 1 \<noteq> 0 \<and> needs_barrier q
       then [IT_EVENT_WRITE] else []) @ [IT_ACQUIRE_MEM]) h"
    "4 * length h \<le> sizeof_COPY_DATA + sizeof_EVENT_WRITE + sizeof_ACQUIRE_MEM ?m" by blast
  from dispatch_scratch_ok [OF q] obtain c where c: "dispatch_scratch q = Inr c"
    "packets_of (if 11 \<le> ?m then [IT_SET_SH_REG, IT_SET_SH_REG] else []) c"
    "4 * length c = (if 11 \<le> ?m then sizeof_SetScratchTemplate + sizeof_DispatchProgramResourceRegs3
       else 0)" by blast
  from q have "\<exists>d3. srd_word (cq_amd_queue q) 3 = Inr d3" by (simp add: srd_word_def base_ok_def)
  then obtain d3 where d3: "srd_word (cq_amd_queue q) 3 = Inr d3" by blast
  from UpdateIndexStride_ok [OF q] obtain srd3 where srd3: "UpdateIndexStride ?m d3 w32 = Inr srd3" by blast
  from BuildDispatch_packets [OF d] obtain b offs where b:
    "BuildDispatch (dispatch_info q pkt_addr pkt ko entry lds w32 srd3) = Inr (b, offs)"
    "packets_of [IT_SET_SH_REG, IT_SET_SH_REG, IT_SET_SH_REG, IT_SET_SH_REG, IT_SET_SH_REG,
       IT_DISPATCH_DIRECT] b" "length b = 44"
    "\<forall>off \<in> set offs. 4 dvd off \<and> off + 8 \<le> 4 * length b" by blast
  from dispatch_tail_ok [OF q s] obtain t where t: "dispatch_tail env q ?s = Inr t"
    "packets_of (if ?s \<noteq> 0 then [IT_EVENT_WRITE] @ stamp_ops q ?s @ [IT_ACQUIRE_MEM] @ decrement_ops q
       else []) t"
    "4 * length t \<le> sizeof_EVENT_WRITE + sizeof_COPY_DATA + sizeof_ACQUIRE_MEM ?m + sizeof_ATOMIC_MEM"
    by blast
  from rptr_update_ok [OF q] obtain r where r: "rptr_update q = Inr r"
    "4 * length r \<le> sizeof_ATOMIC_MEM" "pm4_packet (rptr_op q) r" unfolding rptr_op_def by blast
  let ?offs = "(if ?m \<ge> 11 then [4 * length h + offsetof_scratch_lo] else []) @
      map (\<lambda>off. 4 * (length h + length c) + off) offs"
  show thesis
  proof (rule that)
    show "dispatch_words env q pkt_addr pkt ko entry lds w32 = Inr (h @ c @ b @ t @ r, ?offs)"
      by (simp add: dispatch_words_def h(1) c(1) d3 srd3 b(1) t(1) r(1))
    show "packets_of (dispatch_ops q pkt) (h @ c @ b @ t @ r)"
      unfolding dispatch_ops_def
      by (intro packets_of_append h(2) c(2) b(2) t(2) packets_of_single r(3))
    have "sizeof_ACQUIRE_MEM ?m * 2 + 312 + 4 * length c + 128 \<le> FR q"
      using q c(3) by (auto simp: base_ok_def frame_bytes_def sizeof_ACQUIRE_MEM_def sizeof_defs)
    then show "4 * length (h @ c @ b @ t @ r) + 128 \<le> FR q"
      using h(3) t(3) r(2) b(3) unfolding length_append add_mult_distrib2 sizeof_defs by linarith
    show "offs_in ?offs (h @ c @ b @ t @ r)"
      using b(4) c(3) unfolding offs_in_def by (auto simp: sizeof_defs split: if_splits)
  qed
qed


text \<open>The members a translation leaves alone until it commits.\<close>

definition same_core :: "compute_queue \<Rightarrow> compute_queue \<Rightarrow> bool" where
  "same_core q r \<longleftrightarrow>
     cq_device r = cq_device q \<and> cmdbuf_addr r = cmdbuf_addr q \<and> cmdbuf r = cmdbuf q \<and>
     ring_slots r = ring_slots q \<and> ring_size r = ring_size q \<and> ring_rptr_addr r = ring_rptr_addr q \<and>
     ib_start_addr r = ib_start_addr q \<and> ib_size r = ib_size q \<and> sync_point r = sync_point q \<and>
     write_index r = write_index q \<and> frame_size r = frame_size q \<and>
     ready_to_submit r = ready_to_submit q \<and> submissions r = submissions q \<and>
     platform_atomic_support r = platform_atomic_support q"

lemma same_core_geometry: "same_core q r \<Longrightarrow> geometry r = geometry q \<and> ib_offset r = ib_offset q"
  by (simp add: same_core_def geometry_def ib_offset_def)

lemma same_core_base:
  "\<lbrakk>same_core q r; base_ok q; Ptr48_ok (scratch_base r);
    length (scratch_resource_descriptor (cq_amd_queue r)) = 4\<rbrakk> \<Longrightarrow> base_ok r"
  by (simp add: same_core_def base_ok_def)

definition new_offsets_ok :: "nat \<Rightarrow> compute_queue \<Rightarrow> bool" where
  "new_offsets_ok n q \<longleftrightarrow> (\<forall>off \<in> set (scratch_base_offset_array q).
     unat off + 8 \<le> unat (ib_size q) + n \<and> 4 dvd unat off)"

lemma append_offsets_ok:
  assumes g: "geometry q" and o: "offsets_ok q" and i: "offs_in offs ws" and l: "4 * length ws \<le> FR q"
    and r: "scratch_base_offset_array r = scratch_base_offset_array q @
      map (\<lambda>off. ucast (ib_size q) + of_nat off) offs" "ib_size r = ib_size q"
  shows "new_offsets_ok (4 * length ws) r"
proof -
  have b: "unat (ib_size q) < 2228224" "4 dvd unat (ib_size q)" "FR q \<le> 544"
    using ib_offset_frame(3) [OF g] g by (auto simp: geometry_def)
  have new: "unat (ucast (ib_size q) + of_nat off :: u32) = unat (ib_size q) + off"
    if "off + 8 \<le> 4 * length ws" for off
  proof -
    have "unat (of_nat off :: u32) = off" using that l b(3) by (intro unat_of_nat32) simp
    moreover have "unat (ucast (ib_size q) :: u32) = unat (ib_size q)"
      using b(1) by (intro unat_ucast_down) simp
    ultimately show ?thesis using that l b by (subst unat_add32) auto
  qed
  show ?thesis unfolding new_offsets_ok_def r
    using o i b(2) by (auto simp: offsets_ok_def offs_in_def new)
qed

lemma note_signal_fields:
  "same_core q (note_signal s q)" "scratch_base (note_signal s q) = scratch_base q"
  "cq_amd_queue (note_signal s q) = cq_amd_queue q"
  "scratch_base_offset_array (note_signal s q) = scratch_base_offset_array q"
  by (simp_all add: note_signal_def same_core_def)

text \<open>Errors of the checks at the head of \<^verbatim>\<open>KernelDispatchAqlToPm4\<close>; the queue is unchanged.\<close>

definition dispatch_reject :: "queue_env \<Rightarrow> compute_queue \<Rightarrow> hsa_kernel_dispatch_packet \<Rightarrow> hsa_status option" where
  "dispatch_reject env q pkt =
     (if 1024 < workgroup_size_x pkt \<or> 1024 < workgroup_size_y pkt \<or> 1024 < workgroup_size_z pkt
      then Some HSA_STATUS_ERROR_INVALID_ARGUMENT
      else if env_kernel_object env (kernel_object pkt) = None
      then Some HSA_STATUS_ERROR_INVALID_CODE_OBJECT
      else if kd_setup pkt = 0 \<or> 3 < kd_setup pkt then Some HSA_STATUS_ERROR_INCOMPATIBLE_ARGUMENTS
      else if dev_lds_size (cq_device q) < group_segment_size pkt
      then Some HSA_STATUS_ERROR_INVALID_ALLOCATION
      else if 128 < LdsBlocks (group_segment_size pkt) then Some HSA_STATUS_ERROR_INVALID_ARGUMENT
      else None)"

lemma KernelDispatch_reject:
  assumes "kernel_ok env q (as_dispatch (ring_slots q ! slot))"
    and "dispatch_reject env q (as_dispatch (ring_slots q ! slot)) = Some st"
  shows "KernelDispatchAqlToPm4 env cpu slot q = Inr (st, q)"
  using assms unfolding KernelDispatchAqlToPm4_def dispatch_reject_def kernel_ok_def Let_def
  by (auto split: if_splits option.splits)

definition dispatch_ready :: "u64 \<Rightarrow> nat list \<Rightarrow> compute_queue \<Rightarrow> compute_queue" where
  "dispatch_ready signal offs q =
     (if signal \<noteq> 0 then note_signal signal else id)
       (q\<lparr>scratch_base_offset_array := scratch_base_offset_array q @
            map (\<lambda>off. ucast (ib_size q) + of_nat off) offs,
          needs_barrier := (signal = 0)\<rparr>)"

lemma dispatch_ready_fields:
  "same_core q (dispatch_ready s offs q)" "scratch_base (dispatch_ready s offs q) = scratch_base q"
  "cq_amd_queue (dispatch_ready s offs q) = cq_amd_queue q"
  "scratch_base_offset_array (dispatch_ready s offs q) =
     scratch_base_offset_array q @ map (\<lambda>off. ucast (ib_size q) + of_nat off) offs"
  by (simp_all add: dispatch_ready_def note_signal_def same_core_def)

lemma KernelDispatch_accept:
  assumes "kernel_ok env q pkt" "pkt = as_dispatch (ring_slots q ! slot)"
    and "dispatch_reject env q pkt = None"
    and ko: "env_kernel_object env (kernel_object pkt) = Some ko"
    and u: "UpdateScratch env (private_segment_size pkt)
      (AMD_HSA_BITS_GET (kernel_code_properties ko) ENABLE_WAVEFRONT_SIZE32) q = Inr (b, q1)"
    and w: "dispatch_words env q1 (ring_addr q + of_nat (slot * 64)) pkt ko
      (kernel_object pkt + kernel_code_entry_byte_offset ko) (LdsBlocks (group_segment_size pkt))
      (AMD_HSA_BITS_GET (kernel_code_properties ko) ENABLE_WAVEFRONT_SIZE32) = Inr (ws, offs)"
  shows "KernelDispatchAqlToPm4 env cpu slot q =
    commit_packet cpu slot ws (dispatch_ready (kd_completion_signal pkt) offs q1)"
proof -
  from assms(1) ko have a: "(kernel_object pkt + kernel_code_entry_byte_offset ko) mod 256 = 0"
    "workitem_private_segment_byte_size ko \<le> private_segment_size pkt"
    by (simp_all add: kernel_ok_def Let_def)
  from assms(3) have r: "\<not> (1024 < workgroup_size_x pkt \<or> 1024 < workgroup_size_y pkt \<or>
      1024 < workgroup_size_z pkt)" "\<not> (kd_setup pkt = 0 \<or> 3 < kd_setup pkt)"
    "\<not> dev_lds_size (cq_device q) < group_segment_size pkt"
    "\<not> 128 < LdsBlocks (group_segment_size pkt)"
    by (auto simp: dispatch_reject_def split: if_splits)
  show ?thesis
    unfolding KernelDispatchAqlToPm4_def Let_def assms(2) [symmetric]
    by (simp only: r ko a u w if_False bindE_simps assertE_simps option.case prod.case
        dispatch_ready_def simp_thms)
qed

section \<open>One contract for the three translations\<close>

text \<open>
  \<open>translated q slot ws q'\<close>: the words went to the buffer at the end of the indirect buffer, within one
  frame, the packet is accounted for and the slot freed; the rest of the core is untouched.
\<close>

definition translated :: "compute_queue \<Rightarrow> nat \<Rightarrow> u32 list \<Rightarrow> compute_queue \<Rightarrow> bool" where
  "translated q slot ws q' \<longleftrightarrow> (\<exists>r. q' = committed slot ws r \<and> same_core q r \<and> base_ok r \<and>
     new_offsets_ok (4 * length ws) r \<and> 4 * length ws \<le> FR q)"

lemma translated_fields:
  assumes "translated q slot ws q'"
  shows "cmdbuf q' = overwrite (ib_offset q div 4) ws (cmdbuf q)"
    and "write_index q' = write_index q + 1" and "sync_point q' = sync_point q"
    and "cmdbuf_addr q' = cmdbuf_addr q" and "frame_size q' = frame_size q"
    and "ib_start_addr q' = ib_start_addr q" and "ib_size q' = ib_size q + of_nat (4 * length ws)"
    and "submissions q' = submissions q" and "ready_to_submit q' = ready_to_submit q"
    and "cq_device q' = cq_device q" and "ring_size q' = ring_size q"
    and "ring_slots q' = (ring_slots q)[slot := invalidate_slot (ring_slots q ! slot)]"
    and "ring_rptr_addr q' = ring_rptr_addr q"
    and "platform_atomic_support q' = platform_atomic_support q"
  using assms by (auto simp: translated_def committed_def same_core_def ib_offset_def)

lemma translated_base: "translated q slot ws q' \<Longrightarrow> base_ok q'"
  by (auto simp: translated_def committed_def base_ok_def)

lemma translated_size:
  assumes "geometry q" "translated q slot ws q'"
  shows "unat (ib_size q') = unat (ib_size q) + 4 * length ws" "4 * length ws \<le> FR q"
    "ib_offset q div 4 + length ws \<le> length (cmdbuf q)"
proof -
  have l: "4 * length ws \<le> FR q" using assms(2) by (auto simp: translated_def)
  then show "4 * length ws \<le> FR q" .
  have b: "unat (ib_size q) < 2228224" "FR q \<le> 544"
    using ib_offset_frame(3) [OF assms(1)] assms(1) by (auto simp: geometry_def)
  have "unat (of_nat (4 * length ws) :: u64) = 4 * length ws"
    using l b by (intro unat_of_nat64) simp
  then show "unat (ib_size q') = unat (ib_size q) + 4 * length ws"
    unfolding translated_fields(7) [OF assms(2)] using l b by (subst unat_add64) simp_all
  show "ib_offset q div 4 + length ws \<le> length (cmdbuf q)" by (rule commit_packet_ok(2) [OF assms(1) l])
qed

lemma translated_offsets:
  assumes "geometry q" "translated q slot ws q'"
  shows "offsets_ok q'"
proof -
  from assms(2) obtain r where r: "q' = committed slot ws r" "same_core q r"
    "new_offsets_ok (4 * length ws) r" by (auto simp: translated_def)
  have "unat (ib_size q') = unat (ib_size r) + 4 * length ws"
    using translated_size(1) [OF assms] r(2) by (simp add: same_core_def)
  with r show ?thesis by (simp add: offsets_ok_def new_offsets_ok_def committed_def)
qed

text \<open>Accounting after a translation, and the geometry when the pass over the buffer goes on.\<close>

lemma translated_inv:
  assumes q: "queue_inv q" and t: "translated q slot ws q'"
    and w: "WI q + 1 < 18446744073709551616" and m: "WI q' mod 4096 \<noteq> 0"
  shows "queue_inv q'"
proof -
  have g: "geometry q" using q by (simp add: queue_inv_def)
  note f = translated_fields [OF t] and sz = translated_size [OF g t]
  have wi: "WI q' = WI q + 1" unfolding f using w by (subst unat_add64) simp_all
  have "(WI q + 1) div 4096 = WI q div 4096" using m wi by (simp add: div_Suc)
  moreover have "unat (ib_size q') \<le> (WI q + 1 - SP q) * FR q"
  proof -
    have "unat (ib_size q') \<le> (WI q - SP q) * FR q + FR q"
      using sz(1,2) g by (simp add: geometry_def)
    also have "\<dots> = (WI q + 1 - SP q) * FR q" using g by (simp add: geometry_def Suc_diff_le)
    finally show ?thesis .
  qed
  ultimately have "geometry q'"
    using g sz wi unfolding geometry_def f(1,3,4,5,6) by simp
  then show ?thesis using translated_base [OF t] translated_offsets [OF g t] by (simp add: queue_inv_def)
qed

lemma translated_confined:
  assumes "geometry q" "translated q slot ws q'" "k < length (cmdbuf q)"
    and "4 * k < ib_offset q \<or> (WI q mod 4096 + 1) * FR q \<le> 4 * k"
  shows "cmdbuf q' ! k = cmdbuf q ! k"
proof -
  note sz = translated_size [OF assms(1,2)] and o = ib_offset_frame [OF assms(1)]
  have d: "4 * (ib_offset q div 4) = ib_offset q" using ib_offset_index(2) [OF assms(1)] by simp
  have "ib_offset q + 4 * length ws \<le> (WI q mod 4096 + 1) * FR q"
    using o(1) sz(2) by (simp add: add_mult_distrib)
  with assms(4) d have "k < ib_offset q div 4 \<or> ib_offset q div 4 + length ws \<le> k" by linarith
  then show ?thesis unfolding translated_fields(1) [OF assms(2)]
    by (rule nth_overwrite_outside [OF sz(3) assms(3)])
qed

locale frame_translator =
  fixes tr :: "queue_env \<Rightarrow> nat \<Rightarrow> compute_queue \<Rightarrow> (hsa_status \<times> compute_queue) res"
    and ok :: "queue_env \<Rightarrow> nat \<Rightarrow> compute_queue \<Rightarrow> bool"
    and reject :: "queue_env \<Rightarrow> nat \<Rightarrow> compute_queue \<Rightarrow> hsa_status option"
    and ops :: "queue_env \<Rightarrow> nat \<Rightarrow> compute_queue \<Rightarrow> u32 list \<Rightarrow> bool"
  assumes rejects: "\<lbrakk>queue_inv q; ok env slot q; reject env slot q = Some st\<rbrakk> \<Longrightarrow>
      tr env slot q = Inr (st, q) \<and> st \<noteq> HSA_STATUS_SUCCESS \<and> st \<noteq> HSA_STATUS_ERROR_OUT_OF_RESOURCES"
    and accepts: "\<lbrakk>queue_inv q; ok env slot q; reject env slot q = None\<rbrakk> \<Longrightarrow>
      \<exists>ws q'. tr env slot q = Inr (HSA_STATUS_SUCCESS, q') \<and> translated q slot ws q' \<and> ops env slot q ws"
begin

lemma total:
  assumes "queue_inv q" "ok env slot q"
  shows "\<exists>st q'. tr env slot q = Inr (st, q') \<and> st \<noteq> HSA_STATUS_ERROR_OUT_OF_RESOURCES"
  using rejects [OF assms] accepts [OF assms] by (cases "reject env slot q") auto

lemma success_translated:
  assumes "queue_inv q" "ok env slot q" "tr env slot q = Inr (HSA_STATUS_SUCCESS, q')"
  obtains ws where "translated q slot ws q'" "ops env slot q ws"
  using rejects [OF assms(1,2)] accepts [OF assms(1,2)] assms(3) that
  by (cases "reject env slot q") auto

lemma error_unchanged:
  assumes "queue_inv q" "ok env slot q" "tr env slot q = Inr (st, q')" "st \<noteq> HSA_STATUS_SUCCESS"
  shows "q' = q \<and> reject env slot q = Some st"
  using rejects [OF assms(1,2)] accepts [OF assms(1,2)] assms(3,4)
  by (cases "reject env slot q") auto

lemma confined:
  assumes "queue_inv q" "ok env slot q" "tr env slot q = Inr (st, q')" "k < length (cmdbuf q)"
    and "4 * k < ib_offset q \<or> (WI q mod 4096 + 1) * FR q \<le> 4 * k"
  shows "cmdbuf q' ! k = cmdbuf q ! k"
proof (cases "st = HSA_STATUS_SUCCESS")
  case True
  obtain ws where "translated q slot ws q'"
    by (rule success_translated [OF assms(1,2)]) (use assms(3) True in auto)
  then show ?thesis using translated_confined assms(1,4,5) by (auto simp: queue_inv_def)
next
  case False
  then show ?thesis using error_unchanged [OF assms(1,2,3)] by simp
qed

end

lemma UpdateScratch_inv:
  assumes inv: "queue_inv q" and al: "alloc_ok env"
  obtains b q1 where "UpdateScratch env p w q = Inr (b, q1)" "queue_inv q1" "same_core q q1"
    "\<And>pkt. dispatch_ops q1 pkt = dispatch_ops q pkt"
proof -
  from inv have base: "base_ok q" by (simp add: queue_inv_def)
  then have se: "dev_num_shader_engine (cq_device q) \<noteq> 0" by (simp add: base_ok_def)
  from UpdateScratch_shape [OF se, of env p w] obtain b fr pw sz sb aq ss ec where
    u: "UpdateScratch env p w q = Inr (b, scratch_updated fr pw sz sb aq ss ec q)"
    and sb: "sb = scratch_base q \<and> aq = cq_amd_queue q \<or>
      env_alloc_scratch env sz = Some sb \<and> length (scratch_resource_descriptor aq) = 4" by blast
  from sb base al have "Ptr48_ok sb" "length (scratch_resource_descriptor aq) = 4"
    by (auto simp: base_ok_def alloc_ok_def)
  then have "queue_inv (scratch_updated fr pw sz sb aq ss ec q)" by (rule scratch_updated_inv [OF inv])
  then show thesis
    by (rule that [OF u]) (simp_all add: scratch_updated_def same_core_def dispatch_ops_def stamp_ops_def
        decrement_ops_def rptr_op_def)
qed

lemma KernelDispatch_accepts:
  assumes inv: "queue_inv q" and al: "alloc_ok env" and k: "kernel_ok env q pkt"
    and p: "pkt = as_dispatch (ring_slots q ! slot)" and rej: "dispatch_reject env q pkt = None"
  shows "\<exists>ws q'. KernelDispatchAqlToPm4 env (ib_start_addr q) slot q = Inr (HSA_STATUS_SUCCESS, q') \<and>
    translated q slot ws q' \<and> packets_of (dispatch_ops q pkt) ws"
proof -
  from rej obtain ko where ko: "env_kernel_object env (kernel_object pkt) = Some ko"
    by (auto simp: dispatch_reject_def split: if_splits)
  let ?w = "AMD_HSA_BITS_GET (kernel_code_properties ko) ENABLE_WAVEFRONT_SIZE32"
  let ?entry = "kernel_object pkt + kernel_code_entry_byte_offset ko"
  from UpdateScratch_inv [OF inv al] obtain b q1 where
    u: "UpdateScratch env (private_segment_size pkt) ?w q = Inr (b, q1)" and inv1: "queue_inv q1"
    and core: "same_core q q1" and ops: "dispatch_ops q1 pkt = dispatch_ops q pkt" by metis
  from inv inv1 have base: "base_ok q" "base_ok q1" and off1: "offsets_ok q1" and g: "geometry q" "geometry q1"
    by (simp_all add: queue_inv_def)
  have d: "dispatch_ok (dispatch_info q1 a pkt ko ?entry l ?w srd3)" for a l srd3
    using k ko base(2) core
    by (auto simp: dispatch_ok_def dispatch_info_def kernel_ok_def Let_def base_ok_def same_core_def)
  from k have sig: "kd_completion_signal pkt \<noteq> 0 \<longrightarrow>
      env_signal_kind env (kd_completion_signal pkt) = AMD_SIGNAL_KIND_USER" by (simp add: kernel_ok_def)
  from dispatch_words_ok [OF base(2) d sig] obtain ws offs where
    w: "dispatch_words env q1 (ring_addr q + of_nat (slot * 64)) pkt ko ?entry
      (LdsBlocks (group_segment_size pkt)) ?w = Inr (ws, offs)"
    and ps: "packets_of (dispatch_ops q1 pkt) ws" and l: "4 * length ws + 128 \<le> FR q1"
    and oi: "offs_in offs ws" by blast
  define r where "r = dispatch_ready (kd_completion_signal pkt) offs q1"
  note rf = dispatch_ready_fields [where q = q1 and s = "kd_completion_signal pkt" and offs = offs,
      folded r_def]
  have core_r: "same_core q r" using core rf(1) by (auto simp: same_core_def)
  have l': "4 * length ws \<le> FR r" "4 * length ws \<le> FR q" "4 * length ws \<le> FR q1"
    using l core core_r by (auto simp: same_core_def)
  have gr: "geometry r" using g(1) same_core_geometry [OF core_r] by simp
  have "new_offsets_ok (4 * length ws) r"
    using rf(1,4) by (intro append_offsets_ok [OF g(2) off1 oi l'(3)]) (simp_all add: same_core_def)
  moreover have "base_ok r"
    using rf base by (intro same_core_base [OF core_r base(1)]) (simp_all add: base_ok_def)
  ultimately have "translated q slot ws (committed slot ws r)"
    using core_r l'(2) by (auto simp: translated_def)
  moreover have "KernelDispatchAqlToPm4 env (ib_start_addr q) slot q =
      Inr (HSA_STATUS_SUCCESS, committed slot ws r)"
    using KernelDispatch_accept [OF k p rej ko u w, folded r_def]
      commit_packet_ok(1) [OF gr l'(1)] core_r by (simp add: same_core_def)
  ultimately show ?thesis using ps ops by auto
qed

definition kernel_packet_ok :: "queue_env \<Rightarrow> nat \<Rightarrow> compute_queue \<Rightarrow> bool" where
  "kernel_packet_ok env slot q \<longleftrightarrow> alloc_ok env \<and> kernel_ok env q (as_dispatch (ring_slots q ! slot))"

interpretation kd: frame_translator
  "\<lambda>env slot q. KernelDispatchAqlToPm4 env (ib_start_addr q) slot q" kernel_packet_ok
  "\<lambda>env slot q. dispatch_reject env q (as_dispatch (ring_slots q ! slot))"
  "\<lambda>env slot q. packets_of (dispatch_ops q (as_dispatch (ring_slots q ! slot)))"
proof (unfold_locales, goal_cases)
  case (1 q env slot st)
  then show ?case
    using KernelDispatch_reject [of env q slot st "ib_start_addr q"]
    by (auto simp: kernel_packet_ok_def dispatch_reject_def split: if_splits)
next
  case (2 q env slot)
  then show ?case by (intro KernelDispatch_accepts) (simp_all add: kernel_packet_ok_def)
qed

section \<open>Barriers and vendor packets\<close>

lemma commit_translated:
  assumes inv: "queue_inv q" and c: "same_core q r" and b: "scratch_base r = scratch_base q"
    "cq_amd_queue r = cq_amd_queue q" "scratch_base_offset_array r = scratch_base_offset_array q"
    and l: "4 * length ws \<le> FR q"
  shows "\<exists>q'. commit_packet (ib_start_addr q) slot ws r = Inr (HSA_STATUS_SUCCESS, q') \<and>
    translated q slot ws q'"
proof -
  from inv have g: "geometry r" using same_core_geometry [OF c] by (simp add: queue_inv_def)
  have "base_ok r" using inv b by (intro same_core_base [OF c]) (simp_all add: queue_inv_def base_ok_def)
  moreover have "new_offsets_ok (4 * length ws) r"
    using inv b(3) c by (auto simp: queue_inv_def offsets_ok_def new_offsets_ok_def same_core_def)
  ultimately have "translated q slot ws (committed slot ws r)" using c l by (auto simp: translated_def)
  moreover have "commit_packet (ib_start_addr q) slot ws r = Inr (HSA_STATUS_SUCCESS, committed slot ws r)"
    using commit_packet_ok(1) [OF g] l c by (simp add: same_core_def)
  ultimately show ?thesis by blast
qed

definition barrier_ops :: "compute_queue \<Rightarrow> u64 \<Rightarrow> u32 list" where
  "barrier_ops q signal =
     (if signal \<noteq> 0
      then stamp_ops q signal @ (if needs_barrier q then [IT_EVENT_WRITE] else []) @ stamp_ops q signal @
           [IT_ACQUIRE_MEM] @ decrement_ops q
      else [])"

lemma barrier_words_ok:
  assumes "base_ok q" "s \<noteq> 0 \<longrightarrow> env_signal_kind env s = AMD_SIGNAL_KIND_USER"
  obtains ws where "barrier_words env q s = Inr ws" "packets_of (barrier_ops q s) ws"
    "4 * length ws + sizeof_ATOMIC_MEM \<le> FR q"
proof (rule acquire_mem_ok [OF assms(1)])
  fix acq
  assume a: "acquire_mem q = Inr acq" "pm4_packet IT_ACQUIRE_MEM acq"
    "4 * length acq = sizeof_ACQUIRE_MEM (dev_major (cq_device q))"
  let ?bar = "if needs_barrier q then BuildBarrier_default else []"
  let ?ops = "if needs_barrier q then [IT_EVENT_WRITE] else []"
  let ?ws = "profiling_stamp q s offsetof_signal_start_ts @ ?bar @
    profiling_stamp q s offsetof_signal_end_ts @ acq @ signal_decrement q s"
  have bar: "packets_of ?ops ?bar" "4 * length ?bar \<le> sizeof_EVENT_WRITE"
    using barrier_packets barrier_size by auto
  have fr: "sizeof_ACQUIRE_MEM (dev_major (cq_device q)) + 160 \<le> FR q"
    using assms(1) by (auto simp: base_ok_def frame_bytes_def sizeof_ACQUIRE_MEM_def sizeof_defs)
  have p: "packets_of (stamp_ops q s @ ?ops @ stamp_ops q s @ [IT_ACQUIRE_MEM] @ decrement_ops q) ?ws"
    by (intro packets_of_append stamp_packets bar(1) decrement_packets packets_of_single a(2))
  have l: "4 * length ?ws + sizeof_ATOMIC_MEM \<le> FR q"
    using stamp_size [of q s offsetof_signal_start_ts] stamp_size [of q s offsetof_signal_end_ts]
      bar(2) decrement_size [of q s] a(3) fr
    unfolding length_append add_mult_distrib2 sizeof_defs by linarith
  show thesis
  proof (cases "s = 0")
    case True
    with that [of "[]"] fr show thesis by (simp add: barrier_words_def barrier_ops_def sizeof_defs)
  next
    case False
    with assms(2) that [of ?ws] p l show thesis by (simp add: barrier_words_def barrier_ops_def a(1))
  qed
qed

definition barrier_packet_ok :: "bool \<Rightarrow> queue_env \<Rightarrow> nat \<Rightarrow> compute_queue \<Rightarrow> bool" where
  "barrier_packet_ok is_or env slot q \<longleftrightarrow>
     (let pkt = as_barrier (ring_slots q ! slot); s = bp_completion_signal pkt
      in barrier_wait env is_or (dep_signal pkt) = Inr () \<and>
         (s \<noteq> 0 \<longrightarrow> env_signal_kind env s = AMD_SIGNAL_KIND_USER))"

lemma BarrierGeneric_accepts:
  assumes inv: "queue_inv q" and ok: "barrier_packet_ok is_or env slot q"
  shows "\<exists>ws q'. BarrierGenericAqlToPm4 env (ib_start_addr q) slot is_or q = Inr (HSA_STATUS_SUCCESS, q') \<and>
    translated q slot ws q' \<and>
    packets_of (barrier_ops q (bp_completion_signal (as_barrier (ring_slots q ! slot))) @ [rptr_op q]) ws"
proof -
  let ?s = "bp_completion_signal (as_barrier (ring_slots q ! slot))"
  from inv have base: "base_ok q" by (simp add: queue_inv_def)
  from ok have w: "barrier_wait env is_or (dep_signal (as_barrier (ring_slots q ! slot))) = Inr ()"
    and s: "?s \<noteq> 0 \<longrightarrow> env_signal_kind env ?s = AMD_SIGNAL_KIND_USER"
    by (simp_all add: barrier_packet_ok_def Let_def)
  from barrier_words_ok [OF base s] obtain ws where ws: "barrier_words env q ?s = Inr ws"
    "packets_of (barrier_ops q ?s) ws" "4 * length ws + sizeof_ATOMIC_MEM \<le> FR q" by blast
  from rptr_update_ok [OF base] obtain r where r: "rptr_update q = Inr r"
    "4 * length r \<le> sizeof_ATOMIC_MEM" "pm4_packet (rptr_op q) r" unfolding rptr_op_def by blast
  let ?q = "if ?s \<noteq> 0 then note_signal ?s (q\<lparr>needs_barrier := False\<rparr>) else q"
  have "\<exists>q'. commit_packet (ib_start_addr q) slot (ws @ r) ?q = Inr (HSA_STATUS_SUCCESS, q') \<and>
      translated q slot (ws @ r) q'"
    using ws(3) r(2) by (intro commit_translated [OF inv]) (auto simp: note_signal_def same_core_def)
  moreover have "packets_of (barrier_ops q ?s @ [rptr_op q]) (ws @ r)"
    by (intro packets_of_append ws(2) packets_of_single r(3))
  ultimately show ?thesis
    unfolding BarrierGenericAqlToPm4_def Let_def using w ws(1) r(1) by auto
qed

interpretation ba: frame_translator
  "\<lambda>env slot q. BarrierGenericAqlToPm4 env (ib_start_addr q) slot is_or q" "barrier_packet_ok is_or"
  "\<lambda>env slot q. None"
  "\<lambda>env slot q. packets_of (barrier_ops q (bp_completion_signal (as_barrier (ring_slots q ! slot))) @ [rptr_op q])"
  for is_or
  by unfold_locales (simp_all add: BarrierGeneric_accepts)

definition vendor_user :: "queue_env \<Rightarrow> nat \<Rightarrow> compute_queue \<Rightarrow> u32 list" where
  "vendor_user env slot q =
     (let j = ib_jump_cmd (as_vendor (ring_slots q ! slot))
      in if env_vendor_packet_process env
         then env_user_pm4 env (push_bit 32 (ucast (j ! 2)) OR (ucast (j ! 1) AND NOT 3))
                (unat (j ! 3 AND 0xFFFFF))
         else [])"

definition vendor_packet_ok :: "queue_env \<Rightarrow> nat \<Rightarrow> compute_queue \<Rightarrow> bool" where
  "vendor_packet_ok env slot q \<longleftrightarrow>
     (let pkt = as_vendor (ring_slots q ! slot); s = vp_completion_signal pkt
      in ven_hdr pkt = 1 \<and> drop_bit 8 (ib_jump_cmd pkt ! 0) AND 0xFF = IT_INDIRECT_BUFFER \<and>
         (s \<noteq> 0 \<longrightarrow> env_signal_kind env s = AMD_SIGNAL_KIND_USER) \<and>
         4 * length (vendor_user env slot q) + 160 \<le> FR q)"

lemma vendor_words_ok:
  assumes "base_ok q" "s \<noteq> 0 \<longrightarrow> env_signal_kind env s = AMD_SIGNAL_KIND_USER"
    "4 * length user + 160 \<le> FR q"
  obtains ws where "vendor_words env q user s = Inr ws" "4 * length ws + sizeof_ATOMIC_MEM \<le> FR q"
    "take (length user) ws = user"
proof (rule acquire_mem_ok [OF assms(1)])
  fix acq
  assume a: "acquire_mem q = Inr acq"
    "4 * length acq = sizeof_ACQUIRE_MEM (dev_major (cq_device q))"
  let ?ws = "user @ profiling_stamp q s offsetof_signal_start_ts @ BuildBarrier_default @
    profiling_stamp q s offsetof_signal_end_ts @ acq @ signal_decrement q s"
  have "sizeof_ACQUIRE_MEM (dev_major (cq_device q)) \<le> 32"
    by (simp add: sizeof_ACQUIRE_MEM_def sizeof_defs)
  then have l: "4 * length ?ws + sizeof_ATOMIC_MEM \<le> FR q"
    using stamp_size [of q s offsetof_signal_start_ts] stamp_size [of q s offsetof_signal_end_ts]
      barrier_size decrement_size [of q s] a(2) assms(3)
    unfolding length_append add_mult_distrib2 sizeof_defs by linarith
  show thesis
  proof (cases "s = 0")
    case True
    with that [of user] assms(3) show thesis by (simp add: vendor_words_def sizeof_defs)
  next
    case False
    with assms(2) that [of ?ws] l show thesis by (simp add: vendor_words_def a(1))
  qed
qed

lemma VendorSpecific_accepts:
  assumes inv: "queue_inv q" and ok: "vendor_packet_ok env slot q"
  shows "\<exists>ws q'. VendorSpecificAqlToPm4 env (ib_start_addr q) slot q = Inr (HSA_STATUS_SUCCESS, q') \<and>
    translated q slot ws q' \<and> take (length (vendor_user env slot q)) ws = vendor_user env slot q"
proof -
  let ?pkt = "as_vendor (ring_slots q ! slot)"
  let ?s = "vp_completion_signal ?pkt"
  from inv have base: "base_ok q" by (simp add: queue_inv_def)
  from ok have h: "ven_hdr ?pkt = 1" "drop_bit 8 (ib_jump_cmd ?pkt ! 0) AND 0xFF = IT_INDIRECT_BUFFER"
    and s: "?s \<noteq> 0 \<longrightarrow> env_signal_kind env ?s = AMD_SIGNAL_KIND_USER"
    and fit: "4 * length (vendor_user env slot q) + 160 \<le> FR q"
    by (simp_all add: vendor_packet_ok_def Let_def)
  from rptr_update_ok [OF base] obtain r where r: "rptr_update q = Inr r"
    "4 * length r \<le> sizeof_ATOMIC_MEM" by blast
  show ?thesis
  proof (cases "env_vendor_packet_process env")
    case True
    from vendor_words_ok [OF base s fit] obtain ws where
      ws: "vendor_words env q (vendor_user env slot q) ?s = Inr ws"
      "4 * length ws + sizeof_ATOMIC_MEM \<le> FR q"
      "take (length (vendor_user env slot q)) ws = vendor_user env slot q" by blast
    have "\<exists>q'. commit_packet (ib_start_addr q) slot (ws @ r) (if ?s \<noteq> 0 then note_signal ?s q else q) =
        Inr (HSA_STATUS_SUCCESS, q') \<and> translated q slot (ws @ r) q'"
      using ws(2) r(2) by (intro commit_translated [OF inv]) (auto simp: note_signal_def same_core_def)
    moreover have "take (length (vendor_user env slot q)) (ws @ r) = vendor_user env slot q"
      using ws(3) by (metis append_take_drop_id append.assoc append_eq_conv_conj)
    moreover have "VendorSpecificAqlToPm4 env (ib_start_addr q) slot q =
        commit_packet (ib_start_addr q) slot (ws @ r) (if ?s \<noteq> 0 then note_signal ?s q else q)"
      unfolding VendorSpecificAqlToPm4_def Let_def using h r(1) ws(1) True
      by (simp add: vendor_user_def Let_def)
    ultimately show ?thesis by metis
  next
    case False
    have "\<exists>q'. commit_packet (ib_start_addr q) slot r
        (if ?s \<noteq> 0 then q\<lparr>signal_stores := signal_stores q @ [(?s, 0)]\<rparr> else q) =
        Inr (HSA_STATUS_SUCCESS, q') \<and> translated q slot r q'"
      using r(2) fit by (intro commit_translated [OF inv]) (auto simp: same_core_def sizeof_defs)
    then show ?thesis
      unfolding VendorSpecificAqlToPm4_def Let_def using h r(1) False
      by (auto simp: vendor_user_def Let_def)
  qed
qed

interpretation ve: frame_translator
  "\<lambda>env slot q. VendorSpecificAqlToPm4 env (ib_start_addr q) slot q" vendor_packet_ok
  "\<lambda>env slot q. None"
  "\<lambda>env slot q ws. take (length (vendor_user env slot q)) ws = vendor_user env slot q"
  by unfold_locales (simp_all add: VendorSpecific_accepts)

section \<open>The switch\<close>

text \<open>The packet at the write index meets the conditions of its type.\<close>

definition slot_type :: "compute_queue \<Rightarrow> u16" where
  "slot_type q = header_type (lo16 (dw (ring_slots q ! current_slot q) 0))"

definition packet_ok :: "queue_env \<Rightarrow> compute_queue \<Rightarrow> bool" where
  "packet_ok env q \<longleftrightarrow>
     (let t = slot_type q; s = current_slot q
      in (t = HSA_PACKET_TYPE_KERNEL_DISPATCH \<longrightarrow> kernel_packet_ok env s q) \<and>
         (t = HSA_PACKET_TYPE_BARRIER_AND \<longrightarrow> barrier_packet_ok False env s q) \<and>
         (t = HSA_PACKET_TYPE_BARRIER_OR \<longrightarrow> barrier_packet_ok True env s q) \<and>
         (t = HSA_PACKET_TYPE_VENDOR_SPECIFIC \<longrightarrow> vendor_packet_ok env s q) \<and>
         t \<noteq> HSA_PACKET_TYPE_INVALID)"

lemma current_slot_bound: "base_ok q \<Longrightarrow> current_slot q < length (ring_slots q)"
  by (simp add: current_slot_def base_ok_def unat_mod64 unat_gt_0)

lemma slot_at_ok: "base_ok q \<Longrightarrow> slot_at q = Inr (ring_slots q ! current_slot q)"
  using current_slot_bound by (simp add: slot_at_def base_ok_def)

text \<open>
  The outcome of \<^verbatim>\<open>SwitchAql2PM4\<close> on an acceptable packet: refused with the queue unchanged, or
  translated, and then either kept for merging or marked for submission.
\<close>

lemma SwitchAql2PM4_cases:
  assumes inv: "queue_inv q" and ok: "packet_ok env q"
  obtains (refused) st where "SwitchAql2PM4 env q = Inr (st, q)" "st \<noteq> HSA_STATUS_SUCCESS"
      "st \<noteq> HSA_STATUS_ERROR_OUT_OF_RESOURCES"
  | (merged) ws q' where "SwitchAql2PM4 env q = Inr (HSA_STATUS_SUCCESS, q')"
      "translated q (current_slot q) ws q'" "write_index q' mod ucast cmdbuf_aql_frame_num \<noteq> 0"
  | (ready) ws q' where "SwitchAql2PM4 env q = Inr (HSA_STATUS_SUCCESS, q'\<lparr>ready_to_submit := True\<rparr>)"
      "translated q (current_slot q) ws q'"
proof -
  let ?s = "current_slot q" and ?t = "slot_type q"
  from inv have sl: "slot_at q = Inr (ring_slots q ! ?s)" by (simp add: slot_at_ok queue_inv_def)
  note t = slot_type_def packet_type_defs
  consider "?t = HSA_PACKET_TYPE_KERNEL_DISPATCH" | "?t = HSA_PACKET_TYPE_BARRIER_AND"
    | "?t = HSA_PACKET_TYPE_BARRIER_OR" | "?t = HSA_PACKET_TYPE_VENDOR_SPECIFIC"
    | "?t \<notin> {HSA_PACKET_TYPE_KERNEL_DISPATCH, HSA_PACKET_TYPE_BARRIER_AND, HSA_PACKET_TYPE_BARRIER_OR,
        HSA_PACKET_TYPE_VENDOR_SPECIFIC}" by blast
  then show thesis
  proof cases
    case 1
    with ok have k: "kernel_packet_ok env ?s q" by (simp add: packet_ok_def Let_def)
    from kd.total [OF inv k] obtain st q' where
      e: "KernelDispatchAqlToPm4 env (ib_start_addr q) ?s q = Inr (st, q')"
      "st \<noteq> HSA_STATUS_ERROR_OUT_OF_RESOURCES" by blast
    show thesis
    proof (cases "st = HSA_STATUS_SUCCESS")
      case True
      from kd.success_translated [OF inv k] e(1) True obtain ws where tr: "translated q ?s ws q'" by blast
      let ?m = "kd_completion_signal (as_dispatch (ring_slots q ! ?s)) = 0 \<and>
        write_index q' mod ucast cmdbuf_aql_frame_num \<noteq> 0 \<and> env_sync_merge env \<noteq> sync_point q'"
      have sw: "SwitchAql2PM4 env q = (if ?m then Inr (HSA_STATUS_SUCCESS, q')
          else Inr (HSA_STATUS_SUCCESS, q'\<lparr>ready_to_submit := True\<rparr>))"
        using 1 sl e True by (simp add: SwitchAql2PM4_def Let_def slot_type_def)
      show thesis
      proof (cases ?m)
        case True
        with merged [OF _ tr] sw show thesis by simp
      next
        case False
        from sw have "SwitchAql2PM4 env q = Inr (HSA_STATUS_SUCCESS, q'\<lparr>ready_to_submit := True\<rparr>)"
          by (simp only: False if_False)
        from ready [OF this tr] show thesis .
      qed
    next
      case False
      with kd.error_unchanged [OF inv k e(1)] have "q' = q" by blast
      with 1 sl e False refused show thesis by (auto simp: SwitchAql2PM4_def Let_def slot_type_def)
    qed
  next
    case 2
    with ok have k: "barrier_packet_ok False env ?s q" by (simp add: packet_ok_def Let_def)
    from ba.accepts [OF inv k] obtain ws q' where
      e: "BarrierGenericAqlToPm4 env (ib_start_addr q) ?s False q = Inr (HSA_STATUS_SUCCESS, q')"
      "translated q ?s ws q'" by blast
    with 2 sl ready show thesis by (auto simp: SwitchAql2PM4_def Let_def t)
  next
    case 3
    with ok have k: "barrier_packet_ok True env ?s q" by (simp add: packet_ok_def Let_def)
    from ba.accepts [OF inv k] obtain ws q' where
      e: "BarrierGenericAqlToPm4 env (ib_start_addr q) ?s True q = Inr (HSA_STATUS_SUCCESS, q')"
      "translated q ?s ws q'" by blast
    with 3 sl ready show thesis by (auto simp: SwitchAql2PM4_def Let_def t)
  next
    case 4
    with ok have k: "vendor_packet_ok env ?s q" by (simp add: packet_ok_def Let_def)
    from ve.accepts [OF inv k] obtain ws q' where
      e: "VendorSpecificAqlToPm4 env (ib_start_addr q) ?s q = Inr (HSA_STATUS_SUCCESS, q')"
      "translated q ?s ws q'" by blast
    with 4 sl ready show thesis by (auto simp: SwitchAql2PM4_def Let_def t)
  next
    case 5
    with ok sl refused show thesis
      by (auto simp: SwitchAql2PM4_def Let_def slot_type_def packet_ok_def)
  qed
qed

end
