(* ===== verification/Queue_Loop.thy ===== *)
theory Queue_Loop
  imports Frame_Translation
begin

text \<open>
  The loop of the compute queue: relocation of scratch addresses, submission, the invariant between
  turns, the states the processing thread can reach, and the properties of the queue.
\<close>

section \<open>Relocation and submission\<close>

text \<open>The indirect buffer, word aligned, inside the command buffer, \<open>S\<close> bytes from its start.\<close>

definition region_ok :: "nat \<Rightarrow> compute_queue \<Rightarrow> bool" where
  "region_ok S q \<longleftrightarrow> unat (ib_start_addr q) = unat (cmdbuf_addr q) + S \<and> 4 dvd S \<and>
     S + unat (ib_size q) \<le> 4 * length (cmdbuf q) \<and>
     unat (cmdbuf_addr q) + 4 * length (cmdbuf q) < 18446744073709551616 \<and>
     unat (ib_size q) < 2147483648"

lemma scast_small:
  assumes "unat (off :: u32) < 2147483648"
  shows "(scast off :: u64) = ucast off"
proof -
  have "bit off 31 = bit (unat off) 31" by (simp add: bit_unsigned_iff)
  also have "\<dots> = odd (unat off div 2147483648)" by (simp add: bit_iff_odd)
  also have "\<dots> = False" using assms by simp
  finally have b31: "\<not> bit off 31" by simp
  have hi: "\<not> bit off n" if "31 \<le> n" for n
    using b31 bit_imp_le_length [of off n] that by (cases "n = 31") auto
  show ?thesis
    by (intro bit_word_eqI) (auto simp: bit_simps min_def b31 dest: hi)
qed

lemma region_index:
  assumes "region_ok S q" "4 dvd d" "d + 4 * n \<le> unat (ib_size q)" "0 < n"
    and a: "a = ib_start_addr q + of_nat d"
  shows "cmdbuf_index q a = Some ((S + d) div 4)" "(S + d) div 4 + n \<le> length (cmdbuf q)"
proof -
  from assms have d: "d < 2147483648" by (simp add: region_ok_def)
  then have "unat (of_nat d :: u64) = d" by (intro unat_of_nat64) simp
  then have u: "unat a = unat (cmdbuf_addr q) + S + d"
    using assms unfolding a region_ok_def by (subst unat_add64) auto
  have "unat (a - cmdbuf_addr q) = S + d" using u by (simp add: unat_sub64)
  moreover have "4 dvd S + d" using assms(1,2) by (simp add: region_ok_def)
  moreover have "\<not> a < cmdbuf_addr q" using u by (simp add: word_less_nat_alt)
  ultimately show "cmdbuf_index q a = Some ((S + d) div 4)" by (simp add: cmdbuf_index_def)
  show "(S + d) div 4 + n \<le> length (cmdbuf q)"
    using assms(1,2,3) by (auto simp: region_ok_def elim!: dvdE)
qed

definition relocated :: "compute_queue \<Rightarrow> u32 \<Rightarrow> u32 list" where
  "relocated q old =
     (if 11 \<le> dev_major (cq_device q)
      then [ucast (drop_bit 8 (scratch_base q AND 0xFFFFFFFFFF)), ucast (Ptr48High8 (scratch_base q))]
      else [PtrLow32 (scratch_base q), (old AND 0xFFFF0000) OR PtrHigh32 (scratch_base q)])"

lemma relocate_one_ok:
  assumes r: "region_ok S q" and p: "Ptr48_ok (scratch_base q)"
    and o: "unat off + 8 \<le> unat (ib_size q)" "4 dvd unat off"
  shows "relocate_one (ib_start_addr q) off q =
      Inr (q\<lparr>cmdbuf := overwrite ((S + unat off) div 4)
        (relocated q (cmdbuf q ! ((S + unat off) div 4 + 1))) (cmdbuf q)\<rparr>)"
    and "(S + unat off) div 4 + 2 \<le> length (cmdbuf q)"
proof -
  let ?k = "(S + unat off) div 4" and ?a = "ib_start_addr q + scast off"
  have lt: "unat off < 2147483648" using o r by (simp add: region_ok_def)
  have off: "scast off = (of_nat (unat off) :: u64)"
    unfolding scast_small [OF lt] by (simp add: word_unat_eq_iff unat_of_nat64 lt)
  have i0: "cmdbuf_index q ?a = Some ?k" "?k + 2 \<le> length (cmdbuf q)"
    using region_index [OF r o(2), of 2 ?a] o off by auto
  have "?a + 4 = ib_start_addr q + of_nat (unat off + 4)" by (simp add: off)
  then have i1: "cmdbuf_index q (?a + 4) = Some (?k + 1)"
    using region_index [OF r, of "unat off + 4" 1 "?a + 4"] o by (auto simp: add.assoc [symmetric])
  show "?k + 2 \<le> length (cmdbuf q)" by (rule i0(2))
  show "relocate_one (ib_start_addr q) off q =
      Inr (q\<lparr>cmdbuf := overwrite ?k (relocated q (cmdbuf q ! (?k + 1))) (cmdbuf q)\<rparr>)"
    using i0 i1 p
    by (simp add: relocate_one_def Let_def relocated_def Ptr48Low32_def cmdbuf_store_def cmdbuf_load_def
        overwrite_def)
qed

lemma relocated_length [simp]: "length (relocated q old) = 2"
  by (simp add: relocated_def)

lemma relocate_all_ok:
  assumes "region_ok S q" "Ptr48_ok (scratch_base q)"
    "\<forall>off \<in> set offs. unat off + 8 \<le> unat (ib_size q) \<and> 4 dvd unat off"
  shows "\<exists>b. relocate_all (ib_start_addr q) offs q = Inr (q\<lparr>cmdbuf := b\<rparr>) \<and>
    length b = length (cmdbuf q) \<and>
    (\<forall>k < length b. 4 * k < S \<or> S + unat (ib_size q) \<le> 4 * k \<longrightarrow> b ! k = cmdbuf q ! k)"
  using assms
proof (induction offs arbitrary: q)
  case Nil
  show ?case by (rule exI [of _ "cmdbuf q"]) simp
next
  case (Cons off offs)
  let ?k = "(S + unat off) div 4"
  let ?b = "overwrite ?k (relocated q (cmdbuf q ! (?k + 1))) (cmdbuf q)"
  have o: "unat off + 8 \<le> unat (ib_size q)" "4 dvd unat off" using Cons.prems(3) by auto
  note one = relocate_one_ok [OF Cons.prems(1,2) o]
  have len: "length ?b = length (cmdbuf q)" using one(2) by simp
  have "4 dvd S" using Cons.prems(1) by (simp add: region_ok_def)
  with o have k4: "4 * ?k = S + unat off" by simp
  have out: "?b ! k = cmdbuf q ! k" if "k < length (cmdbuf q)" "4 * k < S \<or> S + unat (ib_size q) \<le> 4 * k" for k
    using that one(2) k4 o(1) by (intro nth_overwrite_outside) auto
  let ?q = "q\<lparr>cmdbuf := ?b\<rparr>"
  have "region_ok S ?q" using Cons.prems(1) len by (simp add: region_ok_def)
  from Cons.IH [OF this] Cons.prems(2,3) obtain b where
    b: "relocate_all (ib_start_addr ?q) offs ?q = Inr (?q\<lparr>cmdbuf := b\<rparr>)" "length b = length ?b"
    "\<forall>k < length b. 4 * k < S \<or> S + unat (ib_size q) \<le> 4 * k \<longrightarrow> b ! k = ?b ! k" by auto
  have "relocate_all (ib_start_addr q) (off # offs) q = Inr (q\<lparr>cmdbuf := b\<rparr>)"
    using b(1) by (simp add: one(1))
  with b(2,3) len out show ?case by (intro exI [of _ b]) simp
qed

lemma RelocateCmdbufScratchBase_ok:
  assumes "region_ok S q" "Ptr48_ok (scratch_base q)" "offsets_ok q"
  obtains b where "RelocateCmdbufScratchBase (ib_start_addr q) q =
      Inr (q\<lparr>cmdbuf := b, scratch_base_offset_array := []\<rparr>)" "length b = length (cmdbuf q)"
    "\<forall>k < length b. 4 * k < S \<or> S + unat (ib_size q) \<le> 4 * k \<longrightarrow> b ! k = cmdbuf q ! k"
proof -
  from relocate_all_ok [OF assms(1,2)] assms(3) obtain b where
    "relocate_all (ib_start_addr q) (scratch_base_offset_array q) q = Inr (q\<lparr>cmdbuf := b\<rparr>)"
    "length b = length (cmdbuf q)"
    "\<forall>k < length b. 4 * k < S \<or> S + unat (ib_size q) \<le> 4 * k \<longrightarrow> b ! k = cmdbuf q ! k"
    unfolding offsets_ok_def by blast
  with that show thesis by (simp add: RelocateCmdbufScratchBase_def)
qed

section \<open>Submissions and the turn of the loop\<close>

text \<open>
  The submissions so far: each starts at the frame of the packet index at which the previous one
  ended, covers at most a frame for each of its packets and does not run past the end of the
  buffer.
\<close>

fun sub_chain :: "nat \<Rightarrow> nat \<Rightarrow> nat \<Rightarrow> (u64 \<times> u64 \<times> u64) list \<Rightarrow> nat \<Rightarrow> bool" where
  "sub_chain c fr prev [] final = (prev = final)"
| "sub_chain c fr prev ((st, sz, f) # ss) final =
     (prev \<le> unat f \<and> unat f \<le> (prev div 4096 + 1) * 4096 \<and> unat st = c + prev mod 4096 * fr \<and>
      unat sz \<le> (unat f - prev) * fr \<and> sub_chain c fr (unat f) ss final)"

lemma sub_chain_append:
  "sub_chain c fr prev (xs @ ys) final \<longleftrightarrow>
     (\<exists>m. sub_chain c fr prev xs m \<and> sub_chain c fr m ys final)"
  by (induction xs arbitrary: prev) auto


definition fences :: "(u64 \<times> u64 \<times> u64) list \<Rightarrow> nat set" where
  "fences ss = (\<lambda>(_, _, f). unat f) ` set ss"

lemma fences_simps [simp]:
  "fences [] = {}" "fences ((st, sz, f) # ss) = insert (unat f) (fences ss)"
  "fences (xs @ ys) = fences xs \<union> fences ys"
  by (simp_all add: fences_def image_Un)



text \<open>The whole invariant between turns: the queue, its submissions, and nothing waiting to be sent.\<close>

definition loop_inv :: "compute_queue \<Rightarrow> bool" where
  "loop_inv q \<longleftrightarrow> queue_inv q \<and> \<not> ready_to_submit q \<and>
     sub_chain (unat (cmdbuf_addr q)) (FR q) 0 (submissions q) (SP q)"

lemma frame_num [simp]: "ucast cmdbuf_aql_frame_num = (4096 :: u64)"
  by (simp add: cmdbuf_aql_frame_num_def)

lemma translated_region:
  assumes g: "geometry q" and t: "translated q slot ws q'"
  shows "region_ok (SP q mod 4096 * FR q) q'"
proof -
  note f = translated_fields [OF t] and sz = translated_size [OF g t] and o = ib_offset_frame [OF g]
  have "SP q mod 4096 * FR q + unat (ib_size q') \<le> 4 * length (cmdbuf q)"
    using sz o(2) by (simp add: ib_offset_def)
  moreover have "length (cmdbuf q') = length (cmdbuf q)" unfolding f using sz(3) by simp
  moreover have "4 dvd SP q mod 4096 * FR q" using g by (simp add: geometry_def)
  moreover have "unat (ib_size q') < 2147483648" using sz o(3) g by (simp add: geometry_def)
  ultimately show ?thesis
    using g unfolding region_ok_def f(4,6) by (simp add: geometry_def)
qed

lemma EndSubmit_geometry:
  assumes g: "geometry q" and f: "cmdbuf_addr r = cmdbuf_addr q" "frame_size r = frame_size q"
    "length (cmdbuf r) = length (cmdbuf q)"
  shows "geometry (EndSubmit r)"
proof -
  have fr: "0 < FR q" "FR q \<le> 544" "4 dvd FR q"
    "unat (cmdbuf_addr q) + 4096 * FR q < 18446744073709551616" "4 * length (cmdbuf q) = 4096 * FR q"
    using g by (auto simp: geometry_def)
  have m2: "WI r mod 4096 * FR q < 4096 * FR q" using fr(1) by simp
  then have sum: "unat (cmdbuf_addr q) + WI r mod 4096 * FR q < 18446744073709551616"
    using fr(4) by linarith
  then have "WI r mod 4096 * FR q < 18446744073709551616" by linarith
  then have "unat ((write_index r mod 4096) * ucast (frame_size q)) = WI r mod 4096 * FR q"
    using unat_mult64 [of "write_index r mod 4096" "ucast (frame_size q)"] by (simp add: unat_mod64)
  then have "unat (cmdbuf_addr q + (write_index r mod 4096) * ucast (frame_size q)) =
      unat (cmdbuf_addr q) + WI r mod 4096 * FR q"
    using sum by (subst unat_add64) auto
  then show ?thesis using fr f by (simp add: geometry_def EndSubmit_def)
qed

lemma EndSubmit_inv:
  assumes q: "queue_inv q" and t: "translated q slot ws q'" and b: "length b = length (cmdbuf q')"
  shows "queue_inv (EndSubmit (q'\<lparr>ready_to_submit := x, cmdbuf := b,
      scratch_base_offset_array := [], submissions := ss\<rparr>))" (is "queue_inv ?q")
proof -
  from q have g: "geometry q" by (simp add: queue_inv_def)
  note f = translated_fields [OF t]
  have "length (cmdbuf q') = length (cmdbuf q)" unfolding f using translated_size(3) [OF g t] by simp
  then have "geometry ?q" using b f by (intro EndSubmit_geometry [OF g]) simp_all
  moreover have "base_ok ?q" using translated_base [OF t] by (simp add: base_ok_def EndSubmit_def)
  ultimately show ?thesis by (simp add: queue_inv_def offsets_ok_def EndSubmit_def)
qed

lemma submission_link:
  assumes g: "geometry q" and t: "translated q slot ws q'" and w: "WI q + 1 < 18446744073709551616"
  shows "sub_chain (unat (cmdbuf_addr q)) (FR q) (SP q)
    [(ib_start_addr q', ib_size q', write_index q')] (WI q')" and "WI q' = WI q + 1"
proof -
  note f = translated_fields [OF t] and sz = translated_size [OF g t]
  show wi: "WI q' = WI q + 1" unfolding f using w by (subst unat_add64) simp_all
  have gq: "SP q \<le> WI q" "WI q div 4096 = SP q div 4096" "unat (ib_size q) \<le> (WI q - SP q) * FR q"
    "unat (ib_start_addr q) = unat (cmdbuf_addr q) + SP q mod 4096 * FR q"
    using g by (auto simp: geometry_def)
  have "unat (ib_size q') \<le> (WI q - SP q) * FR q + FR q" using sz gq(3) by simp
  also have "\<dots> = (WI q + 1 - SP q) * FR q" using gq(1) by (simp add: Suc_diff_le)
  finally have "unat (ib_size q') \<le> (WI q' - SP q) * FR q" by (simp add: wi)
  moreover have "WI q' \<le> (SP q div 4096 + 1) * 4096"
  proof -
    have "WI q = SP q div 4096 * 4096 + WI q mod 4096" using gq(2) by (metis div_mult_mod_eq)
    moreover have "WI q mod 4096 < 4096" "(SP q div 4096 + 1) * 4096 = SP q div 4096 * 4096 + 4096"
      by simp_all
    ultimately show ?thesis unfolding wi by linarith
  qed
  ultimately show "sub_chain (unat (cmdbuf_addr q)) (FR q) (SP q)
      [(ib_start_addr q', ib_size q', write_index q')] (WI q')"
    using gq f(6) wi by simp
qed

lemma Submit_ok:
  assumes q: "queue_inv q" and t: "translated q slot ws q'"
  obtains (failed) r where "Submit env (q'\<lparr>ready_to_submit := True\<rparr>) = Inr (HSA_STATUS_ERROR, r)"
  | (sent) b where "Submit env (q'\<lparr>ready_to_submit := True\<rparr>) = Inr (HSA_STATUS_SUCCESS,
        EndSubmit (q'\<lparr>ready_to_submit := True, cmdbuf := b, scratch_base_offset_array := [],
          submissions := submissions q @ [(ib_start_addr q', ib_size q', write_index q')]\<rparr>))"
      "length b = length (cmdbuf q')"
proof -
  from q have g: "geometry q" by (simp add: queue_inv_def)
  let ?q = "q'\<lparr>ready_to_submit := True\<rparr>"
  have r: "region_ok (SP q mod 4096 * FR q) ?q"
    using translated_region [OF g t] by (simp add: region_ok_def)
  have "Ptr48_ok (scratch_base ?q)" "offsets_ok ?q"
    using translated_base [OF t] translated_offsets [OF g t] by (simp_all add: base_ok_def offsets_ok_def)
  from RelocateCmdbufScratchBase_ok [OF r this] obtain b where
    b: "RelocateCmdbufScratchBase (ib_start_addr ?q) ?q =
      Inr (?q\<lparr>cmdbuf := b, scratch_base_offset_array := []\<rparr>)" "length b = length (cmdbuf ?q)" by metis
  note f = translated_fields(8) [OF t]
  show thesis
  proof (cases "env_page_wait env \<and> env_submit env (ib_start_addr q', ib_size q', write_index q')")
    case True
    have "Submit env ?q = Inr (HSA_STATUS_SUCCESS,
        EndSubmit (q'\<lparr>ready_to_submit := True, cmdbuf := b, scratch_base_offset_array := [],
          submissions := submissions q @ [(ib_start_addr q', ib_size q', write_index q')]\<rparr>))"
      using True b(1) f by (simp add: Submit_def PreSubmit_def Let_def)
    from sent [OF this] b(2) show thesis by simp
  next
    case False
    with b(1) have "\<exists>r. Submit env ?q = Inr (HSA_STATUS_ERROR, r)"
      by (auto simp: Submit_def PreSubmit_def Let_def)
    with failed show thesis by blast
  qed
qed

lemma queue_inv_ready: "queue_inv (q\<lparr>ready_to_submit := x\<rparr>) = queue_inv q"
proof -
  have "geometry (q\<lparr>ready_to_submit := x\<rparr>) = geometry q" by (simp add: geometry_def)
  moreover have "base_ok (q\<lparr>ready_to_submit := x\<rparr>) = base_ok q" by (simp add: base_ok_def)
  moreover have "offsets_ok (q\<lparr>ready_to_submit := x\<rparr>) = offsets_ok q" by (simp add: offsets_ok_def)
  ultimately show ?thesis by (simp only: queue_inv_def)
qed

lemma finish_signal_fields:
  assumes "finish_signal env q = (st, r)"
  shows "queue_inv r = queue_inv q" "submissions r = submissions q" "sync_point r = sync_point q"
    "cmdbuf_addr r = cmdbuf_addr q" "frame_size r = frame_size q" "write_index r = write_index q"
    "st = HSA_STATUS_SUCCESS \<or> st = HSA_STATUS_ERROR"
  using assms unfolding finish_signal_def
  by (auto simp: queue_inv_def geometry_def base_ok_def offsets_ok_def split: if_splits)

text \<open>
  One turn of the loop: no fault, and when it reports success the invariant holds again, one packet
  further.
\<close>

lemma Process_turn_inv:
  assumes l: "loop_inv q" and p: "packet_ok env q" and w: "WI q + 1 < 18446744073709551616"
  shows "\<exists>st q'. Process_turn env q = Inr (st, q') \<and>
    st \<noteq> HSA_STATUS_ERROR_OUT_OF_RESOURCES \<and>
    (st = HSA_STATUS_SUCCESS \<longrightarrow> loop_inv q' \<and> WI q' = WI q + 1)"
proof (cases "frame_wait env q")
  case True
  from l have q: "queue_inv q" and nr: "\<not> ready_to_submit q"
    and ch: "sub_chain (unat (cmdbuf_addr q)) (FR q) 0 (submissions q) (SP q)" and g: "geometry q"
    by (simp_all add: loop_inv_def queue_inv_def)
  from q p show ?thesis
  proof (cases rule: SwitchAql2PM4_cases)
    case (refused st)
    then show ?thesis using True by (simp add: Process_turn_def)
  next
    case (merged ws q')
    note f = translated_fields [OF merged(2)] and wi = submission_link(2) [OF g merged(2) w]
    from merged(3) have "WI q' mod 4096 \<noteq> 0" by (simp add: word_unat_eq_iff unat_mod64)
    from translated_inv [OF q merged(2) w this] have "loop_inv q'" using nr ch f by (simp add: loop_inv_def)
    then show ?thesis using True merged(1) wi f nr by (simp add: Process_turn_def)
  next
    case (ready ws q')
    note f = translated_fields [OF ready(2)] and lk = submission_link [OF g ready(2) w]
    from q ready(2) show ?thesis
    proof (cases rule: Submit_ok [where env = env])
      case (failed r)
      then show ?thesis using True ready(1) by (simp add: Process_turn_def)
    next
      case (sent b)
      let ?r = "EndSubmit (q'\<lparr>ready_to_submit := True, cmdbuf := b, scratch_base_offset_array := [],
          submissions := submissions q @ [(ib_start_addr q', ib_size q', write_index q')]\<rparr>)"
      obtain st r where fin: "finish_signal env ?r = (st, r)" by (cases "finish_signal env ?r")
      note ff = finish_signal_fields [OF fin]
      have inv: "queue_inv ?r" by (rule EndSubmit_inv [OF q ready(2) sent(2)])
      then have "queue_inv (r\<lparr>ready_to_submit := False\<rparr>)" using ff(1) by (simp only: queue_inv_ready)
      moreover have "sub_chain (unat (cmdbuf_addr r)) (FR r) 0 (submissions r) (SP r)"
        using ch lk(1) unfolding ff(2-5) EndSubmit_def
        by (auto simp: sub_chain_append f(4,5) simp del: sub_chain.simps)
      ultimately have "loop_inv (r\<lparr>ready_to_submit := False\<rparr>)" by (simp add: loop_inv_def)
      then show ?thesis using True ready(1) sent(1) fin lk(2) ff
        by (auto simp: Process_turn_def EndSubmit_def)
    qed
  qed
qed (simp add: Process_turn_def)

section \<open>What a turn may write\<close>






definition slot_barrier_and :: slot where
  "slot_barrier_and = 3 # replicate 15 0"

definition aq_example :: amd_queue_v2 where
  "aq_example = \<lparr>aq_compute_tmpring_size = 0, scratch_resource_descriptor = [0, 0, 0, 0],
     scratch_backing_memory_location = 0, scratch_wave64_lane_byte_size = 0\<rparr>"


definition env_example :: queue_env where
  "env_example =
     \<lparr>env_kernel_object = (\<lambda>_. None), env_signal_kind = (\<lambda>_. 1), env_signal_load = (\<lambda>_ _. 0),
      env_signal_wait = (\<lambda>_. 0), env_poll_limit = 1, env_alloc_scratch = (\<lambda>_. Some 0x50000000),
      env_user_pm4 = (\<lambda>_ n. replicate n 0), env_vendor_packet_process = True, env_page_wait = True,
      env_submit = (\<lambda>_. True), env_cpu_wait = (\<lambda>_. False), env_sync_top = 0, env_sync_merge = 0,
      env_stack_bits = 0\<rparr>"





section \<open>Reachable states\<close>

text \<open>
  The states of the processing thread between turns: the initialised queue, then any number of
  successful turns on acceptable packets, each in its own environment; in between the
  producer may store packets in the ring.
\<close>

inductive cq_reach :: "compute_queue \<Rightarrow> compute_queue \<Rightarrow> bool" where
  reach_init: "cq_reach q q"
| reach_turn: "\<lbrakk>cq_reach q0 q; packet_ok env q; WI q + 1 < 18446744073709551616;
     Process_turn env q = Inr (HSA_STATUS_SUCCESS, q')\<rbrakk> \<Longrightarrow> cq_reach q0 q'"
| reach_produce: "\<lbrakk>cq_reach q0 q; length slots = length (ring_slots q)\<rbrakk> \<Longrightarrow>
     cq_reach q0 (q\<lparr>ring_slots := slots\<rparr>)"

lemma loop_inv_slots:
  assumes "loop_inv q" "length slots = length (ring_slots q)"
  shows "loop_inv (q\<lparr>ring_slots := slots\<rparr>)"
proof -
  have "geometry (q\<lparr>ring_slots := slots\<rparr>) = geometry q" by (simp add: geometry_def)
  moreover have "base_ok (q\<lparr>ring_slots := slots\<rparr>) = base_ok q" using assms(2) by (simp add: base_ok_def)
  moreover have "offsets_ok (q\<lparr>ring_slots := slots\<rparr>) = offsets_ok q" by (simp add: offsets_ok_def)
  ultimately have "queue_inv (q\<lparr>ring_slots := slots\<rparr>)"
    using assms(1) by (simp only: queue_inv_def loop_inv_def)
  with assms(1) show ?thesis by (simp add: loop_inv_def)
qed

lemma cq_reach_inv: "\<lbrakk>cq_reach q0 q; loop_inv q0\<rbrakk> \<Longrightarrow> loop_inv q"
proof (induction rule: cq_reach.induct)
  case (reach_turn q0 q env q')
  then show ?case using Process_turn_inv [of q env] by auto
qed (auto intro: loop_inv_slots)

text \<open>The conditions under which the constructor leaves a queue that satisfies the invariant.\<close>

definition init_ok :: "wddm_device \<Rightarrow> compute_queue \<Rightarrow> bool" where
  "init_ok d0 q \<longleftrightarrow>
     (\<exists>d buf_addr buf raddr slots rsize rptr pr inact err aqa aq.
        InitCmdbufInfo d0 = Inr d \<and> dev_major d < 13 \<and> dev_num_shader_engine d \<noteq> 0 \<and>
        4 * length buf = unat (dev_cmdbuf_size d) \<and>
        unat buf_addr + unat (dev_cmdbuf_size d) < 18446744073709551616 \<and>
        rsize \<noteq> 0 \<and> length slots = unat rsize \<and> rptr AND 3 = 0 \<and>
        length (scratch_resource_descriptor aq) = 4 \<and>
        q = ComputeQueue_Init d buf_addr buf raddr slots rsize rptr pr inact err aqa aq)"

lemma init_loop_inv:
  assumes "init_ok d0 q"
  shows "loop_inv q"
proof -
  from assms obtain d buf_addr buf raddr slots rsize rptr pr inact err aqa aq where
    i: "InitCmdbufInfo d0 = Inr d" "dev_major d < 13" "dev_num_shader_engine d \<noteq> 0"
    "4 * length buf = unat (dev_cmdbuf_size d)"
    "unat buf_addr + unat (dev_cmdbuf_size d) < 18446744073709551616"
    "rsize \<noteq> 0" "length slots = unat rsize" "rptr AND 3 = 0"
    "length (scratch_resource_descriptor aq) = 4"
    and q: "q = ComputeQueue_Init d buf_addr buf raddr slots rsize rptr pr inact err aqa aq"
    unfolding init_ok_def by blast
  have m: "9 \<le> dev_major d0" using i(1) by (auto simp: InitCmdbufInfo_def split: if_splits)
  with i(1) have d: "dev_major d = dev_major d0"
    "dev_aql_frame_size d = (if dev_major d0 = 9 then 496 else if dev_major d0 = 10 then 512 else 544)"
    "dev_cmdbuf_size d = (if dev_major d0 = 9 then 2031616 else if dev_major d0 = 10 then 2097152
       else 2228224)"
    by (auto simp: InitCmdbufInfo_eq)
  have "geometry q" using i(4,5) d by (auto simp: geometry_def q ComputeQueue_Init_def)
  moreover have "base_ok q"
    using i m d by (auto simp: base_ok_def q ComputeQueue_Init_def frame_bytes_def Ptr48_ok_def)
  ultimately show ?thesis
    by (simp add: loop_inv_def queue_inv_def offsets_ok_def q ComputeQueue_Init_def)
qed

text \<open>
  C1. Translation is memory safe and always makes progress: in every state the thread can reach from
  an initialised queue on a supported device, a turn on an acceptable packet never faults (no failed
  assertion, no access outside the command buffer, the ring or a register block), never reports
  that the frame overflowed, and when it reports success the write index has advanced by
  exactly one; the packets gathered since the last submission never take more than their frames,
  within the command buffer.
\<close>

theorem reachable_turn_safe:
  assumes "init_ok d q0" and "cq_reach q0 q" and "packet_ok env q"
    and "unat (write_index q) + 1 < 18446744073709551616"
  shows "(\<exists>st q'. Process_turn env q = Inr (st, q') \<and> st \<noteq> HSA_STATUS_ERROR_OUT_OF_RESOURCES \<and>
      (st = HSA_STATUS_SUCCESS \<longrightarrow> unat (write_index q') = unat (write_index q) + 1)) \<and>
    unat (ib_size q) \<le> (unat (write_index q) - unat (sync_point q)) * unat (frame_size q) \<and>
    unat (cmdbuf_addr q) \<le> unat (ib_start_addr q) \<and>
    unat (ib_start_addr q) + unat (ib_size q) + unat (frame_size q) \<le>
      unat (cmdbuf_addr q) + 4 * length (cmdbuf q)"
proof -
  have l: "loop_inv q" using cq_reach_inv [OF assms(2) init_loop_inv [OF assms(1)]] .
  then have g: "geometry q" by (simp add: loop_inv_def queue_inv_def)
  then have i: "unat (ib_start_addr q) = unat (cmdbuf_addr q) + SP q mod 4096 * FR q"
    "unat (ib_size q) \<le> (WI q - SP q) * FR q" by (simp_all add: geometry_def)
  show ?thesis
    using Process_turn_inv [OF l assms(3,4)] i ib_offset_frame(2) [OF g] by (auto simp: ib_offset_def)
qed

definition queue_start :: compute_queue where
  "queue_start = ComputeQueue_Init device_example 0x10000000 (replicate 557056 0) 0x20000000
     (replicate 64 slot_barrier_and) 64 0x30000000 False 0 False 0x40000000 aq_example"

lemma queue_start_init: "init_ok device_example queue_start"
proof -
  have "InitCmdbufInfo device_example = Inr device_example"
    by (simp add: InitCmdbufInfo_eq device_example_def)
  then show ?thesis
    unfolding init_ok_def queue_start_def
    by (intro exI conjI) (auto simp: device_example_def aq_example_def)
qed

lemma queue_start_packet: "packet_ok env_example queue_start"
proof -
  have s: "ring_slots queue_start ! current_slot queue_start = slot_barrier_and"
    by (simp add: current_slot_def queue_start_def ComputeQueue_Init_def)
  have v: "dw slot_barrier_and 0 = 3" "\<And>i. 0 < i \<Longrightarrow> dw slot_barrier_and i = 0"
    by (auto simp: dw_def slot_barrier_and_def nth_Cons')
  have "slot_type queue_start = 3" by (simp add: slot_type_def s v(1) header_type_def lo16_def)
  then show ?thesis
    by (simp add: packet_ok_def Let_def packet_type_defs barrier_packet_ok_def s barrier_wait_def
        as_barrier_def qw_def v)
qed

theorem reachable_turn_safe_witness:
  "init_ok device_example queue_start \<and>
   (\<exists>st q'. Process_turn env_example queue_start = Inr (st, q') \<and>
      (st = HSA_STATUS_SUCCESS \<longrightarrow> unat (write_index q') = unat (write_index queue_start) + 1))"
proof -
  have "unat (write_index queue_start) + 1 < 18446744073709551616"
    by (simp add: queue_start_def ComputeQueue_Init_def)
  from reachable_turn_safe [OF queue_start_init reach_init queue_start_packet this] queue_start_init
  show ?thesis by blast
qed

section \<open>Functional behaviour of the translations\<close>

lemma invalidate_slot_type:
  assumes "s \<noteq> []"
  shows "header_type (lo16 (dw (invalidate_slot s) 0)) = HSA_PACKET_TYPE_INVALID"
proof -
  obtain w ws where s: "s = w # ws" using assms by (cases s) auto
  have m: "(0xFFFF0000 :: u32) = push_bit 16 (mask 16)" by (simp add: mask_eq_exp_minus_1)
  have "lo16 ((w AND 0xFFFF0000) OR ucast HSA_PACKET_TYPE_INVALID) = 1"
    unfolding lo16_def m HSA_PACKET_TYPE_INVALID_def
    by (rule bit_word_eqI) (auto simp: bit_simps)
  then show ?thesis
    by (simp add: s invalidate_slot_def dw_def header_type_def HSA_PACKET_TYPE_INVALID_def)
qed

text \<open>
  C7. A kernel dispatch is refused exactly as the checks of \<^verbatim>\<open>KernelDispatchAqlToPm4\<close> say, with the queue
  unchanged, and otherwise becomes, at the end of the indirect buffer, a sequence of packets that
  parses back to: the start stamp when profiling, a barrier when the packet asks for one and one
  is due, a cache flush, the scratch registers from gfx11 on, the six dispatch packets, and with a
  completion signal a barrier, the end stamp, a flush and the decrement of the signal; last the update
  of the read pointer. The slot of the packet is then invalid.
\<close>

theorem KernelDispatch_correct:
  assumes "queue_inv q" and "alloc_ok env" and "kernel_ok env q pkt"
    and "pkt = as_dispatch (ring_slots q ! slot)" and "slot < length (ring_slots q)"
    and "ring_slots q ! slot \<noteq> []"
  shows "case dispatch_reject env q pkt of
      Some st \<Rightarrow> KernelDispatchAqlToPm4 env (ib_start_addr q) slot q = Inr (st, q)
    | None \<Rightarrow> (\<exists>q' n bs. KernelDispatchAqlToPm4 env (ib_start_addr q) slot q = Inr (HSA_STATUS_SUCCESS, q') \<and>
        pm4_parse (take n (drop (ib_offset q div 4) (cmdbuf q'))) = Some bs \<and>
        map fst bs = dispatch_ops q pkt \<and> 4 * n \<le> FR q \<and>
        unat (ib_size q') = unat (ib_size q) + 4 * n \<and> write_index q' = write_index q + 1 \<and>
        header_type (lo16 (dw (ring_slots q' ! slot) 0)) = HSA_PACKET_TYPE_INVALID)"
proof (cases "dispatch_reject env q pkt")
  case (Some st)
  then show ?thesis using KernelDispatch_reject assms(3,4) by simp
next
  case None
  from assms(1) have g: "geometry q" by (simp add: queue_inv_def)
  from KernelDispatch_accepts [OF assms(1-4) None] obtain ws q' where
    e: "KernelDispatchAqlToPm4 env (ib_start_addr q) slot q = Inr (HSA_STATUS_SUCCESS, q')"
    and t: "translated q slot ws q'" and p: "packets_of (dispatch_ops q pkt) ws" by blast
  note f = translated_fields [OF t] and sz = translated_size [OF g t]
  from packets_of_parse [OF p] obtain bs where "pm4_parse ws = Some bs" "map fst bs = dispatch_ops q pkt"
    by blast
  moreover have "take (length ws) (drop (ib_offset q div 4) (cmdbuf q')) = ws"
    unfolding f(1) by (rule overwrite_window [OF sz(3)])
  moreover have "header_type (lo16 (dw (ring_slots q' ! slot) 0)) = HSA_PACKET_TYPE_INVALID"
    using invalidate_slot_type [OF assms(6)] assms(5) by (simp add: f(12))
  ultimately show ?thesis using None e sz(1,2) f(2) by (auto intro!: exI [of _ "length ws"])
qed

definition slot_dispatch :: slot where
  "slot_dispatch = [0x00010102, 0x00010040, 1, 1024, 1, 1, 0, 0, 0x200000, 0, 0x300040, 0, 0, 0, 0x600000, 0]"

definition queue_dispatch :: compute_queue where
  "queue_dispatch = queue_start\<lparr>ring_slots := replicate 64 slot_dispatch\<rparr>"

definition env_dispatch :: queue_env where
  "env_dispatch = env_example\<lparr>env_kernel_object := (\<lambda>_. Some
     \<lparr>kernel_code_entry_byte_offset = 0x100, kc_compute_pgm_rsrc1 = 0xC0, kc_compute_pgm_rsrc2 = 0x90,
      kernel_code_properties = 0x408, workitem_private_segment_byte_size = 0\<rparr>)\<rparr>"

lemma queue_dispatch_inv: "queue_inv queue_dispatch"
  using loop_inv_slots [OF init_loop_inv [OF queue_start_init], of "replicate 64 slot_dispatch"]
  by (simp add: queue_dispatch_def loop_inv_def queue_start_def ComputeQueue_Init_def)

lemma as_dispatch_example:
  "as_dispatch slot_dispatch =
     \<lparr>kd_header = 0x102, kd_setup = 1, workgroup_size_x = 64, workgroup_size_y = 1, workgroup_size_z = 1,
      grid_size_x = 1024, grid_size_y = 1, grid_size_z = 1, private_segment_size = 0,
      group_segment_size = 0, kernel_object = 0x200000, kernarg_address = 0x300040,
      kd_completion_signal = 0x600000\<rparr>"
  by (simp add: as_dispatch_def slot_dispatch_def dw_def qw_def lo16_def hi16_def nth_Cons')

lemma queue_dispatch_kernel: "kernel_ok env_dispatch queue_dispatch (as_dispatch slot_dispatch)"
  unfolding as_dispatch_example
  by (simp add: kernel_ok_def env_dispatch_def env_example_def Ptr48_ok_def AMD_HSA_BITS_GET_def
      ENABLE_SGPR_PRIVATE_SEGMENT_BUFFER_def ENABLE_SGPR_FLAT_SCRATCH_INIT_def AMD_SIGNAL_KIND_USER_def)

theorem KernelDispatch_correct_witness:
  "\<exists>q'. KernelDispatchAqlToPm4 env_dispatch (ib_start_addr queue_dispatch) 0 queue_dispatch =
     Inr (HSA_STATUS_SUCCESS, q') \<and> write_index q' = write_index queue_dispatch + 1"
proof -
  have s: "ring_slots queue_dispatch ! 0 = slot_dispatch" "0 < length (ring_slots queue_dispatch)"
    by (simp_all add: queue_dispatch_def)
  have al: "alloc_ok env_dispatch" by (simp add: alloc_ok_def env_dispatch_def env_example_def Ptr48_ok_def)
  have "dispatch_reject env_dispatch queue_dispatch (as_dispatch slot_dispatch) = None"
    unfolding as_dispatch_example
    by (simp add: dispatch_reject_def env_dispatch_def queue_dispatch_def queue_start_def
        ComputeQueue_Init_def device_example_def LdsBlocks_def)
  with KernelDispatch_correct [OF queue_dispatch_inv al queue_dispatch_kernel, of 0] s
  show ?thesis by (auto simp: slot_dispatch_def)
qed

section \<open>A vendor packet that does not fit its frame\<close>

lemma commit_packet_overflow:
  assumes g: "geometry q" and big: "FR q < 4 * length ws"
    and fit: "ib_offset q + 4 * length ws \<le> 4 * length (cmdbuf q)"
  shows "commit_packet (ib_start_addr q) slot ws q = Inr (HSA_STATUS_ERROR_OUT_OF_RESOURCES,
      q\<lparr>cmdbuf := overwrite (ib_offset q div 4) ws (cmdbuf q)\<rparr>)"
proof -
  note f = ib_offset_frame [OF g]
  let ?n = "4 * length ws"
  have b: "unat (ib_size q) < 4294967296" using f(3) by simp
  have "4 * length (cmdbuf q) \<le> 4096 * 544" using g by (auto simp: geometry_def)
  then have tot: "unat (ib_size q) + ?n \<le> 4096 * 544" using fit by (simp add: ib_offset_def)
  have n: "unat (of_nat ?n :: u32) = ?n" "unat (of_nat ?n :: u64) = ?n"
    using tot by (intro unat_of_nat32 unat_of_nat64; simp)+
  have "unat (ucast (ib_size q) + of_nat ?n :: u32) = unat (ib_size q) + ?n"
    using unat_add32 [of "ucast (ib_size q)" "of_nat ?n"] unat_ucast_down [OF b] n(1) tot by simp
  moreover have "unat (ib_size q + of_nat ?n) = unat (ib_size q) + ?n"
    using unat_add64 [of "ib_size q" "of_nat ?n"] n(2) tot by simp
  ultimately have i: "ucast (ucast (ib_size q) + of_nat ?n :: u32) = ib_size q + of_nat ?n"
    by (simp only: word_unat_eq_iff unat_ucast_up)
  have "ib_size q + of_nat ?n - ib_size q = of_nat ?n" by simp
  then have "ucast (frame_size q) < ib_size q + of_nat ?n - ib_size q"
    using n(2) big by (simp only: word_less_nat_alt unat_ucast_up)
  moreover have "ib_offset q div 4 + length ws \<le> length (cmdbuf q)"
    using fit ib_offset_index(2) [OF g] by (auto elim!: dvdE)
  ultimately show ?thesis
    unfolding commit_packet_def Let_def
    by (simp add: ucast_down_up [OF b] i cmdbuf_store_def ib_offset_index(1) [OF g] overwrite_def
        del: of_nat_mult)
qed

lemma Submit_untranslated:
  assumes q: "queue_inv q" and b: "length b = length (cmdbuf q)"
    and e: "env_page_wait env" "env_submit env (ib_start_addr q, ib_size q, write_index q)"
  shows "\<exists>b'. Submit env (q\<lparr>cmdbuf := b, ready_to_submit := True\<rparr>) = Inr (HSA_STATUS_SUCCESS,
      EndSubmit (q\<lparr>ready_to_submit := True, cmdbuf := b', scratch_base_offset_array := [],
        submissions := submissions q @ [(ib_start_addr q, ib_size q, write_index q)]\<rparr>))"
proof -
  from q have g: "geometry q" and o: "offsets_ok q" and p: "Ptr48_ok (scratch_base q)"
    by (simp_all add: queue_inv_def base_ok_def)
  let ?q = "q\<lparr>cmdbuf := b, ready_to_submit := True\<rparr>"
  have "region_ok (SP q mod 4096 * FR q) ?q"
    using g b ib_offset_frame(2,3) [OF g] by (auto simp: region_ok_def geometry_def ib_offset_def)
  moreover have "Ptr48_ok (scratch_base ?q)" "offsets_ok ?q" using p o by (simp_all add: offsets_ok_def)
  ultimately obtain b' where "RelocateCmdbufScratchBase (ib_start_addr ?q) ?q =
      Inr (?q\<lparr>cmdbuf := b', scratch_base_offset_array := []\<rparr>)"
    by (rule RelocateCmdbufScratchBase_ok) blast
  with e show ?thesis by (intro exI [of _ b']) (simp add: Submit_def PreSubmit_def Let_def)
qed

text \<open>
  C22. An oversized vendor packet stalls the queue: when vendor packets are processed and the user buffer of a well-formed vendor packet without a
  completion signal is larger than a frame but still inside the command buffer, a turn (on a platform with atomics, with a free frame and a kernel that
  accepts the submission) copies all of it, the words behind the end of its frame included, loses the refusal of \<^verbatim>\<open>VendorSpecificAqlToPm4\<close> (whose
  status \<^verbatim>\<open>SwitchAql2PM4\<close> ignores), submits, and reports success with the write index and the ring unchanged,
  so that the loop of \<^verbatim>\<open>Process\<close> meets the same packet again.
\<close>

theorem vendor_overflow_no_progress:
  assumes q: "queue_inv q" and ty: "slot_type q = HSA_PACKET_TYPE_VENDOR_SPECIFIC"
    and h: "ven_hdr pkt = 1" "drop_bit 8 (ib_jump_cmd pkt ! 0) AND 0xFF = IT_INDIRECT_BUFFER"
    and pkt: "pkt = as_vendor (ring_slots q ! current_slot q)" and s: "vp_completion_signal pkt = 0"
    and e: "env_vendor_packet_process env" "env_page_wait env" "\<forall>x. env_submit env x"
    and at: "platform_atomic_support q" and fw: "frame_wait env q"
    and big: "FR q < 4 * length (vendor_user env (current_slot q) q)"
    and fit: "ib_offset q + 4 * (length (vendor_user env (current_slot q) q) + 9) \<le> 4 * length (cmdbuf q)"
  shows "\<exists>q1 q'. VendorSpecificAqlToPm4 env (ib_start_addr q) (current_slot q) q = Inr (HSA_STATUS_ERROR_OUT_OF_RESOURCES, q1) \<and>
    SwitchAql2PM4 env q = Inr (HSA_STATUS_SUCCESS, q1\<lparr>ready_to_submit := True\<rparr>) \<and>
    (\<forall>k < length (vendor_user env (current_slot q) q).
       cmdbuf q1 ! (ib_offset q div 4 + k) = vendor_user env (current_slot q) q ! k) \<and>
    ib_offset q div 4 + FR q div 4 < ib_offset q div 4 + length (vendor_user env (current_slot q) q) \<and>
    Process_turn env q = Inr (HSA_STATUS_SUCCESS, q') \<and> write_index q' = write_index q \<and>
    ring_slots q' = ring_slots q \<and>
    submissions q' = submissions q @ [(ib_start_addr q, ib_size q, write_index q)]"
proof -
  from q have g: "geometry q" and base: "base_ok q" by (simp_all add: queue_inv_def)
  let ?u = "vendor_user env (current_slot q) q"
  let ?r = "BuildAtomicMem (ring_rptr_addr q) TC_OP_ATOMIC_ADD_RTN_64 cache_policy__mec_atomic_mem__stream 1"
  have r: "rptr_update q = Inr ?r" "length ?r = 9"
    using BuildAtomicMem_packet(2) at by (simp_all add: rptr_update_def sizeof_defs mult.commute)
  let ?b = "overwrite (ib_offset q div 4) (?u @ ?r) (cmdbuf q)"
  have room: "ib_offset q div 4 + length (?u @ ?r) \<le> length (cmdbuf q)"
    using fit r(2) ib_offset_index(2) [OF g] by (auto elim!: dvdE)
  then have lb: "length ?b = length (cmdbuf q)" by (rule length_overwrite)
  have w: "\<forall>k < length ?u. ?b ! (ib_offset q div 4 + k) = ?u ! k"
    using room by (simp add: overwrite_def nth_append)
  have past: "FR q div 4 < length ?u" using big by (simp add: less_mult_imp_div_less mult.commute)
  have "VendorSpecificAqlToPm4 env (ib_start_addr q) (current_slot q) q =
      commit_packet (ib_start_addr q) (current_slot q) (?u @ ?r) q"
    using h e(1) r(1) s unfolding VendorSpecificAqlToPm4_def Let_def pkt [symmetric]
    by (simp add: vendor_words_def vendor_user_def Let_def pkt [symmetric])
  also have "\<dots> = Inr (HSA_STATUS_ERROR_OUT_OF_RESOURCES, q\<lparr>cmdbuf := ?b\<rparr>)"
    using big fit r(2) by (intro commit_packet_overflow [OF g]) simp_all
  finally have v: "VendorSpecificAqlToPm4 env (ib_start_addr q) (current_slot q) q = Inr (HSA_STATUS_ERROR_OUT_OF_RESOURCES, q\<lparr>cmdbuf := ?b\<rparr>)" .
  then have sw: "SwitchAql2PM4 env q =
      Inr (HSA_STATUS_SUCCESS, q\<lparr>cmdbuf := ?b, ready_to_submit := True\<rparr>)"
    using ty slot_at_ok [OF base] by (simp add: SwitchAql2PM4_def Let_def slot_type_def packet_type_defs)
  from Submit_untranslated [OF q lb e(2)] e(3) obtain b' where
    sub: "Submit env (q\<lparr>cmdbuf := ?b, ready_to_submit := True\<rparr>) = Inr (HSA_STATUS_SUCCESS,
      EndSubmit (q\<lparr>ready_to_submit := True, cmdbuf := b', scratch_base_offset_array := [],
        submissions := submissions q @ [(ib_start_addr q, ib_size q, write_index q)]\<rparr>))" by blast
  have "\<exists>q'. Process_turn env q = Inr (HSA_STATUS_SUCCESS, q') \<and> write_index q' = write_index q \<and> ring_slots q' = ring_slots q \<and>
      submissions q' = submissions q @ [(ib_start_addr q, ib_size q, write_index q)]"
    using fw sw sub at by (simp add: Process_turn_def finish_signal_def EndSubmit_def)
  then obtain q' where t: "Process_turn env q = Inr (HSA_STATUS_SUCCESS, q')" "write_index q' = write_index q" "ring_slots q' = ring_slots q"
      "submissions q' = submissions q @ [(ib_start_addr q, ib_size q, write_index q)]" by blast
  have "cmdbuf (q\<lparr>cmdbuf := ?b\<rparr>) = ?b" "q\<lparr>cmdbuf := ?b\<rparr>\<lparr>ready_to_submit := True\<rparr> = q\<lparr>cmdbuf := ?b, ready_to_submit := True\<rparr>" by simp_all
  with v sw w past t show ?thesis by (intro exI [of _ "q\<lparr>cmdbuf := ?b\<rparr>"] exI [of _ q'] conjI) simp_all
qed

definition slot_vendor :: slot where
  "slot_vendor = [0x00010000, 0x3F00, 0x700000, 0, 200, 0, 0, 0, 0, 0, 0, 0, 0, 0, 0, 0]"

definition queue_vendor :: compute_queue where
  "queue_vendor = queue_start\<lparr>ring_slots := replicate 64 slot_vendor\<rparr>"

lemma queue_vendor_inv: "queue_inv queue_vendor"
  using loop_inv_slots [OF init_loop_inv [OF queue_start_init], of "replicate 64 slot_vendor"]
  by (simp add: queue_vendor_def loop_inv_def queue_start_def ComputeQueue_Init_def)

theorem vendor_overflow_no_progress_witness:
  "\<exists>q'. Process_turn env_example queue_vendor = Inr (HSA_STATUS_SUCCESS, q') \<and>
     write_index q' = write_index queue_vendor \<and> ring_slots q' = ring_slots queue_vendor"
proof -
  note d = queue_vendor_def queue_start_def ComputeQueue_Init_def
  have s: "ring_slots queue_vendor ! current_slot queue_vendor = slot_vendor"
    by (simp add: current_slot_def d)
  have v: "as_vendor slot_vendor = \<lparr>vp_header = 0, ven_hdr = 1, ib_jump_cmd = [0x3F00, 0x700000, 0, 200],
      dw_cnt_remain = 0, vp_completion_signal = 0\<rparr>"
    by (simp add: as_vendor_def slot_vendor_def dw_def qw_def lo16_def hi16_def nth_Cons')
  have u: "length (vendor_user env_example (current_slot queue_vendor) queue_vendor) = 200"
    by (simp add: vendor_user_def s v env_example_def Let_def)
  have ty: "slot_type queue_vendor = HSA_PACKET_TYPE_VENDOR_SPECIFIC"
    by (simp add: slot_type_def s header_type_def lo16_def dw_def slot_vendor_def packet_type_defs)
  have o: "ib_offset queue_vendor = 0" by (simp add: ib_offset_def d)
  have fw: "frame_wait env_example queue_vendor"
    by (simp add: frame_wait_def env_example_def d word_le_nat_alt)
  have h: "ven_hdr (as_vendor slot_vendor) = 1"
    "drop_bit 8 (ib_jump_cmd (as_vendor slot_vendor) ! 0) AND 0xFF = IT_INDIRECT_BUFFER"
    "vp_completion_signal (as_vendor slot_vendor) = 0"
    by (simp_all add: v IT_INDIRECT_BUFFER_def)
  from vendor_overflow_no_progress [OF queue_vendor_inv ty h(1,2) _ h(3) _ _ _ _ fw] s u o
  show ?thesis by (auto simp: env_example_def d device_example_def)
qed

section \<open>The scratch buffer is large enough\<close>

lemma AlignUp_u32_bounds:
  assumes "0 < unat a" "unat (v :: u32) + unat a \<le> 4294967296"
  shows "unat v \<le> unat (AlignUp v a)" "unat (AlignUp v a) < unat v + unat a"
proof -
  have "unat (ucast v + a - 1 :: u64) = unat v + unat a - 1"
  proof -
    have "unat (ucast v + a :: u64) = unat v + unat a" using assms by (subst unat_add64) auto
    then show ?thesis using assms by (subst unat_sub64) auto
  qed
  then have "unat (ucast (ucast v + a - 1 :: u64) :: u32) = unat v + unat a - 1"
    using assms by (subst unat_ucast_down) auto
  then have w: "unat (ucast (ucast (ucast v + a - 1 :: u64) :: u32) :: u64) = unat v + unat a - 1" by simp
  let ?n = "(unat v + unat a - 1) div unat a * unat a"
  have b: "unat v \<le> ?n" "?n < unat v + unat a" by (rule ceil_mult_bounds [OF assms(1)])+
  have "unat (AlignUp v a) = ?n"
    unfolding AlignUp_def AlignDown_def using b assms
    by (subst unat_ucast_down) (simp_all add: unat_div_mult_u64 w del: unat_ucast_up)
  with b show "unat v \<le> unat (AlignUp v a)" "unat (AlignUp v a) < unat v + unat a" by simp_all
qed

lemma UpdateScratch_size:
  assumes "UpdateScratch env p w q = Inr (True, q')"
  defines "wavefront \<equiv> if w then 32 else 64 :: u32"
  shows "AlignUp p (ucast (1024 div wavefront)) * wavefront * scratch_waves q \<le> scratch_size q'"
    and "scratch_size q \<le> scratch_size q'"
proof -
  have h: "scratch_size (HandleError st q) = scratch_size q" "scratch_waves (HandleError st q) = scratch_waves q"
    for st by (simp_all add: HandleError_eq)
  show "AlignUp p (ucast (1024 div wavefront)) * wavefront * scratch_waves q \<le> scratch_size q'"
    "scratch_size q \<le> scratch_size q'"
    using assms(1) unfolding UpdateScratch_def Let_def wavefront_def InitScratchSRD_def
    by (auto simp: h bindE_Inr_iff split: if_splits option.splits)
qed

text \<open>
  C16. Scratch memory is large enough: on a device with shader engines, when the size fits in 32 bits with room for rounding
  (where it does not, the code reports an error and goes on with the wrapped size), a successful \<^verbatim>\<open>UpdateScratch\<close> leaves a buffer that holds the private segment of every lane of every
  wave, and never shrinks it.
\<close>

theorem UpdateScratch_enough:
  assumes se: "dev_num_shader_engine (cq_device q) \<noteq> 0"
    and fit: "(unat p * (if w then 32 else 64) + 1024) * unat (scratch_waves q) < 4294967296"
    and u: "UpdateScratch env p w q = Inr (True, q')"
  shows "unat p * (if w then 32 else 64) * unat (scratch_waves q) \<le> unat (scratch_size q') \<and>
    scratch_size q \<le> scratch_size q'"
proof -
  let ?n = "if w then 32 else 64 :: nat" and ?wf = "if w then 32 else 64 :: u32"
  let ?a = "ucast (1024 div ?wf) :: u64" and ?W = "unat (scratch_waves q)"
  have a: "unat ?a = 1024 div ?n" "unat ?wf = ?n" by simp_all
  note sz = UpdateScratch_size [OF u]
  show ?thesis
  proof (cases "?W = 0")
    case True
    then show ?thesis using sz(2) by simp
  next
    case False
    then have 1: "unat p * ?n + 1024 < 4294967296"
      using fit by (cases ?W) (auto intro: le_less_trans [rotated])
    have b: "unat p \<le> unat (AlignUp p ?a)" "unat (AlignUp p ?a) < unat p + unat ?a"
      using 1 a by (intro AlignUp_u32_bounds; cases w; simp)+
    then have 2: "unat p * ?n \<le> unat (AlignUp p ?a) * ?n" "unat (AlignUp p ?a) * ?n \<le> unat p * ?n + 1024"
      using a by (cases w; simp)+
    have "unat (AlignUp p ?a) * ?n < 4294967296" using 2(2) 1 by (rule le_less_trans)
    then have pw: "unat (AlignUp p ?a * ?wf) = unat (AlignUp p ?a) * ?n"
      using unat_mult32 [of "AlignUp p ?a" ?wf] by (simp only: a(2))
    have 3: "unat (AlignUp p ?a) * ?n * ?W \<le> (unat p * ?n + 1024) * ?W" using 2(2) by (rule mult_le_mono1)
    have "unat (AlignUp p ?a) * ?n * ?W < 4294967296" using 3 fit by (rule le_less_trans)
    then have "unat (AlignUp p ?a * ?wf * scratch_waves q) = unat (AlignUp p ?a) * ?n * ?W"
      using unat_mult32 [of "AlignUp p ?a * ?wf" "scratch_waves q"] by (simp only: pw)
    moreover have "unat p * ?n * ?W \<le> unat (AlignUp p ?a) * ?n * ?W" using 2(1) by (rule mult_le_mono1)
    ultimately have "unat p * ?n * ?W \<le> unat (scratch_size q')"
      using sz(1) [unfolded word_le_nat_alt] by (simp only:)
    with sz(2) show ?thesis by blast
  qed
qed

theorem UpdateScratch_enough_witness:
  "\<exists>q'. UpdateScratch env_example 100 True queue_start = Inr (True, q') \<and>
     100 * 32 * unat (scratch_waves queue_start) \<le> unat (scratch_size q')"
proof -
  have d: "dev_num_shader_engine (cq_device queue_start) \<noteq> 0" "scratch_waves queue_start = 1536"
    "scratch_size queue_start = 0"
    by (simp_all add: queue_start_def ComputeQueue_Init_def device_example_def)
  have "\<exists>q'. UpdateScratch env_example 100 True queue_start = Inr (True, q')"
    unfolding UpdateScratch_def Let_def
    by (simp add: d InitScratchSRD_def tmpring_size_def env_example_def AlignUp_def AlignDown_def
        word_le_nat_alt)
  then obtain q' where u: "UpdateScratch env_example 100 True queue_start = Inr (True, q')" by blast
  have "(unat (100 :: u32) * (if True then 32 else 64) + 1024) * unat (scratch_waves queue_start) < 4294967296"
    by (simp add: d)
  from UpdateScratch_enough [OF d(1) this u] u show ?thesis by auto
qed

end
