(* ===== verification/Queue_Thread.thy ===== *)
theory Queue_Thread
  imports Prelude
begin

text \<open>
  The thread that serves a compute queue and its doorbell, from \<^verbatim>\<open>ComputeQueue::AqlToPm4Thread\<close>, \<^verbatim>\<open>RingDoorbell\<close> and the
  destructor in \<^verbatim>\<open>src/src/wddm/queue.cpp\<close>, as interleaved steps. A step is one access to shared memory, one operation on the
  mutex or one on the condition variable. The clients publish packets and then ring; the GPU reports the packets it
  has executed. Ring indices are natural numbers: they count packets, and 64 bits do not wrap.
\<close>

section \<open>State\<close>

datatype thread_pc =
    T_check                \<comment> \<open>read the header of the next packet\<close>
  | T_process              \<comment> \<open>in \<open>Process\<close>\<close>
  | T_clock                \<comment> \<open>no packet: has the position moved, has the time passed\<close>
  | T_test                 \<comment> \<open>load the write pointer, without the lock\<close>
  | T_test_rptr nat        \<comment> \<open>load the read pointer, without the lock\<close>
  | T_lock                 \<comment> \<open>take the lock\<close>
  | T_cond                 \<comment> \<open>load the write pointer, with the lock\<close>
  | T_cond_rptr nat        \<comment> \<open>load the read pointer, with the lock\<close>
  | T_cond_packet          \<comment> \<open>read the header of the next packet, with the lock\<close>
  | T_stop                 \<comment> \<open>read the stop flag\<close>
  | T_wait                 \<comment> \<open>about to wait\<close>
  | T_waiting              \<comment> \<open>waits, without the lock\<close>
  | T_woken                \<comment> \<open>notified, has to take the lock again\<close>
  | T_unlock               \<comment> \<open>the end of the scope of the lock\<close>
  | T_exit

datatype client_pc = C_idle | C_dirty | C_locked | C_notify

datatype dtor_pc = D_none | D_locked | D_set | D_notify | D_join | D_done

datatype holder = By_thread | By_client nat | By_dtor

record aql_thread =
  at_wptr :: nat
  at_rptr :: nat
  at_index :: nat
  at_valid :: "nat \<Rightarrow> bool"
  at_lock :: "holder option"
  at_stop :: bool
  at_pc :: thread_pc
  at_sleep :: bool
  at_position :: nat
  at_failed :: bool
  at_client :: "nat \<Rightarrow> client_pc"
  at_dtor :: dtor_pc

definition at_init :: "aql_thread" where
  "at_init =
     \<lparr>at_wptr = 0, at_rptr = 0, at_index = 0, at_valid = \<lambda>_. False, at_lock = None, at_stop = False, at_pc = T_check,
      at_sleep = False, at_position = 0, at_failed = False, at_client = \<lambda>_. C_idle, at_dtor = D_none\<rparr>"

text \<open>\<^verbatim>\<open>thread_cond_.notify_one()\<close>: the thread of the queue is the only one that waits.\<close>

definition notify_one :: "aql_thread \<Rightarrow> aql_thread" where
  "notify_one s = (if at_pc s = T_waiting then s\<lparr>at_pc := T_woken\<rparr> else s)"

section \<open>Steps\<close>

text \<open>
  The thread. \<^verbatim>\<open>Process\<close> may handle any number of valid packets or fail; whether the time has passed is not
  determined; a wait may end without a notification.
\<close>

inductive thread_step :: "aql_thread \<Rightarrow> aql_thread \<Rightarrow> bool" where
  check: "at_pc s = T_check \<Longrightarrow>
    thread_step s (s\<lparr>at_pc := (if at_valid s (at_index s) then T_process else T_clock)\<rparr>)"
| process: "at_pc s = T_process \<Longrightarrow> at_index s \<le> n \<Longrightarrow> \<forall>i\<in>{at_index s..<n}. at_valid s i \<Longrightarrow>
    thread_step s (s\<lparr>at_pc := T_test, at_sleep := False, at_index := n\<rparr>)"
| process_failed: "at_pc s = T_process \<Longrightarrow> thread_step s (s\<lparr>at_pc := T_exit, at_failed := True\<rparr>)"
| clock: "at_pc s = T_clock \<Longrightarrow>
    thread_step s (if at_position s = at_index s then s\<lparr>at_pc := T_test, at_sleep := at_sleep s \<or> elapsed\<rparr>
                   else s\<lparr>at_pc := T_test, at_position := at_index s, at_sleep := False\<rparr>)"
| test: "at_pc s = T_test \<Longrightarrow> thread_step s (s\<lparr>at_pc := T_test_rptr (at_wptr s)\<rparr>)"
| test_rptr: "at_pc s = T_test_rptr w \<Longrightarrow>
    thread_step s (s\<lparr>at_pc := (if w > at_rptr s \<and> \<not> at_sleep s then T_check else T_lock)\<rparr>)"
| lock: "at_pc s = T_lock \<Longrightarrow> at_lock s = None \<Longrightarrow> thread_step s (s\<lparr>at_pc := T_cond, at_lock := Some By_thread\<rparr>)"
| cond: "at_pc s = T_cond \<Longrightarrow> thread_step s (s\<lparr>at_pc := T_cond_rptr (at_wptr s)\<rparr>)"
| cond_rptr: "at_pc s = T_cond_rptr w \<Longrightarrow>
    thread_step s (s\<lparr>at_pc := (if w \<le> at_rptr s then T_stop else if at_sleep s then T_cond_packet else T_unlock)\<rparr>)"
| cond_packet: "at_pc s = T_cond_packet \<Longrightarrow>
    thread_step s (s\<lparr>at_pc := (if at_valid s (at_index s) then T_unlock else T_stop)\<rparr>)"
| stop: "at_pc s = T_stop \<Longrightarrow>
    thread_step s (if at_stop s then s\<lparr>at_pc := T_exit, at_lock := None\<rparr> else s\<lparr>at_pc := T_wait\<rparr>)"
| wait: "at_pc s = T_wait \<Longrightarrow> thread_step s (s\<lparr>at_pc := T_waiting, at_lock := None\<rparr>)"
| spurious: "at_pc s = T_waiting \<Longrightarrow> thread_step s (s\<lparr>at_pc := T_woken\<rparr>)"
| woken: "at_pc s = T_woken \<Longrightarrow> at_lock s = None \<Longrightarrow> thread_step s (s\<lparr>at_pc := T_unlock, at_lock := Some By_thread\<rparr>)"
| unlock: "at_pc s = T_unlock \<Longrightarrow> thread_step s (s\<lparr>at_pc := T_check, at_lock := None\<rparr>)"

text \<open>A client publishes packets: it moves the write pointer or makes packets valid. Then it rings.\<close>

inductive client_step :: "nat \<Rightarrow> aql_thread \<Rightarrow> aql_thread \<Rightarrow> bool" for c where
  publish: "at_client s c = C_idle \<or> at_client s c = C_dirty \<Longrightarrow> at_wptr s \<le> w \<Longrightarrow> \<forall>i. at_valid s i \<longrightarrow> v i \<Longrightarrow>
    client_step c s (s\<lparr>at_wptr := w, at_valid := v, at_client := (at_client s)(c := C_dirty)\<rparr>)"
| ring_lock: "at_client s c = C_dirty \<Longrightarrow> at_lock s = None \<Longrightarrow>
    client_step c s (s\<lparr>at_lock := Some (By_client c), at_client := (at_client s)(c := C_locked)\<rparr>)"
| ring_unlock: "at_client s c = C_locked \<Longrightarrow>
    client_step c s (s\<lparr>at_lock := None, at_client := (at_client s)(c := C_notify)\<rparr>)"
| ring_notify: "at_client s c = C_notify \<Longrightarrow>
    client_step c s ((notify_one s)\<lparr>at_client := (at_client s)(c := C_idle)\<rparr>)"

inductive gpu_step :: "aql_thread \<Rightarrow> aql_thread \<Rightarrow> bool" where
  executed: "at_rptr s \<le> r \<Longrightarrow> r \<le> at_index s \<Longrightarrow> gpu_step s (s\<lparr>at_rptr := r\<rparr>)"

inductive dtor_step :: "aql_thread \<Rightarrow> aql_thread \<Rightarrow> bool" where
  d_lock: "at_dtor s = D_none \<Longrightarrow> at_lock s = None \<Longrightarrow> dtor_step s (s\<lparr>at_lock := Some By_dtor, at_dtor := D_locked\<rparr>)"
| d_set: "at_dtor s = D_locked \<Longrightarrow> dtor_step s (s\<lparr>at_stop := True, at_dtor := D_set\<rparr>)"
| d_unlock: "at_dtor s = D_set \<Longrightarrow> dtor_step s (s\<lparr>at_lock := None, at_dtor := D_notify\<rparr>)"
| d_notify: "at_dtor s = D_notify \<Longrightarrow> dtor_step s ((notify_one s)\<lparr>at_dtor := D_join\<rparr>)"
| d_join: "at_dtor s = D_join \<Longrightarrow> at_pc s = T_exit \<Longrightarrow> dtor_step s (s\<lparr>at_dtor := D_done\<rparr>)"

inductive at_reach :: "aql_thread \<Rightarrow> bool" where
  init: "at_reach at_init"
| thread: "at_reach s \<Longrightarrow> thread_step s s' \<Longrightarrow> at_reach s'"
| client: "at_reach s \<Longrightarrow> client_step c s s' \<Longrightarrow> at_reach s'"
| gpu: "at_reach s \<Longrightarrow> gpu_step s s' \<Longrightarrow> at_reach s'"
| dtor: "at_reach s \<Longrightarrow> dtor_step s s' \<Longrightarrow> at_reach s'"

inductive_cases thread_stepE: "thread_step s s'"
inductive_cases client_stepE: "client_step c s s'"
inductive_cases gpu_stepE: "gpu_step s s'"
inductive_cases dtor_stepE: "dtor_step s s'"

section \<open>The invariant\<close>

text \<open>The thread has nothing to do: the GPU has executed all packets, or the next one is not ready.\<close>

definition nothing_to_do :: "aql_thread \<Rightarrow> bool" where
  "nothing_to_do s \<longleftrightarrow> at_wptr s \<le> at_rptr s \<or> \<not> at_valid s (at_index s)"

definition some_client :: "aql_thread \<Rightarrow> client_pc set \<Rightarrow> bool" where
  "some_client s P \<longleftrightarrow> (\<exists>c. at_client s c \<in> P)"

definition thread_holds :: "thread_pc \<Rightarrow> bool" where
  "thread_holds p \<longleftrightarrow> (case p of T_cond \<Rightarrow> True | T_cond_rptr _ \<Rightarrow> True | T_cond_packet \<Rightarrow> True | T_stop \<Rightarrow> True
     | T_wait \<Rightarrow> True | T_unlock \<Rightarrow> True | _ \<Rightarrow> False)"

definition lock_ok :: "aql_thread \<Rightarrow> bool" where
  "lock_ok s \<longleftrightarrow> (at_lock s = Some By_thread) = thread_holds (at_pc s) \<and>
     (\<forall>c. (at_lock s = Some (By_client c)) = (at_client s c = C_locked)) \<and>
     (at_lock s = Some By_dtor) = (at_dtor s \<in> {D_locked, D_set})"

definition wake_ok :: "aql_thread \<Rightarrow> bool" where
  "wake_ok s \<longleftrightarrow>
     (case at_pc s of
        T_cond_rptr w \<Rightarrow> w \<le> at_wptr s \<and> (w < at_wptr s \<longrightarrow> some_client s {C_dirty})
      | T_stop \<Rightarrow> nothing_to_do s \<or> some_client s {C_dirty}
      | T_wait \<Rightarrow> (nothing_to_do s \<or> some_client s {C_dirty}) \<and> \<not> at_stop s
      | T_waiting \<Rightarrow> (nothing_to_do s \<or> some_client s {C_dirty, C_locked, C_notify}) \<and>
          (at_stop s \<longrightarrow> at_dtor s \<in> {D_set, D_notify})
      | _ \<Rightarrow> True)"

definition stop_ok :: "aql_thread \<Rightarrow> bool" where
  "stop_ok s \<longleftrightarrow> at_stop s = (at_dtor s \<notin> {D_none, D_locked})"

definition at_inv :: "aql_thread \<Rightarrow> bool" where
  "at_inv s \<longleftrightarrow> lock_ok s \<and> wake_ok s \<and> stop_ok s"

lemma at_inv_init: "at_inv at_init"
  by (simp add: at_inv_def lock_ok_def wake_ok_def stop_ok_def at_init_def thread_holds_def)

lemmas at_defs = at_inv_def lock_ok_def wake_ok_def stop_ok_def thread_holds_def

lemma at_inv_thread: "thread_step s s' \<Longrightarrow> at_inv s \<Longrightarrow> at_inv s'"
  by (erule thread_stepE) (auto simp: at_defs nothing_to_do_def some_client_def split: thread_pc.splits if_splits)

text \<open>A change by somebody else keeps what the thread relies on.\<close>

lemma wake_ok_grows:
  assumes "wake_ok s" "at_pc s' = at_pc s" "at_stop s' = at_stop s" "at_dtor s' = at_dtor s"
    and "at_wptr s \<le> at_wptr s'" "some_client s' {C_dirty}"
  shows "wake_ok s'"
  using assms by (auto simp: wake_ok_def some_client_def split: thread_pc.splits)

lemma wake_ok_not_holding:
  assumes "wake_ok s" "at_pc s' = at_pc s" "at_stop s' = at_stop s" "at_dtor s' = at_dtor s" "nothing_to_do s' = nothing_to_do s"
    and "\<not> thread_holds (at_pc s)" "some_client s {C_dirty, C_locked, C_notify} \<Longrightarrow> some_client s' {C_dirty, C_locked, C_notify}"
  shows "wake_ok s'"
  using assms by (auto simp: wake_ok_def thread_holds_def split: thread_pc.splits)

lemma at_inv_client:
  assumes "client_step c s s'" "at_inv s"
  shows "at_inv s'"
  using assms(1)
proof cases
  case (publish w v)
  have "some_client s' {C_dirty}" using publish(1) by (auto simp: some_client_def)
  then have "wake_ok s'" using wake_ok_grows [of s s'] publish assms(2) by (simp add: at_inv_def)
  moreover have "lock_ok s'" "stop_ok s'" using publish assms(2) by (auto simp: at_inv_def lock_ok_def stop_ok_def)
  ultimately show ?thesis by (simp add: at_inv_def)
next
  case ring_lock
  have nh: "\<not> thread_holds (at_pc s)" using ring_lock(3) assms(2) by (auto simp: at_inv_def lock_ok_def)
  have "some_client s' {C_dirty, C_locked, C_notify}" using ring_lock(1) by (auto simp: some_client_def)
  then have "wake_ok s'" using wake_ok_not_holding [of s s'] ring_lock nh assms(2) by (simp add: at_inv_def nothing_to_do_def)
  moreover have "lock_ok s'" "stop_ok s'" using ring_lock nh assms(2) by (auto simp: at_inv_def lock_ok_def stop_ok_def)
  ultimately show ?thesis by (simp add: at_inv_def)
next
  case ring_unlock
  have l: "at_lock s = Some (By_client c)" using ring_unlock(2) assms(2) by (simp add: at_inv_def lock_ok_def)
  then have nh: "\<not> thread_holds (at_pc s)" using assms(2) by (auto simp: at_inv_def lock_ok_def)
  have "some_client s' {C_dirty, C_locked, C_notify}" using ring_unlock(1) by (auto simp: some_client_def)
  then have "wake_ok s'" using wake_ok_not_holding [of s s'] ring_unlock nh assms(2) by (simp add: at_inv_def nothing_to_do_def)
  moreover have "lock_ok s'" "stop_ok s'" using ring_unlock l nh assms(2) by (auto simp: at_inv_def lock_ok_def stop_ok_def)
  ultimately show ?thesis by (simp add: at_inv_def)
next
  case ring_notify
  have "lock_ok s'" "stop_ok s'" using ring_notify assms(2)
    by (auto simp: at_inv_def lock_ok_def stop_ok_def notify_one_def thread_holds_def)
  moreover have "wake_ok s'"
  proof -
    have d: "some_client s' {C_dirty}" if "some_client s {C_dirty}"
    proof -
      from that obtain ca where "at_client s ca = C_dirty" by (auto simp: some_client_def)
      moreover from this have "ca \<noteq> c" using ring_notify(2) by auto
      ultimately have "at_client s' ca = C_dirty" using ring_notify(1) by (simp add: notify_one_def)
      then show ?thesis by (auto simp: some_client_def)
    qed
    show ?thesis using assms(2) ring_notify d
      by (auto simp: at_inv_def wake_ok_def notify_one_def nothing_to_do_def split: thread_pc.splits)
  qed
  ultimately show ?thesis by (simp add: at_inv_def)
qed

lemma at_inv_gpu: "gpu_step s s' \<Longrightarrow> at_inv s \<Longrightarrow> at_inv s'"
  by (erule gpu_stepE) (auto simp: at_defs nothing_to_do_def some_client_def split: thread_pc.splits)

lemma at_inv_dtor: "dtor_step s s' \<Longrightarrow> at_inv s \<Longrightarrow> at_inv s'"
  by (erule dtor_stepE) (auto simp: at_defs nothing_to_do_def some_client_def notify_one_def split: thread_pc.splits if_splits)

lemma at_reach_inv: "at_reach s \<Longrightarrow> at_inv s"
  by (induction rule: at_reach.induct) (blast intro: at_inv_init at_inv_thread at_inv_client at_inv_gpu at_inv_dtor)+

text \<open>
  C25. No wake-up is lost. In every state that the thread, any number of clients, the GPU and the destructor can
  reach by interleaved steps, if the thread waits and no client is between publishing a packet and the end of its
  doorbell, then the thread has nothing to do: the GPU has executed everything that was published, or the next packet is
  not ready. And once the destructor has notified the thread, the thread no longer waits, so that the join is not blocked by it.
\<close>

theorem no_lost_wakeup:
  assumes "at_reach s" and "at_pc s = T_waiting"
  shows "((\<forall>c. at_client s c = C_idle) \<longrightarrow> at_wptr s \<le> at_rptr s \<or> \<not> at_valid s (at_index s)) \<and>
    at_dtor s \<notin> {D_join, D_done}"
proof -
  have inv: "at_inv s" using assms(1) by (rule at_reach_inv)
  with assms(2) have w: "nothing_to_do s \<or> some_client s {C_dirty, C_locked, C_notify}"
    "at_stop s \<longrightarrow> at_dtor s \<in> {D_set, D_notify}" and st: "at_stop s = (at_dtor s \<notin> {D_none, D_locked})"
    by (simp_all add: at_inv_def wake_ok_def stop_ok_def)
  from w(1) show ?thesis using w(2) st by (auto simp: nothing_to_do_def some_client_def)
qed

lemma waiting_reachable: "at_reach (at_init\<lparr>at_pc := T_waiting\<rparr>)"
proof -
  have step: "at_reach (at_init\<lparr>at_pc := p, at_lock := l\<rparr>) \<Longrightarrow> thread_step (at_init\<lparr>at_pc := p, at_lock := l\<rparr>) s' \<Longrightarrow> at_reach s'" for p l s'
    by (rule at_reach.thread)
  have "at_reach (at_init\<lparr>at_pc := T_check, at_lock := None\<rparr>)" using at_reach.init by (simp add: at_init_def)
  from step [OF this thread_step.check] have "at_reach (at_init\<lparr>at_pc := T_clock, at_lock := None\<rparr>)" by (simp add: at_init_def)
  from step [OF this thread_step.clock [of _ False]] have "at_reach (at_init\<lparr>at_pc := T_test, at_lock := None\<rparr>)" by (simp add: at_init_def)
  from step [OF this thread_step.test] have "at_reach (at_init\<lparr>at_pc := T_test_rptr 0, at_lock := None\<rparr>)" by (simp add: at_init_def)
  from step [OF this thread_step.test_rptr] have "at_reach (at_init\<lparr>at_pc := T_lock, at_lock := None\<rparr>)" by (simp add: at_init_def)
  from step [OF this thread_step.lock] have "at_reach (at_init\<lparr>at_pc := T_cond, at_lock := Some By_thread\<rparr>)" by (simp add: at_init_def)
  from step [OF this thread_step.cond] have "at_reach (at_init\<lparr>at_pc := T_cond_rptr 0, at_lock := Some By_thread\<rparr>)" by (simp add: at_init_def)
  from step [OF this thread_step.cond_rptr] have "at_reach (at_init\<lparr>at_pc := T_stop, at_lock := Some By_thread\<rparr>)" by (simp add: at_init_def)
  from step [OF this thread_step.stop] have "at_reach (at_init\<lparr>at_pc := T_wait, at_lock := Some By_thread\<rparr>)" by (simp add: at_init_def)
  from step [OF this thread_step.wait] show ?thesis by (simp add: at_init_def)
qed

theorem no_lost_wakeup_witness:
  "at_pc (at_init\<lparr>at_pc := T_waiting\<rparr>) = T_waiting \<and> at_dtor (at_init\<lparr>at_pc := T_waiting\<rparr>) \<notin> {D_join, D_done}"
  using no_lost_wakeup [OF waiting_reachable] by simp

end
