(* ===== verification/Queue_Objects.thy ===== *)
theory Queue_Objects
  imports Memory_Safety Compute_Queue
begin

text \<open>
  Queues as objects, from \<^verbatim>\<open>src/include/impl/wddm/queue.h\<close>, \<^verbatim>\<open>src/src/wddm/queue.cpp\<close> and \<^verbatim>\<open>src/src/wddm/device.cpp\<close>:
  what a queue creates in the kernel and in the memory of the device, and what it gives back. The classes derived
  from \<^verbatim>\<open>WDDMQueue\<close> are extensions of its record; the virtual functions \<^verbatim>\<open>Init\<close> and \<^verbatim>\<open>Fini\<close> are arguments of the operations of the device
  that call them.
\<close>

section \<open>State\<close>

datatype SchedLevel = kLow | kNormal | kHigh

fun sched_value :: "SchedLevel \<Rightarrow> int" where
  "sched_value kLow = 0" | "sched_value kNormal = 1" | "sched_value kHigh = 2"

text \<open>The engines of a device, which the thunk proxy reports.\<close>

record engines =
  eng_ordinal :: "u32 \<Rightarrow> int"
  eng_hws :: "u32 \<Rightarrow> bool"
  eng_compute :: u32
  eng_num_sdma :: u32
  eng_sdma :: "u32 \<Rightarrow> u32"
  eng_user_queue_size :: u32
  eng_flag :: "u32 \<Rightarrow> int"

text \<open>\<^verbatim>\<open>WDDMQueue\<close>; a handle of a memory object is the number of the object, \<open>None\<close> for null.\<close>

record wddm_queue =
  wq_device :: nat
  wq_context :: u64
  wq_queue :: u64
  wq_syncobj :: u64
  wq_sync_addr :: u64
  wq_cmdbuf :: "nat option"
  wq_cmdbuf_addr :: u64
  wq_cmdbuf_size :: u32
  wq_queue_mem :: "nat option"
  wq_engine :: u32
  wq_use_hws :: bool
  wq_prio :: SchedLevel

record compute_object = wddm_queue +
  co_ring :: u64
  co_ring_size :: u64
  co_ring_wptr :: u64
  co_ring_rptr :: u64
  co_error_code :: u64
  co_ib_start_addr :: u64
  co_frame_size :: u32
  co_platform_atomic :: bool
  co_amd_queue_mem :: "nat option"
  co_amd_queue :: u64
  co_amd_queue_rocr :: u64
  co_scratch_waves :: u32
  co_scratch_base :: u64
  co_scratch_mem :: "nat option"
  co_thread :: bool

record sdma_object = wddm_queue +
  sd_ring :: "u32 list"
  sd_wptr_next :: u64
  sd_wptr_pre :: u64
  sd_rptr_next :: u64
  sd_wptr_queue :: "(u64 \<times> u64) list"
  sd_ib_size :: u64
  sd_ib_start_addr :: u64
  sd_thread :: bool

definition set_tr :: "dx_trace \<Rightarrow> mem_state \<Rightarrow> mem_state" where
  "set_tr tr st = st\<lparr>ms_tr := tr\<rparr>"

section \<open>Software and hardware queues\<close>

definition AllocUserQueueMemFromUMD :: bool where "AllocUserQueueMemFromUMD = False"

definition user_queue_mem :: "mem_env \<Rightarrow> engines \<Rightarrow> 'a wddm_queue_scheme \<Rightarrow> mem_state \<Rightarrow>
    (hsa_status \<times> 'a wddm_queue_scheme \<times> mem_state) res" where
  "user_queue_mem me en q st =
     bindE (create_obj me (new_GpuMemoryCreateInfo\<lparr>ci_domain := kUserQueue, ci_size := ucast (eng_user_queue_size en),
              ci_engine_flag := eng_flag en (wq_engine q)\<rparr>) (wq_device q) st) (\<lambda>(code, obj, _, st).
       case obj of
         None \<Rightarrow> Inr (HSA_STATUS_ERROR, q, set_tr (DestroySyncobj (me_dx me) (wq_syncobj q) (ms_tr st)) st)
       | Some hn \<Rightarrow>
           bindE (get_obj hn st) (\<lambda>(i, m). bindE (GetAllocationHandle m 0) (\<lambda>handle.
             Inr (HSA_STATUS_SUCCESS, q\<lparr>wq_queue_mem := Some hn, wq_queue := handle\<rparr>, st))))"

definition SwsInit :: "mem_env \<Rightarrow> engines \<Rightarrow> 'a wddm_queue_scheme \<Rightarrow> mem_state \<Rightarrow>
    (hsa_status \<times> 'a wddm_queue_scheme \<times> mem_state) res" where
  "SwsInit me en q st =
     (case CreateSyncobj (me_dx me) (ms_tr st) of
        (None, tr) \<Rightarrow> Inr (HSA_STATUS_ERROR, q, set_tr tr st)
      | (Some (h, addr), tr) \<Rightarrow>
          let q = q\<lparr>wq_syncobj := h, wq_sync_addr := addr\<rparr>; st = set_tr tr st
          in if AllocUserQueueMemFromUMD then user_queue_mem me en q st else Inr (HSA_STATUS_SUCCESS, q, st))"

definition SwsFini :: "mem_env \<Rightarrow> 'a wddm_queue_scheme \<Rightarrow> mem_state \<Rightarrow> hsa_status \<times> mem_state" where
  "SwsFini me q st = (HSA_STATUS_SUCCESS, set_tr (DestroySyncobj (me_dx me) (wq_syncobj q) (ms_tr st)) st)"

definition SubmitToSwQueue :: "dx_env \<Rightarrow> 'a wddm_queue_scheme \<Rightarrow> u64 \<Rightarrow> u64 \<Rightarrow> u64 \<Rightarrow> dx_trace \<Rightarrow> bool \<times> dx_trace" where
  "SubmitToSwQueue env q command_addr command_size fence_value tr =
     (case dx env (SubmitCommand (wq_context q) command_addr command_size) tr of
        (None, tr) \<Rightarrow> (False, tr)
      | (Some _, tr) \<Rightarrow> GpuSignal env (wq_context q) (wq_syncobj q) fence_value tr)"

definition status_of :: "bool \<Rightarrow> hsa_status" where
  "status_of ok = (if ok then HSA_STATUS_SUCCESS else HSA_STATUS_ERROR)"

definition SwsSubmit :: "dx_env \<Rightarrow> 'a wddm_queue_scheme \<Rightarrow> u64 \<Rightarrow> u64 \<Rightarrow> u64 \<Rightarrow> dx_trace \<Rightarrow> hsa_status \<times> dx_trace" where
  "SwsSubmit env q command_addr command_size fence_value tr =
     (case SubmitToSwQueue env q command_addr command_size fence_value tr of (ok, tr) \<Rightarrow> (status_of ok, tr))"

definition CreateHwQueue :: "dx_env \<Rightarrow> 'a wddm_queue_scheme \<Rightarrow> dx_trace \<Rightarrow> bool \<times> 'a wddm_queue_scheme \<times> dx_trace" where
  "CreateHwQueue env q tr =
     (case dx env (CreateHwQueue_call (wq_context q) (sched_value (wq_prio q))) tr of
        (None, tr) \<Rightarrow> (False, q, tr)
      | (Some vs, tr) \<Rightarrow>
          (True, q\<lparr>wq_queue := out_arg vs 0, wq_syncobj := out_arg vs 1, wq_sync_addr := out_arg vs 2\<rparr>, tr))"

definition DestroyHwQueue :: "dx_env \<Rightarrow> 'a wddm_queue_scheme \<Rightarrow> dx_trace \<Rightarrow> bool \<times> dx_trace" where
  "DestroyHwQueue env q tr = (case dx env (DestroyHwQueue_call (wq_queue q)) tr of (r, tr) \<Rightarrow> (r \<noteq> None, tr))"

definition SubmitToHwQueue :: "dx_env \<Rightarrow> 'a wddm_queue_scheme \<Rightarrow> u64 \<Rightarrow> u64 \<Rightarrow> u64 \<Rightarrow> dx_trace \<Rightarrow> bool \<times> dx_trace" where
  "SubmitToHwQueue env q command_addr command_size fence_value tr =
     (case dx env (SubmitCommandToHwQueue (wq_queue q) command_addr command_size fence_value) tr of (r, tr) \<Rightarrow> (r \<noteq> None, tr))"

definition HwsInit :: "mem_env \<Rightarrow> 'a wddm_queue_scheme \<Rightarrow> mem_state \<Rightarrow> hsa_status \<times> 'a wddm_queue_scheme \<times> mem_state" where
  "HwsInit me q st =
     (case CreateHwQueue (me_dx me) q (ms_tr st) of (ok, q, tr) \<Rightarrow> (status_of ok, q, set_tr tr st))"

definition HwsFini :: "mem_env \<Rightarrow> 'a wddm_queue_scheme \<Rightarrow> mem_state \<Rightarrow> hsa_status \<times> mem_state" where
  "HwsFini me q st = (case DestroyHwQueue (me_dx me) q (ms_tr st) of (ok, tr) \<Rightarrow> (status_of ok, set_tr tr st))"

definition HwsSubmit :: "dx_env \<Rightarrow> 'a wddm_queue_scheme \<Rightarrow> u64 \<Rightarrow> u64 \<Rightarrow> u64 \<Rightarrow> dx_trace \<Rightarrow> hsa_status \<times> dx_trace" where
  "HwsSubmit env q command_addr command_size fence_value tr =
     (case SubmitToHwQueue env q command_addr command_size fence_value tr of (ok, tr) \<Rightarrow> (status_of ok, tr))"

text \<open>The priorities of the HSA runtime are the numbers 0 to 2; every other number is the normal one.\<close>

definition ConvertSchedLevel :: "int \<Rightarrow> SchedLevel" where
  "ConvertSchedLevel p = (if p = 0 then kLow else if p = 2 then kHigh else kNormal)"

definition SetPriority :: "mem_env \<Rightarrow> int \<Rightarrow> 'a wddm_queue_scheme \<Rightarrow> mem_state \<Rightarrow>
    hsa_status \<times> 'a wddm_queue_scheme \<times> mem_state" where
  "SetPriority me priority q st =
     (if \<not> wq_use_hws q then (HSA_STATUS_SUCCESS, q, st)
      else let new_prio = ConvertSchedLevel priority in
        if wq_prio q = new_prio then (HSA_STATUS_SUCCESS, q, st)
        else HwsInit me (q\<lparr>wq_prio := new_prio\<rparr>) (set_tr (snd (DestroyHwQueue (me_dx me) q (ms_tr st))) st))"

section \<open>Creation and destruction by the device\<close>

definition queue_Init :: "mem_env \<Rightarrow> engines \<Rightarrow> 'a wddm_queue_scheme \<Rightarrow> mem_state \<Rightarrow>
    (hsa_status \<times> 'a wddm_queue_scheme \<times> mem_state) res" where
  "queue_Init me en q st = (if wq_use_hws q then Inr (HwsInit me q st) else SwsInit me en q st)"

definition queue_Fini :: "mem_env \<Rightarrow> 'a wddm_queue_scheme \<Rightarrow> mem_state \<Rightarrow> hsa_status \<times> mem_state" where
  "queue_Fini me q st = (if wq_use_hws q then HwsFini me q st else SwsFini me q st)"

definition destroy_context :: "mem_env \<Rightarrow> u64 \<Rightarrow> mem_state \<Rightarrow> mem_state" where
  "destroy_context me context st = set_tr (snd (DestroyContext (me_dx me) context (ms_tr st))) st"

definition delete_mem :: "mem_env \<Rightarrow> nat option \<Rightarrow> mem_state \<Rightarrow> mem_state res" where
  "delete_mem me handle st = (case handle of None \<Rightarrow> Inr st | Some hn \<Rightarrow> delete_obj me hn st)"

definition cmdbuf_info :: "u64 \<Rightarrow> GpuMemoryCreateInfo" where
  "cmdbuf_info sz = new_GpuMemoryCreateInfo\<lparr>ci_size := sz, ci_domain := kSystem\<rparr>"

text \<open>\<open>gpu_address\<close> is \<^verbatim>\<open>GpuAddress()\<close> of the object at a handle.\<close>

definition gpu_address :: "nat \<Rightarrow> mem_state \<Rightarrow> u64 res" where
  "gpu_address hn st = bindE (get_obj hn st) (\<lambda>(i, m). Inr (gm_gpu_addr m))"

definition create_cmdbuf :: "mem_env \<Rightarrow> 'a wddm_queue_scheme \<Rightarrow> mem_state \<Rightarrow>
    (bool \<times> nat option \<times> 'a wddm_queue_scheme \<times> mem_state) res" where
  "create_cmdbuf me q st =
     (if wq_cmdbuf_addr q \<noteq> 0 then Inr (True, None, q, st)
      else bindE (create_obj me (cmdbuf_info (ucast (wq_cmdbuf_size q))) (wq_device q) st) (\<lambda>(code, obj, _, st).
        case obj of
          None \<Rightarrow> Inr (False, None, q, st)
        | Some hn \<Rightarrow> bindE (gpu_address hn st) (\<lambda>a.
            Inr (True, obj, q\<lparr>wq_cmdbuf := obj, wq_cmdbuf_addr := a\<rparr>, st))))"

definition CreateQueue :: "mem_env \<Rightarrow> engines \<Rightarrow>
    ('a wddm_queue_scheme \<Rightarrow> mem_state \<Rightarrow> (hsa_status \<times> 'a wddm_queue_scheme \<times> mem_state) res) \<Rightarrow>
    'a wddm_queue_scheme \<Rightarrow> mem_state \<Rightarrow> (bool \<times> 'a wddm_queue_scheme \<times> mem_state) res" where
  "CreateQueue me en init q st =
     (case CreateContext (me_dx me) (eng_ordinal en (wq_engine q)) (ms_tr st) of
        (None, tr) \<Rightarrow> Inr (False, q, set_tr tr st)
      | (Some context, tr) \<Rightarrow>
          bindE (create_cmdbuf me (q\<lparr>wq_context := context\<rparr>) (set_tr tr st)) (\<lambda>(ok, gpu_mem, q, st).
          if \<not> ok then Inr (False, q, destroy_context me context st)
          else bindE (init q st) (\<lambda>(ret, q, st).
            if ret \<noteq> HSA_STATUS_SUCCESS
            then bindE (delete_mem me gpu_mem st) (\<lambda>st. Inr (False, q, destroy_context me context st))
            else Inr (True, q, st))))"

definition DestroyQueue :: "mem_env \<Rightarrow> ('a wddm_queue_scheme \<Rightarrow> mem_state \<Rightarrow> hsa_status \<times> mem_state) \<Rightarrow>
    'a wddm_queue_scheme \<Rightarrow> mem_state \<Rightarrow> mem_state res" where
  "DestroyQueue me fini q st =
     bindE (delete_mem me (wq_cmdbuf q) (snd (fini q st))) (\<lambda>st. Inr (destroy_context me (wq_context q) st))"

section \<open>Compute queues\<close>

definition ComputeQueue_start :: "mem_env \<Rightarrow> engines \<Rightarrow> compute_object \<Rightarrow> mem_state \<Rightarrow>
    (hsa_status \<times> compute_object \<times> mem_state) res" where
  "ComputeQueue_start me en q st =
     bindE (queue_Init me en q st) (\<lambda>(ret, q, st).
       if ret \<noteq> HSA_STATUS_SUCCESS then Inr (ret, q, st)
       else Inr (ret, q\<lparr>co_ib_start_addr := wq_cmdbuf_addr q,
              co_frame_size := dev_aql_frame_size (ms_devs st ! wq_device q),
              co_platform_atomic := dev_platform_atomic (ms_devs st ! wq_device q)\<rparr>, st))"

definition offsetof_read_dispatch_id :: u64 where "offsetof_read_dispatch_id = 128"

definition new_compute_object :: "nat \<Rightarrow> wddm_device \<Rightarrow> u64 \<Rightarrow> u64 \<Rightarrow> u64 \<Rightarrow> u64 \<Rightarrow> u64 \<Rightarrow> u32 \<Rightarrow> u32 \<Rightarrow> bool \<Rightarrow> compute_object" where
  "new_compute_object i d ring rsize wptr rptr error_addr buf_size engine hws =
     \<lparr>wq_device = i, wq_context = 0, wq_queue = 0, wq_syncobj = 0, wq_sync_addr = 0, wq_cmdbuf = None,
      wq_cmdbuf_addr = 0, wq_cmdbuf_size = buf_size, wq_queue_mem = None, wq_engine = engine, wq_use_hws = hws,
      wq_prio = kNormal, co_ring = ring, co_ring_size = rsize, co_ring_wptr = wptr, co_ring_rptr = rptr,
      co_error_code = error_addr, co_ib_start_addr = 0, co_frame_size = 0, co_platform_atomic = False,
      co_amd_queue_mem = None, co_amd_queue = 0, co_amd_queue_rocr = 0,
      co_scratch_waves = dev_max_scratch_slots_per_cu d * dev_compute_unit_count d, co_scratch_base = 0,
      co_scratch_mem = None, co_thread = False\<rparr>"

definition ComputeQueue_ctor :: "mem_env \<Rightarrow> engines \<Rightarrow> compute_object \<Rightarrow> mem_state \<Rightarrow> (compute_object \<times> mem_state) res" where
  "ComputeQueue_ctor me en q st =
     bindE (CreateQueue me en (ComputeQueue_start me en) q st) (\<lambda>(ret, q, st).
     bindE (assertE ''ComputeQueue'' ret) (\<lambda>_.
     bindE (create_obj me (cmdbuf_info (rt_page_size (ms_rt st))) (wq_device q) st) (\<lambda>(code, obj, _, st).
     bindE (assertE ''ComputeQueue'' (code = Success)) (\<lambda>_.
     case obj of
       None \<Rightarrow> Inl (Null_Deref ''ComputeQueue'')
     | Some hn \<Rightarrow> bindE (gpu_address hn st) (\<lambda>a.
         Inr (q\<lparr>co_amd_queue_mem := obj, co_amd_queue := a,
                co_amd_queue_rocr := co_ring_rptr q - offsetof_read_dispatch_id, co_thread := True\<rparr>, st))))))"

definition ComputeQueue_dtor :: "mem_env \<Rightarrow> compute_object \<Rightarrow> mem_state \<Rightarrow> mem_state res" where
  "ComputeQueue_dtor me q st =
     bindE (DestroyQueue me (queue_Fini me) q st) (\<lambda>st.
     bindE (if co_scratch_base q \<noteq> 0 then delete_mem me (co_scratch_mem q) st else Inr st) (\<lambda>st.
     delete_mem me (co_amd_queue_mem q) st))"

section \<open>SDMA queues\<close>

definition SDMAQueue_Init :: "mem_env \<Rightarrow> engines \<Rightarrow> sdma_object \<Rightarrow> mem_state \<Rightarrow> (hsa_status \<times> sdma_object \<times> mem_state) res" where
  "SDMAQueue_Init me en q st =
     bindE (queue_Init me en q st) (\<lambda>(ret, q, st).
       if ret \<noteq> HSA_STATUS_SUCCESS then Inr (ret, q, st)
       else Inr (ret, q\<lparr>sd_ring := replicate (unat (wq_cmdbuf_size q) div 4) 0\<rparr>, st))"

text \<open>The size of the ring has 64 bits in the constructor of \<^verbatim>\<open>SDMAQueue\<close> and 32 in that of \<^verbatim>\<open>WDDMQueue\<close>.\<close>

definition new_sdma_object :: "nat \<Rightarrow> u64 \<Rightarrow> u64 \<Rightarrow> u32 \<Rightarrow> bool \<Rightarrow> sdma_object" where
  "new_sdma_object i ring buf_size engine hws =
     \<lparr>wq_device = i, wq_context = 0, wq_queue = 0, wq_syncobj = 0, wq_sync_addr = 0, wq_cmdbuf = None,
      wq_cmdbuf_addr = ring, wq_cmdbuf_size = ucast buf_size, wq_queue_mem = None, wq_engine = engine, wq_use_hws = hws,
      wq_prio = kNormal, sd_ring = [], sd_wptr_next = 0, sd_wptr_pre = 0, sd_rptr_next = 0, sd_wptr_queue = [],
      sd_ib_size = 0, sd_ib_start_addr = 0, sd_thread = False\<rparr>"

definition SDMAQueue_ctor :: "mem_env \<Rightarrow> engines \<Rightarrow> sdma_object \<Rightarrow> mem_state \<Rightarrow> (sdma_object \<times> mem_state) res" where
  "SDMAQueue_ctor me en q st =
     bindE (CreateQueue me en (SDMAQueue_Init me en) q st) (\<lambda>(ret, q, st).
     bindE (assertE ''SDMAQueue'' ret) (\<lambda>_. Inr (q\<lparr>sd_thread := True\<rparr>, st)))"

definition SDMAQueue_dtor :: "mem_env \<Rightarrow> sdma_object \<Rightarrow> mem_state \<Rightarrow> mem_state res" where
  "SDMAQueue_dtor me q st = DestroyQueue me (queue_Fini me) q st"

end
