(* ===== verification/Queue_Lifecycle.thy ===== *)
theory Queue_Lifecycle
  imports Queue_Objects
begin

text \<open>
  What a queue holds and gives back. The contexts, synchronisation objects and hardware queues that exist are read off the trace
  of kernel calls; the operations on memory do not change them. Creation by the device takes everything
  or nothing, and destruction gives back exactly what the queue holds.
\<close>

section \<open>Kernel objects\<close>

datatype kobj = Ctx u64 | Sync u64 | Hwq u64

definition kobj_step :: "dx_call \<times> dx_reply \<Rightarrow> kobj set \<Rightarrow> kobj set" where
  "kobj_step e K = (case e of (c, s, vs) \<Rightarrow>
     if s \<noteq> STATUS_SUCCESS then K
     else case c of
       CreateContextVirtual _ \<Rightarrow> insert (Ctx (out_arg vs 0)) K
     | DestroyContext_call h \<Rightarrow> K - {Ctx h}
     | CreateSynchronizationObject2 \<Rightarrow> insert (Sync (out_arg vs 0)) K
     | DestroySynchronizationObject h \<Rightarrow> K - {Sync h}
     | CreateHwQueue_call _ _ \<Rightarrow> insert (Hwq (out_arg vs 0)) K
     | DestroyHwQueue_call h \<Rightarrow> K - {Hwq h}
     | _ \<Rightarrow> K)"

definition kobj_live :: "dx_trace \<Rightarrow> kobj set" where
  "kobj_live tr = fold kobj_step tr {}"

lemma kobj_live_snoc: "kobj_live (tr @ [e]) = kobj_step e (kobj_live tr)"
  by (simp add: kobj_live_def)

text \<open>What the code relies on: a new object has a handle that no existing one has, and destroying succeeds.\<close>

definition kobj_ok :: "dx_env \<Rightarrow> bool" where
  "kobj_ok env \<longleftrightarrow>
     (\<forall>tr n vs. env tr (CreateContextVirtual n) = (STATUS_SUCCESS, vs) \<longrightarrow> Ctx (out_arg vs 0) \<notin> kobj_live tr) \<and>
     (\<forall>tr vs. env tr CreateSynchronizationObject2 = (STATUS_SUCCESS, vs) \<longrightarrow> Sync (out_arg vs 0) \<notin> kobj_live tr) \<and>
     (\<forall>tr c p vs. env tr (CreateHwQueue_call c p) = (STATUS_SUCCESS, vs) \<longrightarrow> Hwq (out_arg vs 0) \<notin> kobj_live tr) \<and>
     (\<forall>tr h. fst (env tr (DestroyContext_call h)) = STATUS_SUCCESS) \<and>
     (\<forall>tr h. fst (env tr (DestroySynchronizationObject h)) = STATUS_SUCCESS) \<and>
     (\<forall>tr h. fst (env tr (DestroyHwQueue_call h)) = STATUS_SUCCESS)"

definition queue_call :: "dx_call \<Rightarrow> bool" where
  "queue_call c \<longleftrightarrow> (case c of CreateContextVirtual _ \<Rightarrow> True | DestroyContext_call _ \<Rightarrow> True
     | CreateSynchronizationObject2 \<Rightarrow> True | DestroySynchronizationObject _ \<Rightarrow> True
     | CreateHwQueue_call _ _ \<Rightarrow> True | DestroyHwQueue_call _ \<Rightarrow> True | _ \<Rightarrow> False)"

lemma kobj_step_other: "\<not> queue_call c \<Longrightarrow> kobj_step (c, r) K = K"
  by (cases c) (simp_all add: queue_call_def kobj_step_def split: prod.split)

lemma kobj_live_other [simp]: "\<not> queue_call c \<Longrightarrow> kobj_live (tr @ [(c, r)]) = kobj_live tr"
  by (simp add: kobj_live_snoc kobj_step_other)

lemma kobj_kcall [simp]: "\<not> queue_call c \<Longrightarrow> kobj_live (w_tr (snd (snd (kcall env c w)))) = kobj_live (w_tr w)"
  by (simp add: kcall_def dxc_def Let_def)

lemma kobj_dx [simp]: "\<not> queue_call c \<Longrightarrow> kobj_live (snd (dx env c tr)) = kobj_live tr"
  by (simp add: dx_trace_step)

lemma kobj_dxc [simp]: "\<not> queue_call c \<Longrightarrow> kobj_live (snd (snd (dxc env c tr))) = kobj_live tr"
  by (simp add: dxc_trace)

lemma kobj_page_fence [simp]: "w_tr (page_fence v w) = w_tr w"
  by (simp add: page_fence_def)

subsection \<open>Memory operations leave them alone\<close>

lemma kobj_only_maps: "only_maps tr tr' \<Longrightarrow> kobj_live tr' = kobj_live tr"
proof -
  have "kobj_live (tr @ es) = kobj_live tr" if "\<forall>e\<in>set es. \<exists>a. fst e = MapGpuVA a" for es
    using that
  proof (induction es rule: rev_induct)
    case (snoc e es)
    then have "\<not> queue_call (fst e)" by (auto simp: queue_call_def)
    then have "kobj_live ((tr @ es) @ [(fst e, snd e)]) = kobj_live (tr @ es)" by (rule kobj_live_other)
    with snoc show ?case by simp
  qed simp
  then show "only_maps tr tr' \<Longrightarrow> kobj_live tr' = kobj_live tr" by (auto simp: only_maps_def)
qed

text \<open>
  \<open>keeps K f r\<close>: if \<open>r\<close> returns, the trace that \<open>f\<close> takes from the result has the kernel objects \<open>K\<close>.
\<close>

definition keeps :: "kobj set \<Rightarrow> ('r \<Rightarrow> dx_trace) \<Rightarrow> 'r res \<Rightarrow> bool" where
  "keeps K f r \<longleftrightarrow> (\<forall>x. r = Inr x \<longrightarrow> kobj_live (f x) = K)"

lemma keeps_simps [simp]: "keeps K f (Inl e)" "keeps K f (Inr x) \<longleftrightarrow> kobj_live (f x) = K"
  by (simp_all add: keeps_def)

lemma keeps_bind: "keeps K g r \<Longrightarrow> (\<And>x. kobj_live (g x) = K \<Longrightarrow> keeps K f (k x)) \<Longrightarrow> keeps K f (bindE r k)"
  by (cases r) simp_all

lemma keeps_pure: "(\<And>x. keeps K f (k x)) \<Longrightarrow> keeps K f (bindE r k)"
  by (cases r) simp_all

lemma keeps_if: "(c \<Longrightarrow> keeps K f a) \<Longrightarrow> (\<not> c \<Longrightarrow> keeps K f b) \<Longrightarrow> keeps K f (if c then a else b)"
  by simp

lemma keeps_prod: "(\<And>a b. x = (a, b) \<Longrightarrow> keeps K f (h a b)) \<Longrightarrow> keeps K f (case x of (a, b) \<Rightarrow> h a b)"
  by (cases x) simp

lemma keeps_option: "(x = None \<Longrightarrow> keeps K f n) \<Longrightarrow> (\<And>a. x = Some a \<Longrightarrow> keeps K f (h a)) \<Longrightarrow>
    keeps K f (case x of None \<Rightarrow> n | Some a \<Rightarrow> h a)"
  by (cases x) simp_all

lemmas keeps_rules = keeps_if keeps_prod keeps_option

lemma kobj_dx_eq: "dx env c tr = (r, tr') \<Longrightarrow> \<not> queue_call c \<Longrightarrow> kobj_live tr' = kobj_live tr"
  using kobj_dx [of c env tr] by simp

lemma keeps_mmap_fixed: "kobj_live tr = K \<Longrightarrow> keeps K snd (mmap_fixed env loc a len k tr)"
  unfolding mmap_fixed_def by (intro keeps_rules keeps_pure) (auto dest!: kobj_dx_eq simp: queue_call_def)

lemma keeps_Commit: "kobj_live tr = K \<Longrightarrow> keeps K snd (CommitSystemHeapSpace env a len l tr)"
  unfolding CommitSystemHeapSpace_def
  by (intro keeps_bind [OF keeps_mmap_fixed] keeps_rules) (auto simp: queue_call_def)

lemma keeps_CommitIPC:
  assumes "kobj_live tr = K"
  shows "keeps K (\<lambda>r. snd (snd r)) (CommitSystemHeapSpaceIPC env a len fd l tr)"
proof -
  define p where "p = (if fd = -1 then
      (case dx env Memfd_create tr of
         (None, tr) \<Rightarrow> (None, tr)
       | (Some vs, tr) \<Rightarrow> let fd = sint (ucast (out_arg vs 0) :: u32) in (Some fd, snd (dx env (Ftruncate fd len) tr)))
      else (Some fd, tr))"
  obtain r t where dx: "dx env Memfd_create tr = (r, t)" by (cases "dx env Memfd_create tr")
  then have "kobj_live t = K" using assms kobj_dx_eq by (simp add: queue_call_def)
  then have "kobj_live (snd p) = K" using assms dx by (cases r) (simp_all add: p_def queue_call_def Let_def)
  then have p: "kobj_live t = K" if "p = (r, t)" for r t using that by simp
  have mm: "keeps K (\<lambda>r. snd (snd r)) (bindE (mmap_fixed env ''CommitSystemHeapSpaceIPC'' a len (Map_Shared h l) t) (\<lambda>(ok, tr).
      if ok then Inr (True, h, snd (dx env (Madvise_dontfork a len) tr))
      else Inr (False, fd, if fd = -1 then snd (dx env (Close_fd h) tr) else tr)))" if "kobj_live t = K" for h t
    by (rule keeps_bind [OF keeps_mmap_fixed [OF that]]) (intro keeps_rules; simp add: queue_call_def)
  show ?thesis unfolding CommitSystemHeapSpaceIPC_def p_def [symmetric]
    by (intro keeps_rules) (use p mm in auto)
qed

lemma keeps_Runtime_Reserve:
  "kobj_live tr = K \<Longrightarrow> keeps K (\<lambda>r. snd (snd (snd r))) (Runtime_ReserveGpuVirtualAddress env d b len al l rt tr)"
  unfolding Runtime_ReserveGpuVirtualAddress_def Let_def
  by (intro keeps_bind [OF keeps_Commit] keeps_rules keeps_pure [of _ _ _ "the_mgr s m" for s m] keeps_pure [of _ _ _ "Alloc v a b c" for v a b c]) auto

lemma keeps_ReserveIPC: "kobj_live tr = K \<Longrightarrow> keeps K (\<lambda>r. snd (snd (snd (snd r)))) (ReserveIPCSysMem env len al fd l rt tr)"
  unfolding ReserveIPCSysMem_def
  by (intro keeps_bind [OF keeps_CommitIPC] keeps_rules keeps_pure [of _ _ _ "the_mgr s m" for s m] keeps_pure [of _ _ _ "Alloc v a b c" for v a b c]) auto

lemma keeps_Runtime_Free: "kobj_live tr = K \<Longrightarrow> keeps K (\<lambda>r. snd (snd r)) (Runtime_FreeGpuVirtualAddress env d a len rt tr)"
  unfolding Runtime_FreeGpuVirtualAddress_def DecommitSystemHeapSpace_def
  by (intro keeps_bind [OF keeps_mmap_fixed] keeps_rules keeps_pure [of _ _ _ "the_mgr s m" for s m]) auto

lemma keeps_FreeIPC: "kobj_live tr = K \<Longrightarrow> keeps K (\<lambda>r. snd (snd (snd r))) (FreeIPCSysMem env a len fd rt tr)"
  unfolding FreeIPCSysMem_def DecommitSystemHeapSpaceIPC_def
  by (intro keeps_rules keeps_pure) (auto simp: queue_call_def split: option.splits prod.splits dest!: kobj_dx_eq)

lemma keeps_GpuMemory_Reserve:
  "kobj_live (w_tr w) = K \<Longrightarrow> keeps K (\<lambda>r. w_tr (snd (snd r))) (GpuMemory_ReserveGpuVirtualAddress env b len al m w)"
  unfolding GpuMemory_ReserveGpuVirtualAddress_def
  by (rule keeps_bind [where g = "\<lambda>r. w_tr (snd (snd (snd r)))"];
      intro keeps_bind [OF keeps_ReserveIPC] keeps_bind [OF keeps_Runtime_Reserve] keeps_rules) auto

lemma keeps_GpuMemory_Free:
  "kobj_live (w_tr w) = K \<Longrightarrow> keeps K (\<lambda>r. w_tr (snd (snd r))) (GpuMemory_FreeGpuVirtualAddress env b len m w)"
  unfolding GpuMemory_FreeGpuVirtualAddress_def
  by (intro keeps_bind [OF keeps_FreeIPC] keeps_bind [OF keeps_Runtime_Free] keeps_rules) auto

lemma kobj_kcall_eq: "kcall env c w = (code, vs, w') \<Longrightarrow> \<not> queue_call c \<Longrightarrow> kobj_live (w_tr w') = kobj_live (w_tr w)"
  using kobj_kcall [of c env w] by simp

lemma keeps_CreatePhysical: "kobj_live (w_tr w) = K \<Longrightarrow> keeps K (\<lambda>r. w_tr (snd (snd r))) (CreatePhysicalMemory env m w)"
  unfolding CreatePhysicalMemory_def Let_def
  by (intro keeps_rules keeps_pure) (auto simp: queue_call_def dest!: kobj_kcall_eq)

lemma kobj_dxc_eq: "dxc env c tr = (code, vs, tr') \<Longrightarrow> \<not> queue_call c \<Longrightarrow> kobj_live tr' = kobj_live tr"
  using kobj_dxc [of c env tr] by simp

lemma kobj_DestroyAllocation: "kobj_live (snd (DestroyAllocation env d res hs tr)) = kobj_live tr"
proof -
  define c where "c = DestroyAllocation2 d res (if res \<noteq> 0 then [] else hs)"
  obtain code vs tr1 where k: "dxc env c tr = (code, vs, tr1)" by (cases "dxc env c tr")
  have "\<not> queue_call c" by (simp add: c_def queue_call_def)
  with k have "kobj_live tr1 = kobj_live tr" by (rule kobj_dxc_eq)
  then show ?thesis using k by (simp add: DestroyAllocation_def c_def)
qed

lemma kobj_FreePhysical: "kobj_live (w_tr (snd (snd (FreePhysicalMemory env m w)))) = kobj_live (w_tr w)"
proof (cases "alloc_handles m")
  case (Some hs)
  obtain c tr where d: "DestroyAllocation env (dev_handle (w_dev w)) (gm_resource m) (take (unat (num_allocations m)) hs) (w_tr w) = (c, tr)"
    by fastforce
  then have "kobj_live tr = kobj_live (w_tr w)" using kobj_DestroyAllocation by (metis snd_conv)
  with Some d show ?thesis by (simp add: FreePhysicalMemory_def)
qed (simp add: FreePhysicalMemory_def)

lemma kobj_MakeResident: "kobj_live (w_tr (snd (MakeResident env m w))) = kobj_live (w_tr w)"
proof -
  define c where "c = MakeResident_call (page_queue (w_dev w)) (case alloc_handles m of None \<Rightarrow> [] | Some hs \<Rightarrow> take (unat (num_allocations m)) hs)"
  obtain code vs w1 where k: "kcall env c w = (code, vs, w1)" by (cases "kcall env c w")
  have "\<not> queue_call c" by (simp add: c_def queue_call_def)
  with k have "kobj_live (w_tr w1) = kobj_live (w_tr w)" by (rule kobj_kcall_eq)
  then show ?thesis using k by (simp add: MakeResident_def flip: c_def)
qed

lemma kobj_WaitOnPagingFence: "WaitOnPagingFenceFromCpu env d tr = (ok, tr') \<Longrightarrow> kobj_live tr' = kobj_live tr"
  by (auto simp: WaitOnPagingFenceFromCpu_def CpuWait_def queue_call_def split: prod.splits dest!: kobj_dx_eq)

lemma keeps_map_chunks: "kobj_live (w_tr w) = K \<Longrightarrow> keeps K (\<lambda>r. w_tr (snd (snd r))) (map_chunks env m i a len off w)"
  by (auto simp: keeps_def dest!: map_chunks_only_maps kobj_only_maps)

lemma keeps_MapGpuVirtualAddress: "kobj_live (w_tr w) = K \<Longrightarrow> keeps K (\<lambda>r. w_tr (snd r)) (MapGpuVirtualAddress env m a len off w)"
  unfolding MapGpuVirtualAddress_def
  by (intro keeps_bind [OF keeps_map_chunks] keeps_rules) (auto simp: unmap_partial_only_maps [THEN kobj_only_maps])

lemma keeps_back_memory: "kobj_live (w_tr w) = K \<Longrightarrow> keeps K (\<lambda>r. w_tr (snd (snd (snd r)))) (back_memory env m w)"
  unfolding back_memory_def
  by (intro keeps_bind [OF keeps_CreatePhysical] keeps_bind [OF keeps_MapGpuVirtualAddress] keeps_rules)
    (simp_all, (metis kobj_MakeResident kobj_WaitOnPagingFence snd_conv)+)

lemma keeps_guarded: "kobj_live (w_tr w) = K \<Longrightarrow> keeps K (\<lambda>r. w_tr (snd (snd r))) (back_memory_guarded env m w)"
  unfolding back_memory_guarded_def
  by (intro keeps_bind [OF keeps_back_memory] keeps_bind [OF keeps_GpuMemory_Free] keeps_rules)
    (simp_all split: if_splits, (metis kobj_FreePhysical snd_conv)+)

lemma keeps_Init: "kobj_live (w_tr w) = K \<Longrightarrow> keeps K (\<lambda>r. w_tr (snd (snd r))) (GpuMemory_Init env ci m w)"
  unfolding GpuMemory_Init_def Let_def
  by (intro keeps_bind [OF keeps_CreatePhysical] keeps_bind [OF keeps_GpuMemory_Reserve] keeps_guarded
      keeps_pure [of _ _ _ "HandleApertureAlloc a b" for a b] keeps_rules) auto

lemma keeps_dtor: "kobj_live (w_tr w) = K \<Longrightarrow> keeps K w_tr (GpuMemory_dtor env m w)"
  unfolding GpuMemory_dtor_def
  by (intro keeps_bind [OF keeps_GpuMemory_Free] keeps_pure [of _ _ _ "HandleApertureFree a b" for a b] keeps_rules)
    (simp_all, (metis kobj_FreePhysical snd_conv)+)

lemma keeps_CreateGpuMemory:
  "kobj_live (w_tr w) = K \<Longrightarrow> ci_dmabuf_fd ci \<le> 0 \<Longrightarrow> keeps K (\<lambda>r. w_tr (snd (snd (snd r)))) (CreateGpuMemory env osz junk ci w)"
  unfolding CreateGpuMemory_def Let_def
  by (rule keeps_bind [where g = "\<lambda>r. w_tr (snd (snd (snd r)))"];
      intro keeps_bind [OF keeps_Init] keeps_bind [OF keeps_dtor] keeps_rules) auto

section \<open>Footprints\<close>

text \<open>
  What is in use: the address ranges of each heap, the allocations and kernel objects that exist, and the memory objects.
\<close>

record footprint =
  fp_ranges :: "AllocDomain \<Rightarrow> u64 \<rightharpoonup> u64"
  fp_allocs :: "alloc_group set"
  fp_kobjs :: "kobj set"
  fp_objs :: "nat \<rightharpoonup> nat \<times> GpuMemory"

definition footprint :: "mem_state \<Rightarrow> footprint" where
  "footprint st = \<lparr>fp_ranges = (\<lambda>d. mgr_live (rt_mgr d (ms_rt st))), fp_allocs = alloc_live (ms_tr st),
     fp_kobjs = kobj_live (ms_tr st), fp_objs = ms_objs st\<rparr>"

definition same_heap :: "AllocDomain \<Rightarrow> AllocDomain \<Rightarrow> bool" where
  "same_heap d d' \<longleftrightarrow> (d = kSystem) = (d' = kSystem)"

definition without_obj :: "nat \<Rightarrow> footprint \<Rightarrow> footprint" where
  "without_obj hn F = (case fp_objs F hn of None \<Rightarrow> F | Some (i, m) \<Rightarrow>
     F\<lparr>fp_ranges := (\<lambda>d. if same_heap d (gm_domain m) then (fp_ranges F d)(gm_gpu_addr m := None) else fp_ranges F d),
       fp_allocs := {g \<in> fp_allocs F. \<not> owns m g}, fp_objs := (fp_objs F)(hn := None)\<rparr>)"

definition without_kobjs :: "kobj set \<Rightarrow> footprint \<Rightarrow> footprint" where
  "without_kobjs K F = F\<lparr>fp_kobjs := fp_kobjs F - K\<rparr>"

text \<open>An object that owns its range and its allocations, and two that own different ones.\<close>

definition obj_held :: "footprint \<Rightarrow> nat \<Rightarrow> bool" where
  "obj_held F hn \<longleftrightarrow> (\<exists>i m. fp_objs F hn = Some (i, m) \<and> mem_fd m = -1 \<and> gm_handle_ape_addr m = 0 \<and>
     fp_ranges F (gm_domain m) (gm_gpu_addr m) = Some (gm_size m) \<and> (\<exists>g\<in>fp_allocs F. owns m g))"

definition obj_apart :: "footprint \<Rightarrow> nat \<Rightarrow> nat \<Rightarrow> bool" where
  "obj_apart F hn hn' \<longleftrightarrow> (\<forall>i m i' m'. fp_objs F hn = Some (i, m) \<longrightarrow> fp_objs F hn' = Some (i', m') \<longrightarrow>
     (same_heap (gm_domain m) (gm_domain m') \<longrightarrow> gm_gpu_addr m \<noteq> gm_gpu_addr m') \<and> (\<forall>g. owns m g \<longrightarrow> \<not> owns m' g))"

definition held_list :: "footprint \<Rightarrow> nat list \<Rightarrow> bool" where
  "held_list F hs \<longleftrightarrow> distinct hs \<and> (\<forall>h\<in>set hs. obj_held F h) \<and> (\<forall>h\<in>set hs. \<forall>h'\<in>set hs. h \<noteq> h' \<longrightarrow> obj_apart F h h')"

definition release_objs :: "nat list \<Rightarrow> footprint \<Rightarrow> footprint" where
  "release_objs hs F = fold without_obj hs F"

lemma release_objs_simps [simp]: "release_objs [] F = F" "release_objs (h # hs) F = release_objs hs (without_obj h F)"
  by (simp_all add: release_objs_def)

lemma fp_objs_without [simp]: "fp_objs (without_obj h F) = (fp_objs F)(h := None)"
  by (auto simp: without_obj_def split: option.split)

lemma fp_kobjs_without [simp]: "fp_kobjs (without_obj h F) = fp_kobjs F"
  by (auto simp: without_obj_def split: option.split)

lemma without_obj_kobjs: "without_obj h (without_kobjs K F) = without_kobjs K (without_obj h F)"
  by (cases F) (auto simp: without_obj_def without_kobjs_def split: option.split)

lemma release_objs_kobjs: "release_objs hs (without_kobjs K F) = without_kobjs K (release_objs hs F)"
  by (induction hs arbitrary: F) (simp_all add: without_obj_kobjs)

lemma held_list_kobjs [simp]: "held_list (without_kobjs K F) hs = held_list F hs"
  by (simp add: held_list_def obj_held_def obj_apart_def without_kobjs_def)

lemma obj_held_without:
  assumes "obj_held F h'" "obj_apart F h h'" "h \<noteq> h'" "obj_held F h"
  shows "obj_held (without_obj h F) h'"
proof -
  from assms(4) obtain i m where m: "fp_objs F h = Some (i, m)" by (auto simp: obj_held_def)
  from assms(1) obtain j n g where n: "fp_objs F h' = Some (j, n)" "mem_fd n = -1" "gm_handle_ape_addr n = 0"
    "fp_ranges F (gm_domain n) (gm_gpu_addr n) = Some (gm_size n)" "g \<in> fp_allocs F" "owns n g" unfolding obj_held_def by blast
  have ap: "same_heap (gm_domain m) (gm_domain n) \<Longrightarrow> gm_gpu_addr m \<noteq> gm_gpu_addr n" "\<not> owns m g"
    using assms(2) m n(1,6) unfolding obj_apart_def by blast+
  then have "fp_ranges (without_obj h F) (gm_domain n) (gm_gpu_addr n) = Some (gm_size n)"
    using m n(4) by (simp add: without_obj_def) (metis same_heap_def)
  moreover have "g \<in> fp_allocs (without_obj h F)" using m n(5) ap(2) by (simp add: without_obj_def)
  ultimately show ?thesis using n assms(3) unfolding obj_held_def
    by (intro exI [of _ j] exI [of _ n] conjI bexI [of _ g]) simp_all
qed

lemma held_list_tl:
  assumes "held_list F (h # hs)"
  shows "held_list (without_obj h F) hs"
proof -
  have "obj_held (without_obj h F) x" if "x \<in> set hs" for x
    using obj_held_without [of F x h] assms that by (auto simp: held_list_def)
  moreover have "obj_apart (without_obj h F) x y" if "x \<in> set hs" "y \<in> set hs" "x \<noteq> y" for x y
    using assms that by (auto simp: held_list_def obj_apart_def)
  ultimately show ?thesis using assms by (simp add: held_list_def)
qed

section \<open>Creating and deleting a memory object\<close>

definition queue_base :: "mem_env \<Rightarrow> (nat \<times> nat) \<times> (nat \<times> nat) \<Rightarrow> mem_state \<Rightarrow> bool" where
  "queue_base me R st \<longleftrightarrow> base_ok me R st \<and> kobj_ok (me_dx me) \<and> (\<forall>hn\<ge>ms_next st. ms_objs st hn = None) \<and>
     (\<forall>hn i m. ms_objs st hn = Some (i, m) \<longrightarrow> i < length (ms_devs st))"

definition same_rest :: "mem_state \<Rightarrow> mem_state \<Rightarrow> bool" where
  "same_rest st st' \<longleftrightarrow> length (ms_devs st') = length (ms_devs st) \<and>
     map dev_cmdbuf_size (ms_devs st') = map dev_cmdbuf_size (ms_devs st) \<and> allocation_map st' = allocation_map st \<and>
     fragment_allocator st' = fragment_allocator st \<and> rt_page_size (ms_rt st') = rt_page_size (ms_rt st)"

lemma same_rest_refl [simp]: "same_rest st st"
  by (simp add: same_rest_def)

lemma same_rest_trans: "same_rest a b \<Longrightarrow> same_rest b c \<Longrightarrow> same_rest a c"
  by (simp add: same_rest_def)

lemma same_but_mgr_page_size: "same_but_mgr d (world_of i st) w \<Longrightarrow> rt_page_size (w_rt w) = rt_page_size (ms_rt st)"
  by (auto simp: same_but_mgr_def world_of_def set_mgr_def)

lemma ranges_other_heap:
  assumes "same_but_mgr d (world_of i st) w" "\<not> same_heap x d"
  shows "rt_mgr x (w_rt w) = rt_mgr x (ms_rt st)"
  using assms by (auto simp: same_but_mgr_def world_of_def rt_mgr_set_cases same_heap_def)

lemma rt_mgr_same_heap: "same_heap x d \<Longrightarrow> rt_mgr x rt = rt_mgr d rt"
  by (simp add: same_heap_def rt_mgr_def)

lemma world_of_sel [simp]: "w_rt (world_of i st) = ms_rt st" "w_tr (world_of i st) = ms_tr st"
  by (simp_all add: world_of_def)

lemma footprint_put:
  assumes fr: "same_but_mgr d (world_of i st) w" and tr: "kobj_live (w_tr w) = kobj_live (ms_tr st)"
  shows "footprint (put_world i w st) = (footprint st)\<lparr>
    fp_ranges := (\<lambda>x. if same_heap x d then mgr_live (rt_mgr d (w_rt w)) else fp_ranges (footprint st) x),
    fp_allocs := alloc_live (w_tr w)\<rparr>"
  using ranges_other_heap [OF fr] rt_mgr_same_heap [of _ d "w_rt w"] tr
  by (auto simp: footprint_def put_world_def fun_eq_iff)

lemma same_rest_put:
  assumes "same_but_mgr d (world_of i st) w"
  shows "same_rest st (put_world i w st)"
proof -
  have "dev_cmdbuf_size (w_dev w) = dev_cmdbuf_size (ms_devs st ! i)" using assms by (auto simp: same_but_mgr_def world_of_def)
  then have "map dev_cmdbuf_size ((ms_devs st)[i := w_dev w]) = map dev_cmdbuf_size (ms_devs st)"
    by (cases "i < length (ms_devs st)") (simp_all add: map_update list_update_same_conv list_update_beyond)
  then show ?thesis using same_but_mgr_page_size [OF assms] by (simp add: same_rest_def put_world_def)
qed

lemma create_obj_post:
  assumes qb: "queue_base me R st" and i: "i < length (ms_devs st)" and ci: "plain_info ci"
  shows "\<exists>code obj st'. create_obj me ci i st = Inr (code, obj, None, st') \<and> queue_base me R st' \<and> same_rest st st' \<and>
    (case obj of
       None \<Rightarrow> code \<noteq> Success \<and> footprint st' = footprint st
     | Some hn \<Rightarrow> code = Success \<and> hn = ms_next st \<and> obj_held (footprint st') hn \<and> fp_kobjs (footprint st') = fp_kobjs (footprint st) \<and>
         without_obj hn (footprint st') = footprint st \<and>
         (\<forall>h. obj_held (footprint st) h \<longrightarrow> obj_held (footprint st') h \<and> obj_apart (footprint st') h hn \<and> obj_apart (footprint st') hn h))"
proof -
  let ?w = "world_of i st" and ?d = "ci_domain ci" and ?env = "me_dx me" and ?F = "footprint st"
  have base: "base_ok me R st" using qb by (simp add: queue_base_def)
  then have k: "create_ok ?env" "destroy_ok ?env" "unmap_gpu_ok ?env" "fixed_map_ok ?env" by (simp_all add: base_ok_def kernel_ok_def)
  have bp: "big_pages_ok (w_dev ?w)" using base i by (simp add: base_ok_def world_of_def)
  have mg: "mgr_ok (region R ?d) (rt_mgr ?d (w_rt ?w))" using base by (simp add: base_ok_def)
  have sep: "groups_sep (alloc_live (ms_tr st))" using base by (simp add: base_ok_def)
  then have go: "groups_ok (alloc_live (w_tr ?w))" by (simp add: groups_sep_def)
  have fd: "ci_dmabuf_fd ci \<le> 0" using ci by (simp add: plain_info_def)
  from CreateGpuMemory_post [OF k plain_info_request [OF bp ci] mg go, of "me_osz me" "me_junk me (ms_next st)"]
  obtain code obj w where
    c: "CreateGpuMemory ?env (me_osz me) (me_junk me (ms_next st)) ci ?w = Inr (code, obj, None, w)"
      "mgr_ok (region R ?d) (rt_mgr ?d (w_rt w))"
      "case obj of None \<Rightarrow> code \<noteq> Success \<and> untouched ?d ?w w
       | Some m \<Rightarrow> code = Success \<and> created ci ?w m w \<and> (\<exists>w''. GpuMemory_dtor ?env m w = Inr w'' \<and> untouched ?d ?w w'')"
    by (elim exE conjE) (rule that)
  have kl: "kobj_live (w_tr w) = kobj_live (ms_tr st)"
    using keeps_CreateGpuMemory [OF refl fd, of ?w ?env "me_osz me" "me_junk me (ms_next st)"] c(1) by (simp add: keeps_def)
  show ?thesis
  proof (cases obj)
    case None
    with c(3) have un: "code \<noteq> Success" "same_but_mgr ?d ?w w" "mgr_live (rt_mgr ?d (w_rt w)) = mgr_live (rt_mgr ?d (ms_rt st))"
      "alloc_live (w_tr w) = alloc_live (ms_tr st)" by (simp_all add: untouched_def)
    have "footprint (put_world i w st) = ?F"
      unfolding footprint_put [OF un(2) kl] un(3,4) by (simp add: footprint_def fun_eq_iff rt_mgr_same_heap)
    moreover have "queue_base me R (put_world i w st)"
      using base_ok_put(1) [OF base i un(2) c(2)] sep un(4) qb by (simp add: queue_base_def put_world_def)
    moreover have "create_obj me ci i st = Inr (code, None, None, put_world i w st)" using c(1) None by (simp add: create_obj_def)
    ultimately show ?thesis using same_rest_put [OF un(2)] un(1)
      by (intro exI [of _ code] exI [of _ None] exI [of _ "put_world i w st"]) simp
  next
    case (Some m)
    then have cr: "code = Success" "created ci ?w m w" using c(3) by simp_all
    let ?h = "ms_next st" and ?p = "gm_gpu_addr m" and ?st = "(put_world i w st)\<lparr>ms_objs := (ms_objs st)(ms_next st \<mapsto> (i, m)), ms_next := Suc (ms_next st)\<rparr>"
    from cr(2) obtain g where m: "same_but_mgr ?d ?w w" "gm_domain m = ?d" "mem_fd m = -1" "gm_handle_ape_addr m = 0"
        "mgr_live (rt_mgr ?d (ms_rt st)) ?p = None" "mgr_live (rt_mgr ?d (w_rt w)) = (mgr_live (rt_mgr ?d (ms_rt st)))(?p \<mapsto> gm_size m)"
      and g: "owns m g" "fresh_group g (alloc_live (ms_tr st))" "alloc_live (w_tr w) = insert g (alloc_live (ms_tr st))"
      unfolding created_def world_of_sel by blast
    have n: "num_allocations m \<noteq> 0" using cr(2) by (simp add: created_def word_gt_0)
    note gi = groups_sep_insert [OF sep g(2,1) n, folded g(3)]
    have nx: "ms_objs st ?h = None" using qb by (simp add: queue_base_def)
    define F' where "F' = footprint ?st"
    have F': "F' = ?F\<lparr>fp_ranges := (\<lambda>x. if same_heap x ?d then (fp_ranges ?F x)(?p \<mapsto> gm_size m) else fp_ranges ?F x),
        fp_allocs := insert g (fp_allocs ?F), fp_objs := (fp_objs ?F)(?h \<mapsto> (i, m))\<rparr>"
      using footprint_put [OF m(1) kl] g(3) m(6) rt_mgr_same_heap [of _ ?d "ms_rt st"] unfolding F'_def
      by (auto simp: footprint_def put_world_def fun_eq_iff)
    have fr: "fp_ranges ?F x ?p = None" if "same_heap x ?d" for x using m(5) that by (simp add: footprint_def rt_mgr_same_heap)
    have own: "{g' \<in> insert g (fp_allocs ?F). \<not> owns m g'} = fp_allocs ?F"
      using gi(2) g(1) owns_unique [of m g] by (fastforce simp: footprint_def)
    have "without_obj ?h F' = ?F"
      using fr nx own m(2) unfolding F' by (simp add: without_obj_def fun_upd_idem footprint_def fun_eq_iff)
    moreover have held: "obj_held F' ?h"
      unfolding obj_held_def F' using m g(1) by (intro exI [of _ i] exI [of _ m] conjI bexI [of _ g]) (simp_all add: same_heap_def)
    moreover have "obj_held F' h \<and> obj_apart F' h ?h \<and> obj_apart F' ?h h" if h: "obj_held ?F h" for h
    proof -
      from h obtain j m' g' where j: "fp_objs ?F h = Some (j, m')" "mem_fd m' = -1" "gm_handle_ape_addr m' = 0"
        "fp_ranges ?F (gm_domain m') (gm_gpu_addr m') = Some (gm_size m')" "g' \<in> fp_allocs ?F" "owns m' g'" unfolding obj_held_def by blast
      have hn: "h \<noteq> ?h" using j(1) nx by (auto simp: footprint_def)
      have addr: "same_heap (gm_domain m') ?d \<Longrightarrow> gm_gpu_addr m' \<noteq> ?p" using fr [of "gm_domain m'"] j(4) by auto
      have "g' \<noteq> g" using j(5) gi(2) by (auto simp: footprint_def)
      then have o: "\<not> (owns m' x \<and> owns m x)" for x using owns_unique j(6) g(1) by metis
      have "obj_held F' h" unfolding obj_held_def F' using j addr hn
        by (intro exI [of _ j] exI [of _ m'] conjI bexI [of _ g']) auto
      moreover have "obj_apart F' h ?h" "obj_apart F' ?h h"
        unfolding obj_apart_def F' using j(1) hn addr o m(2) by (auto simp: same_heap_def)
      ultimately show ?thesis by blast
    qed
    moreover have "queue_base me R ?st"
      using base_ok_put(1) [OF base i m(1) c(2) gi(1)] qb i
      by (auto simp: queue_base_def put_world_def base_ok_def dxg_open_def)
    moreover have "create_obj me ci i st = Inr (Success, Some ?h, None, ?st)"
      using c(1) Some cr(1) by (simp add: create_obj_def Let_def put_world_def)
    moreover have "same_rest st ?st" using same_rest_put [OF m(1)] by (simp add: same_rest_def)
    moreover have "fp_kobjs F' = fp_kobjs ?F" by (simp add: F')
    ultimately show ?thesis unfolding F'_def
      by (intro exI [of _ Success] exI [of _ "Some ?h"] exI [of _ ?st]) simp
  qed
qed

lemma delete_obj_post:
  assumes qb: "queue_base me R st" and h: "obj_held (footprint st) hn"
  shows "\<exists>st'. delete_obj me hn st = Inr st' \<and> queue_base me R st' \<and> same_rest st st' \<and>
    footprint st' = without_obj hn (footprint st)"
proof -
  let ?F = "footprint st"
  from h obtain i m g where m: "ms_objs st hn = Some (i, m)" "mem_fd m = -1" "gm_handle_ape_addr m = 0"
    "mgr_live (rt_mgr (gm_domain m) (ms_rt st)) (gm_gpu_addr m) = Some (gm_size m)" and g: "g \<in> alloc_live (ms_tr st)" "owns m g"
    unfolding obj_held_def footprint_def by auto
  let ?w = "world_of i st" and ?d = "gm_domain m"
  have base: "base_ok me R st" and i: "i < length (ms_devs st)" using qb m(1) by (auto simp: queue_base_def)
  then have sep: "groups_sep (alloc_live (ms_tr st))" and mg: "mgr_ok (region R ?d) (rt_mgr ?d (w_rt ?w))"
    and k: "fixed_map_ok (me_dx me)" "destroy_ok (me_dx me)" by (simp_all add: base_ok_def kernel_ok_def)
  note gs = groups_sep_remove [OF sep g(1)]
  from dtor_owner [OF k m(2,3) g(2) mg, of "alloc_live (ms_tr st) - {g}"] gs(2,3) obtain w where
    d: "GpuMemory_dtor (me_dx me) m ?w = Inr w" "mgr_ok (region R ?d) (rt_mgr ?d (w_rt w))"
      "mgr_live (rt_mgr ?d (w_rt w)) = (mgr_live (rt_mgr ?d (ms_rt st)))(gm_gpu_addr m := None)"
      "alloc_live (w_tr w) = alloc_live (ms_tr st) - {g}" "same_but_mgr ?d ?w w" unfolding world_of_sel by metis
  have kl: "kobj_live (w_tr w) = kobj_live (ms_tr st)"
    using keeps_dtor [OF refl, of ?w "me_dx me" m] d(1) by (simp add: keeps_def)
  let ?st = "(put_world i w st)\<lparr>ms_objs := (ms_objs st)(hn := None)\<rparr>"
  have own: "{g' \<in> alloc_live (ms_tr st). \<not> owns m g'} = alloc_live (ms_tr st) - {g}" using g(2) owns_unique by blast
  have "footprint ?st = without_obj hn ?F"
    using footprint_put [OF d(5) kl] d(3,4) m(1) own rt_mgr_same_heap [of _ ?d "ms_rt st"]
    by (auto simp: footprint_def put_world_def fun_eq_iff without_obj_def)
  moreover have "queue_base me R ?st"
    using base_ok_put(1) [OF base i d(5,2)] gs(1) d(4) qb
    by (auto simp: queue_base_def put_world_def base_ok_def dxg_open_def)
  moreover have "delete_obj me hn st = Inr ?st" using m(1) d(1) by (simp add: delete_obj_def get_obj_def)
  moreover have "same_rest st ?st" using same_rest_put [OF d(5)] by (simp add: same_rest_def)
  ultimately show ?thesis by blast
qed

section \<open>Kernel objects of a queue\<close>

definition queue_kobj :: "'a wddm_queue_scheme \<Rightarrow> kobj" where
  "queue_kobj q = (if wq_use_hws q then Hwq (wq_queue q) else Sync (wq_syncobj q))"

text \<open>The part of a queue that its \<^verbatim>\<open>Init\<close> leaves alone.\<close>

definition same_frame :: "'a wddm_queue_scheme \<Rightarrow> 'a wddm_queue_scheme \<Rightarrow> bool" where
  "same_frame q q' \<longleftrightarrow> wq_device q' = wq_device q \<and> wq_context q' = wq_context q \<and> wq_cmdbuf q' = wq_cmdbuf q \<and>
     wq_cmdbuf_addr q' = wq_cmdbuf_addr q \<and> wq_cmdbuf_size q' = wq_cmdbuf_size q \<and> wq_engine q' = wq_engine q \<and> wq_use_hws q' = wq_use_hws q"

text \<open>A step that makes one kernel call changes nothing else.\<close>

definition only_kobjs :: "mem_state \<Rightarrow> kobj set \<Rightarrow> mem_state \<Rightarrow> bool" where
  "only_kobjs st K st' \<longleftrightarrow> (\<exists>tr. st' = set_tr tr st \<and> alloc_live tr = alloc_live (ms_tr st) \<and> kobj_live tr = K)"

lemma only_kobjs_footprint: "only_kobjs st K st' \<Longrightarrow> footprint st' = (footprint st)\<lparr>fp_kobjs := K\<rparr>"
  unfolding only_kobjs_def by (elim exE conjE) (simp add: footprint_def set_tr_def)

lemma only_kobjs_base: "only_kobjs st K st' \<Longrightarrow> queue_base me R st \<Longrightarrow> queue_base me R st' \<and> same_rest st st'"
  unfolding only_kobjs_def queue_base_def by (elim exE conjE) (simp add: base_ok_def dxg_open_def set_tr_def same_rest_def)

lemma alloc_live_queue_call [simp]: "queue_call c \<Longrightarrow> alloc_live (tr @ [(c, r)]) = alloc_live tr"
  by (cases c; cases r) (simp_all add: alloc_live_snoc queue_call_def)

lemma only_kobjs_call: "queue_call c \<Longrightarrow> tr = ms_tr st @ [(c, r)] \<Longrightarrow> only_kobjs st (kobj_step (c, r) (kobj_live (ms_tr st))) (set_tr tr st)"
  by (auto simp: only_kobjs_def kobj_live_snoc)

lemma kobj_step_failed [simp]: "s \<noteq> STATUS_SUCCESS \<Longrightarrow> kobj_step (c, s, vs) K = K"
  by (simp add: kobj_step_def)

lemma dx_cases:
  obtains vs where "env tr c = (STATUS_SUCCESS, vs)" "dx env c tr = (Some vs, tr @ [(c, STATUS_SUCCESS, vs)])"
  | s vs where "s \<noteq> STATUS_SUCCESS" "env tr c = (s, vs)" "dx env c tr = (None, tr @ [(c, s, vs)])"
  by (cases "env tr c"; cases "fst (env tr c) = STATUS_SUCCESS") (auto simp: dx_def dxc_def)

lemma CreateContext_post:
  assumes "kobj_ok (me_dx me)" and "CreateContext (me_dx me) ord (ms_tr st) = (r, tr)"
  shows "case r of
      None \<Rightarrow> only_kobjs st (kobj_live (ms_tr st)) (set_tr tr st)
    | Some c \<Rightarrow> Ctx c \<notin> kobj_live (ms_tr st) \<and> only_kobjs st (insert (Ctx c) (kobj_live (ms_tr st))) (set_tr tr st)"
proof (cases "ord < 0")
  case True
  with assms(2) show ?thesis by (auto simp: CreateContext_def only_kobjs_def)
next
  case False
  have qc: "queue_call (CreateContextVirtual ord)" by (simp add: queue_call_def)
  note oc = only_kobjs_call [OF qc, of tr st]
  show ?thesis
  proof (cases rule: dx_cases [of "me_dx me" "ms_tr st" "CreateContextVirtual ord"])
    case (1 vs)
    then have "r = Some (out_arg vs 0)" "tr = ms_tr st @ [(CreateContextVirtual ord, STATUS_SUCCESS, vs)]"
      using assms(2) False by (simp_all add: CreateContext_def)
    with oc 1(1) assms(1) show ?thesis by (auto simp: kobj_step_def kobj_ok_def)
  next
    case (2 s vs)
    then have "r = None" "tr = ms_tr st @ [(CreateContextVirtual ord, s, vs)]"
      using assms(2) False by (simp_all add: CreateContext_def)
    with oc 2(1) show ?thesis by simp
  qed
qed

lemma destroy_context_post:
  assumes "kobj_ok (me_dx me)"
  shows "only_kobjs st (kobj_live (ms_tr st) - {Ctx c}) (destroy_context me c st)"
proof -
  have "snd (DestroyContext (me_dx me) c (ms_tr st)) = ms_tr st @ [(DestroyContext_call c, me_dx me (ms_tr st) (DestroyContext_call c))]"
    using dx_trace_step [of "me_dx me" "DestroyContext_call c" "ms_tr st"]
    by (simp add: DestroyContext_def split: prod.split) (metis snd_conv)
  note only_kobjs_call [OF _ this]
  moreover have "fst (me_dx me (ms_tr st) (DestroyContext_call c)) = STATUS_SUCCESS" using assms by (simp add: kobj_ok_def)
  ultimately show ?thesis
    by (cases "me_dx me (ms_tr st) (DestroyContext_call c)") (simp add: destroy_context_def kobj_step_def queue_call_def)
qed

lemma queue_Init_post:
  assumes "kobj_ok (me_dx me)"
  shows "\<exists>ret q' st'. queue_Init me en q st = Inr (ret, q', st') \<and> same_frame q q' \<and>
    (if ret = HSA_STATUS_SUCCESS
     then queue_kobj q' \<notin> kobj_live (ms_tr st) \<and> only_kobjs st (insert (queue_kobj q') (kobj_live (ms_tr st))) st'
     else only_kobjs st (kobj_live (ms_tr st)) st')"
proof (cases "wq_use_hws q")
  case True
  let ?c = "CreateHwQueue_call (wq_context q) (sched_value (wq_prio q))"
  have qc: "queue_call ?c" by (simp add: queue_call_def)
  show ?thesis
  proof (cases rule: dx_cases [of "me_dx me" "ms_tr st" ?c])
    case (1 vs)
    let ?q = "q\<lparr>wq_queue := out_arg vs 0, wq_syncobj := out_arg vs 1, wq_sync_addr := out_arg vs 2\<rparr>"
    have "queue_Init me en q st = Inr (HSA_STATUS_SUCCESS, ?q, set_tr (ms_tr st @ [(?c, STATUS_SUCCESS, vs)]) st)"
      using True 1(2) by (simp add: queue_Init_def HwsInit_def CreateHwQueue_def status_of_def)
    moreover have "queue_kobj ?q \<notin> kobj_live (ms_tr st)" using 1(1) assms True by (auto simp: queue_kobj_def kobj_ok_def)
    ultimately show ?thesis using only_kobjs_call [OF qc refl, of st "(STATUS_SUCCESS, vs)"] True
      by (auto simp: same_frame_def kobj_step_def queue_kobj_def)
  next
    case (2 s vs)
    have "queue_Init me en q st = Inr (HSA_STATUS_ERROR, q, set_tr (ms_tr st @ [(?c, s, vs)]) st)"
      using True 2(3) by (simp add: queue_Init_def HwsInit_def CreateHwQueue_def status_of_def)
    then show ?thesis using only_kobjs_call [OF qc refl, of st "(s, vs)"] 2(1) by (auto simp: same_frame_def)
  qed
next
  case False
  have qc: "queue_call CreateSynchronizationObject2" by (simp add: queue_call_def)
  show ?thesis
  proof (cases rule: dx_cases [of "me_dx me" "ms_tr st" CreateSynchronizationObject2])
    case (1 vs)
    let ?q = "q\<lparr>wq_syncobj := out_arg vs 0, wq_sync_addr := out_arg vs 1\<rparr>"
    have "queue_Init me en q st = Inr (HSA_STATUS_SUCCESS, ?q, set_tr (ms_tr st @ [(CreateSynchronizationObject2, STATUS_SUCCESS, vs)]) st)"
      using False 1(2) by (simp add: queue_Init_def SwsInit_def CreateSyncobj_def AllocUserQueueMemFromUMD_def Let_def)
    moreover have "queue_kobj ?q \<notin> kobj_live (ms_tr st)" using 1(1) assms False by (auto simp: queue_kobj_def kobj_ok_def)
    ultimately show ?thesis using only_kobjs_call [OF qc refl, of st "(STATUS_SUCCESS, vs)"] False
      by (auto simp: same_frame_def kobj_step_def queue_kobj_def)
  next
    case (2 s vs)
    have "queue_Init me en q st = Inr (HSA_STATUS_ERROR, q, set_tr (ms_tr st @ [(CreateSynchronizationObject2, s, vs)]) st)"
      using False 2(3) by (simp add: queue_Init_def SwsInit_def CreateSyncobj_def)
    then show ?thesis using only_kobjs_call [OF qc refl, of st "(s, vs)"] 2(1) by (auto simp: same_frame_def)
  qed
qed

lemma queue_Fini_post:
  assumes "kobj_ok (me_dx me)"
  shows "only_kobjs st (kobj_live (ms_tr st) - {queue_kobj q}) (snd (queue_Fini me q st))"
proof (cases "wq_use_hws q")
  case True
  let ?c = "DestroyHwQueue_call (wq_queue q)"
  have s: "fst (me_dx me (ms_tr st) ?c) = STATUS_SUCCESS" using assms by (simp add: kobj_ok_def)
  have "snd (DestroyHwQueue (me_dx me) q (ms_tr st)) = ms_tr st @ [(?c, me_dx me (ms_tr st) ?c)]"
    using dx_trace_step [of "me_dx me" ?c "ms_tr st"] by (simp add: DestroyHwQueue_def split: prod.split) (metis snd_conv)
  note only_kobjs_call [OF _ this]
  moreover have "snd (queue_Fini me q st) = set_tr (snd (DestroyHwQueue (me_dx me) q (ms_tr st))) st"
    using True by (simp add: queue_Fini_def HwsFini_def case_prod_beta)
  ultimately show ?thesis using True s
    by (cases "me_dx me (ms_tr st) ?c") (simp add: kobj_step_def queue_call_def queue_kobj_def)
next
  case False
  let ?c = "DestroySynchronizationObject (wq_syncobj q)"
  have s: "fst (me_dx me (ms_tr st) ?c) = STATUS_SUCCESS" using assms by (simp add: kobj_ok_def)
  have "DestroySyncobj (me_dx me) (wq_syncobj q) (ms_tr st) = ms_tr st @ [(?c, me_dx me (ms_tr st) ?c)]"
    by (simp add: DestroySyncobj_def dx_trace_step)
  note only_kobjs_call [OF _ this]
  with False s show ?thesis
    by (cases "me_dx me (ms_tr st) ?c") (simp add: queue_Fini_def SwsFini_def kobj_step_def queue_call_def queue_kobj_def)
qed

section \<open>Queues that hold and release\<close>

definition opt_list :: "'a option \<Rightarrow> 'a list" where
  "opt_list x = (case x of None \<Rightarrow> [] | Some a \<Rightarrow> [a])"

lemma opt_list_simps [simp]: "opt_list None = []" "opt_list (Some a) = [a]"
  by (simp_all add: opt_list_def)

definition queue_kobjs :: "'a wddm_queue_scheme \<Rightarrow> kobj set" where
  "queue_kobjs q = {Ctx (wq_context q), queue_kobj q}"

definition holds :: "'a wddm_queue_scheme \<Rightarrow> nat list \<Rightarrow> footprint \<Rightarrow> bool" where
  "holds q hs F \<longleftrightarrow> queue_kobjs q \<subseteq> fp_kobjs F \<and> held_list F hs"

definition release :: "'a wddm_queue_scheme \<Rightarrow> nat list \<Rightarrow> footprint \<Rightarrow> footprint" where
  "release q hs F = without_kobjs (queue_kobjs q) (release_objs hs F)"

lemma delete_mem_post:
  assumes "queue_base me R st" and "held_list (footprint st) (opt_list h @ hs)"
  shows "\<exists>st'. delete_mem me h st = Inr st' \<and> queue_base me R st' \<and> same_rest st st' \<and>
    footprint st' = release_objs (opt_list h) (footprint st) \<and> held_list (footprint st') hs"
proof (cases h)
  case None
  with assms show ?thesis by (simp add: delete_mem_def)
next
  case (Some hn)
  with assms(2) have held: "held_list (footprint st) (hn # hs)" by simp
  then have "obj_held (footprint st) hn" by (simp add: held_list_def)
  from delete_obj_post [OF assms(1) this] obtain st' where
    d: "delete_obj me hn st = Inr st'" "queue_base me R st'" "same_rest st st'" "footprint st' = without_obj hn (footprint st)" by blast
  from held_list_tl [OF held] d Some show ?thesis by (simp add: delete_mem_def)
qed

text \<open>Before and after a queue holds its kernel objects.\<close>

lemma without_kobjs_ident: "K \<inter> fp_kobjs F = {} \<Longrightarrow> without_kobjs K (F\<lparr>fp_kobjs := K \<union> fp_kobjs F\<rparr>) = F"
  by (cases F) (auto simp: without_kobjs_def)

lemma without_kobjs_twice: "without_kobjs K (without_kobjs K' F) = without_kobjs (K \<union> K') F"
  by (simp add: without_kobjs_def Diff_eq Int_ac)

lemma held_list_update_kobjs [simp]: "held_list (F\<lparr>fp_kobjs := K\<rparr>) hs = held_list F hs"
  by (simp add: held_list_def obj_held_def obj_apart_def)

lemma without_obj_update_kobjs: "without_obj h (F\<lparr>fp_kobjs := K\<rparr>) = (without_obj h F)\<lparr>fp_kobjs := K\<rparr>"
  by (cases F) (auto simp: without_obj_def split: option.split)

text \<open>
  A class of queues: the virtual functions \<^verbatim>\<open>Init\<close> and \<^verbatim>\<open>Fini\<close> that the device calls. \<^verbatim>\<open>Init\<close> creates one kernel object or none and
  changes nothing else that lasts, \<^verbatim>\<open>Fini\<close> destroys it.
\<close>

locale queue_class =
  fixes me :: mem_env
    and init :: "'a wddm_queue_scheme \<Rightarrow> mem_state \<Rightarrow> (hsa_status \<times> 'a wddm_queue_scheme \<times> mem_state) res"
    and fini :: "'a wddm_queue_scheme \<Rightarrow> mem_state \<Rightarrow> hsa_status \<times> mem_state"
  assumes init_post: "kobj_ok (me_dx me) \<Longrightarrow> \<exists>ret q' st'. init q st = Inr (ret, q', st') \<and> same_frame q q' \<and>
      (if ret = HSA_STATUS_SUCCESS
       then queue_kobj q' \<notin> kobj_live (ms_tr st) \<and> only_kobjs st (insert (queue_kobj q') (kobj_live (ms_tr st))) st'
       else only_kobjs st (kobj_live (ms_tr st)) st')"
    and fini_post: "kobj_ok (me_dx me) \<Longrightarrow> only_kobjs st (kobj_live (ms_tr st) - {queue_kobj q}) (snd (fini q st))"
begin

lemma create_cmdbuf_post:
  assumes qb: "queue_base me R st" and dev: "wq_device q < length (ms_devs st)" and buf: "wq_cmdbuf_addr q \<noteq> 0 \<or> 0 < wq_cmdbuf_size q"
    and none: "wq_cmdbuf q = None"
  shows "\<exists>ok hn q' st'. create_cmdbuf me q st = Inr (ok, hn, q', st') \<and> queue_base me R st' \<and> same_rest st st' \<and>
    wq_context q' = wq_context q \<and> wq_device q' = wq_device q \<and> fp_kobjs (footprint st') = fp_kobjs (footprint st) \<and>
    (if ok then hn = wq_cmdbuf q' \<and> held_list (footprint st') (opt_list hn) \<and> release_objs (opt_list hn) (footprint st') = footprint st
     else footprint st' = footprint st)"
proof (cases "wq_cmdbuf_addr q = 0")
  case False
  with qb none show ?thesis by (auto simp: create_cmdbuf_def held_list_def)
next
  case True
  let ?ci = "cmdbuf_info (ucast (wq_cmdbuf_size q))"
  have sz: "unat (wq_cmdbuf_size q) < 4294967296" by (rule order_less_le_trans [OF unsigned_less]) simp
  then have "unat (ucast (wq_cmdbuf_size q) :: u64) = unat (wq_cmdbuf_size q)"
    by (simp add: unsigned_ucast_eq take_bit_nat_eq_self)
  moreover have "unat (wq_cmdbuf_size q) \<le> 2305843009213693952" using sz by linarith
  ultimately have "plain_info ?ci" using True buf
    by (simp add: plain_info_def cmdbuf_info_def new_GpuMemoryCreateInfo_def word_less_nat_alt)
  from create_obj_post [OF qb dev this] obtain code obj st1 where
    c: "create_obj me ?ci (wq_device q) st = Inr (code, obj, None, st1)" "queue_base me R st1" "same_rest st st1"
      "case obj of None \<Rightarrow> code \<noteq> Success \<and> footprint st1 = footprint st
       | Some hn \<Rightarrow> code = Success \<and> hn = ms_next st \<and> obj_held (footprint st1) hn \<and> fp_kobjs (footprint st1) = fp_kobjs (footprint st) \<and>
           without_obj hn (footprint st1) = footprint st \<and>
           (\<forall>h. obj_held (footprint st) h \<longrightarrow> obj_held (footprint st1) h \<and> obj_apart (footprint st1) h hn \<and> obj_apart (footprint st1) hn h)"
    by (elim exE conjE) (rule that)
  show ?thesis
  proof (cases obj)
    case None
    with True c show ?thesis by (auto simp: create_cmdbuf_def)
  next
    case (Some hn)
    with c(4) obtain i m where "ms_objs st1 hn = Some (i, m)" by (auto simp: obj_held_def footprint_def)
    with True Some c show ?thesis by (auto simp: create_cmdbuf_def gpu_address_def get_obj_def held_list_def)
  qed
qed

lemma CreateQueue_post:
  assumes qb: "queue_base me R st" and dev: "wq_device q < length (ms_devs st)" and buf: "wq_cmdbuf_addr q \<noteq> 0 \<or> 0 < wq_cmdbuf_size q"
    and none: "wq_cmdbuf q = None"
  shows "\<exists>ok q' st'. CreateQueue me en init q st = Inr (ok, q', st') \<and> queue_base me R st' \<and> same_rest st st' \<and>
    (if ok then wq_device q' = wq_device q \<and> holds q' (opt_list (wq_cmdbuf q')) (footprint st') \<and>
       release q' (opt_list (wq_cmdbuf q')) (footprint st') = footprint st
     else footprint st' = footprint st)"
proof -
  let ?F = "footprint st" and ?K = "kobj_live (ms_tr st)"
  have ko: "kobj_ok (me_dx me)" using qb by (simp add: queue_base_def)
  obtain r tr where cc: "CreateContext (me_dx me) (eng_ordinal en (wq_engine q)) (ms_tr st) = (r, tr)" by fastforce
  note ctx = CreateContext_post [OF ko cc]
  show ?thesis
  proof (cases r)
    case None
    with ctx have "only_kobjs st ?K (set_tr tr st)" by simp
    from only_kobjs_base [OF this qb] only_kobjs_footprint [OF this] have
      "queue_base me R (set_tr tr st)" "same_rest st (set_tr tr st)" "footprint (set_tr tr st) = ?F" by (simp_all add: footprint_def)
    with None cc show ?thesis
      by (intro exI [of _ False] exI [of _ q] exI [of _ "set_tr tr st"]) (simp add: CreateQueue_def)
  next
    case (Some c)
    let ?q = "q\<lparr>wq_context := c\<rparr>" and ?st = "set_tr tr st"
    from ctx Some have fresh: "Ctx c \<notin> ?K" and ok1: "only_kobjs st (insert (Ctx c) ?K) ?st" by simp_all
    note b1 = only_kobjs_base [OF ok1 qb] and F1 = only_kobjs_footprint [OF ok1]
    have "wq_device ?q < length (ms_devs ?st)" "wq_cmdbuf_addr ?q \<noteq> 0 \<or> 0 < wq_cmdbuf_size ?q" "wq_cmdbuf ?q = None"
      using dev buf none by (simp_all add: set_tr_def)
    from create_cmdbuf_post [OF b1 [THEN conjunct1] this] obtain ok hn q2 st2 where
      m: "create_cmdbuf me ?q ?st = Inr (ok, hn, q2, st2)" "queue_base me R st2" "same_rest ?st st2" "wq_context q2 = c"
        "wq_device q2 = wq_device q" "fp_kobjs (footprint st2) = insert (Ctx c) ?K"
        "if ok then hn = wq_cmdbuf q2 \<and> held_list (footprint st2) (opt_list hn) \<and> release_objs (opt_list hn) (footprint st2) = footprint ?st
         else footprint st2 = footprint ?st"
      unfolding F1 by (elim exE conjE) (simp add: that)
    have sr: "same_rest st st2" using b1 m(3) by (blast intro: same_rest_trans)
    have drop: "without_kobjs {Ctx c} (footprint ?st) = ?F"
      unfolding F1 using without_kobjs_ident [of "{Ctx c}" ?F] fresh by (simp add: footprint_def)
    have dc: "queue_base me R (destroy_context me c s)" "same_rest s (destroy_context me c s)"
      "footprint (destroy_context me c s) = without_kobjs {Ctx c} (footprint s)" if "queue_base me R s" for s
    proof -
      note d = destroy_context_post [OF ko, of s c]
      from only_kobjs_base [OF d that] show "queue_base me R (destroy_context me c s)" "same_rest s (destroy_context me c s)" by blast+
      from only_kobjs_footprint [OF d] show "footprint (destroy_context me c s) = without_kobjs {Ctx c} (footprint s)"
        by (simp add: without_kobjs_def footprint_def)
    qed
    show ?thesis
    proof (cases ok)
      case False
      with m(7) dc [OF m(2)] drop have "footprint (destroy_context me c st2) = ?F" by simp
      with False m(1) cc Some dc(1,2) [OF m(2)] sr show ?thesis
        by (auto simp: CreateQueue_def intro: same_rest_trans)
    next
      case True
      with m(7) have h: "hn = wq_cmdbuf q2" "held_list (footprint st2) (opt_list hn)"
        "release_objs (opt_list hn) (footprint st2) = footprint ?st" by (metis+)
      from init_post [OF ko, of q2 st2] obtain ret q3 st3 where
        i: "init q2 st2 = Inr (ret, q3, st3)" "same_frame q2 q3"
          "if ret = HSA_STATUS_SUCCESS
           then queue_kobj q3 \<notin> kobj_live (ms_tr st2) \<and> only_kobjs st2 (insert (queue_kobj q3) (kobj_live (ms_tr st2))) st3
           else only_kobjs st2 (kobj_live (ms_tr st2)) st3" by blast
      have k2: "kobj_live (ms_tr st2) = insert (Ctx c) ?K" using m(6) by (simp add: footprint_def)
      show ?thesis
      proof (cases "ret = HSA_STATUS_SUCCESS")
        case ok: True
        then have o3: "queue_kobj q3 \<notin> insert (Ctx c) ?K" "only_kobjs st2 (insert (queue_kobj q3) (insert (Ctx c) ?K)) st3"
          using i(3) k2 by simp_all
        note b3 = only_kobjs_base [OF o3(2) m(2)] and F3 = only_kobjs_footprint [OF o3(2)]
        have q3: "wq_context q3 = c" "wq_cmdbuf q3 = hn" "wq_device q3 = wq_device q" using i(2) m(4,5) h(1) by (simp_all add: same_frame_def)
        have "held_list (footprint st3) (opt_list hn)" using h(2) by (simp add: F3)
        then have "holds q3 (opt_list hn) (footprint st3)" using q3 by (simp add: holds_def queue_kobjs_def F3)
        moreover have "release_objs (opt_list hn) (footprint st3) =
            (release_objs (opt_list hn) (footprint st2))\<lparr>fp_kobjs := insert (queue_kobj q3) (insert (Ctx c) ?K)\<rparr>"
          unfolding F3 by (cases hn) (simp_all add: without_obj_update_kobjs)
        then have "release q3 (opt_list hn) (footprint st3) = ?F"
          using o3(1) fresh q3(1) unfolding release_def h(3) F1 queue_kobjs_def
          by (cases ?F) (auto simp: without_kobjs_def footprint_def)
        ultimately show ?thesis using True ok m(1) cc Some i(1) b3 sr q3
          by (auto simp: CreateQueue_def intro: same_rest_trans)
      next
        case bad: False
        then have "only_kobjs st2 (kobj_live (ms_tr st2)) st3" using i(3) by simp
        note b3 = only_kobjs_base [OF this m(2)] and F3 = only_kobjs_footprint [OF this]
        have F3': "footprint st3 = footprint st2" unfolding F3 by (simp add: footprint_def)
        from delete_mem_post [OF b3 [THEN conjunct1], of hn "[]"] h(2,3) F3' obtain st4 where
          d: "delete_mem me hn st3 = Inr st4" "queue_base me R st4" "same_rest st3 st4" "footprint st4 = footprint ?st" by auto
        with dc [OF d(2)] drop have "footprint (destroy_context me c st4) = ?F" by simp
        moreover have "same_rest st (destroy_context me c st4)"
          using sr b3 d(3) dc(2) [OF d(2)] by (blast intro: same_rest_trans)
        ultimately show ?thesis using True bad m(1) cc Some i(1) d(1) dc(1) [OF d(2)]
          by (intro exI [of _ False] exI [of _ q3] exI [of _ "destroy_context me c st4"]) (simp add: CreateQueue_def)
      qed
    qed
  qed
qed

lemma DestroyQueue_post:
  assumes qb: "queue_base me R st" and h: "held_list (footprint st) (opt_list (wq_cmdbuf q) @ hs)"
  shows "\<exists>st'. DestroyQueue me fini q st = Inr st' \<and> queue_base me R st' \<and> same_rest st st' \<and>
    footprint st' = release q (opt_list (wq_cmdbuf q)) (footprint st) \<and> held_list (footprint st') hs"
proof -
  have ko: "kobj_ok (me_dx me)" using qb by (simp add: queue_base_def)
  let ?st = "snd (fini q st)"
  note f = fini_post [OF ko, of st q]
  note b = only_kobjs_base [OF f qb]
  have F: "footprint ?st = without_kobjs {queue_kobj q} (footprint st)"
    using only_kobjs_footprint [OF f] by (simp add: without_kobjs_def footprint_def)
  then have "held_list (footprint ?st) (opt_list (wq_cmdbuf q) @ hs)" using h by simp
  from delete_mem_post [OF b [THEN conjunct1] this] obtain st1 where
    d: "delete_mem me (wq_cmdbuf q) ?st = Inr st1" "queue_base me R st1" "same_rest ?st st1"
      "footprint st1 = release_objs (opt_list (wq_cmdbuf q)) (footprint ?st)" "held_list (footprint st1) hs" by blast
  note c = destroy_context_post [OF ko, of st1 "wq_context q"]
  note bc = only_kobjs_base [OF c d(2)]
  have "footprint (destroy_context me (wq_context q) st1) = without_kobjs {Ctx (wq_context q)} (footprint st1)"
    using only_kobjs_footprint [OF c] by (simp add: without_kobjs_def footprint_def)
  also have "\<dots> = release q (opt_list (wq_cmdbuf q)) (footprint st)"
    unfolding d(4) F release_objs_kobjs without_kobjs_twice by (simp add: release_def queue_kobjs_def insert_commute)
  finally have "footprint (destroy_context me (wq_context q) st1) = release q (opt_list (wq_cmdbuf q)) (footprint st)" .
  moreover have "held_list (footprint (destroy_context me (wq_context q) st1)) hs"
    using d(5) only_kobjs_footprint [OF c] by simp
  moreover have "same_rest st (destroy_context me (wq_context q) st1)" using b d(3) bc by (blast intro: same_rest_trans)
  ultimately show ?thesis using d(1) bc by (simp add: DestroyQueue_def)
qed

end

text \<open>The two classes only add assignments to their own members.\<close>

lemma init_extended:
  assumes "kobj_ok (me_dx me)"
    and run: "init q st = bindE (queue_Init me en q st) (\<lambda>(ret, q, st). Inr (ret, if ret = HSA_STATUS_SUCCESS then g q st else q, st))"
    and own: "\<And>q st. same_frame q (g q st) \<and> queue_kobj (g q st) = queue_kobj q"
  shows "\<exists>ret q' st'. init q st = Inr (ret, q', st') \<and> same_frame q q' \<and>
      (if ret = HSA_STATUS_SUCCESS
       then queue_kobj q' \<notin> kobj_live (ms_tr st) \<and> only_kobjs st (insert (queue_kobj q') (kobj_live (ms_tr st))) st'
       else only_kobjs st (kobj_live (ms_tr st)) st')"
proof -
  from queue_Init_post [OF assms(1), of en q st] obtain ret q1 st' where
    i: "queue_Init me en q st = Inr (ret, q1, st')" "same_frame q q1"
      "if ret = HSA_STATUS_SUCCESS
       then queue_kobj q1 \<notin> kobj_live (ms_tr st) \<and> only_kobjs st (insert (queue_kobj q1) (kobj_live (ms_tr st))) st'
       else only_kobjs st (kobj_live (ms_tr st)) st'" by blast
  let ?q = "if ret = HSA_STATUS_SUCCESS then g q1 st' else q1"
  have "same_frame q ?q" "queue_kobj ?q = queue_kobj q1" using i(2) own [of q1 st'] by (simp_all add: same_frame_def)
  then show ?thesis using run i(1,3) own [of q1 st'] by (intro exI [of _ ret] exI [of _ ?q] exI [of _ st']) simp
qed

interpretation compute: queue_class me "ComputeQueue_start me en" "queue_Fini me"
proof unfold_locales
  show "\<exists>ret q' st'. ComputeQueue_start me en q st = Inr (ret, q', st') \<and> same_frame q q' \<and>
      (if ret = HSA_STATUS_SUCCESS
       then queue_kobj q' \<notin> kobj_live (ms_tr st) \<and> only_kobjs st (insert (queue_kobj q') (kobj_live (ms_tr st))) st'
       else only_kobjs st (kobj_live (ms_tr st)) st')" if "kobj_ok (me_dx me)" for q st
    by (rule init_extended [OF that, where en = en and g = "\<lambda>q st. q\<lparr>co_ib_start_addr := wq_cmdbuf_addr q,
          co_frame_size := dev_aql_frame_size (ms_devs st ! wq_device q), co_platform_atomic := dev_platform_atomic (ms_devs st ! wq_device q)\<rparr>"])
      (auto simp: ComputeQueue_start_def same_frame_def queue_kobj_def bindE_def split: sum.split)
qed (rule queue_Fini_post)

interpretation sdma: queue_class me "SDMAQueue_Init me en" "queue_Fini me"
proof unfold_locales
  show "\<exists>ret q' st'. SDMAQueue_Init me en q st = Inr (ret, q', st') \<and> same_frame q q' \<and>
      (if ret = HSA_STATUS_SUCCESS
       then queue_kobj q' \<notin> kobj_live (ms_tr st) \<and> only_kobjs st (insert (queue_kobj q') (kobj_live (ms_tr st))) st'
       else only_kobjs st (kobj_live (ms_tr st)) st')" if "kobj_ok (me_dx me)" for q st
    by (rule init_extended [OF that, where en = en and g = "\<lambda>q st. q\<lparr>sd_ring := replicate (unat (wq_cmdbuf_size q) div 4) 0\<rparr>"])
      (auto simp: SDMAQueue_Init_def same_frame_def queue_kobj_def bindE_def split: sum.split)
qed (rule queue_Fini_post)

section \<open>Compute queues\<close>

definition compute_objs :: "compute_object \<Rightarrow> nat list" where
  "compute_objs q = opt_list (wq_cmdbuf q) @ (if co_scratch_base q \<noteq> 0 then opt_list (co_scratch_mem q) else []) @
     opt_list (co_amd_queue_mem q)"

lemma release_objs_append: "release_objs (hs @ ks) F = release_objs ks (release_objs hs F)"
  by (simp add: release_objs_def)

lemma ComputeQueue_dtor_post:
  assumes qb: "queue_base me R st" and h: "held_list (footprint st) (compute_objs q)"
  shows "\<exists>st'. ComputeQueue_dtor me q st = Inr st' \<and> queue_base me R st' \<and> same_rest st st' \<and>
    footprint st' = release q (compute_objs q) (footprint st)"
proof -
  let ?s = "if co_scratch_base q \<noteq> 0 then opt_list (co_scratch_mem q) else []" and ?a = "opt_list (co_amd_queue_mem q)"
  from compute.DestroyQueue_post [OF qb, of q "?s @ ?a"] h obtain st1 where
    d: "DestroyQueue me (queue_Fini me) q st = Inr st1" "queue_base me R st1" "same_rest st st1"
      "footprint st1 = release q (opt_list (wq_cmdbuf q)) (footprint st)" "held_list (footprint st1) (?s @ ?a)"
    unfolding compute_objs_def by blast
  let ?h = "if co_scratch_base q \<noteq> 0 then co_scratch_mem q else None"
  have s: "opt_list ?h = ?s" by simp
  from delete_mem_post [OF d(2), of ?h ?a] d(5) obtain st2 where
    e: "delete_mem me ?h st1 = Inr st2" "queue_base me R st2" "same_rest st1 st2" "footprint st2 = release_objs ?s (footprint st1)"
      "held_list (footprint st2) ?a" unfolding s by blast
  from delete_mem_post [OF e(2), of "co_amd_queue_mem q" "[]"] e(5) obtain st3 where
    f: "delete_mem me (co_amd_queue_mem q) st2 = Inr st3" "queue_base me R st3" "same_rest st2 st3"
      "footprint st3 = release_objs ?a (footprint st2)" by auto
  have "(if co_scratch_base q \<noteq> 0 then delete_mem me (co_scratch_mem q) st1 else Inr st1) = Inr st2"
    using e(1) by (simp add: delete_mem_def split: if_splits)
  then have "ComputeQueue_dtor me q st = Inr st3" using d(1) f(1) by (simp add: ComputeQueue_dtor_def)
  moreover have "footprint st3 = release q (compute_objs q) (footprint st)"
    unfolding f(4) e(4) d(4) release_def release_objs_kobjs compute_objs_def release_objs_append ..
  ultimately show ?thesis using f(2) d(3) e(3) f(3) by (blast intro: same_rest_trans)
qed

text \<open>A kernel that has one context, one synchronisation object and one hardware queue to give.\<close>

definition queue_kernel :: dx_env where
  "queue_kernel tr c =
     (case c of
        CreateContextVirtual _ \<Rightarrow> if Ctx 7 \<in> kobj_live tr then (STATUS_NO_MEMORY, []) else (STATUS_SUCCESS, [7])
      | CreateSynchronizationObject2 \<Rightarrow> if Sync 8 \<in> kobj_live tr then (STATUS_NO_MEMORY, []) else (STATUS_SUCCESS, [8, 0x9000])
      | CreateHwQueue_call _ p \<Rightarrow> if Hwq 9 \<in> kobj_live tr \<or> p = 2 then (STATUS_NO_MEMORY, []) else (STATUS_SUCCESS, [9, 10, 0x9000])
      | DestroyContext_call _ \<Rightarrow> (STATUS_SUCCESS, [])
      | DestroySynchronizationObject _ \<Rightarrow> (STATUS_SUCCESS, [])
      | DestroyHwQueue_call _ \<Rightarrow> (STATUS_SUCCESS, [])
      | _ \<Rightarrow> one_resource_env tr c)"

lemma queue_kernel_ok: "kernel_ok queue_kernel" "kobj_ok queue_kernel"
  using one_resource_env_ok
  by (simp_all add: kernel_ok_def kobj_ok_def create_ok_def destroy_ok_def unmap_gpu_ok_def fixed_map_ok_def queue_kernel_def out_arg_def)

definition queue_menv :: mem_env where
  "queue_menv = sample_menv\<lparr>me_dx := queue_kernel\<rparr>"

definition sample_engines :: engines where
  "sample_engines = \<lparr>eng_ordinal = \<lambda>e. if e = 1 then 0 else -1, eng_hws = \<lambda>_. True, eng_compute = 1, eng_num_sdma = 1,
     eng_sdma = \<lambda>_. 1, eng_user_queue_size = 0x1000, eng_flag = \<lambda>_. 0\<rparr>"

lemma sample_queue_base: "queue_base queue_menv ((0x100000000, 0x200000000), (0x800000000, 0x1800000000)) sample_mem"
proof -
  have "base_ok sample_menv ((0x100000000, 0x200000000), (0x800000000, 0x1800000000)) sample_mem"
    using sample_api_inv by (simp add: api_inv_def mem_inv_def)
  then show ?thesis using queue_kernel_ok by (simp add: queue_base_def base_ok_def queue_menv_def sample_mem_def)
qed

text \<open>
  C26. The device creates a queue completely or not at all. \<^verbatim>\<open>CreateQueue\<close> always returns, for compute queues and for SDMA queues. If it
  reports success, the queue holds its context, its hardware queue or synchronisation object, and its
  command buffer, all of them new, and releasing exactly these gives the footprint from before: the address ranges, allocations,
  kernel objects and memory objects in use. If it reports failure, at whichever step, the footprint is the one from before.
\<close>

theorem CreateQueue_all_or_nothing:
  fixes q :: compute_object and p :: sdma_object
  assumes "queue_base me R st"
    and "wq_device q < length (ms_devs st)" "wq_cmdbuf_addr q \<noteq> 0 \<or> 0 < wq_cmdbuf_size q" "wq_cmdbuf q = None"
    and "wq_device p < length (ms_devs st)" "wq_cmdbuf_addr p \<noteq> 0 \<or> 0 < wq_cmdbuf_size p" "wq_cmdbuf p = None"
  shows "(\<exists>ok q' st'. CreateQueue me en (ComputeQueue_start me en) q st = Inr (ok, q', st') \<and>
      (if ok then holds q' (opt_list (wq_cmdbuf q')) (footprint st') \<and>
         release q' (opt_list (wq_cmdbuf q')) (footprint st') = footprint st
       else footprint st' = footprint st)) \<and>
    (\<exists>ok p' st'. CreateQueue me en (SDMAQueue_Init me en) p st = Inr (ok, p', st') \<and>
      (if ok then holds p' (opt_list (wq_cmdbuf p')) (footprint st') \<and>
         release p' (opt_list (wq_cmdbuf p')) (footprint st') = footprint st
       else footprint st' = footprint st))"
  using compute.CreateQueue_post [OF assms(1-4), of en] sdma.CreateQueue_post [OF assms(1,5-7), of en] by meson

theorem CreateQueue_all_or_nothing_witness:
  "\<exists>ok q' st'. CreateQueue queue_menv sample_engines (ComputeQueue_start queue_menv sample_engines)
      (new_compute_object 0 device_example 0x500000 64 0x600000 0x600080 0 0x200000 1 True) sample_mem = Inr (ok, q', st') \<and>
      (if ok then holds q' (opt_list (wq_cmdbuf q')) (footprint st') \<and>
         release q' (opt_list (wq_cmdbuf q')) (footprint st') = footprint sample_mem
       else footprint st' = footprint sample_mem)"
proof -
  have "0 < length (ms_devs sample_mem)" by (simp add: sample_mem_def)
  then show ?thesis
    using CreateQueue_all_or_nothing [OF sample_queue_base, of "new_compute_object 0 device_example 0x500000 64 0x600000 0x600080 0 0x200000 1 True"
        "new_sdma_object 0 0x500000 0x10000 1 False" sample_engines]
    by (simp add: new_compute_object_def new_sdma_object_def)
qed

lemma held_list_two:
  assumes "held_list F (opt_list a)" and "\<forall>h. obj_held F h \<longrightarrow> obj_held F' h \<and> obj_apart F' h b \<and> obj_apart F' b h"
    and "obj_held F' b" and "fp_objs F b = None"
  shows "held_list F' (opt_list a @ [b])"
  using assms by (cases a) (auto simp: held_list_def obj_held_def)

lemma without_obj_commute: "a \<noteq> b \<Longrightarrow> without_obj a (without_obj b F) = without_obj b (without_obj a F)"
  by (cases F) (auto simp: without_obj_def fun_eq_iff fun_upd_twist split: option.split)

lemma release_objs_last: "held_list F (opt_list a @ [b]) \<Longrightarrow> release_objs (opt_list a @ [b]) F = release_objs (opt_list a) (without_obj b F)"
  by (cases a) (auto simp: held_list_def intro: without_obj_commute)

lemma queue_Init_scratch: "queue_Init me en q st = Inr (ret, q', st') \<Longrightarrow> co_scratch_base q' = co_scratch_base q"
  by (auto simp: queue_Init_def HwsInit_def CreateHwQueue_def SwsInit_def AllocUserQueueMemFromUMD_def Let_def
      split: if_splits prod.splits option.splits)

lemma CreateQueue_scratch:
  "CreateQueue me en (ComputeQueue_start me en) q st = Inr (ok, q', st') \<Longrightarrow> co_scratch_base q' = co_scratch_base q"
proof -
  have start: "co_scratch_base q' = co_scratch_base q" if "ComputeQueue_start me en q st = Inr (ret, q', st')" for ret q q' st st'
    using that by (auto simp: ComputeQueue_start_def bindE_Inr_iff split: if_splits dest!: queue_Init_scratch)
  have buf: "co_scratch_base q' = co_scratch_base q" if "create_cmdbuf me q st = Inr (ok, hn, q', st')" for ok hn q q' st st'
    using that by (auto simp: create_cmdbuf_def bindE_Inr_iff split: if_splits option.splits)
  show "CreateQueue me en (ComputeQueue_start me en) q st = Inr (ok, q', st') \<Longrightarrow> co_scratch_base q' = co_scratch_base q"
    by (auto simp: CreateQueue_def bindE_Inr_iff split: if_splits prod.splits option.splits dest!: start buf)
qed

lemma ComputeQueue_ctor_post:
  assumes qb: "queue_base me R st" and dev: "wq_device q < length (ms_devs st)" and buf: "0 < wq_cmdbuf_size q"
    and none: "wq_cmdbuf q = None" "co_scratch_base q = 0"
    and page: "0 < unat (rt_page_size (ms_rt st))" "unat (rt_page_size (ms_rt st)) \<le> 2 ^ 61"
  shows "ComputeQueue_ctor me en q st = Inl (Assert_Failed ''ComputeQueue'') \<or>
    (\<exists>q' st'. ComputeQueue_ctor me en q st = Inr (q', st') \<and> queue_base me R st' \<and> same_rest st st' \<and>
       holds q' (compute_objs q') (footprint st') \<and> release q' (compute_objs q') (footprint st') = footprint st)"
proof -
  from compute.CreateQueue_post [OF qb dev _ none(1), of en] buf obtain ok q1 st1 where
    c: "CreateQueue me en (ComputeQueue_start me en) q st = Inr (ok, q1, st1)" "queue_base me R st1" "same_rest st st1"
      "if ok then wq_device q1 = wq_device q \<and> holds q1 (opt_list (wq_cmdbuf q1)) (footprint st1) \<and>
         release q1 (opt_list (wq_cmdbuf q1)) (footprint st1) = footprint st else footprint st1 = footprint st" by blast
  show ?thesis
  proof (cases ok)
    case False
    with c(1) show ?thesis by (simp add: ComputeQueue_ctor_def)
  next
    case True
    with c(4) have h: "wq_device q1 = wq_device q" "holds q1 (opt_list (wq_cmdbuf q1)) (footprint st1)"
      "release q1 (opt_list (wq_cmdbuf q1)) (footprint st1) = footprint st" by simp_all
    have sb: "co_scratch_base q1 = 0" using CreateQueue_scratch [OF c(1)] none(2) by simp
    let ?ci = "cmdbuf_info (rt_page_size (ms_rt st1))"
    have "wq_device q1 < length (ms_devs st1)" "plain_info ?ci"
      using dev h(1) c(3) page by (simp_all add: same_rest_def plain_info_def cmdbuf_info_def new_GpuMemoryCreateInfo_def)
    from create_obj_post [OF c(2) this] obtain code obj st2 where
      o: "create_obj me ?ci (wq_device q1) st1 = Inr (code, obj, None, st2)" "queue_base me R st2" "same_rest st1 st2"
        "case obj of None \<Rightarrow> code \<noteq> Success \<and> footprint st2 = footprint st1
         | Some hn \<Rightarrow> code = Success \<and> hn = ms_next st1 \<and> obj_held (footprint st2) hn \<and> fp_kobjs (footprint st2) = fp_kobjs (footprint st1) \<and>
             without_obj hn (footprint st2) = footprint st1 \<and>
             (\<forall>h. obj_held (footprint st1) h \<longrightarrow> obj_held (footprint st2) h \<and> obj_apart (footprint st2) h hn \<and> obj_apart (footprint st2) hn h)"
      by (elim exE conjE) (rule that)
    show ?thesis
    proof (cases obj)
      case None
      with True c(1) o(1,4) show ?thesis by (simp add: ComputeQueue_ctor_def)
    next
      case (Some hn)
      have n: "code = Success" "obj_held (footprint st2) hn" "fp_kobjs (footprint st2) = fp_kobjs (footprint st1)"
        "without_obj hn (footprint st2) = footprint st1" "hn = ms_next st1"
        "\<forall>h. obj_held (footprint st1) h \<longrightarrow> obj_held (footprint st2) h \<and> obj_apart (footprint st2) h hn \<and> obj_apart (footprint st2) hn h"
        using o(4) [unfolded Some option.case] by blast+
      from n(2) obtain i m where m: "ms_objs st2 hn = Some (i, m)" by (auto simp: obj_held_def footprint_def)
      define q2 where "q2 = q1\<lparr>co_amd_queue_mem := obj, co_amd_queue := gm_gpu_addr m,
        co_amd_queue_rocr := co_ring_rptr q1 - offsetof_read_dispatch_id, co_thread := True\<rparr>"
      have run: "ComputeQueue_ctor me en q st = Inr (q2, st2)"
        using True c(1) o(1) Some n(1) m by (simp add: ComputeQueue_ctor_def gpu_address_def get_obj_def q2_def)
      have q2: "compute_objs q2 = opt_list (wq_cmdbuf q1) @ [hn]" "queue_kobjs q2 = queue_kobjs q1"
        using sb Some by (simp_all add: compute_objs_def q2_def queue_kobjs_def queue_kobj_def)
      have "fp_objs (footprint st1) hn = None" using c(2) n(5) by (simp add: queue_base_def footprint_def)
      with held_list_two [OF _ n(6,2)] h(2) have held: "held_list (footprint st2) (compute_objs q2)" by (simp add: holds_def q2)
      then have "holds q2 (compute_objs q2) (footprint st2)" using h(2) n(3) by (simp add: holds_def q2(2))
      moreover have "release q2 (compute_objs q2) (footprint st2) = footprint st"
        using h(3) n(4) release_objs_last [OF held [unfolded q2(1)]] by (simp add: release_def q2)
      ultimately show ?thesis using run o(2) same_rest_trans [OF c(3) o(3)] by blast
    qed
  qed
qed

text \<open>
  C27. A compute queue gives back exactly what it took. Its constructor either stops at an assertion, because the kernel
  refused something, or leaves a queue that holds its kernel objects, its command buffer and its queue page, and the rest of the
  footprint is the one from before. In every later state in which a queue holds these (and its scratch buffer, if
  it has one), its destructor returns and releases them and nothing else.
\<close>

theorem ComputeQueue_lifecycle:
  assumes "queue_base me R st" and "wq_device q < length (ms_devs st)" and "0 < wq_cmdbuf_size q"
    and "wq_cmdbuf q = None" and "co_scratch_base q = 0"
    and "0 < unat (rt_page_size (ms_rt st))" and "unat (rt_page_size (ms_rt st)) \<le> 2 ^ 61"
  shows "(ComputeQueue_ctor me en q st = Inl (Assert_Failed ''ComputeQueue'') \<or>
      (\<exists>q' st'. ComputeQueue_ctor me en q st = Inr (q', st') \<and> queue_base me R st' \<and>
         holds q' (compute_objs q') (footprint st') \<and> release q' (compute_objs q') (footprint st') = footprint st)) \<and>
    (\<forall>q2 st2. queue_base me R st2 \<and> holds q2 (compute_objs q2) (footprint st2) \<longrightarrow>
      (\<exists>st3. ComputeQueue_dtor me q2 st2 = Inr st3 \<and> footprint st3 = release q2 (compute_objs q2) (footprint st2)))"
  using ComputeQueue_ctor_post [OF assms, of en] ComputeQueue_dtor_post [of me R] unfolding holds_def by blast

theorem ComputeQueue_lifecycle_witness:
  "ComputeQueue_ctor queue_menv sample_engines
      (new_compute_object 0 device_example 0x500000 64 0x600000 0x600080 0 0x200000 1 True) (sample_mem\<lparr>ms_rt := (ms_rt sample_mem)\<lparr>rt_page_size := 0x1000\<rparr>\<rparr>)
      = Inl (Assert_Failed ''ComputeQueue'') \<or>
   (\<exists>q' st'. ComputeQueue_ctor queue_menv sample_engines
      (new_compute_object 0 device_example 0x500000 64 0x600000 0x600080 0 0x200000 1 True) (sample_mem\<lparr>ms_rt := (ms_rt sample_mem)\<lparr>rt_page_size := 0x1000\<rparr>\<rparr>)
      = Inr (q', st') \<and> holds q' (compute_objs q') (footprint st'))"
proof -
  let ?st = "sample_mem\<lparr>ms_rt := (ms_rt sample_mem)\<lparr>rt_page_size := 0x1000\<rparr>\<rparr>"
  let ?q = "new_compute_object 0 device_example 0x500000 64 0x600000 0x600080 0 0x200000 1 True"
  have rt: "rt_mgr d (rt\<lparr>rt_page_size := x\<rparr>) = rt_mgr d rt" for d rt x by (simp add: rt_mgr_def)
  have qb: "queue_base queue_menv ((0x100000000, 0x200000000), (0x800000000, 0x1800000000)) ?st"
    using sample_queue_base by (simp add: queue_base_def base_ok_def dxg_open_def rt)
  have pre: "wq_device ?q < length (ms_devs ?st)" "0 < wq_cmdbuf_size ?q" "wq_cmdbuf ?q = None" "co_scratch_base ?q = 0"
    "0 < unat (rt_page_size (ms_rt ?st))" "unat (rt_page_size (ms_rt ?st)) \<le> 2 ^ 61"
    by (simp_all add: sample_mem_def new_compute_object_def)
  from ComputeQueue_lifecycle [OF qb pre, of sample_engines] show ?thesis by blast
qed

text \<open>
  C29. A failed change of priority is not noticed. \<^verbatim>\<open>SetPriority\<close> destroys the hardware queue before it creates the
  new one and stores the new priority first: if the kernel refuses the new queue, the call reports an error and the queue names a hardware queue that no longer
  exists; the same call again reports success and does nothing, because the priority is already the stored one.
\<close>

theorem SetPriority_failure_lost:
  assumes "kobj_ok (me_dx me)" and "wq_use_hws q" and "wq_prio q \<noteq> ConvertSchedLevel p"
    and "SetPriority me p q st = (HSA_STATUS_ERROR, q', st')"
  shows "Hwq (wq_queue q') \<notin> kobj_live (ms_tr st') \<and> wq_queue q' = wq_queue q \<and> SetPriority me p q' st' = (HSA_STATUS_SUCCESS, q', st')"
proof -
  let ?q = "q\<lparr>wq_prio := ConvertSchedLevel p\<rparr>" and ?st = "set_tr (snd (DestroyHwQueue (me_dx me) q (ms_tr st))) st"
  let ?c = "CreateHwQueue_call (wq_context ?q) (sched_value (wq_prio ?q))"
  have eq: "snd (queue_Fini me q st) = ?st" using assms(2) by (simp add: queue_Fini_def HwsFini_def case_prod_beta)
  have d: "kobj_live (ms_tr ?st) = kobj_live (ms_tr st) - {Hwq (wq_queue q)}"
    using arg_cong [OF only_kobjs_footprint [OF queue_Fini_post [OF assms(1), of st q]], of fp_kobjs] assms(2) unfolding eq
    by (simp add: footprint_def queue_kobj_def)
  have run: "HwsInit me ?q ?st = (HSA_STATUS_ERROR, q', st')" using assms(2-4) by (simp add: SetPriority_def)
  show ?thesis
  proof (cases rule: dx_cases [of "me_dx me" "ms_tr ?st" ?c])
    case (1 vs)
    with run show ?thesis by (simp add: HwsInit_def CreateHwQueue_def status_of_def)
  next
    case (2 s vs)
    then have q': "q' = ?q" "ms_tr st' = ms_tr ?st @ [(?c, s, vs)]" using run by (auto simp: HwsInit_def CreateHwQueue_def set_tr_def)
    then have "kobj_live (ms_tr st') = kobj_live (ms_tr ?st)" using 2(1) by (simp add: kobj_live_snoc)
    with d q'(1) show ?thesis by (simp add: SetPriority_def)
  qed
qed

definition hws_queue :: "unit wddm_queue_scheme" where
  "hws_queue = \<lparr>wq_device = 0, wq_context = 7, wq_queue = 9, wq_syncobj = 10, wq_sync_addr = 0x9000, wq_cmdbuf = None,
      wq_cmdbuf_addr = 0x500000, wq_cmdbuf_size = 0x1000, wq_queue_mem = None, wq_engine = 1, wq_use_hws = True, wq_prio = kNormal\<rparr>"

theorem SetPriority_failure_lost_witness:
  "\<exists>q' st'. SetPriority queue_menv 2 hws_queue sample_mem = (HSA_STATUS_ERROR, q', st') \<and>
     Hwq (wq_queue q') \<notin> kobj_live (ms_tr st') \<and> SetPriority queue_menv 2 q' st' = (HSA_STATUS_SUCCESS, q', st')"
proof -
  have k: "kobj_ok (me_dx queue_menv)" by (simp add: queue_menv_def queue_kernel_ok)
  have f: "\<exists>q' st'. SetPriority queue_menv 2 hws_queue sample_mem = (HSA_STATUS_ERROR, q', st')"
    by (simp add: SetPriority_def hws_queue_def ConvertSchedLevel_def HwsInit_def CreateHwQueue_def queue_menv_def dx_def dxc_def
        queue_kernel_def status_of_def)
  then obtain q' st' where s: "SetPriority queue_menv 2 hws_queue sample_mem = (HSA_STATUS_ERROR, q', st')" by blast
  have "wq_use_hws hws_queue" "wq_prio hws_queue \<noteq> ConvertSchedLevel 2" by (simp_all add: hws_queue_def ConvertSchedLevel_def)
  from SetPriority_failure_lost [OF k this s] s show ?thesis by blast
qed

end
