(* ===== verification/Sdma_Queue.thy ===== *)
theory Sdma_Queue
  imports Queue_Objects
begin

text \<open>
  The thread of an SDMA queue and its doorbell, from \<^verbatim>\<open>SDMAQueue\<close> in \<^verbatim>\<open>src/src/wddm/queue.cpp\<close> and \<^verbatim>\<open>src/include/impl/wddm/queue.h\<close>. The client
  writes packets to the ring and rings the doorbell, which queues the range of bytes since the last one; the thread takes
  the queued ranges in order, waits itself for the signals that the packets at the start of a range poll, and submits the range. The ring is
  a list of words; the offsets of packets are multiples of four.
\<close>

section \<open>Poll packets\<close>

definition sizeof_POLL_REGMEM :: nat where "sizeof_POLL_REGMEM = 6"

definition IsPollPacket :: "u32 \<Rightarrow> bool" where
  "IsPollPacket header \<longleftrightarrow> take_bit 8 header = 8 \<and> take_bit 1 (drop_bit 31 header) = 1 \<and> take_bit 3 (drop_bit 28 header) = 3"

text \<open>
  The fields of the packet at word \<open>i\<close>: the address and the value it polls.
\<close>

definition poll_addr :: "u32 list \<Rightarrow> nat \<Rightarrow> u64" where
  "poll_addr ring i = ucast (ring ! (i + 1)) OR push_bit 32 (ucast (ring ! (i + 2)))"

definition poll_value :: "u32 list \<Rightarrow> nat \<Rightarrow> u64" where
  "poll_value ring i = ucast (ring ! (i + 3))"

text \<open>
  What the thread waits for at a poll packet: the address, the value, and whether the next packet polls the lower half of the same signal.
\<close>

definition poll_target :: "u32 list \<Rightarrow> nat \<Rightarrow> (u64 \<times> u64 \<times> bool) res" where
  "poll_target ring i =
     (let next = i + sizeof_POLL_REGMEM in
      if next \<ge> length ring then Inl (Out_Of_Bounds ''SdmaThread'')
      else if \<not> IsPollPacket (ring ! next) then Inr (poll_addr ring i, poll_value ring i, False)
      else if next + sizeof_POLL_REGMEM > length ring then Inl (Out_Of_Bounds ''SdmaThread'')
      else if poll_addr ring next + 4 = poll_addr ring i
      then Inr (poll_addr ring next, poll_value ring next OR push_bit 32 (poll_value ring i), True)
      else Inr (poll_addr ring i, poll_value ring i, False))"

definition zero_words :: "nat \<Rightarrow> nat \<Rightarrow> u32 list \<Rightarrow> u32 list" where
  "zero_words i n ring = take i ring @ replicate n 0 @ drop (i + n) ring"

text \<open>
  The loop over the poll packets. \<open>wait\<close> is \<^verbatim>\<open>hsakmt_hsa_signal_wait_relaxed\<close> of the HSA runtime: the value of the signal
  when it equals the one asked for, \<open>None\<close> while it does not.
\<close>

function sdma_poll :: "(u64 \<Rightarrow> u64 \<Rightarrow> u64 option) \<Rightarrow> nat \<Rightarrow> u32 list \<Rightarrow> u32 list res" where
  "sdma_poll wait i ring =
     (if i \<ge> length ring then Inl (Out_Of_Bounds ''SdmaThread'')
      else if \<not> IsPollPacket (ring ! i) then Inr ring
      else bindE (poll_target ring i) (\<lambda>(addr, val, both).
        case wait (addr - offsetof_signal_value) val of
          None \<Rightarrow> Inl (Waiting ''SdmaThread'')
        | Some value \<Rightarrow>
            if value \<noteq> val then Inl (Assert_Failed ''SdmaThread'')
            else let n = (if both then 2 else 1) * sizeof_POLL_REGMEM
                 in if i + n > length ring then Inl (Out_Of_Bounds ''SdmaThread'')
                    else sdma_poll wait (i + n) (zero_words i n ring)))"
  by pat_completeness auto
termination
  by (relation "measure (\<lambda>(wait, i, ring). length ring - i)") (auto simp: zero_words_def sizeof_POLL_REGMEM_def)

declare sdma_poll.simps [simp del]

section \<open>The thread and the doorbell\<close>

text \<open>What the thread runs against: the kernel, the device, the value at its paging fence, and the signals.\<close>

record sdma_env =
  se_dx :: dx_env
  se_device :: wddm_device
  se_fence :: u64
  se_wait :: "u64 \<Rightarrow> u64 \<Rightarrow> u64 option"

definition WrapIntoRocrRing :: "sdma_object \<Rightarrow> u64 \<Rightarrow> u32" where
  "WrapIntoRocrRing q idx = ucast (idx AND ucast (wq_cmdbuf_size q - 1))"

definition PreparePacket :: "u32 \<Rightarrow> u64 \<Rightarrow> sdma_object \<Rightarrow> sdma_object" where
  "PreparePacket offset sz q =
     q\<lparr>sd_ib_start_addr := wq_cmdbuf_addr q + ucast offset, sd_ib_size := sz, sd_rptr_next := sd_rptr_next q + sz\<rparr>"

definition SDMAQueue_Submit :: "sdma_env \<Rightarrow> sdma_object \<Rightarrow> dx_trace \<Rightarrow> hsa_status \<times> dx_trace" where
  "SDMAQueue_Submit se q tr =
     (case WaitPagingFence (se_dx se) (se_device se) (se_fence se) (wq_context q) tr of
        (False, tr) \<Rightarrow> (HSA_STATUS_ERROR, tr)
      | (True, tr) \<Rightarrow>
          (case (if wq_use_hws q then HwsSubmit (se_dx se) q (sd_ib_start_addr q) (sd_ib_size q) (sd_rptr_next q) tr
                 else SwsSubmit (se_dx se) q (sd_ib_start_addr q) (sd_ib_size q) (sd_rptr_next q) tr) of
             (ret, tr) \<Rightarrow> (if ret \<noteq> HSA_STATUS_SUCCESS then HSA_STATUS_ERROR else HSA_STATUS_SUCCESS, tr)))"

text \<open>One queued range. The thread does not look at the result of the submission.\<close>

definition sdma_range :: "sdma_env \<Rightarrow> u64 \<times> u64 \<Rightarrow> sdma_object \<Rightarrow> dx_trace \<Rightarrow> (sdma_object \<times> dx_trace) res" where
  "sdma_range se r q tr = (case r of (start, fin) \<Rightarrow>
     (if WrapIntoRocrRing q start mod 4 \<noteq> 0 then Inl (Out_Of_Bounds ''SdmaThread'')
      else bindE (sdma_poll (se_wait se) (unat (WrapIntoRocrRing q start) div 4) (sd_ring q)) (\<lambda>ring.
        let q = PreparePacket (WrapIntoRocrRing q start) (fin - start) (q\<lparr>sd_ring := ring\<rparr>)
        in Inr (q, snd (SDMAQueue_Submit se q tr)))))"

text \<open>
  The doorbell has two halves: under the lock the range since the last doorbell is queued and the thread notified; after the lock is released
  the start of the next range is moved.
\<close>

definition doorbell_publish :: "sdma_object \<Rightarrow> sdma_object" where
  "doorbell_publish q = q\<lparr>sd_wptr_queue := sd_wptr_queue q @ [(sd_wptr_pre q, sd_wptr_next q)]\<rparr>"

definition doorbell_advance :: "sdma_object \<Rightarrow> sdma_object" where
  "doorbell_advance q = q\<lparr>sd_wptr_pre := sd_wptr_next q\<rparr>"

definition SDMAQueue_RingDoorbell :: "sdma_object \<Rightarrow> sdma_object" where
  "SDMAQueue_RingDoorbell q = doorbell_advance (doorbell_publish q)"

text \<open>
  The steps of a queue with its clients: a client writes to the ring and moves the write pointer, or does one half of a doorbell; the thread
  swaps the queued ranges into its own list when that is empty, or handles the next range of its list, or is stopped. \<open>sr_ringing\<close> counts the
  clients between the two halves of a doorbell. Nothing in the queue keeps the clients apart; with \<open>serial\<close> set they do it themselves, and
  no client writes or begins a doorbell while another one is between its halves. The thread runs at any time.
\<close>

record sdma_run =
  sr_queue :: sdma_object
  sr_pendings :: "(u64 \<times> u64) list"
  sr_trace :: dx_trace
  sr_stop :: bool
  sr_ringing :: nat

inductive sdma_step :: "sdma_env \<Rightarrow> bool \<Rightarrow> sdma_run \<Rightarrow> sdma_run \<Rightarrow> bool" for se serial where
  client_write: "length ring = length (sd_ring (sr_queue s)) \<Longrightarrow> (serial \<Longrightarrow> sr_ringing s = 0) \<Longrightarrow>
    sdma_step se serial s (s\<lparr>sr_queue := (sr_queue s)\<lparr>sd_ring := ring, sd_wptr_next := w\<rparr>\<rparr>)"
| client_publish: "(serial \<Longrightarrow> sr_ringing s = 0) \<Longrightarrow>
    sdma_step se serial s (s\<lparr>sr_queue := doorbell_publish (sr_queue s), sr_ringing := Suc (sr_ringing s)\<rparr>)"
| client_advance: "sr_ringing s = Suc n \<Longrightarrow>
    sdma_step se serial s (s\<lparr>sr_queue := doorbell_advance (sr_queue s), sr_ringing := n\<rparr>)"
| thread_swap: "sr_pendings s = [] \<Longrightarrow> sd_wptr_queue (sr_queue s) \<noteq> [] \<Longrightarrow> \<not> sr_stop s \<Longrightarrow>
    sdma_step se serial s (s\<lparr>sr_pendings := sd_wptr_queue (sr_queue s), sr_queue := (sr_queue s)\<lparr>sd_wptr_queue := []\<rparr>\<rparr>)"
| thread_range: "sr_pendings s = r # rs \<Longrightarrow> sdma_range se r (sr_queue s) (sr_trace s) = Inr (q, tr) \<Longrightarrow>
    sdma_step se serial s (s\<lparr>sr_queue := q, sr_pendings := rs, sr_trace := tr\<rparr>)"
| stop: "sdma_step se serial s (s\<lparr>sr_stop := True\<rparr>)"

inductive_cases sdma_stepE: "sdma_step se serial s s'"

definition sdma_start :: "sdma_object \<Rightarrow> sdma_run" where
  "sdma_start q = \<lparr>sr_queue = q, sr_pendings = [], sr_trace = [], sr_stop = False, sr_ringing = 0\<rparr>"

section \<open>Polling\<close>

lemma zero_words_nth: "i + n \<le> length ring \<Longrightarrow> k < length ring \<Longrightarrow> zero_words i n ring ! k = (if i \<le> k \<and> k < i + n then 0 else ring ! k)"
  by (auto simp: zero_words_def nth_append min_def)

lemma zero_words_length: "i + n \<le> length ring \<Longrightarrow> length (zero_words i n ring) = length ring"
  by (simp add: zero_words_def)

text \<open>The loop clears the packets it has waited for, up to the first word that is not the header of a poll packet.\<close>

lemma sdma_poll_clears:
  "sdma_poll wait i ring = Inr ring' \<Longrightarrow>
   length ring' = length ring \<and>
   (\<exists>j. i \<le> j \<and> j < length ring \<and> (j - i) mod 6 = 0 \<and> \<not> IsPollPacket (ring ! j) \<and>
      (\<forall>k<length ring. ring' ! k = (if i \<le> k \<and> k < j then 0 else ring ! k)))"
proof (induction wait i ring rule: sdma_poll.induct)
  case (1 wait i ring)
  show ?case
  proof (cases "i < length ring \<and> IsPollPacket (ring ! i)")
    case False
    with 1(2) show ?thesis by (subst (asm) sdma_poll.simps) (auto split: if_splits)
  next
    case True
    with 1(2) obtain addr val both where t: "poll_target ring i = Inr (addr, val, both)"
      by (subst (asm) sdma_poll.simps) (auto simp: bindE_Inr_iff)
    define n :: nat where "n = (if both then 2 else 1) * sizeof_POLL_REGMEM"
    have n: "n = 6 \<or> n = 12" by (simp add: n_def sizeof_POLL_REGMEM_def)
    from 1(2) True t have w: "wait (addr - offsetof_signal_value) val = Some val" "i + n \<le> length ring"
        "sdma_poll wait (i + n) (zero_words i n ring) = Inr ring'"
      by (subst (asm) sdma_poll.simps; auto simp: n_def Let_def split: if_splits option.splits)+
    note z = zero_words_nth [OF w(2)] zero_words_length [OF w(2)]
    have "length ring' = length (zero_words i n ring) \<and>
        (\<exists>j. i + n \<le> j \<and> j < length (zero_words i n ring) \<and> (j - (i + n)) mod 6 = 0 \<and> \<not> IsPollPacket (zero_words i n ring ! j) \<and>
          (\<forall>k<length (zero_words i n ring). ring' ! k = (if i + n \<le> k \<and> k < j then 0 else zero_words i n ring ! k)))"
      by (rule 1(1) [OF _ _ w(1) _ n_def _ w(3)]) (use True w(2) in simp_all)
    then obtain j where
      j: "length ring' = length ring" "i + n \<le> j" "j < length ring" "(j - (i + n)) mod 6 = 0"
        "\<not> IsPollPacket (zero_words i n ring ! j)"
        "\<forall>k<length ring. ring' ! k = (if i + n \<le> k \<and> k < j then 0 else zero_words i n ring ! k)" unfolding z(2) by (elim conjE exE) (rule that)
    have "(j - i) mod 6 = 0"
    proof -
      have "j - i = (j - (i + n)) + n" "n mod 6 = 0" using j(2) n by auto
      with j(4) show ?thesis by (metis add.right_neutral mod_add_eq mod_mod_trivial)
    qed
    moreover have "ring' ! k = (if i \<le> k \<and> k < j then 0 else ring ! k)" if "k < length ring" for k
      using j(2,6) z(1) [OF that] that by auto
    moreover have "\<not> IsPollPacket (ring ! j)" using j(2,3,5) z(1) [of j] by simp
    ultimately show ?thesis using j(1-3) by (intro conjI exI [of _ j]) auto
  qed
qed

section \<open>The stream of commands\<close>

text \<open>What the GPU is told, in order: to run a buffer, and to report a value.\<close>

datatype gpu_event = Run u64 u64 | Fence u64

definition gpu_event_of :: "dx_call \<times> dx_reply \<Rightarrow> gpu_event list" where
  "gpu_event_of e = (case e of (c, s, _) \<Rightarrow>
     if s \<noteq> STATUS_SUCCESS then []
     else case c of
       SubmitCommand _ a n \<Rightarrow> [Run a n]
     | SignalSynchronizationObjectFromGpu _ _ v \<Rightarrow> [Fence v]
     | SubmitCommandToHwQueue _ a n v \<Rightarrow> [Run a n, Fence v]
     | _ \<Rightarrow> [])"

definition gpu_events :: "dx_trace \<Rightarrow> gpu_event list" where
  "gpu_events tr = concat (map gpu_event_of tr)"

definition accepts :: "dx_env \<Rightarrow> bool" where
  "accepts env \<longleftrightarrow> (\<forall>tr c s v. fst (env tr (WaitForSynchronizationObjectFromGpu c s v)) = STATUS_SUCCESS) \<and>
     (\<forall>tr c a n. fst (env tr (SubmitCommand c a n)) = STATUS_SUCCESS) \<and>
     (\<forall>tr c s v. fst (env tr (SignalSynchronizationObjectFromGpu c s v)) = STATUS_SUCCESS) \<and>
     (\<forall>tr q a n v. fst (env tr (SubmitCommandToHwQueue q a n v)) = STATUS_SUCCESS)"

lemma dx_success: "fst (env tr c) = STATUS_SUCCESS \<Longrightarrow> dx env c tr = (Some (snd (env tr c)), tr @ [(c, STATUS_SUCCESS, snd (env tr c))])"
  by (cases "env tr c") (simp add: dx_def dxc_def)

lemma SDMAQueue_Submit_events:
  assumes "accepts (se_dx se)"
  shows "gpu_events (snd (SDMAQueue_Submit se q tr)) = gpu_events tr @ [Run (sd_ib_start_addr q) (sd_ib_size q), Fence (sd_rptr_next q)]"
proof -
  have ok: "dx (se_dx se) c tr' = (Some (snd (se_dx se tr' c)), tr' @ [(c, STATUS_SUCCESS, snd (se_dx se tr' c))])"
    if "(\<exists>x y v. c = WaitForSynchronizationObjectFromGpu x y v) \<or> (\<exists>x a n. c = SubmitCommand x a n) \<or>
      (\<exists>x y v. c = SignalSynchronizationObjectFromGpu x y v) \<or> (\<exists>x a n v. c = SubmitCommandToHwQueue x a n v)" for c tr'
    using assms that by (intro dx_success) (auto simp: accepts_def)
  obtain tr1 where w: "WaitPagingFence (se_dx se) (se_device se) (se_fence se) (wq_context q) tr = (True, tr1)"
    and e: "gpu_events tr1 = gpu_events tr"
    by (cases "se_fence se < page_fence_value (se_device se)")
      (auto simp: WaitPagingFence_def GpuWait_def ok gpu_events_def gpu_event_of_def)
  show ?thesis
    by (cases "wq_use_hws q") (simp_all add: SDMAQueue_Submit_def w HwsSubmit_def SubmitToHwQueue_def SwsSubmit_def SubmitToSwQueue_def GpuSignal_def
        ok status_of_def gpu_events_def gpu_event_of_def e [unfolded gpu_events_def])
qed

text \<open>Ranges that follow each other.\<close>

fun chained :: "u64 \<Rightarrow> (u64 \<times> u64) list \<Rightarrow> u64 \<Rightarrow> bool" where
  "chained a [] b = (a = b)"
| "chained a ((s, e) # rs) b = (s = a \<and> chained e rs b)"

lemma chained_append: "chained a (rs @ ts) b \<longleftrightarrow> (\<exists>m. chained a rs m \<and> chained m ts b)"
  by (induction a rs b rule: chained.induct) auto

definition range_events :: "sdma_object \<Rightarrow> u64 \<times> u64 \<Rightarrow> gpu_event list" where
  "range_events q r = [Run (wq_cmdbuf_addr q + ucast (WrapIntoRocrRing q (fst r))) (snd r - fst r), Fence (snd r)]"

text \<open>Where the queued ranges end: at the last doorbell, of which the second half may still be missing.\<close>

definition doorbell_end :: "sdma_run \<Rightarrow> u64" where
  "doorbell_end s = (if sr_ringing s = 0 then sd_wptr_pre (sr_queue s) else sd_wptr_next (sr_queue s))"

definition sdma_inv :: "sdma_object \<Rightarrow> sdma_run \<Rightarrow> bool" where
  "sdma_inv q0 s \<longleftrightarrow> wq_cmdbuf_addr (sr_queue s) = wq_cmdbuf_addr q0 \<and> wq_cmdbuf_size (sr_queue s) = wq_cmdbuf_size q0 \<and>
     length (sd_ring (sr_queue s)) = length (sd_ring q0) \<and> sr_ringing s \<le> 1 \<and>
     chained (sd_rptr_next (sr_queue s)) (sr_pendings s @ sd_wptr_queue (sr_queue s)) (doorbell_end s) \<and>
     (\<exists>ranges. chained 0 ranges (sd_rptr_next (sr_queue s)) \<and> gpu_events (sr_trace s) = concat (map (range_events q0) ranges))"

lemma WrapIntoRocrRing_same: "wq_cmdbuf_size q = wq_cmdbuf_size q0 \<Longrightarrow> WrapIntoRocrRing q x = WrapIntoRocrRing q0 x"
  by (simp add: WrapIntoRocrRing_def)

lemma sdma_inv_range:
  assumes inv: "sdma_inv q0 s" and ac: "accepts (se_dx se)" and p: "sr_pendings s = r # rs"
    and run: "sdma_range se r (sr_queue s) (sr_trace s) = Inr (q, tr)"
  shows "sdma_inv q0 (s\<lparr>sr_queue := q, sr_pendings := rs, sr_trace := tr\<rparr>)"
proof -
  let ?q = "sr_queue s"
  obtain a b where r: "r = (a, b)" by fastforce
  obtain ring where poll: "sdma_poll (se_wait se) (unat (WrapIntoRocrRing ?q a) div 4) (sd_ring ?q) = Inr ring"
    and q: "q = PreparePacket (WrapIntoRocrRing ?q a) (b - a) (?q\<lparr>sd_ring := ring\<rparr>)" and tr: "tr = snd (SDMAQueue_Submit se q (sr_trace s))"
  proof (cases "sdma_poll (se_wait se) (unat (WrapIntoRocrRing ?q a) div 4) (sd_ring ?q)")
    case (Inl e)
    with run show ?thesis by (simp add: sdma_range_def r split: if_splits)
  next
    case (Inr ring)
    with run have "q = PreparePacket (WrapIntoRocrRing ?q a) (b - a) (?q\<lparr>sd_ring := ring\<rparr>)" "tr = snd (SDMAQueue_Submit se q (sr_trace s))"
      by (auto simp: sdma_range_def r Let_def split: if_splits)
    with Inr show ?thesis by (rule that)
  qed
  have i: "wq_cmdbuf_addr ?q = wq_cmdbuf_addr q0" "wq_cmdbuf_size ?q = wq_cmdbuf_size q0" "length (sd_ring ?q) = length (sd_ring q0)"
    "sd_rptr_next ?q = a" "chained b (rs @ sd_wptr_queue ?q) (doorbell_end s)" "sr_ringing s \<le> 1"
    using inv p r by (simp_all add: sdma_inv_def)
  from inv i(4) obtain ranges where rg: "chained 0 ranges a" "gpu_events (sr_trace s) = concat (map (range_events q0) ranges)"
    by (auto simp: sdma_inv_def)
  have q': "sd_rptr_next q = b" "wq_cmdbuf_addr q = wq_cmdbuf_addr q0" "wq_cmdbuf_size q = wq_cmdbuf_size q0"
    "sd_ib_start_addr q = wq_cmdbuf_addr q0 + ucast (WrapIntoRocrRing q0 a)" "sd_ib_size q = b - a" "sd_wptr_queue q = sd_wptr_queue ?q"
    "sd_wptr_pre q = sd_wptr_pre ?q" "sd_wptr_next q = sd_wptr_next ?q" "sd_ring q = ring"
    using i by (simp_all add: q PreparePacket_def WrapIntoRocrRing_same [OF i(2)])
  have "gpu_events tr = concat (map (range_events q0) (ranges @ [(a, b)]))"
    using SDMAQueue_Submit_events [OF ac, of q "sr_trace s"] rg(2) q' by (simp add: tr range_events_def)
  moreover have "chained 0 (ranges @ [(a, b)]) b" using rg(1) by (simp add: chained_append)
  moreover have "length ring = length (sd_ring ?q)" using sdma_poll_clears [OF poll] by simp
  moreover have "doorbell_end (s\<lparr>sr_queue := q, sr_pendings := rs, sr_trace := tr\<rparr>) = doorbell_end s" using q' by (simp add: doorbell_end_def)
  ultimately show ?thesis using i q' unfolding sdma_inv_def by (intro conjI exI [of _ "ranges @ [(a, b)]"]) simp_all
qed

lemma sdma_inv_step: "sdma_step se True s s' \<Longrightarrow> accepts (se_dx se) \<Longrightarrow> sdma_inv q0 s \<Longrightarrow> sdma_inv q0 s'"
proof (erule sdma_stepE)
  fix r rs q tr
  assume "accepts (se_dx se)" "sdma_inv q0 s" "s' = s\<lparr>sr_queue := q, sr_pendings := rs, sr_trace := tr\<rparr>" "sr_pendings s = r # rs"
    "sdma_range se r (sr_queue s) (sr_trace s) = Inr (q, tr)"
  then show "sdma_inv q0 s'" using sdma_inv_range by simp
next
  assume "sdma_inv q0 s" "s' = s\<lparr>sr_queue := doorbell_publish (sr_queue s), sr_ringing := Suc (sr_ringing s)\<rparr>" "True \<Longrightarrow> sr_ringing s = 0"
  then show "sdma_inv q0 s'"
    using chained_append [of _ "sr_pendings s @ sd_wptr_queue (sr_queue s)" "[(sd_wptr_pre (sr_queue s), sd_wptr_next (sr_queue s))]"]
    by (simp add: sdma_inv_def doorbell_publish_def doorbell_end_def)
qed (auto simp: sdma_inv_def doorbell_end_def doorbell_advance_def)

lemma sdma_inv_steps: "(sdma_step se True)\<^sup>*\<^sup>* s s' \<Longrightarrow> accepts (se_dx se) \<Longrightarrow> sdma_inv q0 s \<Longrightarrow> sdma_inv q0 s'"
  by (induction rule: rtranclp_induct) (auto intro: sdma_inv_step)

text \<open>
  C28. An SDMA queue whose clients take turns submits its stream in order, without gaps and without repetition. From a new queue, under every
  interleaving of the thread with clients of which no two write or ring at the same time (the thread may run between the two halves of a doorbell), and as long
  as the kernel accepts the submissions: what the GPU was told is a sequence of ranges each of which starts where the last one ended, run from the place of
  the start in the ring and with the length of the range, and after each the report of its end. The ranges that wait in the
  thread's list and in the queue continue the sequence up to the last doorbell, so that when nothing is left the last value the GPU
  reports is the write pointer of the last doorbell.
\<close>

theorem sdma_stream_in_order:
  assumes "accepts (se_dx se)" and "sd_rptr_next q = 0" and "sd_wptr_pre q = 0" and "sd_wptr_queue q = []"
    and "(sdma_step se True)\<^sup>*\<^sup>* (sdma_start q) s"
  shows "\<exists>ranges. gpu_events (sr_trace s) = concat (map (range_events q) ranges) \<and> chained 0 ranges (sd_rptr_next (sr_queue s)) \<and>
    chained (sd_rptr_next (sr_queue s)) (sr_pendings s @ sd_wptr_queue (sr_queue s)) (doorbell_end s)"
proof -
  have "sdma_inv q (sdma_start q)" using assms(2-4)
    by (auto simp: sdma_inv_def sdma_start_def gpu_events_def doorbell_end_def intro: exI [of _ "[]"])
  from sdma_inv_steps [OF assms(5,1) this] show ?thesis by (auto simp: sdma_inv_def)
qed

definition sdma_example :: sdma_object where
  "sdma_example = (new_sdma_object 0 0x500000 0x1000 1 True)\<lparr>wq_queue := 9, sd_ring := replicate 0x400 0\<rparr>"

definition sdma_env_example :: sdma_env where
  "sdma_env_example = \<lparr>se_dx = \<lambda>_ _. (STATUS_SUCCESS, []), se_device = device_example, se_fence = 0, se_wait = \<lambda>_ v. Some v\<rparr>"

theorem sdma_stream_in_order_witness:
  "\<exists>s ranges. (sdma_step sdma_env_example True)\<^sup>*\<^sup>* (sdma_start sdma_example) s \<and> sr_queue s = SDMAQueue_RingDoorbell (sdma_example\<lparr>sd_wptr_next := 0x40\<rparr>) \<and>
    chained 0 ranges (sd_rptr_next (sr_queue s)) \<and>
    chained (sd_rptr_next (sr_queue s)) (sr_pendings s @ sd_wptr_queue (sr_queue s)) 0x40"
proof -
  let ?s0 = "sdma_start sdma_example"
  let ?s1 = "?s0\<lparr>sr_queue := (sr_queue ?s0)\<lparr>sd_ring := sd_ring (sr_queue ?s0), sd_wptr_next := 0x40\<rparr>\<rparr>"
  let ?s2 = "?s1\<lparr>sr_queue := doorbell_publish (sr_queue ?s1), sr_ringing := Suc (sr_ringing ?s1)\<rparr>"
  let ?s3 = "?s2\<lparr>sr_queue := doorbell_advance (sr_queue ?s2), sr_ringing := 0\<rparr>"
  have "sdma_step sdma_env_example True ?s0 ?s1" by (rule client_write) (simp_all add: sdma_start_def)
  moreover have "sdma_step sdma_env_example True ?s1 ?s2" by (rule client_publish) (simp add: sdma_start_def)
  moreover have "sdma_step sdma_env_example True ?s2 ?s3" by (rule client_advance) (simp add: sdma_start_def)
  ultimately have steps: "(sdma_step sdma_env_example True)\<^sup>*\<^sup>* ?s0 ?s3" by (meson rtranclp.intros)
  have pre: "accepts (se_dx sdma_env_example)" "sd_rptr_next sdma_example = 0" "sd_wptr_pre sdma_example = 0" "sd_wptr_queue sdma_example = []"
    by (simp_all add: accepts_def sdma_env_example_def sdma_example_def new_sdma_object_def)
  have "doorbell_end ?s3 = 0x40" "sr_queue ?s3 = SDMAQueue_RingDoorbell (sdma_example\<lparr>sd_wptr_next := 0x40\<rparr>)"
    by (simp_all add: doorbell_end_def doorbell_advance_def doorbell_publish_def SDMAQueue_RingDoorbell_def sdma_start_def sdma_example_def)
  with sdma_stream_in_order [OF pre steps] steps show ?thesis by (metis (no_types, lifting))
qed

text \<open>
  Without that discipline the stream breaks, in every state: two clients that both queue their range before either moves the start queue the same range twice, and a
  client that moves the write pointer while another one is between its halves makes the next range start behind bytes that no range covers.
\<close>

lemma doorbells_repeat_or_skip:
  fixes s w w'
  defines "q \<equiv> sr_queue s"
  shows "\<exists>s'. (sdma_step se False)\<^sup>*\<^sup>* s s' \<and> sr_ringing s' = sr_ringing s \<and>
      sd_wptr_queue (sr_queue s') = sd_wptr_queue q @ [(sd_wptr_pre q, w), (sd_wptr_pre q, w)]"
    and "\<exists>s'. (sdma_step se False)\<^sup>*\<^sup>* s s' \<and> sr_ringing s' = sr_ringing s \<and>
      sd_wptr_queue (sr_queue s') = sd_wptr_queue q @ [(sd_wptr_pre q, w)] \<and> sd_wptr_pre (sr_queue s') = w'"
proof -
  let ?wr = "\<lambda>w t. t\<lparr>sr_queue := (sr_queue t)\<lparr>sd_ring := sd_ring (sr_queue t), sd_wptr_next := w\<rparr>\<rparr>"
  let ?pub = "\<lambda>t. t\<lparr>sr_queue := doorbell_publish (sr_queue t), sr_ringing := Suc (sr_ringing t)\<rparr>"
  let ?adv = "\<lambda>t. t\<lparr>sr_queue := doorbell_advance (sr_queue t), sr_ringing := sr_ringing t - 1\<rparr>"
  have st: "sdma_step se False t (?wr v t)" "sdma_step se False t (?pub t)" for t v
    by (rule client_write client_publish; simp)+
  have ad: "sdma_step se False t (?adv t)" if "sr_ringing t \<noteq> 0" for t
    using client_advance [of t "sr_ringing t - 1" se False] that by simp
  note d = doorbell_advance_def doorbell_publish_def q_def
  have one: "(sdma_step se False)\<^sup>*\<^sup>* s (?pub (?wr w s))" using st by (meson rtranclp.intros)
  have "sdma_step se False (?pub (?pub (?wr w s))) (?adv (?pub (?pub (?wr w s))))"
    "sdma_step se False (?adv (?pub (?pub (?wr w s)))) (?adv (?adv (?pub (?pub (?wr w s)))))" by (rule ad, simp)+
  with one st(2) have "(sdma_step se False)\<^sup>*\<^sup>* s (?adv (?adv (?pub (?pub (?wr w s)))))" by (meson rtranclp.intros)
  then show "\<exists>s'. (sdma_step se False)\<^sup>*\<^sup>* s s' \<and> sr_ringing s' = sr_ringing s \<and>
      sd_wptr_queue (sr_queue s') = sd_wptr_queue q @ [(sd_wptr_pre q, w), (sd_wptr_pre q, w)]"
    by (intro exI [of _ "?adv (?adv (?pub (?pub (?wr w s))))"] conjI) (simp_all add: d)
  have "sdma_step se False (?wr w' (?pub (?wr w s))) (?adv (?wr w' (?pub (?wr w s))))" by (rule ad) simp
  with one st(1) have "(sdma_step se False)\<^sup>*\<^sup>* s (?adv (?wr w' (?pub (?wr w s))))" by (meson rtranclp.intros)
  then show "\<exists>s'. (sdma_step se False)\<^sup>*\<^sup>* s s' \<and> sr_ringing s' = sr_ringing s \<and>
      sd_wptr_queue (sr_queue s') = sd_wptr_queue q @ [(sd_wptr_pre q, w)] \<and> sd_wptr_pre (sr_queue s') = w'"
    by (intro exI [of _ "?adv (?wr w' (?pub (?wr w s)))"] conjI) (simp_all add: d)
qed

text \<open>
  The loop over the poll packets reads past the ring: if the last packet of the ring polls a signal and the thread comes to it, it looks
  at the packet behind it, which is outside the ring, whatever the signals are.
\<close>

lemma sdma_poll_past_ring:
  assumes "i + 6 = length ring" "IsPollPacket (ring ! i)"
  shows "sdma_poll wait i ring = Inl (Out_Of_Bounds ''SdmaThread'')"
  using assms by (subst sdma_poll.simps) (simp add: poll_target_def sizeof_POLL_REGMEM_def Let_def)

end
