(* ===== verification/Queues.thy ===== *)
theory Queues
  imports Queue_Lifecycle Sdma_Queue
begin

text \<open>
  The queue functions of the interface, from \<^verbatim>\<open>src/src/queues.cpp\<close>. A queue identifier is the address of the queue object: here the
  number of the object, with 0 for the null pointer. A pointer that the interface gives out is an address of the client or one
  to a member of a queue object.
\<close>

section \<open>State\<close>

datatype queue_obj = Compute_Obj compute_object | Sdma_Obj sdma_object

datatype queue_ptr = Addr u64 | Doorbell_of nat | Wptr_of nat

record HsaQueueResource =
  QueueId :: nat
  Queue_DoorBell :: queue_ptr
  Queue_write_ptr :: queue_ptr
  Queue_read_ptr :: queue_ptr
  ErrorReason :: u64

datatype HSA_QUEUE_TYPE =
    HSA_QUEUE_COMPUTE | HSA_QUEUE_SDMA | HSA_QUEUE_MULTIMEDIA_DECODE | HSA_QUEUE_MULTIMEDIA_ENCODE
  | HSA_QUEUE_SDMA_XGMI | HSA_QUEUE_SDMA_BY_ENG_ID | HSA_QUEUE_COMPUTE_OS | HSA_QUEUE_SDMA_OS
  | HSA_QUEUE_MULTIMEDIA_DECODE_OS | HSA_QUEUE_MULTIMEDIA_ENCODE_OS | HSA_QUEUE_COMPUTE_AQL
  | HSA_QUEUE_DMA_AQL | HSA_QUEUE_DMA_AQL_XGMI

definition HSA_QUEUE_PRIORITY_MINIMUM :: int where "HSA_QUEUE_PRIORITY_MINIMUM = -3"
definition HSA_QUEUE_PRIORITY_MAXIMUM :: int where "HSA_QUEUE_PRIORITY_MAXIMUM = 3"

record queue_state =
  qs_mem :: mem_state
  qs_queues :: "nat \<rightharpoonup> queue_obj"
  qs_next :: nat

text \<open>What the functions run against: that of the memory functions, and the engines of each device.\<close>

record queues_env =
  qe_mem :: mem_env
  qe_engines :: "nat \<Rightarrow> engines"

definition HSA_GET_GFX_VERSION_FULL :: "u32 \<Rightarrow> u32 \<Rightarrow> u32 \<Rightarrow> u32" where
  "HSA_GET_GFX_VERSION_FULL major minor stepping = push_bit 16 major OR push_bit 8 minor OR stepping"

definition get_vgpr_size_per_cu :: "u32 \<Rightarrow> u32 \<Rightarrow> u32 \<Rightarrow> u32" where
  "get_vgpr_size_per_cu major minor stepping =
     (if HSA_GET_GFX_VERSION_FULL major minor stepping \<in> {0x1100, 0x1101, 0x1151, 0x1200, 0x1201} then 0x60000 else 0x40000)"

section \<open>Creation\<close>

definition GetSdmaEngine :: "engines \<Rightarrow> u32 \<Rightarrow> u32 res" where
  "GetSdmaEngine en idx = bindE (assertE ''GetSdmaEngine'' (idx < eng_num_sdma en)) (\<lambda>_. Inr (eng_sdma en idx))"

definition add_queue :: "queue_obj \<Rightarrow> mem_state \<Rightarrow> queue_state \<Rightarrow> queue_state" where
  "add_queue q st qs = qs\<lparr>qs_mem := st, qs_queues := (qs_queues qs)(qs_next qs \<mapsto> q), qs_next := Suc (qs_next qs)\<rparr>"

definition ptr_value :: "queue_ptr \<Rightarrow> u64" where
  "ptr_value p = (case p of Addr a \<Rightarrow> a | _ \<Rightarrow> 0)"

definition create_compute :: "queues_env \<Rightarrow> nat \<Rightarrow> u64 \<Rightarrow> u64 \<Rightarrow> HsaQueueResource \<Rightarrow> mem_state \<Rightarrow> queue_state \<Rightarrow>
    (HsaQueueResource \<times> queue_state) res" where
  "create_compute qe i QueueAddress QueueSizeInBytes res st qs =
     bindE (assertE ''hsaKmtCreateQueueV2'' (ErrorReason res = 0)) (\<lambda>_.
     let en = qe_engines qe i; d = ms_devs st ! i; engine = eng_compute en;
         q = new_compute_object i d QueueAddress (QueueSizeInBytes div 64) (ptr_value (Queue_write_ptr res)) (ptr_value (Queue_read_ptr res))
               (ErrorReason res) (dev_cmdbuf_size d) engine (eng_hws en engine)
     in bindE (ComputeQueue_ctor (qe_mem qe) en q st) (\<lambda>(q, st).
          Inr (res\<lparr>QueueId := qs_next qs, Queue_DoorBell := Doorbell_of (qs_next qs)\<rparr>, add_queue (Compute_Obj q) st qs)))"

definition create_sdma :: "queues_env \<Rightarrow> nat \<Rightarrow> u64 \<Rightarrow> u64 \<Rightarrow> HsaQueueResource \<Rightarrow> mem_state \<Rightarrow> queue_state \<Rightarrow>
    (HsaQueueResource \<times> queue_state) res" where
  "create_sdma qe i QueueAddress QueueSizeInBytes res st qs =
     (let en = qe_engines qe i in
      bindE (GetSdmaEngine en 0) (\<lambda>engine.
      bindE (SDMAQueue_ctor (qe_mem qe) en (new_sdma_object i QueueAddress QueueSizeInBytes engine (eng_hws en engine)) st) (\<lambda>(q, st).
        Inr (res\<lparr>QueueId := qs_next qs, Queue_DoorBell := Doorbell_of (qs_next qs), Queue_write_ptr := Wptr_of (qs_next qs),
                 Queue_read_ptr := Addr (wq_sync_addr q)\<rparr>, add_queue (Sdma_Obj q) st qs))))"

definition hsaKmtCreateQueueV2 :: "queues_env \<Rightarrow> u32 \<Rightarrow> HSA_QUEUE_TYPE \<Rightarrow> int \<Rightarrow> u64 \<Rightarrow> u64 \<Rightarrow> u64 \<Rightarrow> bool \<Rightarrow> HsaQueueResource \<Rightarrow>
    queue_state \<Rightarrow> (HSAKMT_STATUS \<times> HsaQueueResource \<times> queue_state) res" where
  "hsaKmtCreateQueueV2 qe NodeId ty Priority QueueAddress QueueSizeInBytes MetaDataPrefetchSizeInBytes has_event res qs =
     (if \<not> dxg_open (qs_mem qs) then Inr (HSAKMT_STATUS_KERNEL_IO_CHANNEL_NOT_OPENED, res, qs)
      else bindE (assertE ''hsaKmtCreateQueueV2'' (\<not> has_event)) (\<lambda>_.
      if Priority < HSA_QUEUE_PRIORITY_MINIMUM \<or> Priority > HSA_QUEUE_PRIORITY_MAXIMUM then Inr (HSAKMT_STATUS_INVALID_PARAMETER, res, qs)
      else if MetaDataPrefetchSizeInBytes \<noteq> 0 then Inr (HSAKMT_STATUS_INVALID_PARAMETER, res, qs)
      else bindE (get_wddmdev (qs_mem qs) NodeId) (\<lambda>dev.
      case dev of
        None \<Rightarrow> Inl (Assert_Failed ''hsaKmtCreateQueueV2'')
      | Some i \<Rightarrow>
          bindE (queue_acquire_buffer QueueAddress (qs_mem qs)) (\<lambda>(ok, st).
          if \<not> ok then Inr (HSAKMT_STATUS_INVALID_PARAMETER, res, qs\<lparr>qs_mem := st\<rparr>)
          else bindE
            (case ty of
               HSA_QUEUE_COMPUTE_AQL \<Rightarrow> create_compute qe i QueueAddress QueueSizeInBytes res st qs
             | HSA_QUEUE_SDMA \<Rightarrow> create_sdma qe i QueueAddress QueueSizeInBytes res st qs
             | HSA_QUEUE_SDMA_BY_ENG_ID \<Rightarrow> create_sdma qe i QueueAddress QueueSizeInBytes res st qs
             | _ \<Rightarrow> Inl (Assert_Failed ''hsaKmtCreateQueueV2''))
            (\<lambda>(res, qs). Inr (HSAKMT_STATUS_SUCCESS, res, qs))))))"

definition hsaKmtCreateQueueExt :: "queues_env \<Rightarrow> u32 \<Rightarrow> HSA_QUEUE_TYPE \<Rightarrow> int \<Rightarrow> u64 \<Rightarrow> u64 \<Rightarrow> bool \<Rightarrow> HsaQueueResource \<Rightarrow>
    queue_state \<Rightarrow> (HSAKMT_STATUS \<times> HsaQueueResource \<times> queue_state) res" where
  "hsaKmtCreateQueueExt qe NodeId ty Priority QueueAddress QueueSizeInBytes has_event res qs =
     hsaKmtCreateQueueV2 qe NodeId ty Priority QueueAddress QueueSizeInBytes 0 has_event res qs"

definition hsaKmtCreateQueue :: "queues_env \<Rightarrow> u32 \<Rightarrow> HSA_QUEUE_TYPE \<Rightarrow> int \<Rightarrow> u64 \<Rightarrow> u64 \<Rightarrow> bool \<Rightarrow> HsaQueueResource \<Rightarrow>
    queue_state \<Rightarrow> (HSAKMT_STATUS \<times> HsaQueueResource \<times> queue_state) res" where
  "hsaKmtCreateQueue qe NodeId ty Priority QueueAddress QueueSizeInBytes has_event res qs =
     (if ty = HSA_QUEUE_SDMA_BY_ENG_ID then Inr (HSAKMT_STATUS_ERROR, res, qs)
      else hsaKmtCreateQueueExt qe NodeId ty Priority QueueAddress QueueSizeInBytes has_event res qs)"

section \<open>Operations on a queue\<close>

definition the_queue :: "nat \<Rightarrow> queue_state \<Rightarrow> queue_obj res" where
  "the_queue qid qs =
     (if qid = 0 then Inl (Null_Deref ''WDDMQueue'')
      else case qs_queues qs qid of None \<Rightarrow> Inl (Use_After_Free ''WDDMQueue'') | Some q \<Rightarrow> Inr q)"

definition GetHsaQueueAddr :: "queue_obj \<Rightarrow> u64" where
  "GetHsaQueueAddr q = (case q of Compute_Obj c \<Rightarrow> co_ring c | Sdma_Obj s \<Rightarrow> wq_cmdbuf_addr s)"

definition delete_queue :: "mem_env \<Rightarrow> queue_obj \<Rightarrow> mem_state \<Rightarrow> mem_state res" where
  "delete_queue me q st = (case q of Compute_Obj c \<Rightarrow> ComputeQueue_dtor me c st | Sdma_Obj s \<Rightarrow> SDMAQueue_dtor me s st)"

text \<open>The address of the ring is read from the object before the identifier is compared with null.\<close>

definition hsaKmtDestroyQueue :: "queues_env \<Rightarrow> nat \<Rightarrow> queue_state \<Rightarrow> (HSAKMT_STATUS \<times> queue_state) res" where
  "hsaKmtDestroyQueue qe qid qs =
     (if \<not> dxg_open (qs_mem qs) then Inr (HSAKMT_STATUS_KERNEL_IO_CHANNEL_NOT_OPENED, qs)
      else bindE (the_queue qid qs) (\<lambda>q.
      let QueueAddress = GetHsaQueueAddr q in
      if qid = 0 then Inr (HSAKMT_STATUS_INVALID_PARAMETER, qs)
      else bindE (delete_queue (qe_mem qe) q (qs_mem qs)) (\<lambda>st.
           bindE (queue_release_buffer QueueAddress st) (\<lambda>(_, st).
             Inr (HSAKMT_STATUS_SUCCESS, qs\<lparr>qs_mem := st, qs_queues := (qs_queues qs)(qid := None)\<rparr>)))))"

definition hsaKmtUpdateQueue :: "nat \<Rightarrow> int \<Rightarrow> queue_state \<Rightarrow> HSAKMT_STATUS" where
  "hsaKmtUpdateQueue qid Priority qs =
     (if \<not> dxg_open (qs_mem qs) then HSAKMT_STATUS_KERNEL_IO_CHANNEL_NOT_OPENED
      else if Priority < HSA_QUEUE_PRIORITY_MINIMUM \<or> Priority > HSA_QUEUE_PRIORITY_MAXIMUM then HSAKMT_STATUS_INVALID_PARAMETER
      else if qid = 0 then HSAKMT_STATUS_INVALID_PARAMETER else HSAKMT_STATUS_SUCCESS)"

definition hsaKmtSetQueueCUMask :: "nat \<Rightarrow> u32 \<Rightarrow> bool \<Rightarrow> queue_state \<Rightarrow> HSAKMT_STATUS" where
  "hsaKmtSetQueueCUMask qid CUMaskCount has_mask qs =
     (if \<not> dxg_open (qs_mem qs) then HSAKMT_STATUS_KERNEL_IO_CHANNEL_NOT_OPENED
      else if qid = 0 then HSAKMT_STATUS_INVALID_PARAMETER
      else if CUMaskCount = 0 \<or> \<not> has_mask \<or> CUMaskCount mod 32 \<noteq> 0 then HSAKMT_STATUS_INVALID_PARAMETER
      else HSAKMT_STATUS_SUCCESS)"

definition hsaKmtGetQueueInfo :: "bool \<Rightarrow> queue_state \<Rightarrow> HSAKMT_STATUS res" where
  "hsaKmtGetQueueInfo has_info qs =
     (if \<not> dxg_open (qs_mem qs) then Inr HSAKMT_STATUS_KERNEL_IO_CHANNEL_NOT_OPENED
      else if \<not> has_info then Inr HSAKMT_STATUS_INVALID_PARAMETER else Inl (Assert_Failed ''hsaKmtGetQueueInfo''))"

definition hsaKmtSetTrapHandler :: "queue_state \<Rightarrow> HSAKMT_STATUS" where
  "hsaKmtSetTrapHandler qs =
     (if \<not> dxg_open (qs_mem qs) then HSAKMT_STATUS_KERNEL_IO_CHANNEL_NOT_OPENED else HSAKMT_STATUS_SUCCESS)"

definition hsaKmtAllocQueueGWS :: "nat \<Rightarrow> queue_state \<Rightarrow> HSAKMT_STATUS res" where
  "hsaKmtAllocQueueGWS qid qs =
     (if \<not> dxg_open (qs_mem qs) then Inr HSAKMT_STATUS_KERNEL_IO_CHANNEL_NOT_OPENED
      else if qid = 0 then Inr HSAKMT_STATUS_INVALID_PARAMETER else Inl (Assert_Failed ''hsaKmtAllocQueueGWS''))"

text \<open>The doorbell of a compute queue only wakes its thread; that of an SDMA queue also queues a range.\<close>

definition queue_RingDoorbell :: "queue_obj \<Rightarrow> queue_obj" where
  "queue_RingDoorbell q = (case q of Compute_Obj c \<Rightarrow> Compute_Obj c | Sdma_Obj s \<Rightarrow> Sdma_Obj (SDMAQueue_RingDoorbell s))"

definition hsaKmtQueueRingDoorbell :: "nat \<Rightarrow> queue_state \<Rightarrow> (HSAKMT_STATUS \<times> queue_state) res" where
  "hsaKmtQueueRingDoorbell qid qs =
     (if \<not> dxg_open (qs_mem qs) then Inr (HSAKMT_STATUS_KERNEL_IO_CHANNEL_NOT_OPENED, qs)
      else if qid = 0 then Inr (HSAKMT_STATUS_INVALID_PARAMETER, qs)
      else bindE (the_queue qid qs) (\<lambda>q.
        Inr (HSAKMT_STATUS_SUCCESS, qs\<lparr>qs_queues := (qs_queues qs)(qid \<mapsto> queue_RingDoorbell q)\<rparr>)))"

section \<open>Footprints of several queues\<close>

lemma without_obj_others:
  assumes "obj_held (without_obj x F) h" and "fp_objs F x \<noteq> None"
  shows "obj_held F h \<and> h \<noteq> x \<and> obj_apart F h x \<and> obj_apart F x h"
proof -
  obtain i m where m: "fp_objs F x = Some (i, m)" using assms(2) by auto
  from assms(1) obtain j n g where n: "h \<noteq> x" "fp_objs F h = Some (j, n)" "mem_fd n = -1" "gm_handle_ape_addr n = 0"
    "fp_ranges (without_obj x F) (gm_domain n) (gm_gpu_addr n) = Some (gm_size n)" "g \<in> fp_allocs (without_obj x F)" "owns n g"
    unfolding obj_held_def by (auto split: if_splits)
  have r: "fp_ranges F (gm_domain n) (gm_gpu_addr n) = Some (gm_size n)" "same_heap (gm_domain n) (gm_domain m) \<Longrightarrow> gm_gpu_addr n \<noteq> gm_gpu_addr m"
    using n(5) m by (auto simp: without_obj_def split: if_splits)
  have a: "g \<in> fp_allocs F" "\<not> owns m g" using n(6) m by (auto simp: without_obj_def)
  then have "\<not> (owns m x \<and> owns n x)" for x using owns_unique n(7) by metis
  then have "obj_apart F h x" "obj_apart F x h" using m n(2) r(2) unfolding obj_apart_def by (auto simp: same_heap_def)
  moreover have "obj_held F h" unfolding obj_held_def using n r(1) a(1) by (intro exI [of _ j] exI [of _ n] conjI bexI [of _ g])
  ultimately show ?thesis using n(1) by blast
qed

lemma obj_apart_without: "obj_apart (without_obj x F) h k \<Longrightarrow> h \<noteq> x \<Longrightarrow> k \<noteq> x \<Longrightarrow> obj_apart F h k"
  by (simp add: obj_apart_def)

lemma release_objs_others:
  "obj_held (release_objs hs F) h \<Longrightarrow> held_list F hs \<Longrightarrow>
   obj_held F h \<and> h \<notin> set hs \<and> (\<forall>x\<in>set hs. obj_apart F h x \<and> obj_apart F x h)"
proof (induction hs arbitrary: F)
  case (Cons x hs)
  have "fp_objs F x \<noteq> None" using Cons.prems(2) by (auto simp: held_list_def obj_held_def)
  moreover from Cons.IH [OF _ held_list_tl [OF Cons.prems(2)]] Cons.prems(1)
  have ih: "obj_held (without_obj x F) h" "h \<notin> set hs" "\<forall>y\<in>set hs. obj_apart (without_obj x F) h y \<and> obj_apart (without_obj x F) y h" by auto
  ultimately have b: "obj_held F h" "h \<noteq> x" "obj_apart F h x" "obj_apart F x h" using without_obj_others by blast+
  have "x \<notin> set hs" using Cons.prems(2) by (simp add: held_list_def)
  then have "\<forall>y\<in>set hs. obj_apart F h y \<and> obj_apart F y h" using ih(3) b(2) obj_apart_without by metis
  with b ih(2) show ?case by simp
qed simp

lemma obj_held_without_kobjs [simp]: "obj_held (without_kobjs K F) h = obj_held F h" "obj_apart (without_kobjs K F) h k = obj_apart F h k"
  by (simp_all add: obj_held_def obj_apart_def without_kobjs_def)

lemma release_objs_keeps:
  "held_list F hs \<Longrightarrow> obj_held F h \<Longrightarrow> h \<notin> set hs \<Longrightarrow> \<forall>x\<in>set hs. obj_apart F x h \<Longrightarrow> obj_held (release_objs hs F) h"
proof (induction hs arbitrary: F)
  case (Cons x hs)
  have x: "obj_held F x" "x \<notin> set hs" using Cons.prems(1) by (simp_all add: held_list_def)
  have "obj_held (without_obj x F) h" using obj_held_without [of F h x] Cons.prems x(1) by auto
  moreover have "\<forall>y\<in>set hs. obj_apart (without_obj x F) y h" using Cons.prems(4) by (auto simp: obj_apart_def)
  ultimately show ?case using Cons.IH [OF held_list_tl [OF Cons.prems(1)]] Cons.prems(3) by simp
qed simp

lemma fp_objs_release: "fp_objs (release_objs hs F) h = (if h \<in> set hs then None else fp_objs F h)"
  by (induction hs arbitrary: F) simp_all

lemma fp_objs_footprint:
  assumes "footprint st = without_kobjs K (release_objs hs (footprint st'))"
  shows "ms_objs st x = (if x \<in> set hs then None else ms_objs st' x)"
proof -
  have "fp_objs (footprint st) x = (if x \<in> set hs then None else fp_objs (footprint st') x)"
    by (simp add: assms fp_objs_release without_kobjs_def)
  then show ?thesis by (simp add: footprint_def)
qed

lemma fp_kobjs_release_objs [simp]: "fp_kobjs (release_objs hs F) = fp_kobjs F"
  by (induction hs arbitrary: F) simp_all

lemma fp_release [simp]:
  "fp_objs (release q hs F) = fp_objs (release_objs hs F)" "fp_kobjs (release q hs F) = fp_kobjs F - queue_kobjs q"
  "obj_held (release q hs F) h = obj_held (release_objs hs F) h"
  by (simp_all add: release_def without_kobjs_def [of _ "release_objs hs F"] obj_held_def)

lemma obj_apart_objs: "fp_objs F' h = fp_objs F h \<Longrightarrow> fp_objs F' k = fp_objs F k \<Longrightarrow> obj_apart F' h k = obj_apart F h k"
  by (simp add: obj_apart_def)

section \<open>The table of queues\<close>

definition queue_objs :: "queue_obj \<Rightarrow> nat list" where
  "queue_objs q = (case q of Compute_Obj c \<Rightarrow> compute_objs c | Sdma_Obj s \<Rightarrow> opt_list (wq_cmdbuf s))"

definition obj_kobjs :: "queue_obj \<Rightarrow> kobj set" where
  "obj_kobjs q = (case q of Compute_Obj c \<Rightarrow> queue_kobjs c | Sdma_Obj s \<Rightarrow> queue_kobjs s)"

text \<open>What one queue holds, and that two queues hold different things.\<close>

definition entry_wf :: "footprint \<Rightarrow> queue_obj \<Rightarrow> bool" where
  "entry_wf F q \<longleftrightarrow> obj_kobjs q \<subseteq> fp_kobjs F \<and> held_list F (queue_objs q)"

definition entries_apart :: "footprint \<Rightarrow> queue_obj \<Rightarrow> queue_obj \<Rightarrow> bool" where
  "entries_apart F q q' \<longleftrightarrow> obj_kobjs q \<inter> obj_kobjs q' = {} \<and> set (queue_objs q) \<inter> set (queue_objs q') = {} \<and>
     (\<forall>h\<in>set (queue_objs q). \<forall>k\<in>set (queue_objs q'). obj_apart F h k \<and> obj_apart F k h)"

definition table_wf :: "footprint \<Rightarrow> (nat \<rightharpoonup> queue_obj) \<Rightarrow> nat \<Rightarrow> bool" where
  "table_wf F T n \<longleftrightarrow> 0 < n \<and> (\<forall>i q. T i = Some q \<longrightarrow> 0 < i \<and> i < n \<and> entry_wf F q) \<and>
     (\<forall>i j q q'. T i = Some q \<longrightarrow> T j = Some q' \<longrightarrow> i \<noteq> j \<longrightarrow> entries_apart F q q')"

text \<open>A new queue, and the removal of one, seen from the others.\<close>

lemma entry_kept:
  assumes "entry_wf F q" and new: "held_list F' hs" "obj_kobjs q \<inter> K = {}" and F: "without_kobjs K (release_objs hs F') = F"
  shows "entry_wf F' q" and "set (queue_objs q) \<inter> set hs = {}" and "\<forall>h\<in>set (queue_objs q). \<forall>k\<in>set hs. obj_apart F' h k \<and> obj_apart F' k h"
proof -
  have h: "obj_held F h" if "h \<in> set (queue_objs q)" for h using assms(1) that by (simp add: entry_wf_def held_list_def)
  then have "obj_held (release_objs hs F') h" if "h \<in> set (queue_objs q)" for h using that by (simp flip: F)
  then have o: "obj_held F' h \<and> h \<notin> set hs \<and> (\<forall>x\<in>set hs. obj_apart F' h x \<and> obj_apart F' x h)" if "h \<in> set (queue_objs q)" for h
    using release_objs_others [OF _ new(1)] that by blast
  then show "set (queue_objs q) \<inter> set hs = {}" "\<forall>h\<in>set (queue_objs q). \<forall>k\<in>set hs. obj_apart F' h k \<and> obj_apart F' k h" by blast+
  have "obj_apart F' h k = obj_apart F h k" if "h \<in> set (queue_objs q)" "k \<in> set (queue_objs q)" for h k
  proof -
    have "fp_objs F x = fp_objs F' x" if "x \<in> set (queue_objs q)" for x using o [OF that] by (simp add: fp_objs_release without_kobjs_def flip: F)
    with that show ?thesis by (simp add: obj_apart_def)
  qed
  then have "held_list F' (queue_objs q)" using assms(1) o by (simp add: entry_wf_def held_list_def)
  moreover have "obj_kobjs q \<subseteq> fp_kobjs F'" using assms(1) by (auto simp: entry_wf_def without_kobjs_def simp flip: F)
  ultimately show "entry_wf F' q" by (simp add: entry_wf_def)
qed

lemma table_add:
  assumes T: "table_wf F T n" and q: "entry_wf F' q" and F: "without_kobjs (obj_kobjs q) (release_objs (queue_objs q) F') = F"
  shows "table_wf F' (T(n \<mapsto> q)) (Suc n)"
proof -
  have h: "held_list F' (queue_objs q)" using q by (simp add: entry_wf_def)
  have old: "entry_wf F p" "obj_kobjs p \<inter> obj_kobjs q = {}" "0 < i" "i < n" if "T i = Some p" for i p
  proof -
    show "entry_wf F p" "0 < i" "i < n" using T that by (auto simp: table_wf_def)
    then have "obj_kobjs p \<subseteq> fp_kobjs F" by (simp add: entry_wf_def)
    then show "obj_kobjs p \<inter> obj_kobjs q = {}" unfolding F [symmetric] by (auto simp: without_kobjs_def)
  qed
  note kept = entry_kept [OF old(1) h old(2) F]
  have new: "entries_apart F' p q" "entries_apart F' q p" if "T i = Some p" for i p
    using kept(2,3) [OF that that] old(2) [OF that] unfolding entries_apart_def by blast+
  have "entries_apart F' p p'" if "T i = Some p" "T j = Some p'" "i \<noteq> j" for i j p p'
  proof -
    have "entries_apart F p p'" using T that by (simp add: table_wf_def)
    moreover have "fp_objs F x = fp_objs F' x" if "x \<notin> set (queue_objs q)" for x using that by (simp add: fp_objs_release without_kobjs_def flip: F)
    ultimately show ?thesis using kept(2) [OF that(1,1)] kept(2) [OF that(2,2)]
      unfolding entries_apart_def using obj_apart_objs [of F' _ F] by (metis disjoint_iff)
  qed
  with new kept(1) old(3,4) q T show ?thesis by (auto simp: table_wf_def less_Suc_eq)
qed

lemma table_remove:
  assumes T: "table_wf F T n" and q: "T i = Some q"
  shows "table_wf (without_kobjs (obj_kobjs q) (release_objs (queue_objs q) F)) (T(i := None)) n"
proof -
  let ?F = "without_kobjs (obj_kobjs q) (release_objs (queue_objs q) F)"
  have h: "held_list F (queue_objs q)" using T q by (auto simp: table_wf_def entry_wf_def)
  have ap: "entries_apart F q p" "entry_wf F p" if "T j = Some p" "j \<noteq> i" for j p using T q that by (auto simp: table_wf_def)
  have same: "fp_objs ?F x = fp_objs F x" if "x \<notin> set (queue_objs q)" for x using that by (simp add: fp_objs_release without_kobjs_def)
  have out: "x \<notin> set (queue_objs q)" if "T j = Some p" "j \<noteq> i" "x \<in> set (queue_objs p)" for j p x
    using ap(1) [OF that(1,2)] that(3) by (auto simp: entries_apart_def)
  have "entry_wf ?F p" if p: "T j = Some p" "j \<noteq> i" for j p
  proof -
    have "obj_held ?F x" if x: "x \<in> set (queue_objs p)" for x
    proof -
      have "obj_held F x" using ap(2) [OF p] x by (simp add: entry_wf_def held_list_def)
      moreover have "\<forall>y\<in>set (queue_objs q). obj_apart F y x" using ap(1) [OF p] x by (simp add: entries_apart_def)
      ultimately show ?thesis using release_objs_keeps [OF h] out [OF p x] by simp
    qed
    moreover have "obj_apart ?F x y" if "x \<in> set (queue_objs p)" "y \<in> set (queue_objs p)" "x \<noteq> y" for x y
      using ap(2) [OF p] that same out [OF p] obj_apart_objs [of ?F x F y] by (simp add: entry_wf_def held_list_def)
    moreover have "obj_kobjs p \<subseteq> fp_kobjs ?F" using ap [OF p] by (auto simp: entry_wf_def entries_apart_def without_kobjs_def)
    ultimately show ?thesis using ap(2) [OF p] by (simp add: entry_wf_def held_list_def)
  qed
  moreover have "entries_apart ?F p p'" if "T j = Some p" "T k = Some p'" "j \<noteq> k" "j \<noteq> i" "k \<noteq> i" for j k p p'
  proof -
    have "entries_apart F p p'" using T that by (simp add: table_wf_def)
    then show ?thesis using same out [OF that(1,4)] out [OF that(2,5)] obj_apart_objs [of ?F _ F] unfolding entries_apart_def by metis
  qed
  ultimately show ?thesis using T by (auto simp: table_wf_def)
qed

text \<open>The reference of a queue to the memory of its ring is a flag of the object and does not change what it owns.\<close>

lemma table_reference:
  assumes T: "table_wf (footprint st) T n" and o: "ms_objs st hn = Some (i, m)"
    and f: "f = GetQueueReference \<or> f = PutQueueReference"
  shows "table_wf (footprint (set_obj hn (f m) st)) T n"
proof -
  let ?F = "footprint st" and ?G = "footprint (set_obj hn (f m) st)"
  have m: "mem_fd (f m) = mem_fd m" "gm_handle_ape_addr (f m) = gm_handle_ape_addr m" "gm_domain (f m) = gm_domain m"
    "gm_gpu_addr (f m) = gm_gpu_addr m" "gm_size (f m) = gm_size m" "owns (f m) = owns m"
    using f by (auto simp: GetQueueReference_def PutQueueReference_def owns_def fun_eq_iff)
  have G: "?G = ?F\<lparr>fp_objs := (fp_objs ?F)(hn \<mapsto> (i, f m))\<rparr>" and oF: "fp_objs ?F hn = Some (i, m)"
    using o by (simp_all add: footprint_def set_obj_def)
  have "obj_held ?G h = obj_held ?F h" for h unfolding G obj_held_def using oF m by (cases "h = hn") auto
  moreover have "obj_apart ?G h k = obj_apart ?F h k" for h k unfolding G obj_apart_def using oF m
    by (cases "h = hn"; cases "k = hn") simp_all
  moreover have "fp_kobjs ?G = fp_kobjs ?F" by (simp add: G)
  ultimately show ?thesis using T by (simp add: table_wf_def entry_wf_def entries_apart_def held_list_def)
qed

section \<open>The interface keeps the table well-formed\<close>

definition map_wf :: "mem_state \<Rightarrow> (nat \<rightharpoonup> queue_obj) \<Rightarrow> bool" where
  "map_wf st T \<longleftrightarrow> (\<forall>p a. map_of (allocation_map st) p = Some a \<longrightarrow>
     ms_objs st (al_handle a) \<noteq> None \<and> (\<forall>i q. T i = Some q \<longrightarrow> al_handle a \<notin> set (queue_objs q)))"

definition devices_ok :: "mem_state \<Rightarrow> bool" where
  "devices_ok st \<longleftrightarrow> (\<forall>z\<in>set (map dev_cmdbuf_size (ms_devs st)). 0 < z) \<and>
     0 < unat (rt_page_size (ms_rt st)) \<and> unat (rt_page_size (ms_rt st)) \<le> 2 ^ 61"

definition queues_wf :: "queues_env \<Rightarrow> (nat \<times> nat) \<times> (nat \<times> nat) \<Rightarrow> queue_state \<Rightarrow> bool" where
  "queues_wf qe R qs \<longleftrightarrow> queue_base (qe_mem qe) R (qs_mem qs) \<and> devices_ok (qs_mem qs) \<and>
     table_wf (footprint (qs_mem qs)) (qs_queues qs) (qs_next qs) \<and> map_wf (qs_mem qs) (qs_queues qs)"

lemma devices_ok_same: "same_rest st st' \<Longrightarrow> devices_ok st \<Longrightarrow> devices_ok st'"
  unfolding same_rest_def devices_ok_def by metis

lemma queue_base_set_obj:
  assumes "queue_base me R st" and "ms_objs st hn = Some (i, m)"
  shows "queue_base me R (set_obj hn m' st) \<and> same_rest st (set_obj hn m' st)"
proof -
  have "i < length (ms_devs st)" using assms unfolding queue_base_def by blast
  with assms show ?thesis by (auto simp: queue_base_def base_ok_def dxg_open_def set_obj_def same_rest_def)
qed

text \<open>What the two functions on the memory of the ring do.\<close>

lemma buffer_reference:
  assumes wf: "queue_base me R st" "table_wf (footprint st) T n" "map_wf st T"
    and run: "g addr st = (if addr = 0 then Inr (False, st)
      else case map_of (allocation_map st) addr of
        None \<Rightarrow> Inr (True, st)
      | Some a \<Rightarrow> bindE (get_obj (al_handle a) st) (\<lambda>(i, m). Inr (True, set_obj (al_handle a) (f m) st)))"
    and f: "f = GetQueueReference \<or> f = PutQueueReference"
  shows "\<exists>st'. g addr st = Inr (addr \<noteq> 0, st') \<and> queue_base me R st' \<and> same_rest st st' \<and> table_wf (footprint st') T n \<and> map_wf st' T"
proof (cases "addr = 0 \<or> map_of (allocation_map st) addr = None")
  case True
  with run wf show ?thesis by auto
next
  case False
  then obtain a where a: "addr \<noteq> 0" "map_of (allocation_map st) addr = Some a" by auto
  with wf(3) obtain i m where o: "ms_objs st (al_handle a) = Some (i, m)" by (fastforce simp: map_wf_def)
  let ?st = "set_obj (al_handle a) (f m) st"
  have "g addr st = Inr (True, ?st)" using run a o by (simp add: get_obj_def)
  moreover have "map_wf ?st T" using wf(3) o by (auto simp: map_wf_def set_obj_def)
  ultimately show ?thesis using a(1) queue_base_set_obj [OF wf(1) o] table_reference [OF wf(2) o f] by simp
qed

lemma acquire_post:
  assumes "queue_base me R st" "table_wf (footprint st) T n" "map_wf st T"
  shows "\<exists>st'. queue_acquire_buffer addr st = Inr (addr \<noteq> 0, st') \<and> queue_base me R st' \<and> same_rest st st' \<and>
    table_wf (footprint st') T n \<and> map_wf st' T"
  by (rule buffer_reference [where g = queue_acquire_buffer and f = GetQueueReference, OF assms]) (simp_all add: queue_acquire_buffer_def)

lemma release_post:
  assumes "queue_base me R st" "table_wf (footprint st) T n" "map_wf st T"
  shows "\<exists>st'. queue_release_buffer addr st = Inr (addr \<noteq> 0, st') \<and> queue_base me R st' \<and> same_rest st st' \<and>
    table_wf (footprint st') T n \<and> map_wf st' T"
  by (rule buffer_reference [where g = queue_release_buffer and f = PutQueueReference, OF assms]) (simp_all add: queue_release_buffer_def)

text \<open>A constructor that ends in a queue holding what is new.\<close>

lemma queues_wf_add:
  assumes wf: "devices_ok st" "table_wf (footprint st) T n" "map_wf st T"
    and q: "entry_wf (footprint st') q" "without_kobjs (obj_kobjs q) (release_objs (queue_objs q) (footprint st')) = footprint st"
    and st': "queue_base (qe_mem qe) R st'" "same_rest st st'"
    and qs: "qs_queues qs = T" "qs_next qs = n"
  shows "queues_wf qe R (add_queue q st' qs)"
proof -
  note o = fp_objs_footprint [OF q(2) [symmetric]]
  have "map_wf st' (T(n \<mapsto> q))"
    using wf(3) st'(2) o unfolding map_wf_def same_rest_def by (auto split: if_splits)
  then show ?thesis using table_add [OF wf(2) q] devices_ok_same [OF st'(2) wf(1)] st'(1) qs
    by (simp add: queues_wf_def add_queue_def)
qed

lemma create_compute_post:
  assumes wf: "queue_base (qe_mem qe) R st" "devices_ok st" "table_wf (footprint st) (qs_queues qs) (qs_next qs)" "map_wf st (qs_queues qs)"
    and i: "i < length (ms_devs st)"
  shows "case create_compute qe i addr sz r st qs of
      Inl e \<Rightarrow> \<exists>w. e = Assert_Failed w
    | Inr (r', qs') \<Rightarrow> QueueId r' = qs_next qs \<and> queues_wf qe R qs' \<and> (\<exists>q. qs_queues qs' = (qs_queues qs)(qs_next qs \<mapsto> q))"
proof (cases "ErrorReason r = 0")
  case False
  then show ?thesis by (simp add: create_compute_def)
next
  case True
  let ?en = "qe_engines qe i"
  define q where "q = new_compute_object i (ms_devs st ! i) addr (sz div 64) (ptr_value (Queue_write_ptr r)) (ptr_value (Queue_read_ptr r))
    (ErrorReason r) (dev_cmdbuf_size (ms_devs st ! i)) (eng_compute ?en) (eng_hws ?en (eng_compute ?en))"
  have pre: "wq_device q < length (ms_devs st)" "0 < wq_cmdbuf_size q" "wq_cmdbuf q = None" "co_scratch_base q = 0"
    "0 < unat (rt_page_size (ms_rt st))" "unat (rt_page_size (ms_rt st)) \<le> 2 ^ 61"
    using i wf(2) by (auto simp: q_def new_compute_object_def devices_ok_def)
  have run: "create_compute qe i addr sz r st qs = bindE (ComputeQueue_ctor (qe_mem qe) ?en q st) (\<lambda>(q, st).
      Inr (r\<lparr>QueueId := qs_next qs, Queue_DoorBell := Doorbell_of (qs_next qs)\<rparr>, add_queue (Compute_Obj q) st qs))"
    using True by (simp add: create_compute_def q_def Let_def)
  from ComputeQueue_ctor_post [OF wf(1) pre, of ?en] show ?thesis
  proof (elim disjE exE conjE)
    assume "ComputeQueue_ctor (qe_mem qe) ?en q st = Inl (Assert_Failed ''ComputeQueue'')"
    then show ?thesis by (simp add: run)
  next
    fix q' st'
    assume c: "ComputeQueue_ctor (qe_mem qe) ?en q st = Inr (q', st')" "queue_base (qe_mem qe) R st'" "same_rest st st'"
      "holds q' (compute_objs q') (footprint st')" "release q' (compute_objs q') (footprint st') = footprint st"
    have "entry_wf (footprint st') (Compute_Obj q')" "without_kobjs (obj_kobjs (Compute_Obj q')) (release_objs (queue_objs (Compute_Obj q')) (footprint st')) = footprint st"
      using c(4,5) by (simp_all add: entry_wf_def holds_def obj_kobjs_def queue_objs_def release_def)
    from queues_wf_add [OF wf(2-4) this c(2,3) refl refl] c(1) show ?thesis by (auto simp: run add_queue_def)
  qed
qed

lemma queue_kobjs_sdma: "queue_kobjs (q\<lparr>sd_thread := b\<rparr>) = queue_kobjs q" "queue_kobjs (SDMAQueue_RingDoorbell q) = queue_kobjs q"
  by (simp_all add: queue_kobjs_def queue_kobj_def SDMAQueue_RingDoorbell_def doorbell_publish_def doorbell_advance_def)

lemma create_sdma_post:
  assumes wf: "queue_base (qe_mem qe) R st" "devices_ok st" "table_wf (footprint st) (qs_queues qs) (qs_next qs)" "map_wf st (qs_queues qs)"
    and i: "i < length (ms_devs st)" and addr: "addr \<noteq> 0"
  shows "case create_sdma qe i addr sz r st qs of
      Inl e \<Rightarrow> \<exists>w. e = Assert_Failed w
    | Inr (r', qs') \<Rightarrow> QueueId r' = qs_next qs \<and> queues_wf qe R qs' \<and> (\<exists>q. qs_queues qs' = (qs_queues qs)(qs_next qs \<mapsto> q))"
proof (cases "0 < eng_num_sdma (qe_engines qe i)")
  case False
  then show ?thesis by (simp add: create_sdma_def GetSdmaEngine_def Let_def)
next
  case True
  let ?en = "qe_engines qe i" and ?me = "qe_mem qe"
  let ?q = "new_sdma_object i addr sz (eng_sdma ?en 0) (eng_hws ?en (eng_sdma ?en 0))"
  have pre: "wq_device ?q < length (ms_devs st)" "wq_cmdbuf_addr ?q \<noteq> 0 \<or> 0 < wq_cmdbuf_size ?q" "wq_cmdbuf ?q = None"
    using i addr by (simp_all add: new_sdma_object_def)
  from sdma.CreateQueue_post [OF wf(1) pre, of ?en] obtain ok q' st' where
    c: "CreateQueue ?me ?en (SDMAQueue_Init ?me ?en) ?q st = Inr (ok, q', st')" "queue_base ?me R st'" "same_rest st st'"
      "if ok then wq_device q' = wq_device ?q \<and> holds q' (opt_list (wq_cmdbuf q')) (footprint st') \<and>
         release q' (opt_list (wq_cmdbuf q')) (footprint st') = footprint st else footprint st' = footprint st" by blast
  show ?thesis
  proof (cases ok)
    case False
    with c(1) True show ?thesis by (simp add: create_sdma_def GetSdmaEngine_def SDMAQueue_ctor_def Let_def)
  next
    case ok: True
    let ?q' = "q'\<lparr>sd_thread := True\<rparr>"
    have h: "holds q' (opt_list (wq_cmdbuf q')) (footprint st')" "release q' (opt_list (wq_cmdbuf q')) (footprint st') = footprint st"
      using c(4) ok by simp_all
    have "entry_wf (footprint st') (Sdma_Obj ?q')" "without_kobjs (obj_kobjs (Sdma_Obj ?q')) (release_objs (queue_objs (Sdma_Obj ?q')) (footprint st')) = footprint st"
      using h by (simp_all add: entry_wf_def holds_def obj_kobjs_def queue_objs_def release_def queue_kobjs_sdma)
    from queues_wf_add [OF wf(2-4) this c(2,3) refl refl] c(1) ok True show ?thesis
      by (auto simp: create_sdma_def GetSdmaEngine_def SDMAQueue_ctor_def Let_def add_queue_def)
  qed
qed

lemma get_wddmdev_base:
  assumes "base_ok me R st"
  shows "\<exists>dev. get_wddmdev st node = Inr dev \<and> (\<forall>i. dev = Some i \<longrightarrow> i < length (ms_devs st))"
proof -
  have "unat (ms_num_nodes st) \<le> Suc (length (ms_devs st))" using assms by (simp add: base_ok_def)
  moreover have "0 < unat node" if "node \<noteq> 0" using that by (simp add: unat_gt_0)
  ultimately show ?thesis by (auto simp: get_wddmdev_def word_le_nat_alt not_le)
qed

lemma create_post:
  assumes wf: "queues_wf qe R qs"
  shows "case hsaKmtCreateQueueV2 qe node ty prio addr sz meta event r qs of
      Inl e \<Rightarrow> \<exists>w. e = Assert_Failed w
    | Inr (status, r', qs') \<Rightarrow> queues_wf qe R qs' \<and>
        (if status = HSAKMT_STATUS_SUCCESS
         then QueueId r' = qs_next qs \<and> (\<exists>q. qs_queues qs' = (qs_queues qs)(qs_next qs \<mapsto> q)) else qs_queues qs' = qs_queues qs)"
proof -
  have w: "queue_base (qe_mem qe) R (qs_mem qs)" "devices_ok (qs_mem qs)" "table_wf (footprint (qs_mem qs)) (qs_queues qs) (qs_next qs)"
    "map_wf (qs_mem qs) (qs_queues qs)" using wf by (simp_all add: queues_wf_def)
  then have base: "base_ok (qe_mem qe) R (qs_mem qs)" by (simp add: queue_base_def)
  then have op: "dxg_open (qs_mem qs)" by (simp add: base_ok_def)
  from acquire_post [OF w(1,3,4), of addr] obtain st where
    a: "queue_acquire_buffer addr (qs_mem qs) = Inr (addr \<noteq> 0, st)" "queue_base (qe_mem qe) R st" "same_rest (qs_mem qs) st"
      "table_wf (footprint st) (qs_queues qs) (qs_next qs)" "map_wf st (qs_queues qs)" by blast
  have d: "devices_ok st" using devices_ok_same [OF a(3) w(2)] .
  let ?run = "hsaKmtCreateQueueV2 qe node ty prio addr sz meta event r qs"
  consider "event" | "\<not> event" "prio < HSA_QUEUE_PRIORITY_MINIMUM \<or> prio > HSA_QUEUE_PRIORITY_MAXIMUM \<or> meta \<noteq> 0"
    | "\<not> event" "\<not> prio < HSA_QUEUE_PRIORITY_MINIMUM" "\<not> prio > HSA_QUEUE_PRIORITY_MAXIMUM" "meta = 0" by blast
  then show ?thesis
  proof cases
    case 2
    then have "?run = Inr (HSAKMT_STATUS_INVALID_PARAMETER, r, qs)" using op by (auto simp: hsaKmtCreateQueueV2_def)
    with wf show ?thesis by simp
  next
    case 3
    then have run: "?run = bindE (get_wddmdev (qs_mem qs) node) (\<lambda>dev. case dev of
        None \<Rightarrow> Inl (Assert_Failed ''hsaKmtCreateQueueV2'')
      | Some i \<Rightarrow>
          if addr = 0 then Inr (HSAKMT_STATUS_INVALID_PARAMETER, r, qs\<lparr>qs_mem := st\<rparr>)
          else bindE
            (case ty of
               HSA_QUEUE_COMPUTE_AQL \<Rightarrow> create_compute qe i addr sz r st qs
             | HSA_QUEUE_SDMA \<Rightarrow> create_sdma qe i addr sz r st qs
             | HSA_QUEUE_SDMA_BY_ENG_ID \<Rightarrow> create_sdma qe i addr sz r st qs
             | _ \<Rightarrow> Inl (Assert_Failed ''hsaKmtCreateQueueV2''))
            (\<lambda>(res, qs). Inr (HSAKMT_STATUS_SUCCESS, res, qs)))"
      using op a(1) by (simp add: hsaKmtCreateQueueV2_def cong: option.case_cong)
    from get_wddmdev_base [OF base, of node] obtain dev where dev: "get_wddmdev (qs_mem qs) node = Inr dev"
      "\<forall>i. dev = Some i \<longrightarrow> i < length (ms_devs (qs_mem qs))" by blast
    show ?thesis
    proof (cases dev)
      case None
      with dev(1) show ?thesis by (simp add: run)
    next
      case (Some i)
      then have i: "i < length (ms_devs st)" using dev(2) a(3) by (simp add: same_rest_def)
      show ?thesis
      proof (cases "addr = 0")
        case True
        with Some dev(1) have "?run = Inr (HSAKMT_STATUS_INVALID_PARAMETER, r, qs\<lparr>qs_mem := st\<rparr>)" unfolding run by simp
        with a d show ?thesis by (simp add: queues_wf_def)
      next
        case False
        note cp = create_compute_post [OF a(2) d a(4,5) i, of addr sz r] and sp = create_sdma_post [OF a(2) d a(4,5) i False, of sz r]
        let ?m = "case ty of
               HSA_QUEUE_COMPUTE_AQL \<Rightarrow> create_compute qe i addr sz r st qs
             | HSA_QUEUE_SDMA \<Rightarrow> create_sdma qe i addr sz r st qs
             | HSA_QUEUE_SDMA_BY_ENG_ID \<Rightarrow> create_sdma qe i addr sz r st qs
             | _ \<Rightarrow> Inl (Assert_Failed ''hsaKmtCreateQueueV2'')"
        have "case ?m of Inl e \<Rightarrow> \<exists>w. e = Assert_Failed w
          | Inr (r', qs') \<Rightarrow> QueueId r' = qs_next qs \<and> queues_wf qe R qs' \<and> (\<exists>q. qs_queues qs' = (qs_queues qs)(qs_next qs \<mapsto> q))"
          using cp sp by (cases ty) simp_all
        moreover have "?run = bindE ?m (\<lambda>(res, qs). Inr (HSAKMT_STATUS_SUCCESS, res, qs))"
          using False Some dev(1) unfolding run by simp
        ultimately show ?thesis by (cases ?m) auto
      qed
    qed
  qed (use op wf in \<open>simp_all add: hsaKmtCreateQueueV2_def\<close>)
qed

lemma delete_queue_post:
  assumes qb: "queue_base me R st" and q: "entry_wf (footprint st) q"
  shows "\<exists>st'. delete_queue me q st = Inr st' \<and> queue_base me R st' \<and> same_rest st st' \<and>
    footprint st' = without_kobjs (obj_kobjs q) (release_objs (queue_objs q) (footprint st))"
proof (cases q)
  case (Compute_Obj c)
  with q ComputeQueue_dtor_post [OF qb, of c] show ?thesis
    by (simp add: entry_wf_def delete_queue_def queue_objs_def obj_kobjs_def release_def)
next
  case (Sdma_Obj s)
  with q sdma.DestroyQueue_post [OF qb, of s "[]"] show ?thesis
    by (auto simp: entry_wf_def delete_queue_def queue_objs_def obj_kobjs_def release_def SDMAQueue_dtor_def)
qed

lemma destroy_post:
  assumes wf: "queues_wf qe R qs" and q: "qs_queues qs qid = Some q"
  shows "\<exists>qs'. hsaKmtDestroyQueue qe qid qs = Inr (HSAKMT_STATUS_SUCCESS, qs') \<and> queues_wf qe R qs' \<and>
    qs_queues qs' = (qs_queues qs)(qid := None)"
proof -
  let ?me = "qe_mem qe" and ?T = "(qs_queues qs)(qid := None)"
  have w: "queue_base ?me R (qs_mem qs)" "devices_ok (qs_mem qs)" "table_wf (footprint (qs_mem qs)) (qs_queues qs) (qs_next qs)"
    "map_wf (qs_mem qs) (qs_queues qs)" using wf by (simp_all add: queues_wf_def)
  have op: "dxg_open (qs_mem qs)" and id: "qid \<noteq> 0" and e: "entry_wf (footprint (qs_mem qs)) q"
    using w(1,3) q by (auto simp: queue_base_def base_ok_def table_wf_def)
  from delete_queue_post [OF w(1) e] obtain st1 where
    d: "delete_queue ?me q (qs_mem qs) = Inr st1" "queue_base ?me R st1" "same_rest (qs_mem qs) st1"
      "footprint st1 = without_kobjs (obj_kobjs q) (release_objs (queue_objs q) (footprint (qs_mem qs)))" by blast
  have T: "table_wf (footprint st1) ?T (qs_next qs)" using table_remove [OF w(3) q] d(4) by simp
  note o = fp_objs_footprint [OF d(4)]
  have "map_wf st1 ?T" using w(4) d(3) o q unfolding map_wf_def same_rest_def by (auto split: if_splits)
  from release_post [OF d(2) T this, of "GetHsaQueueAddr q"] obtain st2 where
    r: "queue_release_buffer (GetHsaQueueAddr q) st1 = Inr (GetHsaQueueAddr q \<noteq> 0, st2)" "queue_base ?me R st2" "same_rest st1 st2"
      "table_wf (footprint st2) ?T (qs_next qs)" "map_wf st2 ?T" by blast
  have "devices_ok st2" using w(2) d(3) r(3) devices_ok_same by blast
  moreover have "hsaKmtDestroyQueue qe qid qs = Inr (HSAKMT_STATUS_SUCCESS, qs\<lparr>qs_mem := st2, qs_queues := ?T\<rparr>)"
    using op id q d(1) r(1) by (simp add: hsaKmtDestroyQueue_def the_queue_def)
  ultimately show ?thesis using r by (simp add: queues_wf_def)
qed

lemma doorbell_post:
  assumes wf: "queues_wf qe R qs" and q: "qs_queues qs qid = Some q"
  shows "hsaKmtQueueRingDoorbell qid qs = Inr (HSAKMT_STATUS_SUCCESS, qs\<lparr>qs_queues := (qs_queues qs)(qid \<mapsto> queue_RingDoorbell q)\<rparr>) \<and>
    queues_wf qe R (qs\<lparr>qs_queues := (qs_queues qs)(qid \<mapsto> queue_RingDoorbell q)\<rparr>)"
proof -
  let ?q = "queue_RingDoorbell q"
  have same: "queue_objs ?q = queue_objs q" "obj_kobjs ?q = obj_kobjs q"
    by (cases q; simp add: queue_RingDoorbell_def queue_objs_def obj_kobjs_def queue_kobjs_sdma; simp add: SDMAQueue_RingDoorbell_def doorbell_publish_def doorbell_advance_def)+
  have wf': "table_wf (footprint (qs_mem qs)) (qs_queues qs) (qs_next qs)" "map_wf (qs_mem qs) (qs_queues qs)" "dxg_open (qs_mem qs)"
    using wf by (simp_all add: queues_wf_def queue_base_def base_ok_def)
  have "0 < qid" using wf'(1) q by (auto simp: table_wf_def)
  moreover have "table_wf (footprint (qs_mem qs)) ((qs_queues qs)(qid \<mapsto> ?q)) (qs_next qs)"
    using wf'(1) q same unfolding table_wf_def entry_wf_def entries_apart_def by (auto split: if_splits)
  moreover have "map_wf (qs_mem qs) ((qs_queues qs)(qid \<mapsto> ?q))"
    using wf'(2) q same unfolding map_wf_def by (auto split: if_splits)
  ultimately show ?thesis using wf wf'(3) q by (simp add: queues_wf_def hsaKmtQueueRingDoorbell_def the_queue_def)
qed

text \<open>
  C30. The table of queues is well typed at all times. Take a state in which every queue of the table holds a context, a hardware queue or synchronization object and
  memory objects that are all live and that no other queue and no allocation of the client holds. Creating a queue stops at an assertion or keeps
  the state well-formed: it adds one queue under an identifier never used before if it reports success and none otherwise. Destroying
  any queue of the table succeeds, removes exactly that queue and keeps the state well-formed, and so does ringing its doorbell,
  which removes none.
\<close>

theorem queues_wf_preserved:
  assumes "queues_wf qe R qs"
  shows "(case hsaKmtCreateQueueV2 qe node ty prio addr sz meta event r qs of
      Inl e \<Rightarrow> \<exists>w. e = Assert_Failed w
    | Inr (status, r', qs') \<Rightarrow> queues_wf qe R qs' \<and>
        (if status = HSAKMT_STATUS_SUCCESS
         then QueueId r' = qs_next qs \<and> qs_queues qs (QueueId r') = None \<and> (\<exists>q. qs_queues qs' = (qs_queues qs)(QueueId r' \<mapsto> q))
         else qs_queues qs' = qs_queues qs)) \<and>
    (\<forall>qid\<in>dom (qs_queues qs).
      (\<exists>qs'. hsaKmtDestroyQueue qe qid qs = Inr (HSAKMT_STATUS_SUCCESS, qs') \<and> queues_wf qe R qs' \<and>
         qs_queues qs' = (qs_queues qs)(qid := None)) \<and>
      (\<exists>qs'. hsaKmtQueueRingDoorbell qid qs = Inr (HSAKMT_STATUS_SUCCESS, qs') \<and> queues_wf qe R qs' \<and>
         dom (qs_queues qs') = dom (qs_queues qs)))"
proof (intro conjI ballI)
  have "qs_queues qs (qs_next qs) = None"
    using assms by (cases "qs_queues qs (qs_next qs)") (auto simp: queues_wf_def table_wf_def)
  with create_post [OF assms, of node ty prio addr sz meta event r]
  show "case hsaKmtCreateQueueV2 qe node ty prio addr sz meta event r qs of
      Inl e \<Rightarrow> \<exists>w. e = Assert_Failed w
    | Inr (status, r', qs') \<Rightarrow> queues_wf qe R qs' \<and>
        (if status = HSAKMT_STATUS_SUCCESS
         then QueueId r' = qs_next qs \<and> qs_queues qs (QueueId r') = None \<and> (\<exists>q. qs_queues qs' = (qs_queues qs)(QueueId r' \<mapsto> q))
         else qs_queues qs' = qs_queues qs)"
    by (auto split: sum.splits prod.splits if_splits)
next
  fix qid assume "qid \<in> dom (qs_queues qs)"
  then obtain q where q: "qs_queues qs qid = Some q" by auto
  show "\<exists>qs'. hsaKmtDestroyQueue qe qid qs = Inr (HSAKMT_STATUS_SUCCESS, qs') \<and> queues_wf qe R qs' \<and> qs_queues qs' = (qs_queues qs)(qid := None)"
    using destroy_post [OF assms q] .
  show "\<exists>qs'. hsaKmtQueueRingDoorbell qid qs = Inr (HSAKMT_STATUS_SUCCESS, qs') \<and> queues_wf qe R qs' \<and> dom (qs_queues qs') = dom (qs_queues qs)"
    using doorbell_post [OF assms q] q by (auto simp: insert_absorb domI)
qed

text \<open>A process with one device, no queue yet and no allocation.\<close>

definition queues_env_example :: queues_env where
  "queues_env_example = \<lparr>qe_mem = queue_menv, qe_engines = (\<lambda>_. sample_engines)\<rparr>"

definition queues_example :: queue_state where
  "queues_example = \<lparr>qs_mem = sample_mem\<lparr>ms_rt := (ms_rt sample_mem)\<lparr>rt_page_size := 0x1000\<rparr>\<rparr>, qs_queues = Map.empty, qs_next = 1\<rparr>"

definition resource_example :: HsaQueueResource where
  "resource_example = \<lparr>QueueId = 0, Queue_DoorBell = Addr 0, Queue_write_ptr = Addr 0, Queue_read_ptr = Addr 0, ErrorReason = 0\<rparr>"

lemma create_example:
  "\<exists>r qs. hsaKmtCreateQueueV2 queues_env_example 1 HSA_QUEUE_SDMA 0 0x500000 0x1000 0 False resource_example queues_example =
     Inr (HSAKMT_STATUS_SUCCESS, r, qs)"
proof -
  have "1 < (2 :: u32)" "\<not> rt_is_forked (w_rt sample_world)" by (simp_all add: sample_world_def new_hsakmtRuntime_def word_less_nat_alt)
  then show ?thesis
    by (simp add: hsaKmtCreateQueueV2_def queues_env_example_def queues_example_def sample_mem_def dxg_open_def resource_example_def
      HSA_QUEUE_PRIORITY_MINIMUM_def HSA_QUEUE_PRIORITY_MAXIMUM_def get_wddmdev_def queue_acquire_buffer_def create_sdma_def
      GetSdmaEngine_def SDMAQueue_ctor_def CreateQueue_def sample_engines_def new_sdma_object_def create_cmdbuf_def Let_def
      CreateContext_def dx_def dxc_def queue_menv_def queue_kernel_def SDMAQueue_Init_def queue_Init_def HwsInit_def CreateHwQueue_def
      status_of_def set_tr_def out_arg_def kobj_live_def kobj_step_def not_le)
qed

theorem queues_wf_preserved_witness:
  "\<exists>r qs. hsaKmtCreateQueueV2 queues_env_example 1 HSA_QUEUE_SDMA 0 0x500000 0x1000 0 False resource_example queues_example =
      Inr (HSAKMT_STATUS_SUCCESS, r, qs) \<and>
     queues_wf queues_env_example ((0x100000000, 0x200000000), (0x800000000, 0x1800000000)) qs \<and> QueueId r = 1 \<and> dom (qs_queues qs) = {1}"
proof -
  let ?R = "((0x100000000, 0x200000000), (0x800000000, 0x1800000000)) :: (nat \<times> nat) \<times> (nat \<times> nat)"
  have rt: "rt_mgr d (rt\<lparr>rt_page_size := x\<rparr>) = rt_mgr d rt" for d rt x by (simp add: rt_mgr_def)
  have "queue_base queue_menv ?R (qs_mem queues_example)"
    using sample_queue_base by (simp add: queues_example_def queue_base_def base_ok_def dxg_open_def rt)
  moreover have "devices_ok (qs_mem queues_example)" "map_wf (qs_mem queues_example) Map.empty"
    by (simp_all add: queues_example_def devices_ok_def map_wf_def sample_mem_def device_example_def)
  moreover have "table_wf F Map.empty 1" for F by (simp add: table_wf_def)
  ultimately have wf: "queues_wf queues_env_example ?R queues_example"
    by (simp add: queues_wf_def queues_env_example_def) (simp add: queues_example_def)
  have empty: "qs_queues queues_example = Map.empty" "qs_next queues_example = 1" by (simp_all add: queues_example_def)
  obtain r qs where run: "hsaKmtCreateQueueV2 queues_env_example 1 HSA_QUEUE_SDMA 0 0x500000 0x1000 0 False resource_example queues_example =
     Inr (HSAKMT_STATUS_SUCCESS, r, qs)" using create_example by blast
  with queues_wf_preserved [OF wf, of 1 HSA_QUEUE_SDMA 0 "0x500000" "0x1000" 0 False resource_example] empty show ?thesis by (auto split: if_splits)
qed

end
