(* ===== verification/Sysfs.thy ===== *)
theory Sysfs
  imports Memory_Api
begin

text \<open>
  What the topology reads from the files of the machine, from \<^verbatim>\<open>src/src/topology.cpp\<close>: numbers, words and sizes, the processors of
  \<^verbatim>\<open>/proc/cpuinfo\<close>, and the caches of the processors. The file system is a parameter: the text of a file, and
  the names in a directory in the order of \<^verbatim>\<open>readdir\<close>.
\<close>

section \<open>Files and the conversions of the C library\<close>

record sysfs =
  fs_file :: "string \<Rightarrow> string option"
  fs_dir :: "string \<Rightarrow> string list option"

definition isspace :: "char \<Rightarrow> bool" where
  "isspace c \<longleftrightarrow> c \<in> {CHR 0x09, CHR 0x0A, CHR 0x0B, CHR 0x0C, CHR 0x0D, CHR '' ''}"

definition char_value :: "char \<Rightarrow> nat" where
  "char_value c =
     (let n = of_char c :: nat in
      if 48 \<le> n \<and> n \<le> 57 then n - 48 else if 97 \<le> n \<and> n \<le> 102 then n - 87 else if 65 \<le> n \<and> n \<le> 70 then n - 55 else 16)"

definition is_digit :: "nat \<Rightarrow> char \<Rightarrow> bool" where
  "is_digit base c \<longleftrightarrow> char_value c < base"

definition digits_value :: "nat \<Rightarrow> string \<Rightarrow> nat" where
  "digits_value base ds = foldl (\<lambda>v c. v * base + char_value c) 0 ds"

text \<open>White space, a sign, an optional prefix \<^verbatim>\<open>0x\<close> in base 16, and digits: the sign, the value and what follows.\<close>

definition scan_sign :: "string \<Rightarrow> bool \<times> string" where
  "scan_sign s = (case s of
     [] \<Rightarrow> (False, [])
   | c # cs \<Rightarrow> if c = CHR ''-'' then (True, cs) else if c = CHR ''+'' then (False, cs) else (False, s))"

definition scan_prefix :: "nat \<Rightarrow> string \<Rightarrow> string" where
  "scan_prefix base s = (case s of
     z # x # d # ds \<Rightarrow> if base = 16 \<and> z = CHR ''0'' \<and> (x = CHR ''x'' \<or> x = CHR ''X'') \<and> is_digit 16 d then d # ds else s
   | _ \<Rightarrow> s)"

definition scan_number :: "nat \<Rightarrow> string \<Rightarrow> (bool \<times> nat \<times> string) option" where
  "scan_number base s =
     (case scan_sign (dropWhile isspace s) of (neg, s) \<Rightarrow>
      let s = scan_prefix base s; ds = takeWhile (is_digit base) s
      in if ds = [] then None else Some (neg, digits_value base ds, dropWhile (is_digit base) s))"

definition strtoul_value :: "bool \<Rightarrow> nat \<Rightarrow> u64" where
  "strtoul_value neg v = (if v \<ge> 2 ^ 64 then -1 else if neg then - of_nat v else of_nat v)"

definition strtol_value :: "bool \<Rightarrow> nat \<Rightarrow> int" where
  "strtol_value neg v = (if neg then max (- (2 ^ 63)) (- int v) else min (2 ^ 63 - 1) (int v))"

definition strtol :: "nat \<Rightarrow> string \<Rightarrow> int" where
  "strtol base s = (case scan_number base s of None \<Rightarrow> 0 | Some (neg, v, _) \<Rightarrow> strtol_value neg v)"

definition atoi :: "string \<Rightarrow> int" where
  "atoi s = sint (word_of_int (strtol 10 s) :: u32)"

definition stoi :: "string \<Rightarrow> int res" where
  "stoi s = (case scan_number 10 s of
     None \<Rightarrow> Inl (Uncaught_Exception ''invalid_argument'')
   | Some (neg, v, _) \<Rightarrow>
       let i = strtol_value neg v in if i < - (2 ^ 31) \<or> i \<ge> 2 ^ 31 then Inl (Uncaught_Exception ''out_of_range'') else Inr i)"

fun decimal :: "nat \<Rightarrow> string" where
  "decimal n = (if n < 10 then [char_of (48 + n)] else decimal (n div 10) @ [char_of (48 + n mod 10)])"

declare decimal.simps [simp del]

section \<open>Reading a file\<close>

definition num_subdirs :: "sysfs \<Rightarrow> string \<Rightarrow> string \<Rightarrow> nat" where
  "num_subdirs fs dirpath pre =
     (case fs_dir fs dirpath of
        None \<Rightarrow> 0
      | Some names \<Rightarrow> length (filter (\<lambda>n. n \<noteq> ''.'' \<and> n \<noteq> ''..'' \<and> (pre = [] \<or> take (length pre) n = pre)) names))"

definition fscanf_dec :: "sysfs \<Rightarrow> string \<Rightarrow> u32 \<Rightarrow> HSAKMT_STATUS \<times> u32" where
  "fscanf_dec fs path num =
     (case fs_file fs path of
        None \<Rightarrow> (HSAKMT_STATUS_INVALID_PARAMETER, num)
      | Some s \<Rightarrow> (case scan_number 10 s of
          None \<Rightarrow> (HSAKMT_STATUS_ERROR, num)
        | Some (neg, v, _) \<Rightarrow> (HSAKMT_STATUS_SUCCESS, ucast (strtoul_value neg v))))"

text \<open>The buffer of \<^verbatim>\<open>fscanf_str\<close> has 256 bytes in every call; the conversion \<^verbatim>\<open>%s\<close> has no bound.\<close>

definition fscanf_str :: "sysfs \<Rightarrow> string \<Rightarrow> string \<Rightarrow> (HSAKMT_STATUS \<times> string) res" where
  "fscanf_str fs path str =
     (case fs_file fs path of
        None \<Rightarrow> Inr (HSAKMT_STATUS_INVALID_PARAMETER, str)
      | Some s \<Rightarrow>
          let w = takeWhile (\<lambda>c. \<not> isspace c) (dropWhile isspace s)
          in if w = [] then Inr (HSAKMT_STATUS_ERROR, str)
             else if length w \<ge> 256 then Inl (Out_Of_Bounds ''fscanf_str'')
             else Inr (HSAKMT_STATUS_SUCCESS, w))"

definition fscanf_size :: "sysfs \<Rightarrow> string \<Rightarrow> u32 \<Rightarrow> HSAKMT_STATUS \<times> u32" where
  "fscanf_size fs path bytes =
     (case fs_file fs path of
        None \<Rightarrow> (HSAKMT_STATUS_INVALID_PARAMETER, bytes)
      | Some s \<Rightarrow> (case scan_number 10 s of
          None \<Rightarrow> (HSAKMT_STATUS_ERROR, bytes)
        | Some (neg, v, rest) \<Rightarrow>
            let bytes = ucast (strtoul_value neg v) in
            (case rest of
               [] \<Rightarrow> (HSAKMT_STATUS_SUCCESS, bytes)
             | u # _ \<Rightarrow>
                 if u = CHR ''K'' then (HSAKMT_STATUS_SUCCESS, push_bit 10 bytes)
                 else if u = CHR ''M'' then (HSAKMT_STATUS_SUCCESS, push_bit 20 bytes)
                 else if u = CHR ''G'' then (HSAKMT_STATUS_SUCCESS, push_bit 30 bytes)
                 else (HSAKMT_STATUS_ERROR, bytes))))"

section \<open>Processors\<close>

record proc_cpuinfo =
  proc_num :: u32
  apicid :: u32
  model_name :: string

definition HSA_PUBLIC_NAME_SIZE :: nat where "HSA_PUBLIC_NAME_SIZE = 64"

definition GENUINE_INTEL :: int where "GENUINE_INTEL = 0"
definition AUTHENTIC_AMD :: int where "AUTHENTIC_AMD = 1"
definition IBM_POWER :: int where "IBM_POWER = 2"

definition topology_search_processor_vendor :: "string \<Rightarrow> int" where
  "topology_search_processor_vendor name =
     (if name = ''GenuineIntel'' then GENUINE_INTEL
      else if name = ''POWER9, altivec supported'' then IBM_POWER
      else if name = ''AuthenticAMD'' then AUTHENTIC_AMD
      else if name = [] then IBM_POWER else -1)"

function getlines :: "string \<Rightarrow> string list" where
  "getlines s = (if s = [] then [] else let l = takeWhile (\<lambda>c. c \<noteq> CHR 0x0A) s in l # getlines (drop (length l + 1) s))"
  by pat_completeness auto
termination
  by (relation "measure length") auto

declare getlines.simps [simp del]

text \<open>\<^verbatim>\<open>line.substr(line.find(':') + 2)\<close>; without a colon the sum wraps to 1.\<close>

definition field_value :: "string \<Rightarrow> string res" where
  "field_value line =
     (let n = length (takeWhile (\<lambda>c. c \<noteq> CHR '':'') line); pos = (if n < length line then n + 2 else 1)
      in if pos > length line then Inl (Uncaught_Exception ''out_of_range'') else Inr (drop pos line))"

definition set_proc :: "string \<Rightarrow> u32 \<Rightarrow> (proc_cpuinfo \<Rightarrow> proc_cpuinfo) \<Rightarrow> proc_cpuinfo list \<Rightarrow> proc_cpuinfo list res" where
  "set_proc loc p f ci =
     (if unat p < length ci then Inr (ci[unat p := f (ci ! unat p)]) else Inl (Out_Of_Bounds loc))"

text \<open>The loop over the lines: the current processor, the table, and the vendor (\<open>-1\<close> while unknown). The clock of the processors is left out.\<close>

fun cpuinfo_lines :: "string list \<Rightarrow> u32 \<Rightarrow> proc_cpuinfo list \<Rightarrow> int \<Rightarrow> (HSAKMT_STATUS \<times> proc_cpuinfo list \<times> int) res" where
  "cpuinfo_lines [] p ci vendor = Inr (HSAKMT_STATUS_SUCCESS, ci, vendor)"
| "cpuinfo_lines (line # ls) p ci vendor =
     (if take 9 line = ''processor'' then
        bindE (field_value line) (\<lambda>v. bindE (stoi v) (\<lambda>i.
          let p = word_of_int i in
          if p \<ge> of_nat (length ci) then Inr (HSAKMT_STATUS_NO_MEMORY, ci, vendor) else cpuinfo_lines ls p ci vendor))
      else if take 9 line = ''vendor_id'' \<and> vendor = -1 then
        bindE (field_value line) (\<lambda>v. cpuinfo_lines ls p ci (topology_search_processor_vendor v))
      else if take 10 line = ''model name'' then
        bindE (field_value line) (\<lambda>v.
        bindE (set_proc ''topology_parse_cpuinfo'' p (\<lambda>c. c\<lparr>model_name := take HSA_PUBLIC_NAME_SIZE v\<rparr>) ci) (\<lambda>ci. cpuinfo_lines ls p ci vendor))
      else if take 6 line = ''apicid'' then
        bindE (field_value line) (\<lambda>v. bindE (stoi v) (\<lambda>i.
        bindE (set_proc ''topology_parse_cpuinfo'' p (\<lambda>c. c\<lparr>apicid := word_of_int i\<rparr>) ci) (\<lambda>ci. cpuinfo_lines ls p ci vendor)))
      else cpuinfo_lines ls p ci vendor)"

definition topology_parse_cpuinfo :: "sysfs \<Rightarrow> proc_cpuinfo list \<Rightarrow> int \<Rightarrow> (HSAKMT_STATUS \<times> proc_cpuinfo list \<times> int) res" where
  "topology_parse_cpuinfo fs ci vendor =
     (case fs_file fs ''/proc/cpuinfo'' of
        None \<Rightarrow> Inr (HSAKMT_STATUS_ERROR, ci, vendor)
      | Some s \<Rightarrow> bindE (cpuinfo_lines (getlines s) 0 ci vendor) (\<lambda>(ret, ci, vendor).
          if ret \<noteq> HSAKMT_STATUS_SUCCESS then Inr (ret, ci, vendor)
          else Inr (ret, ci, if vendor < 0 then GENUINE_INTEL else vendor)))"

section \<open>Caches of the processors\<close>

definition HSA_CPU_SIBLINGS :: nat where "HSA_CPU_SIBLINGS = 256"

record HsaCacheProperties =
  ProcessorIdLow :: u32
  CacheLevel :: u32
  CacheSize :: u32
  CacheLineSize :: u32
  CacheLinesPerTag :: u32
  CacheAssociativity :: u32
  CacheLatency :: u32
  CT_Data :: bool
  CT_Instruction :: bool
  CT_CPU :: bool
  CT_HSACU :: bool
  SiblingMap :: "u32 list"

definition zero_cache :: HsaCacheProperties where
  "zero_cache = \<lparr>ProcessorIdLow = 0, CacheLevel = 0, CacheSize = 0, CacheLineSize = 0, CacheLinesPerTag = 0, CacheAssociativity = 0,
     CacheLatency = 0, CT_Data = False, CT_Instruction = False, CT_CPU = False, CT_HSACU = False,
     SiblingMap = replicate HSA_CPU_SIBLINGS 0\<rparr>"

text \<open>\<^verbatim>\<open>strtok(s, ",")\<close>: the parts between commas that are not empty.\<close>

fun comma_parts :: "string \<Rightarrow> string list" where
  "comma_parts [] = [[]]"
| "comma_parts (c # cs) = (if c = CHR '','' then [] # comma_parts cs else (c # hd (comma_parts cs)) # tl (comma_parts cs))"

definition strtok_comma :: "string \<Rightarrow> string list" where
  "strtok_comma s = filter (\<lambda>t. t \<noteq> []) (comma_parts s)"

fun cpumap_bits :: "proc_cpuinfo list \<Rightarrow> nat \<Rightarrow> u32 \<Rightarrow> nat list \<Rightarrow> u32 list \<Rightarrow> u32 list res" where
  "cpumap_bits ci num_hexs w [] m = Inr m"
| "cpumap_bits ci num_hexs w (b # bs) m =
     (if \<not> bit w b then cpumap_bits ci num_hexs w bs m
      else let proc = num_hexs * 32 + b in
        if proc \<ge> length ci then Inl (Out_Of_Bounds ''cpumap_to_cpu_ci'')
        else let a = unat (apicid (ci ! proc)) in
          cpumap_bits ci num_hexs w bs (if a \<ge> HSA_CPU_SIBLINGS then m else m[a := 1]))"

fun cpumap_hexs :: "proc_cpuinfo list \<Rightarrow> nat \<Rightarrow> string list \<Rightarrow> u32 list \<Rightarrow> u32 list res" where
  "cpumap_hexs ci 0 ts m = Inr m"
| "cpumap_hexs ci (Suc num_hexs) [] m = Inl (Null_Deref ''cpumap_to_cpu_ci'')"
| "cpumap_hexs ci (Suc num_hexs) (t # ts) m =
     bindE (cpumap_bits ci num_hexs (word_of_int (strtol 16 t)) [0..<32] m) (\<lambda>m. cpumap_hexs ci num_hexs ts m)"

definition cpumap_to_cpu_ci :: "string \<Rightarrow> proc_cpuinfo list \<Rightarrow> HsaCacheProperties \<Rightarrow> HsaCacheProperties res" where
  "cpumap_to_cpu_ci shared_cpu_map ci this_cache =
     bindE (cpumap_hexs ci ((length shared_cpu_map + 8) div 9) (strtok_comma shared_cpu_map) (SiblingMap this_cache))
       (\<lambda>m. Inr (this_cache\<lparr>SiblingMap := m\<rparr>))"

definition index_file :: "string \<Rightarrow> nat \<Rightarrow> string \<Rightarrow> string" where
  "index_file pre idx name = take 255 (pre @ ''/index'' @ decimal idx @ ''/'' @ name)"

definition set_type :: "string \<Rightarrow> HsaCacheProperties \<Rightarrow> HsaCacheProperties" where
  "set_type str c = c\<lparr>CT_Data := str = ''Data'' \<or> str = ''Unified'', CT_Instruction := str = ''Instruction'' \<or> str = ''Unified'', CT_CPU := True\<rparr>"

text \<open>The files of one cache. The buffer still holds the type if the map of the processors cannot be read.\<close>

definition read_cache :: "sysfs \<Rightarrow> string \<Rightarrow> nat \<Rightarrow> proc_cpuinfo list \<Rightarrow> HsaCacheProperties \<Rightarrow> HsaCacheProperties res" where
  "read_cache fs pre idx ci c =
     (let c = c\<lparr>CacheLevel := snd (fscanf_dec fs (index_file pre idx ''level'') (CacheLevel c))\<rparr> in
      bindE (fscanf_str fs (index_file pre idx ''type'') []) (\<lambda>(_, str).
      let c = set_type str c;
          c = c\<lparr>CacheSize := snd (fscanf_size fs (index_file pre idx ''size'') (CacheSize c))\<rparr>;
          c = c\<lparr>CacheLineSize := snd (fscanf_dec fs (index_file pre idx ''coherency_line_size'') (CacheLineSize c))\<rparr>;
          c = c\<lparr>CacheAssociativity := snd (fscanf_dec fs (index_file pre idx ''ways_of_associativity'') (CacheAssociativity c))\<rparr>;
          c = c\<lparr>CacheLinesPerTag := snd (fscanf_dec fs (index_file pre idx ''physical_line_partition'') (CacheLinesPerTag c))\<rparr> in
      bindE (fscanf_str fs (index_file pre idx ''shared_cpu_map'') str) (\<lambda>(_, str). cpumap_to_cpu_ci str ci c)))"

definition is_power9 :: "int \<Rightarrow> proc_cpuinfo list \<Rightarrow> bool res" where
  "is_power9 vendor ci =
     (if vendor = IBM_POWER
      then (case ci of [] \<Rightarrow> Inl (Out_Of_Bounds ''get_cpu_cache_info'') | c # _ \<Rightarrow> Inr (model_name c = ''POWER9'')) else Inr False)"

text \<open>
  The loop over the caches of a processor: what is still to do, the first processor that the last readable list named, the caches so far and
  their number, which starts at the number of directories and is reduced by the caches that are listed elsewhere.
\<close>

fun cache_loop :: "sysfs \<Rightarrow> string \<Rightarrow> proc_cpuinfo list \<Rightarrow> bool \<Rightarrow> int \<Rightarrow> nat list \<Rightarrow> u32 option \<Rightarrow>
    HsaCacheProperties list \<Rightarrow> nat \<Rightarrow> (HsaCacheProperties list \<times> nat) res" where
  "cache_loop fs pre ci p9 cpu [] n cache num = Inr (cache, num)"
| "cache_loop fs pre ci p9 cpu (idx # ids) n cache num =
     (if p9 then
        if cpu mod 4 \<noteq> 0 then cache_loop fs pre ci p9 cpu ids n cache (num - 1)
        else bindE (read_cache fs pre idx ci zero_cache) (\<lambda>c. cache_loop fs pre ci p9 cpu ids n (cache @ [c]) num)
      else
        case (case fscanf_dec fs (index_file pre idx ''shared_cpu_list'') 0 of
                (ret, v) \<Rightarrow> if ret = HSAKMT_STATUS_SUCCESS then Some v else n) of
          None \<Rightarrow> Inl (Uninitialised ''get_cpu_cache_info'')
        | Some v \<Rightarrow>
            if cpu \<noteq> sint v then cache_loop fs pre ci p9 cpu ids (Some v) cache (num - 1)
            else if cpu < 0 \<or> nat cpu \<ge> length ci then Inl (Out_Of_Bounds ''get_cpu_cache_info'')
            else bindE (read_cache fs pre idx ci (zero_cache\<lparr>ProcessorIdLow := apicid (ci ! nat cpu)\<rparr>)) (\<lambda>c.
                   cache_loop fs pre ci p9 cpu ids (Some v) (cache @ [c]) num))"

definition get_cpu_cache_info :: "sysfs \<Rightarrow> int \<Rightarrow> string \<Rightarrow> proc_cpuinfo list \<Rightarrow> int \<Rightarrow> nat \<Rightarrow> HsaCacheProperties list \<Rightarrow>
    (HsaCacheProperties list \<times> nat) res" where
  "get_cpu_cache_info fs vendor pre ci cpu num_caches cache =
     bindE (is_power9 vendor ci) (\<lambda>p9. cache_loop fs pre ci p9 cpu [0..<num_caches] None cache num_caches)"

definition MAXPATHSIZE :: nat where "MAXPATHSIZE = 29 + 255 + (255 + 6)"

text \<open>The loop over a directory; the flag says whether it came to the end.\<close>

fun cpu_dirs :: "sysfs \<Rightarrow> int \<Rightarrow> string \<Rightarrow> proc_cpuinfo list \<Rightarrow> string list \<Rightarrow> HsaCacheProperties list \<Rightarrow> nat \<Rightarrow>
    (bool \<times> HsaCacheProperties list \<times> nat) res" where
  "cpu_dirs fs vendor node_dir ci [] cache cnt = Inr (True, cache, cnt)"
| "cpu_dirs fs vendor node_dir ci (name # ns) cache cnt =
     (if take 3 name \<noteq> ''cpu'' \<or> length name \<le> 3 \<or> \<not> is_digit 10 (name ! 3) then cpu_dirs fs vendor node_dir ci ns cache cnt
      else if \<not> length node_dir + length name + 6 + 2 < MAXPATHSIZE then Inr (False, cache, cnt)
      else let path = node_dir @ ''/'' @ name @ ''/cache'' in
        bindE (get_cpu_cache_info fs vendor path ci (atoi (drop 3 name)) (num_subdirs fs path ''index'') cache) (\<lambda>(cache, k).
          cpu_dirs fs vendor node_dir ci ns cache (cnt + k)))"

text \<open>The status, the caches, and the new number of caches if it is set.\<close>

definition topology_get_cpu_cache_props :: "sysfs \<Rightarrow> int \<Rightarrow> nat \<Rightarrow> proc_cpuinfo list \<Rightarrow> HsaCacheProperties list \<Rightarrow>
    (HSAKMT_STATUS \<times> HsaCacheProperties list \<times> nat option) res" where
  "topology_get_cpu_cache_props fs vendor node ci cache =
     bindE (is_power9 vendor ci) (\<lambda>p9.
     let node_dir = ''/sys/devices/system/node/node'' @ decimal (if p9 then node * 8 else node);
         none = num_subdirs fs node_dir ''cpu'' = 0;
         node_dir = (if none \<and> node = 0 then ''/sys/devices/system/cpu'' else node_dir) in
     if none \<and> (node \<noteq> 0 \<or> num_subdirs fs node_dir ''cpu'' = 0) then Inr (HSAKMT_STATUS_ERROR, cache, None)
     else case fs_dir fs node_dir of
       None \<Rightarrow> Inl (Null_Deref ''topology_get_cpu_cache_props'')
     | Some names \<Rightarrow>
         bindE (cpu_dirs fs vendor node_dir ci names cache 0) (\<lambda>(done, cache, cnt).
         if \<not> done then Inr (HSAKMT_STATUS_SUCCESS, cache, None)
         else bindE (assertE ''topology_get_cpu_cache_props'' (cnt = length cache)) (\<lambda>_.
           Inr (HSAKMT_STATUS_SUCCESS, cache, Some cnt))))"

section \<open>The text of a processor map\<close>

text \<open>
  The kernel prints the set of processors in words of 32, the highest first: the first one with as many digits as the machine needs, the others with eight.
\<close>

definition hex_char :: "nat \<Rightarrow> char" where
  "hex_char d = char_of (if d < 10 then 48 + d else 87 + d)"

primrec hex :: "nat \<Rightarrow> nat \<Rightarrow> string" where
  "hex 0 v = []"
| "hex (Suc k) v = hex k (v div 16) @ [hex_char (v mod 16)]"

definition cpumap_text :: "nat \<Rightarrow> u32 \<Rightarrow> u32 list \<Rightarrow> string" where
  "cpumap_text k w ws = hex k (unat w) @ concat (map (\<lambda>w. CHR '','' # hex 8 (unat w)) ws)"

definition cpumap_set :: "u32 list \<Rightarrow> nat set" where
  "cpumap_set ws = {p. p div 32 < length ws \<and> bit (rev ws ! (p div 32)) (p mod 32)}"

lemma of_hex_char: "d < 16 \<Longrightarrow> (of_char (hex_char d) :: nat) = (if d < 10 then 48 + d else 87 + d)"
  by (simp add: hex_char_def)

lemma hex_char_value [simp]: "d < 16 \<Longrightarrow> char_value (hex_char d) = d"
  by (auto simp: char_value_def of_hex_char Let_def)

lemma hex_char_neq: "d < 16 \<Longrightarrow> (of_char c :: nat) < 48 \<or> 102 < (of_char c :: nat) \<or> of_char c = (88 :: nat) \<Longrightarrow> hex_char d \<noteq> c"
  using of_hex_char [of d] by (auto split: if_splits)

lemma hex_char_other [simp]:
  assumes "d < 16"
  shows "hex_char d \<noteq> CHR '',''" "hex_char d \<noteq> CHR ''-''" "hex_char d \<noteq> CHR ''+''" "hex_char d \<noteq> CHR ''x''" "hex_char d \<noteq> CHR ''X''"
  by (rule hex_char_neq [OF assms]; simp)+

lemma hex_char_space [simp]: "d < 16 \<Longrightarrow> \<not> isspace (hex_char d)"
  unfolding isspace_def insert_iff empty_iff by (intro notI) (elim disjE FalseE; simp add: hex_char_neq)

lemma hex_chars: "c \<in> set (hex k v) \<Longrightarrow> \<exists>d<16. c = hex_char d"
  by (induction k arbitrary: v) (auto intro: exI [of _ "v mod 16" for v])

lemma length_hex [simp]: "length (hex k v) = k"
  by (induction k arbitrary: v) simp_all

lemma hex_value: "v < 16 ^ k \<Longrightarrow> digits_value 16 (hex k v) = v"
proof (induction k arbitrary: v)
  case (Suc k)
  have "v div 16 < 16 ^ k" using Suc.prems by (simp add: less_mult_imp_div_less mult.commute)
  from Suc.IH [OF this] show ?case by (simp add: digits_value_def)
qed (simp add: digits_value_def)

lemma strtol_hex:
  assumes "0 < k" "k \<le> 8" "v < 16 ^ k"
  shows "strtol 16 (hex k v) = int v"
proof -
  obtain c cs where s: "hex k v = c # cs" using assms(1) length_hex [of k v] by (cases "hex k v") auto
  have d: "\<exists>d<16. x = hex_char d" if "x \<in> set (c # cs)" for x using hex_chars [of x k v] that s by simp
  then have "\<forall>x\<in>set (c # cs). is_digit 16 x" using hex_char_value unfolding is_digit_def by metis
  then have tw: "takeWhile (is_digit 16) (c # cs) = c # cs" "dropWhile (is_digit 16) (c # cs) = []" by (simp_all add: takeWhile_eq_all_conv)
  obtain d where c: "d < 16" "c = hex_char d" using d [of c] by auto
  have px: "scan_prefix 16 (c # cs) = c # cs"
  proof (cases cs)
    case (Cons x xs)
    obtain e where "e < 16" "x = hex_char e" using d [of x] Cons by auto
    with Cons show ?thesis by (auto simp: scan_prefix_def split: list.split)
  qed (simp add: scan_prefix_def)
  have "scan_number 16 (c # cs) = Some (False, v, [])"
    using c tw px hex_value [OF assms(3)] s by (simp add: scan_number_def scan_sign_def Let_def)
  moreover have "int v \<le> 2 ^ 63 - 1"
  proof -
    have "(16 :: nat) ^ k \<le> 16 ^ 8" using assms(2) by (intro power_increasing) simp_all
    then show ?thesis using assms(3) by simp
  qed
  ultimately show ?thesis by (simp add: strtol_def strtol_value_def s)
qed

lemma comma_parts_single: "CHR '','' \<notin> set t \<Longrightarrow> comma_parts t = [t]"
  by (induction t) auto

lemma comma_parts_append: "CHR '','' \<notin> set t \<Longrightarrow> comma_parts (t @ CHR '','' # s) = t # comma_parts s"
  by (induction t) auto

lemma no_comma: "CHR '','' \<notin> set (hex k v)"
  using hex_chars [of _ k v] hex_char_other(1) by metis

lemma strtok_text:
  assumes "0 < k"
  shows "strtok_comma (cpumap_text k w ws) = hex k (unat w) # map (\<lambda>w. hex 8 (unat w)) ws"
proof -
  have "comma_parts (t @ concat (map (\<lambda>w. CHR '','' # hex 8 (unat w)) ws)) = t # map (\<lambda>w. hex 8 (unat w)) ws" if "CHR '','' \<notin> set t" for t
    using that
  proof (induction ws arbitrary: t)
    case (Cons w ws)
    then show ?case using Cons.IH [OF no_comma [of 8 "unat w"]] by (simp add: comma_parts_append)
  qed (simp add: comma_parts_single)
  from this [OF no_comma] have "comma_parts (cpumap_text k w ws) = hex k (unat w) # map (\<lambda>w. hex 8 (unat w)) ws" by (simp add: cpumap_text_def)
  moreover have "hex j v \<noteq> []" if "0 < j" for j v using that length_hex [of j v] by (cases "hex j v") auto
  ultimately show ?thesis using assms by (simp add: strtok_comma_def filter_id_conv)
qed

text \<open>The siblings after some processors: those marked before and those with the identifier of one of them.\<close>

definition marked :: "proc_cpuinfo list \<Rightarrow> nat set \<Rightarrow> u32 list \<Rightarrow> u32 list \<Rightarrow> bool" where
  "marked ci P m m' \<longleftrightarrow> length m' = length m \<and>
     (\<forall>a<length m. m' ! a = (if \<exists>p\<in>P. unat (apicid (ci ! p)) = a then 1 else m ! a))"

lemma marked_trans: "marked ci P m m' \<Longrightarrow> marked ci Q m' m'' \<Longrightarrow> marked ci (P \<union> Q) m m''"
  by (auto simp: marked_def)

lemma cpumap_bits_marks:
  assumes "\<forall>b\<in>set bs. bit w b \<longrightarrow> n * 32 + b < length ci" and "length m = HSA_CPU_SIBLINGS"
  shows "\<exists>m'. cpumap_bits ci n w bs m = Inr m' \<and> marked ci {p. \<exists>b\<in>set bs. bit w b \<and> p = n * 32 + b} m m'"
  using assms
proof (induction bs arbitrary: m)
  case (Cons b bs)
  show ?case
  proof (cases "bit w b")
    case True
    let ?a = "unat (apicid (ci ! (n * 32 + b)))"
    let ?m = "if ?a \<ge> HSA_CPU_SIBLINGS then m else m[?a := 1]"
    have "marked ci {n * 32 + b} m ?m" using Cons.prems(2) by (auto simp: marked_def)
    moreover obtain m' where m': "cpumap_bits ci n w bs ?m = Inr m'" "marked ci {p. \<exists>b\<in>set bs. bit w b \<and> p = n * 32 + b} ?m m'"
    proof -
      have "length ?m = HSA_CPU_SIBLINGS" "\<forall>b\<in>set bs. bit w b \<longrightarrow> n * 32 + b < length ci" using Cons.prems by simp_all
      from Cons.IH [OF this(2,1)] show ?thesis using that by blast
    qed
    ultimately have "marked ci ({n * 32 + b} \<union> {p. \<exists>b\<in>set bs. bit w b \<and> p = n * 32 + b}) m m'" using marked_trans by blast
    moreover have "{n * 32 + b} \<union> {p. \<exists>b\<in>set bs. bit w b \<and> p = n * 32 + b} = {p. \<exists>x\<in>set (b # bs). bit w x \<and> p = n * 32 + x}"
      using True by auto
    ultimately show ?thesis using m'(1) True Cons.prems(1) by (simp add: Let_def)
  next
    case False
    then have "{p. \<exists>x\<in>set (b # bs). bit w x \<and> p = n * 32 + x} = {p. \<exists>x\<in>set bs. bit w x \<and> p = n * 32 + x}" by auto
    with False Cons show ?thesis by simp
  qed
qed (simp add: marked_def)

lemma cpumap_set_Cons:
  "cpumap_set (w # ws) = {p. \<exists>b\<in>set [0..<32]. bit w b \<and> p = length ws * 32 + b} \<union> cpumap_set ws"
proof (intro set_eqI iffI)
  fix p assume "p \<in> cpumap_set (w # ws)"
  then have p: "p div 32 < Suc (length ws)" "bit ((rev ws @ [w]) ! (p div 32)) (p mod 32)" by (simp_all add: cpumap_set_def)
  show "p \<in> {p. \<exists>b\<in>set [0..<32]. bit w b \<and> p = length ws * 32 + b} \<union> cpumap_set ws"
  proof (cases "p div 32 < length ws")
    case True
    then show ?thesis using p by (simp add: cpumap_set_def nth_append)
  next
    case False
    then have q: "p div 32 = length ws" using p(1) by simp
    then have "p = length ws * 32 + p mod 32" by presburger
    with p(2) q show ?thesis by (auto simp: nth_append intro!: bexI [of _ "p mod 32"])
  qed
next
  fix p assume "p \<in> {p. \<exists>b\<in>set [0..<32]. bit w b \<and> p = length ws * 32 + b} \<union> cpumap_set ws"
  then show "p \<in> cpumap_set (w # ws)" by (auto simp: cpumap_set_def nth_append)
qed

lemma cpumap_hexs_marks:
  assumes "list_all2 (\<lambda>t w. strtol 16 t = int (unat w)) ts ws" and "\<forall>p\<in>cpumap_set ws. p < length ci" and "length m = HSA_CPU_SIBLINGS"
  shows "\<exists>m'. cpumap_hexs ci (length ws) ts m = Inr m' \<and> marked ci (cpumap_set ws) m m'"
  using assms
proof (induction ts ws arbitrary: m rule: list_all2_induct)
  case (Cons t ts w ws)
  have w: "(word_of_int (strtol 16 t) :: u32) = w" using Cons.hyps(1) by simp
  have "\<forall>b\<in>set [0..<32]. bit w b \<longrightarrow> length ws * 32 + b < length ci" using Cons.prems(1) by (auto simp: cpumap_set_Cons)
  from cpumap_bits_marks [OF this Cons.prems(2)] obtain m1 where
    m1: "cpumap_bits ci (length ws) w [0..<32] m = Inr m1" "marked ci {p. \<exists>b\<in>set [0..<32]. bit w b \<and> p = length ws * 32 + b} m m1" by blast
  then have "length m1 = HSA_CPU_SIBLINGS" using Cons.prems(2) by (simp add: marked_def)
  moreover have "\<forall>p\<in>cpumap_set ws. p < length ci" using Cons.prems(1) by (simp add: cpumap_set_Cons)
  ultimately obtain m2 where m2: "cpumap_hexs ci (length ws) ts m1 = Inr m2" "marked ci (cpumap_set ws) m1 m2" using Cons.IH by blast
  from marked_trans [OF m1(2) m2(2)] show ?case using w m1(1) m2(1) by (simp add: cpumap_set_Cons)
qed (simp add: marked_def cpumap_set_def)

text \<open>
  C36. The map of processors that share a cache is read as it was printed. For the text of any set of processors of the machine, in words of
  32 with the first word in one to eight digits, the reader ends without a fault and marks exactly the
  identifiers of the processors in the set, besides those that were marked before.
\<close>

theorem cpumap_roundtrip:
  assumes "0 < k" "k \<le> 8" "unat w < 16 ^ k" and "\<forall>p\<in>cpumap_set (w # ws). p < length ci"
    and "length (SiblingMap c) = HSA_CPU_SIBLINGS"
  shows "\<exists>m. cpumap_to_cpu_ci (cpumap_text k w ws) ci c = Inr (c\<lparr>SiblingMap := m\<rparr>) \<and> length m = HSA_CPU_SIBLINGS \<and>
    (\<forall>a<HSA_CPU_SIBLINGS. m ! a = (if \<exists>p\<in>cpumap_set (w # ws). unat (apicid (ci ! p)) = a then 1 else SiblingMap c ! a))"
proof -
  let ?ts = "hex k (unat w) # map (\<lambda>w. hex 8 (unat w)) ws"
  have l: "length (cpumap_text k w ws) = k + 9 * length ws" by (induction ws) (simp_all add: cpumap_text_def)
  have n: "(length (cpumap_text k w ws) + 8) div 9 = length (w # ws)" using assms(1,2) unfolding l by simp
  have "strtol 16 (hex 8 (unat v)) = int (unat v)" for v :: u32 using unat_lt32 [of v] by (intro strtol_hex) simp_all
  then have "list_all2 (\<lambda>t w. strtol 16 t = int (unat w)) ?ts (w # ws)"
    using strtol_hex [OF assms(1-3)] by (simp add: list_all2_map1 list_all2_same)
  from cpumap_hexs_marks [OF this assms(4,5)] obtain m where
    m: "cpumap_hexs ci (length (w # ws)) ?ts (SiblingMap c) = Inr m" "marked ci (cpumap_set (w # ws)) (SiblingMap c) m" by blast
  have "cpumap_to_cpu_ci (cpumap_text k w ws) ci c = Inr (c\<lparr>SiblingMap := m\<rparr>)"
    unfolding cpumap_to_cpu_ci_def n strtok_text [OF assms(1)] m(1) by simp
  moreover have "length m = HSA_CPU_SIBLINGS" "\<forall>a<HSA_CPU_SIBLINGS. m ! a = (if \<exists>p\<in>cpumap_set (w # ws). unat (apicid (ci ! p)) = a then 1 else SiblingMap c ! a)"
    using m(2) assms(5) by (simp_all add: marked_def)
  ultimately show ?thesis by blast
qed

theorem cpumap_roundtrip_witness:
  "\<exists>m. cpumap_to_cpu_ci (cpumap_text 1 0 [2])
      [\<lparr>proc_num = 0, apicid = 4, model_name = []\<rparr>, \<lparr>proc_num = 0, apicid = 6, model_name = []\<rparr>] zero_cache = Inr (zero_cache\<lparr>SiblingMap := m\<rparr>) \<and>
    m ! 6 = 1 \<and> m ! 4 = 0"
proof -
  let ?ci = "[\<lparr>proc_num = 0, apicid = 4, model_name = []\<rparr>, \<lparr>proc_num = 0, apicid = 6, model_name = []\<rparr>]"
  have s: "cpumap_set [0, 2] = {1}"
  proof -
    have "bit (2 :: u32) b \<longleftrightarrow> b = 1" for b using bit_exp_iff [of 1 b, where 'a = u32] by auto
    then have "{p. \<exists>b\<in>set [0..<32]. bit (2 :: u32) b \<and> p = length ([] :: u32 list) * 32 + b} = {1}" unfolding set_upt by auto
    moreover have "{p. \<exists>b\<in>set [0..<32]. bit (0 :: u32) b \<and> p = length [2 :: u32] * 32 + b} = {}" by simp
    moreover have "cpumap_set [] = {}" by (simp add: cpumap_set_def)
    ultimately show ?thesis unfolding cpumap_set_Cons by blast
  qed
  have pre: "0 < (1 :: nat)" "(1 :: nat) \<le> 8" "unat (0 :: u32) < 16 ^ 1" "\<forall>p\<in>cpumap_set [0, 2]. p < length ?ci" "length (SiblingMap zero_cache) = HSA_CPU_SIBLINGS"
    by (simp_all add: s zero_cache_def)
  from cpumap_roundtrip [OF pre] obtain m where
    m: "cpumap_to_cpu_ci (cpumap_text 1 0 [2]) ?ci zero_cache = Inr (zero_cache\<lparr>SiblingMap := m\<rparr>)"
      "\<forall>a<HSA_CPU_SIBLINGS. m ! a = (if unat (apicid (?ci ! 1)) = a then 1 else SiblingMap zero_cache ! a)"
    unfolding s by auto
  then have "m ! 6 = 1" "m ! 4 = 0" by (simp_all add: HSA_CPU_SIBLINGS_def zero_cache_def)
  with m(1) show ?thesis by blast
qed

section \<open>The number of caches\<close>

lemma cache_loop_count:
  "cache_loop fs pre ci p9 cpu ids n cache num = Inr (cache', num') \<Longrightarrow> length ids \<le> num \<Longrightarrow>
   num' \<le> num \<and> length cache' + num = length cache + length ids + num'"
proof (induction ids arbitrary: n cache num)
  case (Cons idx ids)
  let ?ok = "num' \<le> num \<and> length cache' + num = length cache + length (idx # ids) + num'"
  have skip: ?ok if "cache_loop fs pre ci p9 cpu ids n' cache (num - 1) = Inr (cache', num')" for n'
    using Cons.IH [OF that] Cons.prems(2) by simp arith
  have push: ?ok if "bindE r (\<lambda>c. cache_loop fs pre ci p9 cpu ids n' (cache @ [c]) num) = Inr (cache', num')" for n' r
  proof -
    from that obtain c where "cache_loop fs pre ci p9 cpu ids n' (cache @ [c]) num = Inr (cache', num')" by (auto simp: bindE_Inr_iff)
    from Cons.IH [OF this] Cons.prems(2) show ?thesis by simp
  qed
  show ?case
  proof (cases p9)
    case True
    with Cons.prems(1) skip push show ?thesis by (auto split: if_splits)
  next
    case False
    with Cons.prems(1) obtain v where v: "(case fscanf_dec fs (index_file pre idx ''shared_cpu_list'') 0 of
        (ret, v) \<Rightarrow> if ret = HSAKMT_STATUS_SUCCESS then Some v else n) = Some v" by (auto split: option.splits)
    from False Cons.prems(1) have "if cpu \<noteq> sint v then cache_loop fs pre ci p9 cpu ids (Some v) cache (num - 1) = Inr (cache', num')
      else bindE (read_cache fs pre idx ci (zero_cache\<lparr>ProcessorIdLow := apicid (ci ! nat cpu)\<rparr>)) (\<lambda>c.
        cache_loop fs pre ci p9 cpu ids (Some v) (cache @ [c]) num) = Inr (cache', num')" by (simp add: v split: if_splits)
    then show ?thesis using skip push by (cases "cpu \<noteq> sint v") auto
  qed
qed simp

lemma cpu_dirs_count:
  "cpu_dirs fs vendor node_dir ci names cache cnt = Inr (fin, cache', cnt') \<Longrightarrow> length cache' + cnt = length cache + cnt'"
proof (induction names arbitrary: cache cnt)
  case (Cons name ns)
  show ?case
  proof (cases "(take 3 name \<noteq> ''cpu'' \<or> length name \<le> 3 \<or> \<not> is_digit 10 (name ! 3)) \<or> \<not> length node_dir + length name + 6 + 2 < MAXPATHSIZE")
    case True
    with Cons show ?thesis by (auto split: if_splits)
  next
    case False
    let ?p = "node_dir @ ''/'' @ name @ ''/cache''"
    from False Cons.prems obtain c k where r: "get_cpu_cache_info fs vendor ?p ci (atoi (drop 3 name)) (num_subdirs fs ?p ''index'') cache = Inr (c, k)"
      "cpu_dirs fs vendor node_dir ci ns c (cnt + k) = Inr (fin, cache', cnt')" by (auto simp: bindE_Inr_iff Let_def)
    from r(1) obtain p9 where "cache_loop fs ?p ci p9 (atoi (drop 3 name)) [0..<num_subdirs fs ?p ''index''] None cache (num_subdirs fs ?p ''index'') = Inr (c, k)"
      by (auto simp: get_cpu_cache_info_def bindE_Inr_iff)
    from cache_loop_count [OF this] have "length c = length cache + k" by simp
    with Cons.IH [OF r(2)] show ?thesis by simp
  qed
qed simp

text \<open>Nothing else in the reading of the caches is an assertion.\<close>

definition no_assert :: "'a res \<Rightarrow> bool" where
  "no_assert r \<longleftrightarrow> (\<forall>w. r \<noteq> Inl (Assert_Failed w))"

lemma no_assert_simps [simp]: "no_assert (Inr x)" "no_assert (Inl e) \<longleftrightarrow> (\<forall>w. e \<noteq> Assert_Failed w)"
  by (auto simp: no_assert_def)

lemma no_assert_bind [intro]: "no_assert r \<Longrightarrow> (\<And>x. r = Inr x \<Longrightarrow> no_assert (k x)) \<Longrightarrow> no_assert (bindE r k)"
  by (cases r) (auto simp: no_assert_def)

lemma no_assert_bits: "no_assert (cpumap_bits ci n w bs m)"
  by (induction bs arbitrary: m) (simp_all add: Let_def)

lemma no_assert_hexs: "no_assert (cpumap_hexs ci n ts m)"
  by (induction ci n ts m rule: cpumap_hexs.induct) (auto intro: no_assert_bits)

lemma no_assert_read: "no_assert (read_cache fs pre idx ci c)"
proof -
  have "no_assert (fscanf_str fs path str)" for path str by (simp add: fscanf_str_def Let_def split: option.split)
  moreover have "no_assert (cpumap_to_cpu_ci str ci c)" for str c unfolding cpumap_to_cpu_ci_def by (intro no_assert_bind no_assert_hexs) simp
  ultimately show ?thesis unfolding read_cache_def Let_def by (intro no_assert_bind) (auto split: prod.split)
qed

lemma no_assert_loop: "no_assert (cache_loop fs pre ci p9 cpu ids n cache num)"
  by (induction ids arbitrary: n cache num) (auto intro: no_assert_read split: option.split)

lemma no_assert_power9: "no_assert (is_power9 vendor ci)"
  by (simp add: is_power9_def split: list.split)

lemma no_assert_dirs: "no_assert (cpu_dirs fs vendor node_dir ci names cache cnt)"
proof (induction names arbitrary: cache cnt)
  case (Cons name ns)
  have "no_assert (get_cpu_cache_info fs vendor path ci cpu n cache)" for path cpu n cache
    unfolding get_cpu_cache_info_def by (intro no_assert_bind no_assert_power9 no_assert_loop)
  with Cons show ?case by (auto simp: Let_def split: prod.split)
qed simp

lemma cpu_cache_count:
  assumes "topology_get_cpu_cache_props fs vendor node ci old = Inr (ret, cache, Some n)"
  shows "old = [] \<and> n = length cache"
proof -
  have tail: "old = [] \<and> n = length cache"
    if "(if e then Inr (HSAKMT_STATUS_ERROR, old, None) else case fs_dir fs d of
       None \<Rightarrow> Inl (Null_Deref ''topology_get_cpu_cache_props'')
     | Some names \<Rightarrow>
         bindE (cpu_dirs fs vendor d ci names old 0) (\<lambda>(done, cache, cnt).
         if \<not> done then Inr (HSAKMT_STATUS_SUCCESS, cache, None)
         else bindE (assertE ''topology_get_cpu_cache_props'' (cnt = length cache)) (\<lambda>_.
           Inr (HSAKMT_STATUS_SUCCESS, cache, Some cnt)))) = Inr (ret, cache, Some n)" for e d
  proof -
    from that obtain names where "bindE (cpu_dirs fs vendor d ci names old 0) (\<lambda>(done, cache, cnt).
         if \<not> done then Inr (HSAKMT_STATUS_SUCCESS, cache, None)
         else bindE (assertE ''topology_get_cpu_cache_props'' (cnt = length cache)) (\<lambda>_.
           Inr (HSAKMT_STATUS_SUCCESS, cache, Some cnt))) = Inr (ret, cache, Some n)" by (cases e; cases "fs_dir fs d") simp_all
    then obtain fin c k where c: "cpu_dirs fs vendor d ci names old 0 = Inr (fin, c, k)" and
      "(if \<not> fin then Inr (HSAKMT_STATUS_SUCCESS, c, None)
        else bindE (assertE ''topology_get_cpu_cache_props'' (k = length c)) (\<lambda>_. Inr (HSAKMT_STATUS_SUCCESS, c, Some k))) = Inr (ret, cache, Some n)"
      by (cases "cpu_dirs fs vendor d ci names old 0") auto
    then have "c = cache" "k = n" "k = length c" by (cases fin; cases "k = length c"; simp)+
    with cpu_dirs_count [OF c] show ?thesis by simp
  qed
  show ?thesis
  proof (cases "is_power9 vendor ci")
    case (Inr p9)
    show ?thesis using assms unfolding topology_get_cpu_cache_props_def Inr bindE_simps Let_def by (rule tail)
  qed (use assms in \<open>simp add: topology_get_cpu_cache_props_def\<close>)
qed

text \<open>The caches that were in the table stay in front of the new ones.\<close>

lemma bindE_assoc_pair: "bindE (bindE r f) g = bindE r (\<lambda>x. bindE (f x) g)"
  by (cases r) simp_all

lemma cache_loop_append:
  "cache_loop fs pre ci p9 cpu ids n (old @ cache) num = bindE (cache_loop fs pre ci p9 cpu ids n cache num) (\<lambda>(c, k). Inr (old @ c, k))"
proof (induction ids arbitrary: p9 cpu n cache num)
  case (Cons idx ids)
  show ?case
  proof (cases p9)
    case True
    then show ?thesis by (simp add: Cons.IH bindE_assoc_pair)
  next
    case False
    let ?v = "case fscanf_dec fs (index_file pre idx ''shared_cpu_list'') 0 of (ret, v) \<Rightarrow> if ret = HSAKMT_STATUS_SUCCESS then Some v else n"
    from False show ?thesis by (cases ?v) (simp_all add: Cons.IH bindE_assoc_pair)
  qed
qed simp

lemma cpu_dirs_append:
  "cpu_dirs fs vendor node_dir ci names (old @ cache) cnt = bindE (cpu_dirs fs vendor node_dir ci names cache cnt) (\<lambda>(fin, c, k). Inr (fin, old @ c, k))"
proof (induction names arbitrary: cache cnt)
  case (Cons name ns)
  have info: "get_cpu_cache_info fs vendor path ci cpu n (old @ cache) = bindE (get_cpu_cache_info fs vendor path ci cpu n cache) (\<lambda>(c, k). Inr (old @ c, k))" for path cpu n
    by (simp add: get_cpu_cache_info_def cache_loop_append bindE_assoc_pair)
  have step: "bindE (bindE r (\<lambda>(c, k). Inr (old @ c, k))) (\<lambda>(cache, k). cpu_dirs fs vendor node_dir ci ns cache (cnt + k)) =
      bindE (bindE r (\<lambda>(cache, k). cpu_dirs fs vendor node_dir ci ns cache (cnt + k))) (\<lambda>(fin, c, k). Inr (fin, old @ c, k))" for r :: "(HsaCacheProperties list \<times> nat) res"
    using Cons.IH by (cases r) auto
  show ?case by (simp add: Cons.IH Let_def info step)
qed simp

lemma cpu_cache_again:
  assumes "topology_get_cpu_cache_props fs vendor node ci [] = Inr (ret, cache, Some n)" and "old \<noteq> []"
  shows "topology_get_cpu_cache_props fs vendor node ci old = Inl (Assert_Failed ''topology_get_cpu_cache_props'')"
proof -
  have tail: "(if e then Inr (HSAKMT_STATUS_ERROR, old, None) else case fs_dir fs d of
       None \<Rightarrow> Inl (Null_Deref ''topology_get_cpu_cache_props'')
     | Some names \<Rightarrow>
         bindE (cpu_dirs fs vendor d ci names old 0) (\<lambda>(done, cache, cnt).
         if \<not> done then Inr (HSAKMT_STATUS_SUCCESS, cache, None)
         else bindE (assertE ''topology_get_cpu_cache_props'' (cnt = length cache)) (\<lambda>_.
           Inr (HSAKMT_STATUS_SUCCESS, cache, Some cnt)))) = Inl (Assert_Failed ''topology_get_cpu_cache_props'')"
    if "(if e then Inr (HSAKMT_STATUS_ERROR, [], None) else case fs_dir fs d of
       None \<Rightarrow> Inl (Null_Deref ''topology_get_cpu_cache_props'')
     | Some names \<Rightarrow>
         bindE (cpu_dirs fs vendor d ci names [] 0) (\<lambda>(done, cache, cnt).
         if \<not> done then Inr (HSAKMT_STATUS_SUCCESS, cache, None)
         else bindE (assertE ''topology_get_cpu_cache_props'' (cnt = length cache)) (\<lambda>_.
           Inr (HSAKMT_STATUS_SUCCESS, cache, Some cnt)))) = Inr (ret, cache, Some n)" for e d
  proof -
    from that obtain names where e: "\<not> e" "fs_dir fs d = Some names" by (cases e; cases "fs_dir fs d") simp_all
    with that obtain fin c k where c: "cpu_dirs fs vendor d ci names [] 0 = Inr (fin, c, k)" by (cases "cpu_dirs fs vendor d ci names [] 0") auto
    with that e have "fin" by (cases fin) auto
    moreover have "k \<noteq> length (old @ c)" using cpu_dirs_count [OF c] assms(2) by simp
    ultimately show ?thesis using e c cpu_dirs_append [of fs vendor d ci names old "[]" 0] by (simp add: assertE_def)
  qed
  show ?thesis
  proof (cases "is_power9 vendor ci")
    case (Inr p9)
    show ?thesis using assms(1) unfolding topology_get_cpu_cache_props_def Inr bindE_simps Let_def by (rule tail)
  qed (use assms in \<open>simp add: topology_get_cpu_cache_props_def\<close>)
qed

text \<open>
  C37. The assertion on the number of caches depends on an empty table. Whatever the files hold, reading the caches of a node into
  an empty table does not fail the assertion of \<^verbatim>\<open>topology_get_cpu_cache_props\<close>, and the number it stores is the number of caches in the table. Where that
  reading completes with a count, the same reading into any table that already has caches stops at the assertion.
\<close>

theorem cpu_caches_counted:
  "topology_get_cpu_cache_props fs vendor node ci [] \<noteq> Inl (Assert_Failed ''topology_get_cpu_cache_props'') \<and>
   (topology_get_cpu_cache_props fs vendor node ci [] = Inr (ret, cache, Some n) \<longrightarrow> n = length cache \<and>
     (old \<noteq> [] \<longrightarrow> topology_get_cpu_cache_props fs vendor node ci old = Inl (Assert_Failed ''topology_get_cpu_cache_props'')))"
proof
  have rest: "no_assert (if e then Inr (HSAKMT_STATUS_ERROR, [], None) else case fs_dir fs d of
       None \<Rightarrow> Inl (Null_Deref ''topology_get_cpu_cache_props'')
     | Some names \<Rightarrow>
         bindE (cpu_dirs fs vendor d ci names [] 0) (\<lambda>(done, cache, cnt).
         if \<not> done then Inr (HSAKMT_STATUS_SUCCESS, cache, None)
         else bindE (assertE ''topology_get_cpu_cache_props'' (cnt = length cache)) (\<lambda>_.
           Inr (HSAKMT_STATUS_SUCCESS, cache, Some cnt))))" for e d
  proof -
    have "no_assert (bindE (cpu_dirs fs vendor d ci names [] 0) (\<lambda>(done, cache, cnt).
         if \<not> done then Inr (HSAKMT_STATUS_SUCCESS, cache, None)
         else bindE (assertE ''topology_get_cpu_cache_props'' (cnt = length cache)) (\<lambda>_.
           Inr (HSAKMT_STATUS_SUCCESS, cache, Some cnt))))" for names
    proof (rule no_assert_bind [OF no_assert_dirs])
      fix x assume x: "cpu_dirs fs vendor d ci names [] 0 = Inr x"
      obtain fin cache cnt where "x = (fin, cache, cnt)" by (cases x)
      with cpu_dirs_count [of fs vendor d ci names "[]" 0] x show "no_assert (case x of (done, cache, cnt) \<Rightarrow>
         if \<not> done then Inr (HSAKMT_STATUS_SUCCESS, cache, None)
         else bindE (assertE ''topology_get_cpu_cache_props'' (cnt = length cache)) (\<lambda>_. Inr (HSAKMT_STATUS_SUCCESS, cache, Some cnt)))" by auto
    qed
    then show ?thesis by (simp split: option.split)
  qed
  have "no_assert (topology_get_cpu_cache_props fs vendor node ci [])"
    unfolding topology_get_cpu_cache_props_def Let_def by (rule no_assert_bind [OF no_assert_power9 rest])
  then show "topology_get_cpu_cache_props fs vendor node ci [] \<noteq> Inl (Assert_Failed ''topology_get_cpu_cache_props'')" by (simp add: no_assert_def)
  show "topology_get_cpu_cache_props fs vendor node ci [] = Inr (ret, cache, Some n) \<longrightarrow> n = length cache \<and>
     (old \<noteq> [] \<longrightarrow> topology_get_cpu_cache_props fs vendor node ci old = Inl (Assert_Failed ''topology_get_cpu_cache_props''))"
    using cpu_cache_count cpu_cache_again by blast
qed

text \<open>A machine with one processor and no directory of caches.\<close>

definition one_cpu :: sysfs where
  "one_cpu = \<lparr>fs_file = \<lambda>_. None, fs_dir = \<lambda>path. if path = ''/sys/devices/system/node/node0'' then Some [''cpulist'', ''cpu0''] else None\<rparr>"

lemma one_cpu_run: "topology_get_cpu_cache_props one_cpu 0 0 [\<lparr>proc_num = 0, apicid = 4, model_name = []\<rparr>] [] = Inr (HSAKMT_STATUS_SUCCESS, [], Some 0)"
  by code_simp

theorem cpu_caches_counted_witness:
  "topology_get_cpu_cache_props one_cpu 0 0 [\<lparr>proc_num = 0, apicid = 4, model_name = []\<rparr>] [] = Inr (HSAKMT_STATUS_SUCCESS, [], Some 0) \<and>
   topology_get_cpu_cache_props one_cpu 0 0 [\<lparr>proc_num = 0, apicid = 4, model_name = []\<rparr>] [zero_cache] = Inl (Assert_Failed ''topology_get_cpu_cache_props'')"
  using cpu_caches_counted [of one_cpu 0 0 "[\<lparr>proc_num = 0, apicid = 4, model_name = []\<rparr>]" HSAKMT_STATUS_SUCCESS "[]" 0 "[zero_cache]"] one_cpu_run by blast

end
