(* ===== verification/Topology.thy ===== *)
theory Topology
  imports Sysfs Queues
begin

text \<open>
  The topology, from \<^verbatim>\<open>src/src/topology.cpp\<close>: the snapshot of the nodes with their memory banks, caches and links, and the functions of the interface that
  read it. Node 0 is the CPU, node \<open>i\<close> the device \<open>i - 1\<close>. What a device reports about itself, the files, the number of processors and
  the environment are parameters.
\<close>

section \<open>Properties\<close>

record HsaSystemProperties =
  NumNodes :: u32
  PlatformOem :: u32
  PlatformId :: u32
  PlatformRev :: u32

record HSA_ENGINE_ID =
  eng_uCode :: u32
  eng_Major :: u32
  eng_Minor :: u32
  eng_Stepping :: u32

text \<open>The fields of the capability word that the code assigns or reads.\<close>

record HSA_CAPABILITY =
  HSAMMUPresent :: u32
  WatchPointsTotalBits :: u32
  DoorbellType :: u32
  ASICRevision :: u32
  SVMAPISupported :: u32

record HsaNodeProperties =
  NumCPUCores :: u32
  NumFComputeCores :: u32
  NumNeuralCores :: u32
  NumMemoryBanks :: u32
  NumCaches :: u32
  NumIOLinks :: u32
  CComputeIdLo :: u32
  FComputeIdLo :: u32
  Capability :: HSA_CAPABILITY
  Capability2 :: u32
  MaxWavesPerSIMD :: u32
  LDSSizeInKB :: u32
  GDSSizeInKB :: u32
  WaveFrontSize :: u32
  NumShaderBanks :: u32
  NumArrays :: u32
  NumCUPerArray :: u32
  NumSIMDPerCU :: u32
  MaxSlotsScratchCU :: u32
  EngineId :: HSA_ENGINE_ID
  OverrideEngineId :: HSA_ENGINE_ID
  VendorId :: "16 word"
  DeviceId :: "16 word"
  LocationId :: u32
  LocalMemSize :: u64
  MaxEngineClockMhzFCompute :: u32
  MaxEngineClockMhzCCompute :: u32
  DrmRenderMinor :: int
  MarketingName :: string
  AMDName :: string
  uCodeSDMA :: u32
  DebugProperties :: u64
  HiveID :: u64
  NumSdmaEngines :: u32
  NumSdmaXgmiEngines :: u32
  NumSdmaQueuesPerEngine :: "8 word"
  NumCpQueues :: "8 word"
  NumGws :: "8 word"
  Integrated :: "8 word"
  Domain :: u32
  UniqueID :: u64
  VGPRSizePerCU :: u32
  SGPRSizePerCU :: u32
  NumXcc :: u32
  KFDGpuID :: u32
  FamilyID :: u32
  CwsrSize :: u32
  CtlStackSize :: u32
  LuidLowPart :: u32
  LuidHighPart :: u32
  WallClockKHz :: u64

datatype HSA_HEAPTYPE =
    HSA_HEAPTYPE_SYSTEM | HSA_HEAPTYPE_FRAME_BUFFER_PUBLIC | HSA_HEAPTYPE_FRAME_BUFFER_PRIVATE | HSA_HEAPTYPE_GPU_GDS
  | HSA_HEAPTYPE_GPU_LDS | HSA_HEAPTYPE_GPU_SCRATCH | HSA_HEAPTYPE_DEVICE_SVM | HSA_HEAPTYPE_MMIO_REMAP

record HsaMemoryProperties =
  HeapType :: HSA_HEAPTYPE
  SizeInBytes :: u64
  MemoryProperty :: u32
  Width :: u32
  MemoryClockMax :: u32
  VirtualBaseAddress :: u64

datatype HSA_IOLINKTYPE =
    HSA_IOLINKTYPE_UNDEFINED | HSA_IOLINKTYPE_HYPERTRANSPORT | HSA_IOLINKTYPE_PCIEXPRESS | HSA_IOLINKTYPE_AMBA
  | HSA_IOLINKTYPE_MIPI | HSA_IOLINK_TYPE_QPI_1_1 | HSA_IOLINK_TYPE_RESERVED1 | HSA_IOLINK_TYPE_RESERVED2
  | HSA_IOLINK_TYPE_RAPID_IO | HSA_IOLINK_TYPE_INFINIBAND | HSA_IOLINK_TYPE_RESERVED3 | HSA_IOLINK_TYPE_XGMI
  | HSA_IOLINK_TYPE_XGOP | HSA_IOLINK_TYPE_GZ | HSA_IOLINK_TYPE_ETHERNET_RDMA | HSA_IOLINK_TYPE_RDMA_OTHER
  | HSA_IOLINK_TYPE_OTHER

record HsaIoLinkProperties =
  IoLinkType :: HSA_IOLINKTYPE
  VersionMajor :: u32
  VersionMinor :: u32
  NodeFrom :: u32
  NodeTo :: u32
  Weight :: u32
  RecSdmaEngIdMask :: u32
  LP_Override :: bool
  LP_NonCoherent :: bool
  LP_NoAtomics32bit :: bool
  LP_NoAtomics64bit :: bool

record node_props =
  np_node :: HsaNodeProperties
  np_mem :: "HsaMemoryProperties list"
  np_cache :: "HsaCacheProperties list"
  np_link :: "HsaIoLinkProperties list"

definition zero_system :: HsaSystemProperties where
  "zero_system = \<lparr>NumNodes = 0, PlatformOem = 0, PlatformId = 0, PlatformRev = 0\<rparr>"

definition zero_engine :: HSA_ENGINE_ID where
  "zero_engine = \<lparr>eng_uCode = 0, eng_Major = 0, eng_Minor = 0, eng_Stepping = 0\<rparr>"

definition zero_capability :: HSA_CAPABILITY where
  "zero_capability = \<lparr>HSAMMUPresent = 0, WatchPointsTotalBits = 0, DoorbellType = 0, ASICRevision = 0, SVMAPISupported = 0\<rparr>"

definition zero_node :: HsaNodeProperties where
  "zero_node = \<lparr>
     NumCPUCores = 0, NumFComputeCores = 0, NumNeuralCores = 0, NumMemoryBanks = 0, NumCaches = 0, NumIOLinks = 0, CComputeIdLo = 0,
     FComputeIdLo = 0, Capability = zero_capability, Capability2 = 0, MaxWavesPerSIMD = 0, LDSSizeInKB = 0, GDSSizeInKB = 0,
     WaveFrontSize = 0, NumShaderBanks = 0, NumArrays = 0, NumCUPerArray = 0, NumSIMDPerCU = 0, MaxSlotsScratchCU = 0,
     EngineId = zero_engine, OverrideEngineId = zero_engine, VendorId = 0, DeviceId = 0, LocationId = 0, LocalMemSize = 0,
     MaxEngineClockMhzFCompute = 0, MaxEngineClockMhzCCompute = 0, DrmRenderMinor = 0, MarketingName = [], AMDName = [], uCodeSDMA = 0,
     DebugProperties = 0, HiveID = 0, NumSdmaEngines = 0, NumSdmaXgmiEngines = 0, NumSdmaQueuesPerEngine = 0, NumCpQueues = 0, NumGws = 0,
     Integrated = 0, Domain = 0, UniqueID = 0, VGPRSizePerCU = 0, SGPRSizePerCU = 0, NumXcc = 0, KFDGpuID = 0, FamilyID = 0, CwsrSize = 0,
     CtlStackSize = 0, LuidLowPart = 0, LuidHighPart = 0, WallClockKHz = 0\<rparr>"

definition zero_mem :: HsaMemoryProperties where
  "zero_mem = \<lparr>HeapType = HSA_HEAPTYPE_SYSTEM, SizeInBytes = 0, MemoryProperty = 0, Width = 0, MemoryClockMax = 0, VirtualBaseAddress = 0\<rparr>"

definition zero_link :: HsaIoLinkProperties where
  "zero_link = \<lparr>IoLinkType = HSA_IOLINKTYPE_UNDEFINED, VersionMajor = 0, VersionMinor = 0, NodeFrom = 0, NodeTo = 0, Weight = 0,
     RecSdmaEngIdMask = 0, LP_Override = False, LP_NonCoherent = False, LP_NoAtomics32bit = False, LP_NoAtomics64bit = False\<rparr>"

definition zero_props :: node_props where
  "zero_props = \<lparr>np_node = zero_node, np_mem = [], np_cache = [], np_link = []\<rparr>"

section \<open>State and environment\<close>

text \<open>What a device of the platform reports besides the fields of \<^typ>\<open>wddm_device\<close>.\<close>

record gpu_info =
  gi_simd_per_cu :: u32
  gi_wave_per_cu :: u32
  gi_asic_revision :: u32
  gi_watch_points :: u32
  gi_wavefront_size :: u32
  gi_shader_arrays :: u32
  gi_device_id :: u32
  gi_pci_bus_addr :: u32
  gi_max_engine_clock :: u32
  gi_product_name :: string
  gi_sdma_fw :: u32
  gi_mec_fw :: u32
  gi_num_sdma :: u32
  gi_num_cp_queues :: u32
  gi_domain :: u32
  gi_uuid :: u64
  gi_family :: u32
  gi_minor :: int
  gi_stepping :: int
  gi_memory_bus_width :: u32
  gi_max_memory_clock :: u32
  gi_l1_cache :: u32
  gi_l2_cache :: u32
  gi_l3_cache :: u32
  gi_counter_frequency :: u64

record topology_env =
  te_mem :: mem_env
  te_fs :: sysfs
  te_nproc :: u32
  te_freq_max :: u32
  te_adapters :: "(wddm_device \<times> gpu_info) list"
  te_override :: "string option"
  te_malloc :: bool

record topology_state =
  ts_mem :: mem_state
  ts_info :: "gpu_info list"
  g_system :: "HsaSystemProperties option"
  g_props :: "node_props list"
  processor_vendor :: int

definition resize :: "nat \<Rightarrow> 'a \<Rightarrow> 'a list \<Rightarrow> 'a list" where
  "resize n x xs = take n xs @ replicate (n - length xs) x"

definition at :: "string \<Rightarrow> 'a list \<Rightarrow> nat \<Rightarrow> 'a res" where
  "at loc xs i = (if i < length xs then Inr (xs ! i) else Inl (Out_Of_Bounds loc))"

section \<open>Devices\<close>

fun WDDMCreateDevices :: "dx_env \<Rightarrow> (wddm_device \<times> gpu_info) list \<Rightarrow> dx_trace \<Rightarrow> (wddm_device list \<times> dx_trace) res" where
  "WDDMCreateDevices env [] tr = Inr ([], tr)"
| "WDDMCreateDevices env ((d, info) # as) tr =
     bindE (WDDMDevice_ctor env d tr) (\<lambda>(d, tr).
     bindE (WDDMCreateDevices env as tr) (\<lambda>(ds, tr). Inr (d # ds, tr)))"

definition dev_at :: "mem_state \<Rightarrow> nat \<Rightarrow> wddm_device option" where
  "dev_at st i = (case get_wddmdev st (of_nat i) of Inr (Some k) \<Rightarrow> Some (ms_devs st ! k) | _ \<Rightarrow> None)"

definition topology_map_node_id :: "u32 \<Rightarrow> topology_state \<Rightarrow> (HSAKMT_STATUS \<times> nat option) res" where
  "topology_map_node_id node_id ts =
     bindE (get_wddmdev (ts_mem ts) node_id) (\<lambda>dev.
       Inr (if dev = None then HSAKMT_STATUS_ERROR else HSAKMT_STATUS_SUCCESS, dev))"

definition topology_sysfs_get_system_props :: "topology_env \<Rightarrow> topology_state \<Rightarrow>
    (HSAKMT_STATUS \<times> HsaSystemProperties \<times> topology_state) res" where
  "topology_sysfs_get_system_props te ts =
     (let env = me_dx (te_mem te); st = ts_mem ts in
      case HeapFini env (dev_at st) (length (ms_devs st)) (ms_rt st) (ms_tr st) of (rt, tr) \<Rightarrow>
      bindE (WDDMCreateDevices env (te_adapters te) (fold (WDDMDevice_dtor env) (ms_devs st) tr)) (\<lambda>(devs, tr).
      let st = st\<lparr>ms_rt := rt, ms_tr := tr, ms_devs := devs\<rparr>; ts = ts\<lparr>ts_info := map snd (te_adapters te)\<rparr> in
      if devs = [] then Inr (HSAKMT_STATUS_ERROR, zero_system, ts\<lparr>ts_mem := st\<rparr>)
      else let n = of_nat (length devs); st = st\<lparr>ms_num_nodes := n + 1\<rparr> in
        bindE (HeapInit env (dev_at st) (length devs) rt tr) (\<lambda>(rt, tr).
        let rt = (if rt_default_node rt > n then rt\<lparr>rt_default_node := n\<rparr> else rt)
        in Inr (HSAKMT_STATUS_SUCCESS, zero_system\<lparr>NumNodes := n + 1\<rparr>, ts\<lparr>ts_mem := st\<lparr>ms_rt := rt, ms_tr := tr\<rparr>\<rparr>))))"

section \<open>One node\<close>

definition topology_setup_is_dgpu_param :: "HsaNodeProperties \<Rightarrow> topology_state \<Rightarrow> topology_state" where
  "topology_setup_is_dgpu_param props ts =
     (if NumCPUCores props = 0 \<and> NumFComputeCores props \<noteq> 0
      then ts\<lparr>ts_mem := (ts_mem ts)\<lparr>ms_rt := (ms_rt (ts_mem ts))\<lparr>rt_is_dgpu := True\<rparr>\<rparr>\<rparr> else ts)"

fun topology_get_cpu_model_name :: "HsaNodeProperties \<Rightarrow> proc_cpuinfo list \<Rightarrow> HsaNodeProperties" where
  "topology_get_cpu_model_name props [] = props"
| "topology_get_cpu_model_name props (c # ci) =
     (if CComputeIdLo props = apicid c
      then (if DeviceId props = 0 then props\<lparr>AMDName := model_name c\<rparr> else props)\<lparr>MarketingName := take (HSA_PUBLIC_NAME_SIZE - 1) (model_name c)\<rparr>
      else topology_get_cpu_model_name props ci)"

text \<open>\<^verbatim>\<open>sscanf(s, "%u.%u.%u%c", ...) == 3\<close>\<close>

definition scan_u32 :: "string \<Rightarrow> (u32 \<times> string) option" where
  "scan_u32 s = (case scan_number 10 s of None \<Rightarrow> None | Some (neg, v, rest) \<Rightarrow> Some (ucast (strtoul_value neg v), rest))"

definition scan_dot :: "string \<Rightarrow> (u32 \<times> string) option" where
  "scan_dot s = (case s of c # cs \<Rightarrow> if c = CHR ''.'' then scan_u32 cs else None | [] \<Rightarrow> None)"

definition scan_version :: "string \<Rightarrow> (u32 \<times> u32 \<times> u32) option" where
  "scan_version s =
     (case scan_u32 s of None \<Rightarrow> None | Some (major, s) \<Rightarrow>
      case scan_dot s of None \<Rightarrow> None | Some (minor, s) \<Rightarrow>
      case scan_dot s of None \<Rightarrow> None | Some (step, s) \<Rightarrow> if s = [] then Some (major, minor, step) else None)"

definition override_engine :: "string option \<Rightarrow> HsaNodeProperties \<Rightarrow> HSAKMT_STATUS \<times> HsaNodeProperties" where
  "override_engine envvar props =
     (case envvar of
        None \<Rightarrow> (HSAKMT_STATUS_SUCCESS, props)
      | Some s \<Rightarrow> (case scan_version s of
          None \<Rightarrow> (HSAKMT_STATUS_ERROR, props)
        | Some (major, minor, step) \<Rightarrow>
            if major > 63 \<or> minor > 255 \<or> step > 255 then (HSAKMT_STATUS_ERROR, props)
            else (HSAKMT_STATUS_SUCCESS, props\<lparr>OverrideEngineId := (OverrideEngineId props)\<lparr>eng_Major := major AND 0x3f,
                    eng_Minor := minor AND 0xff, eng_Stepping := step AND 0xff\<rparr>\<rparr>)))"

text \<open>\<^verbatim>\<open>std::log2\<close> of a positive integer, truncated; for 0 the conversion has no defined value.\<close>

fun log2_floor :: "nat \<Rightarrow> nat" where
  "log2_floor n = (if n < 2 then 0 else Suc (log2_floor (n div 2)))"

declare log2_floor.simps [simp del]

definition gpu_props1 :: "u32 \<Rightarrow> wddm_device \<Rightarrow> gpu_info \<Rightarrow> HsaNodeProperties \<Rightarrow> HsaNodeProperties res" where
  "gpu_props1 node_id d gi props =
     (if gi_watch_points gi = 0 then Inl (Out_Of_Bounds ''log2'')
      else if gi_simd_per_cu gi = 0 \<or> gi_shader_arrays gi = 0 then Inl (Div_By_Zero ''topology_sysfs_get_node_props'')
      else Inr (props\<lparr>
        NumCPUCores := 0, NumFComputeCores := gi_simd_per_cu gi * dev_compute_unit_count d, NumMemoryBanks := 1,
        NumCaches := 3, NumIOLinks := 1, CComputeIdLo := 0, FComputeIdLo := 0,
        Capability := (Capability props)\<lparr>ASICRevision := take_bit 4 (gi_asic_revision gi),
          WatchPointsTotalBits := take_bit 4 (of_nat (log2_floor (unat (gi_watch_points gi))))\<rparr>,
        MaxWavesPerSIMD := gi_wave_per_cu gi div gi_simd_per_cu gi, LDSSizeInKB := dev_lds_size d div 1024, GDSSizeInKB := 0,
        WaveFrontSize := gi_wavefront_size gi, NumShaderBanks := dev_num_shader_engine d, NumArrays := gi_shader_arrays gi,
        NumCUPerArray := dev_compute_unit_count d div gi_shader_arrays gi, NumSIMDPerCU := gi_simd_per_cu gi,
        MaxSlotsScratchCU := dev_max_scratch_slots_per_cu d, VendorId := 0x1002, DeviceId := ucast (gi_device_id gi),
        LocationId := gi_pci_bus_addr gi, LocalMemSize := 0, MaxEngineClockMhzFCompute := gi_max_engine_clock gi,
        DrmRenderMinor := sint node_id, MarketingName := take (HSA_PUBLIC_NAME_SIZE - 1) (gi_product_name gi),
        uCodeSDMA := take_bit 10 (gi_sdma_fw gi), DebugProperties := 0, HiveID := 0, NumSdmaEngines := gi_num_sdma gi, NumSdmaXgmiEngines := 0,
        NumSdmaQueuesPerEngine := 6, NumCpQueues := ucast (gi_num_cp_queues gi), NumGws := 0, Integrated := 0,
        Domain := gi_domain gi, UniqueID := gi_uuid gi, NumXcc := 1, KFDGpuID := gi_device_id gi, FamilyID := gi_family gi,
        EngineId := (EngineId props)\<lparr>eng_uCode := take_bit 10 (gi_mec_fw gi)\<rparr>\<rparr>))"

definition SGPR_SIZE_PER_CU :: u32 where "SGPR_SIZE_PER_CU = 0x4000"

definition gpu_props2 :: "wddm_device \<Rightarrow> gpu_info \<Rightarrow> runtime \<Rightarrow> HsaNodeProperties \<Rightarrow> HsaNodeProperties res" where
  "gpu_props2 d gi rt props =
     (let eng = (EngineId props)\<lparr>eng_Major := take_bit 6 (word_of_int (dev_major d)), eng_Minor := take_bit 8 (word_of_int (gi_minor gi)),
            eng_Stepping := take_bit 8 (word_of_int (gi_stepping gi))\<rparr>;
          full = HSA_GET_GFX_VERSION_FULL (eng_Major eng) (eng_Minor eng) (eng_Stepping eng);
          cap = (if \<not> rt_svm_supported rt then (Capability props)\<lparr>SVMAPISupported := 0\<rparr> else Capability props);
          props = props\<lparr>EngineId := eng, AMDName := ''GFX'' @ hex 6 (unat full), Capability := cap\<lparr>DoorbellType := 2\<rparr>,
            SGPRSizePerCU := SGPR_SIZE_PER_CU, VGPRSizePerCU := get_vgpr_size_per_cu (eng_Major eng) (eng_Minor eng) (eng_Stepping eng)\<rparr>
      in bindE (assertE ''topology_sysfs_get_node_props'' (NumFComputeCores props = 0 \<or> eng_Major eng \<noteq> 0)) (\<lambda>_. Inr props))"

text \<open>The status, the properties, and the two results about peer links, which are never anything else.\<close>

definition topology_sysfs_get_node_props :: "topology_env \<Rightarrow> u32 \<Rightarrow> topology_state \<Rightarrow>
    (HSAKMT_STATUS \<times> HsaNodeProperties \<times> bool \<times> u32) res" where
  "topology_sysfs_get_node_props te node_id ts =
     (let props = zero_node\<lparr>MaxEngineClockMhzCCompute := te_freq_max te\<rparr> in
      if node_id = 0 then Inr (HSAKMT_STATUS_SUCCESS, props\<lparr>NumCPUCores := te_nproc te, NumMemoryBanks := 1, KFDGpuID := 0\<rparr>, False, 0)
      else bindE (topology_map_node_id node_id ts) (\<lambda>(ret, dev).
        case dev of
          None \<Rightarrow> Inr (ret, props, False, 0)
        | Some i \<Rightarrow>
            let d = ms_devs (ts_mem ts) ! i; gi = ts_info ts ! i in
            bindE (gpu_props1 node_id d gi props) (\<lambda>props.
            case override_engine (te_override te) props of (ret, props) \<Rightarrow>
              if ret \<noteq> HSAKMT_STATUS_SUCCESS then Inr (ret, props, False, 0)
              else bindE (gpu_props2 d gi (ms_rt (ts_mem ts)) props) (\<lambda>props. Inr (HSAKMT_STATUS_SUCCESS, props, False, 0)))))"

definition topology_sysfs_get_mem_props :: "topology_env \<Rightarrow> u32 \<Rightarrow> topology_state \<Rightarrow>
    (HSAKMT_STATUS \<times> HsaMemoryProperties \<times> topology_state) res" where
  "topology_sysfs_get_mem_props te node_id ts =
     (let st = ts_mem ts in
      if node_id = 0 then
        (case dx (me_dx (te_mem te)) Sysinfo (ms_tr st) of
           (None, tr) \<Rightarrow> Inl (Uninitialised ''topology_sysfs_get_mem_props'')
         | (Some vs, tr) \<Rightarrow>
             let totalram = out_arg vs 0
             in Inr (HSAKMT_STATUS_SUCCESS,
                  zero_mem\<lparr>HeapType := HSA_HEAPTYPE_SYSTEM, SizeInBytes := totalram, MemoryProperty := 0, Width := 64, MemoryClockMax := 2133\<rparr>,
                  ts\<lparr>ts_mem := st\<lparr>ms_tr := tr, ms_rt := (ms_rt st)\<lparr>rt_max_single_alloc_size := totalram - drop_bit 4 totalram\<rparr>\<rparr>\<rparr>))
      else bindE (topology_map_node_id node_id ts) (\<lambda>(ret, dev).
        case dev of
          None \<Rightarrow> Inr (ret, zero_mem, ts)
        | Some i \<Rightarrow>
            let d = ms_devs st ! i; gi = ts_info ts ! i
            in Inr (HSAKMT_STATUS_SUCCESS,
                 zero_mem\<lparr>HeapType := HSA_HEAPTYPE_FRAME_BUFFER_PRIVATE,
                   SizeInBytes := (if dev_is_dgpu d then LocalHeapSize d else LocalHeapSize d + dev_non_local_heap_size d),
                   Width := gi_memory_bus_width gi, MemoryClockMax := gi_max_memory_clock gi\<rparr>, ts)))"

definition topology_sysfs_get_iolink_props :: "u32 \<Rightarrow> topology_state \<Rightarrow> (HSAKMT_STATUS \<times> HsaIoLinkProperties) res" where
  "topology_sysfs_get_iolink_props node_id ts =
     bindE (topology_map_node_id node_id ts) (\<lambda>(_, dev).
     case dev of
       None \<Rightarrow> Inl (Null_Deref ''topology_sysfs_get_iolink_props'')
     | Some i \<Rightarrow>
         let a = dev_platform_atomic (ms_devs (ts_mem ts) ! i)
         in Inr (HSAKMT_STATUS_SUCCESS, zero_link\<lparr>IoLinkType := HSA_IOLINKTYPE_PCIEXPRESS, VersionMajor := 0, VersionMinor := 0,
              NodeFrom := node_id, NodeTo := 0, Weight := 20, LP_Override := True, LP_NonCoherent := True,
              LP_NoAtomics32bit := \<not> a, LP_NoAtomics64bit := \<not> a, RecSdmaEngIdMask := 0\<rparr>))"

end
