(* ===== verification/Snapshot.thy ===== *)
theory Snapshot
  imports Topology
begin

text \<open>
  The links between the nodes, the snapshot itself and the functions of the interface that read it, from \<^verbatim>\<open>src/src/topology.cpp\<close>.
\<close>

section \<open>Links\<close>

text \<open>The free slot of a node is the index of its next link; \<open>None\<close> is the null pointer.\<close>

definition topology_get_free_io_link_slot_for_node :: "nat \<Rightarrow> HsaSystemProperties \<Rightarrow> node_props list \<Rightarrow> nat option res" where
  "topology_get_free_io_link_slot_for_node node_id sys nps =
     bindE (at ''topology_get_free_io_link_slot_for_node'' nps node_id) (\<lambda>np.
     if node_id \<ge> unat (NumNodes sys) then Inr None
     else if np_link np = [] then Inr None
     else if NumIOLinks (np_node np) \<ge> NumNodes sys - 1 then Inr None
     else let k = unat (NumIOLinks (np_node np)) in
       if k < length (np_link np) then Inr (Some k) else Inl (Out_Of_Bounds ''topology_get_free_io_link_slot_for_node''))"

definition topology_add_io_link_for_node :: "nat \<Rightarrow> HsaSystemProperties \<Rightarrow> HSA_IOLINKTYPE \<Rightarrow> nat \<Rightarrow> u32 \<Rightarrow> node_props list \<Rightarrow>
    (HSAKMT_STATUS \<times> node_props list) res" where
  "topology_add_io_link_for_node node_from sys ty node_to weight nps =
     bindE (topology_get_free_io_link_slot_for_node node_from sys nps) (\<lambda>slot.
     case slot of
       None \<Rightarrow> Inr (HSAKMT_STATUS_NO_MEMORY, nps)
     | Some k \<Rightarrow>
         let np = nps ! node_from;
             l = (np_link np ! k)\<lparr>IoLinkType := ty, NodeFrom := of_nat node_from, NodeTo := of_nat node_to, Weight := weight\<rparr>;
             np = np\<lparr>np_link := (np_link np)[k := l], np_node := (np_node np)\<lparr>NumIOLinks := NumIOLinks (np_node np) + 1\<rparr>\<rparr>
         in Inr (HSAKMT_STATUS_SUCCESS, nps[node_from := np]))"

text \<open>The search over the first \<open>n\<close> links of a node.\<close>

fun find_link :: "(HsaIoLinkProperties \<Rightarrow> bool) \<Rightarrow> HsaIoLinkProperties list \<Rightarrow> nat \<Rightarrow> HsaIoLinkProperties option res" where
  "find_link P ls 0 = Inr None"
| "find_link P [] (Suc n) = Inl (Out_Of_Bounds ''find_link'')"
| "find_link P (l # ls) (Suc n) = (if P l then Inr (Some l) else find_link P ls n)"

definition gpu_get_direct_link_cpu :: "nat \<Rightarrow> node_props list \<Rightarrow> int res" where
  "gpu_get_direct_link_cpu gpu_node nps =
     bindE (at ''gpu_get_direct_link_cpu'' nps gpu_node) (\<lambda>np.
     if KFDGpuID (np_node np) = 0 \<or> np_link np = [] \<or> NumIOLinks (np_node np) = 0 then Inr (-1)
     else bindE (find_link (\<lambda>l. IoLinkType l = HSA_IOLINKTYPE_PCIEXPRESS \<and> Weight l \<le> 20) (np_link np) (unat (NumIOLinks (np_node np)))) (\<lambda>r.
       Inr (case r of None \<Rightarrow> -1 | Some l \<Rightarrow> sint (NodeTo l))))"

definition get_direct_iolink_info :: "nat \<Rightarrow> nat \<Rightarrow> node_props list \<Rightarrow> (HSAKMT_STATUS + u32 \<times> HSA_IOLINKTYPE) res" where
  "get_direct_iolink_info node1 node2 nps =
     bindE (at ''get_direct_iolink_info'' nps node1) (\<lambda>np.
     if np_link np = [] then Inr (Inl HSAKMT_STATUS_INVALID_NODE_UNIT)
     else bindE (find_link (\<lambda>l. NodeTo l = of_nat node2) (np_link np) (unat (NumIOLinks (np_node np)))) (\<lambda>r.
       Inr (case r of None \<Rightarrow> Inl HSAKMT_STATUS_INVALID_PARAMETER | Some l \<Rightarrow> Inr (Weight l, IoLinkType l))))"

text \<open>The next direct link of a path: it stops at the first one that is missing, with the type found so far.\<close>

definition via :: "nat \<Rightarrow> nat \<Rightarrow> node_props list \<Rightarrow> HSA_IOLINKTYPE \<Rightarrow>
    (u32 \<Rightarrow> HSA_IOLINKTYPE \<Rightarrow> (HSAKMT_STATUS \<times> u32 \<times> HSA_IOLINKTYPE) res) \<Rightarrow> (HSAKMT_STATUS \<times> u32 \<times> HSA_IOLINKTYPE) res" where
  "via node1 node2 nps ty k =
     bindE (get_direct_iolink_info node1 node2 nps) (\<lambda>r. case r of Inl e \<Rightarrow> Inr (e, 0, ty) | Inr (w, t) \<Rightarrow> k w t)"

definition has_public_bank :: "node_props \<Rightarrow> bool res" where
  "has_public_bank np =
     (let n = unat (NumMemoryBanks (np_node np)); public = (\<lambda>m. HeapType m = HSA_HEAPTYPE_FRAME_BUFFER_PUBLIC) in
      if \<exists>m\<in>set (take n (np_mem np)). public m then Inr True
      else if n \<le> length (np_mem np) then Inr False else Inl (Out_Of_Bounds ''get_indirect_iolink_info''))"

definition get_indirect_iolink_info :: "nat \<Rightarrow> nat \<Rightarrow> node_props list \<Rightarrow> (HSAKMT_STATUS \<times> u32 \<times> HSA_IOLINKTYPE) res" where
  "get_indirect_iolink_info node1 node2 nps =
     (let U = HSA_IOLINKTYPE_UNDEFINED in
      if node1 = node2 then Inr (HSAKMT_STATUS_INVALID_PARAMETER, 0, U)
      else bindE (at ''get_indirect_iolink_info'' nps node1) (\<lambda>n1. bindE (at ''get_indirect_iolink_info'' nps node2) (\<lambda>n2.
      let g1 = KFDGpuID (np_node n1) \<noteq> 0; g2 = KFDGpuID (np_node n2) \<noteq> 0 in
      if \<not> g1 \<and> \<not> g2 then Inr (HSAKMT_STATUS_INVALID_NODE_UNIT, 0, U)
      else if HiveID (np_node n1) \<noteq> 0 \<and> HiveID (np_node n2) \<noteq> 0 \<and> HiveID (np_node n1) = HiveID (np_node n2)
      then Inr (HSAKMT_STATUS_INVALID_PARAMETER, 0, U)
      else bindE (if g1 then gpu_get_direct_link_cpu node1 nps else Inr (-1)) (\<lambda>cpu1.
      bindE (if g2 then gpu_get_direct_link_cpu node2 nps else Inr (-1)) (\<lambda>cpu2.
      if cpu1 < 0 \<and> cpu2 < 0 then Inr (HSAKMT_STATUS_ERROR, 0, U)
      else bindE (if g2 then has_public_bank n2 else Inr True) (\<lambda>large_bar.
      if \<not> large_bar then Inr (HSAKMT_STATUS_ERROR, 0, U)
      else let c1 = nat cpu1; c2 = nat cpu2 in
      if cpu1 \<ge> 0 then
        if cpu2 \<ge> 0 then
          if cpu1 = cpu2 then via node1 c1 nps U (\<lambda>w1 _. via c1 node2 nps U (\<lambda>w2 t. Inr (HSAKMT_STATUS_SUCCESS, w1 + w2, t)))
          else via node1 c1 nps U (\<lambda>w1 _. via c1 c2 nps U (\<lambda>w2 t.
            if t = HSA_IOLINK_TYPE_QPI_1_1 \<and> w2 > 20 then Inr (HSAKMT_STATUS_NOT_SUPPORTED, 0, t)
            else via c2 node2 nps t (\<lambda>w3 _. Inr (HSAKMT_STATUS_SUCCESS, w1 + w2 + w3, t))))
        else via node1 c1 nps U (\<lambda>w1 _. via c1 node2 nps U (\<lambda>w2 t. Inr (HSAKMT_STATUS_SUCCESS, w1 + w2, t)))
      else via node1 c2 nps U (\<lambda>w2 t. via c2 node2 nps t (\<lambda>w3 _. Inr (HSAKMT_STATUS_SUCCESS, w2 + w3, t)))))))))"

definition indirect_link :: "HsaSystemProperties \<Rightarrow> nat \<Rightarrow> nat \<Rightarrow> node_props list \<Rightarrow> node_props list res" where
  "indirect_link sys i j nps =
     bindE (get_indirect_iolink_info i j nps) (\<lambda>(_, weight, ty).
       if weight = 0 then Inr nps
       else bindE (topology_add_io_link_for_node i sys ty j weight nps) (\<lambda>(_, nps). Inr nps))"

fun indirect_links :: "HsaSystemProperties \<Rightarrow> (nat \<times> nat) list \<Rightarrow> node_props list \<Rightarrow> node_props list res" where
  "indirect_links sys [] nps = Inr nps"
| "indirect_links sys ((i, j) # ps) nps =
     bindE (indirect_link sys i j nps) (\<lambda>nps. bindE (indirect_link sys j i nps) (\<lambda>nps. indirect_links sys ps nps))"

definition topology_create_indirect_gpu_links :: "HsaSystemProperties \<Rightarrow> node_props list \<Rightarrow> node_props list res" where
  "topology_create_indirect_gpu_links sys nps =
     indirect_links sys (concat (map (\<lambda>i. map (Pair i) [Suc i..<unat (NumNodes sys)]) [0..<unat (NumNodes sys - 1)])) nps"

section \<open>The snapshot\<close>

definition set_node :: "nat \<Rightarrow> (node_props \<Rightarrow> node_props) \<Rightarrow> topology_state \<Rightarrow> topology_state" where
  "set_node i f ts = ts\<lparr>g_props := (g_props ts)[i := f (g_props ts ! i)]\<rparr>"

fun snapshot_banks :: "topology_env \<Rightarrow> nat \<Rightarrow> nat list \<Rightarrow> topology_state \<Rightarrow> (HSAKMT_STATUS \<times> topology_state) res" where
  "snapshot_banks te i [] ts = Inr (HSAKMT_STATUS_SUCCESS, ts)"
| "snapshot_banks te i (m # ms) ts =
     bindE (topology_sysfs_get_mem_props te (of_nat i) ts) (\<lambda>(ret, props, ts).
     let ts = set_node i (\<lambda>np. np\<lparr>np_mem := (np_mem np)[m := props]\<rparr>) ts in
     if ret \<noteq> HSAKMT_STATUS_SUCCESS then Inr (ret, ts) else snapshot_banks te i ms ts)"

definition snapshot_mem :: "topology_env \<Rightarrow> nat \<Rightarrow> topology_state \<Rightarrow> (HSAKMT_STATUS \<times> topology_state) res" where
  "snapshot_mem te i ts =
     (let n = unat (NumMemoryBanks (np_node (g_props ts ! i))) in
      if n = 0 then Inr (HSAKMT_STATUS_SUCCESS, ts)
      else snapshot_banks te i [0..<n] (set_node i (\<lambda>np. np\<lparr>np_mem := resize n zero_mem (np_mem np)\<rparr>) ts))"

definition gpu_cache :: "u32 \<Rightarrow> u32 \<Rightarrow> HsaCacheProperties \<Rightarrow> HsaCacheProperties" where
  "gpu_cache level sz c = c\<lparr>CT_Data := True, CT_HSACU := True, CacheLevel := level, CacheSize := sz div 1024\<rparr>"

definition snapshot_cache :: "topology_env \<Rightarrow> proc_cpuinfo list \<Rightarrow> nat \<Rightarrow> topology_state \<Rightarrow> (HSAKMT_STATUS \<times> topology_state) res" where
  "snapshot_cache te ci i ts =
     (let np = g_props ts ! i; n = unat (NumCaches (np_node np)) in
      if n \<noteq> 0 then
        if n < 3 then Inl (Out_Of_Bounds ''topology_take_snapshot'')
        else bindE (topology_map_node_id (of_nat i) ts) (\<lambda>(_, dev).
          case dev of
            None \<Rightarrow> Inl (Null_Deref ''topology_take_snapshot'')
          | Some k \<Rightarrow>
              let gi = ts_info ts ! k; cs = resize n zero_cache (np_cache np);
                  cs = cs[0 := gpu_cache 1 (gi_l1_cache gi) (cs ! 0), 1 := gpu_cache 2 (gi_l2_cache gi) (cs ! 1),
                          2 := gpu_cache 3 (gi_l3_cache gi) (cs ! 2)]
              in Inr (HSAKMT_STATUS_SUCCESS, set_node i (\<lambda>np. np\<lparr>np_cache := cs\<rparr>) ts))
      else if KFDGpuID (np_node np) = 0 then
        bindE (topology_get_cpu_cache_props (te_fs te) (processor_vendor ts) i ci (np_cache np)) (\<lambda>(ret, cs, cnt).
          Inr (ret, set_node i (\<lambda>np. np\<lparr>np_cache := cs,
            np_node := (case cnt of None \<Rightarrow> np_node np | Some k \<Rightarrow> (np_node np)\<lparr>NumCaches := of_nat k\<rparr>)\<rparr>) ts))
      else Inr (HSAKMT_STATUS_SUCCESS, ts))"

text \<open>The loop over the links that a node reports: \<open>k\<close> are left, \<open>link_id\<close> have been written.\<close>

fun link_loop :: "nat \<Rightarrow> nat \<Rightarrow> nat \<Rightarrow> nat \<Rightarrow> topology_state \<Rightarrow> (HSAKMT_STATUS \<times> nat \<times> topology_state) res" where
  "link_loop i room 0 link_id ts = Inr (HSAKMT_STATUS_SUCCESS, link_id, ts)"
| "link_loop i room (Suc k) link_id ts =
     (if \<not> link_id < room then Inr (HSAKMT_STATUS_SUCCESS, link_id, ts)
      else bindE (topology_sysfs_get_iolink_props (of_nat i) ts) (\<lambda>(ret, props).
        let ts = set_node i (\<lambda>np. np\<lparr>np_link := (np_link np)[link_id := props]\<rparr>) ts in
        if ret = HSAKMT_STATUS_NOT_SUPPORTED then link_loop i room k link_id ts
        else if ret \<noteq> HSAKMT_STATUS_SUCCESS then Inr (ret, link_id, ts) else link_loop i room k (Suc link_id) ts))"

definition set_links :: "nat \<Rightarrow> nat \<Rightarrow> topology_state \<Rightarrow> topology_state" where
  "set_links i n ts = set_node i (\<lambda>np. np\<lparr>np_node := (np_node np)\<lparr>NumIOLinks := of_nat n\<rparr>\<rparr>) ts"

definition snapshot_link :: "HsaSystemProperties \<Rightarrow> nat \<Rightarrow> u32 \<Rightarrow> topology_state \<Rightarrow> (HSAKMT_STATUS \<times> topology_state) res" where
  "snapshot_link sys i num_p2pLinks ts =
     (let room = unat (NumNodes sys - 1);
          ts = set_node i (\<lambda>np. np\<lparr>np_link := resize room zero_link (np_link np)\<rparr>) ts;
          num_ioLinks = unat (NumIOLinks (np_node (g_props ts ! i)) - num_p2pLinks) in
      bindE (if num_ioLinks = 0 then Inr (HSAKMT_STATUS_SUCCESS, 0, ts) else link_loop i room num_ioLinks 0 ts) (\<lambda>(ret, link_id, ts).
      if ret \<noteq> HSAKMT_STATUS_SUCCESS then Inr (ret, ts)
      else let ts = (if num_ioLinks = 0 then ts else set_links i link_id ts) in
      if num_p2pLinks = 0 then Inr (HSAKMT_STATUS_SUCCESS, ts)
      else bindE (link_loop i room (unat num_p2pLinks) link_id ts) (\<lambda>(ret, link_id, ts).
        if ret \<noteq> HSAKMT_STATUS_SUCCESS then Inr (ret, ts) else Inr (HSAKMT_STATUS_SUCCESS, set_links i link_id ts))))"

definition snapshot_node :: "topology_env \<Rightarrow> proc_cpuinfo list \<Rightarrow> HsaSystemProperties \<Rightarrow> nat \<Rightarrow> topology_state \<Rightarrow>
    (HSAKMT_STATUS \<times> bool \<times> topology_state) res" where
  "snapshot_node te ci sys i ts =
     bindE (topology_sysfs_get_node_props te (of_nat i) ts) (\<lambda>(ret, props, p2p_links, num_p2pLinks).
     let ts = set_node i (\<lambda>np. np\<lparr>np_node := props\<rparr>) ts in
     if ret \<noteq> HSAKMT_STATUS_SUCCESS then Inr (ret, p2p_links, ts)
     else let ts = topology_setup_is_dgpu_param props ts;
              ts = (if NumCPUCores props \<noteq> 0 then set_node i (\<lambda>np. np\<lparr>np_node := topology_get_cpu_model_name (np_node np) ci\<rparr>) ts else ts) in
     bindE (snapshot_mem te i ts) (\<lambda>(ret, ts). if ret \<noteq> HSAKMT_STATUS_SUCCESS then Inr (ret, p2p_links, ts)
     else bindE (snapshot_cache te ci i ts) (\<lambda>(ret, ts). if ret \<noteq> HSAKMT_STATUS_SUCCESS then Inr (ret, p2p_links, ts)
     else bindE (snapshot_link sys i num_p2pLinks ts) (\<lambda>(ret, ts). Inr (ret, p2p_links, ts)))))"

fun snapshot_nodes :: "topology_env \<Rightarrow> proc_cpuinfo list \<Rightarrow> HsaSystemProperties \<Rightarrow> nat list \<Rightarrow> bool \<Rightarrow> topology_state \<Rightarrow>
    (HSAKMT_STATUS \<times> bool \<times> topology_state) res" where
  "snapshot_nodes te ci sys [] p2p_links ts = Inr (HSAKMT_STATUS_SUCCESS, p2p_links, ts)"
| "snapshot_nodes te ci sys (i # ids) p2p_links ts =
     bindE (snapshot_node te ci sys i ts) (\<lambda>(ret, p2p_links, ts).
       if ret \<noteq> HSAKMT_STATUS_SUCCESS then Inr (ret, p2p_links, ts) else snapshot_nodes te ci sys ids p2p_links ts)"

definition topology_take_snapshot :: "topology_env \<Rightarrow> topology_state \<Rightarrow> (HSAKMT_STATUS \<times> topology_state) res" where
  "topology_take_snapshot te ts =
     bindE (topology_parse_cpuinfo (te_fs te) (replicate (unat (te_nproc te)) \<lparr>proc_num = 0, apicid = 0, model_name = []\<rparr>)
       (processor_vendor ts)) (\<lambda>(_, ci, vendor).
     bindE (topology_sysfs_get_system_props te (ts\<lparr>processor_vendor := vendor\<rparr>)) (\<lambda>(ret, sys, ts).
     if ret \<noteq> HSAKMT_STATUS_SUCCESS then Inr (ret, ts)
     else let n = unat (NumNodes sys) in
       bindE (if n > 0 then snapshot_nodes te ci sys [0..<n] False (ts\<lparr>g_props := resize n zero_props (g_props ts)\<rparr>)
              else Inr (HSAKMT_STATUS_SUCCESS, False, ts)) (\<lambda>(ret, p2p_links, ts).
       if ret \<noteq> HSAKMT_STATUS_SUCCESS then Inr (ret, ts)
       else bindE (if p2p_links then Inr (g_props ts) else topology_create_indirect_gpu_links sys (g_props ts)) (\<lambda>nps.
         let ts = ts\<lparr>g_props := nps\<rparr> in
         if g_system ts = None \<and> \<not> te_malloc te then Inr (HSAKMT_STATUS_NO_MEMORY, ts)
         else Inr (HSAKMT_STATUS_SUCCESS, ts\<lparr>g_system := Some sys\<rparr>)))))"

definition topology_drop_snapshot :: "topology_env \<Rightarrow> topology_state \<Rightarrow> topology_state res" where
  "topology_drop_snapshot te ts =
     bindE (trim_suballocator (te_mem te) (ts_mem ts)) (\<lambda>st.
       Inr (ts\<lparr>g_props := [], g_system := None, ts_info := [],
         ts_mem := st\<lparr>ms_devs := [], ms_tr := fold (WDDMDevice_dtor (me_dx (te_mem te))) (ms_devs st) (ms_tr st)\<rparr>\<rparr>))"

section \<open>The interface\<close>

definition hsaKmtAcquireSystemProperties :: "topology_env \<Rightarrow> bool \<Rightarrow> topology_state \<Rightarrow>
    (HSAKMT_STATUS \<times> HsaSystemProperties option \<times> topology_state) res" where
  "hsaKmtAcquireSystemProperties te has_out ts =
     (if \<not> dxg_open (ts_mem ts) then Inr (HSAKMT_STATUS_KERNEL_IO_CHANNEL_NOT_OPENED, None, ts)
      else if \<not> has_out then Inr (HSAKMT_STATUS_INVALID_PARAMETER, None, ts)
      else if g_system ts \<noteq> None then Inr (HSAKMT_STATUS_SUCCESS, g_system ts, ts)
      else bindE (topology_take_snapshot te ts) (\<lambda>(err, ts).
        if err \<noteq> HSAKMT_STATUS_SUCCESS then Inr (err, None, ts)
        else bindE (assertE ''hsaKmtAcquireSystemProperties'' (g_system ts \<noteq> None)) (\<lambda>_. Inr (HSAKMT_STATUS_SUCCESS, g_system ts, ts))))"

definition hsaKmtReleaseSystemProperties :: "topology_env \<Rightarrow> topology_state \<Rightarrow> (HSAKMT_STATUS \<times> topology_state) res" where
  "hsaKmtReleaseSystemProperties te ts = bindE (topology_drop_snapshot te ts) (\<lambda>ts. Inr (HSAKMT_STATUS_SUCCESS, ts))"

definition valid_node :: "u32 \<Rightarrow> topology_state \<Rightarrow> bool" where
  "valid_node node ts \<longleftrightarrow> (case g_system ts of None \<Rightarrow> False | Some sys \<Rightarrow> node < NumNodes sys)"

definition node_at :: "string \<Rightarrow> u32 \<Rightarrow> topology_state \<Rightarrow> node_props res" where
  "node_at loc node ts = at loc (g_props ts) (unat node)"

definition validate_nodeid :: "u32 \<Rightarrow> topology_state \<Rightarrow> (HSAKMT_STATUS + u32) res" where
  "validate_nodeid nodeid ts =
     (if g_props ts = [] \<or> \<not> valid_node nodeid ts then Inr (Inl HSAKMT_STATUS_INVALID_NODE_UNIT)
      else bindE (node_at ''validate_nodeid'' nodeid ts) (\<lambda>np. Inr (Inr (KFDGpuID (np_node np)))))"

fun find_gpu :: "string \<Rightarrow> u32 \<Rightarrow> nat list \<Rightarrow> topology_state \<Rightarrow> nat option res" where
  "find_gpu loc gpu_id [] ts = Inr None"
| "find_gpu loc gpu_id (i # ids) ts =
     bindE (at loc (g_props ts) i) (\<lambda>np. if KFDGpuID (np_node np) = gpu_id then Inr (Some i) else find_gpu loc gpu_id ids ts)"

definition gpuid_to_nodeid :: "u32 \<Rightarrow> topology_state \<Rightarrow> (HSAKMT_STATUS + u32) res" where
  "gpuid_to_nodeid gpu_id ts =
     (case g_system ts of
        None \<Rightarrow> Inl (Null_Deref ''gpuid_to_nodeid'')
      | Some sys \<Rightarrow> bindE (find_gpu ''gpuid_to_nodeid'' gpu_id [0..<unat (NumNodes sys)] ts) (\<lambda>r.
          Inr (case r of None \<Rightarrow> Inl HSAKMT_STATUS_INVALID_NODE_UNIT | Some i \<Rightarrow> Inr (of_nat i))))"

text \<open>
  The client's structure is filled up to the size its version has: \<open>abi\<close> is that size, or 0 if the client has not told it. A field is copied if it ends within the size.
\<close>

definition copy_node :: "nat \<Rightarrow> HsaNodeProperties \<Rightarrow> HsaNodeProperties \<Rightarrow> HsaNodeProperties" where
  "copy_node len src dst =
     (let pick = (\<lambda>k. if k \<le> len then src else dst) in \<lparr>
     NumCPUCores = NumCPUCores (pick 4), NumFComputeCores = NumFComputeCores (pick 8), NumNeuralCores = NumNeuralCores (pick 12),
     NumMemoryBanks = NumMemoryBanks (pick 16), NumCaches = NumCaches (pick 20), NumIOLinks = NumIOLinks (pick 24),
     CComputeIdLo = CComputeIdLo (pick 28), FComputeIdLo = FComputeIdLo (pick 32), Capability = Capability (pick 36),
     Capability2 = Capability2 (pick 40), MaxWavesPerSIMD = MaxWavesPerSIMD (pick 44), LDSSizeInKB = LDSSizeInKB (pick 48),
     GDSSizeInKB = GDSSizeInKB (pick 52), WaveFrontSize = WaveFrontSize (pick 56), NumShaderBanks = NumShaderBanks (pick 60),
     NumArrays = NumArrays (pick 64), NumCUPerArray = NumCUPerArray (pick 68), NumSIMDPerCU = NumSIMDPerCU (pick 72),
     MaxSlotsScratchCU = MaxSlotsScratchCU (pick 76), EngineId = EngineId (pick 80), OverrideEngineId = OverrideEngineId (pick 84),
     VendorId = VendorId (pick 86), DeviceId = DeviceId (pick 88), LocationId = LocationId (pick 92),
     LocalMemSize = LocalMemSize (pick 104), MaxEngineClockMhzFCompute = MaxEngineClockMhzFCompute (pick 108),
     MaxEngineClockMhzCCompute = MaxEngineClockMhzCCompute (pick 112), DrmRenderMinor = DrmRenderMinor (pick 116),
     MarketingName = MarketingName (pick 244), AMDName = AMDName (pick 308), uCodeSDMA = uCodeSDMA (pick 312),
     DebugProperties = DebugProperties (pick 320), HiveID = HiveID (pick 328), NumSdmaEngines = NumSdmaEngines (pick 332),
     NumSdmaXgmiEngines = NumSdmaXgmiEngines (pick 336), NumSdmaQueuesPerEngine = NumSdmaQueuesPerEngine (pick 337),
     NumCpQueues = NumCpQueues (pick 338), NumGws = NumGws (pick 339), Integrated = Integrated (pick 340), Domain = Domain (pick 344),
     UniqueID = UniqueID (pick 352), VGPRSizePerCU = VGPRSizePerCU (pick 356), SGPRSizePerCU = SGPRSizePerCU (pick 360),
     NumXcc = NumXcc (pick 364), KFDGpuID = KFDGpuID (pick 368), FamilyID = FamilyID (pick 372), CwsrSize = CwsrSize (pick 376),
     CtlStackSize = CtlStackSize (pick 380), LuidLowPart = LuidLowPart (pick 384), LuidHighPart = LuidHighPart (pick 388),
     WallClockKHz = WallClockKHz (pick 400)\<rparr>)"

definition topology_get_node_props :: "nat \<Rightarrow> u32 \<Rightarrow> HsaNodeProperties \<Rightarrow> topology_state \<Rightarrow> (HSAKMT_STATUS \<times> HsaNodeProperties) res" where
  "topology_get_node_props abi node out ts =
     (if \<not> valid_node node ts \<or> g_props ts = [] then Inr (HSAKMT_STATUS_ERROR, out)
      else bindE (node_at ''topology_get_node_props'' node ts) (\<lambda>np.
        Inr (HSAKMT_STATUS_SUCCESS, copy_node (if abi > 0 then min abi 400 else 368) (np_node np) out)))"

definition NUM_OF_IGPU_HEAPS :: u32 where "NUM_OF_IGPU_HEAPS = 3"
definition NUM_OF_DGPU_HEAPS :: u32 where "NUM_OF_DGPU_HEAPS = 3"

definition hsaKmtGetNodeProperties :: "nat \<Rightarrow> u32 \<Rightarrow> HsaNodeProperties option \<Rightarrow> topology_state \<Rightarrow> (HSAKMT_STATUS \<times> HsaNodeProperties option) res" where
  "hsaKmtGetNodeProperties abi node out ts =
     (case out of
        None \<Rightarrow> Inr (HSAKMT_STATUS_INVALID_PARAMETER, out)
      | Some o0 \<Rightarrow>
          if \<not> dxg_open (ts_mem ts) then Inr (HSAKMT_STATUS_KERNEL_IO_CHANNEL_NOT_OPENED, out)
          else bindE (validate_nodeid node ts) (\<lambda>r. case r of
            Inl err \<Rightarrow> Inr (err, out)
          | Inr gpu_id \<Rightarrow>
              bindE (topology_get_node_props abi node o0 ts) (\<lambda>(err, p).
              if err \<noteq> HSAKMT_STATUS_SUCCESS \<or> gpu_id = 0 then Inr (err, Some p)
              else Inr (err, Some (p\<lparr>NumMemoryBanks := NumMemoryBanks p + (if Integrated p = 0 then NUM_OF_DGPU_HEAPS else NUM_OF_IGPU_HEAPS)\<rparr>)))))"

definition hsaKmtGetNodeWallclockFrequency :: "u32 \<Rightarrow> bool \<Rightarrow> topology_state \<Rightarrow> (HSAKMT_STATUS \<times> u64 option) res" where
  "hsaKmtGetNodeWallclockFrequency node has_out ts =
     (if \<not> has_out then Inr (HSAKMT_STATUS_INVALID_PARAMETER, None)
      else if \<not> dxg_open (ts_mem ts) then Inr (HSAKMT_STATUS_KERNEL_IO_CHANNEL_NOT_OPENED, None)
      else bindE (get_wddmdev (ts_mem ts) node) (\<lambda>dev. case dev of
        None \<Rightarrow> Inr (HSAKMT_STATUS_INVALID_NODE_UNIT, None)
      | Some i \<Rightarrow> Inr (HSAKMT_STATUS_SUCCESS, Some (gi_counter_frequency (ts_info ts ! i)))))"

text \<open>The banks of the node, then the local and the scratch memory of its device, as far as the client has room.\<close>

fun copy_banks :: "HsaMemoryProperties list \<Rightarrow> nat list \<Rightarrow> HsaMemoryProperties list \<Rightarrow> HsaMemoryProperties list res" where
  "copy_banks mem [] out = Inr out"
| "copy_banks mem (i # ids) out =
     bindE (assertE ''hsaKmtGetNodeMemoryProperties'' (mem \<noteq> [])) (\<lambda>_.
     bindE (at ''hsaKmtGetNodeMemoryProperties'' mem i) (\<lambda>m. copy_banks mem ids (out[i := m])))"

definition add_bank :: "HsaMemoryProperties \<Rightarrow> nat \<times> HsaMemoryProperties list \<Rightarrow> nat \<times> HsaMemoryProperties list" where
  "add_bank m r = (case r of (i, out) \<Rightarrow> if i < length out then (Suc i, out[i := m]) else (i, out))"

definition hsaKmtGetNodeMemoryProperties :: "u32 \<Rightarrow> u32 \<Rightarrow> bool \<Rightarrow> topology_state \<Rightarrow> (HSAKMT_STATUS \<times> HsaMemoryProperties list) res" where
  "hsaKmtGetNodeMemoryProperties node NumBanks has_out ts =
     (if \<not> has_out then Inr (HSAKMT_STATUS_INVALID_PARAMETER, [])
      else if \<not> dxg_open (ts_mem ts) then Inr (HSAKMT_STATUS_KERNEL_IO_CHANNEL_NOT_OPENED, [])
      else bindE (node_at ''hsaKmtGetNodeMemoryProperties'' node ts) (\<lambda>np.
        let n = unat (min (NumMemoryBanks (np_node np)) NumBanks) in
        bindE (copy_banks (np_mem np) [0..<n] (replicate (unat NumBanks) zero_mem)) (\<lambda>out.
        bindE (get_wddmdev (ts_mem ts) node) (\<lambda>dev. case dev of
          None \<Rightarrow> Inr (HSAKMT_STATUS_SUCCESS, out)
        | Some i \<Rightarrow>
            let d = ms_devs (ts_mem ts) ! i;
                lds = zero_mem\<lparr>HeapType := HSA_HEAPTYPE_GPU_LDS, VirtualBaseAddress := dev_shared_aperture_base d,
                        SizeInBytes := ucast (LDSSizeInKB (np_node np) * 1024)\<rparr>;
                scratch = zero_mem\<lparr>HeapType := HSA_HEAPTYPE_GPU_SCRATCH, VirtualBaseAddress := dev_private_aperture_base d,
                        SizeInBytes := dev_private_aperture_size d\<rparr>
            in Inr (HSAKMT_STATUS_SUCCESS, snd (add_bank scratch (add_bank lds (n, out))))))))"

definition hsaKmtGetNodeCacheProperties :: "u32 \<Rightarrow> u32 \<Rightarrow> bool \<Rightarrow> topology_state \<Rightarrow> (HSAKMT_STATUS \<times> HsaCacheProperties list) res" where
  "hsaKmtGetNodeCacheProperties node num has_out ts =
     (if \<not> has_out then Inr (HSAKMT_STATUS_INVALID_PARAMETER, [])
      else if \<not> dxg_open (ts_mem ts) then Inr (HSAKMT_STATUS_KERNEL_IO_CHANNEL_NOT_OPENED, [])
      else if \<not> valid_node node ts then Inr (HSAKMT_STATUS_INVALID_NODE_UNIT, [])
      else bindE (node_at ''hsaKmtGetNodeCacheProperties'' node ts) (\<lambda>np.
        if num > NumCaches (np_node np) then Inr (HSAKMT_STATUS_INVALID_PARAMETER, [])
        else if num \<noteq> 0 \<and> np_cache np = [] then Inl (Assert_Failed ''hsaKmtGetNodeCacheProperties'')
        else if unat num > length (np_cache np) then Inl (Out_Of_Bounds ''hsaKmtGetNodeCacheProperties'')
        else Inr (HSAKMT_STATUS_SUCCESS, take (unat num) (np_cache np))))"

definition topology_get_iolink_props :: "u32 \<Rightarrow> u32 \<Rightarrow> topology_state \<Rightarrow> (HSAKMT_STATUS \<times> HsaIoLinkProperties list) res" where
  "topology_get_iolink_props node num ts =
     (if \<not> valid_node node ts \<or> g_props ts = [] then Inr (HSAKMT_STATUS_ERROR, [])
      else bindE (node_at ''topology_get_iolink_props'' node ts) (\<lambda>np.
        if unat num > length (np_link np) then Inl (Out_Of_Bounds ''topology_get_iolink_props'')
        else Inr (HSAKMT_STATUS_SUCCESS, take (unat num) (np_link np))))"

definition hsaKmtGetNodeIoLinkProperties :: "u32 \<Rightarrow> u32 \<Rightarrow> bool \<Rightarrow> topology_state \<Rightarrow> (HSAKMT_STATUS \<times> HsaIoLinkProperties list) res" where
  "hsaKmtGetNodeIoLinkProperties node num has_out ts =
     (if \<not> has_out then Inr (HSAKMT_STATUS_INVALID_PARAMETER, [])
      else if \<not> dxg_open (ts_mem ts) then Inr (HSAKMT_STATUS_KERNEL_IO_CHANNEL_NOT_OPENED, [])
      else if \<not> valid_node node ts then Inr (HSAKMT_STATUS_INVALID_NODE_UNIT, [])
      else bindE (node_at ''hsaKmtGetNodeIoLinkProperties'' node ts) (\<lambda>np.
        if num > NumIOLinks (np_node np) then Inr (HSAKMT_STATUS_INVALID_PARAMETER, [])
        else bindE (assertE ''hsaKmtGetNodeIoLinkProperties'' (np_link np \<noteq> [])) (\<lambda>_. topology_get_iolink_props node num ts)))"

definition get_device_id_by_node_id :: "u32 \<Rightarrow> topology_state \<Rightarrow> 16 word res" where
  "get_device_id_by_node_id node ts =
     (if g_props ts = [] \<or> \<not> valid_node node ts then Inr 0
      else bindE (node_at ''get_device_id_by_node_id'' node ts) (\<lambda>np. Inr (DeviceId (np_node np))))"

definition prefer_ats :: "u32 \<Rightarrow> topology_state \<Rightarrow> bool res" where
  "prefer_ats node ts =
     bindE (node_at ''prefer_ats'' node ts) (\<lambda>np.
       Inr (HSAMMUPresent (Capability (np_node np)) \<noteq> 0 \<and> NumCPUCores (np_node np) \<noteq> 0 \<and> NumFComputeCores (np_node np) \<noteq> 0))"

definition get_device_id_by_gpu_id :: "u32 \<Rightarrow> topology_state \<Rightarrow> 16 word res" where
  "get_device_id_by_gpu_id gpu_id ts =
     (case g_system ts of
        None \<Rightarrow> Inr 0
      | Some sys \<Rightarrow>
          if g_props ts = [] then Inr 0
          else bindE (find_gpu ''get_device_id_by_gpu_id'' gpu_id [0..<unat (NumNodes sys)] ts) (\<lambda>r.
            Inr (case r of None \<Rightarrow> 0 | Some i \<Rightarrow> DeviceId (np_node (g_props ts ! i)))))"

definition INVALID_NODEID :: u32 where "INVALID_NODEID = 0xFFFFFFFF"

definition get_direct_link_cpu :: "u32 \<Rightarrow> topology_state \<Rightarrow> u32 res" where
  "get_direct_link_cpu gpu_node ts =
     bindE (gpu_get_direct_link_cpu (unat gpu_node) (g_props ts)) (\<lambda>cpu_id.
     if cpu_id = -1 then Inr INVALID_NODEID
     else if cpu_id < 0 then Inl (Out_Of_Bounds ''get_direct_link_cpu'')
     else bindE (at ''get_direct_link_cpu'' (g_props ts) (nat cpu_id)) (\<lambda>np.
       bindE (assertE ''get_direct_link_cpu'' (np_mem np \<noteq> [])) (\<lambda>_.
       let n = unat (NumMemoryBanks (np_node np)) in
       if n > length (np_mem np) then Inl (Out_Of_Bounds ''get_direct_link_cpu'')
       else Inr (if sum_list (map SizeInBytes (take n (np_mem np))) \<noteq> 0 then word_of_int cpu_id else INVALID_NODEID))))"

text \<open>The array that \<^verbatim>\<open>validate_nodeid_array\<close> returns; on an error it has been freed and the pointer is left to the caller.\<close>

fun validate_nodes :: "u32 list \<Rightarrow> topology_state \<Rightarrow> (HSAKMT_STATUS + u32 list) res" where
  "validate_nodes [] ts = Inr (Inr [])"
| "validate_nodes (n # ns) ts =
     bindE (validate_nodeid n ts) (\<lambda>r. case r of
       Inl e \<Rightarrow> Inr (Inl e)
     | Inr g \<Rightarrow> bindE (validate_nodes ns ts) (\<lambda>r. Inr (case r of Inl e \<Rightarrow> Inl e | Inr gs \<Rightarrow> Inr (g # gs))))"

definition validate_nodeid_array :: "topology_env \<Rightarrow> u32 list option \<Rightarrow> bool \<Rightarrow> topology_state \<Rightarrow> (HSAKMT_STATUS + u32 list) res" where
  "validate_nodeid_array te nodes has_out ts =
     (case nodes of
        None \<Rightarrow> Inr (Inl HSAKMT_STATUS_INVALID_PARAMETER)
      | Some ns \<Rightarrow>
          if ns = [] \<or> \<not> has_out then Inr (Inl HSAKMT_STATUS_INVALID_PARAMETER)
          else if \<not> te_malloc te then Inr (Inl HSAKMT_STATUS_NO_MEMORY)
          else validate_nodes ns ts)"

definition get_num_sysfs_nodes :: "topology_state \<Rightarrow> u32" where
  "get_num_sysfs_nodes ts = ms_num_nodes (ts_mem ts)"

definition get_num_wddmdev :: "topology_state \<Rightarrow> u32" where
  "get_num_wddmdev ts = of_nat (length (ms_devs (ts_mem ts)))"

end
