(* ===== verification/Topology_Safety.thy ===== *)
theory Topology_Safety
  imports Snapshot
begin

text \<open>
  What a snapshot holds: the shape of the table of nodes, that looking for indirect links never adds one, and that the functions which read
  the table stay inside it.
\<close>

section \<open>Frames\<close>

text \<open>A step for node \<open>i\<close> leaves the other nodes, the devices and the snapshot's header alone.\<close>

definition frame :: "nat \<Rightarrow> topology_state \<Rightarrow> topology_state \<Rightarrow> bool" where
  "frame i ts ts' \<longleftrightarrow> length (g_props ts') = length (g_props ts) \<and> (\<forall>j. j \<noteq> i \<longrightarrow> g_props ts' ! j = g_props ts ! j) \<and>
     ms_devs (ts_mem ts') = ms_devs (ts_mem ts) \<and> ms_num_nodes (ts_mem ts') = ms_num_nodes (ts_mem ts) \<and>
     ts_info ts' = ts_info ts \<and> g_system ts' = g_system ts \<and> dxg_open (ts_mem ts') = dxg_open (ts_mem ts) \<and> processor_vendor ts' = processor_vendor ts"

lemma frame_refl [simp]: "frame i ts ts"
  by (simp add: frame_def)

lemma frame_trans: "frame i ts ts' \<Longrightarrow> frame i ts' ts'' \<Longrightarrow> frame i ts ts''"
  by (simp add: frame_def)

lemma frame_set_node [simp]: "frame i ts (set_node i f ts)"
  by (simp add: frame_def set_node_def)

lemma set_node_at [simp]: "i < length (g_props ts) \<Longrightarrow> g_props (set_node i f ts) ! i = f (g_props ts ! i)"
  by (simp add: set_node_def)

lemma set_node_rest [simp]: "ts_mem (set_node i f ts) = ts_mem ts" "ts_info (set_node i f ts) = ts_info ts"
  "length (g_props (set_node i f ts)) = length (g_props ts)" "processor_vendor (set_node i f ts) = processor_vendor ts"
  by (simp_all add: set_node_def)

lemma frame_at: "frame i ts ts' \<Longrightarrow> length (g_props ts') = length (g_props ts)"
  by (simp add: frame_def)

lemma frame_dgpu [simp]: "frame i ts (topology_setup_is_dgpu_param p ts)" "g_props (topology_setup_is_dgpu_param p ts) = g_props ts"
  by (simp_all add: frame_def topology_setup_is_dgpu_param_def dxg_open_def)

section \<open>One node\<close>

text \<open>What the properties of a node say about its tables.\<close>

definition counts_ok :: "topology_state \<Rightarrow> nat \<Rightarrow> HsaNodeProperties \<Rightarrow> bool" where
  "counts_ok ts i p \<longleftrightarrow> NumMemoryBanks p = 1 \<and>
     (if i = 0 then KFDGpuID p = 0 \<and> NumCaches p = 0 \<and> NumIOLinks p = 0
      else KFDGpuID p = gi_device_id (ts_info ts ! (i - 1)) \<and> NumCaches p = 3 \<and> NumIOLinks p = 1 \<and> NumCPUCores p = 0 \<and> Integrated p = 0)"

lemma map_node_id_eq:
  assumes "i < 2 ^ 32" "ms_num_nodes (ts_mem ts) = of_nat (Suc (length (ms_devs (ts_mem ts))))" "Suc (length (ms_devs (ts_mem ts))) < 2 ^ 32"
  shows "topology_map_node_id (of_nat i) ts = Inr (if 0 < i \<and> i \<le> length (ms_devs (ts_mem ts)) then (HSAKMT_STATUS_SUCCESS, Some (i - 1)) else (HSAKMT_STATUS_ERROR, None))"
proof -
  have i: "unat (of_nat i :: u32) = i" "unat (of_nat (Suc (length (ms_devs (ts_mem ts)))) :: u32) = Suc (length (ms_devs (ts_mem ts)))"
    using assms(1,3) by (simp_all add: unat_of_nat take_bit_nat_eq_self del: of_nat_Suc)
  then have z: "(of_nat i :: u32) = 0 \<longleftrightarrow> i = 0" by (simp add: word_unat_eq_iff)
  show ?thesis
    using i by (auto simp: topology_map_node_id_def get_wddmdev_def assms(2) z word_le_nat_alt not_le simp del: of_nat_Suc)
qed

lemma override_engine_keeps:
  "override_engine v p = (ret, p') \<Longrightarrow> \<exists>e. p' = p\<lparr>OverrideEngineId := e\<rparr>"
  by (auto simp: override_engine_def split: option.splits prod.splits if_splits intro: exI [of _ "OverrideEngineId p"])

lemma gpu_props1_counts:
  "gpu_props1 node d gi p = Inr p' \<Longrightarrow> NumMemoryBanks p' = 1 \<and> KFDGpuID p' = gi_device_id gi \<and> NumCaches p' = 3 \<and> NumIOLinks p' = 1 \<and> NumCPUCores p' = 0 \<and> Integrated p' = 0"
  by (auto simp: gpu_props1_def split: if_splits)

lemma gpu_props2_counts:
  "gpu_props2 d gi rt p = Inr p' \<Longrightarrow> NumMemoryBanks p' = NumMemoryBanks p \<and> KFDGpuID p' = KFDGpuID p \<and> NumCaches p' = NumCaches p \<and>
     NumIOLinks p' = NumIOLinks p \<and> NumCPUCores p' = NumCPUCores p \<and> Integrated p' = Integrated p"
  by (auto simp: gpu_props2_def Let_def bindE_Inr_iff)

lemma model_name_counts:
  "NumMemoryBanks (topology_get_cpu_model_name p ci) = NumMemoryBanks p" "KFDGpuID (topology_get_cpu_model_name p ci) = KFDGpuID p"
  "NumCaches (topology_get_cpu_model_name p ci) = NumCaches p" "NumIOLinks (topology_get_cpu_model_name p ci) = NumIOLinks p"
  "NumCPUCores (topology_get_cpu_model_name p ci) = NumCPUCores p" "Integrated (topology_get_cpu_model_name p ci) = Integrated p"
  by (induction ci) auto

text \<open>The number of nodes and of devices that a snapshot works with.\<close>

definition sized :: "nat \<Rightarrow> topology_state \<Rightarrow> bool" where
  "sized n ts \<longleftrightarrow> Suc n < 2 ^ 32 \<and> length (g_props ts) = Suc n \<and> length (ms_devs (ts_mem ts)) = n \<and> ms_num_nodes (ts_mem ts) = of_nat (Suc n)"

lemma sized_frame: "frame i ts ts' \<Longrightarrow> sized n ts \<Longrightarrow> sized n ts'"
  by (simp add: sized_def frame_def)

lemma of_nat_node: "i < 2 ^ 32 \<Longrightarrow> (of_nat i :: u32) = 0 \<longleftrightarrow> i = 0"
  by (simp add: word_unat_eq_iff unat_of_nat take_bit_nat_eq_self)

lemma map_node_id:
  assumes "sized n ts" "i \<le> n"
  shows "topology_map_node_id (of_nat i) ts = Inr (if 0 < i then (HSAKMT_STATUS_SUCCESS, Some (i - 1)) else (HSAKMT_STATUS_ERROR, None))"
  using map_node_id_eq [of i ts] assms by (simp add: sized_def)

lemma node_props_counts:
  assumes "sized n ts" "i \<le> n" and run: "topology_sysfs_get_node_props te (of_nat i) ts = Inr (HSAKMT_STATUS_SUCCESS, p, p2p, np2p)"
  shows "counts_ok ts i p \<and> \<not> p2p \<and> np2p = 0"
proof (cases "i = 0")
  case True
  with run show ?thesis by (auto simp: topology_sysfs_get_node_props_def counts_ok_def Let_def zero_node_def)
next
  case False
  let ?d = "ms_devs (ts_mem ts) ! (i - Suc 0)" and ?gi = "ts_info ts ! (i - Suc 0)"
  have nz: "(of_nat i :: u32) \<noteq> 0" using False of_nat_node [of i] assms(1,2) by (simp add: sized_def)
  let ?p0 = "zero_node\<lparr>MaxEngineClockMhzCCompute := te_freq_max te\<rparr>"
  have r: "bindE (gpu_props1 (of_nat i) ?d ?gi ?p0) (\<lambda>props. case override_engine (te_override te) props of (ret, props) \<Rightarrow>
       if ret \<noteq> HSAKMT_STATUS_SUCCESS then Inr (ret, props, False, 0)
       else bindE (gpu_props2 ?d ?gi (ms_rt (ts_mem ts)) props) (\<lambda>props. Inr (HSAKMT_STATUS_SUCCESS, props, False, 0))) = Inr (HSAKMT_STATUS_SUCCESS, p, p2p, np2p)"
    using run nz False unfolding topology_sysfs_get_node_props_def Let_def map_node_id [OF assms(1,2)] by simp
  then obtain p1 where p1: "gpu_props1 (of_nat i) ?d ?gi ?p0 = Inr p1" by (cases "gpu_props1 (of_nat i) ?d ?gi ?p0") simp_all
  obtain ret p2 where o: "override_engine (te_override te) p1 = (ret, p2)" by (cases "override_engine (te_override te) p1")
  then obtain e where e: "p2 = p1\<lparr>OverrideEngineId := e\<rparr>" using override_engine_keeps by blast
  have "bindE (gpu_props2 ?d ?gi (ms_rt (ts_mem ts)) p2) (\<lambda>props. Inr (HSAKMT_STATUS_SUCCESS, props, False, 0)) = Inr (HSAKMT_STATUS_SUCCESS, p, p2p, np2p)"
    using r unfolding p1 bindE_simps o prod.case by (cases "ret = HSAKMT_STATUS_SUCCESS") simp_all
  then have p: "gpu_props2 ?d ?gi (ms_rt (ts_mem ts)) p2 = Inr p" "\<not> p2p" "np2p = 0"
    by (cases "gpu_props2 ?d ?gi (ms_rt (ts_mem ts)) p2"; simp)+
  from gpu_props2_counts [OF p(1)] gpu_props1_counts [OF p1] e p(2,3) False show ?thesis by (simp add: counts_ok_def)
qed

text \<open>The memory of a node.\<close>

lemma mem_props_heap:
  assumes "sized n ts" "i \<le> n" and run: "topology_sysfs_get_mem_props te (of_nat i) ts = Inr (HSAKMT_STATUS_SUCCESS, m, ts')"
  shows "HeapType m = (if i = 0 then HSA_HEAPTYPE_SYSTEM else HSA_HEAPTYPE_FRAME_BUFFER_PRIVATE) \<and> frame i ts ts' \<and> g_props ts' = g_props ts"
proof (cases "i = 0")
  case True
  with run show ?thesis
    by (auto simp: topology_sysfs_get_mem_props_def Let_def zero_mem_def frame_def dxg_open_def split: prod.splits option.splits)
next
  case False
  have nz: "(of_nat i :: u32) \<noteq> 0" using False of_nat_node [of i] assms(1,2) by (simp add: sized_def)
  with run False show ?thesis
    by (auto simp: topology_sysfs_get_mem_props_def Let_def map_node_id [OF assms(1,2)] zero_mem_def)
qed

lemma snapshot_mem_bank:
  assumes "sized n ts" "i \<le> n" "NumMemoryBanks (np_node (g_props ts ! i)) = 1"
    and run: "snapshot_mem te i ts = Inr (HSAKMT_STATUS_SUCCESS, ts')"
  shows "\<exists>m. HeapType m = (if i = 0 then HSA_HEAPTYPE_SYSTEM else HSA_HEAPTYPE_FRAME_BUFFER_PRIVATE) \<and> frame i ts ts' \<and>
    g_props ts' ! i = (g_props ts ! i)\<lparr>np_mem := [m]\<rparr>"
proof -
  let ?ts = "set_node i (\<lambda>np. np\<lparr>np_mem := resize 1 zero_mem (np_mem np)\<rparr>) ts"
  have i: "i < length (g_props ts)" using assms(1,2) by (simp add: sized_def)
  have sz: "sized n ?ts" using sized_frame [OF frame_set_node assms(1)] .
  have r: "bindE (topology_sysfs_get_mem_props te (of_nat i) ?ts) (\<lambda>(ret, props, ts).
     let ts = set_node i (\<lambda>np. np\<lparr>np_mem := (np_mem np)[0 := props]\<rparr>) ts in
     if ret \<noteq> HSAKMT_STATUS_SUCCESS then Inr (ret, ts) else Inr (HSAKMT_STATUS_SUCCESS, ts)) = Inr (HSAKMT_STATUS_SUCCESS, ts')"
    using run assms(3) by (simp add: snapshot_mem_def cong: if_cong)
  then obtain ret m ts1 where b: "topology_sysfs_get_mem_props te (of_nat i) ?ts = Inr (ret, m, ts1)"
    by (cases "topology_sysfs_get_mem_props te (of_nat i) ?ts") auto
  have ok: "ret = HSAKMT_STATUS_SUCCESS" "ts' = set_node i (\<lambda>np. np\<lparr>np_mem := (np_mem np)[0 := m]\<rparr>) ts1"
    using r unfolding b bindE_simps prod.case Let_def by (cases "ret = HSAKMT_STATUS_SUCCESS"; simp)+
  from mem_props_heap [OF sz assms(2)] b ok(1) have m: "HeapType m = (if i = 0 then HSA_HEAPTYPE_SYSTEM else HSA_HEAPTYPE_FRAME_BUFFER_PRIVATE)"
    "frame i ?ts ts1" "g_props ts1 = g_props ?ts" by blast+
  have one: "(resize (Suc 0) zero_mem xs)[0 := m] = [m]" for xs by (cases xs) (simp_all add: resize_def)
  have "frame i ts ts'" unfolding ok(2) using frame_trans [OF frame_trans [OF frame_set_node m(2)] frame_set_node] .
  moreover have "g_props ts' ! i = (g_props ts ! i)\<lparr>np_mem := [m]\<rparr>"
    using i m(3) by (simp add: ok(2) one)
  ultimately show ?thesis using m(1) by blast
qed

text \<open>The caches of a node.\<close>

lemma snapshot_cache_table:
  assumes "sized n ts" "i \<le> n" "counts_ok ts i (np_node (g_props ts ! i))"
    and run: "snapshot_cache te ci i ts = Inr (HSAKMT_STATUS_SUCCESS, ts')"
  shows "\<exists>cs k. frame i ts ts' \<and> (if i = 0 then unat k \<le> length cs else k = 3 \<and> length cs = 3) \<and>
    g_props ts' ! i = (g_props ts ! i)\<lparr>np_cache := cs, np_node := (np_node (g_props ts ! i))\<lparr>NumCaches := k\<rparr>\<rparr>"
proof (cases "i = 0")
  case True
  have i: "0 < length (g_props ts)" using assms(1) by (simp add: sized_def)
  let ?np = "g_props ts ! 0"
  from assms(3) True have c: "NumCaches (np_node ?np) = 0" "KFDGpuID (np_node ?np) = 0" by (simp_all add: counts_ok_def)
  from run True c obtain cs cnt where r: "topology_get_cpu_cache_props (te_fs te) (processor_vendor ts) 0 ci (np_cache ?np) = Inr (HSAKMT_STATUS_SUCCESS, cs, cnt)"
    and ts': "ts' = set_node 0 (\<lambda>np. np\<lparr>np_cache := cs, np_node := (case cnt of None \<Rightarrow> np_node np | Some k \<Rightarrow> (np_node np)\<lparr>NumCaches := of_nat k\<rparr>)\<rparr>) ts"
    by (auto simp: snapshot_cache_def Let_def bindE_Inr_iff)
  let ?k = "(case cnt of None \<Rightarrow> 0 | Some k \<Rightarrow> of_nat k) :: u32"
  have "unat ?k \<le> length cs"
  proof (cases cnt)
    case (Some k)
    with r have "k = length cs" using cpu_cache_count by blast
    with Some show ?thesis by (simp add: unat_of_nat take_bit_nat_less_eq_self)
  qed simp
  moreover have "g_props ts' ! i = ?np\<lparr>np_cache := cs, np_node := (np_node ?np)\<lparr>NumCaches := ?k\<rparr>\<rparr>"
    using i True c(1) by (cases cnt) (simp_all add: ts')
  ultimately show ?thesis using True frame_set_node [of 0] unfolding ts' by auto
next
  case False
  have i: "i < length (g_props ts)" using assms(1,2) by (simp add: sized_def)
  let ?np = "g_props ts ! i"
  from assms(3) False have c: "NumCaches (np_node ?np) = 3" by (simp add: counts_ok_def)
  then obtain cs where ts': "ts' = set_node i (\<lambda>np. np\<lparr>np_cache := cs\<rparr>) ts" "length cs = 3"
    using run False by (auto simp: snapshot_cache_def Let_def map_node_id [OF assms(1,2)] resize_def)
  then show ?thesis using i c False by (intro exI [of _ cs] exI [of _ 3]) simp
qed

text \<open>The links of a node.\<close>

definition cpu_link :: "nat \<Rightarrow> HsaIoLinkProperties \<Rightarrow> bool" where
  "cpu_link i l \<longleftrightarrow> IoLinkType l = HSA_IOLINKTYPE_PCIEXPRESS \<and> NodeFrom l = of_nat i \<and> NodeTo l = 0 \<and> Weight l = 20"

lemma snapshot_link_table:
  assumes "sized n ts" "i \<le> n" "0 < n" "unat (NumNodes sys) = Suc n" and c: "NumIOLinks (np_node (g_props ts ! i)) = (if i = 0 then 0 else 1)"
    and run: "snapshot_link sys i 0 ts = Inr (HSAKMT_STATUS_SUCCESS, ts')"
  shows "\<exists>ls. frame i ts ts' \<and> length ls = n \<and> (0 < i \<longrightarrow> cpu_link i (ls ! 0)) \<and> g_props ts' ! i = (g_props ts ! i)\<lparr>np_link := ls\<rparr>"
proof -
  let ?ls = "resize n zero_link (np_link (g_props ts ! i))"
  let ?ts = "set_node i (\<lambda>np. np\<lparr>np_link := resize n zero_link (np_link np)\<rparr>) ts"
  have i: "i < length (g_props ts)" using assms(1,2) by (simp add: sized_def)
  have len: "length ?ls = n" by (simp add: resize_def)
  have room: "unat (NumNodes sys - 1) = n"
  proof -
    have "unat (1 :: u32) \<le> unat (NumNodes sys)" using assms(4) by simp
    then show ?thesis using assms(4) by (simp add: unat_sub word_le_nat_alt)
  qed
  show ?thesis
  proof (cases "i = 0")
    case True
    with run c i room have "ts' = ?ts" by (simp add: snapshot_link_def Let_def)
    with True i len show ?thesis by (intro exI [of _ ?ls]) simp
  next
    case False
    then have one: "NumIOLinks (np_node (g_props ?ts ! i)) = 1" using c i by simp
    have m: "topology_map_node_id (of_nat i) ?ts = Inr (HSAKMT_STATUS_SUCCESS, Some (i - 1))"
      using map_node_id [OF sized_frame [OF frame_set_node assms(1)] assms(2)] False by simp
    then obtain l where l: "topology_sysfs_get_iolink_props (of_nat i) ?ts = Inr (HSAKMT_STATUS_SUCCESS, l)" "cpu_link i l"
      by (auto simp: topology_sysfs_get_iolink_props_def Let_def cpu_link_def zero_link_def)
    let ?ts1 = "set_node i (\<lambda>np. np\<lparr>np_link := (np_link np)[0 := l]\<rparr>) ?ts"
    have lp: "link_loop i n (Suc 0) 0 ?ts = Inr (HSAKMT_STATUS_SUCCESS, 1, ?ts1)" using l(1) assms(3) by (simp add: Let_def)
    have ts': "ts' = set_links i 1 ?ts1"
      using run room one lp unfolding snapshot_link_def Let_def by simp
    have "frame i ts ts'" unfolding ts' set_links_def by (meson frame_set_node frame_trans)
    moreover have "g_props ts' ! i = (g_props ts ! i)\<lparr>np_link := ?ls[0 := l]\<rparr>"
    proof -
      have "(np_node (g_props ts ! i))\<lparr>NumIOLinks := 1\<rparr> = np_node (g_props ts ! i)" using c False by simp
      then show ?thesis using i by (simp add: ts' set_links_def)
    qed
    ultimately show ?thesis using l(2) len assms(3) by (intro exI [of _ "?ls[0 := l]"]) simp
  qed
qed

text \<open>What a node of a snapshot holds.\<close>

definition node_ok :: "nat \<Rightarrow> topology_state \<Rightarrow> nat \<Rightarrow> node_props \<Rightarrow> bool" where
  "node_ok n ts i np \<longleftrightarrow> NumMemoryBanks (np_node np) = 1 \<and> length (np_mem np) = 1 \<and> length (np_link np) = n \<and>
     unat (NumCaches (np_node np)) \<le> length (np_cache np) \<and>
     (if i = 0 then KFDGpuID (np_node np) = 0 \<and> NumIOLinks (np_node np) = 0 \<and> HeapType (np_mem np ! 0) = HSA_HEAPTYPE_SYSTEM
      else KFDGpuID (np_node np) = gi_device_id (ts_info ts ! (i - 1)) \<and> NumIOLinks (np_node np) = 1 \<and> cpu_link i (np_link np ! 0) \<and>
        HeapType (np_mem np ! 0) = HSA_HEAPTYPE_FRAME_BUFFER_PRIVATE \<and> NumCaches (np_node np) = 3 \<and> Integrated (np_node np) = 0)"

lemma snapshot_node_ok:
  assumes sz: "sized n ts" "i \<le> n" "0 < n" "unat (NumNodes sys) = Suc n"
    and run: "snapshot_node te ci sys i ts = Inr (HSAKMT_STATUS_SUCCESS, p2p, ts')"
  shows "frame i ts ts' \<and> node_ok n ts i (g_props ts' ! i) \<and> \<not> p2p"
proof -
  have i: "i < length (g_props ts)" using sz(1,2) by (simp add: sized_def)
  obtain ret p q r where pr: "topology_sysfs_get_node_props te (of_nat i) ts = Inr (ret, p, q, r)"
    using run by (cases "topology_sysfs_get_node_props te (of_nat i) ts") (auto simp: snapshot_node_def)
  have ret: "ret = HSAKMT_STATUS_SUCCESS" using run unfolding snapshot_node_def pr bindE_simps prod.case Let_def
    by (cases "ret = HSAKMT_STATUS_SUCCESS") simp_all
  from node_props_counts [OF sz(1,2) pr [unfolded ret]] have c: "counts_ok ts i p" "\<not> q" "r = 0" by simp_all
  let ?t1 = "topology_setup_is_dgpu_param p (set_node i (\<lambda>np. np\<lparr>np_node := p\<rparr>) ts)"
  define t2 where "t2 = (if NumCPUCores p \<noteq> 0 then set_node i (\<lambda>np. np\<lparr>np_node := topology_get_cpu_model_name (np_node np) ci\<rparr>) ?t1 else ?t1)"
  have run2: "bindE (snapshot_mem te i t2) (\<lambda>(ret, ts). if ret \<noteq> HSAKMT_STATUS_SUCCESS then Inr (ret, False, ts)
     else bindE (snapshot_cache te ci i ts) (\<lambda>(ret, ts). if ret \<noteq> HSAKMT_STATUS_SUCCESS then Inr (ret, False, ts)
     else bindE (snapshot_link sys i 0 ts) (\<lambda>(ret, ts). Inr (ret, False, ts)))) = Inr (HSAKMT_STATUS_SUCCESS, p2p, ts')"
  proof -
    have "topology_sysfs_get_node_props te (of_nat i) ts = Inr (HSAKMT_STATUS_SUCCESS, p, False, 0)" using pr c(2,3) ret by simp
    from run [unfolded snapshot_node_def this bindE_simps prod.case Let_def, folded t2_def] show ?thesis by simp
  qed
  have f1: "frame i ts ?t1" using frame_trans [OF frame_set_node frame_dgpu(1)] .
  then have f2: "frame i ts t2" unfolding t2_def using frame_trans [OF f1 frame_set_node] by simp
  have p2: "counts_ok ts i (np_node (g_props t2 ! i))" using c(1) i
    by (auto simp: t2_def counts_ok_def model_name_counts)
  note s2 = sized_frame [OF f2 sz(1)]
  obtain t3 where m: "snapshot_mem te i t2 = Inr (HSAKMT_STATUS_SUCCESS, t3)"
    using run2 by (cases "snapshot_mem te i t2") (auto split: if_splits)
  from snapshot_mem_bank [OF s2 sz(2) _ m] p2 obtain b where
    b: "HeapType b = (if i = 0 then HSA_HEAPTYPE_SYSTEM else HSA_HEAPTYPE_FRAME_BUFFER_PRIVATE)" "frame i t2 t3"
      "g_props t3 ! i = (g_props t2 ! i)\<lparr>np_mem := [b]\<rparr>" by (auto simp: counts_ok_def)
  note s3 = sized_frame [OF b(2) s2] and f3 = frame_trans [OF f2 b(2)]
  have run3: "bindE (snapshot_cache te ci i t3) (\<lambda>(ret, ts). if ret \<noteq> HSAKMT_STATUS_SUCCESS then Inr (ret, False, ts)
     else bindE (snapshot_link sys i 0 ts) (\<lambda>(ret, ts). Inr (ret, False, ts))) = Inr (HSAKMT_STATUS_SUCCESS, p2p, ts')"
    using run2 unfolding m bindE_simps prod.case by simp
  then obtain t4 where ca: "snapshot_cache te ci i t3 = Inr (HSAKMT_STATUS_SUCCESS, t4)"
    by (cases "snapshot_cache te ci i t3") (auto split: if_splits)
  have info: "ts_info t3 = ts_info ts" using f3 by (simp add: frame_def)
  have p3: "counts_ok t3 i (np_node (g_props t3 ! i))" using p2 b(3) info by (cases "i = 0") (simp_all add: counts_ok_def)
  from snapshot_cache_table [OF s3 sz(2) p3 ca] obtain cs k where
    k: "frame i t3 t4" "if i = 0 then unat k \<le> length cs else k = 3 \<and> length cs = 3"
      "g_props t4 ! i = (g_props t3 ! i)\<lparr>np_cache := cs, np_node := (np_node (g_props t3 ! i))\<lparr>NumCaches := k\<rparr>\<rparr>" by blast
  note s4 = sized_frame [OF k(1) s3] and f4 = frame_trans [OF f3 k(1)]
  have li: "snapshot_link sys i 0 t4 = Inr (HSAKMT_STATUS_SUCCESS, ts')" "\<not> p2p"
    using run3 unfolding ca bindE_simps prod.case by (cases "snapshot_link sys i 0 t4"; auto)+
  have "NumIOLinks (np_node (g_props t4 ! i)) = (if i = 0 then 0 else 1)" using p3 k(3) by (cases "i = 0") (simp_all add: counts_ok_def)
  from snapshot_link_table [OF s4 sz(2-4) this li(1)] obtain ls where
    ls: "frame i t4 ts'" "length ls = n" "0 < i \<longrightarrow> cpu_link i (ls ! 0)" "g_props ts' ! i = (g_props t4 ! i)\<lparr>np_link := ls\<rparr>" by blast
  have "node_ok n ts i (g_props ts' ! i)" using p2 b(1,3) k(2,3) ls(2-4) info by (simp add: node_ok_def counts_ok_def split: if_splits)
  with frame_trans [OF f4 ls(1)] li(2) show ?thesis by simp
qed

lemma snapshot_nodes_ok:
  assumes "snapshot_nodes te ci sys ids p2p ts = Inr (HSAKMT_STATUS_SUCCESS, p2p', ts')" and "\<not> p2p" and "sized n ts" and "\<forall>i\<in>set ids. i \<le> n"
    and "0 < n" "unat (NumNodes sys) = Suc n" and "\<forall>i\<le>n. i \<notin> set ids \<longrightarrow> node_ok n ts i (g_props ts ! i)" and "distinct ids"
  shows "sized n ts' \<and> (\<forall>i\<le>n. node_ok n ts' i (g_props ts' ! i)) \<and> \<not> p2p' \<and> ts_info ts' = ts_info ts \<and> g_system ts' = g_system ts \<and>
    dxg_open (ts_mem ts') = dxg_open (ts_mem ts)"
  using assms
proof (induction ids arbitrary: p2p ts)
  case (Cons i ids)
  obtain q t1 where s: "snapshot_node te ci sys i ts = Inr (HSAKMT_STATUS_SUCCESS, q, t1)"
    using Cons.prems(1) by (cases "snapshot_node te ci sys i ts") (auto split: if_splits)
  have i: "i \<le> n" using Cons.prems(4) by simp
  from snapshot_node_ok [OF Cons.prems(3) i Cons.prems(5,6) s] have f: "frame i ts t1" "node_ok n ts i (g_props t1 ! i)" "\<not> q" by simp_all
  have info: "ts_info t1 = ts_info ts" "g_system t1 = g_system ts" "dxg_open (ts_mem t1) = dxg_open (ts_mem ts)" using f(1) by (simp_all add: frame_def)
  then have same: "node_ok n t1 j = node_ok n ts j" for j by (simp add: node_ok_def fun_eq_iff)
  have "\<forall>j\<le>n. j \<notin> set ids \<longrightarrow> node_ok n t1 j (g_props t1 ! j)"
  proof (intro allI impI)
    fix j assume j: "j \<le> n" "j \<notin> set ids"
    show "node_ok n t1 j (g_props t1 ! j)"
    proof (cases "j = i")
      case False
      then have "g_props t1 ! j = g_props ts ! j" using f(1) by (simp add: frame_def)
      with Cons.prems(7) j False show ?thesis by (simp add: same)
    qed (use f(2) same in simp)
  qed
  moreover have "snapshot_nodes te ci sys ids q t1 = Inr (HSAKMT_STATUS_SUCCESS, p2p', ts')" using Cons.prems(1) by (simp add: s)
  ultimately show ?case using Cons.IH [OF _ f(3) sized_frame [OF f(1) Cons.prems(3)] _ Cons.prems(5,6)] Cons.prems(4,8) info by simp
qed simp

section \<open>Indirect links\<close>

definition nodes_ok :: "nat \<Rightarrow> topology_state \<Rightarrow> bool" where
  "nodes_ok n ts \<longleftrightarrow> length (g_props ts) = Suc n \<and> Suc n < 2 ^ 32 \<and> 0 < n \<and> (\<forall>i\<le>n. node_ok n ts i (g_props ts ! i))"

text \<open>
  The search for an indirect link to a GPU fails because the memory of a GPU is never public, the one to the CPU because the CPU reports no link.
\<close>

lemma no_indirect_link:
  assumes ok: "nodes_ok n ts" and "i \<le> n" "j \<le> n"
  shows "\<exists>e t. get_indirect_iolink_info i j (g_props ts) = Inr (e, 0, t)"
proof -
  let ?nps = "g_props ts"
  have at: "at loc ?nps k = Inr (?nps ! k)" if "k \<le> n" for loc k using ok that by (simp add: nodes_ok_def at_def)
  have nk: "node_ok n ts k (?nps ! k)" if "k \<le> n" for k using ok that by (simp add: nodes_ok_def)
  have n: "0 < n" using ok by (simp add: nodes_ok_def)
  let ?g = "\<lambda>k. KFDGpuID (np_node (?nps ! k)) \<noteq> 0"
  have gpu: "0 < k" "\<exists>l ls. np_link (?nps ! k) = l # ls \<and> cpu_link k l" "NumIOLinks (np_node (?nps ! k)) = 1" "has_public_bank (?nps ! k) = Inr False"
    if "?g k" "k \<le> n" for k
  proof -
    show k: "0 < k" using that(1) nk [OF that(2)] by (cases "k = 0") (simp_all add: node_ok_def)
    then show "NumIOLinks (np_node (?nps ! k)) = 1" using nk [OF that(2)] by (simp add: node_ok_def)
    show "\<exists>l ls. np_link (?nps ! k) = l # ls \<and> cpu_link k l" using nk [OF that(2)] k n
      by (cases "np_link (?nps ! k)") (auto simp: node_ok_def)
    have "length (np_mem (?nps ! k)) = 1" "HeapType (np_mem (?nps ! k) ! 0) = HSA_HEAPTYPE_FRAME_BUFFER_PRIVATE" "NumMemoryBanks (np_node (?nps ! k)) = 1"
      using nk [OF that(2)] k by (simp_all add: node_ok_def)
    then show "has_public_bank (?nps ! k) = Inr False"
      by (cases "np_mem (?nps ! k)") (simp_all add: has_public_bank_def Let_def)
  qed
  have cpu: "gpu_get_direct_link_cpu k ?nps = Inr 0" if "?g k" "k \<le> n" for k
    using gpu(2) [OF that] gpu(3) [OF that] that by (auto simp: gpu_get_direct_link_cpu_def at cpu_link_def)
  show ?thesis
  proof (cases "?g j")
    case True
    show ?thesis using at [OF assms(2)] at [OF assms(3)] cpu [OF _ assms(2)] cpu [OF True assms(3)] gpu(4) [OF True assms(3)] True
      by (auto simp: get_indirect_iolink_info_def Let_def)
  next
    case False
    show ?thesis
    proof (cases "?g i")
      case True
      obtain l ls where l: "np_link (?nps ! i) = l # ls" "cpu_link i l" using gpu(2) [OF True assms(2)] by blast
      have up: "get_direct_iolink_info i 0 ?nps = Inr (Inr (20, HSA_IOLINKTYPE_PCIEXPRESS))"
        using l gpu(3) [OF True assms(2)] by (simp add: get_direct_iolink_info_def at [OF assms(2)] cpu_link_def)
      have "np_link (?nps ! 0) \<noteq> []" "NumIOLinks (np_node (?nps ! 0)) = 0" using nk [of 0] n by (auto simp: node_ok_def)
      then have down: "get_direct_iolink_info 0 j ?nps = Inr (Inl HSAKMT_STATUS_INVALID_PARAMETER)"
        by (simp add: get_direct_iolink_info_def at)
      show ?thesis using at [OF assms(2)] at [OF assms(3)] cpu [OF True assms(2)] True False up down
        by (auto simp: get_indirect_iolink_info_def Let_def via_def)
    next
      case F: False
      with False at [OF assms(2)] at [OF assms(3)] show ?thesis by (simp add: get_indirect_iolink_info_def Let_def)
    qed
  qed
qed

lemma indirect_links_id: "nodes_ok n ts \<Longrightarrow> \<forall>(i, j)\<in>set ps. i \<le> n \<and> j \<le> n \<Longrightarrow> indirect_links sys ps (g_props ts) = Inr (g_props ts)"
proof (induction ps)
  case (Cons p ps)
  obtain i j where p: "p = (i, j)" by (cases p)
  have ij: "i \<le> n" "j \<le> n" using Cons.prems(2) p by auto
  have "indirect_link sys a b (g_props ts) = Inr (g_props ts)" if "a \<le> n" "b \<le> n" for a b
    using no_indirect_link [OF Cons.prems(1) that] by (auto simp: indirect_link_def)
  with Cons ij show ?case by (simp add: p)
qed simp

lemma create_indirect_id:
  assumes "nodes_ok n ts" and "unat (NumNodes sys) = Suc n"
  shows "topology_create_indirect_gpu_links sys (g_props ts) = Inr (g_props ts)"
proof -
  have "unat (1 :: u32) \<le> unat (NumNodes sys)" using assms(2) by simp
  then have "unat (NumNodes sys - 1) = n" using assms(2) by (simp add: unat_sub word_le_nat_alt)
  then show ?thesis unfolding topology_create_indirect_gpu_links_def assms(2)
    by (intro indirect_links_id [OF assms(1)]) auto
qed

section \<open>The snapshot\<close>

lemma create_devices_length: "WDDMCreateDevices env as tr = Inr (ds, tr') \<Longrightarrow> length ds = length as"
  by (induction as arbitrary: tr ds) (auto simp: bindE_Inr_iff)

definition topology_ok :: "nat \<Rightarrow> topology_state \<Rightarrow> bool" where
  "topology_ok n ts \<longleftrightarrow> nodes_ok n ts \<and> sized n ts \<and> (\<exists>sys. g_system ts = Some sys \<and> NumNodes sys = of_nat (Suc n))"

text \<open>The heaps do not touch the flags of an open device.\<close>

definition rt_open :: "runtime \<Rightarrow> bool" where
  "rt_open rt \<longleftrightarrow> rt_open_count rt \<noteq> 0 \<and> \<not> rt_is_forked rt"

lemma HeapFini_open: "rt_open (fst (HeapFini env dv n rt tr)) = rt_open rt"
  by (simp add: HeapFini_def FreeSystemHeapSpace_def FreeLocalHeapSpace_def rt_open_def split: prod.split)

lemma HeapInit_open:
  assumes "HeapInit env dv n rt tr = Inr (rt', tr')"
  shows "rt_open rt' = rt_open rt"
proof -
  from assms obtain a rt1 tr1 b rt2 tr2 c rt3 where
    l: "ReserveLocalHeapSpace env dv n rt tr = Inr (a, rt1, tr1)" and s: "ReserveSystemHeapSpace env dv n rt1 tr1 = Inr (b, rt2, tr2)"
    and h: "InitHandleApertureSpace dv n rt2 = Some (c, rt3)" and r: "rt' = InitHandleApertureMgr (InitSystemHeapMgr (InitLocalHeapMgr rt3))"
    unfolding HeapInit_def by (auto simp: bindE_Inr_iff split: option.splits)
  have "rt_open rt1 = rt_open rt" using l by (auto simp: ReserveLocalHeapSpace_def rt_open_def Let_def bindE_Inr_iff split: option.splits)
  moreover have "rt_open rt2 = rt_open rt1" using s
    by (auto simp: ReserveSystemHeapSpace_def rt_open_def Let_def bindE_Inr_iff split: option.splits prod.splits)
  moreover have "rt_open rt3 = rt_open rt2" using h by (auto simp: InitHandleApertureSpace_def rt_open_def Let_def split: if_splits)
  moreover have "rt_open rt' = rt_open rt3" by (simp add: r rt_open_def InitHandleApertureMgr_def InitSystemHeapMgr_def InitLocalHeapMgr_def)
  ultimately show ?thesis by simp
qed

lemma system_props_ok:
  assumes run: "topology_sysfs_get_system_props te ts = Inr (HSAKMT_STATUS_SUCCESS, sys, ts')"
  shows "length (ms_devs (ts_mem ts')) = length (te_adapters te) \<and> te_adapters te \<noteq> [] \<and>
    ms_num_nodes (ts_mem ts') = of_nat (Suc (length (te_adapters te))) \<and> NumNodes sys = of_nat (Suc (length (te_adapters te))) \<and>
    g_props ts' = g_props ts \<and> g_system ts' = g_system ts \<and> ts_info ts' = map snd (te_adapters te) \<and>
    dxg_open (ts_mem ts') = dxg_open (ts_mem ts)"
proof -
  let ?env = "me_dx (te_mem te)" and ?st = "ts_mem ts"
  obtain rt tr where h: "HeapFini ?env (dev_at ?st) (length (ms_devs ?st)) (ms_rt ?st) (ms_tr ?st) = (rt, tr)"
    by (cases "HeapFini ?env (dev_at ?st) (length (ms_devs ?st)) (ms_rt ?st) (ms_tr ?st)")
  let ?tr = "fold (WDDMDevice_dtor ?env) (ms_devs ?st) tr"
  from run h obtain ds tr1 where d: "WDDMCreateDevices ?env (te_adapters te) ?tr = Inr (ds, tr1)"
    by (cases "WDDMCreateDevices ?env (te_adapters te) ?tr") (auto simp: topology_sysfs_get_system_props_def)
  let ?n = "of_nat (length ds) :: u32" and ?st1 = "?st\<lparr>ms_rt := rt, ms_tr := tr1, ms_devs := ds\<rparr>"
  note unf = topology_sysfs_get_system_props_def h d Let_def prod.case bindE_simps
  have ne: "ds \<noteq> []" using run unfolding unf by auto
  with run have "bindE (HeapInit ?env (dev_at (?st1\<lparr>ms_num_nodes := ?n + 1\<rparr>)) (length ds) rt tr1) (\<lambda>(rt, tr).
      Inr (HSAKMT_STATUS_SUCCESS, zero_system\<lparr>NumNodes := ?n + 1\<rparr>,
        ts\<lparr>ts_info := map snd (te_adapters te), ts_mem := ?st1\<lparr>ms_num_nodes := ?n + 1, ms_rt := (if rt_default_node rt > ?n then rt\<lparr>rt_default_node := ?n\<rparr> else rt), ms_tr := tr\<rparr>\<rparr>))
      = Inr (HSAKMT_STATUS_SUCCESS, sys, ts')" unfolding unf by simp
  then obtain rt2 tr2 where h2: "HeapInit ?env (dev_at (?st1\<lparr>ms_num_nodes := ?n + 1\<rparr>)) (length ds) rt tr1 = Inr (rt2, tr2)"
    and r: "sys = zero_system\<lparr>NumNodes := ?n + 1\<rparr>"
      "ts' = ts\<lparr>ts_info := map snd (te_adapters te), ts_mem := ?st1\<lparr>ms_num_nodes := ?n + 1, ms_rt := (if rt_default_node rt2 > ?n then rt2\<lparr>rt_default_node := ?n\<rparr> else rt2), ms_tr := tr2\<rparr>\<rparr>"
    by (auto simp: bindE_Inr_iff)
  have "rt_open rt2 = rt_open (ms_rt ?st)" using HeapInit_open [OF h2] HeapFini_open [of ?env "dev_at ?st" "length (ms_devs ?st)" "ms_rt ?st" "ms_tr ?st"] h by simp
  then have "dxg_open (ts_mem ts') = dxg_open (ts_mem ts)" by (auto simp: r(2) dxg_open_def rt_open_def)
  with create_devices_length [OF d] ne r show ?thesis by (auto simp: add.commute)
qed

lemma take_snapshot_ok:
  assumes run: "topology_take_snapshot te ts = Inr (HSAKMT_STATUS_SUCCESS, ts')" and small: "Suc (length (te_adapters te)) < 2 ^ 32"
  shows "topology_ok (length (te_adapters te)) ts' \<and> ts_info ts' = map snd (te_adapters te) \<and> dxg_open (ts_mem ts') = dxg_open (ts_mem ts)"
proof -
  let ?n = "length (te_adapters te)"
  let ?ci = "replicate (unat (te_nproc te)) \<lparr>proc_num = 0, apicid = 0, model_name = []\<rparr>"
  obtain r0 ci v where pc: "topology_parse_cpuinfo (te_fs te) ?ci (processor_vendor ts) = Inr (r0, ci, v)"
    using run by (cases "topology_parse_cpuinfo (te_fs te) ?ci (processor_vendor ts)") (auto simp: topology_take_snapshot_def)
  let ?ts = "ts\<lparr>processor_vendor := v\<rparr>"
  obtain r1 sys t1 where sp: "topology_sysfs_get_system_props te ?ts = Inr (r1, sys, t1)"
    using run pc by (cases "topology_sysfs_get_system_props te ?ts") (auto simp: topology_take_snapshot_def)
  note unf = topology_take_snapshot_def pc sp Let_def prod.case bindE_simps
  have r1: "r1 = HSAKMT_STATUS_SUCCESS" using run unfolding unf by (cases "r1 = HSAKMT_STATUS_SUCCESS") simp_all
  from system_props_ok [OF sp [unfolded r1]] have s: "length (ms_devs (ts_mem t1)) = ?n" "0 < ?n" "ms_num_nodes (ts_mem t1) = of_nat (Suc ?n)"
    "NumNodes sys = of_nat (Suc ?n)" "ts_info t1 = map snd (te_adapters te)"
    "dxg_open (ts_mem t1) = dxg_open (ts_mem ts)" by auto
  have nn: "unat (NumNodes sys) = Suc ?n" using small unfolding s(4) by (simp add: unat_of_nat take_bit_nat_eq_self del: of_nat_Suc)
  let ?t1 = "t1\<lparr>g_props := resize (Suc ?n) zero_props (g_props t1)\<rparr>"
  have run1: "bindE (snapshot_nodes te ci sys [0..<Suc ?n] False ?t1) (\<lambda>(ret, p2p_links, ts).
       if ret \<noteq> HSAKMT_STATUS_SUCCESS then Inr (ret, ts)
       else bindE (if p2p_links then Inr (g_props ts) else topology_create_indirect_gpu_links sys (g_props ts)) (\<lambda>nps.
         if g_system (ts\<lparr>g_props := nps\<rparr>) = None \<and> \<not> te_malloc te then Inr (HSAKMT_STATUS_NO_MEMORY, ts\<lparr>g_props := nps\<rparr>)
         else Inr (HSAKMT_STATUS_SUCCESS, ts\<lparr>g_props := nps, g_system := Some sys\<rparr>))) = Inr (HSAKMT_STATUS_SUCCESS, ts')"
    using run unfolding unf r1 nn by simp
  then obtain p2 t2 where sn: "snapshot_nodes te ci sys [0..<Suc ?n] False ?t1 = Inr (HSAKMT_STATUS_SUCCESS, p2, t2)"
    by (cases "snapshot_nodes te ci sys [0..<Suc ?n] False ?t1") (auto split: if_splits)
  have "sized ?n ?t1" using s small by (simp add: sized_def resize_def)
  from snapshot_nodes_ok [OF sn _ this _ s(2) nn] have t2: "sized ?n t2" "\<forall>i\<le>?n. node_ok ?n t2 i (g_props t2 ! i)" "\<not> p2" "ts_info t2 = ts_info t1"
    "dxg_open (ts_mem t2) = dxg_open (ts_mem t1)"
    by (auto simp: less_Suc_eq_le)
  then have no: "nodes_ok ?n t2" using s(2) by (simp add: nodes_ok_def sized_def)
  have "ts' = t2\<lparr>g_system := Some sys\<rparr>"
  proof -
    have "t2\<lparr>g_props := g_props t2, g_system := Some sys\<rparr> = t2\<lparr>g_system := Some sys\<rparr>" by simp
    then show ?thesis using run1 t2(3) unfolding sn bindE_simps prod.case
      by (simp add: create_indirect_id [OF no nn] split: if_splits)
  qed
  then show ?thesis using no t2(1,4,5) s(4-6) by (auto simp: topology_ok_def nodes_ok_def sized_def node_ok_def)
qed

text \<open>When the steps of a node succeed.\<close>

lemma snapshot_mem_runs:
  assumes "sized n ts" "i \<le> n" "NumMemoryBanks (np_node (g_props ts ! i)) = 1" and "\<forall>tr. fst (dx (me_dx (te_mem te)) Sysinfo tr) \<noteq> None"
  shows "\<exists>ts'. snapshot_mem te i ts = Inr (HSAKMT_STATUS_SUCCESS, ts')"
proof -
  let ?ts = "set_node i (\<lambda>np. np\<lparr>np_mem := resize (Suc 0) zero_mem (np_mem np)\<rparr>) ts"
  have sz: "sized n ?ts" using sized_frame [OF frame_set_node assms(1)] .
  obtain vs tr where si: "dx (me_dx (te_mem te)) Sysinfo (ms_tr (ts_mem ts)) = (Some vs, tr)"
    using assms(4) [rule_format, of "ms_tr (ts_mem ts)"] by (cases "dx (me_dx (te_mem te)) Sysinfo (ms_tr (ts_mem ts))") auto
  have "\<exists>m ts1. topology_sysfs_get_mem_props te (of_nat i) ?ts = Inr (HSAKMT_STATUS_SUCCESS, m, ts1)"
  proof (cases "i = 0")
    case True
    then show ?thesis using si by (simp add: topology_sysfs_get_mem_props_def Let_def)
  next
    case False
    then have "(of_nat i :: u32) \<noteq> 0" using of_nat_node [of i] assms(1,2) by (simp add: sized_def)
    then show ?thesis using False by (simp add: topology_sysfs_get_mem_props_def Let_def map_node_id [OF sz assms(2)])
  qed
  then obtain m ts1 where "topology_sysfs_get_mem_props te (of_nat i) ?ts = Inr (HSAKMT_STATUS_SUCCESS, m, ts1)" by blast
  then show ?thesis using assms(3) by (simp add: snapshot_mem_def Let_def)
qed

lemma snapshot_cache_runs:
  assumes "sized n ts" "i \<le> n" "counts_ok ts i (np_node (g_props ts ! i))"
    and "i = 0 \<Longrightarrow> topology_get_cpu_cache_props (te_fs te) (processor_vendor ts) 0 ci (np_cache (g_props ts ! 0)) = Inr (HSAKMT_STATUS_SUCCESS, cs, cnt)"
  shows "\<exists>ts'. snapshot_cache te ci i ts = Inr (HSAKMT_STATUS_SUCCESS, ts')"
  using assms(3,4) map_node_id [OF assms(1,2)] by (cases "i = 0") (simp_all add: snapshot_cache_def counts_ok_def Let_def)

lemma snapshot_link_runs:
  assumes "sized n ts" "i \<le> n" "0 < n" "unat (NumNodes sys) = Suc n" and "NumIOLinks (np_node (g_props ts ! i)) = (if i = 0 then 0 else 1)"
  shows "\<exists>ts'. snapshot_link sys i 0 ts = Inr (HSAKMT_STATUS_SUCCESS, ts')"
proof (cases "i = 0")
  case True
  then show ?thesis using assms(1,5) by (simp add: snapshot_link_def Let_def sized_def)
next
  case False
  let ?ts = "set_node i (\<lambda>np. np\<lparr>np_link := resize n zero_link (np_link np)\<rparr>) ts"
  have i: "i < length (g_props ts)" using assms(1,2) by (simp add: sized_def)
  have "unat (1 :: u32) \<le> unat (NumNodes sys)" using assms(4) by simp
  then have room: "unat (NumNodes sys - 1) = n" using assms(4) by (simp add: unat_sub word_le_nat_alt)
  have "topology_map_node_id (of_nat i) ?ts = Inr (HSAKMT_STATUS_SUCCESS, Some (i - 1))"
    using map_node_id [OF sized_frame [OF frame_set_node assms(1)] assms(2)] False by simp
  then obtain l where "topology_sysfs_get_iolink_props (of_nat i) ?ts = Inr (HSAKMT_STATUS_SUCCESS, l)"
    by (auto simp: topology_sysfs_get_iolink_props_def Let_def)
  then show ?thesis using assms(3,5) False i room by (simp add: snapshot_link_def Let_def)
qed

lemma snapshot_node_runs:
  assumes sz: "sized n ts" "i \<le> n" "0 < n" "unat (NumNodes sys) = Suc n" and si: "\<forall>tr. fst (dx (me_dx (te_mem te)) Sysinfo tr) \<noteq> None"
    and pr: "topology_sysfs_get_node_props te (of_nat i) ts = Inr (HSAKMT_STATUS_SUCCESS, p, q, r)"
    and ca: "i = 0 \<Longrightarrow> topology_get_cpu_cache_props (te_fs te) (processor_vendor ts) 0 ci (np_cache (g_props ts ! 0)) = Inr (HSAKMT_STATUS_SUCCESS, cs, cnt)"
  shows "\<exists>ts'. snapshot_node te ci sys i ts = Inr (HSAKMT_STATUS_SUCCESS, False, ts') \<and> frame i ts ts'"
proof -
  have i: "i < length (g_props ts)" using sz(1,2) by (simp add: sized_def)
  from node_props_counts [OF sz(1,2) pr] have c: "counts_ok ts i p" "\<not> q" "r = 0" by simp_all
  let ?t1 = "topology_setup_is_dgpu_param p (set_node i (\<lambda>np. np\<lparr>np_node := p\<rparr>) ts)"
  define t2 where "t2 = (if NumCPUCores p \<noteq> 0 then set_node i (\<lambda>np. np\<lparr>np_node := topology_get_cpu_model_name (np_node np) ci\<rparr>) ?t1 else ?t1)"
  have f1: "frame i ts ?t1" using frame_trans [OF frame_set_node frame_dgpu(1)] .
  then have f2: "frame i ts t2" unfolding t2_def using frame_trans [OF f1 frame_set_node] by simp
  have p2: "counts_ok ts i (np_node (g_props t2 ! i))" "np_cache (g_props t2 ! i) = np_cache (g_props ts ! i)" using c(1) i
    by (auto simp: t2_def counts_ok_def model_name_counts)
  note s2 = sized_frame [OF f2 sz(1)]
  have b1: "NumMemoryBanks (np_node (g_props t2 ! i)) = 1" using p2(1) by (simp add: counts_ok_def)
  from snapshot_mem_runs [OF s2 sz(2) b1 si] obtain t3 where m: "snapshot_mem te i t2 = Inr (HSAKMT_STATUS_SUCCESS, t3)" by blast
  from snapshot_mem_bank [OF s2 sz(2) b1 m] obtain b where b: "frame i t2 t3" "g_props t3 ! i = (g_props t2 ! i)\<lparr>np_mem := [b]\<rparr>" by blast
  note s3 = sized_frame [OF b(1) s2] and f3 = frame_trans [OF f2 b(1)]
  have info: "ts_info t3 = ts_info ts" "processor_vendor t3 = processor_vendor ts" using f3 by (simp_all add: frame_def)
  have p3: "counts_ok t3 i (np_node (g_props t3 ! i))" using p2 b(2) info by (cases "i = 0") (simp_all add: counts_ok_def)
  have "i = 0 \<Longrightarrow> topology_get_cpu_cache_props (te_fs te) (processor_vendor t3) 0 ci (np_cache (g_props t3 ! 0)) = Inr (HSAKMT_STATUS_SUCCESS, cs, cnt)"
    using ca p2(2) b(2) info by simp
  from snapshot_cache_runs [OF s3 sz(2) p3 this] obtain t4 where ca4: "snapshot_cache te ci i t3 = Inr (HSAKMT_STATUS_SUCCESS, t4)" by blast
  from snapshot_cache_table [OF s3 sz(2) p3 ca4] obtain cs' k where
    k: "frame i t3 t4" "g_props t4 ! i = (g_props t3 ! i)\<lparr>np_cache := cs', np_node := (np_node (g_props t3 ! i))\<lparr>NumCaches := k\<rparr>\<rparr>" by blast
  note s4 = sized_frame [OF k(1) s3] and f4 = frame_trans [OF f3 k(1)]
  have l4: "NumIOLinks (np_node (g_props t4 ! i)) = (if i = 0 then 0 else 1)" using p3 k(2) by (cases "i = 0") (simp_all add: counts_ok_def)
  from snapshot_link_runs [OF s4 sz(2-4) l4] obtain ts' where li: "snapshot_link sys i 0 t4 = Inr (HSAKMT_STATUS_SUCCESS, ts')" by blast
  from snapshot_link_table [OF s4 sz(2-4) l4 li] have "frame i ts ts'" using frame_trans [OF f4] by blast
  moreover have "topology_sysfs_get_node_props te (of_nat i) ts = Inr (HSAKMT_STATUS_SUCCESS, p, False, 0)" using pr c(2,3) by simp
  then have "snapshot_node te ci sys i ts = Inr (HSAKMT_STATUS_SUCCESS, False, ts')"
    using m ca4 li by (simp only: snapshot_node_def bindE_simps prod.case Let_def t2_def [symmetric] if_True if_False simp_thms)
  ultimately show ?thesis by blast
qed

text \<open>When the caches of the CPU cannot be read, the snapshot ends there.\<close>

lemma snapshot_node_fault:
  assumes sz: "sized n ts" and si: "\<forall>tr. fst (dx (me_dx (te_mem te)) Sysinfo tr) \<noteq> None"
    and ca: "topology_get_cpu_cache_props (te_fs te) (processor_vendor ts) 0 ci (np_cache (g_props ts ! 0)) = Inl e"
  shows "snapshot_node te ci sys 0 ts = Inl e"
proof -
  have i: "0 < length (g_props ts)" using sz by (simp add: sized_def)
  obtain p where pr: "topology_sysfs_get_node_props te (of_nat 0) ts = Inr (HSAKMT_STATUS_SUCCESS, p, False, 0)"
    by (simp add: topology_sysfs_get_node_props_def Let_def)
  from node_props_counts [OF sz _ pr] have c: "counts_ok ts 0 p" by simp
  let ?t1 = "topology_setup_is_dgpu_param p (set_node 0 (\<lambda>np. np\<lparr>np_node := p\<rparr>) ts)"
  define t2 where "t2 = (if NumCPUCores p \<noteq> 0 then set_node 0 (\<lambda>np. np\<lparr>np_node := topology_get_cpu_model_name (np_node np) ci\<rparr>) ?t1 else ?t1)"
  have f1: "frame 0 ts ?t1" using frame_trans [OF frame_set_node frame_dgpu(1)] .
  then have f2: "frame 0 ts t2" unfolding t2_def using frame_trans [OF f1 frame_set_node] by simp
  have p2: "counts_ok ts 0 (np_node (g_props t2 ! 0))" "np_cache (g_props t2 ! 0) = np_cache (g_props ts ! 0)" using c i
    by (auto simp: t2_def counts_ok_def model_name_counts)
  note s2 = sized_frame [OF f2 sz]
  have b1: "NumMemoryBanks (np_node (g_props t2 ! 0)) = 1" using p2(1) by (simp add: counts_ok_def)
  from snapshot_mem_runs [OF s2 _ b1 si] obtain t3 where m: "snapshot_mem te 0 t2 = Inr (HSAKMT_STATUS_SUCCESS, t3)" by blast
  from snapshot_mem_bank [OF s2 _ b1 m] obtain b where b: "frame 0 t2 t3" "g_props t3 ! 0 = (g_props t2 ! 0)\<lparr>np_mem := [b]\<rparr>" by blast
  have "processor_vendor t3 = processor_vendor ts" using frame_trans [OF f2 b(1)] by (simp add: frame_def)
  then have "snapshot_cache te ci 0 t3 = Inl e" using p2 b(2) ca by (simp add: snapshot_cache_def counts_ok_def Let_def)
  then show ?thesis
    using pr m by (simp only: snapshot_node_def bindE_simps prod.case Let_def t2_def [symmetric] if_True if_False simp_thms)
qed

section \<open>A system with one processor and one GPU\<close>

definition gpu_example :: gpu_info where
  "gpu_example = \<lparr>gi_simd_per_cu = 4, gi_wave_per_cu = 64, gi_asic_revision = 1, gi_watch_points = 4, gi_wavefront_size = 32, gi_shader_arrays = 2,
     gi_device_id = 0x744c, gi_pci_bus_addr = 0x300, gi_max_engine_clock = 2500, gi_product_name = ''GPU'', gi_sdma_fw = 24, gi_mec_fw = 550,
     gi_num_sdma = 2, gi_num_cp_queues = 8, gi_domain = 0, gi_uuid = 7, gi_family = 145, gi_minor = 0, gi_stepping = 0, gi_memory_bus_width = 384,
     gi_max_memory_clock = 1249, gi_l1_cache = 32768, gi_l2_cache = 6291456, gi_l3_cache = 100663296, gi_counter_frequency = 100000000\<rparr>"

definition topology_env_example :: topology_env where
  "topology_env_example = \<lparr>te_mem = sample_menv\<lparr>me_dx := sample_env\<rparr>, te_fs = one_cpu, te_nproc = 1, te_freq_max = 3600,
     te_adapters = [(device_example, gpu_example)], te_override = None, te_malloc = True\<rparr>"

definition topology_example :: topology_state where
  "topology_example = \<lparr>ts_mem = sample_mem\<lparr>ms_devs := [], ms_num_nodes := 0\<rparr>, ts_info = [], g_system = None, g_props = [], processor_vendor = 0\<rparr>"

lemma topology_example_open: "dxg_open (ts_mem topology_example)"
  by (simp add: topology_example_def dxg_open_def sample_mem_def sample_world_def new_hsakmtRuntime_def)

lemma ctor_example:
  "\<exists>d tr'. WDDMDevice_ctor sample_env device_example tr = Inr (d, tr') \<and> heap_bytes d = heap_bytes device_example \<and>
     dev_private_aperture_base d = dev_private_aperture_base device_example \<and> dev_private_aperture_size d = dev_private_aperture_size device_example \<and>
     dev_shared_aperture_base d = dev_shared_aperture_base device_example \<and> dev_shared_aperture_size d = dev_shared_aperture_size device_example \<and>
     dev_compute_unit_count d = dev_compute_unit_count device_example \<and> dev_major d = 11"
  by (simp add: WDDMDevice_ctor_def SetPowerOptimization_def CreatePagingQueue_def dx_def dxc_def Let_def sample_env_def InitCmdbufInfo_def QuerySegmentInfo_def device_example_def heap_bytes_def LocalHeapSize_def out_arg_def)

lemma parse_example: "topology_parse_cpuinfo one_cpu ci v = Inr (HSAKMT_STATUS_ERROR, ci, v)"
  by (simp add: topology_parse_cpuinfo_def one_cpu_def)

lemma system_example:
  "\<exists>ts1 d. topology_sysfs_get_system_props topology_env_example (topology_example\<lparr>processor_vendor := v\<rparr>) = Inr (HSAKMT_STATUS_SUCCESS, zero_system\<lparr>NumNodes := 2\<rparr>, ts1) \<and>
     ms_devs (ts_mem ts1) = [d] \<and> dev_major d = 11 \<and> ms_num_nodes (ts_mem ts1) = 2 \<and> ts_info ts1 = [gpu_example] \<and> g_props ts1 = [] \<and> processor_vendor ts1 = v"
proof -
  let ?st = "ts_mem topology_example"
  obtain rt tr where fini: "HeapFini sample_env (dev_at ?st) 0 (ms_rt ?st) (ms_tr ?st) = (rt, tr)" by fastforce
  from ctor_example [of tr] obtain d tr1 where d: "WDDMDevice_ctor sample_env device_example tr = Inr (d, tr1)" "heap_bytes d = heap_bytes device_example"
    "dev_private_aperture_base d = dev_private_aperture_base device_example" "dev_private_aperture_size d = dev_private_aperture_size device_example"
    "dev_shared_aperture_base d = dev_shared_aperture_base device_example" "dev_shared_aperture_size d = dev_shared_aperture_size device_example" "dev_major d = 11" by blast
  let ?st1 = "?st\<lparr>ms_rt := rt, ms_tr := tr1, ms_devs := [d], ms_num_nodes := 2\<rparr>"
  have dv: "dev_at ?st1 1 = Some d" by (simp add: dev_at_def get_wddmdev_def word_le_nat_alt)
  have b: "0 < unat (heap_bytes d)" "unat (heap_bytes d) \<le> 2 ^ 44" "apertures_below (2 ^ 63) d"
    unfolding d apertures_below_def by (simp_all add: heap_bytes_def device_example_def LocalHeapSize_def)
  from HeapInit_post [where rt = rt and tr = tr1 and dv = "dev_at ?st1" and d = d, OF sample_env_ok(1,3,4) dv b sample_sysinfo] obtain rt2 tr2 where
    init: "HeapInit sample_env (dev_at ?st1) 1 rt tr1 = Inr (rt2, tr2)" by blast
  have e: "me_dx (te_mem topology_env_example) = sample_env" "te_adapters topology_env_example = [(device_example, gpu_example)]"
    by (simp_all add: topology_env_example_def)
  have t: "ms_devs ?st = []" "g_props topology_example = []" by (simp_all add: topology_example_def)
  show ?thesis
    using init by (simp add: topology_sysfs_get_system_props_def Let_def e t fini d)
qed

lemma cache_example: "topology_get_cpu_cache_props one_cpu 0 0 [\<lparr>proc_num = 0, apicid = 0, model_name = []\<rparr>] [] = Inr (HSAKMT_STATUS_SUCCESS, [], Some 0)"
  by code_simp

lemma gpu_example_props:
  assumes "sized 1 ts" "ms_devs (ts_mem ts) = [d]" "ts_info ts = [gpu_example]" "dev_major d = 11"
  shows "\<exists>p. topology_sysfs_get_node_props topology_env_example (of_nat 1) ts = Inr (HSAKMT_STATUS_SUCCESS, p, False, 0)"
  using map_node_id [OF assms(1), of 1] assms(2-4)
  by (simp add: topology_sysfs_get_node_props_def Let_def gpu_props1_def gpu_example_def override_engine_def topology_env_example_def gpu_props2_def take_bit_eq_mask mask_eq_exp_minus_1 assertE_def)

lemma snapshot_example:
  "\<exists>ts'. topology_take_snapshot topology_env_example topology_example = Inr (HSAKMT_STATUS_SUCCESS, ts')"
proof -
  let ?te = topology_env_example and ?sys = "zero_system\<lparr>NumNodes := 2\<rparr>" and ?ci = "[\<lparr>proc_num = 0, apicid = 0, model_name = []\<rparr>]"
  have e: "te_fs ?te = one_cpu" "te_nproc ?te = 1" "te_malloc ?te" "processor_vendor topology_example = 0"
    by (simp_all add: topology_env_example_def topology_example_def)
  have nn: "unat (NumNodes ?sys) = Suc 1" by simp
  have si: "\<forall>tr. fst (dx (me_dx (te_mem ?te)) Sysinfo tr) \<noteq> None"
    by (simp add: topology_env_example_def dx_def dxc_def sample_env_def)
  from system_example [of 0] obtain t0 d where sp: "topology_sysfs_get_system_props ?te (topology_example\<lparr>processor_vendor := 0\<rparr>) = Inr (HSAKMT_STATUS_SUCCESS, ?sys, t0)"
    and t0: "ms_devs (ts_mem t0) = [d]" "dev_major d = 11" "ms_num_nodes (ts_mem t0) = 2" "ts_info t0 = [gpu_example]" "g_props t0 = []" "processor_vendor t0 = 0"
    by blast
  let ?t1 = "t0\<lparr>g_props := resize 2 zero_props (g_props t0)\<rparr>"
  have s1: "sized 1 ?t1" using t0 by (simp add: sized_def resize_def)
  have p0: "topology_sysfs_get_node_props ?te (of_nat 0) ?t1 =
      Inr (HSAKMT_STATUS_SUCCESS, zero_node\<lparr>MaxEngineClockMhzCCompute := te_freq_max ?te, NumCPUCores := 1, NumMemoryBanks := 1, KFDGpuID := 0\<rparr>, False, 0)"
    by (simp add: topology_sysfs_get_node_props_def e Let_def)
  have c0: "topology_get_cpu_cache_props (te_fs ?te) (processor_vendor ?t1) 0 ?ci (np_cache (g_props ?t1 ! 0)) = Inr (HSAKMT_STATUS_SUCCESS, [], Some 0)"
    using cache_example t0 e by (simp add: resize_def zero_props_def numeral_2_eq_2)
  from snapshot_node_runs [OF s1 _ _ nn si p0 c0] obtain t2 where n0: "snapshot_node ?te ?ci ?sys 0 ?t1 = Inr (HSAKMT_STATUS_SUCCESS, False, t2)" "frame 0 ?t1 t2" by auto
  note s2 = sized_frame [OF n0(2) s1]
  have d2: "ms_devs (ts_mem t2) = [d]" "ts_info t2 = [gpu_example]" using n0(2) t0 by (simp_all add: frame_def)
  from gpu_example_props [OF s2 d2 t0(2)] obtain p where p1: "topology_sysfs_get_node_props ?te (of_nat 1) t2 = Inr (HSAKMT_STATUS_SUCCESS, p, False, 0)" by blast
  from snapshot_node_runs [where ci = ?ci, OF s2 _ _ nn si p1] obtain t3 where n1: "snapshot_node ?te ?ci ?sys 1 t2 = Inr (HSAKMT_STATUS_SUCCESS, False, t3)" "frame 1 t2 t3" by auto
  have "snapshot_nodes ?te ?ci ?sys [0..<2] False ?t1 = Inr (HSAKMT_STATUS_SUCCESS, False, t3)"
    using n0(1) n1(1) by (simp add: upt_rec)
  moreover have "nodes_ok 1 t3"
    using snapshot_nodes_ok [OF calculation _ s1 _ _ nn] sized_frame [OF n1(2) s2] by (auto simp: nodes_ok_def sized_def)
  then have "topology_create_indirect_gpu_links ?sys (g_props t3) = Inr (g_props t3)" using create_indirect_id nn by blast
  ultimately show ?thesis
    using sp parse_example by (simp add: topology_take_snapshot_def e Let_def)
qed

section \<open>The shape of a snapshot\<close>

text \<open>
  C31. A snapshot is a star. When \<^verbatim>\<open>topology_take_snapshot\<close> succeeds, the table has one node for the CPU and one for each adapter. The CPU node has one bank of system
  memory and reports no link; the node of adapter \<open>i\<close> has one private bank, three caches, the identifier of its device and exactly one link, over PCI Express with weight 20 to the
  CPU. The search for indirect links over all pairs adds none: no two GPUs are linked and no link leaves the CPU. Every count of a node fits its table.
\<close>

theorem snapshot_star:
  assumes "topology_take_snapshot te ts = Inr (HSAKMT_STATUS_SUCCESS, ts')" and "Suc (length (te_adapters te)) < 2 ^ 32"
  shows "(\<exists>sys. g_system ts' = Some sys \<and> unat (NumNodes sys) = Suc (length (te_adapters te))) \<and>
    length (g_props ts') = Suc (length (te_adapters te)) \<and>
    topology_create_indirect_gpu_links (the (g_system ts')) (g_props ts') = Inr (g_props ts') \<and>
    (\<forall>i<length (g_props ts'). let np = g_props ts' ! i in
       length (np_mem np) = 1 \<and> NumMemoryBanks (np_node np) = 1 \<and> unat (NumCaches (np_node np)) \<le> length (np_cache np) \<and>
       (if i = 0 then KFDGpuID (np_node np) = 0 \<and> NumIOLinks (np_node np) = 0 \<and> HeapType (np_mem np ! 0) = HSA_HEAPTYPE_SYSTEM
        else KFDGpuID (np_node np) = gi_device_id (snd (te_adapters te ! (i - 1))) \<and> NumCaches (np_node np) = 3 \<and>
          HeapType (np_mem np ! 0) = HSA_HEAPTYPE_FRAME_BUFFER_PRIVATE \<and> NumIOLinks (np_node np) = 1 \<and>
          IoLinkType (np_link np ! 0) = HSA_IOLINKTYPE_PCIEXPRESS \<and> NodeFrom (np_link np ! 0) = of_nat i \<and>
          NodeTo (np_link np ! 0) = 0 \<and> Weight (np_link np ! 0) = 20))"
proof -
  let ?n = "length (te_adapters te)"
  from take_snapshot_ok [OF assms] obtain sys where ok: "nodes_ok ?n ts'" "g_system ts' = Some sys" "NumNodes sys = of_nat (Suc ?n)" "ts_info ts' = map snd (te_adapters te)"
    by (auto simp: topology_ok_def)
  have nn: "unat (NumNodes sys) = Suc ?n" using assms(2) unfolding ok(3) by (simp add: unat_of_nat take_bit_nat_eq_self del: of_nat_Suc)
  have len: "length (g_props ts') = Suc ?n" using ok(1) by (simp add: nodes_ok_def)
  have info: "ts_info ts' ! (i - 1) = snd (te_adapters te ! (i - 1))" if "0 < i" "i \<le> ?n" for i using ok(4) that by simp
  have "node_ok ?n ts' i (g_props ts' ! i)" if "i \<le> ?n" for i using ok(1) that by (simp add: nodes_ok_def)
  then have "\<forall>i<length (g_props ts'). let np = g_props ts' ! i in
       length (np_mem np) = 1 \<and> NumMemoryBanks (np_node np) = 1 \<and> unat (NumCaches (np_node np)) \<le> length (np_cache np) \<and>
       (if i = 0 then KFDGpuID (np_node np) = 0 \<and> NumIOLinks (np_node np) = 0 \<and> HeapType (np_mem np ! 0) = HSA_HEAPTYPE_SYSTEM
        else KFDGpuID (np_node np) = gi_device_id (snd (te_adapters te ! (i - 1))) \<and> NumCaches (np_node np) = 3 \<and>
          HeapType (np_mem np ! 0) = HSA_HEAPTYPE_FRAME_BUFFER_PRIVATE \<and> NumIOLinks (np_node np) = 1 \<and>
          IoLinkType (np_link np ! 0) = HSA_IOLINKTYPE_PCIEXPRESS \<and> NodeFrom (np_link np ! 0) = of_nat i \<and>
          NodeTo (np_link np ! 0) = 0 \<and> Weight (np_link np ! 0) = 20)"
    unfolding len node_ok_def cpu_link_def Let_def less_Suc_eq_le using info by (metis gr0I)
  then show ?thesis using ok(2) nn len create_indirect_id [OF ok(1) nn] by simp
qed

theorem snapshot_star_witness:
  "\<exists>ts'. topology_take_snapshot topology_env_example topology_example = Inr (HSAKMT_STATUS_SUCCESS, ts') \<and> length (g_props ts') = 2 \<and>
     NodeTo (np_link (g_props ts' ! 1) ! 0) = 0 \<and> KFDGpuID (np_node (g_props ts' ! 1)) = 0x744c"
proof -
  from snapshot_example obtain ts' where r: "topology_take_snapshot topology_env_example topology_example = Inr (HSAKMT_STATUS_SUCCESS, ts')" by blast
  have a: "te_adapters topology_env_example = [(device_example, gpu_example)]" "gi_device_id gpu_example = 0x744c"
    by (simp_all add: topology_env_example_def gpu_example_def)
  from snapshot_star [OF r] show ?thesis using r by (auto simp: a Let_def)
qed

section \<open>A second attempt\<close>

text \<open>The table of nodes plays no part in finding the adapters, and is kept.\<close>

lemma system_props_table:
  assumes "topology_sysfs_get_system_props te ts = Inr (ret, sys, ts')"
  shows "topology_sysfs_get_system_props te (ts\<lparr>g_props := nps\<rparr>) = Inr (ret, sys, ts'\<lparr>g_props := nps\<rparr>)"
    and "g_props ts' = g_props ts" and "processor_vendor ts' = processor_vendor ts"
proof -
  let ?env = "me_dx (te_mem te)" and ?st = "ts_mem ts"
  obtain rt tr where f: "HeapFini ?env (dev_at ?st) (length (ms_devs ?st)) (ms_rt ?st) (ms_tr ?st) = (rt, tr)" by fastforce
  note unf = topology_sysfs_get_system_props_def Let_def f prod.case
  obtain devs tr1 where c: "WDDMCreateDevices ?env (te_adapters te) (fold (WDDMDevice_dtor ?env) (ms_devs ?st) tr) = Inr (devs, tr1)"
    using assms unfolding unf by (cases "WDDMCreateDevices ?env (te_adapters te) (fold (WDDMDevice_dtor ?env) (ms_devs ?st) tr)") auto
  let ?st1 = "?st\<lparr>ms_rt := rt, ms_tr := tr1, ms_devs := devs\<rparr>"
  have "topology_sysfs_get_system_props te (ts\<lparr>g_props := nps\<rparr>) = Inr (ret, sys, ts'\<lparr>g_props := nps\<rparr>) \<and> g_props ts' = g_props ts \<and>
      processor_vendor ts' = processor_vendor ts"
  proof (cases "devs = []")
    case True
    with assms show ?thesis by (auto simp: unf c)
  next
    case False
    let ?st2 = "?st1\<lparr>ms_num_nodes := of_nat (length devs) + 1\<rparr>"
    obtain rt2 tr2 where h: "HeapInit ?env (dev_at ?st2) (length devs) rt tr1 = Inr (rt2, tr2)"
      using assms False by (cases "HeapInit ?env (dev_at ?st2) (length devs) rt tr1") (auto simp: unf c)
    from assms False show ?thesis by (auto simp: unf c h)
  qed
  then show "topology_sysfs_get_system_props te (ts\<lparr>g_props := nps\<rparr>) = Inr (ret, sys, ts'\<lparr>g_props := nps\<rparr>)"
    "g_props ts' = g_props ts" "processor_vendor ts' = processor_vendor ts" by simp_all
qed

text \<open>
  C38. A snapshot cannot be taken over a table that has caches for the CPU: the table is not cleared, the caches of the CPU are
  appended to those it has, and the assertion that compares their number with the size of the table stops the process. This holds whenever the steps up to that point work
  (the processors and the adapters can be read, the kernel reports its memory, and reading the caches into an empty table succeeds with a count).
\<close>

theorem snapshot_retry_asserts:
  assumes "topology_parse_cpuinfo (te_fs te) (replicate (unat (te_nproc te)) \<lparr>proc_num = 0, apicid = 0, model_name = []\<rparr>) (processor_vendor ts) = Inr (r0, ci, v)"
    and "topology_sysfs_get_system_props te (ts\<lparr>processor_vendor := v\<rparr>) = Inr (HSAKMT_STATUS_SUCCESS, sys, ts1)"
    and "Suc (length (te_adapters te)) < 2 ^ 32" and "\<forall>tr. fst (dx (me_dx (te_mem te)) Sysinfo tr) \<noteq> None"
    and "topology_get_cpu_cache_props (te_fs te) v 0 ci [] = Inr (ret, cache, Some k)"
    and "g_props ts \<noteq> []" and "np_cache (g_props ts ! 0) \<noteq> []"
  shows "topology_take_snapshot te ts = Inl (Assert_Failed ''topology_get_cpu_cache_props'')"
proof -
  let ?n = "length (te_adapters te)"
  from system_props_ok [OF assms(2)] have s: "length (ms_devs (ts_mem ts1)) = ?n" "0 < ?n" "ms_num_nodes (ts_mem ts1) = of_nat (Suc ?n)"
    "NumNodes sys = of_nat (Suc ?n)" "ts_info ts1 = map snd (te_adapters te)" by auto
  have nn: "unat (NumNodes sys) = Suc ?n" using assms(3) unfolding s(4) by (simp add: unat_of_nat take_bit_nat_eq_self del: of_nat_Suc)
  have k: "g_props ts1 = g_props ts" "processor_vendor ts1 = v" using system_props_table(2,3) [OF assms(2)] by simp_all
  let ?t1 = "ts1\<lparr>g_props := resize (Suc ?n) zero_props (g_props ts1)\<rparr>"
  have sz: "sized ?n ?t1" using s assms(3) by (simp add: sized_def resize_def)
  have "g_props ?t1 ! 0 = g_props ts ! 0" using assms(6) k(1) by (cases "g_props ts") (simp_all add: resize_def)
  then have "topology_get_cpu_cache_props (te_fs te) (processor_vendor ?t1) 0 ci (np_cache (g_props ?t1 ! 0)) = Inl (Assert_Failed ''topology_get_cpu_cache_props'')"
    using cpu_cache_again [OF assms(5,7)] k(2) by simp
  from snapshot_node_fault [OF sz assms(4) this] have "snapshot_nodes te ci sys [0..<Suc ?n] False ?t1 = Inl (Assert_Failed ''topology_get_cpu_cache_props'')"
    by (simp add: upt_conv_Cons del: upt_Suc)
  then show ?thesis by (simp add: topology_take_snapshot_def assms(1,2) nn Let_def del: upt_Suc)
qed

theorem snapshot_retry_asserts_witness:
  "topology_take_snapshot topology_env_example (topology_example\<lparr>g_props := [zero_props\<lparr>np_cache := [zero_cache]\<rparr>]\<rparr>) =
     Inl (Assert_Failed ''topology_get_cpu_cache_props'')"
proof -
  let ?te = topology_env_example and ?ts = "topology_example\<lparr>g_props := [zero_props\<lparr>np_cache := [zero_cache]\<rparr>]\<rparr>"
  have e: "te_fs ?te = one_cpu" "te_nproc ?te = 1" "processor_vendor ?ts = 0" "length (te_adapters ?te) = 1"
    by (simp_all add: topology_env_example_def topology_example_def)
  have si: "\<forall>tr. fst (dx (me_dx (te_mem ?te)) Sysinfo tr) \<noteq> None" by (simp add: topology_env_example_def dx_def dxc_def sample_env_def)
  from system_example [of 0] obtain t0 where "topology_sysfs_get_system_props ?te (topology_example\<lparr>processor_vendor := 0\<rparr>) = Inr (HSAKMT_STATUS_SUCCESS, zero_system\<lparr>NumNodes := 2\<rparr>, t0)"
    by blast
  from system_props_table(1) [OF this, of "g_props ?ts"] obtain t1 where
    "topology_sysfs_get_system_props ?te (?ts\<lparr>processor_vendor := 0\<rparr>) = Inr (HSAKMT_STATUS_SUCCESS, zero_system\<lparr>NumNodes := 2\<rparr>, t1)"
    by (simp add: topology_example_def)
  from snapshot_retry_asserts [OF _ this _ si] show ?thesis using parse_example cache_example by (simp add: e)
qed

section \<open>Reading the snapshot\<close>

lemma ok_node:
  assumes "topology_ok n ts" "unat node \<le> n"
  shows "node_at loc node ts = Inr (g_props ts ! unat node)" "node_ok n ts (unat node) (g_props ts ! unat node)" "valid_node node ts" "g_props ts \<noteq> []"
proof -
  from assms have len: "length (g_props ts) = Suc n" "Suc n < 2 ^ 32" by (auto simp: topology_ok_def nodes_ok_def)
  then show "node_at loc node ts = Inr (g_props ts ! unat node)" "g_props ts \<noteq> []" using assms(2) by (auto simp: node_at_def at_def)
  show "node_ok n ts (unat node) (g_props ts ! unat node)" using assms by (simp add: topology_ok_def nodes_ok_def)
  from assms(1) obtain sys where "g_system ts = Some sys" "NumNodes sys = of_nat (Suc n)" by (auto simp: topology_ok_def)
  then show "valid_node node ts" using assms(2) len(2)
    by (simp add: valid_node_def word_less_nat_alt unat_of_nat take_bit_nat_eq_self del: of_nat_Suc)
qed

lemma ok_invalid:
  assumes "topology_ok n ts" "n < unat node"
  shows "\<not> valid_node node ts" "node_at loc node ts = Inl (Out_Of_Bounds loc)"
proof -
  from assms have len: "length (g_props ts) = Suc n" "Suc n < 2 ^ 32" by (auto simp: topology_ok_def nodes_ok_def)
  then show "node_at loc node ts = Inl (Out_Of_Bounds loc)" using assms(2) by (simp add: node_at_def at_def)
  from assms(1) obtain sys where "g_system ts = Some sys" "NumNodes sys = of_nat (Suc n)" by (auto simp: topology_ok_def)
  then show "\<not> valid_node node ts" using assms(2) len(2)
    by (simp add: valid_node_def word_less_nat_alt unat_of_nat take_bit_nat_eq_self del: of_nat_Suc)
qed

lemma ok_wddmdev:
  assumes "topology_ok n ts" "unat node \<le> n"
  shows "get_wddmdev (ts_mem ts) node = Inr (if node = 0 then None else Some (unat node - 1))"
proof -
  have sz: "Suc n < 2 ^ 32" "length (ms_devs (ts_mem ts)) = n" "unat (ms_num_nodes (ts_mem ts)) = Suc n"
    using assms(1) by (auto simp: topology_ok_def sized_def unat_of_nat take_bit_nat_eq_self simp del: of_nat_Suc)
  then have "0 < length (ms_devs (ts_mem ts))" using assms by (auto simp: topology_ok_def nodes_ok_def)
  moreover have "unat node - 1 < n" if "node \<noteq> 0" using that assms(2) unat_gt_0 [of node] by linarith
  ultimately show ?thesis using sz assms(2) by (auto simp: get_wddmdev_def word_le_nat_alt not_le)
qed

lemma copy_banks_one: "length out \<ge> k \<Longrightarrow> copy_banks [m] [0..<min 1 k] out = Inr (if k = 0 then out else out[0 := m])"
  by (cases k) (simp_all add: at_def)

lemma banks_filled:
  "snd (add_bank s (add_bank l (min 1 k, if k = 0 then replicate k z else (replicate k z)[0 := m]))) = take k ([m, l, s] @ replicate k z)"
  "(if k = 0 then replicate k z else (replicate k z)[0 := m]) = take k ([m] @ replicate k z)"
proof -
  have "k = 0 \<or> k = 1 \<or> k = 2 \<or> (\<exists>j. k = Suc (Suc (Suc j)))" by presburger
  moreover have "take j (z # z # z # replicate j z) = replicate j z" for j by (simp flip: replicate_Suc)
  ultimately show "snd (add_bank s (add_bank l (min 1 k, if k = 0 then replicate k z else (replicate k z)[0 := m]))) = take k ([m, l, s] @ replicate k z)"
    by (elim disjE exE) (simp_all add: add_bank_def numeral_2_eq_2)
  show "(if k = 0 then replicate k z else (replicate k z)[0 := m]) = take k ([m] @ replicate k z)"
  proof (cases k)
    case (Suc j)
    have "take j (z # replicate j z) = replicate j z" by (simp flip: replicate_Suc)
    with Suc show ?thesis by simp
  qed simp
qed

lemma memory_query:
  assumes ok: "topology_ok n ts" "unat node \<le> n" and op: "dxg_open (ts_mem ts)"
  shows "hsaKmtGetNodeMemoryProperties node k True ts = Inr (HSAKMT_STATUS_SUCCESS,
    take (unat k) (np_mem (g_props ts ! unat node) @
      (if node = 0 then [] else
        [zero_mem\<lparr>HeapType := HSA_HEAPTYPE_GPU_LDS, VirtualBaseAddress := dev_shared_aperture_base (ms_devs (ts_mem ts) ! (unat node - 1)),
           SizeInBytes := ucast (LDSSizeInKB (np_node (g_props ts ! unat node)) * 1024)\<rparr>,
         zero_mem\<lparr>HeapType := HSA_HEAPTYPE_GPU_SCRATCH, VirtualBaseAddress := dev_private_aperture_base (ms_devs (ts_mem ts) ! (unat node - 1)),
           SizeInBytes := dev_private_aperture_size (ms_devs (ts_mem ts) ! (unat node - 1))\<rparr>]) @ replicate (unat k) zero_mem))"
proof -
  let ?np = "g_props ts ! unat node"
  from ok_node(2) [OF ok] obtain m where m: "np_mem ?np = [m]" "NumMemoryBanks (np_node ?np) = 1"
    by (auto simp: node_ok_def length_Suc_conv)
  have mn: "unat (min (NumMemoryBanks (np_node ?np)) k) = min 1 (unat k)" by (simp add: m(2) min_def word_le_nat_alt)
  have cb: "copy_banks [m] [0..<min 1 (unat k)] (replicate (unat k) zero_mem) =
      Inr (if unat k = 0 then replicate (unat k) zero_mem else (replicate (unat k) zero_mem)[0 := m])"
    by (rule copy_banks_one) simp
  show ?thesis
  proof (cases "node = 0")
    case True
    show ?thesis
      unfolding hsaKmtGetNodeMemoryProperties_def ok_node(1) [OF ok] Let_def bindE_simps ok_wddmdev [OF ok] mn m(1)
      by (simp only: True op simp_thms if_False if_True option.case cb bindE_simps banks_filled(2) append_Cons append_Nil)
  next
    case False
    show ?thesis
      unfolding hsaKmtGetNodeMemoryProperties_def ok_node(1) [OF ok] Let_def bindE_simps ok_wddmdev [OF ok] mn m(1)
      by (simp only: False op simp_thms if_False if_True option.case cb bindE_simps banks_filled(1) append_Cons append_Nil)
  qed
qed

text \<open>
  C32. Reading a snapshot stays inside its tables. After a successful snapshot the functions that return the properties, memory banks, caches and links of a node
  end without a fault for every node of the system and every size of the client's buffer: they return as many caches and links
  as the client asks for or refuse the request, and fill every bank of the client. For a node that does not exist three of them report it; the one for the memory banks reads outside
  the table.
\<close>

theorem topology_queries_safe:
  assumes "topology_take_snapshot te ts = Inr (HSAKMT_STATUS_SUCCESS, ts')" and "Suc (length (te_adapters te)) < 2 ^ 32" and "dxg_open (ts_mem ts)"
  shows "if unat node \<le> length (te_adapters te)
    then (\<exists>p. hsaKmtGetNodeProperties abi node (Some out) ts' = Inr (HSAKMT_STATUS_SUCCESS, Some p)) \<and>
      (\<exists>ms. hsaKmtGetNodeMemoryProperties node k True ts' = Inr (HSAKMT_STATUS_SUCCESS, ms) \<and> length ms = unat k) \<and>
      hsaKmtGetNodeCacheProperties node k True ts' = Inr (let np = g_props ts' ! unat node in
        if NumCaches (np_node np) < k then (HSAKMT_STATUS_INVALID_PARAMETER, []) else (HSAKMT_STATUS_SUCCESS, take (unat k) (np_cache np))) \<and>
      hsaKmtGetNodeIoLinkProperties node k True ts' = Inr (let np = g_props ts' ! unat node in
        if NumIOLinks (np_node np) < k then (HSAKMT_STATUS_INVALID_PARAMETER, []) else (HSAKMT_STATUS_SUCCESS, take (unat k) (np_link np)))
    else hsaKmtGetNodeProperties abi node (Some out) ts' = Inr (HSAKMT_STATUS_INVALID_NODE_UNIT, Some out) \<and>
      hsaKmtGetNodeCacheProperties node k True ts' = Inr (HSAKMT_STATUS_INVALID_NODE_UNIT, []) \<and>
      hsaKmtGetNodeIoLinkProperties node k True ts' = Inr (HSAKMT_STATUS_INVALID_NODE_UNIT, []) \<and>
      hsaKmtGetNodeMemoryProperties node k True ts' = Inl (Out_Of_Bounds ''hsaKmtGetNodeMemoryProperties'')"
proof -
  let ?n = "length (te_adapters te)"
  have ok: "topology_ok ?n ts'" and op: "dxg_open (ts_mem ts')" using take_snapshot_ok [OF assms(1,2)] assms(3) by simp_all
  show ?thesis
  proof (cases "unat node \<le> ?n")
    case True
    let ?np = "g_props ts' ! unat node"
    note node = ok_node [OF ok True]
    have n: "0 < ?n" using ok by (simp add: topology_ok_def nodes_ok_def)
    have "\<exists>p. hsaKmtGetNodeProperties abi node (Some out) ts' = Inr (HSAKMT_STATUS_SUCCESS, Some p)"
      using op node(1,3,4) by (simp add: hsaKmtGetNodeProperties_def validate_nodeid_def topology_get_node_props_def)
    moreover have "\<exists>ms. hsaKmtGetNodeMemoryProperties node k True ts' = Inr (HSAKMT_STATUS_SUCCESS, ms) \<and> length ms = unat k"
      unfolding memory_query [OF ok True op] by auto
    moreover have "hsaKmtGetNodeCacheProperties node k True ts' = Inr (let np = ?np in
        if NumCaches (np_node np) < k then (HSAKMT_STATUS_INVALID_PARAMETER, []) else (HSAKMT_STATUS_SUCCESS, take (unat k) (np_cache np)))"
    proof -
      have "unat (NumCaches (np_node ?np)) \<le> length (np_cache ?np)" using node(2) by (simp add: node_ok_def)
      then have le: "unat k \<le> length (np_cache ?np)" if "\<not> NumCaches (np_node ?np) < k" using that by (simp add: word_less_nat_alt)
      then have "\<not> (k \<noteq> 0 \<and> np_cache ?np = [])" if "\<not> NumCaches (np_node ?np) < k" using that by (auto simp: unat_eq_0)
      with le show ?thesis using op node(1,3) by (auto simp: hsaKmtGetNodeCacheProperties_def Let_def not_less [symmetric])
    qed
    moreover have "hsaKmtGetNodeIoLinkProperties node k True ts' = Inr (let np = ?np in
        if NumIOLinks (np_node np) < k then (HSAKMT_STATUS_INVALID_PARAMETER, []) else (HSAKMT_STATUS_SUCCESS, take (unat k) (np_link np)))"
    proof -
      have l: "length (np_link ?np) = ?n" "unat (NumIOLinks (np_node ?np)) \<le> 1" using node(2) by (auto simp: node_ok_def split: if_splits)
      then have "unat k \<le> length (np_link ?np)" if "\<not> NumIOLinks (np_node ?np) < k"
        using that n l unfolding word_less_nat_alt by linarith
      moreover have "np_link ?np \<noteq> []" using l(1) n by auto
      ultimately show ?thesis using op node(1,3,4)
        by (cases "NumIOLinks (np_node ?np) < k") (simp_all add: hsaKmtGetNodeIoLinkProperties_def topology_get_iolink_props_def Let_def)
    qed
    ultimately show ?thesis using True by simp
  next
    case False
    then have bad: "?n < unat node" by simp
    show ?thesis using False ok_invalid [OF ok bad] op
      by (simp add: hsaKmtGetNodeProperties_def validate_nodeid_def hsaKmtGetNodeCacheProperties_def hsaKmtGetNodeIoLinkProperties_def hsaKmtGetNodeMemoryProperties_def)
  qed
qed

theorem topology_queries_safe_witness:
  "\<exists>ts'. topology_take_snapshot topology_env_example topology_example = Inr (HSAKMT_STATUS_SUCCESS, ts') \<and>
     (\<exists>ms. hsaKmtGetNodeMemoryProperties 1 5 True ts' = Inr (HSAKMT_STATUS_SUCCESS, ms) \<and> length ms = 5) \<and>
     hsaKmtGetNodeMemoryProperties 2 5 True ts' = Inl (Out_Of_Bounds ''hsaKmtGetNodeMemoryProperties'')"
proof -
  from snapshot_example obtain ts' where r: "topology_take_snapshot topology_env_example topology_example = Inr (HSAKMT_STATUS_SUCCESS, ts')" by blast
  have a: "length (te_adapters topology_env_example) = 1" by (simp add: topology_env_example_def)
  then have s: "Suc (length (te_adapters topology_env_example)) < 2 ^ 32" by simp
  note q = topology_queries_safe [OF r s topology_example_open, where abi = 0 and out = zero_node and k = 5]
  from q [of 1] q [of 2] show ?thesis using r a by auto
qed

text \<open>
  C39. The fourth memory bank of a GPU does not exist. The properties of a GPU node report four memory banks to a client that gives no version or one whose structure reaches the GPU id: the one of the table and three
  more for local, scratch and shared virtual memory. Asked for four banks, the interface returns the bank of the table, the local and the scratch memory, and then an entry of
  zeros, which reads as a bank of system memory of size 0.
\<close>

theorem gpu_banks_overcounted:
  assumes "topology_take_snapshot te ts = Inr (HSAKMT_STATUS_SUCCESS, ts')" and "Suc (length (te_adapters te)) < 2 ^ 32" and "dxg_open (ts_mem ts)"
    and "0 < unat node" "unat node \<le> length (te_adapters te)" and "gi_device_id (snd (te_adapters te ! (unat node - 1))) \<noteq> 0"
    and "abi = 0 \<or> 368 \<le> abi"
  shows "(\<exists>p. hsaKmtGetNodeProperties abi node (Some out) ts' = Inr (HSAKMT_STATUS_SUCCESS, Some p) \<and> NumMemoryBanks p = 4) \<and>
    (\<exists>m l s. hsaKmtGetNodeMemoryProperties node 4 True ts' = Inr (HSAKMT_STATUS_SUCCESS, [m, l, s, zero_mem]) \<and>
      HeapType m = HSA_HEAPTYPE_FRAME_BUFFER_PRIVATE \<and> HeapType l = HSA_HEAPTYPE_GPU_LDS \<and> HeapType s = HSA_HEAPTYPE_GPU_SCRATCH \<and>
      HeapType zero_mem = HSA_HEAPTYPE_SYSTEM \<and> SizeInBytes zero_mem = 0)"
proof -
  let ?n = "length (te_adapters te)" and ?np = "g_props ts' ! unat node"
  have ok: "topology_ok ?n ts'" "ts_info ts' = map snd (te_adapters te)" and op: "dxg_open (ts_mem ts')"
    using take_snapshot_ok [OF assms(1,2)] assms(3) by simp_all
  note node = ok_node [OF ok(1) assms(5)]
  from node(2) assms(4,5) ok(2) have np: "NumMemoryBanks (np_node ?np) = 1" "KFDGpuID (np_node ?np) = gi_device_id (snd (te_adapters te ! (unat node - 1)))"
    "Integrated (np_node ?np) = 0" "length (np_mem ?np) = 1" "HeapType (np_mem ?np ! 0) = HSA_HEAPTYPE_FRAME_BUFFER_PRIVATE"
    by (simp_all add: node_ok_def)
  have "\<exists>p. hsaKmtGetNodeProperties abi node (Some out) ts' = Inr (HSAKMT_STATUS_SUCCESS, Some p) \<and> NumMemoryBanks p = 4"
    using op assms(6,7) node(1,3,4) np(1-3)
    by (auto simp: hsaKmtGetNodeProperties_def validate_nodeid_def topology_get_node_props_def copy_node_def Let_def NUM_OF_DGPU_HEAPS_def)
  moreover obtain m where m: "np_mem ?np = [m]" using np(4) by (auto simp: length_Suc_conv)
  have nz: "node \<noteq> 0" using assms(4) by auto
  have "\<exists>l s. hsaKmtGetNodeMemoryProperties node 4 True ts' = Inr (HSAKMT_STATUS_SUCCESS, [m, l, s, zero_mem]) \<and>
      HeapType l = HSA_HEAPTYPE_GPU_LDS \<and> HeapType s = HSA_HEAPTYPE_GPU_SCRATCH"
  proof -
    have "unat (4 :: u32) = Suc (Suc (Suc (Suc 0)))" by simp
    then show ?thesis unfolding memory_query [OF ok(1) assms(5) op] using nz m by simp
  qed
  moreover have "HeapType zero_mem = HSA_HEAPTYPE_SYSTEM" "SizeInBytes zero_mem = 0" by (simp_all add: zero_mem_def)
  ultimately show ?thesis using np(5) m by auto
qed

theorem gpu_banks_overcounted_witness:
  "\<exists>ts' p m l s. topology_take_snapshot topology_env_example topology_example = Inr (HSAKMT_STATUS_SUCCESS, ts') \<and>
     hsaKmtGetNodeProperties 0 1 (Some zero_node) ts' = Inr (HSAKMT_STATUS_SUCCESS, Some p) \<and> NumMemoryBanks p = 4 \<and>
     hsaKmtGetNodeMemoryProperties 1 4 True ts' = Inr (HSAKMT_STATUS_SUCCESS, [m, l, s, zero_mem])"
proof -
  from snapshot_example obtain ts' where r: "topology_take_snapshot topology_env_example topology_example = Inr (HSAKMT_STATUS_SUCCESS, ts')" by blast
  have a: "te_adapters topology_env_example = [(device_example, gpu_example)]" "gi_device_id gpu_example = 0x744c"
    by (simp_all add: topology_env_example_def gpu_example_def)
  have "0 < unat (1 :: u32)" "unat (1 :: u32) \<le> length (te_adapters topology_env_example)"
    "gi_device_id (snd (te_adapters topology_env_example ! (unat (1 :: u32) - 1))) \<noteq> 0" "Suc (length (te_adapters topology_env_example)) < 2 ^ 32" by (simp_all add: a)
  from gpu_banks_overcounted [OF r this(4) topology_example_open this(1-3), of 0 zero_node] r show ?thesis by blast
qed

end
