(* ===== verification/Open_Close.thy ===== *)
theory Open_Close
  imports Topology_Safety
begin

text \<open>
  Opening and closing the channel to the kernel, and what a fork does to it, from \<^verbatim>\<open>src/src/openclose.cpp\<close>, with the loader of
  \<^verbatim>\<open>src/shared/src/dxcore_loader.cpp\<close> as far as it keeps state. The mutex of the runtime is not part of the
  model: the functions are single steps. They hold it from start to end, except after a fork, where \<^verbatim>\<open>clear_after_fork\<close> deletes the runtime whose mutex
  \<^verbatim>\<open>hsaKmtOpenKFD\<close> has locked and the function goes on without a lock and unlocks the mutex of the new runtime.
\<close>

section \<open>State and environment\<close>

text \<open>
  The descriptors of \<^verbatim>\<open>/dev/dxg\<close> that are open in the process and the references it holds to \<^verbatim>\<open>libdxcore.so\<close> are part of the state, so that leaks
  and stale descriptors can be seen. \<open>ch_lib\<close> says whether the loader has a handle.
\<close>

record channel =
  ch_ts :: topology_state
  ch_pid :: int
  ch_fds :: "int list"
  ch_lib :: bool
  ch_refs :: nat
  atfork_installed :: bool

text \<open>What the system answers during one call.\<close>

record channel_env =
  ce_getenv :: "string \<Rightarrow> string option"
  ce_open :: int
  ce_dlopen :: bool
  ce_dlsym :: bool
  ce_page_size :: u64

abbreviation ch_mem :: "channel \<Rightarrow> mem_state" where
  "ch_mem ch \<equiv> ts_mem (ch_ts ch)"

abbreviation ch_rt :: "channel \<Rightarrow> runtime" where
  "ch_rt ch \<equiv> ms_rt (ts_mem (ch_ts ch))"

definition set_mem :: "(mem_state \<Rightarrow> mem_state) \<Rightarrow> channel \<Rightarrow> channel" where
  "set_mem f ch = ch\<lparr>ch_ts := (ch_ts ch)\<lparr>ts_mem := f (ts_mem (ch_ts ch))\<rparr>\<rparr>"

definition set_rt :: "(runtime \<Rightarrow> runtime) \<Rightarrow> channel \<Rightarrow> channel" where
  "set_rt f = set_mem (\<lambda>st. st\<lparr>ms_rt := f (ms_rt st)\<rparr>)"

definition close_fd :: "int \<Rightarrow> channel \<Rightarrow> channel" where
  "close_fd fd ch = ch\<lparr>ch_fds := remove1 fd (ch_fds ch)\<rparr>"

lemma set_mem_simps [simp]:
  "ch_ts (set_mem f ch) = (ch_ts ch)\<lparr>ts_mem := f (ch_mem ch)\<rparr>" "ch_pid (set_mem f ch) = ch_pid ch" "ch_fds (set_mem f ch) = ch_fds ch"
  "ch_lib (set_mem f ch) = ch_lib ch" "ch_refs (set_mem f ch) = ch_refs ch" "atfork_installed (set_mem f ch) = atfork_installed ch"
  by (simp_all add: set_mem_def)

lemma set_rt_simps [simp]:
  "ch_ts (set_rt g ch) = (ch_ts ch)\<lparr>ts_mem := (ch_mem ch)\<lparr>ms_rt := g (ch_rt ch)\<rparr>\<rparr>" "ch_pid (set_rt g ch) = ch_pid ch" "ch_fds (set_rt g ch) = ch_fds ch"
  "ch_lib (set_rt g ch) = ch_lib ch" "ch_refs (set_rt g ch) = ch_refs ch" "atfork_installed (set_rt g ch) = atfork_installed ch"
  by (simp_all add: set_rt_def)

lemma close_fd_simps [simp]:
  "ch_ts (close_fd fd ch) = ch_ts ch" "ch_pid (close_fd fd ch) = ch_pid ch" "ch_fds (close_fd fd ch) = remove1 fd (ch_fds ch)"
  "ch_lib (close_fd fd ch) = ch_lib ch" "ch_refs (close_fd fd ch) = ch_refs ch" "atfork_installed (close_fd fd ch) = atfork_installed ch"
  by (simp_all add: close_fd_def)

section \<open>The loader\<close>

definition DxcoreLoader_Initialize :: "channel_env \<Rightarrow> channel \<Rightarrow> bool \<times> channel" where
  "DxcoreLoader_Initialize e ch =
     (if \<not> ce_dlopen e then (False, ch\<lparr>ch_lib := False\<rparr>)
      else if \<not> ce_dlsym e then (False, ch\<lparr>ch_lib := False\<rparr>)
      else (True, ch\<lparr>ch_lib := True, ch_refs := Suc (ch_refs ch)\<rparr>))"

definition DxcoreLoader_Shutdown :: "channel \<Rightarrow> channel" where
  "DxcoreLoader_Shutdown ch = (if ch_lib ch then ch\<lparr>ch_lib := False, ch_refs := ch_refs ch - 1\<rparr> else ch)"

section \<open>Forks\<close>

definition is_forked_child :: "channel \<Rightarrow> bool \<times> channel" where
  "is_forked_child ch =
     (if rt_is_forked (ch_rt ch) then (True, ch)
      else if rt_parent_pid (ch_rt ch) \<noteq> ch_pid ch
      then (True, set_rt (\<lambda>rt. rt\<lparr>rt_is_forked := True, rt_parent_pid := ch_pid ch\<rparr>) ch)
      else (False, ch))"

definition child_fork_handler :: "channel \<Rightarrow> channel" where
  "child_fork_handler = set_rt (\<lambda>rt. rt\<lparr>rt_is_forked := True\<rparr>)"

definition clear_after_fork :: "channel \<Rightarrow> channel" where
  "clear_after_fork ch =
     (let ch = set_mem (\<lambda>st. clear_allocation_map (reset_suballocator st)) ch;
          ch = (if rt_dxg_fd (ch_rt ch) \<ge> 0 then set_rt (\<lambda>rt. rt\<lparr>rt_dxg_fd := -1\<rparr>) (close_fd (rt_dxg_fd (ch_rt ch)) ch) else ch)
      in set_rt (\<lambda>_. new_hsakmtRuntime (ch_pid ch)) ch)"

text \<open>The child of a fork through the C library runs the handler if it is installed, one of a plain \<^verbatim>\<open>clone\<close> does not.\<close>

definition fork_child :: "int \<Rightarrow> channel \<Rightarrow> channel" where
  "fork_child pid ch = (let ch = ch\<lparr>ch_pid := pid\<rparr> in if atfork_installed ch then child_fork_handler ch else ch)"

definition clone_child :: "int \<Rightarrow> channel \<Rightarrow> channel" where
  "clone_child pid ch = ch\<lparr>ch_pid := pid\<rparr>"

section \<open>Settings\<close>

definition ffs :: "u32 \<Rightarrow> int" where
  "ffs w = (case find (bit w) [0..<32] of None \<Rightarrow> 0 | Some i \<Rightarrow> int i + 1)"

definition init_page_size :: "channel_env \<Rightarrow> channel \<Rightarrow> channel" where
  "init_page_size e = set_rt (\<lambda>rt. rt\<lparr>rt_page_size := ce_page_size e, rt_page_shift := ffs (ucast (ce_page_size e)) - 1\<rparr>)"

definition env_int :: "channel_env \<Rightarrow> string \<Rightarrow> int \<Rightarrow> int" where
  "env_int e name old = (case ce_getenv e name of None \<Rightarrow> old | Some s \<Rightarrow> atoi s)"

definition visible_node :: "string \<Rightarrow> u32 \<Rightarrow> u32 res" where
  "visible_node devices old =
     (case dropWhile (\<lambda>c. \<not> is_digit 10 c) devices of
        [] \<Rightarrow> Inr old
      | s \<Rightarrow> bindE (stoi s) (\<lambda>i. if i + 1 < 2 ^ 31 then Inr (word_of_int (i + 1)) else Inl (Out_Of_Bounds ''init_vars_from_env'')))"

definition init_vars_from_env :: "channel_env \<Rightarrow> channel \<Rightarrow> (HSAKMT_STATUS \<times> channel) res" where
  "init_vars_from_env e ch =
     (let ch = set_rt (\<lambda>rt. rt\<lparr>rt_debug_level := env_int e ''HSAKMT_DEBUG_LEVEL'' (rt_debug_level rt),
            rt_zfb_support := env_int e ''HSA_ZFB'' (rt_zfb_support rt),
            rt_vendor_packet := env_int e ''WSLKMT_VENDOR_PACKET'' (rt_vendor_packet rt),
            rt_check_avail_sysram := (case ce_getenv e ''WSL_CHECK_AVAIL_SYSRAM'' of None \<Rightarrow> rt_check_avail_sysram rt | Some s \<Rightarrow> s = ''1''),
            rt_sub_allocator := env_int e ''WSL_ENABLE_THUNK_SUB_ALLOCATOR'' (rt_sub_allocator rt)\<rparr>) ch in
      case ce_getenv e ''ROCR_VISIBLE_DEVICES'' of
        None \<Rightarrow> Inr (HSAKMT_STATUS_SUCCESS, ch)
      | Some s \<Rightarrow> bindE (visible_node s (rt_default_node (ch_rt ch))) (\<lambda>n.
          Inr (HSAKMT_STATUS_SUCCESS, set_rt (\<lambda>rt. rt\<lparr>rt_default_node := n\<rparr>) ch)))"

section \<open>Open and close\<close>

text \<open>The descriptor that the call has opened itself is \<open>fd\<close>; it is \<open>-1\<close> if the runtime had one.\<close>

definition open_device :: "channel_env \<Rightarrow> channel \<Rightarrow> (int \<times> channel) option" where
  "open_device e ch =
     (if rt_dxg_fd (ch_rt ch) < 0 then
        if ce_open e = -1 then None
        else Some (ce_open e, set_rt (\<lambda>rt. rt\<lparr>rt_dxg_fd := ce_open e\<rparr>) (ch\<lparr>ch_fds := ce_open e # ch_fds ch\<rparr>))
      else Some (-1, ch))"

definition first_open :: "channel_env \<Rightarrow> channel \<Rightarrow> (HSAKMT_STATUS \<times> bool \<times> channel) res" where
  "first_open e ch =
     bindE (init_vars_from_env e ch) (\<lambda>(result, ch).
     if result \<noteq> HSAKMT_STATUS_SUCCESS then Inr (result, False, ch)
     else case open_device e ch of
       None \<Rightarrow> Inr (HSAKMT_STATUS_KERNEL_IO_CHANNEL_NOT_OPENED, False, ch)
     | Some (fd, ch) \<Rightarrow>
         (case DxcoreLoader_Initialize e ch of (loaded, ch) \<Rightarrow>
          if \<not> loaded then Inr (HSAKMT_STATUS_ERROR, False, close_fd fd ch)
          else Inr (result, True, set_rt (\<lambda>rt. rt\<lparr>rt_svm_supported := False, rt_open_count := 1\<rparr>) (init_page_size e ch)\<lparr>atfork_installed := True\<rparr>)))"

definition hsaKmtOpenKFD :: "channel_env \<Rightarrow> channel \<Rightarrow> (HSAKMT_STATUS \<times> channel) res" where
  "hsaKmtOpenKFD e ch =
     (let ch = (case is_forked_child ch of (forked, ch) \<Rightarrow> if forked then clear_after_fork ch else ch) in
      if rt_open_count (ch_rt ch) = 0 then
        bindE (first_open e ch) (\<lambda>(result, ok, ch). Inr (result, if ok then set_mem reset_suballocator ch else ch))
      else Inr (HSAKMT_STATUS_KERNEL_ALREADY_OPENED,
             set_mem reset_suballocator (set_rt (\<lambda>rt. rt\<lparr>rt_open_count := rt_open_count rt + 1\<rparr>) ch)))"

definition hsaKmtCloseKFD :: "channel \<Rightarrow> HSAKMT_STATUS \<times> channel" where
  "hsaKmtCloseKFD ch =
     (if rt_open_count (ch_rt ch) > 0 then
        let ch = set_rt (\<lambda>rt. rt\<lparr>rt_open_count := rt_open_count rt - 1\<rparr>) ch in
        (HSAKMT_STATUS_SUCCESS,
         if rt_open_count (ch_rt ch) = 0
         then DxcoreLoader_Shutdown (set_rt (\<lambda>rt. rt\<lparr>rt_dxg_fd := -1\<rparr>) (close_fd (rt_dxg_fd (ch_rt ch)) ch)) else ch)
      else (HSAKMT_STATUS_KERNEL_IO_CHANNEL_NOT_OPENED, ch))"


section \<open>The channel is a counter\<close>

datatype channel_call = Open_Call channel_env | Close_Call

fun channel_run :: "channel_call list \<Rightarrow> channel \<Rightarrow> (HSAKMT_STATUS list \<times> channel) res" where
  "channel_run [] ch = Inr ([], ch)"
| "channel_run (c # cs) ch =
     bindE (case c of Open_Call e \<Rightarrow> hsaKmtOpenKFD e ch | Close_Call \<Rightarrow> Inr (hsaKmtCloseKFD ch)) (\<lambda>(r, ch).
     bindE (channel_run cs ch) (\<lambda>(rs, ch). Inr (r # rs, ch)))"

text \<open>What a client may rely on: a counter of the opens that have not been closed.\<close>

fun counter_step :: "channel_call \<Rightarrow> nat \<Rightarrow> HSAKMT_STATUS \<times> nat" where
  "counter_step (Open_Call e) 0 = (if ce_open e = -1 then (HSAKMT_STATUS_KERNEL_IO_CHANNEL_NOT_OPENED, 0) else (HSAKMT_STATUS_SUCCESS, 1))"
| "counter_step (Open_Call e) (Suc n) = (HSAKMT_STATUS_KERNEL_ALREADY_OPENED, Suc (Suc n))"
| "counter_step Close_Call 0 = (HSAKMT_STATUS_KERNEL_IO_CHANNEL_NOT_OPENED, 0)"
| "counter_step Close_Call (Suc n) = (HSAKMT_STATUS_SUCCESS, n)"

fun counter_run :: "channel_call list \<Rightarrow> nat \<Rightarrow> HSAKMT_STATUS list \<times> nat" where
  "counter_run [] n = ([], n)"
| "counter_run (c # cs) n = (case counter_step c n of (r, n) \<Rightarrow> case counter_run cs n of (rs, n) \<Rightarrow> (r # rs, n))"

text \<open>The list of devices can be read; the library can be loaded.\<close>

definition vars_ok :: "channel_env \<Rightarrow> bool" where
  "vars_ok e \<longleftrightarrow> (case ce_getenv e ''ROCR_VISIBLE_DEVICES'' of None \<Rightarrow> True | Some s \<Rightarrow> (\<forall>old. \<exists>n. visible_node s old = Inr n))"

definition env_ok :: "channel_env \<Rightarrow> bool" where
  "env_ok e \<longleftrightarrow> -1 \<le> ce_open e \<and> ce_dlopen e \<and> ce_dlsym e \<and> vars_ok e"

definition call_ok :: "channel_call \<Rightarrow> bool" where
  "call_ok c \<longleftrightarrow> (case c of Open_Call e \<Rightarrow> env_ok e | Close_Call \<Rightarrow> True)"

text \<open>The channel of a process with \<open>n\<close> opens: exactly one descriptor and one reference to the library while it is open, none when it is closed.\<close>

definition channel_inv :: "nat \<Rightarrow> channel \<Rightarrow> bool" where
  "channel_inv n ch \<longleftrightarrow> \<not> rt_is_forked (ch_rt ch) \<and> rt_parent_pid (ch_rt ch) = ch_pid ch \<and> n < 2 ^ 64 \<and> rt_open_count (ch_rt ch) = of_nat n \<and>
     (if n = 0 then rt_dxg_fd (ch_rt ch) = -1 \<and> ch_fds ch = [] \<and> \<not> ch_lib ch \<and> ch_refs ch = 0
      else 0 \<le> rt_dxg_fd (ch_rt ch) \<and> ch_fds ch = [rt_dxg_fd (ch_rt ch)] \<and> ch_lib ch \<and> ch_refs ch = 1 \<and> atfork_installed ch)"

definition new_channel :: "int \<Rightarrow> channel" where
  "new_channel pid = \<lparr>ch_ts = \<lparr>ts_mem = \<lparr>ms_rt = new_hsakmtRuntime pid, ms_devs = [], ms_num_nodes = 0, ms_tr = [], ms_objs = Map.empty, ms_next = 0,
       allocation_map = [], fragment_allocator = SimpleHeap\<rparr>, ts_info = [], g_system = None, g_props = [], processor_vendor = -1\<rparr>,
     ch_pid = pid, ch_fds = [], ch_lib = False, ch_refs = 0, atfork_installed = False\<rparr>"

lemma channel_inv_new: "channel_inv 0 (new_channel pid)"
  by (simp add: channel_inv_def new_channel_def new_hsakmtRuntime_def)

lemma reset_suballocator_rt [simp]: "ms_rt (reset_suballocator st) = ms_rt st"
  by (simp add: reset_suballocator_def)

text \<open>The settings change nothing else.\<close>

lemma init_vars_runs:
  assumes "vars_ok e"
  shows "\<exists>ch'. init_vars_from_env e ch = Inr (HSAKMT_STATUS_SUCCESS, ch') \<and> ch_pid ch' = ch_pid ch \<and> ch_fds ch' = ch_fds ch \<and> ch_lib ch' = ch_lib ch \<and>
    ch_refs ch' = ch_refs ch \<and> atfork_installed ch' = atfork_installed ch \<and> rt_is_forked (ch_rt ch') = rt_is_forked (ch_rt ch) \<and>
    rt_parent_pid (ch_rt ch') = rt_parent_pid (ch_rt ch) \<and> rt_dxg_fd (ch_rt ch') = rt_dxg_fd (ch_rt ch) \<and> rt_open_count (ch_rt ch') = rt_open_count (ch_rt ch) \<and>
    rt_local_mgr (ch_rt ch') = rt_local_mgr (ch_rt ch) \<and> rt_system_mgr (ch_rt ch') = rt_system_mgr (ch_rt ch) \<and>
    allocation_map (ch_mem ch') = allocation_map (ch_mem ch) \<and> g_system (ch_ts ch') = g_system (ch_ts ch) \<and> g_props (ch_ts ch') = g_props (ch_ts ch)"
proof (cases "ce_getenv e ''ROCR_VISIBLE_DEVICES''")
  case None
  then show ?thesis by (simp add: init_vars_from_env_def)
next
  case (Some s)
  with assms obtain n where "visible_node s (rt_default_node (ch_rt ch)) = Inr n" by (auto simp: vars_ok_def)
  with Some show ?thesis by (simp add: init_vars_from_env_def)
qed

lemma channel_open_first:
  assumes "channel_inv 0 ch" "env_ok e"
  shows "\<exists>ch'. hsaKmtOpenKFD e ch = Inr (fst (counter_step (Open_Call e) 0), ch') \<and> channel_inv (snd (counter_step (Open_Call e) 0)) ch'"
proof -
  have "vars_ok e" using assms(2) by (simp add: env_ok_def)
  from init_vars_runs [OF this, of ch] obtain ch1 where v: "init_vars_from_env e ch = Inr (HSAKMT_STATUS_SUCCESS, ch1)" "channel_inv 0 ch1"
    using assms(1) by (auto simp: channel_inv_def)
  show ?thesis
    using assms v by (cases "ce_open e = -1")
      (auto simp: hsaKmtOpenKFD_def is_forked_child_def channel_inv_def first_open_def open_device_def DxcoreLoader_Initialize_def env_ok_def init_page_size_def)
qed

lemma channel_step:
  assumes "channel_inv n ch" "call_ok c" "Suc n < 2 ^ 64"
  shows "\<exists>ch'. (case c of Open_Call e \<Rightarrow> hsaKmtOpenKFD e ch | Close_Call \<Rightarrow> Inr (hsaKmtCloseKFD ch)) = Inr (fst (counter_step c n), ch') \<and>
    channel_inv (snd (counter_step c n)) ch'"
proof (cases n)
  case 0
  with assms channel_open_first show ?thesis
    by (cases c) (auto simp: call_ok_def hsaKmtCloseKFD_def channel_inv_def)
next
  case (Suc m)
  have "unat (of_nat (Suc m) :: u64) = Suc m" using assms(3) Suc by (simp add: unat_of_nat take_bit_nat_eq_self del: of_nat_Suc)
  then have nz: "(of_nat (Suc m) :: u64) \<noteq> 0" "(of_nat m :: u64) = 0 \<longleftrightarrow> m = 0"
    using assms(3) Suc by (auto simp: word_unat_eq_iff unat_of_nat take_bit_nat_eq_self simp del: of_nat_Suc)
  with assms Suc show ?thesis
    by (cases c) (auto simp: call_ok_def hsaKmtOpenKFD_def hsaKmtCloseKFD_def is_forked_child_def channel_inv_def DxcoreLoader_Shutdown_def Let_def word_neq_0_conv)
qed

lemma counter_bound: "snd (counter_step c n) \<le> Suc n"
  by (cases c; cases n) auto

lemma channel_run_refines:
  assumes "channel_inv n ch" "list_all call_ok cs" "n + length cs < 2 ^ 64"
  shows "\<exists>ch'. channel_run cs ch = Inr (fst (counter_run cs n), ch') \<and> channel_inv (snd (counter_run cs n)) ch'"
  using assms
proof (induction cs arbitrary: n ch)
  case (Cons c cs)
  from Cons.prems channel_step [of n ch c] obtain ch1 where
    s: "(case c of Open_Call e \<Rightarrow> hsaKmtOpenKFD e ch | Close_Call \<Rightarrow> Inr (hsaKmtCloseKFD ch)) = Inr (fst (counter_step c n), ch1)"
      "channel_inv (snd (counter_step c n)) ch1" by auto
  from Cons.IH [OF s(2)] Cons.prems counter_bound [of c n] obtain ch2 where
    "channel_run cs ch1 = Inr (fst (counter_run cs (snd (counter_step c n))), ch2)" "channel_inv (snd (counter_run cs (snd (counter_step c n)))) ch2"
    by auto
  with s(1) show ?case by (simp add: case_prod_beta)
qed simp


text \<open>
  C33. Opening and closing is counting. For any sequence of calls of \<^verbatim>\<open>hsaKmtOpenKFD\<close> and \<^verbatim>\<open>hsaKmtCloseKFD\<close> in a new process, during which the library can be
  loaded and the settings can be read, every call returns what a counter of the opens says: the first one succeeds if the device can be opened, further ones report that
  it is open, and a close without an open is refused. While the counter is positive the process holds exactly one descriptor of the device, the one of the runtime, and one
  reference to the library, and the other functions of the interface work; when it is 0, nothing is held.
\<close>

theorem open_close_counts:
  assumes "list_all call_ok cs" and "length cs < 2 ^ 64" and "counter_run cs 0 = (rs, n)"
  shows "\<exists>ch. channel_run cs (new_channel pid) = Inr (rs, ch) \<and> dxg_open (ch_mem ch) = (0 < n) \<and>
    (if n = 0 then ch_fds ch = [] \<and> ch_refs ch = 0 else ch_fds ch = [rt_dxg_fd (ch_rt ch)] \<and> ch_refs ch = 1)"
proof -
  from channel_run_refines [OF channel_inv_new assms(1), of pid] assms(2,3) obtain ch where
    ch: "channel_run cs (new_channel pid) = Inr (rs, ch)" "channel_inv n ch" by auto
  have "(of_nat n :: u64) = 0 \<longleftrightarrow> n = 0" using ch(2) by (simp add: channel_inv_def word_unat_eq_iff unat_of_nat take_bit_nat_eq_self)
  with ch show ?thesis by (auto simp: channel_inv_def dxg_open_def)
qed

definition env_example :: channel_env where
  "env_example = \<lparr>ce_getenv = (\<lambda>name. if name = ''ROCR_VISIBLE_DEVICES'' then Some ''0,1'' else None), ce_open = 5, ce_dlopen = True, ce_dlsym = True,
     ce_page_size = 4096\<rparr>"

lemma visible_example: "visible_node ''0,1'' old = Inr 1"
proof -
  have "dropWhile (\<lambda>c. \<not> is_digit 10 c) ''0,1'' = ''0,1''" "stoi ''0,1'' = Inr 0" by code_simp+
  then show ?thesis by (simp add: visible_node_def)
qed

lemma env_example_ok: "env_ok env_example"
  using visible_example by (simp add: env_ok_def vars_ok_def env_example_def)

theorem open_close_counts_witness:
  "\<exists>ch. channel_run [Open_Call env_example, Open_Call env_example, Close_Call, Close_Call, Close_Call] (new_channel 7) =
     Inr ([HSAKMT_STATUS_SUCCESS, HSAKMT_STATUS_KERNEL_ALREADY_OPENED, HSAKMT_STATUS_SUCCESS, HSAKMT_STATUS_SUCCESS, HSAKMT_STATUS_KERNEL_IO_CHANNEL_NOT_OPENED], ch) \<and>
     ch_fds ch = []"
proof -
  let ?cs = "[Open_Call env_example, Open_Call env_example, Close_Call, Close_Call, Close_Call]"
  have "list_all call_ok ?cs" using env_example_ok by (simp add: call_ok_def)
  moreover have "counter_run ?cs 0 = ([HSAKMT_STATUS_SUCCESS, HSAKMT_STATUS_KERNEL_ALREADY_OPENED, HSAKMT_STATUS_SUCCESS, HSAKMT_STATUS_SUCCESS, HSAKMT_STATUS_KERNEL_IO_CHANNEL_NOT_OPENED], 0)"
    by (simp add: env_example_def numeral_2_eq_2)
  ultimately show ?thesis using open_close_counts [of ?cs] by fastforce
qed

section \<open>Calls that leave the channel in a bad state\<close>

text \<open>
  When the library cannot be loaded, \<^verbatim>\<open>hsaKmtOpenKFD\<close> closes the descriptor it has opened but leaves its number in the runtime. The next call finds a
  number, opens nothing, and reports success: the channel counts as open although the process has no descriptor of the device.
\<close>

lemma stale_descriptor:
  assumes "channel_inv 0 ch" and "0 \<le> ce_open e" "\<not> ce_dlopen e" "vars_ok e" and "env_ok e2"
  shows "\<exists>ch1 ch2. hsaKmtOpenKFD e ch = Inr (HSAKMT_STATUS_ERROR, ch1) \<and> \<not> dxg_open (ch_mem ch1) \<and>
    hsaKmtOpenKFD e2 ch1 = Inr (HSAKMT_STATUS_SUCCESS, ch2) \<and> dxg_open (ch_mem ch2) \<and> ch_fds ch2 = []"
proof -
  from init_vars_runs [OF assms(4), of ch] obtain c where c: "init_vars_from_env e ch = Inr (HSAKMT_STATUS_SUCCESS, c)" "channel_inv 0 c"
    using assms(1) by (auto simp: channel_inv_def)
  let ?ch1 = "close_fd (ce_open e) (set_rt (\<lambda>rt. rt\<lparr>rt_dxg_fd := ce_open e\<rparr>) (c\<lparr>ch_fds := ce_open e # ch_fds c\<rparr>)\<lparr>ch_lib := False\<rparr>)"
  have o1: "hsaKmtOpenKFD e ch = Inr (HSAKMT_STATUS_ERROR, ?ch1)"
    using assms(1-3) c by (simp add: hsaKmtOpenKFD_def is_forked_child_def channel_inv_def first_open_def open_device_def DxcoreLoader_Initialize_def)
  have "vars_ok e2" using assms(5) by (simp add: env_ok_def)
  from init_vars_runs [OF this, of ?ch1] obtain c2 where c2: "init_vars_from_env e2 ?ch1 = Inr (HSAKMT_STATUS_SUCCESS, c2)"
    "rt_dxg_fd (ch_rt c2) = ce_open e" "ch_fds c2 = []" "\<not> rt_is_forked (ch_rt c2)"
    using c(2) by (auto simp: channel_inv_def)
  have "\<exists>ch2. hsaKmtOpenKFD e2 ?ch1 = Inr (HSAKMT_STATUS_SUCCESS, ch2) \<and> dxg_open (ch_mem ch2) \<and> ch_fds ch2 = []"
    using c(2) c2 assms(2,5)
    by (simp add: hsaKmtOpenKFD_def is_forked_child_def channel_inv_def first_open_def open_device_def DxcoreLoader_Initialize_def env_ok_def init_page_size_def dxg_open_def)
  moreover have "\<not> dxg_open (ch_mem ?ch1)" using c(2) by (simp add: dxg_open_def channel_inv_def)
  ultimately show ?thesis using o1 by blast
qed

text \<open>The state that a child of a fork has after it has opened the channel.\<close>

lemma open_in_child:
  assumes "env_ok e" "fst (is_forked_child ch)" "ch_fds ch = [rt_dxg_fd (ch_rt ch)]" "0 \<le> rt_dxg_fd (ch_rt ch)"
  shows "\<exists>ch'. hsaKmtOpenKFD e ch = Inr (if ce_open e = -1 then HSAKMT_STATUS_KERNEL_IO_CHANNEL_NOT_OPENED else HSAKMT_STATUS_SUCCESS, ch') \<and>
    ch_fds ch' = (if ce_open e = -1 then [] else [ce_open e]) \<and> rt_dxg_fd (ch_rt ch') = ce_open e \<and> dxg_open (ch_mem ch') = (ce_open e \<noteq> -1) \<and>
    allocation_map (ch_mem ch') = [] \<and> rt_local_mgr (ch_rt ch') = None \<and> rt_system_mgr (ch_rt ch') = None \<and>
    g_system (ch_ts ch') = g_system (ch_ts ch) \<and> g_props (ch_ts ch') = g_props (ch_ts ch)"
proof -
  define c where "c = clear_after_fork (snd (is_forked_child ch))"
  have c: "ch_fds c = []" "rt_dxg_fd (ch_rt c) = -1" "rt_open_count (ch_rt c) = 0" "allocation_map (ch_mem c) = []" "rt_local_mgr (ch_rt c) = None" "rt_system_mgr (ch_rt c) = None"
    "g_system (ch_ts c) = g_system (ch_ts ch)" "g_props (ch_ts c) = g_props (ch_ts ch)" "\<not> rt_is_forked (ch_rt c)"
    using assms(3,4) by (auto simp: c_def is_forked_child_def clear_after_fork_def Let_def new_hsakmtRuntime_def clear_allocation_map_def)
  have "vars_ok e" using assms(1) by (simp add: env_ok_def)
  from init_vars_runs [OF this, of c] obtain c2 where v: "init_vars_from_env e c = Inr (HSAKMT_STATUS_SUCCESS, c2)" and
    c2: "ch_fds c2 = []" "rt_dxg_fd (ch_rt c2) = -1" "rt_open_count (ch_rt c2) = 0" "allocation_map (ch_mem c2) = []" "rt_local_mgr (ch_rt c2) = None" "rt_system_mgr (ch_rt c2) = None"
    "g_system (ch_ts c2) = g_system (ch_ts ch)" "g_props (ch_ts c2) = g_props (ch_ts ch)" "\<not> rt_is_forked (ch_rt c2)"
    using c by auto
  have "hsaKmtOpenKFD e ch = bindE (first_open e c) (\<lambda>(result, ok, ch). Inr (result, if ok then set_mem reset_suballocator ch else ch))"
    using assms(2) c(3) by (simp add: hsaKmtOpenKFD_def case_prod_beta c_def [symmetric])
  then show ?thesis using v c2 assms(1)
    by (cases "ce_open e = -1") (simp_all add: first_open_def open_device_def DxcoreLoader_Initialize_def env_ok_def init_page_size_def dxg_open_def reset_suballocator_def)
qed

text \<open>
  C34. A child of a fork does not work on its parent's channel. After a fork through the C library the functions of the interface are refused in the child
  until it opens the channel. Opening it closes the inherited descriptor, forgets the allocations of the parent and opens the device anew, or reports that the device cannot be opened. The child of
  a plain \<^verbatim>\<open>clone\<close> gets the same when it opens the channel, but until then the functions of the interface use the inherited descriptor.
\<close>

theorem fork_protected:
  assumes "channel_inv n ch" "0 < n" "env_ok e" and "pid \<noteq> ch_pid ch"
  shows "\<not> dxg_open (ch_mem (fork_child pid ch)) \<and> dxg_open (ch_mem (clone_child pid ch)) \<and>
    (\<forall>child\<in>{fork_child pid ch, clone_child pid ch}.
      \<exists>ch'. hsaKmtOpenKFD e child = Inr (if ce_open e = -1 then HSAKMT_STATUS_KERNEL_IO_CHANNEL_NOT_OPENED else HSAKMT_STATUS_SUCCESS, ch') \<and>
        ch_fds ch' = (if ce_open e = -1 then [] else [ce_open e]) \<and> rt_dxg_fd (ch_rt ch') = ce_open e \<and>
        dxg_open (ch_mem ch') = (ce_open e \<noteq> -1) \<and> allocation_map (ch_mem ch') = [])"
proof -
  have "(of_nat n :: u64) \<noteq> 0" using assms(1,2) by (simp add: channel_inv_def word_unat_eq_iff unat_of_nat take_bit_nat_eq_self)
  then have o: "\<not> dxg_open (ch_mem (fork_child pid ch))" "dxg_open (ch_mem (clone_child pid ch))"
    using assms(1,2) by (simp_all add: channel_inv_def fork_child_def child_fork_handler_def clone_child_def dxg_open_def)
  have "\<exists>ch'. hsaKmtOpenKFD e child = Inr (if ce_open e = -1 then HSAKMT_STATUS_KERNEL_IO_CHANNEL_NOT_OPENED else HSAKMT_STATUS_SUCCESS, ch') \<and>
        ch_fds ch' = (if ce_open e = -1 then [] else [ce_open e]) \<and> rt_dxg_fd (ch_rt ch') = ce_open e \<and>
        dxg_open (ch_mem ch') = (ce_open e \<noteq> -1) \<and> allocation_map (ch_mem ch') = []"
    if "child \<in> {fork_child pid ch, clone_child pid ch}" for child
  proof -
    have "fst (is_forked_child child) \<and> ch_fds child = [rt_dxg_fd (ch_rt child)] \<and> 0 \<le> rt_dxg_fd (ch_rt child)"
      using that assms(1,2,4) by (auto simp: channel_inv_def fork_child_def child_fork_handler_def clone_child_def is_forked_child_def)
    with open_in_child [OF assms(3)] show ?thesis by blast
  qed
  with o show ?thesis by blast
qed

lemma open_example: "\<exists>ch. hsaKmtOpenKFD env_example (new_channel pid) = Inr (HSAKMT_STATUS_SUCCESS, ch) \<and> channel_inv 1 ch"
  using channel_open_first [OF channel_inv_new env_example_ok, of pid] by (simp add: env_example_def)

theorem fork_protected_witness:
  "\<exists>ch ch'. hsaKmtOpenKFD env_example (new_channel 7) = Inr (HSAKMT_STATUS_SUCCESS, ch) \<and> \<not> dxg_open (ch_mem (fork_child (ch_pid ch + 1) ch)) \<and>
     hsaKmtOpenKFD env_example (fork_child (ch_pid ch + 1) ch) = Inr (HSAKMT_STATUS_SUCCESS, ch') \<and> ch_fds ch' = [5]"
proof -
  from open_example [of 7] obtain ch where ch: "hsaKmtOpenKFD env_example (new_channel 7) = Inr (HSAKMT_STATUS_SUCCESS, ch)" "channel_inv 1 ch" by blast
  have fd: "ce_open env_example = 5" by (simp add: env_example_def)
  from fork_protected [OF ch(2) zero_less_one env_example_ok, of "ch_pid ch + 1"] have
    f: "\<not> dxg_open (ch_mem (fork_child (ch_pid ch + 1) ch))" "\<exists>ch'. hsaKmtOpenKFD env_example (fork_child (ch_pid ch + 1) ch) = Inr (HSAKMT_STATUS_SUCCESS, ch') \<and> ch_fds ch' = [5]"
    using fd by (simp, auto)
  with ch(1) show ?thesis by blast
qed

text \<open>The first number in the list of devices is read with \<^verbatim>\<open>std::stoi\<close>, and an exception is not caught: a list that names a device by its identifier ends the process.\<close>

lemma visible_uuid_exception: "visible_node ''GPU-1234567890123456'' old = Inl (Uncaught_Exception ''out_of_range'')"
proof -
  have "dropWhile (\<lambda>c. \<not> is_digit 10 c) ''GPU-1234567890123456'' = ''1234567890123456''" "stoi ''1234567890123456'' = Inl (Uncaught_Exception ''out_of_range'')"
    by (code_simp, simp add: stoi_def scan_number_def scan_sign_def scan_prefix_def isspace_def is_digit_def char_value_def digits_value_def strtol_value_def)
  then show ?thesis by (simp add: visible_node_def)
qed

end
