(* ===== verification/Misc_Api.thy ===== *)
theory Misc_Api
  imports Open_Close
begin

text \<open>
  The functions of the interface that keep no state of their own: versions (\<^verbatim>\<open>src/src/version.cpp\<close>), clocks (\<^verbatim>\<open>src/src/time.cpp\<close>), events
  (\<^verbatim>\<open>src/src/events.cpp\<close>) and the run-time debugging calls (\<^verbatim>\<open>src/src/debug.cpp\<close>).
\<close>

section \<open>Versions\<close>

record HsaStructureSizes =
  StructureSizes :: "16 word"
  SizeOfHsaNodeProperties :: "16 word"
  SizeOfHsaExternalHandleDesc :: "16 word"

definition sizeof_HsaStructureSizes :: "16 word" where "sizeof_HsaStructureSizes = 16"

text \<open>The second result is the new value of \<^verbatim>\<open>detected_abi_\<close>.\<close>

definition DxgAbiCheck :: "HsaStructureSizes option \<Rightarrow> HsaStructureSizes \<Rightarrow> HSAKMT_STATUS \<times> HsaStructureSizes" where
  "DxgAbiCheck actual detected_abi =
     (case actual of
        None \<Rightarrow> (HSAKMT_STATUS_INVALID_PARAMETER, detected_abi)
      | Some a \<Rightarrow> if StructureSizes a \<noteq> sizeof_HsaStructureSizes then (HSAKMT_STATUS_INVALID_PARAMETER, detected_abi) else (HSAKMT_STATUS_SUCCESS, a))"

definition hsaKmtGetVersion :: "bool \<Rightarrow> mem_state \<Rightarrow> (HSAKMT_STATUS \<times> (u32 \<times> u32) option) res" where
  "hsaKmtGetVersion has_out st =
     (if \<not> dxg_open st then Inr (HSAKMT_STATUS_KERNEL_IO_CHANNEL_NOT_OPENED, None)
      else if \<not> has_out then Inl (Null_Deref ''hsaKmtGetVersion'') else Inr (HSAKMT_STATUS_SUCCESS, Some (1, 17)))"

section \<open>Clocks\<close>

record HsaClockCounters =
  GPUClockCounter :: u64
  CPUClockCounter :: u64
  SystemClockCounter :: u64
  SystemClockFrequencyHz :: u64

text \<open>\<open>now\<close> is the monotonic clock in nanoseconds, if it can be read.\<close>

definition hsaKmtGetClockCounters :: "dx_env \<Rightarrow> u64 option \<Rightarrow> u32 \<Rightarrow> bool \<Rightarrow> mem_state \<Rightarrow> (HSAKMT_STATUS \<times> HsaClockCounters option \<times> mem_state) res" where
  "hsaKmtGetClockCounters env now node has_out st =
     (if \<not> dxg_open st then Inr (HSAKMT_STATUS_KERNEL_IO_CHANNEL_NOT_OPENED, None, st)
      else if \<not> has_out then Inl (Null_Deref ''hsaKmtGetClockCounters'')
      else bindE (get_wddmdev st node) (\<lambda>dev.
        bindE (assertE ''hsaKmtGetClockCounters'' (dev \<noteq> None)) (\<lambda>_.
        case GetClockCounters env (0, 0) (ms_tr st) of ((gpu, cpu), tr) \<Rightarrow>
          Inr (HSAKMT_STATUS_SUCCESS, Some \<lparr>GPUClockCounter = gpu, CPUClockCounter = cpu, SystemClockCounter = (case now of None \<Rightarrow> 0 | Some t \<Rightarrow> t),
                 SystemClockFrequencyHz = 1000000000\<rparr>, st\<lparr>ms_tr := tr\<rparr>))))"

section \<open>Events\<close>

text \<open>Events do not exist: a function that would need one stops at an assertion. An event is the address of an object, \<open>None\<close> for a null pointer.\<close>

definition hsaKmtCreateEvent :: "mem_state \<Rightarrow> HSAKMT_STATUS res" where
  "hsaKmtCreateEvent st = (if \<not> dxg_open st then Inr HSAKMT_STATUS_KERNEL_IO_CHANNEL_NOT_OPENED else Inl (Assert_Failed ''hsaKmtCreateEvent''))"

definition hsaKmtDestroyEvent :: "u64 option \<Rightarrow> mem_state \<Rightarrow> HSAKMT_STATUS res" where
  "hsaKmtDestroyEvent ev st =
     (if \<not> dxg_open st then Inr HSAKMT_STATUS_KERNEL_IO_CHANNEL_NOT_OPENED
      else if ev = None then Inr HSAKMT_STATUS_SUCCESS else Inl (Assert_Failed ''hsaKmtDestroyEvent''))"

definition event_operation :: "string \<Rightarrow> u64 option \<Rightarrow> mem_state \<Rightarrow> HSAKMT_STATUS res" where
  "event_operation loc ev st =
     (if \<not> dxg_open st then Inr HSAKMT_STATUS_KERNEL_IO_CHANNEL_NOT_OPENED
      else if ev = None then Inr HSAKMT_STATUS_INVALID_HANDLE else Inl (Assert_Failed loc))"

definition hsaKmtSetEvent :: "u64 option \<Rightarrow> mem_state \<Rightarrow> HSAKMT_STATUS res" where
  "hsaKmtSetEvent = event_operation ''hsaKmtSetEvent''"

definition hsaKmtResetEvent :: "u64 option \<Rightarrow> mem_state \<Rightarrow> HSAKMT_STATUS res" where
  "hsaKmtResetEvent = event_operation ''hsaKmtResetEvent''"

definition hsaKmtQueryEventState :: "u64 option \<Rightarrow> mem_state \<Rightarrow> HSAKMT_STATUS res" where
  "hsaKmtQueryEventState = event_operation ''hsaKmtQueryEventState''"

definition hsaKmtWaitOnMultipleEvents_Ext :: "u64 option list option \<Rightarrow> u32 \<Rightarrow> mem_state \<Rightarrow> HSAKMT_STATUS res" where
  "hsaKmtWaitOnMultipleEvents_Ext events num st =
     (if \<not> dxg_open st then Inr HSAKMT_STATUS_KERNEL_IO_CHANNEL_NOT_OPENED
      else case events of
        None \<Rightarrow> Inr HSAKMT_STATUS_INVALID_HANDLE
      | Some es \<Rightarrow>
          if num = 1 then bindE (at ''hsaKmtWaitOnMultipleEvents_Ext'' es 0) (\<lambda>e.
            if e = None then Inr HSAKMT_STATUS_SUCCESS else Inl (Assert_Failed ''hsaKmtWaitOnMultipleEvents_Ext''))
          else Inl (Assert_Failed ''hsaKmtWaitOnMultipleEvents_Ext''))"

definition hsaKmtWaitOnMultipleEvents :: "u64 option list option \<Rightarrow> u32 \<Rightarrow> mem_state \<Rightarrow> HSAKMT_STATUS res" where
  "hsaKmtWaitOnMultipleEvents events num st = hsaKmtWaitOnMultipleEvents_Ext events num st"

definition hsaKmtWaitOnEvent_Ext :: "u64 option \<Rightarrow> mem_state \<Rightarrow> HSAKMT_STATUS res" where
  "hsaKmtWaitOnEvent_Ext ev st =
     (if ev = None then Inr HSAKMT_STATUS_INVALID_HANDLE else hsaKmtWaitOnMultipleEvents_Ext (Some [ev]) 1 st)"

definition hsaKmtWaitOnEvent :: "u64 option \<Rightarrow> mem_state \<Rightarrow> HSAKMT_STATUS res" where
  "hsaKmtWaitOnEvent ev st = hsaKmtWaitOnEvent_Ext ev st"

definition hsaKmtOpenSMI :: "mem_state \<Rightarrow> HSAKMT_STATUS res" where
  "hsaKmtOpenSMI st = (if \<not> dxg_open st then Inr HSAKMT_STATUS_KERNEL_IO_CHANNEL_NOT_OPENED else Inl (Assert_Failed ''hsaKmtOpenSMI''))"

section \<open>Run-time debugging\<close>

definition hsaKmtCheckRuntimeDebugSupport :: "mem_state \<Rightarrow> HSAKMT_STATUS" where
  "hsaKmtCheckRuntimeDebugSupport st = (if \<not> dxg_open st then HSAKMT_STATUS_KERNEL_IO_CHANNEL_NOT_OPENED else HSAKMT_STATUS_NOT_SUPPORTED)"

definition hsaKmtRuntimeEnable :: "mem_state \<Rightarrow> HSAKMT_STATUS res" where
  "hsaKmtRuntimeEnable st =
     (let result = hsaKmtCheckRuntimeDebugSupport st in
      if result \<noteq> HSAKMT_STATUS_SUCCESS then Inr result else Inl (Assert_Failed ''hsaKmtRuntimeEnable''))"

definition hsaKmtRuntimeDisable :: "mem_state \<Rightarrow> HSAKMT_STATUS res" where
  "hsaKmtRuntimeDisable st =
     (let result = hsaKmtCheckRuntimeDebugSupport st in
      if result \<noteq> HSAKMT_STATUS_SUCCESS then Inr HSAKMT_STATUS_SUCCESS else Inl (Assert_Failed ''hsaKmtRuntimeDisable''))"

section \<open>What a client can rely on\<close>

text \<open>The assertions of the debugging calls are never reached, and waiting for a single event is refused or stops: it never reports success.\<close>

lemma runtime_debug_total:
  "\<exists>r. hsaKmtRuntimeEnable st = Inr r \<and> r \<noteq> HSAKMT_STATUS_SUCCESS" "hsaKmtRuntimeDisable st = Inr HSAKMT_STATUS_SUCCESS"
  by (simp_all add: hsaKmtRuntimeEnable_def hsaKmtRuntimeDisable_def hsaKmtCheckRuntimeDebugSupport_def)

lemma wait_on_event_never_succeeds: "hsaKmtWaitOnEvent ev st \<noteq> Inr HSAKMT_STATUS_SUCCESS"
  by (auto simp: hsaKmtWaitOnEvent_def hsaKmtWaitOnEvent_Ext_def hsaKmtWaitOnMultipleEvents_Ext_def at_def)

text \<open>The clocks of the CPU node cannot be read: the function stops at an assertion for every node that is not a GPU.\<close>

lemma clock_counters_cpu:
  assumes "dxg_open st" "get_wddmdev st node = Inr None"
  shows "hsaKmtGetClockCounters env now node True st = Inl (Assert_Failed ''hsaKmtGetClockCounters'')"
  using assms by (simp add: hsaKmtGetClockCounters_def assertE_def)

text \<open>A size that has been accepted is the one the queries of the topology copy with.\<close>

lemma abi_check_roundtrip:
  assumes "DxgAbiCheck (Some a) old = (HSAKMT_STATUS_SUCCESS, abi)"
  shows "abi = a \<and> StructureSizes a = sizeof_HsaStructureSizes"
  using assms by (auto simp: DxgAbiCheck_def split: if_splits)

end
