(* ===== verification/Spec2Isabelle.thy ===== *)
theory Spec2Isabelle
  imports Memory_Faults Queue_Loop Queue_Thread Queues Misc_Api
begin

text \<open>
  \<^bold>\<open>librocdxg\<close>: the user-mode side of the ROCm runtime on WDDM. The library gives the HSA runtime the
  interface of the Linux kernel driver (\<^verbatim>\<open>hsaKmt...\<close>) on top of the D3DKMT calls of \<^verbatim>\<open>dxcore\<close>. This
  development models the parts that carry its logic and proves what makes them correct.

  \<^bold>\<open>The parts and how they interact.\<close> A client allocates memory through \<^verbatim>\<open>src/src/memory.cpp\<close>. Small requests for
  video memory are cut from blocks by \<^verbatim>\<open>SimpleHeap\<close>, which gets its blocks from the same allocation function with the
  sub-allocator switched off; everything else becomes a memory object (\<^verbatim>\<open>GpuMemory\<close>). A memory object
  takes an address range from the runtime (\<^verbatim>\<open>hsakmtRuntime\<close>), whose heaps are managed by \<^verbatim>\<open>VaMgr\<close>,
  creates allocations of at most two gigabytes each through the device, maps them and makes them resident, waiting for
  the paging fence. A client submits work by writing AQL packets into a ring that
  \<^verbatim>\<open>ComputeQueue\<close> reads: its thread translates each packet into PM4 words in a ring of frames, and submits them in
  indirect buffers, reusing a frame only after the GPU has passed its fence.

  \<^bold>\<open>Conventions.\<close> Machine integers are words at their width and wrap. A failed assertion, an access out of range, the use of
  freed or uninitialised memory are values of the type \<open>fault\<close>; an operation has type \<open>'a res\<close>, which is \<open>fault + 'a\<close>, where the code can
  run into one. Status codes are values of the enumerations of the code. \<^verbatim>\<open>std::map\<close> and \<^verbatim>\<open>std::multimap\<close> are
  ordered association lists with the operations the code uses. Loops are structural recursions or have a termination proof; where a loop of
  the code is bounded by a constant or by a counter, the recursion has the same bound, so that no result depends on fuel that
  can run out. Output for debugging is left out.

  \<^bold>\<open>The kernel and the C library\<close> are code outside the repository. They are a parameter \<open>dx_env\<close>: a function from the trace of
  the calls so far and a call to a reply. What a theorem needs of them is a named hypothesis: \<open>create_ok\<close> (a
  new allocation has handles that no live one has), \<open>destroy_ok\<close> (destroying succeeds), \<open>unmap_gpu_ok\<close> (a
  request to unmap is accepted), \<open>fixed_map_ok\<close> (\<^verbatim>\<open>mmap\<close> with \<^verbatim>\<open>MAP_FIXED\<close> returns the address or fails).
  Witnesses instantiate the parameter by functions for which the hypotheses are proved.

  \<^bold>\<open>Theories\<close>, in the order of the layers:

  \<^item> \<open>Prelude\<close>: the error monad, ordered maps and multimaps, words.
  \<^item> \<open>Utils\<close> (\<^verbatim>\<open>src/src/util/utils.h\<close>): alignment, powers of two, the cutting of pointers.
  \<^item> \<open>Va_Mgr\<close> (\<^verbatim>\<open>src/src/wddm/va_mgr.cpp\<close>): the address manager. The fragments tile the region, no two
    neighbours are free, the free list is exactly the free fragments; allocation and release keep this, return what they promise, and the
    live ranges are disjoint; when all are given back the manager is as new. This is for requests without a fixed address; a fixed address
    inside a free fragment is granted without being recorded. The contract is the locale \<open>range_allocator\<close>, interpreted on the code's operations.
  \<^item> \<open>Pm4\<close> (\<^verbatim>\<open>pm4_cmds.h\<close>, \<^verbatim>\<open>cmd_util.cpp\<close>): packets as words, the builders, and that a reader recovers what was built; the user registers
    of a dispatch, and the scratch addresses at the offsets that are recorded for them.
  \<^item> \<open>Kernel\<close>: the calls, their replies, status codes (\<^verbatim>\<open>src/shared/include/status.h\<close>).
  \<^item> \<open>Device\<close> (\<^verbatim>\<open>src/src/wddm/device.cpp\<close>): segments, contexts, synchronisation objects, the paging fence under
    concurrent updates, the sizes of frames.
  \<^item> \<open>Compute_Queue\<close>, \<open>Frame_Translation\<close>, \<open>Queue_Loop\<close> (\<^verbatim>\<open>src/src/wddm/queue.cpp\<close>): the queue's state, the
    translation of each kind of packet, scratch memory, and the loop. No turn faults or leaves its frame, a submitted word is
    not overwritten before the GPU has executed it, and a dispatch becomes the documented packets.
  \<^item> \<open>Queue_Thread\<close> (\<^verbatim>\<open>src/src/wddm/queue.cpp\<close>): the thread of a compute queue, its doorbell and its stop, as interleaved
    steps: no wake-up is lost.
  \<^item> \<open>Queue_Objects\<close>, \<open>Queue_Lifecycle\<close> (\<^verbatim>\<open>src/src/wddm/queue.cpp\<close>, \<^verbatim>\<open>src/src/wddm/device.cpp\<close>): queues as objects of the kernel and of
    memory. The locale \<open>queue_class\<close> states what the virtual functions of a class of queues promise; it is interpreted for compute queues and
    for SDMA queues. Creation takes everything or nothing, destruction gives back exactly what the queue holds.
  \<^item> \<open>Sdma_Queue\<close> (\<^verbatim>\<open>src/src/wddm/queue.cpp\<close>): the SDMA thread. The doorbell has two halves, of which only the first is under the
    lock; for clients that take turns the stream is submitted in order, without gap or repetition, and without that it is shown how a range is repeated or skipped.
  \<^item> \<open>Queues\<close> (\<^verbatim>\<open>src/src/queues.cpp\<close>): the queue functions of the interface over a table of queues. No two queues and no
    allocation of the client share an object, and every queue of the table can be destroyed.
  \<^item> \<open>Runtime\<close>, \<open>Address_Space\<close> (\<^verbatim>\<open>src/src/openclose.cpp\<close>, \<^verbatim>\<open>librocdxg.h\<close>): the reservation of the heaps and of the handle
    aperture, committing and releasing addresses.
  \<^item> \<open>Gpu_Memory\<close>, \<open>Gpu_Mapping\<close>, \<open>Gpu_Lifecycle\<close> (\<^verbatim>\<open>src/src/wddm/gpu_memory.cpp\<close>): memory objects; mapping is correct
    page by page for a range that starts at a chunk or stays inside one; one that crosses the end of its first chunk runs past an allocation. Creation takes everything or nothing, the destructor gives it back.
  \<^item> \<open>Simple_Heap\<close>, \<open>Sub_Allocator\<close> (\<^verbatim>\<open>src/src/util/simple_heap.h\<close>): the sub-allocator over any block allocator that satisfies the
    locale \<open>block_source\<close>.
  \<^item> \<open>Memory_Api\<close> (\<^verbatim>\<open>src/src/memory.cpp\<close>, \<^verbatim>\<open>src/src/libdrm.cpp\<close>): the memory functions of the interface.
  \<^item> \<open>Memory_Safety\<close>: the invariant of the memory state; \<open>block_source\<close> is interpreted on the library's own block
    allocator; allocation and release refine an abstract range allocator.
  \<^item> \<open>Memory_Faults\<close>: the equality of the entry points that the sub-allocator uses, what releasing an address twice does to the block of the
    sub-allocator, and requests that are not served as described.

  \<^item> \<open>Sysfs\<close>, \<open>Topology\<close>, \<open>Snapshot\<close> (\<^verbatim>\<open>src/src/topology.cpp\<close>): the files of the machine are a parameter of type \<open>sysfs\<close>, what an adapter reports is a list
    in \<open>topology_env\<close>. Numbers, words and maps of processors are parsed as the code does it, the properties of each node are filled in, and the
    functions of the interface read the table. The text that the kernel prints for a set of processors is read back as that set.
  \<^item> \<open>Topology_Safety\<close>: a snapshot is a star of one CPU node and the GPUs, no indirect link is ever added, and the queries stay inside the tables, except for
    the one that does not check its node. A snapshot over the table of a failed one stops at an assertion.

  \<^item> \<open>Open_Close\<close> (\<^verbatim>\<open>src/src/openclose.cpp\<close>): opening and closing the channel is counting, with exactly one descriptor and one reference to
    the library; a child of a fork is refused until it opens the channel. The last section of this theory shows what is missing then.
  \<^item> \<open>Misc_Api\<close> (\<^verbatim>\<open>version.cpp\<close>, \<^verbatim>\<open>time.cpp\<close>, \<^verbatim>\<open>events.cpp\<close>, \<^verbatim>\<open>debug.cpp\<close>): functions that keep no state.

  \<^bold>\<open>Not modelled.\<close> The maximal clock of the CPU, which is read as a floating point number (a parameter of the topology), the functions that only return a
  status, the wrappers of threads and locks, the loader of \<^verbatim>\<open>dxcore\<close>, the binary thunk proxy and the private data it builds, and
  the separate library \<^verbatim>\<open>amdsmi\<close>. Interleaved steps are modelled where the code has threads of its own
  or atomic instructions: the paging fence, the thread of a compute queue with its ring indices, mutex and condition variable, and the SDMA thread with the two halves of
  its doorbell. The functions of the interface are single steps, which describes clients that call one at a time: most of them hold a lock only around single accesses, and the
  sub-allocator is used without any, so that races between concurrent clients are not covered. Nor is the mutex of the runtime, which a child of a fork deletes while it is locked.

  \<^bold>\<open>Simplifications.\<close> The page size of a new runtime, which the constructor leaves uninitialised, is 0 until the channel is opened; no theorem depends on it. The major version of
  a device is an integer where the code has 8 bits, which are enough for every value that occurs. Whether profiling is on is a field of the
  compute queue that does not change, where the code reads it from the queue of the client for each packet. For the loop of the compute queue, the
  submission of a buffer and the signal after it are one answer of the environment (\<open>env_submit\<close>); \<open>Queue_Objects\<close> has them as two calls.
\<close>

section \<open>A snapshot outlives the heaps it was taken with\<close>

text \<open>
  C35. A child of a fork has a topology but no heaps. Opening the channel in the child of a process that has taken a snapshot succeeds and keeps the snapshot, so that
  \<^verbatim>\<open>hsaKmtAcquireSystemProperties\<close> returns it without initialising the heaps of the new runtime. The first request for GPU addresses, in either heap, then
  dereferences a null pointer.
\<close>

theorem child_heap_missing:
  assumes "channel_inv n ch" "0 < n" and "g_system (ch_ts ch) = Some sys" and "env_ok e" "ce_open e \<noteq> -1"
  shows "\<exists>ch'. hsaKmtOpenKFD e (fork_child pid ch) = Inr (HSAKMT_STATUS_SUCCESS, ch') \<and>
    hsaKmtAcquireSystemProperties te True (ch_ts ch') = Inr (HSAKMT_STATUS_SUCCESS, Some sys, ch_ts ch') \<and>
    Runtime_ReserveGpuVirtualAddress env domain hint len alignment lock (ch_rt ch') tr =
      Inl (Null_Deref (if domain = kSystem then ''system_heap_mgr_'' else ''local_heap_mgr_''))"
proof -
  have "fst (is_forked_child (fork_child pid ch))" "ch_fds (fork_child pid ch) = [rt_dxg_fd (ch_rt (fork_child pid ch))]" "0 \<le> rt_dxg_fd (ch_rt (fork_child pid ch))"
    "g_system (ch_ts (fork_child pid ch)) = Some sys"
    using assms(1-3) by (simp_all add: channel_inv_def fork_child_def child_fork_handler_def is_forked_child_def)
  with open_in_child [OF assms(4), of "fork_child pid ch"] assms(5) obtain ch' where
    "hsaKmtOpenKFD e (fork_child pid ch) = Inr (HSAKMT_STATUS_SUCCESS, ch')" "dxg_open (ch_mem ch')" "g_system (ch_ts ch') = Some sys"
    "rt_local_mgr (ch_rt ch') = None" "rt_system_mgr (ch_rt ch') = None" by auto
  then show ?thesis
    by (auto simp: hsaKmtAcquireSystemProperties_def Runtime_ReserveGpuVirtualAddress_def the_mgr_def Let_def)
qed

theorem child_heap_missing_witness:
  "\<exists>ch ch'. g_system (ch_ts ch) = Some zero_system \<and> hsaKmtOpenKFD env_example (fork_child 8 ch) = Inr (HSAKMT_STATUS_SUCCESS, ch') \<and>
     Runtime_ReserveGpuVirtualAddress sample_env kSystem 0 0x1000 0 False (ch_rt ch') [] = Inl (Null_Deref ''system_heap_mgr_'')"
proof -
  from open_example [of 7] obtain ch where "channel_inv 1 ch" by blast
  then have "channel_inv 1 (ch\<lparr>ch_ts := (ch_ts ch)\<lparr>g_system := Some zero_system\<rparr>\<rparr>)" by (simp add: channel_inv_def)
  moreover have "ce_open env_example \<noteq> -1" by (simp add: env_example_def)
  ultimately obtain ch' where "hsaKmtOpenKFD env_example (fork_child 8 (ch\<lparr>ch_ts := (ch_ts ch)\<lparr>g_system := Some zero_system\<rparr>\<rparr>)) = Inr (HSAKMT_STATUS_SUCCESS, ch')"
    "Runtime_ReserveGpuVirtualAddress sample_env kSystem 0 0x1000 0 False (ch_rt ch') [] = Inl (Null_Deref ''system_heap_mgr_'')"
    using child_heap_missing [where n = 1 and sys = zero_system and e = env_example and pid = 8 and env = sample_env and domain = kSystem and hint = 0 and len = "0x1000" and alignment = 0
        and lock = False and tr = "[]", OF _ zero_less_one _ env_example_ok] by fastforce
  moreover have "g_system (ch_ts (ch\<lparr>ch_ts := (ch_ts ch)\<lparr>g_system := Some zero_system\<rparr>\<rparr>)) = Some zero_system" by simp
  ultimately show ?thesis by blast
qed

end
